(* ===== verification/Js_Values.thy ===== *)
theory Js_Values
  imports Prelude
begin

text \<open>
  The part of JavaScript the sources rely on: numbers, untyped values, and the character classes of
  the regular expressions.

  A number is \<open>JInt i\<close> when it is integral (a double beyond \<open>2 ^ 53\<close> is integral too) and
  \<open>JNonInt n\<close> for anything else: a fraction, an infinity or \<open>NaN\<close>, told apart by \<open>n\<close> only. Every
  numeric test of the modelled code is guarded by \<open>Number.isSafeInteger\<close>, so nothing more is read of
  the second kind. The sum of two safe integers is exact as a double whenever it is safe, and is at
  least \<open>2 ^ 53\<close> in size otherwise, so sums that the code tests with \<open>isSafeInteger\<close> are sums in \<open>int\<close>.

  An untyped value is a \<open>jsval\<close>. An array is a list of slots, \<open>None\<close> for a hole. An object is the
  list of its own enumerable string-keyed data properties; \<open>JOther\<close> is every other value (functions,
  symbols, big integers, class instances). Objects with symbol keys, accessors or hidden properties
  are not represented: neither \<open>JSON.parse\<close> nor an object literal of the sources makes one.
  A string is its list of code units, of which the model has the first 256.
\<close>

section \<open>Numbers\<close>

datatype jsnum = JInt int | JNonInt nat

definition max_safe_integer :: int where
  "max_safe_integer = 9007199254740991"

definition safe_int :: "int \<Rightarrow> bool" where
  "safe_int i \<longleftrightarrow> - max_safe_integer \<le> i \<and> i \<le> max_safe_integer"

fun isSafeInteger :: "jsnum \<Rightarrow> bool" where
  "isSafeInteger (JInt i) = safe_int i"
| "isSafeInteger (JNonInt _) = False"

text \<open>A nonnegative safe integer: the test in front of every amount and time.\<close>

definition safe_nonneg :: "int \<Rightarrow> bool" where
  "safe_nonneg i \<longleftrightarrow> safe_int i \<and> 0 \<le> i"

lemma safe_nonneg_iff: "safe_nonneg i \<longleftrightarrow> 0 \<le> i \<and> i \<le> max_safe_integer"
  by (auto simp: safe_nonneg_def safe_int_def max_safe_integer_def)

definition positiveSafeInteger :: "jsnum \<Rightarrow> string \<Rightarrow> string + jsnum" where
  "positiveSafeInteger v name =
     (if \<not> isSafeInteger v \<or> (case v of JInt i \<Rightarrow> i < 1 | JNonInt _ \<Rightarrow> False)
      then Inl (name @ '' must be a positive safe integer'') else Inr v)"

definition boundedInteger :: "jsnum \<Rightarrow> string \<Rightarrow> int \<Rightarrow> int \<Rightarrow> string + jsnum" where
  "boundedInteger v name lo hi =
     (if \<not> isSafeInteger v \<or> (case v of JInt i \<Rightarrow> i < lo \<or> i > hi | JNonInt _ \<Rightarrow> False)
      then Inl (name @ '' must be an integer from min to max'') else Inr v)"

lemma positiveSafeInteger_ok:
  "positiveSafeInteger v n = Inr w \<longleftrightarrow> (\<exists>i. v = JInt i \<and> w = v \<and> 1 \<le> i \<and> i \<le> max_safe_integer)"
  by (cases v) (auto simp: positiveSafeInteger_def safe_int_def max_safe_integer_def)

section \<open>Untyped values\<close>

datatype jsval =
    JUndef
  | JNull
  | JBool bool
  | JNum jsnum
  | JStr string
  | JArr "jsval option list"
  | JObj "(string \<times> jsval) list"
  | JOther nat

text \<open>\<open>isRecord\<close> of \<open>guards.ts\<close>: a plain object.\<close>

fun isRecord :: "jsval \<Rightarrow> bool" where
  "isRecord (JObj _) = True"
| "isRecord _ = False"

text \<open>Property access \<open>value.key\<close>; a missing property reads as undefined.\<close>

fun js_get :: "jsval \<Rightarrow> string \<Rightarrow> jsval" where
  "js_get (JObj ps) k = (case map_of ps k of None \<Rightarrow> JUndef | Some v \<Rightarrow> v)"
| "js_get _ k = JUndef"

text \<open>\<open>key in value\<close>\<close>

fun js_has :: "jsval \<Rightarrow> string \<Rightarrow> bool" where
  "js_has (JObj ps) k = (k \<in> fst ` set ps)"
| "js_has _ k = False"

text \<open>\<open>Reflect.ownKeys\<close>\<close>

fun js_keys :: "jsval \<Rightarrow> string list" where
  "js_keys (JObj ps) = map fst ps"
| "js_keys _ = []"

text \<open>An array literal: no holes.\<close>

definition js_array :: "jsval list \<Rightarrow> jsval" where
  "js_array vs = JArr (map Some vs)"

definition js_int :: "int \<Rightarrow> jsval" where
  "js_int i = JNum (JInt i)"

lemma js_int_inject [simp]: "js_int i = js_int j \<longleftrightarrow> i = j"
  by (simp add: js_int_def)

section \<open>Character classes\<close>

definition digits :: string where
  "digits = ''0123456789''"

definition lower_hex :: string where
  "lower_hex = ''0123456789abcdef''"

definition lower_alpha :: string where
  "lower_alpha = ''abcdefghijklmnopqrstuvwxyz''"

definition upper_alpha :: string where
  "upper_alpha = ''ABCDEFGHIJKLMNOPQRSTUVWXYZ''"

definition all_in :: "string \<Rightarrow> string \<Rightarrow> bool" where
  "all_in cls s = list_all (\<lambda>c. c \<in> set cls) s"

text \<open>The pattern \<open>^[0-9a-f]{64}$\<close> of the content hashes.\<close>

definition hash_pattern :: "string \<Rightarrow> bool" where
  "hash_pattern s \<longleftrightarrow> length s = 64 \<and> all_in lower_hex s"

lemma all_in_Nil [simp]: "all_in cls []"
  by (simp add: all_in_def)

lemma all_in_Cons [simp]: "all_in cls (c # s) \<longleftrightarrow> c \<in> set cls \<and> all_in cls s"
  by (simp add: all_in_def)

lemma all_in_append [simp]: "all_in cls (s @ t) \<longleftrightarrow> all_in cls s \<and> all_in cls t"
  by (simp add: all_in_def)

lemma all_in_iff: "all_in cls s \<longleftrightarrow> set s \<subseteq> set cls"
  by (auto simp: all_in_def list_all_iff)

lemma all_in_replicate [simp]: "all_in cls (replicate n c) \<longleftrightarrow> n = 0 \<or> c \<in> set cls"
  by (simp add: all_in_iff set_replicate_conv_if)

lemma hash_pattern_not_Nil: "hash_pattern s \<Longrightarrow> s \<noteq> []"
  by (auto simp: hash_pattern_def)

section \<open>Texts\<close>

text \<open>\<open>String(n)\<close> of a natural number.\<close>

fun decimal_text :: "nat \<Rightarrow> string" where
  "decimal_text n = (if n < 10 then [digits ! n] else decimal_text (n div 10) @ [digits ! (n mod 10)])"

declare decimal_text.simps [simp del]

lemma digits_inject: "i < 10 \<Longrightarrow> j < 10 \<Longrightarrow> digits ! i = digits ! j \<longleftrightarrow> i = j"
  by (rule nth_eq_iff_index_eq) (simp_all add: digits_def)

lemma decimal_text_Nil: "decimal_text n \<noteq> []"
  by (subst decimal_text.simps) simp

lemma decimal_text_inject: "decimal_text m = decimal_text n \<longleftrightarrow> m = n"
proof (induction m arbitrary: n rule: less_induct)
  case (less m)
  show ?case
  proof (cases "m < 10 \<or> n < 10")
    case True
    then show ?thesis
      by (subst (1 2) decimal_text.simps) (auto simp: digits_inject decimal_text_Nil Cons_eq_append_conv append_eq_Cons_conv)
  next
    case False
    then have "decimal_text m = decimal_text n \<longleftrightarrow>
        decimal_text (m div 10) = decimal_text (n div 10) \<and> digits ! (m mod 10) = digits ! (n mod 10)"
      by (subst (1 2) decimal_text.simps) simp
    also have "\<dots> \<longleftrightarrow> m div 10 = n div 10 \<and> m mod 10 = n mod 10"
      using less.IH [of "m div 10" "n div 10"] False by (simp add: digits_inject)
    also have "\<dots> \<longleftrightarrow> m = n"
      by (metis div_mult_mod_eq)
    finally show ?thesis .
  qed
qed

text \<open>\<open>String(i)\<close> of an integer below \<open>10 ^ 21\<close> in size; a larger one would be printed with an exponent.\<close>

definition int_text :: "int \<Rightarrow> string" where
  "int_text i = (if i < 0 then CHR ''-'' # decimal_text (nat (- i)) else decimal_text (nat i))"

text \<open>\<open>s.toUpperCase()\<close> on the letters of ASCII. (Texts with other letters are compared with the method of
  a request only, which has none.)\<close>

definition ascii_upper :: "string \<Rightarrow> string" where
  "ascii_upper s = map (\<lambda>c. if c \<in> set lower_alpha then char_of (of_char c - 32 :: nat) else c) s"

text \<open>\<open>v ?? d\<close>\<close>

definition coalesce :: "jsval \<Rightarrow> jsval \<Rightarrow> jsval" where
  "coalesce v d = (if v = JUndef \<or> v = JNull then d else v)"

text \<open>An optional text as a property that may be missing.\<close>

definition js_opt :: "string option \<Rightarrow> jsval" where
  "js_opt s = (case s of None \<Rightarrow> JUndef | Some t \<Rightarrow> JStr t)"

end
