(* ===== verification/Delivery_Errors.thy ===== *)
theory Delivery_Errors
  imports Js_Values
begin

text \<open>
  \<open>packages/delivery-core/src/errors.ts\<close>: the codes a \<open>DeliveryValidationError\<close> carries. A thrown
  \<open>DeliveryValidationError\<close> is modelled by its code; the message is not kept.
\<close>

datatype delivery_error =
    INVALID_PROTOCOL_ID
  | INVALID_RANDOM_SOURCE
  | INVALID_MINT_URL
  | INSECURE_MINT_URL
  | INVALID_RECEIPT
  | RECEIPT_IDENTITY_MISMATCH
  | STATUS_REGRESSION
  | STATUS_VERSION_CONFLICT
  | INVALID_FINGERPRINT_INPUT
  | INVALID_PROOF_POINT
  | DUPLICATE_PROOF_POINT
  | INVALID_DELIVERY_NEGOTIATION
  | INVALID_DELIVERY_PAYLOAD
  | DELIVERY_EXPIRED
  | INVALID_AMOUNT
  | UNKNOWN_KEYSET
  | AMOUNT_MISMATCH

end
