(* ===== verification/Negotiation.thy ===== *)
theory Negotiation
  imports Delivery_Errors
begin

text \<open>
  \<open>packages/delivery-core/src/request.ts\<close>: reading a delivery negotiation out of the tags of a payment
  request's transport. The negotiated record holds the literal version 1 and the expiry, so the model
  returns the expiry.
\<close>

text \<open>The texts of one tag: at least a name and a value, every slot a string.\<close>

definition tag_item :: "jsval option \<Rightarrow> delivery_error + string" where
  "tag_item x = (case x of Some (JStr s) \<Rightarrow> Inr s | _ \<Rightarrow> Inl INVALID_DELIVERY_NEGOTIATION)"

definition tag_texts :: "jsval option \<Rightarrow> delivery_error + string list" where
  "tag_texts slot =
     (case slot of
        Some (JArr items) \<Rightarrow>
          if length items < 2 then Inl INVALID_DELIVERY_NEGOTIATION else traverse tag_item items
      | _ \<Rightarrow> Inl INVALID_DELIVERY_NEGOTIATION)"

text \<open>The values pushed for the tags with a given name, in order.\<close>

definition tag_values :: "string \<Rightarrow> string list list \<Rightarrow> string list" where
  "tag_values name tags = map (\<lambda>t. t ! 1) (filter (\<lambda>t. t ! 0 = name) tags)"

definition canonical_decimal :: "string \<Rightarrow> bool" where
  "canonical_decimal s \<longleftrightarrow> s = ''0'' \<or> (s \<noteq> [] \<and> all_in digits s \<and> hd s \<noteq> CHR ''0'')"

definition digit_value :: "char \<Rightarrow> int" where
  "digit_value c = of_char c - 48"

text \<open>
  \<open>Number(text)\<close> on a decimal text. Beyond \<open>2 ^ 53\<close> the double is rounded, which keeps it out of the
  safe range and does not change any later test.
\<close>

definition decimal_value :: "string \<Rightarrow> int" where
  "decimal_value s = foldl (\<lambda>n c. n * 10 + digit_value c) 0 s"

definition parseDeliveryNegotiation :: "jsval \<Rightarrow> jsnum \<Rightarrow> delivery_error + int option" where
  "parseDeliveryNegotiation value now0 =
     (case now0 of
        JNonInt _ \<Rightarrow> Inl INVALID_DELIVERY_NEGOTIATION
      | JInt now \<Rightarrow>
        if \<not> safe_int now \<or> now < 0 then Inl INVALID_DELIVERY_NEGOTIATION
        else case value of
          JArr slots \<Rightarrow>
            rbind (traverse tag_texts slots) (\<lambda>tags.
            let deliveryVersions = tag_values ''delivery'' tags;
                expiries = tag_values ''expires_at'' tags in
            if deliveryVersions = [] then Inr None
            else if length deliveryVersions \<noteq> 1 then Inl INVALID_DELIVERY_NEGOTIATION
            else if hd deliveryVersions \<noteq> ''1'' then Inr None
            else if length expiries \<noteq> 1 then Inl INVALID_DELIVERY_NEGOTIATION
            else if \<not> canonical_decimal (hd expiries) then Inl INVALID_DELIVERY_NEGOTIATION
            else let expiresAt = decimal_value (hd expiries) in
              if \<not> safe_int expiresAt then Inl INVALID_DELIVERY_NEGOTIATION
              else if expiresAt \<le> now then Inl DELIVERY_EXPIRED
              else if expiresAt - now > 86400 then Inl INVALID_DELIVERY_NEGOTIATION
              else Inr (Some expiresAt))
        | _ \<Rightarrow> Inl INVALID_DELIVERY_NEGOTIATION)"

lemma singleton_conv: "length xs = 1 \<longleftrightarrow> xs = [hd xs]"
  by (cases xs) auto

lemma negotiated_iff:
  "parseDeliveryNegotiation value now0 = Inr (Some t) \<longleftrightarrow>
     (\<exists>slots tags now text.
        value = JArr slots \<and> traverse tag_texts slots = Inr tags \<and> now0 = JInt now \<and>
        tag_values ''delivery'' tags = [''1''] \<and> tag_values ''expires_at'' tags = [text] \<and>
        canonical_decimal text \<and> t = decimal_value text \<and> safe_int t \<and>
        safe_nonneg now \<and> now < t \<and> t \<le> now + 86400)"
    (is "_ \<longleftrightarrow> ?R")
proof
  assume "parseDeliveryNegotiation value now0 = Inr (Some t)"
  then show ?R
    by (auto simp: parseDeliveryNegotiation_def Let_def rbind_eq_Inr safe_nonneg_def length_Suc_conv
        split: jsnum.splits jsval.splits if_splits)
next
  assume ?R
  then show "parseDeliveryNegotiation value now0 = Inr (Some t)"
    by (auto simp: parseDeliveryNegotiation_def Let_def safe_nonneg_def)
qed

text \<open>
  A delivery is negotiated exactly when the tags are well formed, hold one \<open>delivery\<close> tag of value
  1 and one \<open>expires_at\<close> tag, and that one is a canonical decimal between the current second and
  86400 seconds later; the negotiated expiry is its value.
\<close>

theorem parseDeliveryNegotiation_iff:
  "parseDeliveryNegotiation value now0 = Inr (Some t) \<longleftrightarrow>
     (\<exists>slots tags now text.
        value = JArr slots \<and> traverse tag_texts slots = Inr tags \<and> now0 = JInt now \<and>
        tag_values ''delivery'' tags = [''1''] \<and> tag_values ''expires_at'' tags = [text] \<and>
        canonical_decimal text \<and> t = decimal_value text \<and> safe_int t \<and>
        safe_nonneg now \<and> now < t \<and> t \<le> now + 86400)"
  by (rule negotiated_iff)

end
