(* ===== verification/Duplicate.thy ===== *)
theory Duplicate
  imports Prelude
begin

text \<open>
  \<open>packages/delivery-core/src/duplicate.ts\<close>: how a delivery relates to those already bound.
\<close>

record delivery_binding =
  bd_requestId :: string
  bd_deliveryId :: string
  bd_payloadHash :: string
  bd_proofSetHash :: string
  bd_holdsProofClaim :: bool
  bd_holdsRequestReservation :: bool

datatype delivery_classification =
  New | Duplicated | Delivery_conflict | Proof_conflict | Single_use_conflict

definition classifyDelivery ::
    "delivery_binding list \<Rightarrow> delivery_binding \<Rightarrow> bool \<Rightarrow> delivery_classification" where
  "classifyDelivery existing incoming singleUse =
     (case find (\<lambda>item. bd_deliveryId item = bd_deliveryId incoming) existing of
        Some same \<Rightarrow>
          if bd_payloadHash same = bd_payloadHash incoming \<and>
             bd_proofSetHash same = bd_proofSetHash incoming \<and>
             bd_requestId same = bd_requestId incoming
          then Duplicated else Delivery_conflict
      | None \<Rightarrow>
          if \<exists>item\<in>set existing. bd_holdsProofClaim item \<and> bd_proofSetHash item = bd_proofSetHash incoming
          then Proof_conflict
          else if singleUse \<and>
            (\<exists>item\<in>set existing. bd_holdsRequestReservation item \<and> bd_requestId item = bd_requestId incoming)
          then Single_use_conflict
          else New)"

text \<open>The bindings a receiver may hold at once; \<open>single\<close> tells the single-use requests.\<close>

definition exclusive :: "(string \<Rightarrow> bool) \<Rightarrow> delivery_binding list \<Rightarrow> bool" where
  "exclusive single bs \<longleftrightarrow>
     distinct (map bd_deliveryId bs) \<and>
     distinct (map bd_proofSetHash (filter bd_holdsProofClaim bs)) \<and>
     distinct (map bd_requestId (filter (\<lambda>b. bd_holdsRequestReservation b \<and> single (bd_requestId b)) bs))"

lemma classify_New_iff:
  "classifyDelivery existing b singleUse = New \<longleftrightarrow>
     bd_deliveryId b \<notin> bd_deliveryId ` set existing \<and>
     \<not> (\<exists>e\<in>set existing. bd_holdsProofClaim e \<and> bd_proofSetHash e = bd_proofSetHash b) \<and>
     \<not> (singleUse \<and> (\<exists>e\<in>set existing. bd_holdsRequestReservation e \<and> bd_requestId e = bd_requestId b))"
proof (cases "find (\<lambda>item. bd_deliveryId item = bd_deliveryId b) existing")
  case None
  then have "bd_deliveryId b \<notin> bd_deliveryId ` set existing"
    by (auto simp: find_None_iff image_iff)
  with None show ?thesis
    by (auto simp: classifyDelivery_def)
next
  case (Some e)
  then have "bd_deliveryId b \<in> bd_deliveryId ` set existing"
    using find_Some_in [OF Some] by (simp add: image_iff) (metis (full_types))
  with Some show ?thesis
    by (auto simp: classifyDelivery_def)
qed

text \<open>
  Admitting exactly the deliveries classified as new keeps bindings exclusive: no two share a
  delivery identifier, no two claim the same proofs, and a single-use request is reserved by one. A
  delivery so admitted is classified as a duplicate when it arrives again.
\<close>

theorem classifyDelivery_exclusive:
  assumes "exclusive single existing" and "classifyDelivery existing b (single (bd_requestId b)) = New"
  shows "exclusive single (existing @ [b]) \<and> classifyDelivery (existing @ [b]) b s = Duplicated"
proof -
  have new: "bd_deliveryId b \<notin> bd_deliveryId ` set existing"
    using assms(2) by (simp add: classify_New_iff)
  then have "find (\<lambda>item. bd_deliveryId item = bd_deliveryId b) existing = None"
    by (auto simp: find_None_iff image_iff)
  then have "find (\<lambda>item. bd_deliveryId item = bd_deliveryId b) (existing @ [b]) = Some b"
    by (induction existing) (auto split: if_splits)
  then have "classifyDelivery (existing @ [b]) b s = Duplicated"
    by (simp add: classifyDelivery_def)
  then show ?thesis
    using assms by (auto simp: exclusive_def classify_New_iff)
qed

definition demo_binding :: "string \<Rightarrow> string \<Rightarrow> string \<Rightarrow> delivery_binding" where
  "demo_binding r d p = \<lparr>bd_requestId = r, bd_deliveryId = d, bd_payloadHash = ''h'', bd_proofSetHash = p,
     bd_holdsProofClaim = True, bd_holdsRequestReservation = True\<rparr>"

theorem classifyDelivery_exclusive_witness:
  "exclusive (\<lambda>r. r = ''one'') [demo_binding ''one'' ''a'' ''p'', demo_binding ''many'' ''b'' ''q''] \<and>
   classifyDelivery [demo_binding ''one'' ''a'' ''p''] (demo_binding ''one'' ''b'' ''q'') True = Single_use_conflict"
proof -
  have "exclusive (\<lambda>r. r = ''one'') [demo_binding ''one'' ''a'' ''p'']"
    by (simp add: exclusive_def demo_binding_def)
  moreover have "classifyDelivery [demo_binding ''one'' ''a'' ''p''] (demo_binding ''many'' ''b'' ''q'') False = New"
    by (simp add: classifyDelivery_def demo_binding_def)
  ultimately show ?thesis
    using classifyDelivery_exclusive [of "\<lambda>r. r = ''one''" "[demo_binding ''one'' ''a'' ''p'']"
        "demo_binding ''many'' ''b'' ''q''" True]
    by (simp add: classifyDelivery_def demo_binding_def)
qed

end
