(* ===== verification/Protocol_Id.thy ===== *)
theory Protocol_Id
  imports Delivery_Errors
begin

text \<open>
  \<open>packages/delivery-core/src/ids.ts\<close>: protocol identifiers are the unpadded base64url text of 16
  bytes. \<open>Buffer.from(text, 'base64url')\<close> and \<open>toString('base64url')\<close> are \<open>b64url_decode\<close> (over
  the digits' values) and \<open>b64url_encode\<close>; a byte is a natural number below 256. The random source is
  a parameter, as in the code.
\<close>

section \<open>base64url\<close>

definition b64_alphabet :: string where
  "b64_alphabet = upper_alpha @ lower_alpha @ digits @ ''-_''"

definition b64_char :: "nat \<Rightarrow> char" where
  "b64_char i = b64_alphabet ! i"

definition b64_index :: "char \<Rightarrow> nat" where
  "b64_index c = length (takeWhile (\<lambda>x. x \<noteq> c) b64_alphabet)"

fun b64url_encode :: "nat list \<Rightarrow> string" where
  "b64url_encode [] = []"
| "b64url_encode [a] = [b64_char (a div 4), b64_char (a mod 4 * 16)]"
| "b64url_encode [a, b] =
     [b64_char (a div 4), b64_char (a mod 4 * 16 + b div 16), b64_char (b mod 16 * 4)]"
| "b64url_encode (a # b # c # bs) =
     b64_char (a div 4) # b64_char (a mod 4 * 16 + b div 16) #
     b64_char (b mod 16 * 4 + c div 64) # b64_char (c mod 64) # b64url_encode bs"

text \<open>The decoder drops the unused low bits of the last digit, and a lone last digit.\<close>

fun b64url_decode :: "nat list \<Rightarrow> nat list" where
  "b64url_decode (i # j # k # l # ds) =
     (i * 4 + j div 16) # (j mod 16 * 16 + k div 4) # (k mod 4 * 64 + l) # b64url_decode ds"
| "b64url_decode [i, j, k] = [i * 4 + j div 16, j mod 16 * 16 + k div 4]"
| "b64url_decode [i, j] = [i * 4 + j div 16]"
| "b64url_decode [i] = []"
| "b64url_decode [] = []"

section \<open>Identifiers\<close>

definition protocol_id_pattern :: "string \<Rightarrow> bool" where
  "protocol_id_pattern s \<longleftrightarrow> length s = 22 \<and> all_in b64_alphabet s"

definition parseProtocolId :: "string \<Rightarrow> delivery_error + string" where
  "parseProtocolId v =
     (if \<not> protocol_id_pattern v then Inl INVALID_PROTOCOL_ID
      else let decoded = b64url_decode (map b64_index v) in
        if length decoded \<noteq> 16 \<or> b64url_encode decoded \<noteq> v then Inl INVALID_PROTOCOL_ID
        else Inr v)"

definition generateProtocolId :: "(nat \<Rightarrow> nat list) \<Rightarrow> delivery_error + string" where
  "generateProtocolId source =
     (let bytes = source 16 in
      if length bytes \<noteq> 16 then Inl INVALID_RANDOM_SOURCE
      else parseProtocolId (b64url_encode bytes))"

section \<open>The codec\<close>

lemma length_b64_alphabet: "length b64_alphabet = 64"
  by (simp add: b64_alphabet_def upper_alpha_def lower_alpha_def digits_def)

lemma distinct_b64_alphabet: "distinct b64_alphabet"
  by (simp add: b64_alphabet_def upper_alpha_def lower_alpha_def digits_def)

lemma b64_index_char [simp]:
  assumes "i < 64"
  shows "b64_index (b64_char i) = i"
proof -
  have "takeWhile (\<lambda>x. x \<noteq> b64_alphabet ! i) b64_alphabet = take i b64_alphabet"
    using assms distinct_b64_alphabet
    by (intro takeWhile_eq_take_P_nth) (auto simp: nth_eq_iff_index_eq length_b64_alphabet)
  then show ?thesis
    using assms by (simp add: b64_index_def b64_char_def length_b64_alphabet)
qed

lemma b64_char_inject [simp]: "i < 64 \<Longrightarrow> j < 64 \<Longrightarrow> b64_char i = b64_char j \<longleftrightarrow> i = j"
  by (metis b64_index_char)

lemma b64_char_in [simp]: "i < 64 \<Longrightarrow> b64_char i \<in> set b64_alphabet"
  by (simp add: b64_char_def length_b64_alphabet)

lemma b64_char_ex: "c \<in> set b64_alphabet \<Longrightarrow> \<exists>i<64. c = b64_char i"
  by (auto simp: in_set_conv_nth b64_char_def length_b64_alphabet)

lemma b64_index_lt [simp]: "c \<in> set b64_alphabet \<Longrightarrow> b64_index c < 64"
  using b64_char_ex by fastforce

lemma b64_char_index [simp]: "c \<in> set b64_alphabet \<Longrightarrow> b64_char (b64_index c) = c"
  using b64_char_ex by fastforce

lemma map_char_index: "all_in b64_alphabet s \<Longrightarrow> map (b64_char \<circ> b64_index) s = s"
  by (induction s) auto

text \<open>The digit strings the encoder produces: no unused bit is set, no lone last digit.\<close>

fun b64_canonical :: "nat list \<Rightarrow> bool" where
  "b64_canonical (i # j # k # l # ds) = b64_canonical ds"
| "b64_canonical [i, j, k] = (k mod 4 = 0)"
| "b64_canonical [i, j] = (j mod 16 = 0)"
| "b64_canonical [i] = False"
| "b64_canonical [] = True"

text \<open>The divisions on digits and on bytes that the codec's steps leave.\<close>

lemma digit_arith [simp]:
  fixes j :: nat
  assumes "j < 64"
  shows "j div 16 div 4 = 0" "j div 16 mod 4 = j div 16" "j div 4 div 16 = 0" "j div 4 mod 16 = j div 4"
proof -
  have "j div 16 < 4" "j div 4 < 16"
    using assms by (simp_all add: less_mult_imp_div_less)
  then show "j div 16 div 4 = 0" "j div 16 mod 4 = j div 16" "j div 4 div 16 = 0"
    "j div 4 mod 16 = j div 4"
    by simp_all
qed

lemma byte_arith [simp]:
  fixes b :: nat
  assumes "b < 256"
  shows "b div 4 < 64" "b div 16 div 16 = 0" "b div 16 mod 16 = b div 16" "b div 64 div 4 = 0"
    "b div 64 mod 4 = b div 64"
proof -
  have "b div 16 < 16" "b div 64 < 4"
    using assms by (simp_all add: less_mult_imp_div_less)
  then show "b div 4 < 64" "b div 16 div 16 = 0" "b div 16 mod 16 = b div 16" "b div 64 div 4 = 0"
    "b div 64 mod 4 = b div 64"
    using assms by (simp_all add: less_mult_imp_div_less)
qed

lemma low_bits_bound:
  fixes a b :: nat
  assumes "b < 256"
  shows "a mod 4 * 16 + b div 16 < 64" "a mod 16 * 4 + b div 64 < 64"
proof -
  have "a mod 4 < 4" "a mod 16 < 16" "b div 16 < 16" "b div 64 < 4"
    using assms by (simp_all add: less_mult_imp_div_less)
  then show "a mod 4 * 16 + b div 16 < 64" "a mod 16 * 4 + b div 64 < 64"
    by linarith+
qed

lemma round_down:
  fixes n :: nat
  shows "n div 16 * 16 = n \<longleftrightarrow> n mod 16 = 0" "n div 4 * 4 = n \<longleftrightarrow> n mod 4 = 0"
  by presburger+

lemma encode_decode:
  assumes "list_all (\<lambda>i. i < 64) ds"
  shows "b64url_encode (b64url_decode ds) = map b64_char ds \<longleftrightarrow> b64_canonical ds"
  using assms
proof (induction ds rule: b64url_decode.induct)
  case (2 i j k)
  then have "k div 4 * 4 < 64"
    by (simp add: less_mult_imp_div_less)
  with 2 show ?case by (simp add: round_down)
next
  case (3 i j)
  then have "j div 16 * 16 < 64"
    by (simp add: less_mult_imp_div_less)
  with 3 show ?case by (simp add: round_down)
qed simp_all

text \<open>Decoding inverts encoding, on any bytes.\<close>

lemma decode_encode:
  assumes "list_all (\<lambda>b. b < 256) bs"
  shows "b64url_decode (map b64_index (b64url_encode bs)) = bs"
  using assms
  by (induction bs rule: b64url_encode.induct)
    (simp_all add: low_bits_bound low_bits_bound [of 0, simplified])

lemma encode_alphabet: "list_all (\<lambda>b. b < 256) bs \<Longrightarrow> all_in b64_alphabet (b64url_encode bs)"
  by (induction bs rule: b64url_encode.induct)
    (simp_all add: low_bits_bound low_bits_bound [of 0, simplified])

lemma length_encode: "length (b64url_encode bs) = (4 * length bs + 2) div 3"
  by (induction bs rule: b64url_encode.induct) simp_all

lemma length_decode: "length (b64url_decode ds) = 3 * length ds div 4"
  by (induction ds rule: b64url_decode.induct) simp_all

lemma canonical_last:
  "length ds mod 4 = 2 \<Longrightarrow> b64_canonical ds \<longleftrightarrow> last ds mod 16 = 0"
proof (induction ds rule: b64url_decode.induct)
  case (1 i j k l ds)
  then have "ds \<noteq> []" by auto
  with 1 show ?case by simp
qed simp_all

lemma index_mod_16:
  assumes "c \<in> set b64_alphabet"
  shows "b64_index c mod 16 = 0 \<longleftrightarrow> c \<in> set ''AQgw''"
proof -
  obtain i where i: "i < 64" "c = b64_char i"
    using assms b64_char_ex by blast
  have chars: "b64_char 0 = CHR ''A''" "b64_char 16 = CHR ''Q''" "b64_char 32 = CHR ''g''"
    "b64_char 48 = CHR ''w''"
    by (simp_all add: b64_char_def b64_alphabet_def upper_alpha_def lower_alpha_def digits_def)
  have "i mod 16 = 0 \<longleftrightarrow> i = 0 \<or> i = 16 \<or> i = 32 \<or> i = 48"
    using i(1) by presburger
  also have "\<dots> \<longleftrightarrow> c = b64_char 0 \<or> c = b64_char 16 \<or> c = b64_char 32 \<or> c = b64_char 48"
    using i by simp
  finally show ?thesis
    using i by (simp add: chars)
qed

lemma parseProtocolId_iff:
  "parseProtocolId v = Inr w \<longleftrightarrow>
     w = v \<and> length v = 22 \<and> all_in b64_alphabet v \<and> last v \<in> set ''AQgw''"
proof (cases "protocol_id_pattern v")
  case True
  let ?ds = "map b64_index v"
  from True have v: "length v = 22" "all_in b64_alphabet v" "v \<noteq> []"
    by (auto simp: protocol_id_pattern_def)
  have "list_all (\<lambda>i. i < 64) ?ds"
    using v(2) by (auto simp: list_all_iff all_in_iff)
  then have "b64url_encode (b64url_decode ?ds) = map b64_char ?ds \<longleftrightarrow> b64_canonical ?ds"
    by (rule encode_decode)
  then have "b64url_encode (b64url_decode ?ds) = v \<longleftrightarrow> b64_canonical ?ds"
    using map_char_index [OF v(2)] by simp
  also have "\<dots> \<longleftrightarrow> last ?ds mod 16 = 0"
    by (rule canonical_last) (simp add: v(1))
  also have "\<dots> \<longleftrightarrow> last v \<in> set ''AQgw''"
    using index_mod_16 [of "last v"] v last_in_set [OF v(3)] by (simp add: last_map all_in_iff subset_iff)
  finally show ?thesis
    using True v by (auto simp: parseProtocolId_def length_decode)
next
  case False
  then show ?thesis by (auto simp: parseProtocolId_def protocol_id_pattern_def)
qed

lemma parseProtocolId_Inl: "parseProtocolId v = Inl e \<Longrightarrow> e = INVALID_PROTOCOL_ID"
  by (auto simp: parseProtocolId_def Let_def split: if_splits)

lemma parseProtocolId_same: "parseProtocolId v = Inr w \<Longrightarrow> w = v"
  by (simp add: parseProtocolId_iff)

lemma parseProtocolId_eq: "parseProtocolId v = Inr w \<longleftrightarrow> is_ok (parseProtocolId v) \<and> w = v"
  by (cases "parseProtocolId v") (auto dest: parseProtocolId_same)

text \<open>
  C40: The identifiers the parser accepts are exactly the 22-character base64url texts whose last
  character leaves no bit unused (one of A, Q, g, w); the parser returns them unchanged.
\<close>

theorem parseProtocolId_language:
  "parseProtocolId v = Inr w \<longleftrightarrow>
     w = v \<and> length v = 22 \<and> all_in b64_alphabet v \<and> last v \<in> set ''AQgw''"
  by (rule parseProtocolId_iff)

text \<open>
  Any 16 random bytes give an identifier: generation cannot fail on a well-behaved source, the
  identifier is accepted by the parser, and its bytes can be read back, so distinct byte strings give
  distinct identifiers.
\<close>

theorem generateProtocolId_roundtrip:
  assumes "length bs = 16" and "list_all (\<lambda>b. b < 256) bs" and "source 16 = bs"
  shows "generateProtocolId source = Inr (b64url_encode bs)
    \<and> b64url_decode (map b64_index (b64url_encode bs)) = bs"
proof -
  let ?v = "b64url_encode bs"
  have "length ?v = 22"
    by (simp add: length_encode assms(1))
  moreover have "all_in b64_alphabet ?v"
    by (rule encode_alphabet [OF assms(2)])
  moreover have bytes: "b64url_decode (map b64_index ?v) = bs"
    by (rule decode_encode [OF assms(2)])
  ultimately have "parseProtocolId ?v = Inr ?v"
    using assms(1) by (simp add: parseProtocolId_def protocol_id_pattern_def)
  with bytes show ?thesis
    using assms(1,3) by (simp add: generateProtocolId_def)
qed

theorem generateProtocolId_roundtrip_witness:
  "generateProtocolId (\<lambda>n. replicate n 255) = Inr ''_____________________w''"
proof -
  have "b64url_encode (replicate 16 255) = ''_____________________w''"
    by code_simp
  moreover have "generateProtocolId (\<lambda>n. replicate n 255) = Inr (b64url_encode (replicate 16 255))"
    using generateProtocolId_roundtrip [of "replicate 16 255" "\<lambda>n. replicate n 255"]
    by (simp add: list_all_iff)
  ultimately show ?thesis by simp
qed

text \<open>An identifier for concrete examples: sixteen zero bytes.\<close>

definition demo_id :: string where
  "demo_id = ''AAAAAAAAAAAAAAAAAAAAAA''"

lemma demo_id_ok [simp]: "parseProtocolId demo_id = Inr demo_id"
  by (simp add: parseProtocolId_iff demo_id_def b64_alphabet_def upper_alpha_def)

end
