(* ===== verification/Mint_Url.thy ===== *)
theory Mint_Url
  imports Delivery_Errors
begin

text \<open>
  \<open>packages/delivery-core/src/mint-url.ts\<close>: the canonical form of a mint URL.

  The URL parser of the platform (\<open>new URL(value)\<close>) and its \<open>hostname\<close> setter are parameters, a
  record \<open>url_api\<close> of two functions; what the code reads of a parsed URL is the record \<open>url\<close>. The
  text scans that come before the parser (\<open>indexOf\<close>, \<open>slice\<close>, \<open>trim\<close>, \<open>includes\<close>) are modelled
  in full.
\<close>

record url =
  u_protocol :: string
  u_username :: string
  u_password :: string
  u_hostname :: string
  u_host :: string
  u_pathname :: string
  u_search :: string
  u_hash :: string

record url_api =
  url_new :: "string \<Rightarrow> url option"
  url_set_hostname :: "url \<Rightarrow> string \<Rightarrow> url"

section \<open>String operations\<close>

fun is_prefix :: "string \<Rightarrow> string \<Rightarrow> bool" where
  "is_prefix [] s = True"
| "is_prefix (p # ps) [] = False"
| "is_prefix (p # ps) (c # s) = (p = c \<and> is_prefix ps s)"

text \<open>\<open>s.indexOf(needle)\<close>, with \<open>None\<close> for \<open>-1\<close>, and \<open>s.indexOf(needle, from)\<close>.\<close>

fun index_of :: "string \<Rightarrow> string \<Rightarrow> nat option" where
  "index_of needle [] = (if needle = [] then Some 0 else None)"
| "index_of needle (c # s) =
     (if is_prefix needle (c # s) then Some 0 else map_option Suc (index_of needle s))"

definition index_of_from :: "string \<Rightarrow> nat \<Rightarrow> string \<Rightarrow> nat option" where
  "index_of_from needle from s = map_option (\<lambda>i. from + i) (index_of needle (drop from s))"

definition slice :: "nat \<Rightarrow> nat \<Rightarrow> string \<Rightarrow> string" where
  "slice a b s = drop a (take b s)"

definition js_space :: "char \<Rightarrow> bool" where
  "js_space c \<longleftrightarrow> (of_char c :: nat) \<in> {9, 10, 11, 12, 13, 32, 160}"

definition trim :: "string \<Rightarrow> string" where
  "trim s = rev (dropWhile js_space (rev (dropWhile js_space s)))"

definition lower_char :: "char \<Rightarrow> char" where
  "lower_char c =
     (let n = (of_char c :: nat) in
      if (65 \<le> n \<and> n \<le> 90) \<or> (192 \<le> n \<and> n \<le> 222 \<and> n \<noteq> 215) then char_of (n + 32) else c)"

definition to_lower :: "string \<Rightarrow> string" where
  "to_lower s = map lower_char s"

definition ends_with_slash :: "string \<Rightarrow> bool" where
  "ends_with_slash s \<longleftrightarrow> s \<noteq> [] \<and> last s = CHR ''/''"

section \<open>The normaliser\<close>

definition loopback_hosts :: "string list" where
  "loopback_hosts = [''localhost'', ''127.0.0.1'', ''[::1]'']"

text \<open>The text between \<open>://\<close> and the next slash, as the code cuts it out.\<close>

definition authority_of :: "string \<Rightarrow> string" where
  "authority_of v =
     (case index_of ''://'' v of
        None \<Rightarrow> []
      | Some sep \<Rightarrow>
          let authorityStart = sep + 3;
              pathEnd = (case index_of_from ''/'' authorityStart v of
                           None \<Rightarrow> length v | Some p \<Rightarrow> p)
          in slice authorityStart pathEnd v)"

definition strip_path :: "string \<Rightarrow> string" where
  "strip_path p =
     (if p = ''/'' then [] else if ends_with_slash p then butlast p else p)"

definition normalizeMintUrl :: "url_api \<Rightarrow> string \<Rightarrow> delivery_error + string" where
  "normalizeMintUrl api v =
     (if v \<noteq> trim v \<or> CHR 0x5C \<in> set v \<or> CHR ''?'' \<in> set v \<or> CHR ''#'' \<in> set v
         \<or> CHR ''@'' \<in> set (authority_of v)
      then Inl INVALID_MINT_URL
      else case url_new api v of
        None \<Rightarrow> Inl INVALID_MINT_URL
      | Some u \<Rightarrow>
          if u_protocol u \<noteq> ''https:'' \<and> u_protocol u \<noteq> ''http:'' then Inl INVALID_MINT_URL
          else if u_protocol u = ''http:'' \<and> to_lower (u_hostname u) \<notin> set loopback_hosts
          then Inl INSECURE_MINT_URL
          else if u_username u \<noteq> [] \<or> u_password u \<noteq> [] \<or> u_search u \<noteq> [] \<or> u_hash u \<noteq> []
          then Inl INVALID_MINT_URL
          else let u' = url_set_hostname api u (to_lower (u_hostname u))
               in Inr (u_protocol u' @ ''//'' @ u_host u' @ strip_path (u_pathname u')))"

section \<open>Properties\<close>

lemma normalizeMintUrl_Inl:
  "normalizeMintUrl api v = Inl e \<Longrightarrow> e = INVALID_MINT_URL \<or> e = INSECURE_MINT_URL"
  by (auto simp: normalizeMintUrl_def Let_def split: if_splits option.splits)

text \<open>
  What the URL standard says of a parsed \<open>http\<close> or \<open>https\<close> URL \<open>u\<close>, for one \<open>u\<close>. Its host is
  lower case already, so that setting it again changes nothing. Its text is percent-encoded, with no
  blank, backslash, query or fragment in host and path and no \<open>@\<close> in the host. And parsing that
  text gives its components back, an empty path being read as a slash.
\<close>

definition canonical_text :: "url \<Rightarrow> string" where
  "canonical_text u = u_protocol u @ ''//'' @ u_host u @ strip_path (u_pathname u)"

definition clean_text :: "string \<Rightarrow> bool" where
  "clean_text t \<longleftrightarrow> t = trim t \<and> CHR 0x5C \<notin> set t \<and> CHR ''?'' \<notin> set t \<and> CHR ''#'' \<notin> set t
     \<and> CHR ''@'' \<notin> set (authority_of t)"

definition setter_keeps :: "url_api \<Rightarrow> url \<Rightarrow> bool" where
  "setter_keeps api u \<longleftrightarrow> url_set_hostname api u (to_lower (u_hostname u)) = u"

definition url_standard :: "url_api \<Rightarrow> url \<Rightarrow> bool" where
  "url_standard api u \<longleftrightarrow>
     setter_keeps api u \<and> clean_text (canonical_text u) \<and>
     (let p = strip_path (u_pathname u); w = u\<lparr>u_pathname := if p = [] then ''/'' else p\<rparr> in
      url_new api (canonical_text u) = Some w \<and> setter_keeps api w)"

text \<open>A path with two slashes at its end.\<close>

definition double_slash :: "string \<Rightarrow> bool" where
  "double_slash p \<longleftrightarrow> p \<noteq> ''/'' \<and> ends_with_slash p \<and> ends_with_slash (butlast p)"

lemma strip_path_twice:
  "strip_path (let q = strip_path p in if q = [] then ''/'' else q) = strip_path p
     \<longleftrightarrow> \<not> double_slash p"
proof (cases "p = ''/'' \<or> \<not> ends_with_slash p")
  case True
  then show ?thesis
    by (auto simp: strip_path_def double_slash_def ends_with_slash_def Let_def)
next
  case False
  then obtain q where p: "p = q @ ''/''"
    by (metis append_butlast_last_id ends_with_slash_def)
  with False have "q \<noteq> []" by auto
  moreover have "butlast q \<noteq> q" if "q \<noteq> []"
    using that by (metis append_butlast_last_id not_Cons_self self_append_conv)
  ultimately show ?thesis
    by (auto simp: p strip_path_def double_slash_def ends_with_slash_def Let_def)
qed

lemma normalizeMintUrl_canonical:
  assumes "url_new api v = Some u" and "normalizeMintUrl api v = Inr t" and "setter_keeps api u"
  shows "t = canonical_text u"
    and "u_protocol u = ''https:'' \<or> u_protocol u = ''http:''"
    and "u_protocol u = ''http:'' \<Longrightarrow> to_lower (u_hostname u) \<in> set loopback_hosts"
    and "u_username u = [] \<and> u_password u = [] \<and> u_search u = [] \<and> u_hash u = []"
  using assms
  by (auto simp: normalizeMintUrl_def setter_keeps_def canonical_text_def Let_def split: if_splits)

text \<open>
  Normalising a mint URL is idempotent except on a path that ends in two slashes: the canonical
  text of an accepted URL normalises to itself exactly when the parsed path did not end in a double
  slash. (Receipts are only valid when their mint is a fixed point of the normaliser.)
\<close>

theorem normalizeMintUrl_idempotent_iff:
  assumes "url_new api v = Some u" and "normalizeMintUrl api v = Inr t" and "url_standard api u"
  shows "normalizeMintUrl api t = Inr t \<longleftrightarrow> \<not> double_slash (u_pathname u)"
proof -
  let ?w = "u\<lparr>u_pathname := let q = strip_path (u_pathname u) in if q = [] then ''/'' else q\<rparr>"
  from assms(3) have sk: "setter_keeps api u" and clean: "clean_text (canonical_text u)"
    and new: "url_new api (canonical_text u) = Some ?w" and skw: "setter_keeps api ?w"
    by (auto simp: url_standard_def Let_def)
  note u = normalizeMintUrl_canonical [OF assms(1,2) sk]
  have "normalizeMintUrl api t = Inr (canonical_text ?w)"
    using u clean new skw
    by (auto simp: normalizeMintUrl_def clean_text_def setter_keeps_def canonical_text_def Let_def)
  then show ?thesis
    using strip_path_twice [of "u_pathname u"] u(1) by (simp add: canonical_text_def)
qed

text \<open>A parser that knows the three texts of the example, as the URL standard parses them.\<close>

definition demo_url :: "string \<Rightarrow> url" where
  "demo_url p = \<lparr>u_protocol = ''https:'', u_username = [], u_password = [], u_hostname = ''mint.io'',
     u_host = ''mint.io'', u_pathname = p, u_search = [], u_hash = []\<rparr>"

definition demo_url_api :: url_api where
  "demo_url_api = \<lparr>
     url_new = (\<lambda>s. if s = ''https://mint.io/a//'' then Some (demo_url ''/a//'')
       else if s = ''https://mint.io/a/'' then Some (demo_url ''/a/'')
       else if s = ''https://mint.io/a'' then Some (demo_url ''/a'')
       else if s = ''https://mint.io'' then Some (demo_url ''/'') else None),
     url_set_hostname = (\<lambda>u h. u)\<rparr>"

lemmas demo_url_defs = demo_url_api_def demo_url_def normalizeMintUrl_def url_standard_def
  setter_keeps_def canonical_text_def clean_text_def authority_of_def trim_def js_space_def
  strip_path_def ends_with_slash_def double_slash_def slice_def index_of_from_def Let_def

theorem normalizeMintUrl_idempotent_iff_witness:
  "normalizeMintUrl demo_url_api ''https://mint.io/a//'' = Inr ''https://mint.io/a/'' \<and>
   normalizeMintUrl demo_url_api ''https://mint.io/a/'' \<noteq> Inr ''https://mint.io/a/''"
proof -
  have n: "normalizeMintUrl demo_url_api ''https://mint.io/a//'' = Inr ''https://mint.io/a/''"
    by (simp add: demo_url_defs)
  have "url_new demo_url_api ''https://mint.io/a//'' = Some (demo_url ''/a//'')"
    by (simp add: demo_url_api_def)
  moreover have "url_standard demo_url_api (demo_url ''/a//'')"
    by (simp add: demo_url_defs)
  moreover have "double_slash (u_pathname (demo_url ''/a//''))"
    by (simp add: demo_url_def double_slash_def ends_with_slash_def)
  ultimately show ?thesis
    using n normalizeMintUrl_idempotent_iff [OF _ n] by blast
qed

end
