(* ===== verification/Fingerprint.thy ===== *)
theory Fingerprint
  imports Protocol_Id Mint_Url "HOL-Library.List_Lexorder" "HOL-Library.Multiset"
begin

text \<open>
  \<open>packages/delivery-core/src/fingerprint.ts\<close>: the payload hash and the proof-set hash.

  What the code gets from elsewhere is a record \<open>platform\<close>: the URL parser, the CBOR encoder of the
  package cborg (over the items it is given), SHA-256, the secp256k1 point check
  \<open>ECDH.convertKey\<close> (\<open>None\<close> when it throws), and the JSON and UTF-8 codecs of the payload module.
  Byte strings are lists of naturals; \<open>Buffer.compare\<close> is their lexicographic order.
\<close>

datatype cbor_item =
    CText string
  | CNull
  | CInt int
  | CBytes "nat list"
  | CValue jsval
  | CArray "cbor_item list"

record platform =
  pf_url :: url_api
  pf_cbor :: "cbor_item \<Rightarrow> nat list"
  pf_sha256 :: "nat list \<Rightarrow> string"
  pf_convert_key :: "nat list \<Rightarrow> nat list option"
  pf_utf8_encode :: "string \<Rightarrow> nat list"
  pf_utf8_decode :: "nat list \<Rightarrow> string option"
  pf_json_stringify :: "jsval \<Rightarrow> string"
  pf_json_parse :: "string \<Rightarrow> jsval option"

record fingerprint_input =
  fi_requestId :: string
  fi_memo :: "string option"
  fi_mint :: string
  fi_unit :: string
  fi_proofs :: "jsval option list"
  fi_createdAt :: int
  fi_expiresAt :: int

record proof_set_input =
  ps_mint :: string
  ps_unit :: string
  ps_ys :: "nat list list"

section \<open>JSON values and proofs\<close>

fun json_value :: "jsval \<Rightarrow> bool" where
  "json_value JNull = True"
| "json_value (JStr _) = True"
| "json_value (JBool _) = True"
| "json_value (JNum n) = isSafeInteger n"
| "json_value (JArr xs) = list_all (\<lambda>x. case x of None \<Rightarrow> False | Some v \<Rightarrow> json_value v) xs"
| "json_value (JObj ps) = list_all (\<lambda>p. snd p \<noteq> JUndef \<and> json_value (snd p)) ps"
| "json_value JUndef = False"
| "json_value (JOther _) = False"

definition assertJsonValue :: "jsval \<Rightarrow> delivery_error + unit" where
  "assertJsonValue v = ensure (json_value v) INVALID_FINGERPRINT_INPUT"

fun nonempty_string :: "jsval \<Rightarrow> bool" where
  "nonempty_string (JStr s) = (s \<noteq> [])"
| "nonempty_string _ = False"

fun safe_nonneg_number :: "jsval \<Rightarrow> bool" where
  "safe_nonneg_number (JNum (JInt i)) = (safe_int i \<and> 0 \<le> i)"
| "safe_nonneg_number _ = False"

fun is_string :: "jsval \<Rightarrow> bool" where
  "is_string (JStr _) = True"
| "is_string _ = False"

definition assertCashuProof :: "jsval \<Rightarrow> delivery_error + unit" where
  "assertCashuProof v =
     rbind (assertJsonValue v) (\<lambda>_.
       ensure (isRecord v
           \<and> safe_nonneg_number (js_get v ''amount'')
           \<and> nonempty_string (js_get v ''id'')
           \<and> nonempty_string (js_get v ''secret'')
           \<and> nonempty_string (js_get v ''C'')
           \<and> \<not> (js_has v ''witness'' \<and> \<not> is_string (js_get v ''witness''))
           \<and> \<not> (js_has v ''dleq'' \<and> \<not> isRecord (js_get v ''dleq'')))
         INVALID_FINGERPRINT_INPUT)"

text \<open>\<open>assertDenseArray\<close>: no slot is a hole.\<close>

definition assertDenseArray :: "jsval option list \<Rightarrow> delivery_error + jsval list" where
  "assertDenseArray xs =
     traverse (\<lambda>x. case x of None \<Rightarrow> Inl INVALID_FINGERPRINT_INPUT | Some v \<Rightarrow> Inr v) xs"

definition validatePayloadInput :: "fingerprint_input \<Rightarrow> delivery_error + jsval list" where
  "validatePayloadInput i =
     rbind (parseProtocolId (fi_requestId i)) (\<lambda>_.
     rbind (ensure (fi_unit i \<noteq> []) INVALID_FINGERPRINT_INPUT) (\<lambda>_.
     rbind (ensure (length (fi_proofs i) \<le> 256) INVALID_FINGERPRINT_INPUT) (\<lambda>_.
     rbind (assertDenseArray (fi_proofs i)) (\<lambda>ps.
     rbind (traverse assertCashuProof ps) (\<lambda>_.
     rbind (ensure (safe_int (fi_createdAt i) \<and> safe_int (fi_expiresAt i)) INVALID_FINGERPRINT_INPUT) (\<lambda>_.
     rbind (ensure (\<not> (fi_createdAt i < 0 \<or> fi_expiresAt i \<le> fi_createdAt i))
              INVALID_FINGERPRINT_INPUT) (\<lambda>_.
     rbind (ensure (\<not> fi_expiresAt i - fi_createdAt i > 86400) INVALID_FINGERPRINT_INPUT) (\<lambda>_.
       Inr ps))))))))"

section \<open>Payload hash\<close>

text \<open>The nine-element array that is encoded; the mint is already normalised.\<close>

definition payload_item :: "fingerprint_input \<Rightarrow> string \<Rightarrow> jsval list \<Rightarrow> cbor_item" where
  "payload_item i mint ps =
     CArray [CText ''cashu-delivery-v1/payload'', CText (fi_requestId i),
       (case fi_memo i of None \<Rightarrow> CNull | Some m \<Rightarrow> CText m), CText mint, CText (fi_unit i),
       CArray (map CValue ps), CInt 1, CInt (fi_createdAt i), CInt (fi_expiresAt i)]"

definition encodePayloadFingerprint :: "platform \<Rightarrow> fingerprint_input \<Rightarrow> delivery_error + nat list" where
  "encodePayloadFingerprint pf i =
     rbind (validatePayloadInput i) (\<lambda>ps.
     rbind (normalizeMintUrl (pf_url pf) (fi_mint i)) (\<lambda>mint.
       Inr (pf_cbor pf (payload_item i mint ps))))"

definition computePayloadHash :: "platform \<Rightarrow> fingerprint_input \<Rightarrow> delivery_error + string" where
  "computePayloadHash pf i =
     rbind (encodePayloadFingerprint pf i) (\<lambda>bytes. Inr (pf_sha256 pf bytes))"

section \<open>Proof-set hash\<close>

definition parseCompressedPoint :: "platform \<Rightarrow> nat list \<Rightarrow> delivery_error + nat list" where
  "parseCompressedPoint pf v =
     (if length v \<noteq> 33 \<or> (v ! 0 \<noteq> 2 \<and> v ! 0 \<noteq> 3) then Inl INVALID_PROOF_POINT
      else case pf_convert_key pf v of
        None \<Rightarrow> Inl INVALID_PROOF_POINT
      | Some canonical \<Rightarrow> if canonical \<noteq> v then Inl INVALID_PROOF_POINT else Inr canonical)"

text \<open>The loop that compares neighbours of the sorted list.\<close>

fun adjacent_dup :: "'a list \<Rightarrow> bool" where
  "adjacent_dup (x # y # zs) = (x = y \<or> adjacent_dup (y # zs))"
| "adjacent_dup _ = False"

definition canonicalProofSet ::
    "platform \<Rightarrow> proof_set_input \<Rightarrow> delivery_error + (string \<times> string \<times> nat list list)" where
  "canonicalProofSet pf i =
     rbind (ensure (ps_unit i \<noteq> []) INVALID_FINGERPRINT_INPUT) (\<lambda>_.
     rbind (traverse (parseCompressedPoint pf) (ps_ys i)) (\<lambda>parsed.
       let ys = sort parsed in
       if adjacent_dup ys then Inl DUPLICATE_PROOF_POINT
       else rbind (normalizeMintUrl (pf_url pf) (ps_mint i)) (\<lambda>mint. Inr (mint, ps_unit i, ys))))"

definition proof_set_item :: "string \<Rightarrow> string \<Rightarrow> nat list list \<Rightarrow> cbor_item" where
  "proof_set_item mint u ys =
     CArray [CText ''cashu-delivery-v1/proof-set'', CText mint, CText u, CArray (map CBytes ys)]"

definition encodeProofSetFingerprint :: "platform \<Rightarrow> proof_set_input \<Rightarrow> delivery_error + nat list" where
  "encodeProofSetFingerprint pf i =
     rbind (canonicalProofSet pf i) (\<lambda>(mint, u, ys). Inr (pf_cbor pf (proof_set_item mint u ys)))"

definition computeProofSetHash :: "platform \<Rightarrow> proof_set_input \<Rightarrow> delivery_error + string" where
  "computeProofSetHash pf i =
     rbind (encodeProofSetFingerprint pf i) (\<lambda>bytes. Inr (pf_sha256 pf bytes))"

section \<open>Facts\<close>

lemma sorted_adjacent_dup: "sorted xs \<Longrightarrow> adjacent_dup xs \<longleftrightarrow> \<not> distinct xs"
  by (induction xs rule: adjacent_dup.induct) fastforce+

lemma parseCompressedPoint_same: "parseCompressedPoint pf v = Inr w \<Longrightarrow> w = v"
  by (auto simp: parseCompressedPoint_def split: if_splits option.splits)

lemma parseCompressedPoint_Inl: "parseCompressedPoint pf v = Inl e \<Longrightarrow> e = INVALID_PROOF_POINT"
  by (auto simp: parseCompressedPoint_def split: if_splits option.splits)

lemma traverse_points:
  "traverse (parseCompressedPoint pf) ys =
     (if \<forall>y\<in>set ys. is_ok (parseCompressedPoint pf y) then Inr ys else Inl INVALID_PROOF_POINT)"
proof (induction ys)
  case (Cons y ys)
  then show ?case
    by (cases "parseCompressedPoint pf y")
      (auto dest: parseCompressedPoint_Inl parseCompressedPoint_same)
qed simp

lemma canonicalProofSet_eq:
  "canonicalProofSet pf i =
     (if ps_unit i = [] then Inl INVALID_FINGERPRINT_INPUT
      else if \<exists>y\<in>set (ps_ys i). \<not> is_ok (parseCompressedPoint pf y) then Inl INVALID_PROOF_POINT
      else if \<not> distinct (ps_ys i) then Inl DUPLICATE_PROOF_POINT
      else rbind (normalizeMintUrl (pf_url pf) (ps_mint i)) (\<lambda>mint.
             Inr (mint, ps_unit i, sort (ps_ys i))))"
  by (auto simp: canonicalProofSet_def traverse_points sorted_adjacent_dup Let_def)

text \<open>
  The proof-set hash, and the error raised instead of it, depends only on which points the set
  holds and how often, never on the order the wallet listed them in.
\<close>

theorem computeProofSetHash_order_independent:
  assumes "mset ys = mset zs"
  shows "computeProofSetHash pf \<lparr>ps_mint = m, ps_unit = u, ps_ys = ys\<rparr> =
    computeProofSetHash pf \<lparr>ps_mint = m, ps_unit = u, ps_ys = zs\<rparr>"
proof -
  have "set ys = set zs"
    using assms by (rule mset_eq_setD)
  moreover have "sort ys = sort zs"
    using assms by (metis mset_sort properties_for_sort sorted_sort)
  moreover have "distinct ys \<longleftrightarrow> distinct zs"
    using assms by (rule mset_eq_imp_distinct_iff)
  ultimately show ?thesis
    by (simp add: computeProofSetHash_def encodeProofSetFingerprint_def canonicalProofSet_eq)
qed

text \<open>A platform for the examples: identity codecs on the few values they use.\<close>

definition demo_platform :: platform where
  "demo_platform = \<lparr>pf_url = demo_url_api, pf_cbor = (\<lambda>_. [1, 2, 3]), pf_sha256 = (\<lambda>_. replicate 64 CHR ''a''),
     pf_convert_key = Some, pf_utf8_encode = map of_char, pf_utf8_decode = (\<lambda>bs. Some (map char_of bs)),
     pf_json_stringify = (\<lambda>_. []), pf_json_parse = (\<lambda>_. None)\<rparr>"

theorem computeProofSetHash_order_independent_witness:
  "computeProofSetHash demo_platform
     \<lparr>ps_mint = ''https://mint.io'', ps_unit = ''sat'', ps_ys = [2 # replicate 32 7, 3 # replicate 32 1]\<rparr> =
   computeProofSetHash demo_platform
     \<lparr>ps_mint = ''https://mint.io'', ps_unit = ''sat'', ps_ys = [3 # replicate 32 1, 2 # replicate 32 7]\<rparr>"
  by (rule computeProofSetHash_order_independent) simp

lemma assertDenseArray_iff: "assertDenseArray xs = Inr ys \<longleftrightarrow> xs = map Some ys"
proof (induction xs arbitrary: ys)
  case Nil
  then show ?case by (auto simp: assertDenseArray_def)
next
  case (Cons x xs)
  then show ?case
    by (cases x; cases ys) (auto simp: assertDenseArray_def rbind_eq_Inr)
qed

lemma validatePayloadInput_iff:
  "validatePayloadInput i = Inr ps \<longleftrightarrow>
     is_ok (parseProtocolId (fi_requestId i)) \<and> fi_unit i \<noteq> [] \<and> length ps \<le> 256 \<and>
     fi_proofs i = map Some ps \<and> (\<forall>p\<in>set ps. is_ok (assertCashuProof p)) \<and>
     safe_int (fi_createdAt i) \<and> safe_int (fi_expiresAt i) \<and> 0 \<le> fi_createdAt i \<and>
     fi_createdAt i < fi_expiresAt i \<and> fi_expiresAt i - fi_createdAt i \<le> 86400"
  by (auto simp: validatePayloadInput_def result_simps assertDenseArray_iff is_ok_iff [symmetric])

lemma payload_item_inject:
  "payload_item i m ps = payload_item j n qs \<longleftrightarrow>
     fi_requestId i = fi_requestId j \<and> fi_memo i = fi_memo j \<and> m = n \<and> fi_unit i = fi_unit j \<and>
     ps = qs \<and> fi_createdAt i = fi_createdAt j \<and> fi_expiresAt i = fi_expiresAt j"
  by (auto simp: payload_item_def inj_map_eq_map inj_def split: option.splits)

text \<open>
  Unless SHA-256 collides on the two encodings or the CBOR encoder maps the two arrays to the same
  bytes, payloads with the same hash agree in every field that identifies them: request, memo, mint
  (up to normalisation), unit, proofs and both times.
\<close>

theorem computePayloadHash_binding:
  assumes hash: "computePayloadHash pf i = Inr h" "computePayloadHash pf j = Inr h"
    and mint: "normalizeMintUrl (pf_url pf) (fi_mint i) = Inr m"
      "normalizeMintUrl (pf_url pf) (fi_mint j) = Inr n"
    and proofs: "fi_proofs i = map Some ps" "fi_proofs j = map Some qs"
    and sha: "pf_sha256 pf (pf_cbor pf (payload_item i m ps)) =
        pf_sha256 pf (pf_cbor pf (payload_item j n qs)) \<Longrightarrow>
      pf_cbor pf (payload_item i m ps) = pf_cbor pf (payload_item j n qs)"
    and cbor: "pf_cbor pf (payload_item i m ps) = pf_cbor pf (payload_item j n qs) \<Longrightarrow>
      payload_item i m ps = payload_item j n qs"
  shows "fi_requestId i = fi_requestId j \<and> fi_memo i = fi_memo j \<and> m = n \<and> fi_unit i = fi_unit j \<and>
    fi_proofs i = fi_proofs j \<and> fi_createdAt i = fi_createdAt j \<and> fi_expiresAt i = fi_expiresAt j"
proof -
  have inj_Some: "map Some xs = map Some ys \<longleftrightarrow> xs = ys" for xs ys :: "jsval list"
    by (simp add: inj_map_eq_map)
  have "pf_sha256 pf (pf_cbor pf (payload_item i m ps)) = h"
    and "pf_sha256 pf (pf_cbor pf (payload_item j n qs)) = h"
    using hash mint proofs
    by (auto simp: computePayloadHash_def encodePayloadFingerprint_def rbind_eq_Inr
        validatePayloadInput_iff inj_Some)
  then have "payload_item i m ps = payload_item j n qs"
    using sha cbor by simp
  then show ?thesis
    using proofs by (simp add: payload_item_inject)
qed

definition demo_fingerprint :: "string \<Rightarrow> fingerprint_input" where
  "demo_fingerprint mint = \<lparr>fi_requestId = demo_id, fi_memo = None, fi_mint = mint, fi_unit = ''sat'',
     fi_proofs = [], fi_createdAt = 10, fi_expiresAt = 20\<rparr>"

theorem computePayloadHash_binding_witness:
  "computePayloadHash demo_platform (demo_fingerprint ''https://mint.io/a/'') =
     computePayloadHash demo_platform (demo_fingerprint ''https://mint.io/a'') \<and>
   fi_createdAt (demo_fingerprint ''https://mint.io/a/'') = fi_createdAt (demo_fingerprint ''https://mint.io/a'')"
proof -
  let ?i = "demo_fingerprint ''https://mint.io/a/''" and ?j = "demo_fingerprint ''https://mint.io/a''"
  have mint: "normalizeMintUrl demo_url_api ''https://mint.io/a/'' = Inr ''https://mint.io/a''"
    "normalizeMintUrl demo_url_api ''https://mint.io/a'' = Inr ''https://mint.io/a''"
    by (simp_all add: demo_url_defs)
  then have h: "computePayloadHash demo_platform ?i = Inr (replicate 64 CHR ''a'')"
    "computePayloadHash demo_platform ?j = Inr (replicate 64 CHR ''a'')"
    by (simp_all add: computePayloadHash_def encodePayloadFingerprint_def validatePayloadInput_def
        demo_fingerprint_def demo_platform_def assertDenseArray_def safe_int_def max_safe_integer_def)
  have "fi_createdAt ?i = fi_createdAt ?j"
    using computePayloadHash_binding [OF h, of "''https://mint.io/a''" "''https://mint.io/a''" "[]" "[]"] mint
    by (simp add: demo_fingerprint_def demo_platform_def payload_item_def)
  with h show ?thesis by simp
qed

end
