(* ===== verification/Payload.thy ===== *)
theory Payload
  imports Fingerprint
begin

text \<open>
  \<open>packages/delivery-core/src/payload.ts\<close> and \<open>request.ts\<close>: the delivery payload on the wire and the
  transport tags that negotiate a delivery.

  The version field of a parsed payload is the literal 1 and is not kept. \<open>dp_proofs\<close> holds the slots
  of the proofs array as received; \<open>parseDeliveryPayload_no_holes\<close> shows that an accepted payload has
  no hole. The JSON and UTF-8 codecs are the platform's.
\<close>

record delivery_payload =
  dp_id :: string
  dp_memo :: "string option"
  dp_mint :: string
  dp_unit :: string
  dp_proofs :: "jsval option list"
  dp_deliveryId :: string
  dp_createdAt :: int
  dp_expiresAt :: int

definition max_payload_bytes :: nat where
  "max_payload_bytes = 65536"

definition clock_skew_seconds :: int where
  "clock_skew_seconds = 60"

section \<open>Parsing\<close>

definition assertOnlyKeys :: "jsval \<Rightarrow> string list \<Rightarrow> delivery_error + unit" where
  "assertOnlyKeys v allowed =
     ensure (list_all (\<lambda>k. k \<in> set allowed) (js_keys v)) INVALID_DELIVERY_PAYLOAD"

fun assertSafeTime :: "jsval \<Rightarrow> delivery_error + int" where
  "assertSafeTime (JNum (JInt i)) =
     (if \<not> safe_int i \<or> i < 0 then Inl INVALID_DELIVERY_PAYLOAD else Inr i)"
| "assertSafeTime _ = Inl INVALID_DELIVERY_PAYLOAD"

fun js_string :: "jsval \<Rightarrow> delivery_error + string" where
  "js_string (JStr s) = Inr s"
| "js_string _ = Inl INVALID_DELIVERY_PAYLOAD"

fun js_memo :: "jsval \<Rightarrow> delivery_error + string option" where
  "js_memo JUndef = Inr None"
| "js_memo JNull = Inr None"
| "js_memo (JStr s) = Inr (Some s)"
| "js_memo _ = Inl INVALID_DELIVERY_PAYLOAD"

fun js_slots :: "jsval \<Rightarrow> delivery_error + jsval option list" where
  "js_slots (JArr xs) = (if length xs > 256 then Inl INVALID_DELIVERY_PAYLOAD else Inr xs)"
| "js_slots _ = Inl INVALID_DELIVERY_PAYLOAD"

definition fingerprint_of :: "delivery_payload \<Rightarrow> fingerprint_input" where
  "fingerprint_of p = \<lparr>fi_requestId = dp_id p, fi_memo = dp_memo p, fi_mint = dp_mint p,
     fi_unit = dp_unit p, fi_proofs = dp_proofs p, fi_createdAt = dp_createdAt p,
     fi_expiresAt = dp_expiresAt p\<rparr>"

definition payload_keys :: "string list" where
  "payload_keys = [''id'', ''memo'', ''mint'', ''unit'', ''proofs'', ''delivery'']"

definition delivery_keys :: "string list" where
  "delivery_keys = [''v'', ''id'', ''created_at'', ''expires_at'']"

definition parseDeliveryPayload :: "platform \<Rightarrow> jsval \<Rightarrow> jsval \<Rightarrow> delivery_error + delivery_payload" where
  "parseDeliveryPayload pf value now0 =
     rbind (assertSafeTime now0) (\<lambda>now.
     let delivery = js_get value ''delivery'' in
     rbind (ensure (isRecord value \<and> isRecord delivery) INVALID_DELIVERY_PAYLOAD) (\<lambda>_.
     rbind (assertOnlyKeys value payload_keys) (\<lambda>_.
     rbind (assertOnlyKeys delivery delivery_keys) (\<lambda>_.
     rbind (js_string (js_get value ''id'')) (\<lambda>rid.
     rbind (js_memo (js_get value ''memo'')) (\<lambda>memo.
     rbind (js_string (js_get value ''mint'')) (\<lambda>mint0.
     rbind (js_string (js_get value ''unit'')) (\<lambda>u.
     rbind (ensure (u \<noteq> []) INVALID_DELIVERY_PAYLOAD) (\<lambda>_.
     rbind (js_slots (js_get value ''proofs'')) (\<lambda>proofs.
     rbind (ensure (js_get delivery ''v'' = js_int 1) INVALID_DELIVERY_PAYLOAD) (\<lambda>_.
     rbind (js_string (js_get delivery ''id'')) (\<lambda>did.
     rbind (assertSafeTime (js_get delivery ''created_at'')) (\<lambda>created.
     rbind (assertSafeTime (js_get delivery ''expires_at'')) (\<lambda>expires.
     if expires \<le> created then Inl INVALID_DELIVERY_PAYLOAD
     else if expires - created > 86400 then Inl INVALID_DELIVERY_PAYLOAD
     else if created > now + clock_skew_seconds then Inl INVALID_DELIVERY_PAYLOAD
     else if expires < now - clock_skew_seconds then Inl DELIVERY_EXPIRED
     else
     rbind (parseProtocolId rid) (\<lambda>rid'.
     rbind (normalizeMintUrl (pf_url pf) mint0) (\<lambda>mint.
     rbind (parseProtocolId did) (\<lambda>did'.
     let payload = \<lparr>dp_id = rid', dp_memo = memo, dp_mint = mint, dp_unit = u, dp_proofs = proofs,
           dp_deliveryId = did', dp_createdAt = created, dp_expiresAt = expires\<rparr> in
     rbind (computePayloadHash pf (fingerprint_of payload)) (\<lambda>_. Inr payload))))))))))))))))))"

section \<open>Serialising\<close>

text \<open>The wire object, with the keys in the order of the code's literal.\<close>

definition payload_wire :: "delivery_payload \<Rightarrow> jsval" where
  "payload_wire p = JObj
     [(''id'', JStr (dp_id p)),
      (''memo'', case dp_memo p of None \<Rightarrow> JNull | Some m \<Rightarrow> JStr m),
      (''mint'', JStr (dp_mint p)),
      (''unit'', JStr (dp_unit p)),
      (''proofs'', JArr (dp_proofs p)),
      (''delivery'', JObj
        [(''v'', js_int 1),
         (''id'', JStr (dp_deliveryId p)),
         (''created_at'', js_int (dp_createdAt p)),
         (''expires_at'', js_int (dp_expiresAt p))])]"

definition serializeDeliveryPayload :: "platform \<Rightarrow> delivery_payload \<Rightarrow> delivery_error + nat list" where
  "serializeDeliveryPayload pf p =
     rbind (parseDeliveryPayload pf (payload_wire p) (js_int (dp_createdAt p))) (\<lambda>validated.
       let encoded = pf_utf8_encode pf (pf_json_stringify pf (payload_wire validated)) in
       if length encoded > max_payload_bytes then Inl INVALID_DELIVERY_PAYLOAD else Inr encoded)"

definition parseDeliveryPayloadJson ::
    "platform \<Rightarrow> nat list \<Rightarrow> jsval \<Rightarrow> delivery_error + delivery_payload" where
  "parseDeliveryPayloadJson pf value now =
     (if length value > max_payload_bytes then Inl INVALID_DELIVERY_PAYLOAD
      else case pf_utf8_decode pf value of
        None \<Rightarrow> Inl INVALID_DELIVERY_PAYLOAD
      | Some text \<Rightarrow> (case pf_json_parse pf text of
          None \<Rightarrow> Inl INVALID_DELIVERY_PAYLOAD
        | Some decoded \<Rightarrow> parseDeliveryPayload pf decoded now))"

section \<open>Properties of an accepted payload\<close>

lemma assertSafeTime_ok [result_simps]:
  "assertSafeTime v = Inr i \<longleftrightarrow> v = js_int i \<and> safe_nonneg i"
  by (cases v rule: assertSafeTime.cases) (auto simp: js_int_def safe_nonneg_def)

lemma js_string_ok [result_simps]: "js_string v = Inr s \<longleftrightarrow> v = JStr s"
  by (cases v) auto

lemma js_slots_ok [result_simps]: "js_slots v = Inr xs \<longleftrightarrow> v = JArr xs \<and> length xs \<le> 256"
  by (cases v) auto

text \<open>Everything a successful parse has established.\<close>

lemma parseDeliveryPayload_ok:
  assumes "parseDeliveryPayload pf value now0 = Inr p"
  shows "\<exists>now. now0 = js_int now \<and> safe_nonneg now \<and>
      dp_createdAt p \<le> now + 60 \<and> now - 60 \<le> dp_expiresAt p"
    and "safe_nonneg (dp_createdAt p)" "safe_nonneg (dp_expiresAt p)"
    and "dp_createdAt p < dp_expiresAt p" "dp_expiresAt p - dp_createdAt p \<le> 86400"
    and "parseProtocolId (dp_id p) = Inr (dp_id p)"
    and "parseProtocolId (dp_deliveryId p) = Inr (dp_deliveryId p)"
    and "dp_unit p \<noteq> []" "length (dp_proofs p) \<le> 256"
    and "\<exists>m0. js_get value ''mint'' = JStr m0 \<and> normalizeMintUrl (pf_url pf) m0 = Inr (dp_mint p)"
    and "is_ok (computePayloadHash pf (fingerprint_of p))"
  using assms
  by (auto simp: parseDeliveryPayload_def Let_def result_simps clock_skew_seconds_def
      parseProtocolId_eq split: if_splits)

lemma parseDeliveryPayload_no_holes:
  assumes "parseDeliveryPayload pf value now0 = Inr p"
  shows "\<exists>ps. dp_proofs p = map Some ps \<and> (\<forall>q\<in>set ps. is_ok (assertCashuProof q))"
proof -
  from parseDeliveryPayload_ok(11) [OF assms] obtain ps
    where "validatePayloadInput (fingerprint_of p) = Inr ps"
    by (auto simp: is_ok_iff computePayloadHash_def encodePayloadFingerprint_def rbind_eq_Inr)
  then show ?thesis
    by (auto simp: validatePayloadInput_iff fingerprint_of_def)
qed

text \<open>
  The converse on a wire object of our own making: what a payload has to satisfy to be accepted.
\<close>

lemma parse_wire_iff:
  "parseDeliveryPayload pf (payload_wire p) (js_int now) = Inr q \<longleftrightarrow>
     safe_nonneg now \<and> dp_unit p \<noteq> [] \<and> length (dp_proofs p) \<le> 256 \<and>
     safe_nonneg (dp_createdAt p) \<and> safe_nonneg (dp_expiresAt p) \<and>
     dp_createdAt p < dp_expiresAt p \<and> dp_expiresAt p - dp_createdAt p \<le> 86400 \<and>
     dp_createdAt p \<le> now + 60 \<and> now - 60 \<le> dp_expiresAt p \<and>
     is_ok (parseProtocolId (dp_id p)) \<and> is_ok (parseProtocolId (dp_deliveryId p)) \<and>
     (\<exists>m. normalizeMintUrl (pf_url pf) (dp_mint p) = Inr m \<and> q = p\<lparr>dp_mint := m\<rparr> \<and>
        is_ok (computePayloadHash pf (fingerprint_of q)))"
proof -
  have memo: "js_memo (case dp_memo p of None \<Rightarrow> JNull | Some m \<Rightarrow> JStr m) = Inr (dp_memo p)"
    by (cases "dp_memo p") simp_all
  have upd: "p\<lparr>dp_mint := m\<rparr> = \<lparr>dp_id = dp_id p, dp_memo = dp_memo p, dp_mint = m, dp_unit = dp_unit p,
      dp_proofs = dp_proofs p, dp_deliveryId = dp_deliveryId p, dp_createdAt = dp_createdAt p,
      dp_expiresAt = dp_expiresAt p\<rparr>" for m
    by (cases p) simp
  show ?thesis
    unfolding upd
    by (auto simp: parseDeliveryPayload_def payload_wire_def Let_def result_simps assertOnlyKeys_def
        payload_keys_def delivery_keys_def clock_skew_seconds_def memo parseProtocolId_eq
        is_ok_iff [symmetric, of "computePayloadHash pf i" for i])
qed

text \<open>
  A payload that serialises is read back as itself, at any time of the receiver's clock that is
  within the skew of its validity window: parsing inverts serialising, given that the JSON and UTF-8
  codecs of the platform invert each other on this text and that the mint is in canonical form.
\<close>

theorem payload_roundtrip:
  assumes ser: "serializeDeliveryPayload pf p = Inr bytes"
    and mint: "normalizeMintUrl (pf_url pf) (dp_mint p) = Inr (dp_mint p)"
    and utf8: "pf_utf8_decode pf bytes = Some body"
    and json: "pf_json_parse pf body = Some (payload_wire p)"
    and clock: "safe_nonneg now" "dp_createdAt p \<le> now + 60" "now - 60 \<le> dp_expiresAt p"
  shows "parseDeliveryPayloadJson pf bytes (js_int now) = Inr p"
proof -
  from ser obtain q where q: "parseDeliveryPayload pf (payload_wire p) (js_int (dp_createdAt p)) = Inr q"
    and size: "length bytes \<le> max_payload_bytes"
    by (auto simp: serializeDeliveryPayload_def rbind_eq_Inr Let_def split: if_splits)
  from q mint have "q = p" by (auto simp: parse_wire_iff)
  with q have "parseDeliveryPayload pf (payload_wire p) (js_int now) = Inr p"
    using clock by (auto simp: parse_wire_iff)
  then show ?thesis
    using size utf8 json by (simp add: parseDeliveryPayloadJson_def)
qed

text \<open>A payload without proofs, and a platform whose JSON reader knows its one text.\<close>

definition demo_payload :: delivery_payload where
  "demo_payload = \<lparr>dp_id = demo_id, dp_memo = Some ''hi'', dp_mint = ''https://mint.io/a'',
     dp_unit = ''sat'', dp_proofs = [], dp_deliveryId = demo_id, dp_createdAt = 1000, dp_expiresAt = 2000\<rparr>"

definition demo_json_platform :: platform where
  "demo_json_platform = demo_platform\<lparr>pf_json_stringify := (\<lambda>_. ''json''),
     pf_json_parse := (\<lambda>t. if t = ''json'' then Some (payload_wire demo_payload) else None)\<rparr>"

lemma demo_normalize: "normalizeMintUrl demo_url_api ''https://mint.io/a'' = Inr ''https://mint.io/a''"
  by (simp add: demo_url_defs)

lemma demo_serialize:
  "serializeDeliveryPayload demo_json_platform demo_payload = Inr (map of_char ''json'')"
proof -
  have "is_ok (computePayloadHash demo_json_platform (fingerprint_of demo_payload))"
    by (simp add: computePayloadHash_def encodePayloadFingerprint_def validatePayloadInput_def
        fingerprint_of_def demo_payload_def demo_json_platform_def demo_platform_def
        assertDenseArray_def safe_int_def max_safe_integer_def demo_normalize)
  moreover have "normalizeMintUrl (pf_url demo_json_platform) (dp_mint demo_payload) = Inr (dp_mint demo_payload)"
    by (simp add: demo_json_platform_def demo_platform_def demo_payload_def demo_normalize)
  ultimately have "parseDeliveryPayload demo_json_platform (payload_wire demo_payload)
      (js_int (dp_createdAt demo_payload)) = Inr demo_payload"
    by (simp add: parse_wire_iff demo_payload_def safe_nonneg_def safe_int_def max_safe_integer_def)
  then show ?thesis
    by (simp add: serializeDeliveryPayload_def demo_json_platform_def demo_platform_def
        max_payload_bytes_def)
qed

lemma demo_utf8: "pf_utf8_decode demo_json_platform (map of_char s) = Some s"
  by (simp add: demo_json_platform_def demo_platform_def comp_def)

theorem payload_roundtrip_witness:
  "parseDeliveryPayloadJson demo_json_platform (map of_char ''json'') (js_int 2050) = Inr demo_payload"
  by (rule payload_roundtrip [OF demo_serialize _ demo_utf8])
    (simp_all add: demo_json_platform_def demo_platform_def demo_payload_def demo_normalize
      safe_nonneg_def safe_int_def max_safe_integer_def)

end
