(* ===== verification/Version_Register.thy ===== *)
theory Version_Register
  imports Prelude
begin

text \<open>
  The interface of a register that keeps the newest of the versioned records it is shown. Senders and
  the oracle both watch a receiver through such a register: records reach them late, twice and out of
  order, over several transports. The locale states what merging two records of one issuer's history
  has to do; its lemmas say that watching then converges, whatever the order.
\<close>

locale version_register =
  fixes merge :: "'r option \<Rightarrow> 'r \<Rightarrow> 'e + 'r"
    and version :: "'r \<Rightarrow> int"
    and history :: "'r list \<Rightarrow> bool"
  assumes merge_first: "history hs \<Longrightarrow> a \<in> set hs \<Longrightarrow> merge None a = Inr a"
    and merge_newer: "history hs \<Longrightarrow> a \<in> set hs \<Longrightarrow> b \<in> set hs \<Longrightarrow> version a < version b \<Longrightarrow>
      merge (Some a) b = Inr b"
    and merge_older: "history hs \<Longrightarrow> a \<in> set hs \<Longrightarrow> b \<in> set hs \<Longrightarrow> version b \<le> version a \<Longrightarrow>
      merge (Some a) b = Inr a"
    and version_inj: "history hs \<Longrightarrow> a \<in> set hs \<Longrightarrow> b \<in> set hs \<Longrightarrow> version a = version b \<Longrightarrow> a = b"
begin

definition observe :: "'r option \<Rightarrow> 'r list \<Rightarrow> 'e + 'r option" where
  "observe = rfold (\<lambda>s r. rbind (merge s r) (\<lambda>r'. Inr (Some r')))"

lemma observe_from:
  assumes "history hs" and "a \<in> set hs" and "set obs \<subseteq> set hs"
  shows "\<exists>m\<in>insert a (set obs). observe (Some a) obs = Inr (Some m) \<and>
    (\<forall>r\<in>insert a (set obs). version r \<le> version m)"
  using assms(2,3)
proof (induction obs arbitrary: a)
  case Nil
  then show ?case by (simp add: observe_def)
next
  case (Cons b obs)
  define c where "c = (if version a < version b then b else a)"
  have c: "merge (Some a) b = Inr c" "c \<in> set hs" "c \<in> {a, b}" "version a \<le> version c"
    "version b \<le> version c"
    using Cons.prems assms(1) by (auto simp: c_def merge_newer merge_older)
  obtain m where "m \<in> insert c (set obs)" "observe (Some c) obs = Inr (Some m)"
    "\<forall>r\<in>insert c (set obs). version r \<le> version m"
    using Cons.IH [of c] Cons.prems c by auto
  moreover have "observe (Some a) (b # obs) = observe (Some c) obs"
    by (simp add: observe_def c)
  ultimately show ?case
    using c by auto
qed

lemma observe_latest:
  assumes "history hs" and "obs \<noteq> []" and "set obs \<subseteq> set hs"
  shows "\<exists>m\<in>set obs. observe None obs = Inr (Some m) \<and> (\<forall>r\<in>set obs. version r \<le> version m)"
proof -
  obtain a rest where obs: "obs = a # rest"
    using assms(2) by (cases obs) auto
  have "observe None obs = observe (Some a) rest"
    using assms by (simp add: observe_def obs merge_first)
  then show ?thesis
    using observe_from [of hs a rest] assms by (simp add: obs)
qed

text \<open>Watchers who have seen the same records agree, in whatever order and however often.\<close>

lemma observe_convergent:
  assumes "history hs" and "set obs = set obs'" and "set obs \<subseteq> set hs"
  shows "observe None obs = observe None obs'"
proof (cases "obs = []")
  case True
  with assms(2) show ?thesis by simp
next
  case False
  with assms(2) have "obs' \<noteq> []" by auto
  from observe_latest [OF assms(1) False assms(3)] obtain m where
    m: "m \<in> set obs" "observe None obs = Inr (Some m)" "\<forall>r\<in>set obs. version r \<le> version m"
    by blast
  from observe_latest [OF assms(1) \<open>obs' \<noteq> []\<close>] obtain n where
    n: "n \<in> set obs'" "observe None obs' = Inr (Some n)" "\<forall>r\<in>set obs'. version r \<le> version n"
    using assms(2,3) by blast
  have "version m = version n"
    using m n assms(2) by (simp add: order_antisym)
  with m(1) n(1) assms have "m = n"
    by (auto intro: version_inj)
  with m(2) n(2) show ?thesis by simp
qed

end

end
