(* ===== verification/Receipt.thy ===== *)
theory Receipt
  imports Protocol_Id Mint_Url Version_Register
begin

text \<open>
  \<open>packages/delivery-core/src/receipt.ts\<close>: delivery receipts, their wire form, the transitions a
  receiver may make between two receipts, and how a sender merges the receipts it observes.

  A typed receipt is the record \<open>delivery_receipt\<close>; \<open>receipt_object\<close> is the same receipt as the
  untyped object the validator is given.
\<close>

datatype delivery_status = Processing | Settled | Rejected

record delivery_receipt =
  rc_profile :: string
  rc_requestId :: string
  rc_deliveryId :: string
  rc_payloadHash :: string
  rc_status :: delivery_status
  rc_statusVersion :: int
  rc_mint :: string
  rc_unit :: string
  rc_amount :: int
  rc_detailCode :: string

section \<open>Validation\<close>

definition receipt_profile :: string where
  "receipt_profile = ''cashu-delivery-v1''"

fun status_text :: "delivery_status \<Rightarrow> string" where
  "status_text Processing = ''processing''"
| "status_text Settled = ''settled''"
| "status_text Rejected = ''rejected''"

fun status_details :: "delivery_status \<Rightarrow> string list" where
  "status_details Processing = [''accepted'', ''redeeming'', ''recovery_blocked'']"
| "status_details Settled = [''settled'']"
| "status_details Rejected = [''invalid'', ''expired'', ''conflict'']"

definition known_detail_codes :: "string list" where
  "known_detail_codes =
     [''accepted'', ''redeeming'', ''recovery_blocked'', ''settled'', ''invalid'', ''expired'', ''conflict'']"

text \<open>\<open>isDeliveryStatus\<close>, returning the status it has recognised.\<close>

definition delivery_status_of :: "jsval \<Rightarrow> delivery_status option" where
  "delivery_status_of v =
     (if v = JStr ''processing'' then Some Processing
      else if v = JStr ''settled'' then Some Settled
      else if v = JStr ''rejected'' then Some Rejected else None)"

definition hasValidDetailCode :: "delivery_status \<Rightarrow> string \<Rightarrow> bool" where
  "hasValidDetailCode status detailCode =
     (if detailCode = [] then False
      else if detailCode \<notin> set known_detail_codes then True
      else detailCode \<in> set (status_details status))"

definition string_field :: "jsval \<Rightarrow> string \<Rightarrow> delivery_error + string" where
  "string_field v k = (case js_get v k of JStr s \<Rightarrow> Inr s | _ \<Rightarrow> Inl INVALID_RECEIPT)"

definition safe_field :: "jsval \<Rightarrow> string \<Rightarrow> int \<Rightarrow> delivery_error + int" where
  "safe_field v k least =
     (case js_get v k of
        JNum (JInt i) \<Rightarrow> if \<not> safe_int i \<or> i < least then Inl INVALID_RECEIPT else Inr i
      | _ \<Rightarrow> Inl INVALID_RECEIPT)"

text \<open>
  The first test is one disjunction in the code; every way to fail it throws the same error. The
  assertion's effect on types is the returned record.
\<close>

definition assertValidReceipt :: "url_api \<Rightarrow> jsval \<Rightarrow> delivery_error + delivery_receipt" where
  "assertValidReceipt api v =
     rbind (ensure (isRecord v) INVALID_RECEIPT) (\<lambda>_.
     rbind (string_field v ''profile'') (\<lambda>profile.
     rbind (ensure (profile = receipt_profile) INVALID_RECEIPT) (\<lambda>_.
     rbind (string_field v ''requestId'') (\<lambda>requestId.
     rbind (string_field v ''deliveryId'') (\<lambda>deliveryId.
     rbind (string_field v ''payloadHash'') (\<lambda>payloadHash.
     rbind (ensure (hash_pattern payloadHash) INVALID_RECEIPT) (\<lambda>_.
     rbind (case delivery_status_of (js_get v ''status'') of
              None \<Rightarrow> Inl INVALID_RECEIPT | Some s \<Rightarrow> Inr s) (\<lambda>status.
     rbind (safe_field v ''statusVersion'' 1) (\<lambda>statusVersion.
     rbind (safe_field v ''amount'' 0) (\<lambda>amount.
     rbind (string_field v ''unit'') (\<lambda>u.
     rbind (ensure (u \<noteq> []) INVALID_RECEIPT) (\<lambda>_.
     rbind (string_field v ''mint'') (\<lambda>mint.
     rbind (ensure (mint \<noteq> []) INVALID_RECEIPT) (\<lambda>_.
     rbind (string_field v ''detailCode'') (\<lambda>detailCode.
     rbind (ensure (hasValidDetailCode status detailCode) INVALID_RECEIPT) (\<lambda>_.
     rbind (parseProtocolId requestId) (\<lambda>_.
     rbind (parseProtocolId deliveryId) (\<lambda>_.
     rbind (normalizeMintUrl api mint) (\<lambda>normal.
     rbind (ensure (normal = mint) INVALID_RECEIPT) (\<lambda>_.
       Inr \<lparr>rc_profile = profile, rc_requestId = requestId, rc_deliveryId = deliveryId,
         rc_payloadHash = payloadHash, rc_status = status, rc_statusVersion = statusVersion,
         rc_mint = mint, rc_unit = u, rc_amount = amount, rc_detailCode = detailCode\<rparr>))))))))))))))))))))"

definition receipt_object :: "delivery_receipt \<Rightarrow> jsval" where
  "receipt_object r = JObj
     [(''profile'', JStr (rc_profile r)), (''requestId'', JStr (rc_requestId r)),
      (''deliveryId'', JStr (rc_deliveryId r)), (''payloadHash'', JStr (rc_payloadHash r)),
      (''status'', JStr (status_text (rc_status r))), (''statusVersion'', js_int (rc_statusVersion r)),
      (''mint'', JStr (rc_mint r)), (''unit'', JStr (rc_unit r)), (''amount'', js_int (rc_amount r)),
      (''detailCode'', JStr (rc_detailCode r))]"

section \<open>The wire form\<close>

definition parseDeliveryReceipt :: "url_api \<Rightarrow> jsval \<Rightarrow> delivery_error + delivery_receipt" where
  "parseDeliveryReceipt api value =
     rbind (ensure (isRecord value) INVALID_RECEIPT) (\<lambda>_.
       assertValidReceipt api (JObj
         [(''profile'', js_get value ''profile''), (''requestId'', js_get value ''request_id''),
          (''deliveryId'', js_get value ''delivery_id''), (''payloadHash'', js_get value ''payload_hash''),
          (''status'', js_get value ''status''), (''statusVersion'', js_get value ''status_version''),
          (''mint'', js_get value ''mint''), (''unit'', js_get value ''unit''),
          (''amount'', js_get value ''amount''), (''detailCode'', js_get value ''detail_code'')]))"

definition receipt_wire :: "delivery_receipt \<Rightarrow> jsval" where
  "receipt_wire r = JObj
     [(''profile'', JStr (rc_profile r)), (''request_id'', JStr (rc_requestId r)),
      (''delivery_id'', JStr (rc_deliveryId r)), (''payload_hash'', JStr (rc_payloadHash r)),
      (''status'', JStr (status_text (rc_status r))), (''status_version'', js_int (rc_statusVersion r)),
      (''mint'', JStr (rc_mint r)), (''unit'', JStr (rc_unit r)), (''amount'', js_int (rc_amount r)),
      (''detail_code'', JStr (rc_detailCode r))]"

definition serializeDeliveryReceipt :: "url_api \<Rightarrow> delivery_receipt \<Rightarrow> delivery_error + jsval" where
  "serializeDeliveryReceipt api r =
     rbind (assertValidReceipt api (receipt_object r)) (\<lambda>_. Inr (receipt_wire r))"

section \<open>Transitions and merging\<close>

definition sameIdentity :: "delivery_receipt \<Rightarrow> delivery_receipt \<Rightarrow> bool" where
  "sameIdentity previous n \<longleftrightarrow>
     rc_profile previous = rc_profile n \<and>
     rc_requestId previous = rc_requestId n \<and>
     rc_deliveryId previous = rc_deliveryId n \<and>
     rc_payloadHash previous = rc_payloadHash n \<and>
     rc_mint previous = rc_mint n \<and>
     rc_unit previous = rc_unit n \<and>
     rc_amount previous = rc_amount n"

definition sameReceipt :: "delivery_receipt \<Rightarrow> delivery_receipt \<Rightarrow> bool" where
  "sameReceipt previous n \<longleftrightarrow>
     sameIdentity previous n \<and>
     rc_status previous = rc_status n \<and>
     rc_statusVersion previous = rc_statusVersion n \<and>
     rc_detailCode previous = rc_detailCode n"

definition assertReceiptTransition ::
    "url_api \<Rightarrow> delivery_receipt option \<Rightarrow> delivery_receipt \<Rightarrow> delivery_error + unit" where
  "assertReceiptTransition api previous0 n =
     rbind (assertValidReceipt api (receipt_object n)) (\<lambda>_.
     case previous0 of
       None \<Rightarrow> if rc_statusVersion n \<noteq> 1 then Inl STATUS_VERSION_CONFLICT else Inr ()
     | Some previous \<Rightarrow>
       rbind (assertValidReceipt api (receipt_object previous)) (\<lambda>_.
       if \<not> sameIdentity previous n then Inl RECEIPT_IDENTITY_MISMATCH
       else if sameReceipt previous n then Inr ()
       else if rc_statusVersion n = rc_statusVersion previous then Inl STATUS_VERSION_CONFLICT
       else if rc_statusVersion n < rc_statusVersion previous \<or> rc_status previous = Settled
         \<or> rc_status previous = Rejected then Inl STATUS_REGRESSION
       else if rc_statusVersion n \<noteq> rc_statusVersion previous + 1 then Inl STATUS_VERSION_CONFLICT
       else if rc_status n = rc_status previous \<and> rc_detailCode n = rc_detailCode previous
         then Inl STATUS_VERSION_CONFLICT
       else if rc_detailCode previous = ''recovery_blocked'' \<and> rc_status n = Rejected
         then Inl STATUS_REGRESSION
       else Inr ()))"

definition mergeObservedReceipt ::
    "url_api \<Rightarrow> delivery_receipt option \<Rightarrow> delivery_receipt \<Rightarrow> delivery_error + delivery_receipt" where
  "mergeObservedReceipt api previous0 n =
     rbind (assertValidReceipt api (receipt_object n)) (\<lambda>_.
     case previous0 of
       None \<Rightarrow> Inr n
     | Some previous \<Rightarrow>
       rbind (assertValidReceipt api (receipt_object previous)) (\<lambda>_.
       if \<not> sameIdentity previous n then Inl RECEIPT_IDENTITY_MISMATCH
       else if sameReceipt previous n then Inr previous
       else if rc_statusVersion n < rc_statusVersion previous then Inr previous
       else if rc_statusVersion n = rc_statusVersion previous then Inl STATUS_VERSION_CONFLICT
       else if rc_status previous = Settled \<or> rc_status previous = Rejected then Inl STATUS_REGRESSION
       else if rc_detailCode previous = ''recovery_blocked'' \<and> rc_status n = Rejected
         then Inl STATUS_REGRESSION
       else Inr n))"

section \<open>Valid receipts\<close>

definition valid_receipt :: "url_api \<Rightarrow> delivery_receipt \<Rightarrow> bool" where
  "valid_receipt api r \<longleftrightarrow>
     rc_profile r = receipt_profile \<and> hash_pattern (rc_payloadHash r) \<and>
     safe_int (rc_statusVersion r) \<and> 1 \<le> rc_statusVersion r \<and> safe_nonneg (rc_amount r) \<and>
     rc_unit r \<noteq> [] \<and> rc_mint r \<noteq> [] \<and> hasValidDetailCode (rc_status r) (rc_detailCode r) \<and>
     is_ok (parseProtocolId (rc_requestId r)) \<and> is_ok (parseProtocolId (rc_deliveryId r)) \<and>
     normalizeMintUrl api (rc_mint r) = Inr (rc_mint r)"

lemma delivery_status_of_text [simp]: "delivery_status_of (JStr (status_text s)) = Some s"
  by (cases s) (simp_all add: delivery_status_of_def)

lemma string_field_ok [result_simps]: "string_field v k = Inr s \<longleftrightarrow> js_get v k = JStr s"
  by (auto simp: string_field_def split: jsval.splits)

lemma safe_field_ok [result_simps]:
  "safe_field v k l = Inr i \<longleftrightarrow> js_get v k = js_int i \<and> safe_int i \<and> l \<le> i"
  by (auto simp: safe_field_def js_int_def split: jsval.splits jsnum.splits)

lemma status_field_ok [result_simps]:
  "(case m of None \<Rightarrow> Inl e | Some s \<Rightarrow> Inr s) = Inr t \<longleftrightarrow> m = Some t"
  by (cases m) auto

text \<open>What an object must hold for the validator to return the receipt \<open>r\<close>.\<close>

lemma assertValidReceipt_iff:
  "assertValidReceipt api v = Inr r \<longleftrightarrow>
     isRecord v \<and> js_get v ''profile'' = JStr (rc_profile r) \<and>
     js_get v ''requestId'' = JStr (rc_requestId r) \<and>
     js_get v ''deliveryId'' = JStr (rc_deliveryId r) \<and>
     js_get v ''payloadHash'' = JStr (rc_payloadHash r) \<and>
     delivery_status_of (js_get v ''status'') = Some (rc_status r) \<and>
     js_get v ''statusVersion'' = js_int (rc_statusVersion r) \<and>
     js_get v ''mint'' = JStr (rc_mint r) \<and> js_get v ''unit'' = JStr (rc_unit r) \<and>
     js_get v ''amount'' = js_int (rc_amount r) \<and>
     js_get v ''detailCode'' = JStr (rc_detailCode r) \<and> valid_receipt api r"
  unfolding assertValidReceipt_def result_simps valid_receipt_def is_ok_iff safe_nonneg_def
  by (cases r) (simp, blast)

lemma assertValidReceipt_object:
  "assertValidReceipt api (receipt_object r) = Inr r' \<longleftrightarrow> r' = r \<and> valid_receipt api r"
  unfolding assertValidReceipt_iff
  by (cases r; cases r') (auto simp: receipt_object_def)

lemma sameReceipt_iff: "sameReceipt a b \<longleftrightarrow> a = b"
  by (cases a; cases b) (auto simp: sameReceipt_def sameIdentity_def)

lemma sameIdentity_equiv:
  "sameIdentity a a" "sameIdentity a b \<Longrightarrow> sameIdentity b a"
  "sameIdentity a b \<Longrightarrow> sameIdentity b c \<Longrightarrow> sameIdentity a c"
  by (auto simp: sameIdentity_def)

lemma transition_None:
  "is_ok (assertReceiptTransition api None n) \<longleftrightarrow> valid_receipt api n \<and> rc_statusVersion n = 1"
  by (auto simp: assertReceiptTransition_def is_ok_rbind assertValidReceipt_object)

lemma transition_Some:
  "is_ok (assertReceiptTransition api (Some p) n) \<longleftrightarrow>
     valid_receipt api n \<and> valid_receipt api p \<and>
     (n = p \<or> sameIdentity p n \<and> rc_status p = Processing \<and> rc_statusVersion n = rc_statusVersion p + 1 \<and>
        \<not> (rc_status n = rc_status p \<and> rc_detailCode n = rc_detailCode p) \<and>
        \<not> (rc_detailCode p = ''recovery_blocked'' \<and> rc_status n = Rejected))"
proof -
  have ok: "is_ok (rbind (assertValidReceipt api (receipt_object r)) f) \<longleftrightarrow> valid_receipt api r \<and> is_ok (f r)"
    for r and f :: "delivery_receipt \<Rightarrow> delivery_error + unit"
    by (auto simp: is_ok_rbind assertValidReceipt_object)
  have status: "rc_status p = Processing \<longleftrightarrow> rc_status p \<noteq> Settled \<and> rc_status p \<noteq> Rejected"
    by (cases "rc_status p") simp_all
  show ?thesis
    unfolding assertReceiptTransition_def option.case ok sameReceipt_iff status
    using sameIdentity_equiv(1) [of p] by (cases "n = p") auto
qed

lemma merge_cases:
  assumes "valid_receipt api p" and "valid_receipt api n"
  shows "mergeObservedReceipt api (Some p) n =
    (if \<not> sameIdentity p n then Inl RECEIPT_IDENTITY_MISMATCH
     else if n = p \<or> rc_statusVersion n < rc_statusVersion p then Inr p
     else if rc_statusVersion n = rc_statusVersion p then Inl STATUS_VERSION_CONFLICT
     else if rc_status p \<noteq> Processing then Inl STATUS_REGRESSION
     else if rc_detailCode p = ''recovery_blocked'' \<and> rc_status n = Rejected then Inl STATUS_REGRESSION
     else Inr n)"
proof -
  have "assertValidReceipt api (receipt_object p) = Inr p" "assertValidReceipt api (receipt_object n) = Inr n"
    using assms by (simp_all add: assertValidReceipt_object)
  then show ?thesis
    by (cases "rc_status p") (auto simp: mergeObservedReceipt_def sameReceipt_iff sameIdentity_equiv(1))
qed

lemma merge_result:
  assumes "mergeObservedReceipt api prev n = Inr r"
  shows "r = n \<or> prev = Some r" and "valid_receipt api r"
  using assms
  by (auto simp: mergeObservedReceipt_def result_simps assertValidReceipt_object
      split: option.splits if_splits)

section \<open>Histories\<close>

text \<open>A sequence of receipts each of which the transition rules allow after the one before.\<close>

fun receipt_chain :: "url_api \<Rightarrow> delivery_receipt option \<Rightarrow> delivery_receipt list \<Rightarrow> bool" where
  "receipt_chain api previous [] = True"
| "receipt_chain api previous (r # rs) \<longleftrightarrow>
     is_ok (assertReceiptTransition api previous r) \<and> receipt_chain api (Some r) rs"

text \<open>How an earlier receipt of a chain relates to a later one.\<close>

definition receipt_before :: "delivery_receipt \<Rightarrow> delivery_receipt \<Rightarrow> bool" where
  "receipt_before a b \<longleftrightarrow> a = b \<or>
     sameIdentity a b \<and> rc_statusVersion a < rc_statusVersion b \<and> rc_status a = Processing"

text \<open>
  The history a receiver has to keep to: a chain in which nothing is rejected once the recovery was
  blocked. The transition rules alone only compare neighbours.
\<close>

definition receipt_history :: "url_api \<Rightarrow> delivery_receipt list \<Rightarrow> bool" where
  "receipt_history api hs \<longleftrightarrow> receipt_chain api None hs \<and>
     ((\<exists>a\<in>set hs. rc_detailCode a = ''recovery_blocked'') \<longrightarrow> (\<forall>b\<in>set hs. rc_status b \<noteq> Rejected))"

lemma receipt_before_trans: "receipt_before a b \<Longrightarrow> receipt_before b c \<Longrightarrow> receipt_before a c"
  by (auto simp: receipt_before_def sameIdentity_def)

lemma transition_before: "is_ok (assertReceiptTransition api (Some p) n) \<Longrightarrow> receipt_before p n"
  by (auto simp: transition_Some receipt_before_def)

lemma chain_valid: "receipt_chain api p hs \<Longrightarrow> r \<in> set hs \<Longrightarrow> valid_receipt api r"
  by (induction hs arbitrary: p)
    (auto simp: assertReceiptTransition_def is_ok_rbind assertValidReceipt_object)

lemma chain_after: "receipt_chain api (Some p) hs \<Longrightarrow> r \<in> set hs \<Longrightarrow> receipt_before p r"
  by (induction hs arbitrary: p) (auto dest: transition_before intro: receipt_before_trans)

lemma chain_sorted: "receipt_chain api p hs \<Longrightarrow> sorted_wrt receipt_before hs"
  by (induction hs arbitrary: p) (auto dest: chain_after)

lemma sorted_wrt_total:
  assumes "sorted_wrt R xs" and "a \<in> set xs" and "b \<in> set xs"
  shows "a = b \<or> R a b \<or> R b a"
  using assms by (induction xs) auto

lemma chain_total:
  assumes "receipt_chain api p hs" and "a \<in> set hs" and "b \<in> set hs"
  shows "receipt_before a b \<or> receipt_before b a"
  using sorted_wrt_total [OF chain_sorted [OF assms(1)] assms(2,3)] by (auto simp: receipt_before_def)

interpretation rcpt: version_register "mergeObservedReceipt api" rc_statusVersion "receipt_history api"
  for api
proof
  fix hs a b
  assume "receipt_history api hs" and a: "a \<in> set hs"
  then have chain: "receipt_chain api None hs"
    and blocked: "\<And>b. rc_detailCode a = ''recovery_blocked'' \<Longrightarrow> b \<in> set hs \<Longrightarrow> rc_status b \<noteq> Rejected"
    by (auto simp: receipt_history_def)
  show "mergeObservedReceipt api None a = Inr a"
    using chain_valid [OF chain a] by (simp add: mergeObservedReceipt_def rbind_eq_Inr assertValidReceipt_object)
  assume b: "b \<in> set hs"
  note total = chain_total [OF chain a b]
  note merge = merge_cases [OF chain_valid [OF chain a] chain_valid [OF chain b]]
  show "rc_statusVersion a < rc_statusVersion b \<Longrightarrow> mergeObservedReceipt api (Some a) b = Inr b"
    using total blocked [OF _ b] by (auto simp: merge receipt_before_def)
  show "rc_statusVersion b \<le> rc_statusVersion a \<Longrightarrow> mergeObservedReceipt api (Some a) b = Inr a"
    using total by (auto simp: merge receipt_before_def sameIdentity_equiv(1) intro: sameIdentity_equiv(2))
  show "rc_statusVersion a = rc_statusVersion b \<Longrightarrow> a = b"
    using total by (auto simp: receipt_before_def)
qed

text \<open>A sender's fold of the receipts it is shown.\<close>

definition observeReceipts ::
    "url_api \<Rightarrow> delivery_receipt list \<Rightarrow> delivery_error + delivery_receipt option" where
  "observeReceipts api rs = rfold (\<lambda>s r. rbind (mergeObservedReceipt api s r) (\<lambda>m. Inr (Some m))) None rs"

lemma observeReceipts_eq: "observeReceipts api = rcpt.observe api None"
  by (rule ext) (simp add: observeReceipts_def rcpt.observe_def)

section \<open>Properties\<close>

lemma parse_receipt_wire: "parseDeliveryReceipt api (receipt_wire r) = Inr r' \<longleftrightarrow> r' = r \<and> valid_receipt api r"
  unfolding parseDeliveryReceipt_def result_simps assertValidReceipt_iff
  by (cases r; cases r') (auto simp: receipt_wire_def)

text \<open>
  C39: A receipt survives the wire: what serialising a receipt produces parses back to that receipt, and
  serialising succeeds on every receipt that parsing returns.
\<close>

theorem receipt_roundtrip:
  "(serializeDeliveryReceipt api r = Inr w \<longrightarrow> parseDeliveryReceipt api w = Inr r) \<and>
   (parseDeliveryReceipt api v = Inr r \<longrightarrow>
     (\<exists>w. serializeDeliveryReceipt api r = Inr w \<and> parseDeliveryReceipt api w = Inr r))"
proof -
  have "serializeDeliveryReceipt api r = Inr w \<longleftrightarrow> w = receipt_wire r \<and> valid_receipt api r" for w
    unfolding serializeDeliveryReceipt_def result_simps assertValidReceipt_object by auto
  moreover have "parseDeliveryReceipt api v = Inr r \<Longrightarrow> valid_receipt api r"
    unfolding parseDeliveryReceipt_def result_simps assertValidReceipt_iff by blast
  ultimately show ?thesis
    by (simp add: parse_receipt_wire)
qed

definition demo_receipt :: "delivery_status \<Rightarrow> int \<Rightarrow> string \<Rightarrow> delivery_receipt" where
  "demo_receipt status version detail =
     \<lparr>rc_profile = receipt_profile, rc_requestId = demo_id, rc_deliveryId = demo_id,
      rc_payloadHash = replicate 64 (CHR ''0''), rc_status = status, rc_statusVersion = version,
      rc_mint = ''https://mint.io/a'', rc_unit = ''sat'', rc_amount = 8, rc_detailCode = detail\<rparr>"

lemma demo_mint_normal: "normalizeMintUrl demo_url_api ''https://mint.io/a'' = Inr ''https://mint.io/a''"
  by (simp add: demo_url_defs)

lemma demo_receipt_valid [simp]:
  "valid_receipt demo_url_api (demo_receipt st n d) \<longleftrightarrow> 1 \<le> n \<and> n \<le> max_safe_integer \<and> hasValidDetailCode st d"
  by (auto simp: valid_receipt_def demo_receipt_def hash_pattern_def lower_hex_def safe_int_def
      safe_nonneg_def max_safe_integer_def demo_mint_normal)

lemma demo_receipt_simps [simp]:
  "rc_status (demo_receipt st n d) = st" "rc_statusVersion (demo_receipt st n d) = n"
  "rc_detailCode (demo_receipt st n d) = d" "sameIdentity (demo_receipt st n d) (demo_receipt st' n' d')"
  "demo_receipt st n d = demo_receipt st' n' d' \<longleftrightarrow> st = st' \<and> n = n' \<and> d = d'"
  by (auto simp: demo_receipt_def sameIdentity_def)

lemmas demo_receipt_eval = transition_None transition_Some hasValidDetailCode_def known_detail_codes_def
  max_safe_integer_def

theorem receipt_roundtrip_witness:
  "\<exists>w. serializeDeliveryReceipt demo_url_api (demo_receipt Settled 2 ''settled'') = Inr w \<and>
     parseDeliveryReceipt demo_url_api w = Inr (demo_receipt Settled 2 ''settled'')"
proof -
  have "parseDeliveryReceipt demo_url_api (receipt_wire (demo_receipt Settled 2 ''settled'')) =
      Inr (demo_receipt Settled 2 ''settled'')"
    by (simp add: parse_receipt_wire demo_receipt_eval)
  then show ?thesis
    using receipt_roundtrip by blast
qed

text \<open>
  In a sequence of receipts that the transition rules accept, an earlier receipt either is the later
  one or agrees with it on every identity field, has a strictly smaller version, and was still being
  processed: versions never go backwards, one version never names two contents, and settled and
  rejected are final.
\<close>

theorem receipt_chain_ordered:
  assumes "receipt_chain api None hs" and "i < j" and "j < length hs"
  shows "receipt_before (hs ! i) (hs ! j)"
  using chain_sorted [OF assms(1)] assms(2,3) by (rule sorted_wrt_nth_less)

theorem receipt_chain_ordered_witness:
  "receipt_before (demo_receipt Processing 1 ''accepted'') (demo_receipt Settled 2 ''settled'')"
proof -
  have "receipt_chain demo_url_api None
      [demo_receipt Processing 1 ''accepted'', demo_receipt Settled 2 ''settled'']"
    by (simp add: demo_receipt_eval)
  from receipt_chain_ordered [OF this, of 0 1] show ?thesis by simp
qed

text \<open>
  C38: Observers of one receiver converge: two observers who have been shown the same receipts of a
  receiver's history, in any order and any number of times, hold the same receipt, and when they have
  been shown one at all it is the one with the highest version they saw. No observation fails.
\<close>

theorem observeReceipts_converges:
  assumes "receipt_history api hs" and "set obs = set obs'" and "set obs \<subseteq> set hs"
  shows "observeReceipts api obs = observeReceipts api obs' \<and>
    (obs = [] \<or> (\<exists>m\<in>set obs. observeReceipts api obs = Inr (Some m) \<and>
       list_all (\<lambda>r. rc_statusVersion r \<le> rc_statusVersion m) obs))"
  using rcpt.observe_convergent [OF assms] rcpt.observe_latest [OF assms(1) _ assms(3)]
  by (auto simp: observeReceipts_eq list_all_iff)

theorem observeReceipts_converges_witness:
  "observeReceipts demo_url_api
     [demo_receipt Settled 3 ''settled'', demo_receipt Processing 1 ''accepted''] =
   observeReceipts demo_url_api
     [demo_receipt Processing 1 ''accepted'', demo_receipt Settled 3 ''settled'', demo_receipt Processing 1 ''accepted'']"
proof -
  have "receipt_history demo_url_api [demo_receipt Processing 1 ''accepted'',
      demo_receipt Processing 2 ''redeeming'', demo_receipt Settled 3 ''settled'']"
    by (simp add: receipt_history_def demo_receipt_eval)
  then show ?thesis by (intro conjunct1 [OF observeReceipts_converges]) auto
qed

text \<open>
  The transition rules compare neighbours only, so they do not enforce that a delivery whose inputs
  may have been consumed is never rejected: a receipt with the detail recovery_blocked may go back to
  redeeming and from there to rejected. An observer who saw the blocked receipt then refuses the
  rejection, while one who missed it accepts it.
\<close>

theorem receipt_rules_admit_rejection_after_block:
  "receipt_chain demo_url_api None
     [demo_receipt Processing 1 ''recovery_blocked'', demo_receipt Processing 2 ''redeeming'',
      demo_receipt Rejected 3 ''invalid''] \<and>
   observeReceipts demo_url_api
     [demo_receipt Processing 1 ''recovery_blocked'', demo_receipt Rejected 3 ''invalid''] = Inl STATUS_REGRESSION \<and>
   observeReceipts demo_url_api
     [demo_receipt Processing 2 ''redeeming'', demo_receipt Rejected 3 ''invalid''] =
       Inr (Some (demo_receipt Rejected 3 ''invalid''))"
proof -
  have first: "mergeObservedReceipt demo_url_api None (demo_receipt st n d) = Inr (demo_receipt st n d)"
    if "valid_receipt demo_url_api (demo_receipt st n d)" for st n d
    using that by (simp only: mergeObservedReceipt_def rbind_eq_Inr assertValidReceipt_object) simp
  show ?thesis
    by (simp add: observeReceipts_def first merge_cases demo_receipt_eval)
qed

end
