(* ===== verification/Crash_Boundary.thy ===== *)
theory Crash_Boundary
  imports Js_Values
begin

text \<open>
  \<open>packages/delivery-core/src/crash-boundary.ts\<close>: the points at which a run can be made to crash, and
  the checkpoint that crashes it once. \<open>hit\<close> returns the boundary it throws, or nothing.
\<close>

datatype crash_boundary =
    Sender_before_proof_reservation
  | Sender_after_reservation_before_payload_persistence
  | Sender_after_payload_persistence_before_network_send
  | Sender_after_send_before_response
  | Receiver_before_mint_request
  | Receiver_after_mint_request_before_response
  | Receiver_after_mint_response_before_output_persistence
  | Receiver_after_output_persistence_before_merchant_credit
  | Receiver_after_credit_before_receipt_persistence
  | Receiver_after_receipt_persistence_before_response_or_outbox

record checkpoint =
  ck_boundary :: crash_boundary
  ck_occurrence :: int
  ck_hits :: int
  ck_fired :: bool

definition createOneShotCrashCheckpoint :: "crash_boundary \<Rightarrow> jsnum option \<Rightarrow> string + checkpoint" where
  "createOneShotCrashCheckpoint boundary occurrence =
     (case (case occurrence of None \<Rightarrow> JInt 1 | Some n \<Rightarrow> n) of
        JNonInt _ \<Rightarrow> Inl ''Crash checkpoint occurrence must be a positive safe integer''
      | JInt n \<Rightarrow>
          if \<not> safe_int n \<or> n < 1
          then Inl ''Crash checkpoint occurrence must be a positive safe integer''
          else Inr \<lparr>ck_boundary = boundary, ck_occurrence = n, ck_hits = 0, ck_fired = False\<rparr>)"

definition hit :: "checkpoint \<Rightarrow> crash_boundary \<Rightarrow> (crash_boundary option) \<times> checkpoint" where
  "hit c boundary =
     (if boundary \<noteq> ck_boundary c \<or> ck_fired c then (None, c)
      else let c' = c\<lparr>ck_hits := ck_hits c + 1\<rparr> in
        if ck_hits c' \<noteq> ck_occurrence c then (None, c')
        else (Some boundary, c'\<lparr>ck_fired := True\<rparr>))"

text \<open>The throws of a sequence of hits: a crashed process starts again with the same checkpoint.\<close>

primrec hits_of :: "checkpoint \<Rightarrow> crash_boundary list \<Rightarrow> crash_boundary option list" where
  "hits_of c [] = []"
| "hits_of c (b # bs) = (let (r, c') = hit c b in r # hits_of c' bs)"

lemma hits_fired: "ck_fired c \<Longrightarrow> hits_of c bs = replicate (length bs) None"
  by (induction bs) (simp_all add: hit_def)

lemma hits_of_nth:
  assumes "i < length bs" and "\<not> ck_fired c" and "ck_hits c < ck_occurrence c"
  shows "hits_of c bs ! i =
    (if bs ! i = ck_boundary c \<and>
        ck_hits c + int (count_list (take (Suc i) bs) (ck_boundary c)) = ck_occurrence c
     then Some (ck_boundary c) else None)"
  using assms
proof (induction bs arbitrary: c i)
  case Nil
  then show ?case by simp
next
  case (Cons b bs)
  consider (other) "b \<noteq> ck_boundary c"
    | (last) "b = ck_boundary c" "ck_hits c + 1 = ck_occurrence c"
    | (more) "b = ck_boundary c" "ck_hits c + 1 < ck_occurrence c"
    using Cons.prems(3) by linarith
  then show ?case
  proof cases
    case other
    then show ?thesis
      using Cons by (cases i) (auto simp: hit_def)
  next
    case last
    have seen: "count_list (take (Suc j) bs) b > 0" if "j < length bs" "bs ! j = b" for j
      using that by (metis count_list_0_iff gr0I in_set_conv_nth length_take lessI min_less_iff_conj nth_take)
    show ?thesis
    proof (cases i)
      case 0
      then show ?thesis using last Cons.prems by (simp add: hit_def)
    next
      case (Suc j)
      then show ?thesis using last Cons.prems seen [of j] by (auto simp: hit_def hits_fired)
    qed
  next
    case more
    have h: "hit c b = (None, c\<lparr>ck_hits := ck_hits c + 1\<rparr>)"
      using more Cons.prems by (simp add: hit_def)
    show ?thesis
    proof (cases i)
      case 0
      then show ?thesis using more h by simp
    next
      case (Suc j)
      then show ?thesis
        using Cons.IH [of j "c\<lparr>ck_hits := ck_hits c + 1\<rparr>"] Cons.prems more
        by (auto simp: hit_def)
    qed
  qed
qed

lemma hits_of_length [simp]: "length (hits_of c bs) = length bs"
  by (induction bs arbitrary: c) (simp_all add: split_beta Let_def)

text \<open>
  A one-shot checkpoint crashes a run at exactly one place: a hit throws when it is at the chosen
  boundary and it is the chosen occurrence of it, and no other hit throws, before or after.
\<close>

theorem checkpoint_fires_once:
  assumes "createOneShotCrashCheckpoint b (Some (JInt n)) = Inr c" and "i < length bs"
  shows "hits_of c bs ! i =
    (if bs ! i = b \<and> int (count_list (take (Suc i) bs) b) = n then Some b else None)"
proof -
  have "c = \<lparr>ck_boundary = b, ck_occurrence = n, ck_hits = 0, ck_fired = False\<rparr>" "1 \<le> n"
    using assms(1) by (auto simp: createOneShotCrashCheckpoint_def split: if_splits)
  then show ?thesis
    using hits_of_nth [OF assms(2), of c] by simp
qed

definition demo_checkpoint :: checkpoint where
  "demo_checkpoint = \<lparr>ck_boundary = Receiver_before_mint_request, ck_occurrence = 2, ck_hits = 0, ck_fired = False\<rparr>"

theorem checkpoint_fires_once_witness:
  "hits_of demo_checkpoint [Receiver_before_mint_request, Sender_after_send_before_response,
     Receiver_before_mint_request, Receiver_before_mint_request] ! 2 = Some Receiver_before_mint_request"
proof -
  have "createOneShotCrashCheckpoint Receiver_before_mint_request (Some (JInt 2)) = Inr demo_checkpoint"
    by (simp add: createOneShotCrashCheckpoint_def demo_checkpoint_def safe_int_def max_safe_integer_def)
  note fires = checkpoint_fires_once [OF this, of 2 "[Receiver_before_mint_request,
    Sender_after_send_before_response, Receiver_before_mint_request, Receiver_before_mint_request]"]
  show ?thesis
    by (subst fires) simp_all
qed

end
