(* ===== verification/Js_Map.thy ===== *)
theory Js_Map
  imports Prelude
begin

text \<open>
  The JavaScript \<open>Map\<close>: an association list in insertion order. Setting a key that is present keeps its
  place, setting a new one appends. \<open>map_of\<close> reads it; the lemmas turn every update into the update of
  that function, so component proofs never look at the list.
\<close>

type_synonym ('k, 'v) jsmap = "('k \<times> 'v) list"

primrec mp_set :: "('k, 'v) jsmap \<Rightarrow> 'k \<Rightarrow> 'v \<Rightarrow> ('k, 'v) jsmap" where
  "mp_set [] k v = [(k, v)]"
| "mp_set (p # m) k v = (if fst p = k then (k, v) # m else p # mp_set m k v)"

definition mp_delete :: "('k, 'v) jsmap \<Rightarrow> 'k \<Rightarrow> ('k, 'v) jsmap" where
  "mp_delete m k = filter (\<lambda>p. fst p \<noteq> k) m"

definition mp_values :: "('k, 'v) jsmap \<Rightarrow> 'v list" where
  "mp_values m = map snd m"

definition mp_keys :: "('k, 'v) jsmap \<Rightarrow> 'k list" where
  "mp_keys m = map fst m"

text \<open>A map has each key once.\<close>

definition mp_ok :: "('k, 'v) jsmap \<Rightarrow> bool" where
  "mp_ok m = distinct (map fst m)"

lemma map_of_mp_set [simp]: "map_of (mp_set m k v) = (map_of m)(k \<mapsto> v)"
  by (induction m) auto

lemma map_of_mp_delete [simp]: "map_of (mp_delete m k) = (map_of m)(k := None)"
  by (induction m) (auto simp: mp_delete_def)

lemma keys_mp_set: "fst ` set (mp_set m k v) = insert k (fst ` set m)"
  by (induction m) auto

lemma mp_ok_empty [simp]: "mp_ok []"
  by (simp add: mp_ok_def)

lemma mp_ok_set [simp]: "mp_ok m \<Longrightarrow> mp_ok (mp_set m k v)"
  by (induction m) (auto simp: mp_ok_def keys_mp_set)

lemma mp_ok_delete [simp]: "mp_ok m \<Longrightarrow> mp_ok (mp_delete m k)"
  by (simp add: mp_ok_def mp_delete_def distinct_map_filter)

lemma in_mp_values: "mp_ok m \<Longrightarrow> v \<in> set (mp_values m) \<longleftrightarrow> (\<exists>k. map_of m k = Some v)"
  by (force simp: mp_ok_def mp_values_def)

lemma mp_set_same: "map_of m k = Some v \<Longrightarrow> mp_set m k v = m"
  by (induction m) (auto split: if_splits)

text \<open>Marking or releasing a list of keys, as the claim loops do.\<close>

definition mp_set_all :: "('k, 'v) jsmap \<Rightarrow> 'k list \<Rightarrow> 'v \<Rightarrow> ('k, 'v) jsmap" where
  "mp_set_all m ks v = fold (\<lambda>k m. mp_set m k v) ks m"

definition mp_release :: "('k, 'v) jsmap \<Rightarrow> 'k list \<Rightarrow> 'v \<Rightarrow> ('k, 'v) jsmap" where
  "mp_release m ks v = fold (\<lambda>k m. if map_of m k = Some v then mp_delete m k else m) ks m"

lemma map_of_mp_set_all [simp]:
  "map_of (mp_set_all m ks v) x = (if x \<in> set ks then Some v else map_of m x)"
  unfolding mp_set_all_def by (induction ks arbitrary: m) auto

lemma map_of_mp_release [simp]:
  "map_of (mp_release m ks v) x = (if x \<in> set ks \<and> map_of m x = Some v then None else map_of m x)"
  unfolding mp_release_def by (induction ks arbitrary: m) auto

lemma mp_ok_set_all [simp]: "mp_ok m \<Longrightarrow> mp_ok (mp_set_all m ks v)"
  unfolding mp_set_all_def by (induction ks arbitrary: m) auto

lemma mp_ok_release [simp]: "mp_ok m \<Longrightarrow> mp_ok (mp_release m ks v)"
  unfolding mp_release_def by (induction ks arbitrary: m) auto

end
