(* ===== verification/Receiver_Store.thy ===== *)
theory Receiver_Store
  imports Payload Receipt Crash_Boundary Js_Map "HOL-Library.List_Lexorder" "HOL-Library.Char_ord"
begin

text \<open>
  The store of the reference receiver: \<open>domain/types.ts\<close>, \<open>domain/request-binding.ts\<close>,
  \<open>adapters/store-helpers.ts\<close> and \<open>adapters/memory-store.ts\<close> under \<open>apps/reference-receiver/src\<close>.

  The five maps of \<open>StoreState\<close> are the record \<open>store_state\<close>. An operation runs in a transaction: it
  works on a copy of the state, which replaces the state when the operation returns and is dropped
  when it throws, and transactions run one after the other. So an operation is a function from a
  state to a result and a state, and any schedule of concurrent callers is a sequence of operations.
  The redemption locks are with the callers that use them, in the theory of the recovery.

  Numbers that come from a caller's request body are \<open>jsnum\<close>; clock readings and computed amounts
  are integers, still checked against the safe range.
\<close>

section \<open>Types\<close>

datatype receiver_code =
    R_INVALID_REQUEST
  | R_REQUEST_NOT_FOUND
  | R_REQUEST_EXPIRED
  | R_DELIVERY_EXPIRED
  | R_DELIVERY_TIME_INVALID
  | R_REQUEST_MISMATCH
  | R_MINT_MISMATCH
  | R_UNIT_MISMATCH
  | R_AMOUNT_MISMATCH
  | R_DELIVERY_CONFLICT
  | R_PROOF_CONFLICT
  | R_SINGLE_USE_CONFLICT
  | R_INVALID_PROOF_EVIDENCE
  | R_INVALID_STATE

text \<open>
  What the receiver's code can throw: its own domain error, an error of the validators, the error of
  a crash checkpoint, a gateway error with its code and whether inputs may have been consumed, or any
  other error.
\<close>

datatype receiver_error =
    Domain receiver_code
  | Validation delivery_error
  | CrashBoundaryHit crash_boundary string
  | MintGatewayError string bool
  | OtherError string

record create_payment_request =
  cr_id :: string
  cr_amount :: jsnum
  cr_unit :: jsval
  cr_mints :: "string list"
  cr_singleUse :: bool
  cr_expiresAt :: jsnum

record payment_request =
  pr_id :: string
  pr_amount :: int
  pr_unit :: string
  pr_mints :: "string list"
  pr_singleUse :: bool
  pr_expiresAt :: int

record accept_command =
  ac_payload :: delivery_payload
  ac_payloadHash :: string

record swap_plan_draft =
  sp_deliveryId :: string
  sp_mint :: string
  sp_unit :: string
  sp_expectedAmount :: int
  sp_inputProofs :: "jsval option list"
  sp_proofYs :: "string list"

record swap_output =
  so_amount :: int
  so_id :: string
  so_B :: string
  so_secret :: string
  so_blindingFactor :: string

record recovery_policy =
  rp_nut09 :: bool
  rp_nut19Replay :: bool
  rp_nut19ReplayUntil :: "int option"

record exact_swap_plan = swap_plan_draft +
  xp_keysetId :: string
  xp_inputFeePpk :: int
  xp_outputs :: "swap_output list"
  xp_serializedRequest :: string
  xp_preparedAt :: int
  xp_recovery :: recovery_policy

datatype delivery_phase =
    Prepared
  | Mint_sent
  | Recovery_blocked
  | Outputs_persisted
  | Credited
  | Phase_settled
  | Phase_rejected

record delivery_record =
  dr_requestId :: string
  dr_deliveryId :: string
  dr_payloadHash :: string
  dr_proofSetHash :: string
  dr_proofClaimIds :: "string list"
  dr_plan :: exact_swap_plan
  dr_amount :: int
  dr_redemptionStarts :: int
  dr_phase :: delivery_phase
  dr_receipt :: delivery_receipt
  dr_replacementPlanHash :: "string option"
  dr_replacementProofs :: "string list option"

record merchant_credit =
  mc_creditId :: string
  mc_requestId :: string
  mc_deliveryId :: string
  mc_amount :: int
  mc_unit :: string
  mc_createdAt :: int

record prepare_delivery =
  pd_command :: accept_command
  pd_proofSetHash :: string
  pd_proofClaimIds :: "string list"
  pd_proofYs :: "string list"
  pd_netAmount :: int
  pd_plan :: exact_swap_plan
  pd_now :: int

datatype prepare_result = Kind_prepared delivery_record | Kind_duplicate delivery_record

record commit_settlement =
  cs_deliveryId :: string
  cs_replacementPlanHash :: string
  cs_replacementProofs :: "string list"
  cs_now :: int

section \<open>Guards and helpers\<close>

definition assertSafeInteger :: "int \<Rightarrow> receiver_error + unit" where
  "assertSafeInteger v = ensure (\<not> (\<not> safe_int v \<or> v < 0)) (Domain R_INVALID_REQUEST)"

fun safe_number :: "jsnum \<Rightarrow> receiver_error + int" where
  "safe_number (JInt i) = rbind (assertSafeInteger i) (\<lambda>_. Inr i)"
| "safe_number (JNonInt _) = Inl (Domain R_INVALID_REQUEST)"

definition isSameDeliveryBinding :: "delivery_record \<Rightarrow> accept_command \<Rightarrow> bool" where
  "isSameDeliveryBinding record command \<longleftrightarrow>
     dr_requestId record = dp_id (ac_payload command) \<and>
     dr_deliveryId record = dp_deliveryId (ac_payload command) \<and>
     dr_payloadHash record = ac_payloadHash command \<and>
     sp_mint (dr_plan record) = dp_mint (ac_payload command) \<and>
     sp_unit (dr_plan record) = dp_unit (ac_payload command)"

definition validateRequestBinding :: "payment_request \<Rightarrow> accept_command \<Rightarrow> int \<Rightarrow> receiver_error + unit" where
  "validateRequestBinding request command now =
     (let payload = ac_payload command in
      rbind (assertSafeInteger now) (\<lambda>_.
      if pr_expiresAt request < now - 60 then Inl (Domain R_REQUEST_EXPIRED)
      else if dp_expiresAt payload < now - 60 then Inl (Domain R_DELIVERY_EXPIRED)
      else if dp_createdAt payload > now + 60 then Inl (Domain R_DELIVERY_TIME_INVALID)
      else if dp_expiresAt payload \<noteq> pr_expiresAt request then Inl (Domain R_REQUEST_MISMATCH)
      else if dp_unit payload \<noteq> pr_unit request then Inl (Domain R_UNIT_MISMATCH)
      else if dp_mint payload \<notin> set (pr_mints request) then Inl (Domain R_MINT_MISMATCH)
      else Inr ()))"

definition nextReceipt ::
    "url_api \<Rightarrow> delivery_receipt \<Rightarrow> delivery_status \<Rightarrow> string \<Rightarrow> receiver_error + delivery_receipt" where
  "nextReceipt api previous status detailCode =
     (let n = previous\<lparr>rc_status := status, rc_detailCode := detailCode,
            rc_statusVersion := rc_statusVersion previous + 1\<rparr> in
      rbind (map_sum Validation id (assertReceiptTransition api (Some previous) n)) (\<lambda>_. Inr n))"

definition sameRequest :: "payment_request \<Rightarrow> payment_request \<Rightarrow> bool" where
  "sameRequest left right \<longleftrightarrow>
     pr_id left = pr_id right \<and>
     pr_amount left = pr_amount right \<and>
     pr_unit left = pr_unit right \<and>
     pr_singleUse left = pr_singleUse right \<and>
     pr_expiresAt left = pr_expiresAt right \<and>
     length (pr_mints left) = length (pr_mints right) \<and>
     list_all (\<lambda>(m, i). m = pr_mints right ! i) (zip (pr_mints left) [0..<length (pr_mints left)])"

definition sameDelivery :: "delivery_record \<Rightarrow> prepare_delivery \<Rightarrow> bool" where
  "sameDelivery left input \<longleftrightarrow>
     dr_requestId left = dp_id (ac_payload (pd_command input)) \<and>
     dr_deliveryId left = dp_deliveryId (ac_payload (pd_command input)) \<and>
     dr_payloadHash left = ac_payloadHash (pd_command input) \<and>
     dr_proofSetHash left = pd_proofSetHash input \<and>
     sp_mint (dr_plan left) = sp_mint (pd_plan input) \<and>
     sp_unit (dr_plan left) = sp_unit (pd_plan input) \<and>
     dr_amount left = pd_netAmount input"

section \<open>The state and its transactions\<close>

record store_state =
  st_requests :: "(string, payment_request) jsmap"
  st_deliveries :: "(string, delivery_record) jsmap"
  st_proofClaims :: "(string, string) jsmap"
  st_requestReservations :: "(string, string) jsmap"
  st_credits :: "(string, merchant_credit) jsmap"

definition emptyState :: store_state where
  "emptyState = \<lparr>st_requests = [], st_deliveries = [], st_proofClaims = [], st_requestReservations = [],
     st_credits = []\<rparr>"

definition transaction ::
    "(store_state \<Rightarrow> receiver_error + 'a \<times> store_state) \<Rightarrow> store_state \<Rightarrow> (receiver_error + 'a) \<times> store_state" where
  "transaction operation state =
     (case operation state of
        Inl e \<Rightarrow> (Inl e, state)
      | Inr (result, draft) \<Rightarrow> (Inr result, draft))"

definition requireDelivery :: "store_state \<Rightarrow> string \<Rightarrow> receiver_error + delivery_record" where
  "requireDelivery state deliveryId =
     (case map_of (st_deliveries state) deliveryId of
        None \<Rightarrow> Inl (Domain R_INVALID_STATE)
      | Some record \<Rightarrow> Inr record)"

definition set_delivery :: "string \<Rightarrow> delivery_record \<Rightarrow> store_state \<Rightarrow> store_state" where
  "set_delivery d record draft = draft\<lparr>st_deliveries := mp_set (st_deliveries draft) d record\<rparr>"

text \<open>\<open>owner && owner !== id\<close>: the entry is present, not the empty string, and someone else's.\<close>

definition held_by_other :: "string option \<Rightarrow> string \<Rightarrow> bool" where
  "held_by_other owner d \<longleftrightarrow> (case owner of None \<Rightarrow> False | Some s \<Rightarrow> s \<noteq> [] \<and> s \<noteq> d)"

section \<open>Operations\<close>

definition reset :: "store_state \<Rightarrow> (receiver_error + unit) \<times> store_state" where
  "reset = transaction (\<lambda>draft. Inr ((), draft\<lparr>st_requests := [], st_deliveries := [],
     st_proofClaims := [], st_requestReservations := [], st_credits := []\<rparr>))"

definition createRequest ::
    "url_api \<Rightarrow> create_payment_request \<Rightarrow> store_state \<Rightarrow> (receiver_error + payment_request) \<times> store_state" where
  "createRequest api input state =
     (case
        rbind (map_sum Validation id (parseProtocolId (cr_id input))) (\<lambda>i.
        rbind (safe_number (cr_amount input)) (\<lambda>amount.
        rbind (safe_number (cr_expiresAt input)) (\<lambda>expiresAt.
        rbind (case cr_unit input of
                 JStr u \<Rightarrow> ensure (u \<noteq> [] \<and> cr_mints input \<noteq> []) (Domain R_INVALID_REQUEST)
               | _ \<Rightarrow> Inl (Domain R_INVALID_REQUEST)) (\<lambda>_.
        rbind (map_sum Validation id (traverse (normalizeMintUrl api) (cr_mints input))) (\<lambda>mints.
          Inr \<lparr>pr_id = i, pr_amount = amount,
            pr_unit = (case cr_unit input of JStr u \<Rightarrow> u | _ \<Rightarrow> []),
            pr_mints = sort (remdups mints), pr_singleUse = cr_singleUse input,
            pr_expiresAt = expiresAt\<rparr>)))))
      of Inl e \<Rightarrow> (Inl e, state)
       | Inr record \<Rightarrow> transaction (\<lambda>draft.
           case map_of (st_requests draft) (pr_id record) of
             None \<Rightarrow> Inr (record, draft\<lparr>st_requests := mp_set (st_requests draft) (pr_id record) record\<rparr>)
           | Some previous \<Rightarrow>
               if \<not> sameRequest previous record then Inl (Domain R_INVALID_REQUEST)
               else Inr (previous,
                 draft\<lparr>st_requests := mp_set (st_requests draft) (pr_id record) previous\<rparr>)) state)"

definition preflight ::
    "accept_command \<Rightarrow> int \<Rightarrow> store_state \<Rightarrow> (receiver_error + delivery_record option) \<times> store_state" where
  "preflight command now = transaction (\<lambda>draft.
     case map_of (st_deliveries draft) (dp_deliveryId (ac_payload command)) of
       Some previous \<Rightarrow>
         if \<not> isSameDeliveryBinding previous command then Inl (Domain R_DELIVERY_CONFLICT)
         else Inr (Some previous, draft)
     | None \<Rightarrow>
       (case map_of (st_requests draft) (dp_id (ac_payload command)) of
          None \<Rightarrow> Inl (Domain R_REQUEST_NOT_FOUND)
        | Some request \<Rightarrow>
            rbind (validateRequestBinding request command now) (\<lambda>_.
            if pr_singleUse request \<and>
               held_by_other (map_of (st_requestReservations draft) (pr_id request))
                 (dp_deliveryId (ac_payload command))
            then Inl (Domain R_SINGLE_USE_CONFLICT)
            else Inr (None, draft))))"

definition initial_receipt :: "payment_request \<Rightarrow> prepare_delivery \<Rightarrow> delivery_receipt" where
  "initial_receipt request input =
     (let payload = ac_payload (pd_command input) in
      \<lparr>rc_profile = ''cashu-delivery-v1'', rc_requestId = pr_id request,
       rc_deliveryId = dp_deliveryId payload, rc_payloadHash = ac_payloadHash (pd_command input),
       rc_status = Processing, rc_statusVersion = 1, rc_mint = dp_mint payload,
       rc_unit = dp_unit payload, rc_amount = pr_amount request, rc_detailCode = ''accepted''\<rparr>)"

definition initial_record :: "payment_request \<Rightarrow> prepare_delivery \<Rightarrow> delivery_record" where
  "initial_record request input =
     \<lparr>dr_requestId = pr_id request, dr_deliveryId = dp_deliveryId (ac_payload (pd_command input)),
      dr_payloadHash = ac_payloadHash (pd_command input), dr_proofSetHash = pd_proofSetHash input,
      dr_proofClaimIds = pd_proofClaimIds input, dr_plan = pd_plan input, dr_amount = pr_amount request,
      dr_redemptionStarts = 0, dr_phase = Prepared, dr_receipt = initial_receipt request input,
      dr_replacementPlanHash = None, dr_replacementProofs = None\<rparr>"

definition evidence_complete :: "prepare_delivery \<Rightarrow> bool" where
  "evidence_complete input \<longleftrightarrow>
     (let payload = ac_payload (pd_command input) in
      length (pd_proofClaimIds input) = length (dp_proofs payload) \<and>
      length (pd_proofYs input) = length (dp_proofs payload) \<and>
      length (remdups (pd_proofClaimIds input)) = length (pd_proofClaimIds input) \<and>
      pd_proofSetHash input \<noteq> [])"

definition admit :: "payment_request \<Rightarrow> delivery_record \<Rightarrow> store_state \<Rightarrow> store_state" where
  "admit request record draft = draft\<lparr>
     st_deliveries := mp_set (st_deliveries draft) (dr_deliveryId record) record,
     st_proofClaims := mp_set_all (st_proofClaims draft) (dr_proofClaimIds record) (dr_deliveryId record),
     st_requestReservations :=
       (if pr_singleUse request
        then mp_set (st_requestReservations draft) (pr_id request) (dr_deliveryId record)
        else st_requestReservations draft)\<rparr>"

definition prepare ::
    "url_api \<Rightarrow> prepare_delivery \<Rightarrow> store_state \<Rightarrow> (receiver_error + prepare_result) \<times> store_state" where
  "prepare api input = transaction (\<lambda>draft.
     let payload = ac_payload (pd_command input); d = dp_deliveryId payload in
     case map_of (st_requests draft) (dp_id payload) of
       None \<Rightarrow> Inl (Domain R_REQUEST_NOT_FOUND)
     | Some request \<Rightarrow>
         rbind (validateRequestBinding request (pd_command input) (pd_now input)) (\<lambda>_.
         if pd_netAmount input \<noteq> pr_amount request then Inl (Domain R_AMOUNT_MISMATCH)
         else if \<not> evidence_complete input then Inl (Domain R_INVALID_PROOF_EVIDENCE)
         else case map_of (st_deliveries draft) d of
           Some previous \<Rightarrow>
             if \<not> sameDelivery previous input then Inl (Domain R_DELIVERY_CONFLICT)
             else Inr (Kind_duplicate previous, draft)
         | None \<Rightarrow>
             if list_ex (\<lambda>claim. held_by_other (map_of (st_proofClaims draft) claim) d) (pd_proofClaimIds input)
             then Inl (Domain R_PROOF_CONFLICT)
             else if pr_singleUse request \<and>
               held_by_other (map_of (st_requestReservations draft) (pr_id request)) d
             then Inl (Domain R_SINGLE_USE_CONFLICT)
             else
               let record = initial_record request input in
               rbind (map_sum Validation id (assertReceiptTransition api None (dr_receipt record))) (\<lambda>_.
                 Inr (Kind_prepared record, admit request record draft))))"

definition markMintSent ::
    "url_api \<Rightarrow> string \<Rightarrow> store_state \<Rightarrow> (receiver_error + delivery_receipt) \<times> store_state" where
  "markMintSent api deliveryId = transaction (\<lambda>draft.
     rbind (requireDelivery draft deliveryId) (\<lambda>record.
     if dr_phase record \<noteq> Prepared then Inr (dr_receipt record, draft)
     else
       rbind (nextReceipt api (dr_receipt record) Processing ''redeeming'') (\<lambda>receipt.
         Inr (receipt, set_delivery deliveryId (record\<lparr>dr_phase := Mint_sent, dr_receipt := receipt\<rparr>) draft))))"

definition recordRedemptionStart :: "string \<Rightarrow> store_state \<Rightarrow> (receiver_error + unit) \<times> store_state" where
  "recordRedemptionStart deliveryId = transaction (\<lambda>draft.
     rbind (requireDelivery draft deliveryId) (\<lambda>record.
     if dr_phase record = Prepared \<or> dr_phase record = Phase_rejected then Inl (Domain R_INVALID_STATE)
     else Inr ((), set_delivery deliveryId
       (record\<lparr>dr_redemptionStarts := min (dr_redemptionStarts record + 1) 1000\<rparr>) draft)))"

definition credit_of :: "delivery_record \<Rightarrow> int \<Rightarrow> merchant_credit" where
  "credit_of record now =
     \<lparr>mc_creditId = dr_deliveryId record, mc_requestId = dr_requestId record,
      mc_deliveryId = dr_deliveryId record, mc_amount = dr_amount record,
      mc_unit = rc_unit (dr_receipt record), mc_createdAt = now\<rparr>"

definition conflicting_credit :: "merchant_credit option \<Rightarrow> merchant_credit \<Rightarrow> bool" where
  "conflicting_credit previous credit \<longleftrightarrow> (case previous of None \<Rightarrow> False | Some c \<Rightarrow> c \<noteq> credit)"

definition set_credit :: "string \<Rightarrow> merchant_credit \<Rightarrow> store_state \<Rightarrow> store_state" where
  "set_credit d credit draft = draft\<lparr>st_credits := mp_set (st_credits draft) d
     (case map_of (st_credits draft) d of None \<Rightarrow> credit | Some previous \<Rightarrow> previous)\<rparr>"

definition settle ::
    "url_api \<Rightarrow> commit_settlement \<Rightarrow> store_state \<Rightarrow> (receiver_error + delivery_receipt) \<times> store_state" where
  "settle api input = transaction (\<lambda>draft.
     rbind (requireDelivery draft (cs_deliveryId input)) (\<lambda>record.
     if dr_phase record = Phase_settled then
       (if dr_replacementPlanHash record \<noteq> Some (cs_replacementPlanHash input)
        then Inl (Domain R_INVALID_STATE) else Inr (dr_receipt record, draft))
     else if dr_phase record = Phase_rejected \<or> dr_phase record = Prepared then Inl (Domain R_INVALID_STATE)
     else if dr_replacementPlanHash record \<noteq> None \<and>
       dr_replacementPlanHash record \<noteq> Some (cs_replacementPlanHash input) then Inl (Domain R_INVALID_STATE)
     else if cs_replacementPlanHash input = [] \<or> cs_replacementProofs input = []
       then Inl (Domain R_INVALID_STATE)
     else
       rbind (assertSafeInteger (cs_now input)) (\<lambda>_.
       let credit = credit_of record (cs_now input) in
       if conflicting_credit (map_of (st_credits draft) (dr_deliveryId record)) credit
       then Inl (Domain R_INVALID_STATE)
       else
         rbind (nextReceipt api (dr_receipt record) Settled ''settled'') (\<lambda>receipt.
           Inr (receipt,
             set_delivery (dr_deliveryId record)
               (record\<lparr>dr_phase := Phase_settled,
                 dr_replacementPlanHash := Some (cs_replacementPlanHash input),
                 dr_replacementProofs := Some (cs_replacementProofs input), dr_receipt := receipt\<rparr>)
               (set_credit (dr_deliveryId record) credit draft))))))"

definition persistSettlementOutputs ::
    "commit_settlement \<Rightarrow> store_state \<Rightarrow> (receiver_error + delivery_receipt) \<times> store_state" where
  "persistSettlementOutputs input = transaction (\<lambda>draft.
     rbind (requireDelivery draft (cs_deliveryId input)) (\<lambda>record.
     if dr_phase record = Phase_settled then
       (if dr_replacementPlanHash record \<noteq> Some (cs_replacementPlanHash input)
        then Inl (Domain R_INVALID_STATE) else Inr (dr_receipt record, draft))
     else if dr_phase record = Outputs_persisted \<or> dr_phase record = Credited then
       (if dr_replacementPlanHash record \<noteq> Some (cs_replacementPlanHash input)
        then Inl (Domain R_INVALID_STATE) else Inr (dr_receipt record, draft))
     else if dr_phase record = Phase_rejected then Inl (Domain R_INVALID_STATE)
     else if dr_phase record = Prepared then Inl (Domain R_INVALID_STATE)
     else if cs_replacementPlanHash input = [] \<or> cs_replacementProofs input = []
       then Inl (Domain R_INVALID_STATE)
     else
       rbind (assertSafeInteger (cs_now input)) (\<lambda>_.
         Inr (dr_receipt record,
           set_delivery (dr_deliveryId record)
             (record\<lparr>dr_phase := Outputs_persisted,
               dr_replacementPlanHash := Some (cs_replacementPlanHash input),
               dr_replacementProofs := Some (cs_replacementProofs input)\<rparr>) draft))))"

definition creditSettlement ::
    "string \<Rightarrow> int \<Rightarrow> store_state \<Rightarrow> (receiver_error + delivery_receipt) \<times> store_state" where
  "creditSettlement deliveryId now = transaction (\<lambda>draft.
     rbind (requireDelivery draft deliveryId) (\<lambda>record.
     if dr_phase record = Phase_settled \<or> dr_phase record = Credited then Inr (dr_receipt record, draft)
     else if dr_phase record \<noteq> Outputs_persisted then Inl (Domain R_INVALID_STATE)
     else
       rbind (assertSafeInteger now) (\<lambda>_.
       let credit = credit_of record now in
       if conflicting_credit (map_of (st_credits draft) (dr_deliveryId record)) credit
       then Inl (Domain R_INVALID_STATE)
       else
         Inr (dr_receipt record,
           set_delivery (dr_deliveryId record) (record\<lparr>dr_phase := Credited\<rparr>)
             (set_credit (dr_deliveryId record) credit draft)))))"

definition finalizeSettlement ::
    "url_api \<Rightarrow> string \<Rightarrow> store_state \<Rightarrow> (receiver_error + delivery_receipt) \<times> store_state" where
  "finalizeSettlement api deliveryId = transaction (\<lambda>draft.
     rbind (requireDelivery draft deliveryId) (\<lambda>record.
     if dr_phase record = Phase_settled then Inr (dr_receipt record, draft)
     else if dr_phase record \<noteq> Credited then Inl (Domain R_INVALID_STATE)
     else
       rbind (nextReceipt api (dr_receipt record) Settled ''settled'') (\<lambda>receipt.
         Inr (receipt, set_delivery (dr_deliveryId record)
           (record\<lparr>dr_phase := Phase_settled, dr_receipt := receipt\<rparr>) draft))))"

definition blockRecovery ::
    "url_api \<Rightarrow> string \<Rightarrow> store_state \<Rightarrow> (receiver_error + delivery_receipt) \<times> store_state" where
  "blockRecovery api deliveryId = transaction (\<lambda>draft.
     rbind (requireDelivery draft deliveryId) (\<lambda>record.
     if dr_phase record = Phase_settled \<or> dr_phase record = Recovery_blocked \<or>
        dr_phase record = Outputs_persisted \<or> dr_phase record = Credited
     then Inr (dr_receipt record, draft)
     else if dr_phase record = Phase_rejected then Inl (Domain R_INVALID_STATE)
     else
       rbind (nextReceipt api (dr_receipt record) Processing ''recovery_blocked'') (\<lambda>receipt.
         Inr (receipt, set_delivery deliveryId
           (record\<lparr>dr_phase := Recovery_blocked, dr_receipt := receipt\<rparr>) draft))))"

definition release_claims :: "delivery_record \<Rightarrow> string \<Rightarrow> store_state \<Rightarrow> store_state" where
  "release_claims record d draft = draft\<lparr>
     st_proofClaims := mp_release (st_proofClaims draft) (dr_proofClaimIds record) d,
     st_requestReservations :=
       (if map_of (st_requestReservations draft) (dr_requestId record) = Some d
        then mp_delete (st_requestReservations draft) (dr_requestId record)
        else st_requestReservations draft)\<rparr>"

definition reject ::
    "url_api \<Rightarrow> string \<Rightarrow> string \<Rightarrow> bool \<Rightarrow> store_state \<Rightarrow> (receiver_error + delivery_receipt) \<times> store_state" where
  "reject api deliveryId detailCode releaseClaims = transaction (\<lambda>draft.
     rbind (requireDelivery draft deliveryId) (\<lambda>record.
     if dr_phase record = Phase_rejected then Inr (dr_receipt record, draft)
     else if dr_phase record = Phase_settled \<or> dr_phase record = Recovery_blocked \<or>
        dr_phase record = Outputs_persisted \<or> dr_phase record = Credited
     then Inl (Domain R_INVALID_STATE)
     else
       rbind (nextReceipt api (dr_receipt record) Rejected detailCode) (\<lambda>receipt.
         let draft1 = set_delivery deliveryId (record\<lparr>dr_phase := Phase_rejected, dr_receipt := receipt\<rparr>) draft in
         Inr (receipt, if releaseClaims then release_claims record deliveryId draft1 else draft1))))"

definition current :: "string \<Rightarrow> store_state \<Rightarrow> (receiver_error + delivery_record option) \<times> store_state" where
  "current deliveryId = transaction (\<lambda>draft. Inr (map_of (st_deliveries draft) deliveryId, draft))"

definition settlementPlans :: "store_state \<Rightarrow> (string \<times> string \<times> string \<times> int) list" where
  "settlementPlans state =
     map (\<lambda>record. (dr_deliveryId record, sp_mint (dr_plan record), sp_unit (dr_plan record),
       sp_expectedAmount (dr_plan record))) (mp_values (st_deliveries state))"

definition credits :: "store_state \<Rightarrow> merchant_credit list" where
  "credits state = mp_values (st_credits state)"

end
