(* ===== verification/Store_Safety.thy ===== *)
theory Store_Safety
  imports Receiver_Store
begin

text \<open>
  Safety of the receiver's store under every sequence of operations.

  \<open>record_step\<close> is the specification of one delivery's life: which phase may follow which, with which
  receipt. \<open>store_effect\<close> says what a store operation may do to the whole state: nothing, bind a
  request, admit a delivery with its claims, move one delivery by a \<open>record_step\<close> (with its credit), or
  reject one. Every operation of the store implements \<open>store_effect\<close>; the invariant \<open>store_inv\<close> and the
  history of the receipts are then proved from it.
\<close>

section \<open>The life of one delivery\<close>

definition may_have_redeemed :: "delivery_phase \<Rightarrow> bool" where
  "may_have_redeemed p \<longleftrightarrow> p \<in> {Recovery_blocked, Outputs_persisted, Credited, Phase_settled}"

definition has_credit :: "delivery_phase \<Rightarrow> bool" where
  "has_credit p \<longleftrightarrow> p = Credited \<or> p = Phase_settled"

inductive record_step :: "url_api \<Rightarrow> delivery_record \<Rightarrow> delivery_record \<Rightarrow> bool" for api where
  send: "record_step api r (r\<lparr>dr_phase := Mint_sent, dr_receipt := n\<rparr>)"
    if "dr_phase r = Prepared" "nextReceipt api (dr_receipt r) Processing ''redeeming'' = Inr n"
| start: "record_step api r (r\<lparr>dr_redemptionStarts := k\<rparr>)"
    if "dr_phase r \<noteq> Prepared" "dr_phase r \<noteq> Phase_rejected"
      "k = min (dr_redemptionStarts r + 1) 1000"
| persist: "record_step api r (r\<lparr>dr_phase := Outputs_persisted, dr_replacementPlanHash := Some h,
      dr_replacementProofs := Some ps\<rparr>)"
    if "dr_phase r = Mint_sent \<or> dr_phase r = Recovery_blocked" "h \<noteq> []" "ps \<noteq> []"
| credit: "record_step api r (r\<lparr>dr_phase := Credited\<rparr>)"
    if "dr_phase r = Outputs_persisted"
| settle: "record_step api r (r\<lparr>dr_phase := Phase_settled, dr_replacementPlanHash := Some h,
      dr_replacementProofs := Some ps, dr_receipt := n\<rparr>)"
    if "dr_phase r \<in> {Mint_sent, Recovery_blocked, Outputs_persisted, Credited}"
      "dr_replacementPlanHash r = None \<or> dr_replacementPlanHash r = Some h" "h \<noteq> []" "ps \<noteq> []"
      "nextReceipt api (dr_receipt r) Settled ''settled'' = Inr n"
| finalize: "record_step api r (r\<lparr>dr_phase := Phase_settled, dr_receipt := n\<rparr>)"
    if "dr_phase r = Credited" "nextReceipt api (dr_receipt r) Settled ''settled'' = Inr n"
| block: "record_step api r (r\<lparr>dr_phase := Recovery_blocked, dr_receipt := n\<rparr>)"
    if "dr_phase r = Prepared \<or> dr_phase r = Mint_sent"
      "nextReceipt api (dr_receipt r) Processing ''recovery_blocked'' = Inr n"
| reject: "record_step api r (r\<lparr>dr_phase := Phase_rejected, dr_receipt := n\<rparr>)"
    if "dr_phase r = Prepared \<or> dr_phase r = Mint_sent" "nextReceipt api (dr_receipt r) Rejected d = Inr n"

inductive_cases record_stepE: "record_step api r r'"

text \<open>The receipt that goes with a phase.\<close>

fun phase_receipt :: "delivery_phase \<Rightarrow> delivery_receipt \<Rightarrow> bool" where
  "phase_receipt Prepared c \<longleftrightarrow>
     rc_status c = Processing \<and> rc_detailCode c = ''accepted'' \<and> rc_statusVersion c = 1"
| "phase_receipt Mint_sent c \<longleftrightarrow>
     rc_status c = Processing \<and> rc_detailCode c = ''redeeming'' \<and> rc_statusVersion c = 2"
| "phase_receipt Recovery_blocked c \<longleftrightarrow>
     rc_status c = Processing \<and> rc_detailCode c = ''recovery_blocked'' \<and> rc_statusVersion c \<in> {2, 3}"
| "phase_receipt Outputs_persisted c \<longleftrightarrow>
     rc_status c = Processing \<and> rc_detailCode c \<in> {''redeeming'', ''recovery_blocked''} \<and> rc_statusVersion c \<in> {2, 3}"
| "phase_receipt Credited c \<longleftrightarrow>
     rc_status c = Processing \<and> rc_detailCode c \<in> {''redeeming'', ''recovery_blocked''} \<and> rc_statusVersion c \<in> {2, 3}"
| "phase_receipt Phase_settled c \<longleftrightarrow> rc_status c = Settled \<and> rc_statusVersion c \<in> {3, 4}"
| "phase_receipt Phase_rejected c \<longleftrightarrow> rc_status c = Rejected \<and> rc_statusVersion c \<in> {2, 3}"

text \<open>Replacement outputs are there exactly from the phases in which they are needed.\<close>

definition outputs_ok :: "delivery_record \<Rightarrow> bool" where
  "outputs_ok r \<longleftrightarrow>
     (dr_phase r \<in> {Outputs_persisted, Credited, Phase_settled} \<longrightarrow>
        (\<exists>h ps. dr_replacementPlanHash r = Some h \<and> h \<noteq> [] \<and> dr_replacementProofs r = Some ps \<and> ps \<noteq> [])) \<and>
     (dr_phase r \<in> {Prepared, Mint_sent, Recovery_blocked} \<longrightarrow> dr_replacementPlanHash r = None)"

definition record_ok :: "url_api \<Rightarrow> delivery_record \<Rightarrow> bool" where
  "record_ok api r \<longleftrightarrow>
     valid_receipt api (dr_receipt r) \<and> phase_receipt (dr_phase r) (dr_receipt r) \<and>
     rc_requestId (dr_receipt r) = dr_requestId r \<and> rc_deliveryId (dr_receipt r) = dr_deliveryId r \<and>
     rc_payloadHash (dr_receipt r) = dr_payloadHash r \<and> rc_amount (dr_receipt r) = dr_amount r \<and>
     outputs_ok r"

lemma nextReceipt_Inr:
  "nextReceipt api p st d = Inr n \<longleftrightarrow>
     n = p\<lparr>rc_status := st, rc_detailCode := d, rc_statusVersion := rc_statusVersion p + 1\<rparr> \<and>
     is_ok (assertReceiptTransition api (Some p) n)"
  by (cases "assertReceiptTransition api (Some p)
      (p\<lparr>rc_status := st, rc_detailCode := d, rc_statusVersion := rc_statusVersion p + 1\<rparr>)")
    (auto simp: nextReceipt_def Let_def)

lemma nextReceipt_ok:
  assumes "nextReceipt api p st d = Inr n"
  shows "is_ok (assertReceiptTransition api (Some p) n)" and "rc_status n = st" and "rc_detailCode n = d"
    and "rc_statusVersion n = rc_statusVersion p + 1" and "sameIdentity p n"
  using assms by (auto simp: nextReceipt_Inr sameIdentity_def)

text \<open>What never changes in the life of a delivery.\<close>

definition same_binding :: "delivery_record \<Rightarrow> delivery_record \<Rightarrow> bool" where
  "same_binding r r' \<longleftrightarrow> dr_requestId r' = dr_requestId r \<and> dr_deliveryId r' = dr_deliveryId r \<and>
     dr_payloadHash r' = dr_payloadHash r \<and> dr_proofSetHash r' = dr_proofSetHash r \<and>
     dr_proofClaimIds r' = dr_proofClaimIds r \<and> dr_plan r' = dr_plan r \<and> dr_amount r' = dr_amount r \<and>
     sameIdentity (dr_receipt r) (dr_receipt r')"

lemma record_step_binding: "record_step api r r' \<Longrightarrow> same_binding r r'"
  by (erule record_stepE) (simp_all add: same_binding_def nextReceipt_ok sameIdentity_equiv(1))

lemma record_step_transition:
  assumes "record_step api r r'" and "record_ok api r"
  shows "is_ok (assertReceiptTransition api (Some (dr_receipt r)) (dr_receipt r'))"
proof -
  have "is_ok (assertReceiptTransition api (Some (dr_receipt r)) (dr_receipt r))"
    using assms(2) by (simp add: record_ok_def transition_Some)
  with assms(1) show ?thesis
    by cases (simp_all add: nextReceipt_ok)
qed

lemma record_step_phase_receipt:
  assumes "record_step api r r'" and "phase_receipt (dr_phase r) (dr_receipt r)"
  shows "phase_receipt (dr_phase r') (dr_receipt r')"
  using assms
proof cases
  case (start k)
  with assms(2) show ?thesis by simp
next
  case (persist h ps)
  with assms(2) show ?thesis by auto
next
  case credit
  with assms(2) show ?thesis by simp
next
  case (send n)
  with assms(2) show ?thesis using nextReceipt_ok [OF send(3)] by simp
next
  case (settle h n ps)
  with assms(2) show ?thesis using nextReceipt_ok [OF settle(6)] by auto
next
  case (finalize n)
  with assms(2) show ?thesis using nextReceipt_ok [OF finalize(3)] by auto
next
  case (block n)
  with assms(2) show ?thesis using nextReceipt_ok [OF block(3)] by auto
next
  case (reject n d)
  with assms(2) show ?thesis using nextReceipt_ok [OF reject(3)] by auto
qed

lemma record_step_outputs: "record_step api r r' \<Longrightarrow> outputs_ok r \<Longrightarrow> outputs_ok r'"
  unfolding outputs_ok_def by (erule record_stepE) auto

lemma record_step_ok:
  assumes "record_step api r r'" and "record_ok api r"
  shows "record_ok api r'"
proof -
  have "valid_receipt api (dr_receipt r')"
    using record_step_transition [OF assms] by (simp add: transition_Some)
  moreover have "sameIdentity (dr_receipt r) (dr_receipt r')"
    using record_step_binding [OF assms(1)] by (simp add: same_binding_def)
  moreover have "phase_receipt (dr_phase r') (dr_receipt r')"
    using record_step_phase_receipt [OF assms(1)] assms(2) by (simp add: record_ok_def)
  moreover note record_step_outputs [OF assms(1)] record_step_binding [OF assms(1)]
  ultimately show ?thesis
    using assms(2) unfolding record_ok_def sameIdentity_def same_binding_def by simp
qed

text \<open>Settled and rejected are final; a delivery whose inputs may be spent is never rejected.\<close>

lemma record_step_phase:
  assumes "record_step api r r'"
  shows "dr_phase r \<noteq> Phase_rejected"
    and "may_have_redeemed (dr_phase r) \<Longrightarrow> may_have_redeemed (dr_phase r')"
    and "has_credit (dr_phase r) \<Longrightarrow> has_credit (dr_phase r')"
    and "dr_phase r = Phase_settled \<Longrightarrow> dr_receipt r' = dr_receipt r \<and> dr_phase r' = Phase_settled"
  using assms by (auto simp: may_have_redeemed_def has_credit_def elim!: record_stepE)

section \<open>What an operation may do\<close>

inductive store_effect :: "url_api \<Rightarrow> store_state \<Rightarrow> store_state \<Rightarrow> bool" for api where
  quiet: "store_effect api s s"
| request: "store_effect api s (s\<lparr>st_requests := mp_set (st_requests s) (pr_id q) q\<rparr>)"
    if "map_of (st_requests s) (pr_id q) = None"
| admitted: "store_effect api s (admit q r s)"
    if "map_of (st_requests s) (dr_requestId r) = Some q" "dr_amount r = pr_amount q"
      "rc_unit (dr_receipt r) = pr_unit q" "rc_mint (dr_receipt r) \<in> set (pr_mints q)"
      "map_of (st_deliveries s) (dr_deliveryId r) = None" "distinct (dr_proofClaimIds r)"
      "\<forall>c\<in>set (dr_proofClaimIds r). \<not> held_by_other (map_of (st_proofClaims s) c) (dr_deliveryId r)"
      "\<not> (pr_singleUse q \<and> held_by_other (map_of (st_requestReservations s) (pr_id q)) (dr_deliveryId r))"
      "record_ok api r" "dr_phase r = Prepared"
| moved: "store_effect api s (set_delivery d r' s\<lparr>st_credits := cs\<rparr>)"
    if "map_of (st_deliveries s) d = Some r" "record_step api r r'" "dr_phase r' \<noteq> Phase_rejected"
      "cs = (if has_credit (dr_phase r') \<and> \<not> has_credit (dr_phase r)
             then mp_set (st_credits s) d (credit_of r now) else st_credits s)"
| refused: "store_effect api s (if release then release_claims r d (set_delivery d r' s) else set_delivery d r' s)"
    if "map_of (st_deliveries s) d = Some r" "record_step api r r'" "dr_phase r' = Phase_rejected"

section \<open>The invariant\<close>

definition bound_to_request :: "store_state \<Rightarrow> delivery_record \<Rightarrow> bool" where
  "bound_to_request s r \<longleftrightarrow> (\<exists>q. map_of (st_requests s) (dr_requestId r) = Some q \<and>
     dr_amount r = pr_amount q \<and> rc_unit (dr_receipt r) = pr_unit q \<and> rc_mint (dr_receipt r) \<in> set (pr_mints q))"

text \<open>A delivery that is not rejected holds its claims, and its request's reservation if single use.\<close>

definition holds_claims :: "store_state \<Rightarrow> delivery_record \<Rightarrow> bool" where
  "holds_claims s r \<longleftrightarrow>
     (\<forall>c\<in>set (dr_proofClaimIds r). map_of (st_proofClaims s) c = Some (dr_deliveryId r)) \<and>
     (\<forall>q. map_of (st_requests s) (dr_requestId r) = Some q \<longrightarrow> pr_singleUse q \<longrightarrow>
        map_of (st_requestReservations s) (dr_requestId r) = Some (dr_deliveryId r))"

definition delivery_inv :: "url_api \<Rightarrow> store_state \<Rightarrow> string \<Rightarrow> delivery_record \<Rightarrow> bool" where
  "delivery_inv api s d r \<longleftrightarrow> dr_deliveryId r = d \<and> record_ok api r \<and> bound_to_request s r \<and>
     (dr_phase r \<noteq> Phase_rejected \<longrightarrow> holds_claims s r) \<and>
     (if has_credit (dr_phase r) then \<exists>t. map_of (st_credits s) d = Some (credit_of r t)
      else map_of (st_credits s) d = None)"

definition store_inv :: "url_api \<Rightarrow> store_state \<Rightarrow> bool" where
  "store_inv api s \<longleftrightarrow>
     mp_ok (st_requests s) \<and> mp_ok (st_deliveries s) \<and> mp_ok (st_credits s) \<and>
     (\<forall>k q. map_of (st_requests s) k = Some q \<longrightarrow> pr_id q = k) \<and>
     (\<forall>d r. map_of (st_deliveries s) d = Some r \<longrightarrow> delivery_inv api s d r) \<and>
     (\<forall>d c. map_of (st_credits s) d = Some c \<longrightarrow> map_of (st_deliveries s) d \<noteq> None)"

lemma store_inv_delivery: "store_inv api s \<Longrightarrow> map_of (st_deliveries s) d = Some r \<Longrightarrow> delivery_inv api s d r"
  by (simp add: store_inv_def)

lemma store_inv_request: "store_inv api s \<Longrightarrow> map_of (st_requests s) k = Some q \<Longrightarrow> pr_id q = k"
  by (simp add: store_inv_def)

lemma inv_empty: "store_inv api emptyState"
  by (simp add: store_inv_def emptyState_def)

lemma deliveryId_not_Nil: "record_ok api r \<Longrightarrow> dr_deliveryId r \<noteq> []"
  by (auto simp: record_ok_def valid_receipt_def parseProtocolId_def result_simps is_ok_iff
      protocol_id_pattern_def)

lemma not_held: "\<not> held_by_other (Some x) d \<Longrightarrow> x \<noteq> [] \<Longrightarrow> x = d"
  by (simp add: held_by_other_def)

lemma credit_of_binding: "same_binding r r' \<Longrightarrow> credit_of r' t = credit_of r t"
  by (simp add: credit_of_def same_binding_def sameIdentity_def)

text \<open>A delivery keeps its part of the invariant when its request, claims and credit stay.\<close>

lemma delivery_inv_mono:
  assumes "delivery_inv api s d r"
    and "\<And>k q. map_of (st_requests s) k = Some q \<Longrightarrow> map_of (st_requests s') k = Some q"
    and "\<And>c. dr_phase r \<noteq> Phase_rejected \<Longrightarrow> map_of (st_proofClaims s) c = Some d \<Longrightarrow>
      map_of (st_proofClaims s') c = Some d"
    and "\<And>k. dr_phase r \<noteq> Phase_rejected \<Longrightarrow> map_of (st_requestReservations s) k = Some d \<Longrightarrow>
      map_of (st_requestReservations s') k = Some d"
    and "map_of (st_credits s') d = map_of (st_credits s) d"
  shows "delivery_inv api s' d r"
proof -
  from assms(1) obtain q where q: "map_of (st_requests s) (dr_requestId r) = Some q"
    "dr_amount r = pr_amount q" "rc_unit (dr_receipt r) = pr_unit q" "rc_mint (dr_receipt r) \<in> set (pr_mints q)"
    by (auto simp: delivery_inv_def bound_to_request_def)
  have q': "map_of (st_requests s') (dr_requestId r) = Some q"
    using assms(2) q(1) .
  have "bound_to_request s' r"
    using q q' by (auto simp: bound_to_request_def)
  moreover have "dr_phase r \<noteq> Phase_rejected \<Longrightarrow> holds_claims s' r"
    using assms(1,3,4) q(1) q' by (auto simp: delivery_inv_def holds_claims_def)
  ultimately show ?thesis
    using assms(1,5) by (simp add: delivery_inv_def)
qed

lemma set_delivery_simps [simp]:
  "st_requests (set_delivery d r s) = st_requests s"
  "st_deliveries (set_delivery d r s) = mp_set (st_deliveries s) d r"
  "st_proofClaims (set_delivery d r s) = st_proofClaims s"
  "st_requestReservations (set_delivery d r s) = st_requestReservations s"
  "st_credits (set_delivery d r s) = st_credits s"
  by (simp_all add: set_delivery_def)

lemma inv_request:
  assumes "store_inv api s" and "map_of (st_requests s) (pr_id q) = None"
  shows "store_inv api (s\<lparr>st_requests := mp_set (st_requests s) (pr_id q) q\<rparr>)"
proof -
  let ?s = "s\<lparr>st_requests := mp_set (st_requests s) (pr_id q) q\<rparr>"
  have "delivery_inv api ?s d r" if "map_of (st_deliveries s) d = Some r" for d r
    using store_inv_delivery [OF assms(1) that] assms(2) by (rule_tac delivery_inv_mono) auto
  then show ?thesis
    using assms(1) by (auto simp: store_inv_def)
qed

lemma inv_admitted:
  assumes inv: "store_inv api s"
    and q: "map_of (st_requests s) (dr_requestId r) = Some q" "dr_amount r = pr_amount q"
      "rc_unit (dr_receipt r) = pr_unit q" "rc_mint (dr_receipt r) \<in> set (pr_mints q)"
    and new: "map_of (st_deliveries s) (dr_deliveryId r) = None"
    and claims: "\<forall>c\<in>set (dr_proofClaimIds r). \<not> held_by_other (map_of (st_proofClaims s) c) (dr_deliveryId r)"
    and res: "\<not> (pr_singleUse q \<and> held_by_other (map_of (st_requestReservations s) (pr_id q)) (dr_deliveryId r))"
    and ok: "record_ok api r" "dr_phase r = Prepared"
  shows "store_inv api (admit q r s)"
proof -
  have id: "pr_id q = dr_requestId r"
    using store_inv_request [OF inv q(1)] .
  have none: "map_of (st_credits s) (dr_deliveryId r) = None"
    using inv new by (metis not_None_eq store_inv_def)
  have old: "delivery_inv api (admit q r s) d x" if x: "map_of (st_deliveries s) d = Some x" for d x
  proof -
    have "d \<noteq> []" "d \<noteq> dr_deliveryId r"
      using store_inv_delivery [OF inv x] deliveryId_not_Nil new x by (auto simp: delivery_inv_def)
    then have "map_of (st_proofClaims s) c = Some d \<Longrightarrow> c \<notin> set (dr_proofClaimIds r)" for c
      using claims not_held by metis
    moreover have "map_of (st_requestReservations s) (pr_id q) = Some d \<Longrightarrow> \<not> pr_singleUse q"
      using res not_held \<open>d \<noteq> []\<close> \<open>d \<noteq> dr_deliveryId r\<close> by metis
    ultimately show ?thesis
      using store_inv_delivery [OF inv x] by (rule_tac delivery_inv_mono) (auto simp: admit_def)
  qed
  have "delivery_inv api (admit q r s) (dr_deliveryId r) r"
    using q ok id none
    by (auto simp: delivery_inv_def bound_to_request_def holds_claims_def has_credit_def admit_def)
  with old inv show ?thesis
    by (auto simp: store_inv_def admit_def split: if_splits)
qed

lemma inv_moved:
  assumes inv: "store_inv api s" and r: "map_of (st_deliveries s) d = Some r"
    and step: "record_step api r r'" and "dr_phase r' \<noteq> Phase_rejected"
    and cs: "cs = (if has_credit (dr_phase r') \<and> \<not> has_credit (dr_phase r)
             then mp_set (st_credits s) d (credit_of r now) else st_credits s)"
  shows "store_inv api (set_delivery d r' s\<lparr>st_credits := cs\<rparr>)" (is "store_inv api ?s")
proof -
  note old = store_inv_delivery [OF inv r] and bind = record_step_binding [OF step]
  have "delivery_inv api ?s x y" if "x \<noteq> d" "map_of (st_deliveries s) x = Some y" for x y
    using store_inv_delivery [OF inv that(2)] that(1) cs by (rule_tac delivery_inv_mono) auto
  moreover have "delivery_inv api ?s d r'"
    using old bind record_step_ok [OF step] record_step_phase(1,3) [OF step] cs credit_of_binding [OF bind]
    unfolding delivery_inv_def bound_to_request_def holds_claims_def same_binding_def sameIdentity_def
    by (auto split: if_splits)
  moreover have "mp_ok cs" "\<And>x. map_of cs x \<noteq> None \<Longrightarrow> x = d \<or> map_of (st_credits s) x \<noteq> None"
    using cs inv by (auto simp: store_inv_def split: if_splits)
  ultimately show ?thesis
    using inv unfolding store_inv_def by (auto split: if_splits) (metis option.distinct(1))
qed

lemma inv_refused:
  assumes inv: "store_inv api s" and r: "map_of (st_deliveries s) d = Some r"
    and step: "record_step api r r'" and ph: "dr_phase r' = Phase_rejected"
  shows "store_inv api (if release then release_claims r d (set_delivery d r' s) else set_delivery d r' s)"
    (is "store_inv api ?s")
proof -
  note old = store_inv_delivery [OF inv r] and bind = record_step_binding [OF step]
  have st: "st_requests ?s = st_requests s" "st_credits ?s = st_credits s"
    "st_deliveries ?s = mp_set (st_deliveries s) d r'"
    by (simp_all add: release_claims_def)
  have "delivery_inv api ?s x y" if "x \<noteq> d" "map_of (st_deliveries s) x = Some y" for x y
  proof (rule delivery_inv_mono [OF store_inv_delivery [OF inv that(2)]])
    show "map_of (st_requests ?s) k = Some q" if "map_of (st_requests s) k = Some q" for k q
      using that by (simp add: st)
    show "map_of (st_proofClaims ?s) c = Some x" if "map_of (st_proofClaims s) c = Some x" for c
      using that \<open>x \<noteq> d\<close> by (simp add: release_claims_def)
    show "map_of (st_requestReservations ?s) k = Some x" if "map_of (st_requestReservations s) k = Some x" for k
      using that \<open>x \<noteq> d\<close> by (auto simp: release_claims_def)
  qed (simp add: st)
  moreover have "\<not> has_credit (dr_phase r)"
    using step ph by (auto simp: has_credit_def elim: record_stepE)
  then have "delivery_inv api ?s d r'"
    using old bind record_step_ok [OF step] ph
    unfolding delivery_inv_def bound_to_request_def same_binding_def sameIdentity_def st
    by (auto simp: has_credit_def)
  ultimately show ?thesis
    using inv unfolding store_inv_def st by auto
qed

lemma effect_inv: "store_effect api s s' \<Longrightarrow> store_inv api s \<Longrightarrow> store_inv api s'"
proof (induction rule: store_effect.induct)
  case (admitted s r q)
  then show ?case by (intro inv_admitted)
next
  case (moved s d r r' cs now)
  then show ?case by (intro inv_moved)
qed (simp_all only: inv_request inv_refused)

section \<open>Every operation implements the specification\<close>

lemma transaction_effect:
  assumes "\<And>a s'. operation s = Inr (a, s') \<Longrightarrow> store_effect api s s'"
  shows "store_effect api s (snd (transaction operation s))"
  using assms quiet by (auto simp: transaction_def split: sum.splits)

lemma requireDelivery_Inr [result_simps]:
  "requireDelivery s d = Inr r \<longleftrightarrow> map_of (st_deliveries s) d = Some r"
  by (auto simp: requireDelivery_def split: option.splits)

lemma effect_set_delivery:
  assumes "map_of (st_deliveries s) d = Some r" and "record_step api r r'" and "dr_phase r' \<noteq> Phase_rejected"
    and "has_credit (dr_phase r') = has_credit (dr_phase r)"
  shows "store_effect api s (set_delivery d r' s)"
proof -
  have "set_delivery d r' s = set_delivery d r' s\<lparr>st_credits := st_credits s\<rparr>"
    by (simp add: set_delivery_def)
  then show ?thesis
    using moved [OF assms(1-3), of "st_credits s"] assms(4) by metis
qed

lemma effect_credit:
  assumes inv: "store_inv api s" and r: "map_of (st_deliveries s) d = Some r"
    and step: "record_step api r r'" "has_credit (dr_phase r')"
    and no: "\<not> conflicting_credit (map_of (st_credits s) (dr_deliveryId r)) (credit_of r now)"
  shows "store_effect api s (set_delivery (dr_deliveryId r) r' (set_credit (dr_deliveryId r) (credit_of r now) s))"
proof -
  have d: "dr_deliveryId r = d"
    and c: "if has_credit (dr_phase r) then \<exists>t. map_of (st_credits s) d = Some (credit_of r t)
      else map_of (st_credits s) d = None"
    using store_inv_delivery [OF inv r] by (auto simp: delivery_inv_def)
  let ?cs = "if has_credit (dr_phase r') \<and> \<not> has_credit (dr_phase r)
    then mp_set (st_credits s) d (credit_of r now) else st_credits s"
  have "set_credit d (credit_of r now) s = s\<lparr>st_credits := ?cs\<rparr>"
    using c no step(2) by (auto simp: set_credit_def d conflicting_credit_def mp_set_same split: if_splits)
  then have "set_delivery d r' (set_credit d (credit_of r now) s) = set_delivery d r' s\<lparr>st_credits := ?cs\<rparr>"
    by (simp add: set_delivery_def)
  moreover have "dr_phase r' \<noteq> Phase_rejected"
    using step(2) by (auto simp: has_credit_def)
  ultimately show ?thesis
    unfolding d using moved [OF r step(1), of ?cs now] by metis
qed

lemma createRequest_effect:
  assumes "store_inv api s"
  shows "store_effect api s (snd (createRequest api input s))"
proof -
  have "store_effect api s (snd (transaction (\<lambda>draft.
      case map_of (st_requests draft) (pr_id q) of
        None \<Rightarrow> Inr (q, draft\<lparr>st_requests := mp_set (st_requests draft) (pr_id q) q\<rparr>)
      | Some previous \<Rightarrow>
          if \<not> sameRequest previous q then Inl (Domain R_INVALID_REQUEST)
          else Inr (previous, draft\<lparr>st_requests := mp_set (st_requests draft) (pr_id q) previous\<rparr>)) s))" for q
    by (rule transaction_effect)
      (auto intro: request quiet simp: mp_set_same split: option.splits if_splits)
  then show ?thesis
    by (auto simp: createRequest_def quiet split: sum.split)
qed

lemma preflight_effect: "store_effect api s (snd (preflight command now s))"
  unfolding preflight_def
  by (rule transaction_effect) (auto simp: quiet result_simps split: option.splits if_splits)

lemma initial_record_ok:
  assumes "is_ok (assertReceiptTransition api None (initial_receipt q input))"
  shows "record_ok api (initial_record q input)"
  using assms
  by (simp add: record_ok_def initial_record_def outputs_ok_def transition_None)
    (simp add: initial_receipt_def Let_def)

lemma validateRequestBinding_ok:
  "validateRequestBinding q command now = Inr () \<longleftrightarrow>
     safe_nonneg now \<and> now - 60 \<le> pr_expiresAt q \<and> dp_createdAt (ac_payload command) \<le> now + 60 \<and>
     dp_expiresAt (ac_payload command) = pr_expiresAt q \<and> dp_unit (ac_payload command) = pr_unit q \<and>
     dp_mint (ac_payload command) \<in> set (pr_mints q)"
  by (auto simp: validateRequestBinding_def Let_def result_simps assertSafeInteger_def safe_nonneg_def)

lemma prepare_effect:
  assumes "store_inv api s"
  shows "store_effect api s (snd (prepare api input s))"
  unfolding prepare_def Let_def
proof (rule transaction_effect, goal_cases)
  case (1 a s')
  let ?d = "dp_deliveryId (ac_payload (pd_command input))"
  from 1 obtain q where q: "map_of (st_requests s) (dp_id (ac_payload (pd_command input))) = Some q"
    by (auto split: option.splits)
  let ?r = "initial_record q input"
  have id: "pr_id q = dp_id (ac_payload (pd_command input))"
    using store_inv_request [OF assms q] .
  show ?case
  proof (cases "map_of (st_deliveries s) ?d")
    case (Some previous)
    with 1 q show ?thesis by (auto simp: quiet result_simps split: if_splits)
  next
    case None
    have fields: "dr_requestId ?r = pr_id q" "dr_amount ?r = pr_amount q" "dr_deliveryId ?r = ?d"
      "rc_unit (initial_receipt q input) = dp_unit (ac_payload (pd_command input))" "dr_phase ?r = Prepared"
      "rc_mint (initial_receipt q input) = dp_mint (ac_payload (pd_command input))"
      "dr_proofClaimIds ?r = pd_proofClaimIds input" "dr_receipt ?r = initial_receipt q input"
      by (simp_all add: initial_record_def initial_receipt_def Let_def)
    from 1 q None have s': "s' = admit q ?r s"
      and bind: "validateRequestBinding q (pd_command input) (pd_now input) = Inr ()"
      and ev: "evidence_complete input"
      and cl: "\<not> list_ex (\<lambda>claim. held_by_other (map_of (st_proofClaims s) claim) ?d) (pd_proofClaimIds input)"
      and rs: "\<not> (pr_singleUse q \<and> held_by_other (map_of (st_requestReservations s) (pr_id q)) ?d)"
      and ok: "is_ok (assertReceiptTransition api None (dr_receipt ?r))"
      by (auto simp: result_simps split: if_splits)
    have "distinct (pd_proofClaimIds input)"
      using ev by (simp add: evidence_complete_def Let_def distinct_card card_distinct length_remdups_card_conv)
    then show ?thesis
      unfolding s' using q None bind cl rs ok initial_record_ok [of api q input]
      by (intro admitted) (simp_all add: fields id validateRequestBinding_ok list_ex_iff)
  qed
qed

lemma markMintSent_effect: "store_effect api s (snd (markMintSent api d s))"
  unfolding markMintSent_def
proof (rule transaction_effect, goal_cases)
  case (1 a s')
  then obtain r where r: "map_of (st_deliveries s) d = Some r"
    by (auto simp: rbind_eq_Inr requireDelivery_Inr)
  show ?case
  proof (cases "dr_phase r = Prepared")
    case True
    with 1 r obtain n where "nextReceipt api (dr_receipt r) Processing ''redeeming'' = Inr n"
      and s': "s' = set_delivery d (r\<lparr>dr_phase := Mint_sent, dr_receipt := n\<rparr>) s"
      by (auto simp: rbind_eq_Inr requireDelivery_Inr)
    then show ?thesis
      unfolding s' using True by (intro effect_set_delivery [OF r] send) (simp_all add: has_credit_def)
  qed (use 1 r in \<open>simp add: rbind_eq_Inr requireDelivery_Inr quiet\<close>)
qed

lemma recordRedemptionStart_effect: "store_effect api s (snd (recordRedemptionStart d s))"
  unfolding recordRedemptionStart_def
  by (rule transaction_effect)
    (auto simp: rbind_eq_Inr requireDelivery_Inr has_credit_def split: if_splits
      intro!: effect_set_delivery start)

lemma blockRecovery_effect: "store_effect api s (snd (blockRecovery api d s))"
  unfolding blockRecovery_def
proof (rule transaction_effect, goal_cases)
  case (1 a s')
  then obtain r where r: "map_of (st_deliveries s) d = Some r"
    by (auto simp: rbind_eq_Inr requireDelivery_Inr)
  show ?case
  proof (cases "dr_phase r = Prepared \<or> dr_phase r = Mint_sent")
    case True
    with 1 r obtain n where "nextReceipt api (dr_receipt r) Processing ''recovery_blocked'' = Inr n"
      and s': "s' = set_delivery d (r\<lparr>dr_phase := Recovery_blocked, dr_receipt := n\<rparr>) s"
      by (auto simp: rbind_eq_Inr requireDelivery_Inr)
    then show ?thesis
      unfolding s' using True by (intro effect_set_delivery [OF r] block) (auto simp: has_credit_def)
  next
    case False
    with 1 r show ?thesis
      by (cases "dr_phase r") (auto simp: rbind_eq_Inr requireDelivery_Inr quiet)
  qed
qed

lemma reject_effect: "store_effect api s (snd (reject api d code release s))"
  unfolding reject_def
proof (rule transaction_effect, goal_cases)
  case (1 a s')
  then obtain r where r: "map_of (st_deliveries s) d = Some r"
    by (auto simp: rbind_eq_Inr requireDelivery_Inr)
  show ?case
  proof (cases "dr_phase r = Prepared \<or> dr_phase r = Mint_sent")
    case True
    with 1 r obtain n where n: "nextReceipt api (dr_receipt r) Rejected code = Inr n"
      and s': "s' = (if release
        then release_claims r d (set_delivery d (r\<lparr>dr_phase := Phase_rejected, dr_receipt := n\<rparr>) s)
        else set_delivery d (r\<lparr>dr_phase := Phase_rejected, dr_receipt := n\<rparr>) s)"
      by (auto simp: rbind_eq_Inr requireDelivery_Inr Let_def)
    show ?thesis
      unfolding s' by (rule refused [OF r record_step.reject [OF True n]]) simp
  next
    case False
    with 1 r show ?thesis
      by (cases "dr_phase r") (auto simp: rbind_eq_Inr requireDelivery_Inr quiet)
  qed
qed

lemma persistSettlementOutputs_effect:
  assumes "store_inv api s"
  shows "store_effect api s (snd (persistSettlementOutputs input s))"
  unfolding persistSettlementOutputs_def
proof (rule transaction_effect, goal_cases)
  case (1 a s')
  then obtain r where r: "map_of (st_deliveries s) (cs_deliveryId input) = Some r"
    by (auto simp: rbind_eq_Inr requireDelivery_Inr)
  have d: "dr_deliveryId r = cs_deliveryId input"
    using store_inv_delivery [OF assms r] by (simp add: delivery_inv_def)
  show ?case
  proof (cases "dr_phase r = Mint_sent \<or> dr_phase r = Recovery_blocked")
    case True
    with 1 r have s': "s' = set_delivery (cs_deliveryId input) (r\<lparr>dr_phase := Outputs_persisted,
        dr_replacementPlanHash := Some (cs_replacementPlanHash input),
        dr_replacementProofs := Some (cs_replacementProofs input)\<rparr>) s"
      and "cs_replacementPlanHash input \<noteq> []" "cs_replacementProofs input \<noteq> []"
      by (auto simp: rbind_eq_Inr requireDelivery_Inr d split: if_splits)
    then show ?thesis
      unfolding s' using True by (intro effect_set_delivery [OF r] persist) (auto simp: has_credit_def)
  next
    case False
    with 1 r show ?thesis
      by (cases "dr_phase r") (auto simp: rbind_eq_Inr requireDelivery_Inr quiet split: if_splits)
  qed
qed

lemma creditSettlement_effect:
  assumes "store_inv api s"
  shows "store_effect api s (snd (creditSettlement d now s))"
  unfolding creditSettlement_def
proof (rule transaction_effect, goal_cases)
  case (1 a s')
  then obtain r where r: "map_of (st_deliveries s) d = Some r"
    by (auto simp: rbind_eq_Inr requireDelivery_Inr)
  show ?case
  proof (cases "dr_phase r = Outputs_persisted")
    case True
    with 1 r have no: "\<not> conflicting_credit (map_of (st_credits s) (dr_deliveryId r)) (credit_of r now)"
      and s': "s' = set_delivery (dr_deliveryId r) (r\<lparr>dr_phase := Credited\<rparr>)
        (set_credit (dr_deliveryId r) (credit_of r now) s)"
      by (auto simp: rbind_eq_Inr requireDelivery_Inr Let_def split: if_splits)
    show ?thesis
      unfolding s' using True by (intro effect_credit [OF assms r _ _ no] credit) (auto simp: has_credit_def)
  next
    case False
    with 1 r show ?thesis
      by (cases "dr_phase r") (auto simp: rbind_eq_Inr requireDelivery_Inr quiet)
  qed
qed

lemma finalizeSettlement_effect:
  assumes "store_inv api s"
  shows "store_effect api s (snd (finalizeSettlement api d s))"
  unfolding finalizeSettlement_def
proof (rule transaction_effect, goal_cases)
  case (1 a s')
  then obtain r where r: "map_of (st_deliveries s) d = Some r"
    by (auto simp: rbind_eq_Inr requireDelivery_Inr)
  have d: "dr_deliveryId r = d"
    using store_inv_delivery [OF assms r] by (simp add: delivery_inv_def)
  show ?case
  proof (cases "dr_phase r = Credited")
    case True
    with 1 r obtain n where "nextReceipt api (dr_receipt r) Settled ''settled'' = Inr n"
      and s': "s' = set_delivery d (r\<lparr>dr_phase := Phase_settled, dr_receipt := n\<rparr>) s"
      by (auto simp: rbind_eq_Inr requireDelivery_Inr d)
    then show ?thesis
      unfolding s' using True by (intro effect_set_delivery [OF r] finalize) (auto simp: has_credit_def)
  next
    case False
    with 1 r show ?thesis
      by (cases "dr_phase r") (auto simp: rbind_eq_Inr requireDelivery_Inr quiet)
  qed
qed

lemma settle_effect:
  assumes "store_inv api s"
  shows "store_effect api s (snd (settle api input s))"
  unfolding settle_def
proof (rule transaction_effect, goal_cases)
  case (1 a s')
  then obtain r where r: "map_of (st_deliveries s) (cs_deliveryId input) = Some r"
    by (auto simp: rbind_eq_Inr requireDelivery_Inr)
  show ?case
  proof (cases "dr_phase r \<in> {Mint_sent, Recovery_blocked, Outputs_persisted, Credited}")
    case True
    then have ph: "dr_phase r \<noteq> Phase_settled" "dr_phase r \<noteq> Phase_rejected" "dr_phase r \<noteq> Prepared"
      by auto
    from 1 r ph obtain n where n: "nextReceipt api (dr_receipt r) Settled ''settled'' = Inr n"
      and no: "\<not> conflicting_credit (map_of (st_credits s) (dr_deliveryId r)) (credit_of r (cs_now input))"
      and hash: "dr_replacementPlanHash r = None \<or> dr_replacementPlanHash r = Some (cs_replacementPlanHash input)"
      and ne: "cs_replacementPlanHash input \<noteq> []" "cs_replacementProofs input \<noteq> []"
      and s': "s' = set_delivery (dr_deliveryId r) (r\<lparr>dr_phase := Phase_settled,
        dr_replacementPlanHash := Some (cs_replacementPlanHash input),
        dr_replacementProofs := Some (cs_replacementProofs input), dr_receipt := n\<rparr>)
        (set_credit (dr_deliveryId r) (credit_of r (cs_now input)) s)"
      by (auto simp: rbind_eq_Inr requireDelivery_Inr Let_def simp del: not_None_eq split: if_splits)
    show ?thesis
      unfolding s' using True hash ne n
      by (intro effect_credit [OF assms r _ _ no] record_step.settle) (simp_all add: has_credit_def)
  next
    case False
    with 1 r show ?thesis
      by (cases "dr_phase r") (auto simp: rbind_eq_Inr requireDelivery_Inr quiet split: if_splits)
  qed
qed

section \<open>Schedules\<close>

text \<open>
  A schedule is a list of operations with their arguments, in the order their transactions commit.
\<close>

datatype store_op =
    Create_request create_payment_request
  | Preflight accept_command int
  | Prepare prepare_delivery
  | Mark_mint_sent string
  | Record_redemption_start string
  | Settle commit_settlement
  | Persist_settlement_outputs commit_settlement
  | Credit_settlement string int
  | Finalize_settlement string
  | Block_recovery string
  | Reject string string bool
  | Current string

fun exec :: "url_api \<Rightarrow> store_op \<Rightarrow> store_state \<Rightarrow> store_state" where
  "exec api (Create_request input) s = snd (createRequest api input s)"
| "exec api (Preflight command now) s = snd (preflight command now s)"
| "exec api (Prepare input) s = snd (prepare api input s)"
| "exec api (Mark_mint_sent d) s = snd (markMintSent api d s)"
| "exec api (Record_redemption_start d) s = snd (recordRedemptionStart d s)"
| "exec api (Settle input) s = snd (settle api input s)"
| "exec api (Persist_settlement_outputs input) s = snd (persistSettlementOutputs input s)"
| "exec api (Credit_settlement d now) s = snd (creditSettlement d now s)"
| "exec api (Finalize_settlement d) s = snd (finalizeSettlement api d s)"
| "exec api (Block_recovery d) s = snd (blockRecovery api d s)"
| "exec api (Reject d code release) s = snd (reject api d code release s)"
| "exec api (Current d) s = snd (current d s)"

definition run :: "url_api \<Rightarrow> store_op list \<Rightarrow> store_state \<Rightarrow> store_state" where
  "run api ops s = fold (exec api) ops s"

lemma current_effect: "store_effect api s (snd (current d s))"
  by (simp add: current_def transaction_def quiet)

lemmas op_effects = createRequest_effect preflight_effect prepare_effect markMintSent_effect
  recordRedemptionStart_effect settle_effect persistSettlementOutputs_effect creditSettlement_effect
  finalizeSettlement_effect blockRecovery_effect reject_effect current_effect

lemma exec_effect: "store_inv api s \<Longrightarrow> store_effect api s (exec api op s)"
  by (cases op) (simp_all add: op_effects)

lemma exec_inv: "store_inv api s \<Longrightarrow> store_inv api (exec api op s)"
  using exec_effect effect_inv by blast

lemma run_simps [simp]:
  "run api [] s = s" "run api (op # ops) s = run api ops (exec api op s)"
  "run api (ops @ ops') s = run api ops' (run api ops s)"
  by (simp_all add: run_def)

lemma run_inv: "store_inv api s \<Longrightarrow> store_inv api (run api ops s)"
  by (induction ops arbitrary: s) (simp_all add: exec_inv)

lemma run_empty_inv: "store_inv api (run api ops emptyState)"
  by (simp add: run_inv inv_empty)

text \<open>What a step does to one delivery, and to the credits.\<close>

lemma effect_delivery:
  assumes "store_effect api s s'" and "map_of (st_deliveries s) d = Some r"
  shows "\<exists>r'. map_of (st_deliveries s') d = Some r' \<and> (r' = r \<or> record_step api r r')"
  using assms by cases (auto simp: admit_def release_claims_def)

lemma effect_new_delivery:
  assumes "store_effect api s s'" and "map_of (st_deliveries s) d = None"
    and "map_of (st_deliveries s') d = Some r"
  shows "dr_phase r = Prepared"
  using assms by cases (auto simp: admit_def release_claims_def split: if_splits)

lemma effect_credits:
  assumes "store_effect api s s'" and "store_inv api s" and "map_of (st_credits s) d = Some c"
  shows "map_of (st_credits s') d = Some c"
  using assms(1)
proof cases
  case (moved d' r r' cs now)
  have "\<not> has_credit (dr_phase r) \<Longrightarrow> map_of (st_credits s) d' = None"
    using store_inv_delivery [OF assms(2) moved(2)] by (simp add: delivery_inv_def)
  with moved assms(3) show ?thesis
    by (cases "d' = d") auto
qed (use assms(3) in \<open>auto simp: admit_def release_claims_def\<close>)

lemma run_credits:
  "store_inv api s \<Longrightarrow> map_of (st_credits s) d = Some c \<Longrightarrow> map_of (st_credits (run api ops s)) d = Some c"
  by (induction ops arbitrary: s) (simp_all add: exec_inv effect_credits [OF exec_effect])

lemma run_phase:
  assumes "\<And>r r'. record_step api r r' \<Longrightarrow> Q r \<Longrightarrow> Q r'"
    and "store_inv api s" and "map_of (st_deliveries s) d = Some r" and "Q r"
  shows "\<exists>r'. map_of (st_deliveries (run api ops s)) d = Some r' \<and> Q r'"
  using assms(2-)
proof (induction ops arbitrary: s r)
  case Nil
  then show ?case by simp
next
  case (Cons op ops)
  obtain r' where "map_of (st_deliveries (exec api op s)) d = Some r'" "r' = r \<or> record_step api r r'"
    using effect_delivery [OF exec_effect [OF Cons.prems(1)] Cons.prems(2)] by blast
  then show ?case
    using Cons.IH [OF exec_inv [OF Cons.prems(1)]] Cons.prems(3) assms(1) by auto
qed

section \<open>The receipts of a delivery\<close>

text \<open>The receipt of the delivery after each operation of a schedule.\<close>

fun receipt_trace :: "url_api \<Rightarrow> string \<Rightarrow> store_op list \<Rightarrow> store_state \<Rightarrow> delivery_receipt list" where
  "receipt_trace api d [] s = []"
| "receipt_trace api d (op # ops) s =
     (let s' = exec api op s in
      (case map_of (st_deliveries s') d of None \<Rightarrow> [] | Some r \<Rightarrow> [dr_receipt r]) @ receipt_trace api d ops s')"

lemma delivery_record_ok: "store_inv api s \<Longrightarrow> map_of (st_deliveries s) d = Some r \<Longrightarrow> record_ok api r"
  using store_inv_delivery by (auto simp: delivery_inv_def)

lemma trace_chain:
  "store_inv api s \<Longrightarrow>
     receipt_chain api (map_option dr_receipt (map_of (st_deliveries s) d)) (receipt_trace api d ops s)"
proof (induction ops arbitrary: s)
  case Nil
  then show ?case by simp
next
  case (Cons op ops)
  let ?s = "exec api op s"
  note eff = exec_effect [OF Cons.prems, of op] and inv = exec_inv [OF Cons.prems, of op]
  show ?case
  proof (cases "map_of (st_deliveries ?s) d")
    case None
    then have "map_of (st_deliveries s) d = None"
      using effect_delivery [OF eff, of d] by (cases "map_of (st_deliveries s) d") auto
    with None show ?thesis
      using Cons.IH [OF inv] by (simp add: Let_def)
  next
    case (Some r')
    have ok': "record_ok api r'"
      using delivery_record_ok [OF inv Some] .
    have "is_ok (assertReceiptTransition api (map_option dr_receipt (map_of (st_deliveries s) d)) (dr_receipt r'))"
    proof (cases "map_of (st_deliveries s) d")
      case None
      then show ?thesis
        using effect_new_delivery [OF eff None Some] ok' by (simp add: transition_None record_ok_def)
    next
      case (Some r)
      then have "r' = r \<or> record_step api r r'"
        using effect_delivery [OF eff Some] \<open>map_of (st_deliveries ?s) d = Some r'\<close> by auto
      then show ?thesis
        using Some record_step_transition delivery_record_ok [OF Cons.prems Some] ok'
        by (auto simp: transition_Some record_ok_def)
    qed
    with Some show ?thesis
      using Cons.IH [OF inv] by (simp add: Let_def)
  qed
qed

lemma record_ok_status:
  assumes "record_ok api r"
  shows "rc_status (dr_receipt r) = Rejected \<longleftrightarrow> dr_phase r = Phase_rejected"
    and "rc_detailCode (dr_receipt r) = ''recovery_blocked'' \<Longrightarrow> may_have_redeemed (dr_phase r)"
    and "rc_status (dr_receipt r) = Settled \<longleftrightarrow> dr_phase r = Phase_settled"
  using assms
  by (cases "dr_phase r"; auto simp: record_ok_def may_have_redeemed_def valid_receipt_def
      hasValidDetailCode_def known_detail_codes_def)+

lemma trace_in:
  assumes "store_inv api s" and "c \<in> set (receipt_trace api d ops s)"
  shows "\<exists>pre r. map_of (st_deliveries (run api pre s)) d = Some r \<and> c = dr_receipt r \<and> record_ok api r"
  using assms
proof (induction ops arbitrary: s)
  case Nil
  then show ?case by simp
next
  case (Cons op ops)
  let ?s = "exec api op s"
  from Cons.prems(2) consider r where "map_of (st_deliveries ?s) d = Some r" "c = dr_receipt r"
    | "c \<in> set (receipt_trace api d ops ?s)"
    by (cases "map_of (st_deliveries ?s) d") (auto simp: Let_def)
  then show ?case
  proof cases
    case (1 r)
    then show ?thesis
      using delivery_record_ok [OF exec_inv [OF Cons.prems(1)] 1(1)] by (intro exI [of _ "[op]"]) auto
  next
    case 2
    obtain pre r where "map_of (st_deliveries (run api pre ?s)) d = Some r" "c = dr_receipt r" "record_ok api r"
      using Cons.IH [OF exec_inv [OF Cons.prems(1)] 2] by blast
    then show ?thesis
      by (intro exI [of _ "op # pre"]) auto
  qed
qed

text \<open>Once inputs may be spent nothing is rejected; once rejected nothing changes.\<close>

lemma trace_redeemed:
  assumes "store_inv api s" and "map_of (st_deliveries s) d = Some r" and "may_have_redeemed (dr_phase r)"
    and "c \<in> set (receipt_trace api d ops s)"
  shows "rc_status c \<noteq> Rejected"
proof -
  obtain pre r' where r': "map_of (st_deliveries (run api pre s)) d = Some r'" "c = dr_receipt r'" "record_ok api r'"
    using trace_in [OF assms(1,4)] by blast
  moreover have "may_have_redeemed (dr_phase r')"
    using run_phase [of api "\<lambda>r. may_have_redeemed (dr_phase r)" s d r pre] record_step_phase(2) assms(1-3) r'(1)
    by auto
  ultimately show ?thesis
    using record_ok_status(1) by (auto simp: may_have_redeemed_def)
qed

lemma trace_rejected:
  assumes "store_inv api s" and "map_of (st_deliveries s) d = Some r" and "dr_phase r = Phase_rejected"
    and "c \<in> set (receipt_trace api d ops s)"
  shows "c = dr_receipt r"
proof -
  obtain pre r' where r': "map_of (st_deliveries (run api pre s)) d = Some r'" "c = dr_receipt r'"
    using trace_in [OF assms(1,4)] by blast
  moreover have "r' = r"
    using run_phase [of api "\<lambda>x. x = r \<and> dr_phase x = Phase_rejected" s d r pre] assms(1-3) r'(1)
    by (auto dest: record_step_phase(1))
  ultimately show ?thesis by simp
qed

lemma trace_history: "store_inv api s \<Longrightarrow>
    (\<exists>a\<in>set (receipt_trace api d ops s). rc_detailCode a = ''recovery_blocked'') \<Longrightarrow>
    \<forall>b\<in>set (receipt_trace api d ops s). rc_status b \<noteq> Rejected"
proof (induction ops arbitrary: s)
  case Nil
  then show ?case by simp
next
  case (Cons op ops)
  let ?s = "exec api op s"
  note inv = exec_inv [OF Cons.prems(1), of op]
  show ?case
  proof (cases "map_of (st_deliveries ?s) d")
    case None
    then show ?thesis
      using Cons.IH [OF inv] Cons.prems(2) by (simp add: Let_def)
  next
    case (Some r)
    note ok = record_ok_status [OF delivery_record_ok [OF inv Some]]
    have tr: "set (receipt_trace api d (op # ops) s) = insert (dr_receipt r) (set (receipt_trace api d ops ?s))"
      using Some by (simp add: Let_def)
    show ?thesis
    proof (cases "dr_phase r = Phase_rejected")
      case True
      then have "rc_detailCode a \<noteq> ''recovery_blocked''" if "a \<in> set (receipt_trace api d (op # ops) s)" for a
        using that ok(2) trace_rejected [OF inv Some True] tr by (auto simp: may_have_redeemed_def)
      with Cons.prems(2) show ?thesis by blast
    next
      case False
      then show ?thesis
        using Cons.IH [OF inv] Cons.prems(2) ok trace_redeemed [OF inv Some] unfolding tr by blast
    qed
  qed
qed

lemma trace_receipt_history: "receipt_history api (receipt_trace api d ops emptyState)"
  using trace_chain [OF inv_empty, of api d ops] trace_history [OF inv_empty, of api d ops]
  by (simp add: receipt_history_def emptyState_def)

end
