(* ===== verification/Store_Properties.thy ===== *)
theory Store_Properties
  imports Store_Safety
begin

text \<open>
  What the receiver's store guarantees to the merchant and to the senders, under every schedule of its
  operations, and when its operations succeed.
\<close>

section \<open>When an operation succeeds\<close>

lemma nextReceipt_succeeds:
  assumes "valid_receipt api p" and "rc_status p = Processing" and "rc_statusVersion p < max_safe_integer"
    and "hasValidDetailCode st d" and "st = Processing \<Longrightarrow> d \<noteq> rc_detailCode p"
    and "st = Rejected \<Longrightarrow> rc_detailCode p \<noteq> ''recovery_blocked''"
  shows "\<exists>n. nextReceipt api p st d = Inr n"
  using assms
  by (auto simp: nextReceipt_Inr transition_Some valid_receipt_def sameIdentity_def safe_int_def
      max_safe_integer_def)

lemma record_ok_receipt:
  assumes "record_ok api r"
  shows "valid_receipt api (dr_receipt r)" and "rc_statusVersion (dr_receipt r) < max_safe_integer"
    and "phase_receipt (dr_phase r) (dr_receipt r)"
  using assms by (cases "dr_phase r"; auto simp: record_ok_def max_safe_integer_def)+

lemma known_details:
  "hasValidDetailCode Processing ''redeeming''" "hasValidDetailCode Processing ''recovery_blocked''"
  "hasValidDetailCode Settled ''settled''" "hasValidDetailCode Rejected ''mint_unavailable''"
  by (simp_all add: hasValidDetailCode_def known_detail_codes_def)

lemma markMintSent_succeeds:
  assumes "store_inv api s" and r: "map_of (st_deliveries s) d = Some r" and "dr_phase r = Prepared"
  shows "\<exists>n. markMintSent api d s =
    (Inr n, set_delivery d (r\<lparr>dr_phase := Mint_sent, dr_receipt := n\<rparr>) s) \<and>
    nextReceipt api (dr_receipt r) Processing ''redeeming'' = Inr n"
proof -
  note ok = record_ok_receipt [OF delivery_record_ok [OF assms(1) r]]
  obtain n where "nextReceipt api (dr_receipt r) Processing ''redeeming'' = Inr n"
    using nextReceipt_succeeds [OF ok(1) _ ok(2) known_details(1)] ok(3) assms(3) by auto
  then show ?thesis
    using assms by (auto simp: markMintSent_def transaction_def requireDelivery_def)
qed

lemma blockRecovery_succeeds:
  assumes "store_inv api s" and r: "map_of (st_deliveries s) d = Some r"
    and "dr_phase r = Prepared \<or> dr_phase r = Mint_sent"
  shows "\<exists>n. blockRecovery api d s =
    (Inr n, set_delivery d (r\<lparr>dr_phase := Recovery_blocked, dr_receipt := n\<rparr>) s) \<and>
    nextReceipt api (dr_receipt r) Processing ''recovery_blocked'' = Inr n"
proof -
  note ok = record_ok_receipt [OF delivery_record_ok [OF assms(1) r]]
  obtain n where "nextReceipt api (dr_receipt r) Processing ''recovery_blocked'' = Inr n"
    using nextReceipt_succeeds [OF ok(1) _ ok(2) known_details(2)] ok(3) assms(3) by auto
  then show ?thesis
    using assms by (auto simp: blockRecovery_def transaction_def requireDelivery_def)
qed

lemma reject_succeeds:
  assumes "store_inv api s" and r: "map_of (st_deliveries s) d = Some r"
    and ph: "dr_phase r = Prepared \<or> dr_phase r = Mint_sent" and "hasValidDetailCode Rejected code"
  shows "\<exists>n. reject api d code True s =
    (Inr n, release_claims r d (set_delivery d (r\<lparr>dr_phase := Phase_rejected, dr_receipt := n\<rparr>) s)) \<and>
    nextReceipt api (dr_receipt r) Rejected code = Inr n"
proof -
  note ok = record_ok_receipt [OF delivery_record_ok [OF assms(1) r]]
  have "rc_status (dr_receipt r) = Processing" "rc_detailCode (dr_receipt r) \<noteq> ''recovery_blocked''"
    using ok(3) ph by auto
  then obtain n where "nextReceipt api (dr_receipt r) Rejected code = Inr n"
    using nextReceipt_succeeds [OF ok(1) _ ok(2) assms(4)] by auto
  then show ?thesis
    using r ph by (auto simp: reject_def transaction_def requireDelivery_def)
qed

lemma finalizeSettlement_succeeds:
  assumes inv: "store_inv api s" and r: "map_of (st_deliveries s) d = Some r" and ph: "dr_phase r = Credited"
  shows "\<exists>n. finalizeSettlement api d s =
    (Inr n, set_delivery d (r\<lparr>dr_phase := Phase_settled, dr_receipt := n\<rparr>) s) \<and> rc_status n = Settled"
proof -
  note ok = record_ok_receipt [OF delivery_record_ok [OF inv r]]
  have "rc_status (dr_receipt r) = Processing"
    using ok(3) ph by auto
  then obtain n where n: "nextReceipt api (dr_receipt r) Settled ''settled'' = Inr n"
    using nextReceipt_succeeds [OF ok(1) _ ok(2) known_details(3)] by auto
  moreover have "dr_deliveryId r = d"
    using store_inv_delivery [OF inv r] by (simp add: delivery_inv_def)
  ultimately show ?thesis
    using r ph nextReceipt_ok [OF n] by (auto simp: finalizeSettlement_def transaction_def requireDelivery_def)
qed

lemma recordRedemptionStart_succeeds:
  assumes "map_of (st_deliveries s) d = Some r" and "dr_phase r \<noteq> Prepared" and "dr_phase r \<noteq> Phase_rejected"
  shows "recordRedemptionStart d s =
    (Inr (), set_delivery d (r\<lparr>dr_redemptionStarts := min (dr_redemptionStarts r + 1) 1000\<rparr>) s)"
  using assms by (simp add: recordRedemptionStart_def transaction_def requireDelivery_def)

lemma settle_succeeds:
  assumes inv: "store_inv api s" and r: "map_of (st_deliveries s) (cs_deliveryId input) = Some r"
    and ph: "dr_phase r \<in> {Mint_sent, Recovery_blocked, Outputs_persisted}"
    and hash: "dr_replacementPlanHash r = None \<or> dr_replacementPlanHash r = Some (cs_replacementPlanHash input)"
    and "cs_replacementPlanHash input \<noteq> []" and "cs_replacementProofs input \<noteq> []" and "safe_nonneg (cs_now input)"
  shows "\<exists>n s'. settle api input s = (Inr n, s') \<and> rc_status n = Settled \<and> sameIdentity (dr_receipt r) n \<and>
    map_of (st_credits s') (cs_deliveryId input) = Some (credit_of r (cs_now input)) \<and>
    (\<exists>r'. map_of (st_deliveries s') (cs_deliveryId input) = Some r' \<and> dr_phase r' = Phase_settled \<and> dr_receipt r' = n)"
proof -
  note ok = record_ok_receipt [OF delivery_record_ok [OF inv r]]
  have "rc_status (dr_receipt r) = Processing"
    using ok(3) ph by auto
  then obtain n where n: "nextReceipt api (dr_receipt r) Settled ''settled'' = Inr n"
    using nextReceipt_succeeds [OF ok(1) _ ok(2) known_details(3)] by auto
  have d: "dr_deliveryId r = cs_deliveryId input" "map_of (st_credits s) (cs_deliveryId input) = None"
    using store_inv_delivery [OF inv r] ph by (auto simp: delivery_inv_def has_credit_def)
  have "settle api input s = (Inr n, set_delivery (cs_deliveryId input) (r\<lparr>dr_phase := Phase_settled,
        dr_replacementPlanHash := Some (cs_replacementPlanHash input),
        dr_replacementProofs := Some (cs_replacementProofs input), dr_receipt := n\<rparr>)
        (set_credit (cs_deliveryId input) (credit_of r (cs_now input)) s))"
    using r ph assms(5-7) n d hash
    by (auto simp: settle_def transaction_def requireDelivery_def assertSafeInteger_def safe_nonneg_def
        conflicting_credit_def Let_def)
  then show ?thesis
    using d(2) nextReceipt_ok [OF n] by (simp add: set_credit_def)
qed

section \<open>Credits\<close>

lemma store_inv_credit:
  assumes "store_inv api s" and "map_of (st_credits s) d = Some c"
  shows "\<exists>r t. map_of (st_deliveries s) d = Some r \<and> c = credit_of r t \<and> has_credit (dr_phase r) \<and>
    delivery_inv api s d r"
proof -
  obtain r where r: "map_of (st_deliveries s) d = Some r"
    using assms unfolding store_inv_def by blast
  show ?thesis
    using store_inv_delivery [OF assms(1) r] assms(2) r
    by (auto simp: delivery_inv_def split: if_splits)
qed

lemma credit_delivery:
  assumes "store_inv api s" and "c \<in> set (credits s)"
  shows "\<exists>r q. map_of (st_deliveries s) (mc_deliveryId c) = Some r \<and>
    map_of (st_credits s) (mc_deliveryId c) = Some c \<and> dr_requestId r = mc_requestId c \<and>
    dr_deliveryId r = mc_deliveryId c \<and> has_credit (dr_phase r) \<and>
    map_of (st_requests s) (mc_requestId c) = Some q \<and> mc_amount c = pr_amount q \<and> mc_unit c = pr_unit q"
proof -
  obtain d where c: "map_of (st_credits s) d = Some c"
    using assms in_mp_values [of "st_credits s" c] by (auto simp: credits_def store_inv_def)
  then obtain r t where r: "map_of (st_deliveries s) d = Some r" and inv: "delivery_inv api s d r"
    and "c = credit_of r t" "has_credit (dr_phase r)"
    using store_inv_credit [OF assms(1)] by blast
  moreover obtain q where "map_of (st_requests s) (dr_requestId r) = Some q" "dr_amount r = pr_amount q"
    "rc_unit (dr_receipt r) = pr_unit q"
    using inv by (auto simp: delivery_inv_def bound_to_request_def)
  ultimately show ?thesis
    using r c inv by (auto simp: credit_of_def delivery_inv_def)
qed

lemma credits_distinct:
  assumes "store_inv api s"
  shows "distinct (map mc_deliveryId (credits s))"
proof -
  have "mc_deliveryId c = d" if "map_of (st_credits s) d = Some c" for d c
    using store_inv_credit [OF assms that] by (auto simp: delivery_inv_def credit_of_def)
  then have "map mc_deliveryId (credits s) = map fst (st_credits s)"
    using assms by (auto simp: credits_def mp_values_def store_inv_def mp_ok_def)
  then show ?thesis
    using assms by (simp add: store_inv_def mp_ok_def)
qed

section \<open>A schedule for concrete examples\<close>

definition demo_id2 :: string where
  "demo_id2 = ''AAAAAAAAAAAAAAAAAAAAAQ''"

definition demo_request :: "bool \<Rightarrow> create_payment_request" where
  "demo_request single = \<lparr>cr_id = demo_id, cr_amount = JInt 8, cr_unit = JStr ''sat'',
     cr_mints = [''https://mint.io/a'', ''https://mint.io''], cr_singleUse = single, cr_expiresAt = JInt 2000\<rparr>"

definition demo_command :: "string \<Rightarrow> accept_command" where
  "demo_command d = \<lparr>ac_payload = \<lparr>dp_id = demo_id, dp_memo = None, dp_mint = ''https://mint.io/a'',
       dp_unit = ''sat'', dp_proofs = [Some JNull], dp_deliveryId = d, dp_createdAt = 1000, dp_expiresAt = 2000\<rparr>,
     ac_payloadHash = replicate 64 (CHR ''0'')\<rparr>"

definition demo_plan :: "string \<Rightarrow> exact_swap_plan" where
  "demo_plan d = \<lparr>sp_deliveryId = d, sp_mint = ''https://mint.io/a'', sp_unit = ''sat'', sp_expectedAmount = 8,
     sp_inputProofs = [Some JNull], sp_proofYs = [''y''], xp_keysetId = ''k'', xp_inputFeePpk = 0,
     xp_outputs = [], xp_serializedRequest = [], xp_preparedAt = 1000,
     xp_recovery = \<lparr>rp_nut09 = True, rp_nut19Replay = False, rp_nut19ReplayUntil = None\<rparr>\<rparr>"

definition demo_prepare :: "string \<Rightarrow> string \<Rightarrow> prepare_delivery" where
  "demo_prepare d claim = \<lparr>pd_command = demo_command d, pd_proofSetHash = ''p'', pd_proofClaimIds = [claim],
     pd_proofYs = [''y''], pd_netAmount = 8, pd_plan = demo_plan d, pd_now = 1000\<rparr>"

definition demo_commit :: "string \<Rightarrow> commit_settlement" where
  "demo_commit d = \<lparr>cs_deliveryId = d, cs_replacementPlanHash = ''h'', cs_replacementProofs = [''r''], cs_now = 1001\<rparr>"

definition demo_ops :: "store_op list" where
  "demo_ops = [Create_request (demo_request False), Prepare (demo_prepare demo_id ''c1''),
     Mark_mint_sent demo_id, Settle (demo_commit demo_id), Prepare (demo_prepare demo_id2 ''c2''),
     Block_recovery demo_id2, Persist_settlement_outputs (demo_commit demo_id2), Credit_settlement demo_id2 1001]"

definition demo_credit :: "string \<Rightarrow> merchant_credit" where
  "demo_credit d = \<lparr>mc_creditId = d, mc_requestId = demo_id, mc_deliveryId = d, mc_amount = 8,
     mc_unit = ''sat'', mc_createdAt = 1001\<rparr>"

lemma demo_state:
  "(let s = run demo_url_api demo_ops emptyState in
    (credits s, map_option dr_proofClaimIds (map_of (st_deliveries s) demo_id),
     map_option dr_phase (map_of (st_deliveries s) demo_id2))) =
   ([demo_credit demo_id, demo_credit demo_id2], Some [''c1''], Some Credited)"
  by code_simp

lemma demo_state_facts:
  "credits (run demo_url_api demo_ops emptyState) = [demo_credit demo_id, demo_credit demo_id2]"
  "map_option dr_proofClaimIds (map_of (st_deliveries (run demo_url_api demo_ops emptyState)) demo_id) = Some [''c1'']"
  "map_option dr_phase (map_of (st_deliveries (run demo_url_api demo_ops emptyState)) demo_id2) = Some Credited"
  using demo_state by (simp_all add: Let_def)

section \<open>Properties\<close>

text \<open>
  C5: In every state the store can reach, by any schedule of its operations, merchant credits are backed
  exactly once: no two credits are for the same delivery, and every credit is for a delivery that was
  admitted and credited, with the amount and unit of the payment request it answers.
\<close>

theorem credits_backed_once:
  "distinct (map mc_deliveryId (credits (run api ops emptyState))) \<and>
   list_all (\<lambda>c. \<exists>r q. map_of (st_deliveries (run api ops emptyState)) (mc_deliveryId c) = Some r \<and>
      has_credit (dr_phase r) \<and> dr_requestId r = mc_requestId c \<and>
      map_of (st_requests (run api ops emptyState)) (mc_requestId c) = Some q \<and>
      mc_amount c = pr_amount q \<and> mc_unit c = pr_unit q)
     (credits (run api ops emptyState))"
  using credits_distinct [OF run_empty_inv] credit_delivery [OF run_empty_inv]
  unfolding list_all_iff by metis

text \<open>
  C1: No proof is credited twice and no single-use request is paid twice: two different credits of a
  reachable store come from deliveries with disjoint proof claims, and if they answer the same request,
  that request is not single use.
\<close>

theorem no_double_credit:
  assumes "c \<in> set (credits (run api ops emptyState))" and "c' \<in> set (credits (run api ops emptyState))"
    and "c \<noteq> c'"
    and "map_of (st_deliveries (run api ops emptyState)) (mc_deliveryId c) = Some r"
    and "map_of (st_deliveries (run api ops emptyState)) (mc_deliveryId c') = Some r'"
  shows "set (dr_proofClaimIds r) \<inter> set (dr_proofClaimIds r') = {} \<and>
    (mc_requestId c = mc_requestId c' \<longrightarrow>
       (\<exists>q. map_of (st_requests (run api ops emptyState)) (mc_requestId c) = Some q \<and> \<not> pr_singleUse q))"
proof -
  let ?s = "run api ops emptyState"
  note inv = run_empty_inv [of api ops]
  have ne: "mc_deliveryId c \<noteq> mc_deliveryId c'"
    using credits_distinct [OF inv] assms(1-3) by (auto simp: distinct_map inj_on_def)
  have holds: "holds_claims ?s x \<and> dr_deliveryId x = mc_deliveryId y \<and> dr_requestId x = mc_requestId y"
    if y: "y \<in> set (credits ?s)" and x: "map_of (st_deliveries ?s) (mc_deliveryId y) = Some x" for x y
    using credit_delivery [OF inv y] store_inv_delivery [OF inv x] x
    by (auto simp: delivery_inv_def has_credit_def)
  obtain q where q: "map_of (st_requests ?s) (mc_requestId c) = Some q"
    using credit_delivery [OF inv assms(1)] by blast
  show ?thesis
    using holds [OF assms(1,4)] holds [OF assms(2,5)] ne q unfolding holds_claims_def
    by (metis (mono_tags) disjoint_iff option.inject)
qed

theorem no_double_credit_witness:
  "\<exists>r r'. map_of (st_deliveries (run demo_url_api demo_ops emptyState)) demo_id = Some r \<and>
     map_of (st_deliveries (run demo_url_api demo_ops emptyState)) demo_id2 = Some r' \<and>
     dr_proofClaimIds r = [''c1''] \<and> set (dr_proofClaimIds r) \<inter> set (dr_proofClaimIds r') = {}"
proof -
  let ?s = "run demo_url_api demo_ops emptyState"
  let ?c = "demo_credit demo_id" and ?c' = "demo_credit demo_id2"
  have c: "?c \<in> set (credits ?s)" "?c' \<in> set (credits ?s)" "?c \<noteq> ?c'"
    "mc_deliveryId ?c = demo_id" "mc_deliveryId ?c' = demo_id2"
    by (simp_all add: demo_state_facts demo_credit_def demo_id_def demo_id2_def)
  obtain r r' where r: "map_of (st_deliveries ?s) demo_id = Some r" "map_of (st_deliveries ?s) demo_id2 = Some r'"
    using credit_delivery [OF run_empty_inv c(1)] credit_delivery [OF run_empty_inv c(2)] c(4,5) by auto
  with demo_state_facts(2) show ?thesis
    using no_double_credit [OF c(1-3), of r r'] c(4,5) by auto
qed





definition demo_trace :: "delivery_receipt list" where
  "demo_trace = receipt_trace demo_url_api demo_id demo_ops emptyState"




end
