(* ===== verification/Effects.thy ===== *)
theory Effects
  imports Prelude
begin

text \<open>
  Asynchronous functions as state transformers. An \<open>eff\<close> takes the state of everything outside the
  function and returns its result or error with the new state. \<open>attempt\<close> is \<open>try\<close> with what follows on
  either side; \<open>andThen\<close> is \<open>await\<close> followed by the rest. \<open>safe\<close> is the proof rule set for predicates
  on states that every step keeps, with its introduction rules in the collection \<open>safe_intros\<close>.
\<close>

type_synonym ('s, 'e, 'a) eff = "'s \<Rightarrow> ('e + 'a) \<times> 's"

definition ret :: "'a \<Rightarrow> ('s, 'e, 'a) eff" where
  "ret a w = (Inr a, w)"

definition throw :: "'e \<Rightarrow> ('s, 'e, 'a) eff" where
  "throw e w = (Inl e, w)"

text \<open>Run an action, then one of two continuations.\<close>

definition attempt ::
    "('s, 'e, 'a) eff \<Rightarrow> ('a \<Rightarrow> ('s, 'f, 'b) eff) \<Rightarrow> ('e \<Rightarrow> ('s, 'f, 'b) eff) \<Rightarrow> ('s, 'f, 'b) eff" where
  "attempt m ok err w = (case m w of (Inl e, w') \<Rightarrow> err e w' | (Inr a, w') \<Rightarrow> ok a w')"

definition andThen :: "('s, 'e, 'a) eff \<Rightarrow> ('a \<Rightarrow> ('s, 'e, 'b) eff) \<Rightarrow> ('s, 'e, 'b) eff" where
  "andThen m f = attempt m f throw"

text \<open>A synchronous call that may throw.\<close>

definition lift :: "'e + 'a \<Rightarrow> ('s, 'e, 'a) eff" where
  "lift r w = (r, w)"

lemma attempt_Inr: "m w = (Inr a, w') \<Longrightarrow> attempt m ok err w = ok a w'"
  by (simp add: attempt_def)

lemma attempt_Inl: "m w = (Inl e, w') \<Longrightarrow> attempt m ok err w = err e w'"
  by (simp add: attempt_def)

lemma andThen_Inr: "m w = (Inr a, w') \<Longrightarrow> andThen m f w = f a w'"
  by (simp add: andThen_def attempt_def)

lemma andThen_Inl: "m w = (Inl e, w') \<Longrightarrow> andThen m f w = (Inl e, w')"
  by (simp add: andThen_def attempt_def throw_def)

lemma andThen_ret [simp]: "andThen (ret a) f = f a"
  by (rule ext) (simp add: andThen_Inr ret_def)

lemma lift_simps [simp]: "lift (Inr a) = ret a" "lift (Inl e) = throw e"
  by (simp_all add: lift_def ret_def throw_def fun_eq_iff)

lemma andThen_throw [simp]: "andThen (throw e) f = throw e"
  by (rule ext) (simp add: andThen_Inl throw_def)

lemma snd_andThen_ret: "snd (andThen m (\<lambda>a. ret (g a)) w) = snd (m w)"
  by (cases "m w"; cases "fst (m w)") (auto simp: andThen_def attempt_def ret_def throw_def)

lemma andThen_eq_Inr: "andThen m f w = (Inr b, w'') \<longleftrightarrow>
    (\<exists>a w'. m w = (Inr a, w') \<and> f a w' = (Inr b, w''))"
  by (auto simp: andThen_def attempt_def throw_def split: prod.splits sum.splits)

section \<open>Actions that keep a predicate\<close>

text \<open>\<open>safe I m Q\<close>: from a state with \<open>I\<close>, \<open>m\<close> ends in one with \<open>I\<close>, and what it returns has \<open>Q\<close>.\<close>

definition safe :: "('s \<Rightarrow> bool) \<Rightarrow> ('s, 'e, 'a) eff \<Rightarrow> ('a \<Rightarrow> bool) \<Rightarrow> bool" where
  "safe I m Q \<longleftrightarrow> (\<forall>w. I w \<longrightarrow> I (snd (m w)) \<and> (\<forall>a. fst (m w) = Inr a \<longrightarrow> Q a))"

named_theorems safe_intros "actions that keep a predicate on states"

lemma safe_ret [safe_intros]: "Q a \<Longrightarrow> safe I (ret a) Q"
  by (simp add: safe_def ret_def)

lemma safe_throw [safe_intros]: "safe I (throw e) Q"
  by (simp add: safe_def throw_def)

lemma safe_lift: "(\<And>a. r = Inr a \<Longrightarrow> Q a) \<Longrightarrow> safe I (lift r) Q"
  by (simp add: safe_def lift_def)

lemma safe_attempt:
  assumes "safe I m P" and "\<And>a. P a \<Longrightarrow> safe I (ok a) Q" and "\<And>e. safe I (err e) Q"
  shows "safe I (attempt m ok err) Q"
  unfolding safe_def
proof (intro allI impI)
  fix w assume "I w"
  then have m: "I (snd (m w))" "\<And>a. fst (m w) = Inr a \<Longrightarrow> P a"
    using assms(1) by (auto simp: safe_def)
  then show "I (snd (attempt m ok err w)) \<and> (\<forall>a. fst (attempt m ok err w) = Inr a \<longrightarrow> Q a)"
    using assms(2,3) unfolding safe_def attempt_def
    by (cases "m w"; cases "fst (m w)") auto
qed

lemma safe_andThen:
  assumes "safe I m P" and "\<And>a. P a \<Longrightarrow> safe I (f a) Q"
  shows "safe I (andThen m f) Q"
  unfolding andThen_def using assms by (intro safe_attempt safe_throw)

lemma safe_weaken: "safe I m P \<Longrightarrow> (\<And>a. P a \<Longrightarrow> Q a) \<Longrightarrow> safe I m Q"
  unfolding safe_def by blast

lemma safe_then [safe_intros]:
  assumes "safe I m (\<lambda>_. True)" and "\<And>a. safe I (f a) Q"
  shows "safe I (andThen m f) Q"
  using safe_andThen [OF assms(1)] assms(2) by blast

text \<open>\<open>ends m R\<close>: whenever \<open>m\<close> returns, its result and the state it ends in are related by \<open>R\<close>.\<close>

definition ends :: "('s, 'e, 'a) eff \<Rightarrow> ('a \<Rightarrow> 's \<Rightarrow> bool) \<Rightarrow> bool" where
  "ends m R \<longleftrightarrow> (\<forall>w a w'. m w = (Inr a, w') \<longrightarrow> R a w')"

lemma ends_throw: "ends (throw e) R"
  by (simp add: ends_def throw_def)

lemma ends_ret: "(\<And>w. R a w) \<Longrightarrow> ends (ret a) R"
  by (simp add: ends_def ret_def)

lemma ends_then: "(\<And>a. ends (f a) R) \<Longrightarrow> ends (andThen m f) R"
  unfolding ends_def andThen_eq_Inr by blast

lemma ends_attempt: "(\<And>a. ends (ok a) R) \<Longrightarrow> (\<And>e. ends (err e) R) \<Longrightarrow> ends (attempt m ok err) R"
  unfolding ends_def attempt_def by (auto split: prod.splits sum.splits)

lemma ends_chain: "ends m P \<Longrightarrow> (\<And>a w b w'. P a w \<Longrightarrow> f a w = (Inr b, w') \<Longrightarrow> R b w') \<Longrightarrow> ends (andThen m f) R"
  unfolding ends_def andThen_eq_Inr by blast

section \<open>Counting\<close>

text \<open>\<open>adds c k m\<close>: running \<open>m\<close> raises the count \<open>c\<close> by at most \<open>k\<close>.\<close>

definition adds :: "('s \<Rightarrow> nat) \<Rightarrow> nat \<Rightarrow> ('s, 'e, 'a) eff \<Rightarrow> bool" where
  "adds c k m \<longleftrightarrow> (\<forall>w. c (snd (m w)) \<le> c w + k)"

lemma adds_ret [simp]: "adds c k (ret a)" "adds c k (throw e)" "adds c k (lift r)"
  by (simp_all add: adds_def ret_def throw_def lift_def)

lemma adds_attempt:
  assumes "adds c i m" and "\<And>a. adds c j (ok a)" and "\<And>e. adds c j (err e)" and "i + j \<le> k"
  shows "adds c k (attempt m ok err)"
  unfolding adds_def
proof
  fix w
  obtain r w' where m: "m w = (r, w')"
    by (cases "m w")
  have "c w' \<le> c w + i"
    using assms(1) m unfolding adds_def by (metis snd_conv)
  moreover have "c (snd (attempt m ok err w)) \<le> c w' + j"
    using assms(2,3) m unfolding adds_def by (cases r) (simp_all add: attempt_def)
  ultimately show "c (snd (attempt m ok err w)) \<le> c w + k"
    using assms(4) by linarith
qed

lemma adds_andThen:
  assumes "adds c i m" and "\<And>a. adds c j (f a)" and "i + j \<le> k"
  shows "adds c k (andThen m f)"
  unfolding andThen_def using adds_attempt [OF assms(1,2) _ assms(3)] by simp

end
