(* ===== verification/Receiver.thy ===== *)
theory Receiver
  imports Store_Properties Effects
begin

text \<open>
  The receiver's application logic: \<open>domain/accept-delivery.ts\<close>, \<open>domain/accept-payload.ts\<close> and
  \<open>domain/recover-delivery.ts\<close> of \<open>apps/reference-receiver/src\<close>, over the ports of \<open>ports/*.ts\<close>.

  An asynchronous function is an \<open>action\<close>: it takes the world (the store, the redemption locks, the
  crash checkpoint, the environment behind the ports, and the list of calls made to the mint) and
  returns its result or error with the new world. The clock, the proof verifier and the mint are the
  functions of \<open>receiver_deps\<close> over an environment of any type. A gateway call that takes a dispatch hook
  is a \<open>gateway_call\<close>: it replies without running the hook, or runs it once and replies depending on
  how the hook ended.

  A \<open>return f()\<close> inside \<open>try\<close> leaves the \<open>try\<close> before the promise settles, so its errors are not
  caught, while those of \<open>return await f()\<close> are. A guarded body therefore returns the action that is
  left to run outside.
\<close>

section \<open>Ports\<close>

datatype mint_proof_state = UNSPENT | PENDING | SPENT | UNKNOWN

record swap_result =
  sr_replacementPlanHash :: string
  sr_replacementProofs :: "string list"

datatype restore_result = Recovered swap_result | Not_found

record inspected_proofs =
  ip_ys :: "string list"
  ip_proofClaimIds :: "string list"
  ip_proofSetHash :: string
  ip_netAmount :: int

datatype 'r gateway_call =
    Replies "receiver_error + 'r"
  | Dispatches "receiver_error + unit \<Rightarrow> receiver_error + 'r"

record 'm receiver_deps =
  rd_now :: "'m \<Rightarrow> int \<times> 'm"
  rd_inspect :: "delivery_payload \<Rightarrow> 'm \<Rightarrow> (receiver_error + inspected_proofs) \<times> 'm"
  rd_prepareSwap :: "swap_plan_draft \<Rightarrow> 'm \<Rightarrow> (receiver_error + exact_swap_plan) \<times> 'm"
  rd_swap :: "exact_swap_plan \<Rightarrow> 'm \<Rightarrow> swap_result gateway_call \<times> 'm"
  rd_restore :: "exact_swap_plan \<Rightarrow> 'm \<Rightarrow> restore_result gateway_call \<times> 'm"
  rd_proofStates :: "exact_swap_plan \<Rightarrow> 'm \<Rightarrow> (receiver_error + mint_proof_state list) \<times> 'm"

datatype mint_call = Call_swap string | Call_restore string | Call_proofStates string

record 'm world =
  w_store :: store_state
  w_locks :: "string list"
  w_checkpoint :: "checkpoint option"
  w_env :: 'm
  w_calls :: "mint_call list"

fun isMintGatewayError :: "receiver_error \<Rightarrow> bool" where
  "isMintGatewayError (MintGatewayError _ _) = True"
| "isMintGatewayError _ = False"

fun mayHaveConsumedInputs :: "receiver_error \<Rightarrow> bool" where
  "mayHaveConsumedInputs (MintGatewayError _ b) = b"
| "mayHaveConsumedInputs _ = False"

section \<open>Actions\<close>

type_synonym ('m, 'a) action = "('m world, receiver_error, 'a) eff"

definition on_store :: "(store_state \<Rightarrow> (receiver_error + 'a) \<times> store_state) \<Rightarrow> ('m, 'a) action" where
  "on_store f w = (let (r, s) = f (w_store w) in (r, w\<lparr>w_store := s\<rparr>))"

definition on_env :: "('m \<Rightarrow> 'a \<times> 'm) \<Rightarrow> ('m, 'a) action" where
  "on_env f w = (let (r, m) = f (w_env w) in (Inr r, w\<lparr>w_env := m\<rparr>))"

definition on_port :: "('m \<Rightarrow> (receiver_error + 'a) \<times> 'm) \<Rightarrow> ('m, 'a) action" where
  "on_port f w = (let (r, m) = f (w_env w) in (r, w\<lparr>w_env := m\<rparr>))"

definition note_call :: "mint_call \<Rightarrow> ('m, unit) action" where
  "note_call c w = (Inr (), w\<lparr>w_calls := w_calls w @ [c]\<rparr>)"

definition gateway ::
    "('m \<Rightarrow> 'r gateway_call \<times> 'm) \<Rightarrow> ('m, unit) action \<Rightarrow> ('m, 'r) action" where
  "gateway f hook = andThen (on_env f) (\<lambda>call.
     case call of
       Replies r \<Rightarrow> (\<lambda>w. (r, w))
     | Dispatches k \<Rightarrow> (\<lambda>w. let (h, w') = hook w in (k h, w')))"

definition checkpoint_hit :: "crash_boundary \<Rightarrow> string \<Rightarrow> ('m, unit) action" where
  "checkpoint_hit b d w =
     (case w_checkpoint w of
        None \<Rightarrow> (Inr (), w)
      | Some c \<Rightarrow>
          let (thrown, c') = hit c b; w' = w\<lparr>w_checkpoint := Some c'\<rparr> in
          (case thrown of None \<Rightarrow> Inr () | Some b' \<Rightarrow> Inl (CrashBoundaryHit b' d), w'))"

section \<open>Recovery\<close>

definition settleWithCheckpoints ::
    "url_api \<Rightarrow> commit_settlement \<Rightarrow> ('m, delivery_receipt) action" where
  "settleWithCheckpoints api input w =
     (if w_checkpoint w = None then on_store (settle api input) w
      else
        andThen (checkpoint_hit Receiver_after_mint_response_before_output_persistence (cs_deliveryId input)) (\<lambda>_.
        andThen (on_store (persistSettlementOutputs input)) (\<lambda>_.
        andThen (checkpoint_hit Receiver_after_output_persistence_before_merchant_credit (cs_deliveryId input)) (\<lambda>_.
        andThen (on_store (creditSettlement (cs_deliveryId input) (cs_now input))) (\<lambda>_.
        andThen (checkpoint_hit Receiver_after_credit_before_receipt_persistence (cs_deliveryId input)) (\<lambda>_.
        andThen (on_store (finalizeSettlement api (cs_deliveryId input))) (\<lambda>receipt.
        andThen (checkpoint_hit Receiver_after_receipt_persistence_before_response_or_outbox (cs_deliveryId input)) (\<lambda>_.
          ret receipt))))))) w)"

definition settle_outputs ::
    "url_api \<Rightarrow> 'm receiver_deps \<Rightarrow> string \<Rightarrow> string \<Rightarrow> string list \<Rightarrow> ('m, delivery_receipt) action" where
  "settle_outputs api deps d planHash proofs =
     andThen (on_env (rd_now deps)) (\<lambda>now.
       settleWithCheckpoints api \<lparr>cs_deliveryId = d, cs_replacementPlanHash = planHash,
         cs_replacementProofs = proofs, cs_now = now\<rparr>)"

definition swapAndSettle ::
    "url_api \<Rightarrow> 'm receiver_deps \<Rightarrow> string \<Rightarrow> exact_swap_plan \<Rightarrow> ('m, delivery_receipt) action" where
  "swapAndSettle api deps d plan =
     attempt
       (andThen (note_call (Call_swap d)) (\<lambda>_.
        gateway (rd_swap deps plan)
          (andThen (on_store (recordRedemptionStart d)) (\<lambda>_.
             checkpoint_hit Receiver_after_mint_request_before_response d))))
       (\<lambda>swapped. settle_outputs api deps d (sr_replacementPlanHash swapped) (sr_replacementProofs swapped))
       (\<lambda>e. if isMintGatewayError e \<and> \<not> mayHaveConsumedInputs e
            then on_store (reject api d ''mint_unavailable'' True) else throw e)"

text \<open>The guarded part: it returns the action left to run when it leaves the \<open>try\<close>.\<close>

definition recover_guarded ::
    "url_api \<Rightarrow> 'm receiver_deps \<Rightarrow> string \<Rightarrow> delivery_record \<Rightarrow> ('m, ('m, delivery_receipt) action) action" where
  "recover_guarded api deps d record =
     (if dr_phase record = Prepared then
        andThen (checkpoint_hit Receiver_before_mint_request d) (\<lambda>_.
        andThen (on_store (markMintSent api d)) (\<lambda>_.
        andThen (swapAndSettle api deps d (dr_plan record)) (\<lambda>receipt. ret (ret receipt))))
      else if dr_phase record = Outputs_persisted then
        (case (dr_replacementPlanHash record, dr_replacementProofs record) of
           (Some h, Some ps) \<Rightarrow> ret (settle_outputs api deps d h ps)
         | _ \<Rightarrow> throw (Domain R_INVALID_STATE))
      else if dr_phase record = Credited then
        andThen (checkpoint_hit Receiver_after_credit_before_receipt_persistence d) (\<lambda>_.
        andThen (on_store (finalizeSettlement api d)) (\<lambda>receipt.
        andThen (checkpoint_hit Receiver_after_receipt_persistence_before_response_or_outbox d) (\<lambda>_.
          ret (ret receipt))))
      else
        andThen (note_call (Call_restore d)) (\<lambda>_.
        andThen (gateway (rd_restore deps (dr_plan record)) (on_store (recordRedemptionStart d))) (\<lambda>restored.
        case restored of
          Recovered result \<Rightarrow>
            ret (settle_outputs api deps d (sr_replacementPlanHash result) (sr_replacementProofs result))
        | Not_found \<Rightarrow>
            andThen (note_call (Call_proofStates d)) (\<lambda>_.
            andThen (on_port (rd_proofStates deps (dr_plan record))) (\<lambda>states.
            if length states \<noteq> length (sp_proofYs (dr_plan record)) then throw (Domain R_INVALID_STATE)
            else ret (on_store (blockRecovery api d)))))))"

fun rethrown :: "receiver_error \<Rightarrow> bool" where
  "rethrown (Domain _) = True"
| "rethrown (CrashBoundaryHit _ _) = True"
| "rethrown _ = False"

definition recoverLockedDelivery ::
    "url_api \<Rightarrow> 'm receiver_deps \<Rightarrow> string \<Rightarrow> ('m, delivery_receipt) action" where
  "recoverLockedDelivery api deps d =
     andThen (on_store (current d)) (\<lambda>found.
     case found of
       None \<Rightarrow> throw (Domain R_INVALID_STATE)
     | Some record \<Rightarrow>
         if dr_phase record = Phase_settled \<or> dr_phase record = Phase_rejected then ret (dr_receipt record)
         else attempt (recover_guarded api deps d record) (\<lambda>rest. rest)
           (\<lambda>e. if rethrown e then throw e else on_store (blockRecovery api d)))"

definition withRedemptionLock :: "string \<Rightarrow> ('m, 'a) action \<Rightarrow> ('m, 'a option) action" where
  "withRedemptionLock d operation w =
     (if d \<in> set (w_locks w) then (Inr None, w)
      else let (r, w') = operation (w\<lparr>w_locks := d # w_locks w\<rparr>) in
        (map_sum id Some r, w'\<lparr>w_locks := filter (\<lambda>x. x \<noteq> d) (w_locks w')\<rparr>))"

definition recoverDelivery ::
    "url_api \<Rightarrow> 'm receiver_deps \<Rightarrow> string \<Rightarrow> ('m, delivery_receipt) action" where
  "recoverDelivery api deps d =
     andThen (withRedemptionLock d (recoverLockedDelivery api deps d)) (\<lambda>recovery.
     case recovery of
       Some receipt \<Rightarrow> ret receipt
     | None \<Rightarrow>
         andThen (on_store (current d)) (\<lambda>found.
         case found of
           None \<Rightarrow> throw (Domain R_INVALID_STATE)
         | Some record \<Rightarrow> ret (dr_receipt record)))"

section \<open>Accepting a delivery\<close>

definition createPlanDraft :: "accept_command \<Rightarrow> string list \<Rightarrow> int \<Rightarrow> swap_plan_draft" where
  "createPlanDraft command proofYs netAmount =
     \<lparr>sp_deliveryId = dp_deliveryId (ac_payload command), sp_mint = dp_mint (ac_payload command),
      sp_unit = dp_unit (ac_payload command), sp_expectedAmount = netAmount,
      sp_inputProofs = dp_proofs (ac_payload command), sp_proofYs = proofYs\<rparr>"

definition acceptDelivery ::
    "url_api \<Rightarrow> 'm receiver_deps \<Rightarrow> accept_command \<Rightarrow> ('m, delivery_receipt) action" where
  "acceptDelivery api deps command =
     (if \<not> hash_pattern (ac_payloadHash command) then throw (Domain R_REQUEST_MISMATCH)
      else
        andThen (on_env (rd_now deps)) (\<lambda>now.
        andThen (on_store (preflight command now)) (\<lambda>previous.
        case previous of
          Some record \<Rightarrow>
            if dr_phase record = Phase_settled \<or> dr_phase record = Phase_rejected
            then ret (dr_receipt record)
            else recoverDelivery api deps (dp_deliveryId (ac_payload command))
        | None \<Rightarrow>
            andThen (on_port (rd_inspect deps (ac_payload command))) (\<lambda>inspected.
            andThen (on_port (rd_prepareSwap deps
              (createPlanDraft command (ip_ys inspected) (ip_netAmount inspected)))) (\<lambda>plan.
            andThen (on_env (rd_now deps)) (\<lambda>now'.
            andThen (on_store (prepare api
              \<lparr>pd_command = command, pd_proofSetHash = ip_proofSetHash inspected,
               pd_proofClaimIds = ip_proofClaimIds inspected, pd_proofYs = ip_ys inspected,
               pd_netAmount = ip_netAmount inspected, pd_plan = plan, pd_now = now'\<rparr>)) (\<lambda>prepared.
            case prepared of
              Kind_duplicate record \<Rightarrow> ret (dr_receipt record)
            | Kind_prepared record \<Rightarrow> recoverDelivery api deps (dp_deliveryId (ac_payload command)))))))))"

definition acceptPayloadBytes ::
    "platform \<Rightarrow> 'm receiver_deps \<Rightarrow> nat list \<Rightarrow> ('m, delivery_receipt) action" where
  "acceptPayloadBytes pf deps payloadBytes =
     andThen (on_env (rd_now deps)) (\<lambda>now.
     case parseDeliveryPayloadJson pf payloadBytes (js_int now) of
       Inl e \<Rightarrow> throw (Validation e)
     | Inr payload \<Rightarrow>
         (case computePayloadHash pf (fingerprint_of payload) of
            Inl e \<Rightarrow> throw (Validation e)
          | Inr h \<Rightarrow> acceptDelivery (pf_url pf) deps \<lparr>ac_payload = payload, ac_payloadHash = h\<rparr>))"

section \<open>Running actions\<close>

lemma attempt_note: "attempt (andThen (note_call c) (\<lambda>_. m)) ok err w =
    attempt m ok err (w\<lparr>w_calls := w_calls w @ [c]\<rparr>)"
  by (simp add: attempt_def andThen_def note_call_def)

lemma on_store_eq: "f (w_store w) = (r, s) \<Longrightarrow> on_store f w = (r, w\<lparr>w_store := s\<rparr>)"
  by (simp add: on_store_def)

end
