(* ===== verification/Receiver_Safety.thy ===== *)
theory Receiver_Safety
  imports Receiver
begin

text \<open>
  Invariants of the receiver's handlers. The locale \<open>receiver_invariant\<close> states what an invariant of
  the world has to survive: the environment, the checkpoint and the locks changing, any operation of
  the store, calls to the mint other than a swap, and a swap call together with the durable note that
  precedes it. In it the handlers are shown to keep the invariant, on every path. It is interpreted
  twice: every handler is a schedule of store operations, and the swap of a delivery is requested at
  most once.
\<close>

section \<open>The interface of an invariant\<close>

locale receiver_invariant =
  fixes I :: "'m world \<Rightarrow> bool" and api :: url_api
  assumes env: "I w \<Longrightarrow> I (w\<lparr>w_env := m\<rparr>)"
    and checkpoint: "I w \<Longrightarrow> I (w\<lparr>w_checkpoint := c\<rparr>)"
    and locks: "I w \<Longrightarrow> I (w\<lparr>w_locks := l\<rparr>)"
    and store: "I w \<Longrightarrow> I (w\<lparr>w_store := exec api op (w_store w)\<rparr>)"
    and note_restore: "I w \<Longrightarrow> I (w\<lparr>w_calls := w_calls w @ [Call_restore d]\<rparr>)"
    and note_states: "I w \<Longrightarrow> I (w\<lparr>w_calls := w_calls w @ [Call_proofStates d]\<rparr>)"
    and note_swap: "I w \<Longrightarrow> map_of (st_deliveries (w_store w)) d = Some r \<Longrightarrow> dr_phase r = Prepared \<Longrightarrow>
      fst (markMintSent api d (w_store w)) = Inr n \<Longrightarrow>
      I (w\<lparr>w_store := snd (markMintSent api d (w_store w)), w_calls := w_calls w @ [Call_swap d]\<rparr>)"
begin

lemma on_store:
  assumes "\<And>s. snd (f s) = exec api op s" and "\<And>a. Q a"
  shows "safe I (on_store f) Q"
  using store [of _ op] assms by (auto simp: safe_def on_store_def split_beta Let_def)

lemmas on_store_op [safe_intros] =
  on_store [of "settle api input" "Settle input" "\<lambda>_. True" for input, simplified]
  on_store [of "persistSettlementOutputs input" "Persist_settlement_outputs input" "\<lambda>_. True" for input, simplified]
  on_store [of "creditSettlement d now" "Credit_settlement d now" "\<lambda>_. True" for d now, simplified]
  on_store [of "finalizeSettlement api d" "Finalize_settlement d" "\<lambda>_. True" for d, simplified]
  on_store [of "recordRedemptionStart d" "Record_redemption_start d" "\<lambda>_. True" for d, simplified]
  on_store [of "blockRecovery api d" "Block_recovery d" "\<lambda>_. True" for d, simplified]
  on_store [of "reject api d code rel" "Reject d code rel" "\<lambda>_. True" for d code rel, simplified]
  on_store [of "current d" "Current d" "\<lambda>_. True" for d, simplified]
  on_store [of "preflight command now" "Preflight command now" "\<lambda>_. True" for command now, simplified]
  on_store [of "prepare api input" "Prepare input" "\<lambda>_. True" for input, simplified]

lemma on_env [safe_intros]: "safe I (on_env f) (\<lambda>_. True)"
  using env by (auto simp: safe_def on_env_def split_beta Let_def)

lemma on_port [safe_intros]: "safe I (on_port f) (\<lambda>_. True)"
  using env by (auto simp: safe_def on_port_def split_beta Let_def)

lemma hit [safe_intros]: "safe I (checkpoint_hit b d) (\<lambda>_. True)"
  using checkpoint by (auto simp: safe_def checkpoint_hit_def split_beta Let_def split: option.split)

lemma note_other [safe_intros]:
  "safe I (note_call (Call_restore d)) (\<lambda>_. True)" "safe I (note_call (Call_proofStates d)) (\<lambda>_. True)"
  using note_restore note_states by (auto simp: safe_def note_call_def)

lemma gateway [safe_intros]:
  assumes "safe I hook (\<lambda>_. True)"
  shows "safe I (gateway f hook) (\<lambda>_. True)"
  unfolding gateway_def
proof (rule safe_then [OF on_env])
  fix call
  show "safe I (case call of Replies r \<Rightarrow> \<lambda>w. (r, w) |
      Dispatches k \<Rightarrow> \<lambda>w. let (h, w') = hook w in (k h, w')) (\<lambda>_. True)"
    using assms by (auto simp: safe_def split_beta Let_def split: gateway_call.split)
qed

lemma settleWithCheckpoints_safe [safe_intros]: "safe I (settleWithCheckpoints api input) (\<lambda>_. True)"
proof -
  have "safe I (on_store (settle api input)) (\<lambda>_. True)"
    by (rule on_store_op)
  moreover have "safe I (
        andThen (checkpoint_hit Receiver_after_mint_response_before_output_persistence (cs_deliveryId input)) (\<lambda>_.
        andThen (Receiver.on_store (persistSettlementOutputs input)) (\<lambda>_.
        andThen (checkpoint_hit Receiver_after_output_persistence_before_merchant_credit (cs_deliveryId input)) (\<lambda>_.
        andThen (Receiver.on_store (creditSettlement (cs_deliveryId input) (cs_now input))) (\<lambda>_.
        andThen (checkpoint_hit Receiver_after_credit_before_receipt_persistence (cs_deliveryId input)) (\<lambda>_.
        andThen (Receiver.on_store (finalizeSettlement api (cs_deliveryId input))) (\<lambda>receipt.
        andThen (checkpoint_hit Receiver_after_receipt_persistence_before_response_or_outbox (cs_deliveryId input)) (\<lambda>_.
          ret receipt)))))))) (\<lambda>_. True)"
    by (intro safe_intros TrueI)
  ultimately show ?thesis
    unfolding safe_def settleWithCheckpoints_def by simp
qed

lemma settle_outputs_safe [safe_intros]: "safe I (settle_outputs api deps d h ps) (\<lambda>_. True)"
  unfolding settle_outputs_def by (intro safe_intros)

text \<open>The swap is only requested after the phase has durably left \<open>Prepared\<close>.\<close>

lemma swap_from_prepared:
  assumes w: "I w" "map_of (st_deliveries (w_store w)) d = Some r" "dr_phase r = Prepared"
  shows "I (snd (andThen (Receiver.on_store (markMintSent api d)) (\<lambda>_.
        andThen (swapAndSettle api deps d plan) (\<lambda>receipt. ret (ret receipt))) w))"
    (is "I (snd (andThen ?mark (\<lambda>_. ?rest) w))")
proof (cases "fst (markMintSent api d (w_store w))")
  case (Inl e)
  then show ?thesis
    using store [OF w(1), of "Mark_mint_sent d"]
    by (simp add: andThen_def attempt_def on_store_def split_beta Let_def throw_def)
next
  case (Inr n)
  let ?w = "w\<lparr>w_store := snd (markMintSent api d (w_store w)), w_calls := w_calls w @ [Call_swap d]\<rparr>"
  have I: "I ?w"
    using note_swap [OF w Inr] .
  let ?swap = "Receiver.gateway (rd_swap deps plan) (andThen (Receiver.on_store (recordRedemptionStart d)) (\<lambda>_.
      checkpoint_hit Receiver_after_mint_request_before_response d))"
  let ?cont = "\<lambda>swapped. settle_outputs api deps d (sr_replacementPlanHash swapped) (sr_replacementProofs swapped)"
  let ?err = "\<lambda>e. if isMintGatewayError e \<and> \<not> mayHaveConsumedInputs e
      then Receiver.on_store (reject api d ''mint_unavailable'' True) else throw e"
  have safe: "safe I (attempt ?swap ?cont ?err) (\<lambda>_. True)"
    by (intro safe_intros safe_attempt [where P = "\<lambda>_. True"] TrueI; simp add: safe_intros)
  have "?mark w = (Inr n, w\<lparr>w_store := snd (markMintSent api d (w_store w))\<rparr>)"
    using Inr by (intro on_store_eq) (simp add: prod_eq_iff)
  then have "snd (andThen ?mark (\<lambda>_. ?rest) w) = snd (attempt ?swap ?cont ?err ?w)"
    by (simp add: andThen_Inr snd_andThen_ret swapAndSettle_def attempt_note)
  then show ?thesis
    using safe I unfolding safe_def by simp
qed

lemma recover_guarded_safe:
  assumes "I w" and "map_of (st_deliveries (w_store w)) d = Some r"
  shows "I (snd (recover_guarded api deps d r w)) \<and>
    (\<forall>rest. fst (recover_guarded api deps d r w) = Inr rest \<longrightarrow> safe I rest (\<lambda>_. True))"
proof (cases "dr_phase r = Prepared")
  case True
  let ?hit = "checkpoint_hit Receiver_before_mint_request d"
  let ?rest = "andThen (Receiver.on_store (markMintSent api d)) (\<lambda>_.
    andThen (swapAndSettle api deps d (dr_plan r)) (\<lambda>receipt. ret (ret receipt :: ('m, delivery_receipt) action)))"
  have eq: "recover_guarded api deps d r w = andThen ?hit (\<lambda>_. ?rest) w"
    using True by (simp add: recover_guarded_def)
  have hit: "I (snd (?hit w))" "w_store (snd (?hit w)) = w_store w"
    using hit [of Receiver_before_mint_request d] assms(1)
    by (auto simp: safe_def checkpoint_hit_def split_beta Let_def split: option.split)
  have "safe I ret_rest (\<lambda>_. True)" if "fst (andThen ?hit (\<lambda>_. ?rest) w) = Inr ret_rest" for ret_rest
    using that by (auto simp: andThen_def attempt_def ret_def throw_def safe_def split: prod.splits sum.splits)
  moreover have "I (snd (andThen ?hit (\<lambda>_. ?rest) w))"
    using swap_from_prepared [OF hit(1), of d r deps "dr_plan r"] assms(2) True hit
    by (cases "?hit w"; cases "fst (?hit w)") (auto simp: andThen_Inr andThen_Inl)
  ultimately show ?thesis
    by (simp add: eq)
next
  case False
  have "safe I (recover_guarded api deps d r) (\<lambda>rest. safe I rest (\<lambda>_. True))"
    using False unfolding recover_guarded_def
    by (auto intro!: safe_intros split: option.split restore_result.split)
  then show ?thesis
    using assms(1) unfolding safe_def by blast
qed

lemma recoverLockedDelivery_safe [safe_intros]: "safe I (recoverLockedDelivery api deps d) (\<lambda>_. True)"
  unfolding safe_def
proof (intro allI impI conjI)
  fix w assume w: "I w"
  have cur: "Receiver.on_store (current d) w = (Inr (map_of (st_deliveries (w_store w)) d), w)"
    by (simp add: on_store_def current_def transaction_def)
  show "I (snd (recoverLockedDelivery api deps d w))"
  proof (cases "map_of (st_deliveries (w_store w)) d")
    case None
    with w cur show ?thesis
      by (simp add: recoverLockedDelivery_def andThen_Inr throw_def)
  next
    case (Some r)
    let ?g = "recover_guarded api deps d r"
    have err: "I w' \<Longrightarrow> I (snd ((if rethrown e then throw e else Receiver.on_store (blockRecovery api d)) w'))"
      for e and w'
      using on_store_op unfolding safe_def by (simp add: throw_def)
    have "I (snd (attempt ?g (\<lambda>rest. rest) (\<lambda>e. if rethrown e then throw e
        else Receiver.on_store (blockRecovery api d)) w))"
      using recover_guarded_safe [OF w Some, of deps] err
      by (cases "?g w"; cases "fst (?g w)") (auto simp: attempt_Inr attempt_Inl safe_def)
    with Some cur w show ?thesis
      by (simp add: recoverLockedDelivery_def andThen_Inr ret_def)
  qed
qed simp

lemma recoverDelivery_safe [safe_intros]: "safe I (recoverDelivery api deps d) (\<lambda>_. True)"
proof -
  have "safe I (withRedemptionLock d (recoverLockedDelivery api deps d)) (\<lambda>_. True)"
    using recoverLockedDelivery_safe [of deps d] locks
    by (auto simp: safe_def withRedemptionLock_def split_beta Let_def)
  then show ?thesis
    unfolding recoverDelivery_def by (auto intro!: safe_intros split: option.split)
qed

lemma acceptDelivery_safe [safe_intros]: "safe I (acceptDelivery api deps command) (\<lambda>_. True)"
  unfolding acceptDelivery_def by (auto intro!: safe_intros split: option.split prepare_result.split)

end

section \<open>Handlers are schedules of store operations\<close>

definition reaches :: "url_api \<Rightarrow> store_state \<Rightarrow> store_state \<Rightarrow> bool" where
  "reaches api s s' \<longleftrightarrow> (\<exists>ops. s' = run api ops s)"

lemma reaches_exec: "reaches api s s' \<Longrightarrow> reaches api s (exec api op s')"
  unfolding reaches_def by (metis run_simps)

interpretation sched: receiver_invariant "\<lambda>w. reaches api s0 (w_store w)" api for api s0
proof
  fix w d r n
  assume "reaches api s0 (w_store w)"
  then show "reaches api s0 (w_store (w\<lparr>w_store := snd (markMintSent api d (w_store w)),
      w_calls := w_calls w @ [Call_swap d]\<rparr>))"
    using reaches_exec [of api s0 "w_store w" "Mark_mint_sent d"] by simp
qed (simp_all add: reaches_exec)

section \<open>One swap per delivery\<close>

definition swap_inv :: "url_api \<Rightarrow> 'm world \<Rightarrow> bool" where
  "swap_inv api w \<longleftrightarrow> store_inv api (w_store w) \<and>
     (\<forall>d. count_list (w_calls w) (Call_swap d) \<le> 1 \<and>
        (count_list (w_calls w) (Call_swap d) = 0 \<or>
         (\<exists>r. map_of (st_deliveries (w_store w)) d = Some r \<and> dr_phase r \<noteq> Prepared)))"

lemma record_step_not_prepared: "record_step api r r' \<Longrightarrow> dr_phase r' \<noteq> Prepared"
  by (erule record_stepE) auto

lemma exec_not_prepared:
  assumes "store_inv api s" and "map_of (st_deliveries s) d = Some r" and "dr_phase r \<noteq> Prepared"
  shows "\<exists>r. map_of (st_deliveries (exec api op s)) d = Some r \<and> dr_phase r \<noteq> Prepared"
  using effect_delivery [OF exec_effect [OF assms(1)] assms(2), of op] assms(3) record_step_not_prepared by blast

lemma swap_inv_exec: "swap_inv api w \<Longrightarrow> swap_inv api (w\<lparr>w_store := exec api op (w_store w)\<rparr>)"
  unfolding swap_inv_def by (auto intro: exec_inv exec_not_prepared)

lemma swap_inv_swap:
  assumes w: "swap_inv api w" and r: "map_of (st_deliveries (w_store w)) d = Some r" "dr_phase r = Prepared"
    and n: "fst (markMintSent api d (w_store w)) = Inr n"
  shows "swap_inv api (w\<lparr>w_store := snd (markMintSent api d (w_store w)), w_calls := w_calls w @ [Call_swap d]\<rparr>)"
proof -
  have inv: "store_inv api (w_store w)"
    using w by (simp add: swap_inv_def)
  have zero: "count_list (w_calls w) (Call_swap d) = 0"
    using w r unfolding swap_inv_def by auto
  have "\<exists>r'. map_of (st_deliveries (snd (markMintSent api d (w_store w)))) d = Some r' \<and> dr_phase r' \<noteq> Prepared"
    using markMintSent_succeeds [OF inv r] by auto
  then show ?thesis
    using swap_inv_exec [OF w, of "Mark_mint_sent d"] zero unfolding swap_inv_def by auto
qed

interpretation once: receiver_invariant "swap_inv api" api for api
proof
  fix w d r n
  assume "swap_inv api w" "map_of (st_deliveries (w_store w)) d = Some r" "dr_phase r = Prepared"
    "fst (markMintSent api d (w_store w)) = Inr n"
  then show "swap_inv api (w\<lparr>w_store := snd (markMintSent api d (w_store w)),
      w_calls := w_calls w @ [Call_swap d]\<rparr>)"
    by (rule swap_inv_swap)
qed (simp_all add: swap_inv_exec, auto simp: swap_inv_def)

section \<open>Sessions\<close>

text \<open>
  What a receiver process is asked to do over its life: create requests, accept payloads, recover
  deliveries (the status route and the worker do), and be given another crash checkpoint.
\<close>

datatype receiver_call =
    Ask_create create_payment_request
  | Ask_accept accept_command
  | Ask_recover string
  | Ask_checkpoint "checkpoint option"

fun serve :: "url_api \<Rightarrow> 'm receiver_deps \<Rightarrow> receiver_call \<Rightarrow> 'm world \<Rightarrow> 'm world" where
  "serve api deps (Ask_create input) w = snd (on_store (createRequest api input) w)"
| "serve api deps (Ask_accept command) w = snd (acceptDelivery api deps command w)"
| "serve api deps (Ask_recover d) w = snd (recoverDelivery api deps d w)"
| "serve api deps (Ask_checkpoint c) w = w\<lparr>w_checkpoint := c\<rparr>"

definition session :: "url_api \<Rightarrow> 'm receiver_deps \<Rightarrow> receiver_call list \<Rightarrow> 'm world \<Rightarrow> 'm world" where
  "session api deps calls w = fold (serve api deps) calls w"

definition start_world :: "'m \<Rightarrow> 'm world" where
  "start_world m = \<lparr>w_store = emptyState, w_locks = [], w_checkpoint = None, w_env = m, w_calls = []\<rparr>"

context receiver_invariant
begin

lemma serve_inv: "I w \<Longrightarrow> I (serve api deps call w)"
proof (cases call)
  case (Ask_create input)
  assume "I w"
  then show ?thesis
    using store [of w "Create_request input"] Ask_create by (simp add: on_store_def split_beta Let_def)
qed (use acceptDelivery_safe recoverDelivery_safe checkpoint in \<open>auto simp: safe_def\<close>)

lemma session_inv: "I w \<Longrightarrow> I (session api deps calls w)"
  unfolding session_def by (induction calls arbitrary: w) (simp_all add: serve_inv)

end



end
