(* ===== verification/Receiver_Outcomes.thy ===== *)
theory Receiver_Outcomes
  imports Receiver_Safety
begin

text \<open>
  What a recovery ends in, for every answer of the mint: the outcome of the first swap, and the
  recovery of a delivery that stopped at any point.
\<close>

section \<open>Running a recovery\<close>

fun call_result :: "'r gateway_call \<Rightarrow> receiver_error + unit \<Rightarrow> receiver_error + 'r" where
  "call_result (Replies r) h = r"
| "call_result (Dispatches k) h = k h"

text \<open>A record with only the redemption counter changed.\<close>

definition same_progress :: "delivery_record \<Rightarrow> delivery_record \<Rightarrow> bool" where
  "same_progress r r' \<longleftrightarrow> (\<exists>k. r' = r\<lparr>dr_redemptionStarts := k\<rparr>)"

lemma same_progress_simps:
  assumes "same_progress r r'"
  shows "dr_phase r' = dr_phase r" "dr_receipt r' = dr_receipt r" "dr_plan r' = dr_plan r"
    "dr_replacementPlanHash r' = dr_replacementPlanHash r" "credit_of r' t = credit_of r t"
    "dr_proofClaimIds r' = dr_proofClaimIds r" "dr_requestId r' = dr_requestId r" "dr_deliveryId r' = dr_deliveryId r"
  using assms by (auto simp: same_progress_def credit_of_def)

lemma gateway_run:
  "gateway f hook w = (case fst (f (w_env w)) of
     Replies r \<Rightarrow> (r, w\<lparr>w_env := snd (f (w_env w))\<rparr>)
   | Dispatches k \<Rightarrow> let (h, w') = hook (w\<lparr>w_env := snd (f (w_env w))\<rparr>) in (k h, w'))"
  by (simp add: gateway_def andThen_def attempt_def on_env_def split_beta Let_def split: gateway_call.split)

definition start_hook :: "url_api \<Rightarrow> string \<Rightarrow> ('m, unit) action \<Rightarrow> bool" where
  "start_hook api d hook \<longleftrightarrow>
     (\<forall>w r. store_inv api (w_store w) \<longrightarrow> map_of (st_deliveries (w_store w)) d = Some r \<longrightarrow>
        dr_phase r \<noteq> Prepared \<longrightarrow> dr_phase r \<noteq> Phase_rejected \<longrightarrow> w_checkpoint w = None \<longrightarrow>
        hook w = (Inr (), w\<lparr>w_store := exec api (Record_redemption_start d) (w_store w)\<rparr>))"

lemma start_hooks:
  "start_hook api d (on_store (recordRedemptionStart d))"
  "start_hook api d (andThen (on_store (recordRedemptionStart d)) (\<lambda>_. checkpoint_hit b d))"
  unfolding start_hook_def
  by (auto simp: on_store_def recordRedemptionStart_succeeds andThen_def attempt_def checkpoint_hit_def)

lemma gateway_start:
  assumes "start_hook api d hook" and inv: "store_inv api (w_store w)"
    and r: "map_of (st_deliveries (w_store w)) d = Some r" "dr_phase r \<noteq> Prepared" "dr_phase r \<noteq> Phase_rejected"
    and ck: "w_checkpoint w = None"
  shows "\<exists>w' r'. gateway f hook w = (call_result (fst (f (w_env w))) (Inr ()), w') \<and>
    store_inv api (w_store w') \<and> map_of (st_deliveries (w_store w')) d = Some r' \<and> same_progress r r' \<and>
    w_checkpoint w' = None \<and> st_credits (w_store w') = st_credits (w_store w)"
proof (cases "fst (f (w_env w))")
  case (Replies x)
  then show ?thesis
    using inv r ck
    by (intro exI [of _ "w\<lparr>w_env := snd (f (w_env w))\<rparr>"] exI [of _ r])
      (auto simp: gateway_run same_progress_def intro: exI [of _ "dr_redemptionStarts r"])
next
  case (Dispatches k)
  let ?w = "w\<lparr>w_env := snd (f (w_env w))\<rparr>"
  let ?w' = "?w\<lparr>w_store := exec api (Record_redemption_start d) (w_store w)\<rparr>"
  have "hook ?w = (Inr (), ?w')"
    using assms by (auto simp: start_hook_def)
  moreover have "store_inv api (w_store ?w')"
    using exec_inv [OF inv, of "Record_redemption_start d"] by simp
  ultimately show ?thesis
    using Dispatches r ck recordRedemptionStart_succeeds [OF r]
    by (intro exI [of _ ?w'] exI [of _ "r\<lparr>dr_redemptionStarts := min (dr_redemptionStarts r + 1) 1000\<rparr>"])
      (auto simp: gateway_run same_progress_def)
qed

definition clock_ok :: "'m receiver_deps \<Rightarrow> bool" where
  "clock_ok deps \<longleftrightarrow> (\<forall>m. safe_nonneg (fst (rd_now deps m)))"

text \<open>Ends settled, with the credit of the delivery.\<close>

definition ends_settled :: "string \<Rightarrow> delivery_record \<Rightarrow> (receiver_error + delivery_receipt) \<times> 'm world \<Rightarrow> bool" where
  "ends_settled d r res \<longleftrightarrow> (\<exists>n w'. res = (Inr n, w') \<and> rc_status n = Settled \<and>
     (\<exists>t. map_of (st_credits (w_store w')) d = Some (credit_of r t)) \<and>
     (\<exists>r'. map_of (st_deliveries (w_store w')) d = Some r' \<and> dr_phase r' = Phase_settled \<and> dr_receipt r' = n))"

lemma settle_outputs_settles:
  assumes inv: "store_inv api (w_store w)" and r: "map_of (st_deliveries (w_store w)) d = Some r"
    and ph: "dr_phase r \<in> {Mint_sent, Recovery_blocked, Outputs_persisted}"
    and hash: "dr_replacementPlanHash r = None \<or> dr_replacementPlanHash r = Some h"
    and "w_checkpoint w = None" and "clock_ok deps" and "h \<noteq> []" and "ps \<noteq> []"
  shows "ends_settled d r (settle_outputs api deps d h ps w)"
proof -
  let ?m = "rd_now deps (w_env w)"
  let ?input = "\<lparr>cs_deliveryId = d, cs_replacementPlanHash = h, cs_replacementProofs = ps, cs_now = fst ?m\<rparr>"
  have "settle_outputs api deps d h ps w = on_store (settle api ?input) (w\<lparr>w_env := snd ?m\<rparr>)"
    using assms(5) by (simp add: settle_outputs_def andThen_def attempt_def on_env_def split_beta Let_def
        settleWithCheckpoints_def)
  then show ?thesis
    using settle_succeeds [OF inv, of ?input r] r ph hash assms(6-8)
    by (auto simp: clock_ok_def ends_settled_def on_store_def)
qed

lemma ends_settled_progress: "same_progress r r' \<Longrightarrow> ends_settled d r' res \<Longrightarrow> ends_settled d r res"
  by (simp add: ends_settled_def same_progress_simps(5))

lemma checkpoint_None: "w_checkpoint w = None \<Longrightarrow> checkpoint_hit b d w = (Inr (), w)"
  by (simp add: checkpoint_hit_def)

text \<open>The recovery of a delivery nobody else is recovering.\<close>

lemma recoverDelivery_unlocked:
  assumes "d \<notin> set (w_locks w)"
  shows "fst (recoverDelivery api deps d w) = fst (recoverLockedDelivery api deps d (w\<lparr>w_locks := d # w_locks w\<rparr>))"
    and "w_store (snd (recoverDelivery api deps d w)) =
      w_store (snd (recoverLockedDelivery api deps d (w\<lparr>w_locks := d # w_locks w\<rparr>)))"
proof -
  let ?w = "w\<lparr>w_locks := d # w_locks w\<rparr>"
  let ?free = "\<lambda>w'. w'\<lparr>w_locks := filter (\<lambda>x. x \<noteq> d) (w_locks w')\<rparr>"
  obtain x w' where run: "recoverLockedDelivery api deps d ?w = (x, w')"
    by (cases "recoverLockedDelivery api deps d ?w")
  have "withRedemptionLock d (recoverLockedDelivery api deps d) w = (map_sum id Some x, ?free w')"
    using assms run by (simp add: withRedemptionLock_def)
  then have "recoverDelivery api deps d w = (x, ?free w')"
    by (cases x) (simp_all add: recoverDelivery_def andThen_Inl andThen_Inr ret_def)
  then show "fst (recoverDelivery api deps d w) = fst (recoverLockedDelivery api deps d ?w)"
    and "w_store (snd (recoverDelivery api deps d w)) = w_store (snd (recoverLockedDelivery api deps d ?w))"
    by (simp_all add: run)
qed

lemma ends_settled_store:
  assumes "ends_settled d r res'" and "fst res = fst res'" and "w_store (snd res) = w_store (snd res')"
  shows "ends_settled d r res"
  using assms unfolding ends_settled_def by (metis prod.collapse fst_conv snd_conv)

lemma recoverLocked_live:
  assumes "map_of (st_deliveries (w_store w)) d = Some r"
    and "dr_phase r \<noteq> Phase_settled" and "dr_phase r \<noteq> Phase_rejected"
  shows "recoverLockedDelivery api deps d w = attempt (recover_guarded api deps d r) (\<lambda>rest. rest)
    (\<lambda>e. if rethrown e then throw e else on_store (blockRecovery api d)) w"
proof -
  have "on_store (current d) w = (Inr (Some r), w)"
    using assms(1) by (simp add: on_store_def current_def transaction_def)
  then show ?thesis
    using assms(2,3) by (simp add: recoverLockedDelivery_def andThen_Inr)
qed

section \<open>The first swap\<close>

text \<open>The record and world in which the swap is requested.\<close>

lemma guarded_prepared:
  assumes inv: "store_inv api (w_store w)" and r: "map_of (st_deliveries (w_store w)) d = Some r" "dr_phase r = Prepared"
    and ck: "w_checkpoint w = None"
  shows "\<exists>w' r' res. recoverLockedDelivery api deps d w =
      attempt (attempt (\<lambda>_. (call_result res (Inr ()), w'))
         (\<lambda>swapped. settle_outputs api deps d (sr_replacementPlanHash swapped) (sr_replacementProofs swapped))
         (\<lambda>e. if isMintGatewayError e \<and> \<not> mayHaveConsumedInputs e
              then on_store (reject api d ''mint_unavailable'' True) else throw e)) ret
       (\<lambda>e. if rethrown e then throw e else on_store (blockRecovery api d)) w \<and>
    res = fst (rd_swap deps (dr_plan r) (w_env w)) \<and> store_inv api (w_store w') \<and>
    map_of (st_deliveries (w_store w')) d = Some r' \<and> dr_phase r' = Mint_sent \<and>
    dr_proofClaimIds r' = dr_proofClaimIds r \<and> dr_requestId r' = dr_requestId r \<and> dr_deliveryId r' = dr_deliveryId r \<and>
    (\<forall>t. credit_of r' t = credit_of r t) \<and> w_checkpoint w' = None"
proof -
  let ?hook = "andThen (on_store (recordRedemptionStart d)) (\<lambda>_.
      checkpoint_hit Receiver_after_mint_request_before_response d)"
  obtain n where mark: "markMintSent api d (w_store w) =
      (Inr n, set_delivery d (r\<lparr>dr_phase := Mint_sent, dr_receipt := n\<rparr>) (w_store w))"
    and n: "nextReceipt api (dr_receipt r) Processing ''redeeming'' = Inr n"
    using markMintSent_succeeds [OF inv r] by blast
  let ?r1 = "r\<lparr>dr_phase := Mint_sent, dr_receipt := n\<rparr>"
  let ?w1 = "w\<lparr>w_store := set_delivery d ?r1 (w_store w)\<rparr>"
  let ?w2 = "?w1\<lparr>w_calls := w_calls w @ [Call_swap d]\<rparr>"
  have "store_inv api (w_store ?w2)"
    using exec_inv [OF inv, of "Mark_mint_sent d"] by (simp add: mark)
  then obtain w' r' where w': "gateway (rd_swap deps (dr_plan r)) ?hook ?w2 =
      (call_result (fst (rd_swap deps (dr_plan r) (w_env w))) (Inr ()), w')"
    "store_inv api (w_store w')" "map_of (st_deliveries (w_store w')) d = Some r'" "same_progress ?r1 r'"
    "w_checkpoint w' = None"
    using gateway_start [OF start_hooks(2), of api ?w2 d ?r1
        "rd_swap deps (dr_plan r)" Receiver_after_mint_request_before_response] ck by auto
  let ?cont = "\<lambda>swapped. settle_outputs api deps d (sr_replacementPlanHash swapped) (sr_replacementProofs swapped)"
  let ?err = "\<lambda>e. if isMintGatewayError e \<and> \<not> mayHaveConsumedInputs e
              then on_store (reject api d ''mint_unavailable'' True) else throw e"
  let ?reply = "call_result (fst (rd_swap deps (dr_plan r) (w_env w))) (Inr ())"
  have "swapAndSettle api deps d (dr_plan r) ?w1 = attempt (gateway (rd_swap deps (dr_plan r)) ?hook) ?cont ?err ?w2"
    by (simp add: swapAndSettle_def attempt_note)
  also have "... = attempt (\<lambda>_. (?reply, w')) ?cont ?err w"
    using w'(1) by (simp add: attempt_def)
  finally have swap: "swapAndSettle api deps d (dr_plan r) ?w1 = attempt (\<lambda>_. (?reply, w')) ?cont ?err w" .
  have "on_store (markMintSent api d) w = (Inr n, ?w1)"
    using mark by (rule on_store_eq)
  then have "recover_guarded api deps d r w =
      andThen (swapAndSettle api deps d (dr_plan r)) (\<lambda>receipt. ret (ret receipt)) ?w1"
    using r(2) ck by (simp add: recover_guarded_def andThen_Inr checkpoint_None)
  then have "recoverLockedDelivery api deps d w = attempt (attempt (\<lambda>_. (?reply, w')) ?cont ?err) ret
       (\<lambda>e. if rethrown e then throw e else on_store (blockRecovery api d)) w"
    using r swap
    by (simp add: recoverLocked_live attempt_def [of "recover_guarded api deps d r"] andThen_def)
      (simp add: attempt_def ret_def throw_def split: prod.split sum.split)
  moreover have "credit_of r' t = credit_of r t" for t
    using w'(4) nextReceipt_ok(5) [OF n] by (auto simp: same_progress_def credit_of_def sameIdentity_def)
  ultimately show ?thesis
    using w'(2-5) same_progress_simps [OF w'(4)] by auto
qed

lemma lock_world [simp]:
  "w_store (w\<lparr>w_locks := l\<rparr>) = w_store w" "w_checkpoint (w\<lparr>w_locks := l\<rparr>) = w_checkpoint w"
  "w_env (w\<lparr>w_locks := l\<rparr>) = w_env w"
  by simp_all

lemma prepared_settles:
  assumes "store_inv api (w_store w)" and "map_of (st_deliveries (w_store w)) d = Some r" and "dr_phase r = Prepared"
    and "w_checkpoint w = None" and "clock_ok deps"
    and "call_result (fst (rd_swap deps (dr_plan r) (w_env w))) (Inr ()) = Inr res"
    and "sr_replacementPlanHash res \<noteq> []" and "sr_replacementProofs res \<noteq> []"
  shows "ends_settled d r (recoverLockedDelivery api deps d w)"
proof -
  obtain w' r' where run: "recoverLockedDelivery api deps d w =
      attempt (settle_outputs api deps d (sr_replacementPlanHash res) (sr_replacementProofs res)) ret
       (\<lambda>e. if rethrown e then throw e else on_store (blockRecovery api d)) w'"
    and inv: "store_inv api (w_store w')" "map_of (st_deliveries (w_store w')) d = Some r'" "dr_phase r' = Mint_sent"
    and cr: "\<forall>t. credit_of r' t = credit_of r t" and ck: "w_checkpoint w' = None"
    using guarded_prepared [OF assms(1-4), of deps] assms(6) by (auto simp: attempt_def)
  have "dr_replacementPlanHash r' = None"
    using delivery_record_ok [OF inv(1,2)] inv(3) by (simp add: record_ok_def outputs_ok_def)
  then have "ends_settled d r' (settle_outputs api deps d (sr_replacementPlanHash res) (sr_replacementProofs res) w')"
    using settle_outputs_settles [OF inv(1,2)] inv(3) ck assms(5,7,8) by simp
  then show ?thesis
    unfolding run ends_settled_def using cr by (auto simp: attempt_def ret_def)
qed

lemma restored_settles:
  assumes inv: "store_inv api (w_store w)" and r: "map_of (st_deliveries (w_store w)) d = Some r"
    and ph: "dr_phase r = Mint_sent \<or> dr_phase r = Recovery_blocked"
    and ck: "w_checkpoint w = None" and "clock_ok deps"
    and ans: "call_result (fst (rd_restore deps (dr_plan r) (w_env w))) (Inr ()) = Inr (Recovered res)"
    and "sr_replacementPlanHash res \<noteq> []" and "sr_replacementProofs res \<noteq> []"
  shows "ends_settled d r (recoverLockedDelivery api deps d w)"
proof -
  let ?w1 = "w\<lparr>w_calls := w_calls w @ [Call_restore d]\<rparr>"
  have note1: "note_call (Call_restore d) w = (Inr (), ?w1)"
    by (simp add: note_call_def)
  obtain w' r' where w': "gateway (rd_restore deps (dr_plan r)) (on_store (recordRedemptionStart d)) ?w1 =
      (Inr (Recovered res), w')"
    "store_inv api (w_store w')" "map_of (st_deliveries (w_store w')) d = Some r'" "same_progress r r'"
    "w_checkpoint w' = None"
    using gateway_start [OF start_hooks(1), of api ?w1 d r "rd_restore deps (dr_plan r)"] assms by auto
  have "dr_replacementPlanHash r' = None"
    using delivery_record_ok [OF w'(2,3)] ph same_progress_simps [OF w'(4)]
    by (auto simp: record_ok_def outputs_ok_def)
  then have "ends_settled d r' (settle_outputs api deps d (sr_replacementPlanHash res) (sr_replacementProofs res) w')"
    using settle_outputs_settles [OF w'(2,3)] same_progress_simps [OF w'(4)] ph w'(5) assms(5,7,8) by auto
  moreover have "recover_guarded api deps d r w =
      (Inr (settle_outputs api deps d (sr_replacementPlanHash res) (sr_replacementProofs res)), w')"
    using ph note1 w'(1) by (auto simp: recover_guarded_def andThen_Inr ret_def)
  then have "recoverLockedDelivery api deps d w =
      settle_outputs api deps d (sr_replacementPlanHash res) (sr_replacementProofs res) w'"
    using r ph by (subst recoverLocked_live) (auto simp: attempt_Inr)
  ultimately show ?thesis
    using ends_settled_progress [OF w'(4)] by simp
qed

lemma stored_settles:
  assumes inv: "store_inv api (w_store w)" and r: "map_of (st_deliveries (w_store w)) d = Some r"
    and ph: "dr_phase r = Outputs_persisted \<or> dr_phase r = Credited \<or> dr_phase r = Phase_settled"
    and ck: "w_checkpoint w = None" and "clock_ok deps"
  shows "ends_settled d r (recoverLockedDelivery api deps d w)"
proof -
  note di = store_inv_delivery [OF inv r]
  consider "dr_phase r = Outputs_persisted" | "dr_phase r = Credited" | "dr_phase r = Phase_settled"
    using ph by blast
  then show ?thesis
  proof cases
    case 1
    then obtain h ps where o: "dr_replacementPlanHash r = Some h" "h \<noteq> []" "dr_replacementProofs r = Some ps" "ps \<noteq> []"
      using di by (auto simp: delivery_inv_def record_ok_def outputs_ok_def)
    then have "recoverLockedDelivery api deps d w = settle_outputs api deps d h ps w"
      using r 1 by (subst recoverLocked_live) (auto simp: attempt_def recover_guarded_def ret_def)
    then show ?thesis
      using settle_outputs_settles [OF inv r] 1 o ck assms(5) by simp
  next
    case 2
    obtain n where n: "finalizeSettlement api d (w_store w) =
        (Inr n, set_delivery d (r\<lparr>dr_phase := Phase_settled, dr_receipt := n\<rparr>) (w_store w))" "rc_status n = Settled"
      using finalizeSettlement_succeeds [OF inv r 2] by blast
    have "recoverLockedDelivery api deps d w =
        (Inr n, w\<lparr>w_store := set_delivery d (r\<lparr>dr_phase := Phase_settled, dr_receipt := n\<rparr>) (w_store w)\<rparr>)"
      using r 2 ck on_store_eq [of "finalizeSettlement api d", OF n(1)]
      by (subst recoverLocked_live) (auto simp: attempt_def recover_guarded_def andThen_Inr checkpoint_None ret_def)
    then show ?thesis
      using n(2) di 2 by (auto simp: ends_settled_def delivery_inv_def has_credit_def)
  next
    case 3
    have "on_store (current d) w = (Inr (Some r), w)"
      using r by (simp add: on_store_def current_def transaction_def)
    then have "recoverLockedDelivery api deps d w = (Inr (dr_receipt r), w)"
      using 3 by (simp add: recoverLockedDelivery_def andThen_Inr ret_def)
    then show ?thesis
      using di 3 r by (auto simp: ends_settled_def delivery_inv_def has_credit_def record_ok_def)
  qed
qed

section \<open>Properties\<close>

text \<open>The mint completes the swap of a plan, or can give its outputs back.\<close>

definition mint_completes :: "'m receiver_deps \<Rightarrow> exact_swap_plan \<Rightarrow> 'm \<Rightarrow> bool" where
  "mint_completes deps plan m \<longleftrightarrow> (\<exists>res.
     call_result (fst (rd_swap deps plan m)) (Inr ()) = Inr res \<and>
     call_result (fst (rd_restore deps plan m)) (Inr ()) = Inr (Recovered res) \<and>
     sr_replacementPlanHash res \<noteq> [] \<and> sr_replacementProofs res \<noteq> [])"


text \<open>
  C10: What a failed first swap leads to depends only on whether the mint may have consumed the inputs.
  When the gateway knows it did not, the delivery is rejected with the detail mint_unavailable and its
  proof claims and reservation are released, so the payer can use the proofs again. After any other
  failure, short of a crash or a domain error, the delivery is blocked for recovery, is not rejected,
  and keeps its claims.
\<close>

theorem failed_swap_outcome:
  assumes "w_store w = run api ops emptyState" and r: "map_of (st_deliveries (w_store w)) d = Some r"
    and ph: "dr_phase r = Prepared" and free: "d \<notin> set (w_locks w)" and ck: "w_checkpoint w = None"
    and fail: "call_result (fst (rd_swap deps (dr_plan r) (w_env w))) (Inr ()) = Inl e"
    and e: "\<not> rethrown e"
  shows "\<exists>n. fst (recoverDelivery api deps d w) = Inr n \<and>
    (if isMintGatewayError e \<and> \<not> mayHaveConsumedInputs e
     then rc_status n = Rejected \<and> rc_detailCode n = ''mint_unavailable'' \<and>
       map_of (st_requestReservations (w_store (snd (recoverDelivery api deps d w)))) (dr_requestId r) \<noteq> Some d \<and>
       list_all (\<lambda>c. map_of (st_proofClaims (w_store (snd (recoverDelivery api deps d w)))) c \<noteq> Some d)
         (dr_proofClaimIds r)
     else rc_status n = Processing \<and> rc_detailCode n = ''recovery_blocked'' \<and>
       list_all (\<lambda>c. map_of (st_proofClaims (w_store (snd (recoverDelivery api deps d w)))) c = Some d)
         (dr_proofClaimIds r))"
proof -
  let ?w = "w\<lparr>w_locks := d # w_locks w\<rparr>"
  have inv: "store_inv api (w_store ?w)"
    using assms(1) run_empty_inv by simp
  let ?err = "\<lambda>e. if isMintGatewayError e \<and> \<not> mayHaveConsumedInputs e
      then on_store (reject api d ''mint_unavailable'' True) else throw e"
  obtain w' r' where run: "recoverLockedDelivery api deps d ?w =
      attempt (?err e) ret (\<lambda>e. if rethrown e then throw e else on_store (blockRecovery api d)) w'"
    and inv': "store_inv api (w_store w')" and r': "map_of (st_deliveries (w_store w')) d = Some r'"
    and ph': "dr_phase r' = Mint_sent" and same: "dr_proofClaimIds r' = dr_proofClaimIds r" "dr_requestId r' = dr_requestId r"
    using guarded_prepared [OF inv, of d r deps] r ph ck fail by (auto simp: attempt_def)
  note res = recoverDelivery_unlocked [OF free, of api deps]
  show ?thesis
  proof (cases "isMintGatewayError e \<and> \<not> mayHaveConsumedInputs e")
    case True
    obtain n where n: "reject api d ''mint_unavailable'' True (w_store w') =
        (Inr n, release_claims r' d (set_delivery d (r'\<lparr>dr_phase := Phase_rejected, dr_receipt := n\<rparr>) (w_store w')))"
      "nextReceipt api (dr_receipt r') Rejected ''mint_unavailable'' = Inr n"
      using reject_succeeds [OF inv' r' _ known_details(4)] ph' by blast
    have "recoverLockedDelivery api deps d ?w =
        (Inr n, w'\<lparr>w_store := snd (reject api d ''mint_unavailable'' True (w_store w'))\<rparr>)"
      using True n(1) by (simp add: run attempt_def on_store_def ret_def)
    then show ?thesis
      using True n(1) nextReceipt_ok [OF n(2)] res
      by (auto simp: release_claims_def same list_all_iff)
  next
    case False
    obtain n where n: "blockRecovery api d (w_store w') =
        (Inr n, set_delivery d (r'\<lparr>dr_phase := Recovery_blocked, dr_receipt := n\<rparr>) (w_store w'))"
      "nextReceipt api (dr_receipt r') Processing ''recovery_blocked'' = Inr n"
      using blockRecovery_succeeds [OF inv' r'] ph' by blast
    have "recoverLockedDelivery api deps d ?w =
        (Inr n, w'\<lparr>w_store := snd (blockRecovery api d (w_store w'))\<rparr>)"
      using False e n(1) by (auto simp: run attempt_def throw_def on_store_def)
    then show ?thesis
      using False n(1) nextReceipt_ok [OF n(2)] res store_inv_delivery [OF inv' r'] ph'
      by (auto simp: same list_all_iff delivery_inv_def holds_claims_def)
  qed
qed


section \<open>A receiver for concrete examples\<close>

definition demo_result :: swap_result where
  "demo_result = \<lparr>sr_replacementPlanHash = ''h'', sr_replacementProofs = [''r'']\<rparr>"

definition demo_deps :: "receiver_error option \<Rightarrow> unit receiver_deps" where
  "demo_deps failure = \<lparr>rd_now = (\<lambda>m. (1001, m)),
     rd_inspect = (\<lambda>p m. (Inr \<lparr>ip_ys = [''y''], ip_proofClaimIds = [''c1''], ip_proofSetHash = ''p'', ip_netAmount = 8\<rparr>, m)),
     rd_prepareSwap = (\<lambda>p m. (Inr (demo_plan (sp_deliveryId p)), m)),
     rd_swap = (\<lambda>p m. (Dispatches (\<lambda>h. case h of Inl e \<Rightarrow> Inl e
       | Inr _ \<Rightarrow> (case failure of None \<Rightarrow> Inr demo_result | Some e \<Rightarrow> Inl e)), m)),
     rd_restore = (\<lambda>p m. (Replies (Inr (Recovered demo_result)), m)),
     rd_proofStates = (\<lambda>p m. (Inr [SPENT], m))\<rparr>"

definition demo_world :: "store_op list \<Rightarrow> unit world" where
  "demo_world ops = \<lparr>w_store = run demo_url_api ops emptyState, w_locks = [], w_checkpoint = None,
     w_env = (), w_calls = []\<rparr>"

lemma demo_mint_completes: "mint_completes (demo_deps None) plan m" "clock_ok (demo_deps failure)"
  by (auto simp: mint_completes_def demo_deps_def demo_result_def clock_ok_def safe_nonneg_def safe_int_def
      max_safe_integer_def)

definition demo_admitted :: "store_op list" where
  "demo_admitted = [Create_request (demo_request True), Prepare (demo_prepare demo_id ''c1'')]"

lemma demo_admitted_state:
  "map_option (\<lambda>r. (dr_phase r, dr_proofClaimIds r))
     (map_of (st_deliveries (run demo_url_api demo_admitted emptyState)) demo_id) = Some (Prepared, [''c1''])"
  by code_simp

lemma demo_stopped_state:
  "map_option dr_phase (map_of (st_deliveries (run demo_url_api (demo_admitted @ [Mark_mint_sent demo_id,
     Block_recovery demo_id]) emptyState)) demo_id) = Some Recovery_blocked"
  by code_simp


theorem failed_swap_outcome_witness:
  "\<exists>n. fst (recoverDelivery demo_url_api (demo_deps (Some (MintGatewayError ''MINT_HTTP_400'' False))) demo_id
     (demo_world demo_admitted)) = Inr n \<and> rc_status n = Rejected"
proof -
  let ?deps = "demo_deps (Some (MintGatewayError ''MINT_HTTP_400'' False))"
  obtain r where "map_of (st_deliveries (run demo_url_api demo_admitted emptyState)) demo_id = Some r"
    "dr_phase r = Prepared"
    using demo_admitted_state by auto
  then show ?thesis
    using failed_swap_outcome [of "demo_world demo_admitted" demo_url_api demo_admitted demo_id r ?deps
        "MintGatewayError ''MINT_HTTP_400'' False"]
    by (auto simp: demo_world_def demo_deps_def)
qed


end
