(* ===== verification/Retry.thy ===== *)
theory Retry
  imports Complex_Main Fingerprint
begin

text \<open>
  \<open>apps/reference-sender/src/retry.ts\<close>: the delay before a retry, and the reproducible source of its
  jitter.

  A random sample is a real number, or nothing for a value that is not finite. The product of the
  delay bound and the sample is taken exactly; with the default cap of 30000 ms and samples of 32 bits
  the double product is exact too. The digest is the platform's SHA-256, given as its hexadecimal text.
\<close>

definition retryDelay :: "jsnum \<Rightarrow> real option \<Rightarrow> jsnum option \<Rightarrow> jsnum option \<Rightarrow> string + int" where
  "retryDelay attempt sample base0 cap0 =
     (let base = (case base0 of None \<Rightarrow> JInt 250 | Some b \<Rightarrow> b);
          cap = (case cap0 of None \<Rightarrow> JInt 30000 | Some c \<Rightarrow> c) in
      case attempt of
        JNonInt _ \<Rightarrow> Inl ''Retry attempt must be a nonnegative safe integer''
      | JInt n \<Rightarrow>
          if \<not> safe_int n \<or> n < 0 then Inl ''Retry attempt must be a nonnegative safe integer''
          else case (base, cap) of
            (JInt b, JInt c) \<Rightarrow>
              if \<not> safe_int b \<or> b < 1 \<or> \<not> safe_int c \<or> c < 1
              then Inl ''Retry bounds must be positive safe integers''
              else (case sample of
                None \<Rightarrow> Inl ''Retry random sample must be between zero and one''
              | Some x \<Rightarrow>
                  if x < 0 \<or> x > 1 then Inl ''Retry random sample must be between zero and one''
                  else Inr \<lfloor>of_int (min c (b * 2 ^ nat (min n 30))) * x\<rfloor>)
          | _ \<Rightarrow> Inl ''Retry bounds must be positive safe integers'')"

section \<open>Seeded samples\<close>

definition hex_digit :: "char \<Rightarrow> nat" where
  "hex_digit c = (case index_of [c] lower_hex of Some i \<Rightarrow> i | None \<Rightarrow> 0)"

definition hex_value :: "string \<Rightarrow> nat" where
  "hex_value s = foldl (\<lambda>v c. v * 16 + hex_digit c) 0 s"

definition seed_prefix :: string where
  "seed_prefix = ''cashu-fault-lab/retry-v1'' @ [CHR 0x00]"

text \<open>The sample drawn when the counter stands at \<open>n\<close>: the first four bytes of the digest.\<close>

definition seeded_sample :: "platform \<Rightarrow> string \<Rightarrow> nat \<Rightarrow> real" where
  "seeded_sample pf seed n =
     of_nat (hex_value (take 8 (pf_sha256 pf
       (pf_utf8_encode pf (seed_prefix @ seed @ [CHR 0x00] @ decimal_text n))))) / 4294967296"

definition createSeededRandom :: "string \<Rightarrow> string + unit" where
  "createSeededRandom seed = ensure (seed \<noteq> []) ''Retry seed is required''"

section \<open>Properties\<close>

lemma index_of_less: "index_of [c] s = Some i \<Longrightarrow> i < length s"
  by (induction s arbitrary: i) (auto split: if_splits)

lemma hex_digit_less: "hex_digit c < 16"
  using index_of_less [of c lower_hex] by (auto simp: hex_digit_def lower_hex_def split: option.split)

lemma hex_value_less: "hex_value s < 16 ^ length s"
proof (induction s rule: rev_induct)
  case Nil
  then show ?case by (simp add: hex_value_def)
next
  case (snoc c s)
  have "hex_value (s @ [c]) = hex_value s * 16 + hex_digit c"
    by (simp add: hex_value_def)
  also have "... < (hex_value s + 1) * 16"
    using hex_digit_less [of c] by simp
  also have "... \<le> 16 ^ length (s @ [c])"
    using snoc by (simp add: Suc_leI)
  finally show ?case .
qed

lemma seeded_sample_range: "0 \<le> seeded_sample pf seed n" "seeded_sample pf seed n < 1"
proof -
  let ?s = "take 8 (pf_sha256 pf (pf_utf8_encode pf (seed_prefix @ seed @ [CHR 0x00] @ decimal_text n)))"
  have "hex_value ?s < 16 ^ length ?s"
    by (rule hex_value_less)
  also have "... \<le> (16::nat) ^ 8"
    by (intro power_increasing) simp_all
  finally show "seeded_sample pf seed n < 1"
    by (simp add: seeded_sample_def)
  show "0 \<le> seeded_sample pf seed n"
    by (simp add: seeded_sample_def)
qed

lemma retryDelay_Inr:
  "retryDelay (JInt n) (Some x) (Some (JInt b)) (Some (JInt c)) = Inr t \<longleftrightarrow>
     safe_nonneg n \<and> safe_int b \<and> 1 \<le> b \<and> safe_int c \<and> 1 \<le> c \<and> 0 \<le> x \<and> x \<le> 1 \<and>
     t = \<lfloor>of_int (min c (b * 2 ^ nat (min n 30))) * x\<rfloor>"
  by (auto simp: retryDelay_def Let_def safe_nonneg_def)

lemma floor_scaled: "0 \<le> m \<Longrightarrow> 0 \<le> x \<Longrightarrow> x \<le> 1 \<Longrightarrow> 0 \<le> \<lfloor>of_int m * x\<rfloor> \<and> \<lfloor>of_int m * (x::real)\<rfloor> \<le> m"
  using floor_mono [of "of_int m * x" "of_int m"] by (simp add: mult_left_le)

text \<open>
  A delay that is returned is never negative and never above the cap nor above the base doubled
  once per attempt (thirty doublings at most).
\<close>

theorem retryDelay_bounds:
  assumes "retryDelay (JInt n) (Some x) (Some (JInt b)) (Some (JInt c)) = Inr t"
  shows "0 \<le> t \<and> t \<le> c \<and> t \<le> b * 2 ^ nat (min n 30)"
proof -
  let ?m = "min c (b * 2 ^ nat (min n 30))"
  from assms have a: "1 \<le> b" "1 \<le> c" "0 \<le> x" "x \<le> 1" "t = \<lfloor>of_int ?m * x\<rfloor>"
    by (auto simp: retryDelay_Inr)
  then have "0 \<le> ?m" by simp
  from floor_scaled [OF this a(3,4)] a(5) show ?thesis by linarith
qed

lemma retryDelay_seeded:
  assumes "safe_nonneg n"
  shows "\<exists>t. retryDelay (JInt n) (Some (seeded_sample pf seed k)) None None = Inr t"
  using assms seeded_sample_range [of pf seed k]
  by (auto simp: retryDelay_def Let_def safe_nonneg_def safe_int_def max_safe_integer_def)

theorem retryDelay_bounds_witness:
  "retryDelay (JInt 3) (Some (1 / 2)) (Some (JInt 250)) (Some (JInt 30000)) = Inr 1000 \<and> (1000::int) \<le> 250 * 2 ^ nat (min 3 30)"
proof -
  have "retryDelay (JInt 3) (Some (1 / 2)) (Some (JInt 250)) (Some (JInt 30000)) = Inr 1000"
    by (simp add: retryDelay_Inr safe_nonneg_def safe_int_def max_safe_integer_def)
  with retryDelay_bounds [OF this] show ?thesis by simp
qed

end
