(* ===== verification/Amounts.thy ===== *)
theory Amounts
  imports Delivery_Errors "HOL-Library.Multiset"
begin

text \<open>
  \<open>packages/delivery-core/src/amount.ts\<close>: input fees in parts per thousand, net amounts and the exact
  amount check. The fee table is a \<open>Map\<close> from keyset to number. Running sums are kept in \<open>int\<close>: the
  code tests each with \<open>isSafeInteger\<close> before it goes on, and for a safe sum \<open>Math.floor(s / 1000)\<close>
  is exact (the quotient of a safe integer by 1000 is at least 0.001 away from any other integer,
  which is more than half the distance of two doubles of that size), so it is \<open>s div 1000\<close>.
\<close>

record amount_proof =
  ap_amount :: jsnum
  ap_id :: string

type_synonym fee_table = "string \<rightharpoonup> jsnum"

definition assertNonnegativeSafeInteger :: "jsnum \<Rightarrow> delivery_error + int" where
  "assertNonnegativeSafeInteger v =
     (case v of
        JInt i \<Rightarrow> if \<not> safe_int i \<or> i < 0 then Inl INVALID_AMOUNT else Inr i
      | JNonInt _ \<Rightarrow> Inl INVALID_AMOUNT)"

text \<open>The body of the loop of \<open>computeInputFee\<close>.\<close>

definition fee_step :: "fee_table \<Rightarrow> int \<Rightarrow> amount_proof \<Rightarrow> delivery_error + int" where
  "fee_step fees sumPpk p =
     (case fees (ap_id p) of
        None \<Rightarrow> Inl UNKNOWN_KEYSET
      | Some feePpk \<Rightarrow>
          rbind (assertNonnegativeSafeInteger feePpk) (\<lambda>f.
            if \<not> safe_int (sumPpk + f) then Inl INVALID_AMOUNT else Inr (sumPpk + f)))"

definition computeInputFee :: "amount_proof list \<Rightarrow> fee_table \<Rightarrow> delivery_error + int" where
  "computeInputFee proofs fees =
     rbind (rfold (fee_step fees) 0 proofs) (\<lambda>sumPpk.
       Inr (sumPpk div 1000 + (if sumPpk mod 1000 = 0 then 0 else 1)))"

definition gross_step :: "int \<Rightarrow> amount_proof \<Rightarrow> delivery_error + int" where
  "gross_step gross p =
     rbind (assertNonnegativeSafeInteger (ap_amount p)) (\<lambda>a.
       if \<not> safe_int (gross + a) then Inl INVALID_AMOUNT else Inr (gross + a))"

definition computeNetAmount :: "amount_proof list \<Rightarrow> fee_table \<Rightarrow> delivery_error + int" where
  "computeNetAmount proofs fees =
     rbind (rfold gross_step 0 proofs) (\<lambda>gross.
     rbind (computeInputFee proofs fees) (\<lambda>fee.
       let net = gross - fee in
       if \<not> safe_int net \<or> net < 0 then Inl INVALID_AMOUNT else Inr net))"

definition assertExactRequestedAmount :: "jsnum \<Rightarrow> jsnum \<Rightarrow> delivery_error + unit" where
  "assertExactRequestedAmount actual requested =
     rbind (assertNonnegativeSafeInteger actual) (\<lambda>a.
     rbind (assertNonnegativeSafeInteger requested) (\<lambda>r.
       if a \<noteq> r then Inl AMOUNT_MISMATCH else Inr ()))"

section \<open>Sums with a safety test at every step\<close>

lemma assertNonneg_ok [result_simps]:
  "assertNonnegativeSafeInteger v = Inr i \<longleftrightarrow> v = JInt i \<and> safe_nonneg i"
  by (cases v) (auto simp: assertNonnegativeSafeInteger_def safe_nonneg_def)

text \<open>
  A running sum of nonnegative terms whose every prefix is tested is safe throughout exactly when
  the total is: the shape of both loops.
\<close>

lemma checked_sum_iff:
  assumes step: "\<And>s x t. f s x = Inr t \<longleftrightarrow> (\<exists>a. val x = Some a \<and> 0 \<le> a \<and> t = s + a \<and> safe_int t)"
    and "0 \<le> s" and "safe_int s"
  shows "rfold f s xs = Inr t \<longleftrightarrow>
    (\<forall>x\<in>set xs. \<exists>a. val x = Some a \<and> 0 \<le> a) \<and> t = s + (\<Sum>x\<leftarrow>xs. the (val x)) \<and> safe_int t"
  using assms(2,3)
proof (induction xs arbitrary: s)
  case Nil
  then show ?case by auto
next
  case (Cons x xs)
  show ?case
  proof (cases "\<exists>a. val x = Some a \<and> 0 \<le> a")
    case True
    then obtain a where a: "val x = Some a" "0 \<le> a" by blast
    have sum0: "0 \<le> (\<Sum>x\<leftarrow>xs. the (val x))" if "\<forall>x\<in>set xs. \<exists>a. val x = Some a \<and> 0 \<le> a"
      using that by (intro sum_list_nonneg) fastforce
    have "rfold f s (x # xs) = Inr t \<longleftrightarrow> safe_int (s + a) \<and> rfold f (s + a) xs = Inr t"
      using a by (auto simp: rbind_eq_Inr step)
    also have "\<dots> \<longleftrightarrow> safe_int (s + a) \<and> (\<forall>x\<in>set xs. \<exists>a. val x = Some a \<and> 0 \<le> a) \<and>
        t = (s + a) + (\<Sum>x\<leftarrow>xs. the (val x)) \<and> safe_int t"
      using Cons.IH [of "s + a"] Cons.prems a by auto
    finally show ?thesis
      using a sum0 Cons.prems by (auto simp: safe_int_def)
  next
    case False
    then show ?thesis by (auto simp: rbind_eq_Inr step)
  qed
qed

text \<open>What a proof contributes: its amount, and its keyset's fee.\<close>

definition num_val :: "jsnum \<Rightarrow> int option" where
  "num_val v = (case v of JInt i \<Rightarrow> if safe_nonneg i then Some i else None | JNonInt _ \<Rightarrow> None)"

definition proof_amount :: "amount_proof \<Rightarrow> int option" where
  "proof_amount p = num_val (ap_amount p)"

definition proof_fee :: "fee_table \<Rightarrow> amount_proof \<Rightarrow> int option" where
  "proof_fee fees p = (case fees (ap_id p) of None \<Rightarrow> None | Some f \<Rightarrow> num_val f)"

lemma num_val_nonneg: "num_val v = Some i \<Longrightarrow> 0 \<le> i"
  by (auto simp: num_val_def safe_nonneg_def split: jsnum.splits if_splits)

lemma fee_step_iff:
  "fee_step fees s p = Inr t \<longleftrightarrow> (\<exists>a. proof_fee fees p = Some a \<and> 0 \<le> a \<and> t = s + a \<and> safe_int t)"
  by (auto simp: fee_step_def proof_fee_def num_val_def safe_nonneg_def result_simps
      split: option.splits jsnum.splits if_splits)

lemma gross_step_iff:
  "gross_step s p = Inr t \<longleftrightarrow> (\<exists>a. proof_amount p = Some a \<and> 0 \<le> a \<and> t = s + a \<and> safe_int t)"
  by (auto simp: gross_step_def proof_amount_def num_val_def safe_nonneg_def result_simps
      split: jsnum.splits if_splits)

lemma ceil_thousand:
  fixes s :: int
  shows "s div 1000 + (if s mod 1000 = 0 then 0 else 1) = (s + 999) div 1000"
proof -
  define r where "r = s mod 1000"
  have r: "0 \<le> r" "r < 1000" by (simp_all add: r_def)
  have "(s + 999) div 1000 = (1000 * (s div 1000) + (r + 999)) div 1000"
    by (simp add: r_def)
  also have "\<dots> = s div 1000 + (r + 999) div 1000"
    by simp
  also have "(r + 999) div 1000 = (if r = 0 then 0 else 1)"
  proof (cases "r = 0")
    case False
    have "(r + 999) div 1000 = ((r - 1) + 1000) div 1000" by simp
    also have "\<dots> = (r - 1) div 1000 + 1" by (subst div_add_self2) simp_all
    also have "(r - 1) div 1000 = 0" using r False by (intro div_pos_pos_trivial) simp_all
    finally show ?thesis using False by simp
  qed simp
  finally show ?thesis by (simp add: r_def)
qed

lemma safe_zero [simp]: "safe_int 0"
  by (simp add: safe_int_def max_safe_integer_def)

definition fee_sum :: "fee_table \<Rightarrow> amount_proof list \<Rightarrow> int" where
  "fee_sum fees ps = (\<Sum>p\<leftarrow>ps. the (proof_fee fees p))"

definition amount_sum :: "amount_proof list \<Rightarrow> int" where
  "amount_sum ps = (\<Sum>p\<leftarrow>ps. the (proof_amount p))"

lemma Ex_nonneg_val [simp]:
  "(\<exists>a. proof_fee fees p = Some a \<and> 0 \<le> a) \<longleftrightarrow> proof_fee fees p \<noteq> None"
  "(\<exists>a. proof_amount p = Some a \<and> 0 \<le> a) \<longleftrightarrow> proof_amount p \<noteq> None"
  by (auto simp: proof_fee_def proof_amount_def dest: num_val_nonneg split: option.splits)

lemma fee_loop: "rfold (fee_step fees) 0 ps = Inr s \<longleftrightarrow>
    (\<forall>p\<in>set ps. proof_fee fees p \<noteq> None) \<and> s = fee_sum fees ps \<and> safe_int s"
  using checked_sum_iff [OF fee_step_iff, where s = 0 and xs = ps and t = s] by (simp add: fee_sum_def)

lemma gross_loop: "rfold gross_step 0 ps = Inr s \<longleftrightarrow>
    (\<forall>p\<in>set ps. proof_amount p \<noteq> None) \<and> s = amount_sum ps \<and> safe_int s"
  using checked_sum_iff [OF gross_step_iff, where s = 0 and xs = ps and t = s] by (simp add: amount_sum_def)

lemma computeInputFee_iff:
  "computeInputFee ps fees = Inr fee \<longleftrightarrow>
     (\<forall>p\<in>set ps. proof_fee fees p \<noteq> None) \<and> safe_int (fee_sum fees ps) \<and>
     fee = (fee_sum fees ps + 999) div 1000"
  by (auto simp: computeInputFee_def rbind_eq_Inr fee_loop ceil_thousand)

lemma fee_sum_nonneg: "0 \<le> fee_sum fees ps" if "\<forall>p\<in>set ps. proof_fee fees p \<noteq> None"
  using that unfolding fee_sum_def
  by (intro sum_list_nonneg) (fastforce simp: proof_fee_def dest: num_val_nonneg split: option.splits)

lemma computeNetAmount_spec:
  "computeNetAmount ps fees = Inr net \<longleftrightarrow>
     (\<forall>p\<in>set ps. proof_amount p \<noteq> None \<and> proof_fee fees p \<noteq> None) \<and>
     safe_int (amount_sum ps) \<and> safe_int (fee_sum fees ps) \<and>
     net = amount_sum ps - (fee_sum fees ps + 999) div 1000 \<and> 0 \<le> net"
proof -
  have "safe_int (amount_sum ps - (fee_sum fees ps + 999) div 1000)"
    if "safe_int (amount_sum ps)" "\<forall>p\<in>set ps. proof_fee fees p \<noteq> None"
      "(fee_sum fees ps + 999) div 1000 \<le> amount_sum ps"
  proof -
    have "0 \<le> (fee_sum fees ps + 999) div 1000"
      using fee_sum_nonneg [OF that(2)] by simp
    with that(1,3) show ?thesis by (simp add: safe_int_def max_safe_integer_def)
  qed
  then show ?thesis
    by (auto simp: computeNetAmount_def rbind_eq_Inr gross_loop computeInputFee_iff Let_def)
qed

text \<open>The order of the proofs in a payload does not matter to the net amount.\<close>

lemma computeNetAmount_perm:
  assumes "mset ps = mset qs" and "computeNetAmount ps fees = Inr net"
  shows "computeNetAmount qs fees = Inr net"
proof -
  have sums: "sum_list (map f ps) = sum_list (map f qs)" for f :: "amount_proof \<Rightarrow> int"
    using assms(1) by (metis mset_map sum_mset_sum_list)
  have "set ps = set qs"
    using assms(1) by (rule mset_eq_setD)
  moreover have "amount_sum ps = amount_sum qs" "fee_sum fees ps = fee_sum fees qs"
    by (simp_all add: amount_sum_def fee_sum_def sums)
  ultimately have "computeNetAmount ps fees = Inr net \<longleftrightarrow> computeNetAmount qs fees = Inr net"
    by (simp add: computeNetAmount_spec)
  with assms(2) show ?thesis by simp
qed

lemma assertExactRequestedAmount_ok:
  "assertExactRequestedAmount a r = Inr () \<longleftrightarrow> (\<exists>i. a = JInt i \<and> r = JInt i \<and> safe_nonneg i)"
  by (auto simp: assertExactRequestedAmount_def result_simps split: if_splits)

text \<open>
  \<open>computeNetAmount\<close> returns exactly when every proof has a safe nonnegative amount and a known
  keyset with a safe nonnegative fee, both totals are safe, and the total covers the fee; it then
  returns the total amount less the total fee rounded up to a whole unit. Every other input throws.
\<close>

theorem computeNetAmount_iff:
  "computeNetAmount ps fees = Inr net \<longleftrightarrow>
     (\<forall>p\<in>set ps. proof_amount p \<noteq> None \<and> proof_fee fees p \<noteq> None) \<and>
     safe_int (amount_sum ps) \<and> safe_int (fee_sum fees ps) \<and>
     net = amount_sum ps - (fee_sum fees ps + 999) div 1000 \<and> 0 \<le> net"
  by (rule computeNetAmount_spec)

theorem computeNetAmount_iff_witness:
  "computeNetAmount [\<lparr>ap_amount = JInt 8, ap_id = ''k1''\<rparr>, \<lparr>ap_amount = JInt 2, ap_id = ''k1''\<rparr>]
     [''k1'' \<mapsto> JInt 100] = Inr 9"
  by (subst computeNetAmount_iff)
    (simp add: proof_amount_def proof_fee_def num_val_def safe_nonneg_def safe_int_def
      max_safe_integer_def amount_sum_def fee_sum_def)

end
