(* ===== verification/Sender.thy ===== *)
theory Sender
  imports Retry Receipt Amounts Payload Effects Js_Map
begin

text \<open>
  The reference sender: \<open>state.ts\<close>, \<open>send-payment.ts\<close> and the ports of \<open>apps/reference-sender/src\<close>.

  The sender's durable records are the map of \<open>InMemorySenderState\<close>; its wallet, transport, clock and
  identifier source are functions over an environment of any type. Every durable write and every call
  to the wallet or the transport is also noted in a log, in order. Delivery locks serialise the
  operations of one delivery; the model runs one operation after the other and keeps the flag that
  refuses a nested lock.
\<close>

section \<open>Types\<close>

datatype transport_type = Post | Nostr

record transport_target =
  tt_type :: transport_type
  tt_target :: string
  tt_tags :: "string list list option"

datatype transport_result = Receipt_result jsval | No_response | Permanent_failure int string

record sender_request =
  sq_id :: string
  sq_amount :: jsnum
  sq_unit :: string
  sq_mints :: "string list"
  sq_expiresAt :: jsnum
  sq_transports :: "transport_target list"

datatype sender_status = Sending | Sender_settled | Sender_rejected | Recovery_required

datatype attempt_stage = Transport_stage | Receipt_validation

datatype attempt_code =
    TRANSPORT_FAILURE
  | PERMANENT_FAILURE
  | INVALID_RECEIPT_CODE
  | RECEIPT_IDENTITY_CONFLICT
  | RECEIPT_TRANSITION_CONFLICT

record attempt_diagnostic =
  ad_attempt :: int
  ad_transport :: transport_type
  ad_stage :: attempt_stage
  ad_code :: attempt_code
  ad_retryable :: bool

record sender_record =
  sn_deliveryId :: string
  sn_request :: sender_request
  sn_payload :: delivery_payload
  sn_payloadBytes :: "nat list"
  sn_payloadHash :: string
  sn_target :: transport_target
  sn_status :: sender_status
  sn_attempts :: int
  sn_receipt :: "delivery_receipt option"
  sn_diagnostics :: "attempt_diagnostic list option"

record reserve_payment =
  rv_deliveryId :: string
  rv_amount :: jsnum
  rv_unit :: string
  rv_mints :: "string list"

record reserved_proofs =
  rs_mint :: string
  rs_unit :: string
  rs_netAmount :: jsnum
  rs_proofs :: "jsval option list"

record send_options =
  op_seed :: string
  op_maxAttempts :: "jsnum option"
  op_memo :: "string option"

datatype send_outcome =
    Outcome_settled string delivery_receipt
  | Outcome_rejected string delivery_receipt
  | Outcome_recovery_required string "delivery_receipt option"

text \<open>What the sender can throw: its own errors, those of the validators, those of a port, or two at once.\<close>

datatype sender_error =
    SenderError string
  | SenderValidation delivery_error
  | PortError string
  | AggregateError sender_error sender_error

datatype sender_event =
    Ev_reserve string
  | Ev_save sender_record
  | Ev_send "nat list" transport_target
  | Ev_markSettled string
  | Ev_releaseRejected string
  | Ev_markRecoveryRequired string

record 'm sender_deps =
  sd_now :: "'m \<Rightarrow> int \<times> 'm"
  sd_generateDeliveryId :: "'m \<Rightarrow> string \<times> 'm"
  sd_reserveExact :: "reserve_payment \<Rightarrow> 'm \<Rightarrow> (string + reserved_proofs) \<times> 'm"
  sd_markSettled :: "string \<Rightarrow> 'm \<Rightarrow> (string + unit) \<times> 'm"
  sd_releaseRejected :: "string \<Rightarrow> 'm \<Rightarrow> (string + unit) \<times> 'm"
  sd_markRecoveryRequired :: "string \<Rightarrow> 'm \<Rightarrow> (string + unit) \<times> 'm"
  sd_send :: "nat list \<Rightarrow> transport_target \<Rightarrow> 'm \<Rightarrow> (string + transport_result) \<times> 'm"
  sd_sleep :: "int \<Rightarrow> 'm \<Rightarrow> (string + unit) \<times> 'm"

record 'm sender_world =
  sw_records :: "(string, sender_record) jsmap"
  sw_lockScope :: bool
  sw_env :: 'm
  sw_log :: "sender_event list"

type_synonym ('m, 'a) sending = "('m sender_world, sender_error, 'a) eff"

section \<open>The sender's state\<close>

text \<open>
  \<open>assertSenderAttemptDiagnostics\<close> on typed diagnostics: the tests on keys and types hold of every
  \<open>attempt_diagnostic\<close>, which leaves the length and the attempt number.
\<close>

definition assertSenderAttemptDiagnostics :: "attempt_diagnostic list option \<Rightarrow> sender_error + unit" where
  "assertSenderAttemptDiagnostics v =
     (case v of
        None \<Rightarrow> Inr ()
      | Some ds \<Rightarrow>
          if length ds > 20 then Inl (SenderError ''Sender attempt diagnostics are invalid'')
          else ensure (list_all (\<lambda>d. safe_int (ad_attempt d) \<and> \<not> ad_attempt d < 1) ds)
            (SenderError ''Sender attempt diagnostics are invalid''))"

type_synonym sender_records = "(string, sender_record) jsmap"

definition state_create :: "sender_record \<Rightarrow> sender_records \<Rightarrow> (sender_error + unit) \<times> sender_records" where
  "state_create record rs =
     (if map_of rs (sn_deliveryId record) \<noteq> None then (Inl (SenderError ''Sender delivery ID already exists''), rs)
      else case assertSenderAttemptDiagnostics (sn_diagnostics record) of
        Inl e \<Rightarrow> (Inl e, rs)
      | Inr _ \<Rightarrow> (Inr (), mp_set rs (sn_deliveryId record) record))"

definition state_get :: "string \<Rightarrow> sender_records \<Rightarrow> sender_record option" where
  "state_get d rs = map_of rs d"

definition state_save :: "sender_record \<Rightarrow> sender_records \<Rightarrow> (sender_error + unit) \<times> sender_records" where
  "state_save record rs =
     (if map_of rs (sn_deliveryId record) = None then (Inl (SenderError ''Sender delivery does not exist''), rs)
      else case assertSenderAttemptDiagnostics (sn_diagnostics record) of
        Inl e \<Rightarrow> (Inl e, rs)
      | Inr _ \<Rightarrow> (Inr (), mp_set rs (sn_deliveryId record) record))"

definition note_event :: "sender_event \<Rightarrow> 'm sender_world \<Rightarrow> 'm sender_world" where
  "note_event ev w = w\<lparr>sw_log := sw_log w @ [ev]\<rparr>"

definition port :: "('m \<Rightarrow> (string + 'a) \<times> 'm) \<Rightarrow> ('m, 'a) sending" where
  "port f w = (let (r, m) = f (sw_env w) in (map_sum PortError id r, w\<lparr>sw_env := m\<rparr>))"

definition read_env :: "('m \<Rightarrow> 'a \<times> 'm) \<Rightarrow> ('m, 'a) sending" where
  "read_env f w = (let (r, m) = f (sw_env w) in (Inr r, w\<lparr>sw_env := m\<rparr>))"

text \<open>A call to a port that the log notes.\<close>

definition logged :: "sender_event \<Rightarrow> ('m, 'a) sending \<Rightarrow> ('m, 'a) sending" where
  "logged ev m w = m (note_event ev w)"

definition create :: "sender_record \<Rightarrow> ('m, unit) sending" where
  "create record w =
     (let (r, rs) = state_create record (sw_records w) in
      (r, if is_ok r then note_event (Ev_save record) (w\<lparr>sw_records := rs\<rparr>) else w))"

definition get :: "string \<Rightarrow> ('m, sender_record option) sending" where
  "get d w = (Inr (state_get d (sw_records w)), w)"

definition save :: "sender_record \<Rightarrow> ('m, unit) sending" where
  "save record w =
     (let (r, rs) = state_save record (sw_records w) in
      (r, if is_ok r then note_event (Ev_save record) (w\<lparr>sw_records := rs\<rparr>) else w))"

definition withDeliveryLock :: "string \<Rightarrow> ('m, 'a) sending \<Rightarrow> ('m, 'a) sending" where
  "withDeliveryLock d operation w =
     (if sw_lockScope w
      then (Inl (SenderError ''Nested sender delivery-lock acquisition is not allowed''), w)
      else let (r, w') = operation (w\<lparr>sw_lockScope := True\<rparr>) in (r, w'\<lparr>sw_lockScope := False\<rparr>))"

section \<open>Sending\<close>

definition validateMaxAttempts :: "jsnum \<Rightarrow> sender_error + int" where
  "validateMaxAttempts v =
     (case v of
        JNonInt _ \<Rightarrow> Inl (SenderError ''Maximum attempts must be an integer from 1 to 100'')
      | JInt n \<Rightarrow>
          if \<not> safe_int n \<or> n < 1 \<or> n > 100
          then Inl (SenderError ''Maximum attempts must be an integer from 1 to 100'') else Inr n)"

definition max_attempts :: "send_options \<Rightarrow> jsnum" where
  "max_attempts options = (case op_maxAttempts options of None \<Rightarrow> JInt 5 | Some n \<Rightarrow> n)"

definition assertReceiptIdentity :: "sender_record \<Rightarrow> delivery_receipt \<Rightarrow> sender_error + unit" where
  "assertReceiptIdentity record receipt =
     (if rc_requestId receipt \<noteq> sq_id (sn_request record) \<or>
         rc_deliveryId receipt \<noteq> sn_deliveryId record \<or>
         rc_payloadHash receipt \<noteq> sn_payloadHash record \<or>
         rc_mint receipt \<noteq> dp_mint (sn_payload record) \<or>
         rc_unit receipt \<noteq> dp_unit (sn_payload record) \<or>
         JInt (rc_amount receipt) \<noteq> sq_amount (sn_request record)
      then Inl (SenderError ''Receiver receipt does not match sender delivery identity'') else Inr ())"

definition appendDiagnostic ::
    "sender_record \<Rightarrow> attempt_code \<Rightarrow> attempt_stage \<Rightarrow> bool \<Rightarrow> sender_record" where
  "appendDiagnostic record code stage retryable =
     (let diagnostic = \<lparr>ad_attempt = sn_attempts record, ad_transport = tt_type (sn_target record),
            ad_stage = stage, ad_code = code, ad_retryable = retryable\<rparr> in
      record\<lparr>sn_diagnostics := Some (take_last 20
        ((case sn_diagnostics record of None \<Rightarrow> [] | Some ds \<Rightarrow> ds) @ [diagnostic]))\<rparr>)"

definition markRecoveryAfterNonterminalFailure ::
    "'m sender_deps \<Rightarrow> string \<Rightarrow> sender_error \<Rightarrow> ('m, 'a) sending" where
  "markRecoveryAfterNonterminalFailure deps d e =
     andThen (get d) (\<lambda>persisted.
     if (case persisted of None \<Rightarrow> False
         | Some r \<Rightarrow> sn_status r = Sender_settled \<or> sn_status r = Sender_rejected)
     then throw e
     else attempt (logged (Ev_markRecoveryRequired d) (port (sd_markRecoveryRequired deps d)))
       (\<lambda>_. throw e) (\<lambda>markError. throw (AggregateError e markError)))"

text \<open>What the receipt of an attempt makes of the record, and whether to try again.\<close>

datatype attempt_step = Received sender_record delivery_receipt | Unsettled sender_record bool

definition receipt_step :: "url_api \<Rightarrow> sender_record \<Rightarrow> jsval \<Rightarrow> attempt_step" where
  "receipt_step api record wire =
     (case parseDeliveryReceipt api wire of
        Inl _ \<Rightarrow> Unsettled (appendDiagnostic record INVALID_RECEIPT_CODE Receipt_validation True) True
      | Inr observed \<Rightarrow>
          (case assertReceiptIdentity record observed of
             Inl _ \<Rightarrow> Unsettled (appendDiagnostic record RECEIPT_IDENTITY_CONFLICT Receipt_validation False) False
           | Inr _ \<Rightarrow>
               (case mergeObservedReceipt api (sn_receipt record) observed of
                  Inl _ \<Rightarrow> Unsettled
                    (appendDiagnostic record RECEIPT_TRANSITION_CONFLICT Receipt_validation False) False
                | Inr receipt \<Rightarrow> Received (record\<lparr>sn_receipt := Some receipt\<rparr>) receipt)))"

datatype attempt_end = Finished send_outcome | Continue sender_record bool

definition send_attempt ::
    "url_api \<Rightarrow> 'm sender_deps \<Rightarrow> sender_record \<Rightarrow> ('m, attempt_end) sending" where
  "send_attempt api deps record0 =
     (let transports = sq_transports (sn_request record0);
          target = transports ! nat (min (sn_attempts record0) (int (length transports) - 1));
          record1 = record0\<lparr>sn_target := target, sn_attempts := sn_attempts record0 + 1\<rparr>;
          go_on = (\<lambda>record retry. andThen (save record) (\<lambda>_. ret (Continue record retry))) in
      andThen (save record1) (\<lambda>_.
      attempt (logged (Ev_send (sn_payloadBytes record1) target) (port (sd_send deps (sn_payloadBytes record1) target)))
        (\<lambda>result. case result of
           Receipt_result wire \<Rightarrow>
             (case receipt_step api record1 wire of
                Unsettled record2 retry \<Rightarrow> go_on record2 retry
              | Received record2 receipt \<Rightarrow>
                  (case rc_status receipt of
                     Settled \<Rightarrow>
                       andThen (save (record2\<lparr>sn_status := Sender_settled\<rparr>)) (\<lambda>_.
                       andThen (logged (Ev_markSettled (sn_deliveryId record2))
                         (port (sd_markSettled deps (sn_deliveryId record2)))) (\<lambda>_.
                         ret (Finished (Outcome_settled (sn_deliveryId record2) receipt))))
                   | Rejected \<Rightarrow>
                       andThen (save (record2\<lparr>sn_status := Sender_rejected\<rparr>)) (\<lambda>_.
                       andThen (logged (Ev_releaseRejected (sn_deliveryId record2))
                         (port (sd_releaseRejected deps (sn_deliveryId record2)))) (\<lambda>_.
                         ret (Finished (Outcome_rejected (sn_deliveryId record2) receipt))))
                   | Processing \<Rightarrow> go_on record2 (rc_detailCode receipt \<noteq> ''recovery_blocked'')))
         | No_response \<Rightarrow> go_on (appendDiagnostic record1 TRANSPORT_FAILURE Transport_stage True) True
         | Permanent_failure status code \<Rightarrow>
             go_on (appendDiagnostic record1 PERMANENT_FAILURE Transport_stage False) False)
        (\<lambda>_. go_on (appendDiagnostic record1 TRANSPORT_FAILURE Transport_stage True) True)))"

text \<open>After the loop.\<close>

definition give_up :: "'m sender_deps \<Rightarrow> sender_record \<Rightarrow> ('m, send_outcome) sending" where
  "give_up deps record0 =
     (let record = record0\<lparr>sn_status := Recovery_required\<rparr> in
      andThen (save record) (\<lambda>_.
      andThen (logged (Ev_markRecoveryRequired (sn_deliveryId record))
        (port (sd_markRecoveryRequired deps (sn_deliveryId record)))) (\<lambda>_.
        ret (Outcome_recovery_required (sn_deliveryId record) (sn_receipt record)))))"

text \<open>The loop, with the number of attempts still allowed; \<open>i\<close> is \<open>localAttempt\<close>.\<close>

primrec attempt_loop ::
    "platform \<Rightarrow> 'm sender_deps \<Rightarrow> string \<Rightarrow> nat \<Rightarrow> nat \<Rightarrow> sender_record \<Rightarrow> ('m, send_outcome) sending" where
  "attempt_loop pf deps seed 0 i record = give_up deps record"
| "attempt_loop pf deps seed (Suc k) i record =
     andThen (send_attempt (pf_url pf) deps record) (\<lambda>result.
     case result of
       Finished outcome \<Rightarrow> ret outcome
     | Continue record' retry \<Rightarrow>
         if \<not> retry \<or> k = 0 then give_up deps record'
         else
           andThen (lift (map_sum SenderError id
             (retryDelay (JInt (int i)) (Some (seeded_sample pf seed i)) None None))) (\<lambda>delay.
           andThen (port (sd_sleep deps delay)) (\<lambda>_.
             attempt_loop pf deps seed k (Suc i) record')))"

definition runAttempts ::
    "platform \<Rightarrow> 'm sender_deps \<Rightarrow> sender_record \<Rightarrow> send_options \<Rightarrow> ('m, send_outcome) sending" where
  "runAttempts pf deps initial options =
     andThen (lift (validateMaxAttempts (max_attempts options))) (\<lambda>n.
     andThen (lift (map_sum SenderError id (createSeededRandom (op_seed options)))) (\<lambda>_.
       attempt_loop pf deps (op_seed options) (nat n) 0 initial))"

section \<open>Entry points\<close>

definition payment_payload ::
    "sender_request \<Rightarrow> send_options \<Rightarrow> string \<Rightarrow> reserved_proofs \<Rightarrow> int \<Rightarrow> int \<Rightarrow> delivery_payload" where
  "payment_payload request options d reserved now expires =
     \<lparr>dp_id = sq_id request, dp_memo = op_memo options, dp_mint = rs_mint reserved,
      dp_unit = rs_unit reserved, dp_proofs = rs_proofs reserved, dp_deliveryId = d,
      dp_createdAt = now, dp_expiresAt = expires\<rparr>"

text \<open>The record made of the reserved proofs, before it is stored.\<close>

definition prepare_record ::
    "platform \<Rightarrow> sender_request \<Rightarrow> send_options \<Rightarrow> string \<Rightarrow> reserved_proofs \<Rightarrow> int \<Rightarrow> int \<Rightarrow>
     sender_error + sender_record" where
  "prepare_record pf request options d reserved now expires =
     (if rs_mint reserved \<notin> set (sq_mints request) \<or> rs_unit reserved \<noteq> sq_unit request
      then Inl (SenderError ''Reserved proofs do not match payment request'')
      else
        rbind (map_sum SenderValidation id
          (assertExactRequestedAmount (rs_netAmount reserved) (sq_amount request))) (\<lambda>_.
        let payload = payment_payload request options d reserved now expires in
        rbind (map_sum SenderValidation id (serializeDeliveryPayload pf payload)) (\<lambda>payloadBytes.
        rbind (map_sum SenderValidation id (computePayloadHash pf (fingerprint_of payload))) (\<lambda>payloadHash.
          Inr \<lparr>sn_deliveryId = d, sn_request = request, sn_payload = payload,
            sn_payloadBytes = payloadBytes, sn_payloadHash = payloadHash,
            sn_target = hd (sq_transports request), sn_status = Sending, sn_attempts = 0,
            sn_receipt = None, sn_diagnostics = None\<rparr>))))"

definition send_locked ::
    "platform \<Rightarrow> 'm sender_deps \<Rightarrow> sender_request \<Rightarrow> send_options \<Rightarrow> string \<Rightarrow> int \<Rightarrow> int \<Rightarrow>
     ('m, send_outcome) sending" where
  "send_locked pf deps request options d now expires =
     andThen (get d) (\<lambda>existing.
     if existing \<noteq> None then throw (SenderError ''Sender delivery ID already exists'')
     else
       andThen (logged (Ev_reserve d) (port (sd_reserveExact deps
         \<lparr>rv_deliveryId = d, rv_amount = sq_amount request, rv_unit = sq_unit request,
          rv_mints = sq_mints request\<rparr>))) (\<lambda>reserved.
       attempt
         (andThen (lift (prepare_record pf request options d reserved now expires)) (\<lambda>record.
          andThen (create record) (\<lambda>_. ret record)))
         (\<lambda>record.
            attempt (runAttempts pf deps record options) ret (markRecoveryAfterNonterminalFailure deps d))
         (\<lambda>e. attempt (logged (Ev_markRecoveryRequired d) (port (sd_markRecoveryRequired deps d)))
            (\<lambda>_. throw e) (\<lambda>markError. throw (AggregateError e markError)))))"

definition sendPayment ::
    "platform \<Rightarrow> 'm sender_deps \<Rightarrow> sender_request \<Rightarrow> send_options \<Rightarrow> ('m, send_outcome) sending" where
  "sendPayment pf deps request options =
     andThen (lift (map_sum SenderValidation id (parseProtocolId (sq_id request)))) (\<lambda>_.
     andThen (read_env (sd_now deps)) (\<lambda>now.
     if \<not> safe_int now \<or> now < 0 then throw (SenderError ''Sender time is invalid'')
     else case sq_expiresAt request of
       JNonInt _ \<Rightarrow> throw (SenderError ''Payment request has expired'')
     | JInt expires \<Rightarrow>
         if \<not> safe_int expires \<or> expires \<le> now then throw (SenderError ''Payment request has expired'')
         else if sq_transports request = [] \<or> sq_mints request = []
         then throw (SenderError ''Payment request has no usable mint or transport'')
         else
           andThen (lift (validateMaxAttempts (max_attempts options))) (\<lambda>_.
           andThen (lift (map_sum SenderError id (createSeededRandom (op_seed options)))) (\<lambda>_.
           andThen (read_env (sd_generateDeliveryId deps)) (\<lambda>d.
           andThen (lift (map_sum SenderValidation id (parseProtocolId d))) (\<lambda>_.
             withDeliveryLock d (send_locked pf deps request options d now expires)))))))"

definition resumePayment ::
    "platform \<Rightarrow> 'm sender_deps \<Rightarrow> string \<Rightarrow> send_options \<Rightarrow> ('m, send_outcome) sending" where
  "resumePayment pf deps d options = withDeliveryLock d (
     andThen (get d) (\<lambda>found.
     case found of
       None \<Rightarrow> throw (SenderError ''Sender delivery does not exist'')
     | Some record \<Rightarrow>
         (case (sn_status record, sn_receipt record) of
            (Sender_settled, Some receipt) \<Rightarrow>
              andThen (logged (Ev_markSettled (sn_deliveryId record))
                (port (sd_markSettled deps (sn_deliveryId record)))) (\<lambda>_.
                ret (Outcome_settled (sn_deliveryId record) receipt))
          | (Sender_rejected, Some receipt) \<Rightarrow>
              andThen (logged (Ev_releaseRejected (sn_deliveryId record))
                (port (sd_releaseRejected deps (sn_deliveryId record)))) (\<lambda>_.
                ret (Outcome_rejected (sn_deliveryId record) receipt))
          | _ \<Rightarrow> runAttempts pf deps (record\<lparr>sn_status := Sending\<rparr>) options)))"

end
