(* ===== verification/Sender_Safety.thy ===== *)
theory Sender_Safety
  imports Sender
begin

text \<open>
  Safety of the sender. \<open>sender_store\<close> is the contract of a sender's state; the in-memory state is shown
  to satisfy it. The invariant \<open>send_inv\<close> ties the records to the log of what was saved, sent and told
  to the wallet; every path of sending and resuming keeps it.
\<close>

section \<open>The contract of a sender's state\<close>

locale sender_store =
  fixes mk :: "'r \<Rightarrow> 's \<Rightarrow> ('e + unit) \<times> 's"
    and read :: "string \<Rightarrow> 's \<Rightarrow> 'r option"
    and put :: "'r \<Rightarrow> 's \<Rightarrow> ('e + unit) \<times> 's"
    and key :: "'r \<Rightarrow> string"
  assumes mk_ok: "mk r s = (Inr u, s') \<Longrightarrow>
      read (key r) s = None \<and> read d s' = (if d = key r then Some r else read d s)"
    and put_ok: "put r s = (Inr u, s') \<Longrightarrow>
      read (key r) s \<noteq> None \<and> read d s' = (if d = key r then Some r else read d s)"
    and mk_error: "mk r s = (Inl e, s') \<Longrightarrow> s' = s"
    and put_error: "put r s = (Inl e, s') \<Longrightarrow> s' = s"
begin

text \<open>A property of the stored records that the written record has is kept.\<close>

lemma all_stored:
  assumes "\<And>d r. read d s = Some r \<Longrightarrow> P d r" and "P (key r) r" and "mk r s = (x, s') \<or> put r s = (x, s')"
    and "read d s' = Some r'"
  shows "P d r'"
proof (cases x)
  case (Inl e)
  then have "s' = s"
    using assms(3) mk_error put_error by auto
  with assms(1,4) show ?thesis by simp
next
  case (Inr u)
  then have "read d s' = (if d = key r then Some r else read d s)"
    using assms(3) mk_ok put_ok by metis
  with assms show ?thesis by (auto split: if_splits)
qed

lemma stays: "read d s \<noteq> None \<Longrightarrow> mk r s = (x, s') \<or> put r s = (x, s') \<Longrightarrow> read d s' \<noteq> None"
  using mk_ok put_ok mk_error put_error by (cases x) (metis, metis option.distinct(1))

end

interpretation mem: sender_store state_create state_get state_save sn_deliveryId
  by unfold_locales
    (auto simp: state_create_def state_get_def state_save_def split: if_splits sum.splits)

section \<open>Records and the log\<close>

text \<open>What identifies the payment a record is about; it never changes.\<close>

type_synonym payment = "string \<times> sender_request \<times> delivery_payload \<times> nat list \<times> string"

definition payment_of :: "sender_record \<Rightarrow> payment" where
  "payment_of r = (sn_deliveryId r, sn_request r, sn_payload r, sn_payloadBytes r, sn_payloadHash r)"

definition sender_record_ok :: "url_api \<Rightarrow> sender_record \<Rightarrow> bool" where
  "sender_record_ok api r \<longleftrightarrow>
     (\<forall>c. sn_receipt r = Some c \<longrightarrow> valid_receipt api c \<and> assertReceiptIdentity r c = Inr ()) \<and>
     (sn_status r = Sender_settled \<longrightarrow> (\<exists>c. sn_receipt r = Some c \<and> rc_status c = Settled)) \<and>
     (sn_status r = Sender_rejected \<longrightarrow> (\<exists>c. sn_receipt r = Some c \<and> rc_status c = Rejected))"

text \<open>What must be in the log before an event.\<close>

fun event_ok :: "url_api \<Rightarrow> sender_event list \<Rightarrow> sender_event \<Rightarrow> bool" where
  "event_ok api l (Ev_send bytes target) \<longleftrightarrow>
     (\<exists>r. Ev_save r \<in> set l \<and> sn_payloadBytes r = bytes \<and> sn_target r = target)"
| "event_ok api l (Ev_markSettled d) \<longleftrightarrow>
     (\<exists>r. Ev_save r \<in> set l \<and> sn_deliveryId r = d \<and> sn_status r = Sender_settled \<and> sender_record_ok api r)"
| "event_ok api l (Ev_releaseRejected d) \<longleftrightarrow>
     (\<exists>r. Ev_save r \<in> set l \<and> sn_deliveryId r = d \<and> sn_status r = Sender_rejected \<and> sender_record_ok api r)"
| "event_ok api l (Ev_save r) \<longleftrightarrow>
     (\<forall>r'. Ev_save r' \<in> set l \<longrightarrow> sn_deliveryId r' = sn_deliveryId r \<longrightarrow> payment_of r' = payment_of r)"
| "event_ok api l (Ev_markRecoveryRequired d) \<longleftrightarrow> True"
| "event_ok api l (Ev_reserve d) \<longleftrightarrow> True"

definition log_ok :: "url_api \<Rightarrow> sender_event list \<Rightarrow> bool" where
  "log_ok api l \<longleftrightarrow> (\<forall>i<length l. event_ok api (take i l) (l ! i))"

lemma log_ok_snoc: "log_ok api (l @ [ev]) \<longleftrightarrow> log_ok api l \<and> event_ok api l ev"
  by (auto simp: log_ok_def less_Suc_eq nth_append)

definition send_inv :: "url_api \<Rightarrow> 'm sender_world \<Rightarrow> bool" where
  "send_inv api w \<longleftrightarrow> log_ok api (sw_log w) \<and>
     (\<forall>d r. state_get d (sw_records w) = Some r \<longrightarrow>
        sn_deliveryId r = d \<and> sender_record_ok api r \<and> Ev_save r \<in> set (sw_log w)) \<and>
     (\<forall>r. Ev_save r \<in> set (sw_log w) \<longrightarrow>
        (\<exists>c. state_get (sn_deliveryId r) (sw_records w) = Some c \<and> payment_of c = payment_of r))"

text \<open>The same, with the payment under way stored.\<close>

definition pay_inv :: "url_api \<Rightarrow> payment \<Rightarrow> 'm sender_world \<Rightarrow> bool" where
  "pay_inv api p w \<longleftrightarrow> send_inv api w \<and>
     (\<exists>c. state_get (fst p) (sw_records w) = Some c \<and> payment_of c = p)"

lemma payment_id: "fst (payment_of r) = sn_deliveryId r"
  by (simp add: payment_of_def)

lemma note_inv:
  assumes "send_inv api w" and "event_ok api (sw_log w) ev" and "\<And>r. ev \<noteq> Ev_save r"
  shows "send_inv api (note_event ev w)"
  using assms unfolding send_inv_def note_event_def by (auto simp: log_ok_snoc)

lemma env_inv: "send_inv api w \<Longrightarrow> send_inv api (w\<lparr>sw_env := m\<rparr>)"
  by (simp add: send_inv_def)

lemma save_inv:
  assumes w: "pay_inv api p w" and r: "payment_of r = p" "sender_record_ok api r" and run: "save r w = (Inr u, w')"
  shows "pay_inv api p w'" and "Ev_save r \<in> set (sw_log w')"
proof -
  obtain x rs where st: "state_save r (sw_records w) = (x, rs)"
    by (cases "state_save r (sw_records w)")
  with run have put: "state_save r (sw_records w) = (Inr u, rs)"
    and w': "w' = note_event (Ev_save r) (w\<lparr>sw_records := rs\<rparr>)"
    by (auto simp: save_def)
  have rd: "state_get d rs = (if d = sn_deliveryId r then Some r else state_get d (sw_records w))" for d
    using mem.put_ok [OF put] by simp
  have id: "fst p = sn_deliveryId r"
    using r(1) payment_id by blast
  have same: "payment_of r' = p" if "Ev_save r' \<in> set (sw_log w)" "sn_deliveryId r' = sn_deliveryId r" for r'
    using w that id unfolding pay_inv_def send_inv_def by auto
  show "pay_inv api p w'"
    using w r rd same id unfolding pay_inv_def send_inv_def w' note_event_def
    by (auto simp: log_ok_snoc split: if_splits)
  show "Ev_save r \<in> set (sw_log w')"
    by (simp add: w' note_event_def)
qed

lemma save_error: "save r w = (Inl e, w') \<Longrightarrow> w' = w"
  by (auto simp: save_def split_beta Let_def)

lemma pay_inv_env: "pay_inv api p w \<Longrightarrow> pay_inv api p (w\<lparr>sw_env := m\<rparr>)"
  by (simp add: pay_inv_def send_inv_def)

lemma pay_inv_note:
  "pay_inv api p w \<Longrightarrow> event_ok api (sw_log w) ev \<Longrightarrow> (\<And>r. ev \<noteq> Ev_save r) \<Longrightarrow> pay_inv api p (note_event ev w)"
  using note_inv unfolding pay_inv_def by (auto simp: note_event_def)

lemma port_safe [safe_intros]: "safe (pay_inv api p) (port f) (\<lambda>_. True)"
  by (simp add: safe_def port_def split_beta Let_def pay_inv_env)

lemma save_safe [safe_intros]:
  assumes "payment_of r = p" and "sender_record_ok api r"
  shows "safe (pay_inv api p) (save r) (\<lambda>_. True)"
  unfolding safe_def
proof (intro allI impI conjI)
  fix w assume w: "pay_inv api p w"
  show "pay_inv api p (snd (save r w))"
    using w save_error save_inv(1) [OF w assms] by (cases "save r w"; cases "fst (save r w)") auto
qed simp

text \<open>A record is saved, then a port is called that the saved record permits.\<close>

definition permits :: "sender_record \<Rightarrow> sender_event \<Rightarrow> bool" where
  "permits r ev \<longleftrightarrow> ev = Ev_send (sn_payloadBytes r) (sn_target r) \<or>
     ev = Ev_markSettled (sn_deliveryId r) \<and> sn_status r = Sender_settled \<or>
     ev = Ev_releaseRejected (sn_deliveryId r) \<and> sn_status r = Sender_rejected \<or>
     (\<exists>d. ev = Ev_markRecoveryRequired d)"

lemma permits_ok: "permits r ev \<Longrightarrow> Ev_save r \<in> set l \<Longrightarrow> sender_record_ok api r \<Longrightarrow> event_ok api l ev"
  by (auto simp: permits_def)

lemma call_keeps:
  assumes "pay_inv api p w" and "permits r ev" and "Ev_save r \<in> set (sw_log w)" and "sender_record_ok api r"
  shows "pay_inv api p (snd (logged ev (port f) w))"
proof -
  have "pay_inv api p (note_event ev w)"
    using pay_inv_note [OF assms(1)] permits_ok [OF assms(2-4)] assms(2) by (auto simp: permits_def)
  then show ?thesis
    using port_safe [of api p f] unfolding safe_def logged_def by simp
qed

lemma save_call_safe:
  fixes f :: "'m \<Rightarrow> (string + 'a) \<times> 'm"
  assumes r: "payment_of r = p" "sender_record_ok api r" and ev: "permits r ev"
    and ok: "\<And>a. safe (pay_inv api p) (ok a) Q" and err: "\<And>e. safe (pay_inv api p) (err e) Q"
  shows "safe (pay_inv api p) (andThen (save r) (\<lambda>_. attempt (logged ev (port f)) ok err)) Q"
  unfolding safe_def
proof (intro allI impI)
  fix w :: "'m sender_world"
  assume w: "pay_inv api p w"
  let ?go = "andThen (save r) (\<lambda>_. attempt (logged ev (port f)) ok err)"
  show "pay_inv api p (snd (?go w)) \<and> (\<forall>a. fst (?go w) = Inr a \<longrightarrow> Q a)"
  proof (cases "save r w")
    case (Pair x w')
    show ?thesis
    proof (cases x)
      case (Inl e)
      with Pair have "save r w = (Inl e, w')" by simp
      with save_error [OF this] w show ?thesis by (simp add: andThen_Inl)
    next
      case (Inr u)
      with Pair have "save r w = (Inr u, w')" by simp
      note w' = save_inv [OF w r this]
      have "pay_inv api p (snd (logged ev (port f) w'))"
        using call_keeps [OF w'(1) ev w'(2) r(2)] .
      moreover have "?go w = attempt (logged ev (port f)) ok err w'"
        using Pair Inr by (simp add: andThen_Inr)
      ultimately show ?thesis
        using ok err unfolding safe_def attempt_def
        by (cases "logged ev (port f) w'"; cases "fst (logged ev (port f) w')") auto
    qed
  qed
qed

lemma save_call_then [safe_intros]:
  assumes "payment_of r = p" "sender_record_ok api r" "permits r ev" "\<And>a. safe (pay_inv api p) (g a) Q"
  shows "safe (pay_inv api p) (andThen (save r) (\<lambda>_. andThen (logged ev (port f)) g)) Q"
  unfolding andThen_def [of "logged ev (port f)"] by (rule save_call_safe [OF assms safe_throw])

section \<open>The attempts keep the invariant\<close>

definition going :: "url_api \<Rightarrow> payment \<Rightarrow> sender_record \<Rightarrow> bool" where
  "going api p r \<longleftrightarrow> payment_of r = p \<and> sender_record_ok api r \<and> sn_status r = Sending"

lemma identity_cong:
  "payment_of r = payment_of r' \<Longrightarrow> assertReceiptIdentity r c = assertReceiptIdentity r' c"
  by (simp add: assertReceiptIdentity_def payment_of_def)

lemma appendDiagnostic_simps [simp]:
  "payment_of (appendDiagnostic r c s b) = payment_of r" "sn_status (appendDiagnostic r c s b) = sn_status r"
  "sn_receipt (appendDiagnostic r c s b) = sn_receipt r"
  by (simp_all add: appendDiagnostic_def payment_of_def Let_def)

lemma going_update:
  assumes "going api p r" and "payment_of r' = payment_of r" and "sn_status r' = sn_status r"
    and "sn_receipt r' = sn_receipt r"
  shows "going api p r'"
  using assms identity_cong [OF assms(2)] unfolding going_def sender_record_ok_def by simp

lemma receipt_step_going:
  assumes "going api p r"
  shows "receipt_step api r wire = Unsettled r' b \<Longrightarrow> going api p r'"
    and "receipt_step api r wire = Received r' c \<Longrightarrow> going api p r' \<and> sn_receipt r' = Some c"
proof -
  show "receipt_step api r wire = Unsettled r' b \<Longrightarrow> going api p r'"
    using going_update [OF assms] by (auto simp: receipt_step_def split: sum.splits)
  assume "receipt_step api r wire = Received r' c"
  then obtain obs where o: "assertReceiptIdentity r obs = Inr ()" "mergeObservedReceipt api (sn_receipt r) obs = Inr c"
    and r': "r' = r\<lparr>sn_receipt := Some c\<rparr>"
    by (auto simp: receipt_step_def split: sum.splits)
  have "payment_of r' = payment_of r"
    by (simp add: r' payment_of_def)
  moreover have "c = obs \<or> sn_receipt r = Some c" "valid_receipt api c"
    using merge_result [OF o(2)] by auto
  then have "assertReceiptIdentity r c = Inr ()"
    using o(1) assms by (auto simp: going_def sender_record_ok_def)
  ultimately show "going api p r' \<and> sn_receipt r' = Some c"
    using assms \<open>valid_receipt api c\<close> identity_cong [of r' r c]
    by (simp add: going_def sender_record_ok_def r')
qed

lemma finish_ok:
  assumes "going api p r" and "sn_receipt r = Some c"
  shows "rc_status c = Settled \<Longrightarrow> sender_record_ok api (r\<lparr>sn_status := Sender_settled\<rparr>)"
    and "rc_status c = Rejected \<Longrightarrow> sender_record_ok api (r\<lparr>sn_status := Sender_rejected\<rparr>)"
    and "payment_of (r\<lparr>sn_status := st\<rparr>) = p"
  using assms by (auto simp: going_def sender_record_ok_def payment_of_def assertReceiptIdentity_def)

lemma status_ok: "going api p r \<Longrightarrow> sender_record_ok api (r\<lparr>sn_status := Recovery_required\<rparr>)"
    "going api p r \<Longrightarrow> payment_of (r\<lparr>sn_status := st\<rparr>) = p"
  by (auto simp: going_def sender_record_ok_def payment_of_def assertReceiptIdentity_def)

definition continues :: "url_api \<Rightarrow> payment \<Rightarrow> attempt_end \<Rightarrow> bool" where
  "continues api p res \<longleftrightarrow> (\<forall>r b. res = Continue r b \<longrightarrow> going api p r)"

lemma continues_Finished [simp]: "continues api p (Finished x)"
  by (simp add: continues_def)

lemma go_on_safe:
  assumes "going api p r"
  shows "safe (pay_inv api p) (andThen (save r) (\<lambda>_. ret (Continue r b)))
    (continues api p)"
  using assms by (intro safe_intros) (auto simp: going_def continues_def)

lemma send_attempt_safe:
  assumes r: "going api p r"
  shows "safe (pay_inv api p) (send_attempt api deps r) (continues api p)"
proof -
  define target where
    "target = sq_transports (sn_request r) ! nat (min (sn_attempts r) (int (length (sq_transports (sn_request r))) - 1))"
  define r1 where "r1 = r\<lparr>sn_target := target, sn_attempts := sn_attempts r + 1\<rparr>"
  have g1: "going api p r1"
    by (rule going_update [OF r]) (simp_all add: r1_def payment_of_def)
  then have g2: "going api p (appendDiagnostic r1 c s b)" for c s b
    by (rule going_update) simp_all
  have p1: "permits r1 (Ev_send (sn_payloadBytes r1) target)"
    by (simp add: permits_def r1_def)
  have step: "safe (pay_inv api p) (case receipt_step api r1 wire of
        Unsettled record2 retry \<Rightarrow> andThen (save record2) (\<lambda>_. ret (Continue record2 retry))
      | Received record2 receipt \<Rightarrow>
          (case rc_status receipt of
             Settled \<Rightarrow>
               andThen (save (record2\<lparr>sn_status := Sender_settled\<rparr>)) (\<lambda>_.
               andThen (logged (Ev_markSettled (sn_deliveryId record2))
                 (port (sd_markSettled deps (sn_deliveryId record2)))) (\<lambda>_.
                 ret (Finished (Outcome_settled (sn_deliveryId record2) receipt))))
           | Rejected \<Rightarrow>
               andThen (save (record2\<lparr>sn_status := Sender_rejected\<rparr>)) (\<lambda>_.
               andThen (logged (Ev_releaseRejected (sn_deliveryId record2))
                 (port (sd_releaseRejected deps (sn_deliveryId record2)))) (\<lambda>_.
                 ret (Finished (Outcome_rejected (sn_deliveryId record2) receipt))))
           | Processing \<Rightarrow> andThen (save record2) (\<lambda>_.
               ret (Continue record2 (rc_detailCode receipt \<noteq> ''recovery_blocked'')))))
      (continues api p)" for wire
  proof (cases "receipt_step api r1 wire")
    case (Received r2 c)
    note g = receipt_step_going(2) [OF g1 Received]
    show ?thesis
    proof (cases "rc_status c")
      case Settled
      with Received g show ?thesis
        by (simp, intro save_call_then safe_ret) (auto simp: finish_ok permits_def)
    next
      case Rejected
      with Received g show ?thesis
        by (simp, intro save_call_then safe_ret) (auto simp: finish_ok permits_def)
    next
      case Processing
      from g have "safe (pay_inv api p) (andThen (save r2) (\<lambda>_. ret (Continue r2 (rc_detailCode c \<noteq> ''recovery_blocked''))))
          (continues api p)"
        by (intro go_on_safe) simp
      with Received Processing show ?thesis by simp
    qed
  next
    case (Unsettled r2 b)
    with receipt_step_going(1) [OF g1 Unsettled] go_on_safe show ?thesis by simp
  qed
  show ?thesis
    unfolding send_attempt_def Let_def target_def [symmetric] r1_def [symmetric]
    using g1 unfolding going_def
    by (intro save_call_safe p1) (simp_all add: step go_on_safe g2 split: transport_result.split)
qed

lemma give_up_safe [safe_intros]:
  "going api p r \<Longrightarrow> safe (pay_inv api p) (give_up deps r) (\<lambda>_. True)"
  unfolding give_up_def Let_def
  by (intro save_call_then safe_ret) (auto simp: status_ok permits_def)

lemma attempt_loop_safe:
  "going (pf_url pf) p r \<Longrightarrow> safe (pay_inv (pf_url pf) p) (attempt_loop pf deps seed k i r) (\<lambda>_. True)"
proof (induction k arbitrary: i r)
  case 0
  then show ?case by (simp add: give_up_safe)
next
  case (Suc k)
  show ?case
    unfolding attempt_loop.simps
  proof (rule safe_andThen [OF send_attempt_safe [OF Suc.prems]])
    fix res assume "continues (pf_url pf) p res"
    then show "safe (pay_inv (pf_url pf) p) (case res of Finished x \<Rightarrow> ret x | Continue r' retry \<Rightarrow>
        if \<not> retry \<or> k = 0 then give_up deps r'
        else andThen (lift (map_sum SenderError id (retryDelay (JInt (int i)) (Some (seeded_sample pf seed i)) None None)))
          (\<lambda>delay. andThen (port (sd_sleep deps delay)) (\<lambda>_. attempt_loop pf deps seed k (Suc i) r'))) (\<lambda>_. True)"
      using Suc.IH by (auto intro!: safe_intros safe_lift simp: continues_def split: attempt_end.split)
  qed
qed

lemma runAttempts_safe:
  "going (pf_url pf) p r \<Longrightarrow> safe (pay_inv (pf_url pf) p) (runAttempts pf deps r options) (\<lambda>_. True)"
  unfolding runAttempts_def by (intro safe_intros safe_lift attempt_loop_safe TrueI)

section \<open>The entry points keep the invariant\<close>

lemma create_inv:
  assumes w: "send_inv api w" and r: "sender_record_ok api r" and run: "create r w = (Inr u, w')"
  shows "pay_inv api (payment_of r) w'"
proof -
  obtain x rs where st: "state_create r (sw_records w) = (x, rs)"
    by (cases "state_create r (sw_records w)")
  with run have mk: "state_create r (sw_records w) = (Inr u, rs)"
    and w': "w' = note_event (Ev_save r) (w\<lparr>sw_records := rs\<rparr>)"
    by (auto simp: create_def)
  have rd: "state_get (sn_deliveryId r) (sw_records w) = None"
    "state_get d rs = (if d = sn_deliveryId r then Some r else state_get d (sw_records w))" for d
    using mem.mk_ok [OF mk] by simp_all
  have new: "Ev_save r' \<in> set (sw_log w) \<Longrightarrow> sn_deliveryId r' \<noteq> sn_deliveryId r" for r'
    using w rd(1) unfolding send_inv_def by (metis option.distinct(1))
  show ?thesis
    using w r rd new unfolding pay_inv_def send_inv_def w' note_event_def payment_id
    by (auto simp: log_ok_snoc split: if_splits)
qed

lemma create_error: "create r w = (Inl e, w') \<Longrightarrow> w' = w"
  by (auto simp: create_def split_beta Let_def)

lemma mark_safe: "safe (send_inv api) (logged (Ev_markRecoveryRequired d) (port f)) (\<lambda>_. True)"
  by (simp add: safe_def logged_def port_def split_beta Let_def note_inv env_inv)

lemma send_safe_of_pay: "safe (pay_inv api p) m Q \<Longrightarrow> pay_inv api p w \<Longrightarrow> send_inv api (snd (m w))"
  by (simp add: safe_def pay_inv_def)

lemma get_safe: "safe (send_inv api) (get d) (\<lambda>_. True)"
  by (simp add: safe_def get_def)

lemma reserve_safe: "safe (send_inv api) (logged (Ev_reserve d) (port f)) (\<lambda>_. True)"
  by (simp add: safe_def logged_def port_def split_beta Let_def note_inv env_inv)

lemma after_failure_safe: "safe (send_inv api) (markRecoveryAfterNonterminalFailure deps d e) (\<lambda>_. True)"
  unfolding markRecoveryAfterNonterminalFailure_def
  by (rule safe_then [OF get_safe]) (auto intro!: safe_throw safe_attempt [OF mark_safe] split: option.split)

lemma prepare_record_ok:
  assumes "prepare_record pf request options d reserved now expires = Inr r"
  shows "sender_record_ok api r" and "sn_status r = Sending" and "sn_deliveryId r = d"
  using assms by (auto simp: prepare_record_def sender_record_ok_def rbind_eq_Inr Let_def split: if_splits)

lemma prepared_send_inv:
  assumes "send_inv (pf_url pf) w"
  shows "send_inv (pf_url pf) (snd (attempt
     (andThen (lift (prepare_record pf request options d reserved now expires)) (\<lambda>record.
        andThen (create record) (\<lambda>_. ret record)))
     (\<lambda>record. attempt (runAttempts pf deps record options) ret (markRecoveryAfterNonterminalFailure deps d))
     (\<lambda>e. attempt (logged (Ev_markRecoveryRequired d) (port (sd_markRecoveryRequired deps d)))
        (\<lambda>_. throw e) (\<lambda>markError. throw (AggregateError e markError))) w))"
    (is "send_inv _ (snd (attempt ?prep ?go ?fail w))")
proof -
  have fail: "safe (send_inv (pf_url pf)) (?fail e) (\<lambda>_. True)" for e
    by (rule safe_attempt [OF mark_safe]) (rule safe_throw)+
  show ?thesis
  proof (cases "?prep w")
    case (Pair x w')
    show ?thesis
    proof (cases x)
      case (Inl e)
      have "w' = w"
        using Pair Inl create_error
        by (cases "prepare_record pf request options d reserved now expires")
          (auto simp: throw_def andThen_def attempt_def ret_def split: prod.splits sum.splits)
      then show ?thesis
        using Pair Inl fail assms unfolding safe_def by (simp add: attempt_Inl)
    next
      case (Inr r)
      obtain u where r: "prepare_record pf request options d reserved now expires = Inr r" "create r w = (Inr u, w')"
        using Pair Inr
        by (cases "prepare_record pf request options d reserved now expires")
          (auto simp: throw_def andThen_eq_Inr ret_def)
      note ok = prepare_record_ok(1) [OF r(1), of "pf_url pf"] prepare_record_ok(2,3) [OF r(1)]
      have "pay_inv (pf_url pf) (payment_of r) w'"
        using create_inv [OF assms ok(1) r(2)] .
      then have "send_inv (pf_url pf) (snd (runAttempts pf deps r options w'))"
        by (rule send_safe_of_pay [OF runAttempts_safe, rotated]) (simp add: going_def ok)
      then have "send_inv (pf_url pf) (snd (?go r w'))"
        using after_failure_safe [of "pf_url pf" deps d] unfolding safe_def attempt_def
        by (cases "runAttempts pf deps r options w'"; cases "fst (runAttempts pf deps r options w')")
          (auto simp: ret_def)
      then show ?thesis
        using Pair Inr by (simp add: attempt_Inr)
    qed
  qed
qed

lemma send_locked_safe:
  "safe (send_inv (pf_url pf)) (send_locked pf deps request options d now expires) (\<lambda>_. True)"
proof -
  have "safe (send_inv (pf_url pf)) (attempt
     (andThen (lift (prepare_record pf request options d reserved now expires)) (\<lambda>record.
        andThen (create record) (\<lambda>_. ret record)))
     (\<lambda>record. attempt (runAttempts pf deps record options) ret (markRecoveryAfterNonterminalFailure deps d))
     (\<lambda>e. attempt (logged (Ev_markRecoveryRequired d) (port (sd_markRecoveryRequired deps d)))
        (\<lambda>_. throw e) (\<lambda>markError. throw (AggregateError e markError)))) (\<lambda>_. True)" for reserved
    by (simp add: safe_def prepared_send_inv)
  then show ?thesis
    unfolding send_locked_def
    by (auto intro!: safe_then [OF get_safe] safe_then [OF reserve_safe] safe_throw)
qed

lemma send_inv_lock [simp]: "send_inv api (w\<lparr>sw_lockScope := b\<rparr>) = send_inv api w"
  by (simp add: send_inv_def)

lemma lock_safe:
  "safe (send_inv api) m (\<lambda>_. True) \<Longrightarrow> safe (send_inv api) (withDeliveryLock d m) (\<lambda>_. True)"
  by (simp add: safe_def withDeliveryLock_def split_beta Let_def)

lemma read_env_safe: "safe (send_inv api) (read_env f) (\<lambda>_. True)"
  by (simp add: safe_def read_env_def split_beta Let_def env_inv)

lemma sendPayment_safe: "safe (send_inv (pf_url pf)) (sendPayment pf deps request options) (\<lambda>_. True)"
  unfolding sendPayment_def
  by (auto intro!: safe_then safe_lift read_env_safe safe_throw lock_safe send_locked_safe split: jsnum.split)

lemma resumePayment_safe: "safe (send_inv (pf_url pf)) (resumePayment pf deps d options) (\<lambda>_. True)"
  unfolding resumePayment_def
proof (rule lock_safe, unfold safe_def, intro allI impI conjI, goal_cases)
  case (1 w)
  show ?case
  proof (cases "state_get d (sw_records w)")
    case None
    with 1 show ?thesis by (simp add: andThen_def attempt_def get_def throw_def)
  next
    case (Some r)
    let ?api = "pf_url pf"
    have r: "sn_deliveryId r = d" "sender_record_ok ?api r" "Ev_save r \<in> set (sw_log w)"
      using 1 Some unfolding send_inv_def by auto
    have pay: "pay_inv ?api (payment_of r) w"
      using 1 Some r(1) unfolding pay_inv_def payment_id by auto
    have get: "get d w = (Inr (Some r), w)"
      using Some by (simp add: get_def)
    have call: "send_inv ?api (snd (andThen (logged ev (port f)) (\<lambda>_. ret x) w))" if "permits r ev" for ev f and x :: send_outcome
    proof -
      have "pay_inv ?api (payment_of r) (snd (logged ev (port f) w))"
        by (rule call_keeps [OF pay that r(3,2)])
      then show ?thesis
        by (simp add: snd_andThen_ret pay_inv_def)
    qed
    have "going ?api (payment_of r) (r\<lparr>sn_status := Sending\<rparr>)"
      using r(2) by (auto simp: going_def sender_record_ok_def payment_of_def assertReceiptIdentity_def)
    from send_safe_of_pay [OF runAttempts_safe [OF this] pay]
    have "send_inv ?api (snd (runAttempts pf deps (r\<lparr>sn_status := Sending\<rparr>) options w))" .
    then show ?thesis
      using call by (auto simp: andThen_Inr [where m = "get d", OF get] permits_def split: sender_status.split option.split)
  qed
qed simp

section \<open>The number of messages\<close>

definition sends :: "'m sender_world \<Rightarrow> nat" where
  "sends w = length (filter (\<lambda>ev. case ev of Ev_send _ _ \<Rightarrow> True | _ \<Rightarrow> False) (sw_log w))"

lemma adds_calls:
  "adds sends 0 (port f)" "adds sends 0 (save r)" "adds sends 0 (create r)" "adds sends 0 (get d)"
  "adds sends 0 (read_env g)" "adds sends 1 (logged (Ev_send b t) (port h))"
  "adds sends 0 (logged (Ev_markSettled d) (port h'))" "adds sends 0 (logged (Ev_releaseRejected d) (port h'))"
  "adds sends 0 (logged (Ev_markRecoveryRequired d) (port h'))" "adds sends 0 (logged (Ev_reserve d) (port h''))"
  by (auto simp: adds_def sends_def port_def save_def create_def get_def read_env_def logged_def note_event_def
      split_beta Let_def)

lemma adds_then0: "adds c 0 m \<Longrightarrow> (\<And>a. adds c k (f a)) \<Longrightarrow> adds c k (andThen m f)"
  by (rule adds_andThen [of c 0 m k f]) simp_all

lemma send_attempt_adds: "adds sends 1 (send_attempt api deps r)"
  unfolding send_attempt_def Let_def
  by (rule adds_then0, rule adds_calls, rule adds_attempt [OF adds_calls(6), where j = 0])
    (auto intro!: adds_then0 adds_calls
      split: transport_result.split attempt_step.split delivery_status.split)

lemma give_up_adds: "adds sends 0 (give_up deps r)"
  unfolding give_up_def Let_def by (intro adds_then0 adds_calls adds_ret)

lemma adds_mono: "adds c i m \<Longrightarrow> i \<le> k \<Longrightarrow> adds c k m"
  unfolding adds_def by (meson add_left_mono order_trans)

lemma attempt_loop_adds: "adds sends k (attempt_loop pf deps seed k i r)"
proof (induction k arbitrary: i r)
  case 0
  then show ?case by (simp add: give_up_adds)
next
  case (Suc k)
  show ?case
    unfolding attempt_loop.simps
    by (rule adds_andThen [OF send_attempt_adds, where j = k])
      (auto intro!: adds_then0 adds_calls adds_ret Suc.IH intro: adds_mono [OF give_up_adds]
        split: attempt_end.split)
qed

lemma runAttempts_adds:
  assumes "max_attempts options = JInt n"
  shows "adds sends (nat n) (runAttempts pf deps r options)"
proof -
  have "adds sends (nat n) (andThen (lift (map_sum SenderError id (createSeededRandom (op_seed options)))) (\<lambda>_.
       attempt_loop pf deps (op_seed options) (nat m) 0 r))" if "validateMaxAttempts (JInt n) = Inr m" for m
    using that by (auto intro!: adds_then0 attempt_loop_adds simp: validateMaxAttempts_def split: if_splits)
  then show ?thesis
    unfolding runAttempts_def assms by (cases "validateMaxAttempts (JInt n)") simp_all
qed

lemma after_failure_adds: "adds sends 0 (markRecoveryAfterNonterminalFailure deps d e)"
  unfolding markRecoveryAfterNonterminalFailure_def
  by (rule adds_then0) (auto intro!: adds_calls adds_attempt [OF adds_calls(9), where j = 0] split: option.split)

lemma send_locked_adds:
  assumes "max_attempts options = JInt n"
  shows "adds sends (nat n) (send_locked pf deps request options d now expires)"
proof -
  have go: "adds sends (nat n) (attempt (runAttempts pf deps r options) ret (markRecoveryAfterNonterminalFailure deps d))" for r
    by (rule adds_attempt [OF runAttempts_adds [OF assms], where j = 0]) (simp_all add: after_failure_adds)
  have fail: "adds sends (nat n) (attempt (logged (Ev_markRecoveryRequired d) (port (sd_markRecoveryRequired deps d)))
      (\<lambda>_. throw e) (\<lambda>markError. throw (AggregateError e markError)))" for e
    by (rule adds_attempt [OF adds_calls(9), where j = 0]) simp_all
  have prep: "adds sends 0 (andThen (lift x) (\<lambda>record. andThen (create record) (\<lambda>_. ret record)))" for x
    by (intro adds_then0 adds_calls adds_ret)
  have "adds sends (nat n) (attempt
     (andThen (lift (prepare_record pf request options d reserved now expires)) (\<lambda>record.
        andThen (create record) (\<lambda>_. ret record)))
     (\<lambda>record. attempt (runAttempts pf deps record options) ret (markRecoveryAfterNonterminalFailure deps d))
     (\<lambda>e. attempt (logged (Ev_markRecoveryRequired d) (port (sd_markRecoveryRequired deps d)))
        (\<lambda>_. throw e) (\<lambda>markError. throw (AggregateError e markError))))" for reserved
    by (rule adds_attempt [OF prep, where j = "nat n"]) (simp_all add: go fail)
  then show ?thesis
    unfolding send_locked_def by (auto intro!: adds_then0 adds_calls)
qed

lemma lock_adds: "adds sends k m \<Longrightarrow> adds sends k (withDeliveryLock d m)"
proof -
  assume m: "adds sends k m"
  have lock: "sends (w\<lparr>sw_lockScope := b\<rparr>) = sends w" for w :: "'a sender_world" and b
    by (simp add: sends_def)
  have "sends (snd (m (w\<lparr>sw_lockScope := True\<rparr>))) \<le> sends w + k" for w
    using m lock unfolding adds_def by metis
  then show ?thesis
    by (simp add: adds_def withDeliveryLock_def split_beta Let_def lock)
qed

lemma sendPayment_adds:
  assumes "max_attempts options = JInt n"
  shows "adds sends (nat n) (sendPayment pf deps request options)"
  unfolding sendPayment_def
  by (auto intro!: adds_then0 adds_calls lock_adds send_locked_adds [OF assms] split: jsnum.split)

lemma resumePayment_adds:
  assumes "max_attempts options = JInt n"
  shows "adds sends (nat n) (resumePayment pf deps d options)"
  unfolding resumePayment_def
  by (auto intro!: lock_adds adds_then0 adds_calls runAttempts_adds [OF assms]
      split: option.split sender_status.split)

end
