(* ===== verification/Sender_Properties.thy ===== *)
theory Sender_Properties
  imports Sender_Safety
begin

text \<open>
  What the sender guarantees over its whole life, whatever the receiver, the network and the wallet
  answer.
\<close>

datatype sender_call = Ask_send sender_request send_options | Ask_resume string send_options

fun sender_serve :: "platform \<Rightarrow> 'm sender_deps \<Rightarrow> sender_call \<Rightarrow> 'm sender_world \<Rightarrow> 'm sender_world" where
  "sender_serve pf deps (Ask_send request options) w = snd (sendPayment pf deps request options w)"
| "sender_serve pf deps (Ask_resume d options) w = snd (resumePayment pf deps d options w)"

definition sender_session ::
    "platform \<Rightarrow> 'm sender_deps \<Rightarrow> sender_call list \<Rightarrow> 'm \<Rightarrow> 'm sender_world" where
  "sender_session pf deps calls m =
     fold (sender_serve pf deps) calls \<lparr>sw_records = [], sw_lockScope = False, sw_env = m, sw_log = []\<rparr>"

lemma serve_send_inv: "send_inv (pf_url pf) w \<Longrightarrow> send_inv (pf_url pf) (sender_serve pf deps call w)"
proof (cases call)
  case (Ask_send request options)
  assume "send_inv (pf_url pf) w"
  moreover have "safe (send_inv (pf_url pf)) (sendPayment pf deps request options) (\<lambda>_. True)"
    by (rule sendPayment_safe)
  ultimately show ?thesis by (simp add: Ask_send safe_def)
next
  case (Ask_resume d options)
  assume "send_inv (pf_url pf) w"
  moreover have "safe (send_inv (pf_url pf)) (resumePayment pf deps d options) (\<lambda>_. True)"
    by (rule resumePayment_safe)
  ultimately show ?thesis by (simp add: Ask_resume safe_def)
qed

lemma session_send_inv: "send_inv (pf_url pf) (sender_session pf deps calls m)"
proof -
  have "send_inv (pf_url pf) w \<Longrightarrow> send_inv (pf_url pf) (fold (sender_serve pf deps) calls w)" for w
    by (induction calls arbitrary: w) (simp_all add: serve_send_inv)
  moreover have "send_inv (pf_url pf) \<lparr>sw_records = [], sw_lockScope = False, sw_env = m, sw_log = []\<rparr>"
    by (simp add: send_inv_def log_ok_def state_get_def)
  ultimately show ?thesis
    unfolding sender_session_def by blast
qed

lemma session_event:
  assumes "i < length (sw_log (sender_session pf deps calls m))"
  shows "event_ok (pf_url pf) (take i (sw_log (sender_session pf deps calls m)))
    (sw_log (sender_session pf deps calls m) ! i)"
  using session_send_inv [of pf deps calls m] assms by (simp add: send_inv_def log_ok_def)

lemma in_take: "x \<in> set (take i l) \<Longrightarrow> \<exists>j<i. j < length l \<and> l ! j = x"
  by (auto simp: in_set_conv_nth)

section \<open>The wallet is told\<close>

definition told :: "string \<Rightarrow> 'm sender_world \<Rightarrow> bool" where
  "told d w \<longleftrightarrow> Ev_markSettled d \<in> set (sw_log w) \<or> Ev_releaseRejected d \<in> set (sw_log w) \<or>
     Ev_markRecoveryRequired d \<in> set (sw_log w)"

lemma logged_told:
  "told d (snd (logged (Ev_markSettled d) (port f) w))"
  "told d (snd (logged (Ev_releaseRejected d) (port f) w))"
  "told d (snd (logged (Ev_markRecoveryRequired d) (port f) w))"
  by (auto simp: told_def logged_def port_def note_event_def split_beta Let_def)

lemma ends_told:
  assumes "\<And>w. told d w \<Longrightarrow> R x w"
    and "ev \<in> {Ev_markSettled d, Ev_releaseRejected d, Ev_markRecoveryRequired d}"
  shows "ends (andThen (logged ev (port f)) (\<lambda>_. ret x)) R"
  unfolding ends_def
proof (intro allI impI)
  fix w a w' assume "andThen (logged ev (port f)) (\<lambda>_. ret x) w = (Inr a, w')"
  then have "w' = snd (logged ev (port f) w)" "a = x"
    by (auto simp: andThen_eq_Inr ret_def)
  then show "R a w'"
    using assms logged_told [of d f w] by auto
qed

lemma give_up_told: "ends (give_up deps r) (\<lambda>_. told (sn_deliveryId r))"
  unfolding give_up_def Let_def by (rule ends_then, rule ends_told [of "sn_deliveryId r"]) simp_all

lemma receipt_step_id:
  "receipt_step api r wire = Unsettled r' b \<Longrightarrow> sn_deliveryId r' = sn_deliveryId r"
  "receipt_step api r wire = Received r' c \<Longrightarrow> sn_deliveryId r' = sn_deliveryId r"
  by (auto simp: receipt_step_def appendDiagnostic_def Let_def split: sum.splits)

definition progressed :: "string \<Rightarrow> attempt_end \<Rightarrow> 'm sender_world \<Rightarrow> bool" where
  "progressed d res w \<longleftrightarrow>
     (case res of Finished _ \<Rightarrow> told d w | Continue r' _ \<Rightarrow> sn_deliveryId r' = d)"

lemma send_attempt_told: "ends (send_attempt api deps r) (progressed (sn_deliveryId r))"
proof -
  have go: "sn_deliveryId r' = d \<Longrightarrow> ends (andThen (save r') (\<lambda>_. ret (Continue r' b))) (progressed d)" for r' b d
    by (intro ends_then ends_ret) (simp add: progressed_def)
  have fin: "ev \<in> {Ev_markSettled d, Ev_releaseRejected d, Ev_markRecoveryRequired d} \<Longrightarrow>
      ends (andThen (save r') (\<lambda>_. andThen (logged ev (port f)) (\<lambda>_. ret (Finished x)))) (progressed d)" for r' x d ev f
    by (rule ends_then, rule ends_told [of d]) (simp_all add: progressed_def)
  show ?thesis
    unfolding send_attempt_def Let_def
    apply (rule ends_then, rule ends_attempt)
     apply (auto split: transport_result.split attempt_step.split delivery_status.split
        intro!: go fin simp: receipt_step_id appendDiagnostic_def Let_def)
    done
qed

lemma attempt_loop_told: "ends (attempt_loop pf deps seed k i r) (\<lambda>_. told (sn_deliveryId r))"
proof (induction k arbitrary: i r)
  case 0
  then show ?case by (simp add: give_up_told)
next
  case (Suc k)
  show ?case
    unfolding attempt_loop.simps
  proof (rule ends_chain [OF send_attempt_told])
    fix res w x w'
    assume res: "progressed (sn_deliveryId r) res w"
      and run: "(case res of Finished y \<Rightarrow> ret y | Continue r' retry \<Rightarrow>
        if \<not> retry \<or> k = 0 then give_up deps r'
        else andThen (lift (map_sum SenderError id (retryDelay (JInt (int i)) (Some (seeded_sample pf seed i)) None None)))
          (\<lambda>delay. andThen (port (sd_sleep deps delay)) (\<lambda>_. attempt_loop pf deps seed k (Suc i) r'))) w = (Inr x, w')"
    show "told (sn_deliveryId r) w'"
    proof (cases res)
      case (Finished y)
      with res run show ?thesis by (simp add: progressed_def ret_def)
    next
      case (Continue r' retry)
      have "ends (if \<not> retry \<or> k = 0 then give_up deps r'
        else andThen (lift (map_sum SenderError id (retryDelay (JInt (int i)) (Some (seeded_sample pf seed i)) None None)))
          (\<lambda>delay. andThen (port (sd_sleep deps delay)) (\<lambda>_. attempt_loop pf deps seed k (Suc i) r')))
        (\<lambda>_. told (sn_deliveryId r'))"
        using give_up_told Suc.IH by (auto intro!: ends_then)
      with res run Continue show ?thesis
        by (simp add: progressed_def ends_def)
    qed
  qed
qed

lemma runAttempts_told: "ends (runAttempts pf deps r options) (\<lambda>_. told (sn_deliveryId r))"
  unfolding runAttempts_def by (intro ends_then attempt_loop_told)

section \<open>A sender for concrete examples\<close>

definition demo_target :: transport_target where
  "demo_target = \<lparr>tt_type = Post, tt_target = ''https://pay.example'', tt_tags = None\<rparr>"

definition demo_sender_request :: sender_request where
  "demo_sender_request = \<lparr>sq_id = demo_id, sq_amount = JInt 8, sq_unit = ''sat'', sq_mints = [''https://mint.io/a''],
     sq_expiresAt = JInt 2000, sq_transports = [demo_target]\<rparr>"

definition demo_options :: "int \<Rightarrow> send_options" where
  "demo_options n = \<lparr>op_seed = ''seed'', op_maxAttempts = Some (JInt n), op_memo = None\<rparr>"

definition demo_rejection :: delivery_receipt where
  "demo_rejection = (demo_receipt Rejected 1 ''invalid'')\<lparr>rc_payloadHash := replicate 64 (CHR ''a'')\<rparr>"

definition demo_sender_deps :: "transport_result \<Rightarrow> unit sender_deps" where
  "demo_sender_deps answer = \<lparr>sd_now = (\<lambda>m. (1000, m)), sd_generateDeliveryId = (\<lambda>m. (demo_id, m)),
     sd_reserveExact = (\<lambda>q m. (Inr \<lparr>rs_mint = ''https://mint.io/a'', rs_unit = ''sat'', rs_netAmount = JInt 8,
       rs_proofs = []\<rparr>, m)),
     sd_markSettled = (\<lambda>d m. (Inr (), m)), sd_releaseRejected = (\<lambda>d m. (Inr (), m)),
     sd_markRecoveryRequired = (\<lambda>d m. (Inr (), m)),
     sd_send = (\<lambda>b t m. (Inr answer, m)), sd_sleep = (\<lambda>n m. (Inr (), m))\<rparr>"


definition demo_sent_payload :: delivery_payload where
  "demo_sent_payload = \<lparr>dp_id = demo_id, dp_memo = None, dp_mint = ''https://mint.io/a'', dp_unit = ''sat'',
     dp_proofs = [], dp_deliveryId = demo_id, dp_createdAt = 1000, dp_expiresAt = 2000\<rparr>"

definition demo_record :: sender_record where
  "demo_record = \<lparr>sn_deliveryId = demo_id, sn_request = demo_sender_request, sn_payload = demo_sent_payload,
     sn_payloadBytes = [], sn_payloadHash = replicate 64 (CHR ''a''), sn_target = demo_target, sn_status = Sending,
     sn_attempts = 0, sn_receipt = None, sn_diagnostics = None\<rparr>"

lemma demo_sent_hash:
  "computePayloadHash demo_platform (fingerprint_of demo_sent_payload) = Inr (replicate 64 (CHR ''a''))"
  by (simp add: computePayloadHash_def encodePayloadFingerprint_def validatePayloadInput_def fingerprint_of_def
      demo_sent_payload_def demo_platform_def assertDenseArray_def safe_int_def max_safe_integer_def demo_normalize)

lemma demo_sent_bytes: "serializeDeliveryPayload demo_platform demo_sent_payload = Inr []"
proof -
  have "normalizeMintUrl (pf_url demo_platform) (dp_mint demo_sent_payload) = Inr (dp_mint demo_sent_payload)"
    by (simp add: demo_platform_def demo_sent_payload_def demo_normalize)
  then have "parseDeliveryPayload demo_platform (payload_wire demo_sent_payload)
      (js_int (dp_createdAt demo_sent_payload)) = Inr demo_sent_payload"
    using demo_sent_hash
    by (simp add: parse_wire_iff demo_sent_payload_def safe_nonneg_def safe_int_def max_safe_integer_def)
  then show ?thesis
    by (simp add: serializeDeliveryPayload_def demo_platform_def max_payload_bytes_def)
qed

lemma demo_prepared:
  "prepare_record demo_platform demo_sender_request (demo_options n) demo_id
     \<lparr>rs_mint = ''https://mint.io/a'', rs_unit = ''sat'', rs_netAmount = JInt 8, rs_proofs = []\<rparr> 1000 2000 =
   Inr demo_record"
proof -
  have "payment_payload demo_sender_request (demo_options n) demo_id
      \<lparr>rs_mint = ''https://mint.io/a'', rs_unit = ''sat'', rs_netAmount = JInt 8, rs_proofs = []\<rparr> 1000 2000 =
      demo_sent_payload"
    by (simp add: payment_payload_def demo_sent_payload_def demo_sender_request_def demo_options_def)
  moreover have "assertExactRequestedAmount (JInt 8) (sq_amount demo_sender_request) = Inr ()"
    by (simp add: assertExactRequestedAmount_ok demo_sender_request_def safe_nonneg_def safe_int_def max_safe_integer_def)
  moreover have "sq_mints demo_sender_request = [''https://mint.io/a'']" "sq_unit demo_sender_request = ''sat''"
    "sq_transports demo_sender_request = [demo_target]"
    by (simp_all add: demo_sender_request_def)
  ultimately show ?thesis
    by (simp add: prepare_record_def demo_sent_bytes demo_sent_hash demo_record_def)
qed

lemma demo_step:
  "receipt_step demo_url_api (demo_record\<lparr>sn_attempts := 1\<rparr>) (receipt_wire demo_rejection) =
   Received (demo_record\<lparr>sn_attempts := 1, sn_receipt := Some demo_rejection\<rparr>) demo_rejection"
  by code_simp

definition demo_session :: "unit sender_world" where
  "demo_session = sender_session demo_platform (demo_sender_deps (Receipt_result (receipt_wire demo_rejection)))
     [Ask_send demo_sender_request (demo_options 1)] ()"

lemma demo_session_log: "sw_log demo_session =
    [Ev_reserve demo_id, Ev_save demo_record, Ev_save (demo_record\<lparr>sn_attempts := 1\<rparr>), Ev_send [] demo_target,
     Ev_save (demo_record\<lparr>sn_attempts := 1, sn_receipt := Some demo_rejection, sn_status := Sender_rejected\<rparr>),
     Ev_releaseRejected demo_id]"
proof -
  have f: "sq_id demo_sender_request = demo_id" "sq_expiresAt demo_sender_request = JInt 2000"
    "sq_transports demo_sender_request = [demo_target]" "sq_mints demo_sender_request \<noteq> []"
    "max_attempts (demo_options 1) = JInt 1" "op_seed (demo_options 1) = ''seed''"
    "sn_deliveryId demo_record = demo_id" "sn_diagnostics demo_record = None" "sn_attempts demo_record = 0"
    "pf_url demo_platform = demo_url_api" "sn_request demo_record = demo_sender_request" "sn_payloadBytes demo_record = []" "sn_target demo_record = demo_target"
    by (simp_all add: demo_sender_request_def demo_options_def max_attempts_def demo_record_def demo_platform_def)
  have s: "safe_int 1000" "safe_int 2000" "safe_int 1" "rc_status demo_rejection = Rejected"
    by (simp_all add: safe_int_def max_safe_integer_def demo_rejection_def)
  have t: "demo_record\<lparr>sn_target := demo_target, sn_attempts := 1\<rparr> = demo_record\<lparr>sn_attempts := 1\<rparr>"
    by (simp add: demo_record_def)
  show ?thesis
    unfolding demo_session_def sender_session_def
    by (simp add: sendPayment_def f s read_env_def demo_sender_deps_def andThen_def attempt_def ret_def throw_def
        validateMaxAttempts_def createSeededRandom_def withDeliveryLock_def send_locked_def get_def state_get_def
        logged_def note_event_def port_def demo_prepared create_def state_create_def
        assertSenderAttemptDiagnostics_def runAttempts_def send_attempt_def Let_def save_def state_save_def t
        demo_step)
qed

section \<open>Properties\<close>

text \<open>
  C15: Nothing is sent that is not durable: whenever the sender hands bytes to a transport, a record with
  exactly these payload bytes and this target was saved before. And a payment never changes: every
  record ever saved under a delivery identifier has the same request, payload, payload bytes and payload
  hash, so every retry and every resumption sends the same bytes.
\<close>

theorem sender_sends_only_saved:
  assumes "l = sw_log (sender_session pf deps calls m)"
  shows "(i < length l \<and> l ! i = Ev_send bytes target \<longrightarrow>
      (\<exists>j<i. \<exists>r. l ! j = Ev_save r \<and> sn_payloadBytes r = bytes \<and> sn_target r = target)) \<and>
    (Ev_save r \<in> set l \<and> Ev_save r' \<in> set l \<and> sn_deliveryId r = sn_deliveryId r' \<longrightarrow>
      sn_request r = sn_request r' \<and> sn_payload r = sn_payload r' \<and>
      sn_payloadBytes r = sn_payloadBytes r' \<and> sn_payloadHash r = sn_payloadHash r')"
proof (intro conjI impI)
  assume "i < length l \<and> l ! i = Ev_send bytes target"
  then have "event_ok (pf_url pf) (take i l) (Ev_send bytes target)"
    using session_event [of i pf deps calls m] assms by auto
  then show "\<exists>j<i. \<exists>r. l ! j = Ev_save r \<and> sn_payloadBytes r = bytes \<and> sn_target r = target"
    by (auto dest!: in_take)
next
  assume s: "Ev_save r \<in> set l \<and> Ev_save r' \<in> set l \<and> sn_deliveryId r = sn_deliveryId r'"
  have "payment_of r = payment_of r'"
    using session_send_inv [of pf deps calls m] s unfolding send_inv_def assms by (metis option.inject)
  then show "sn_request r = sn_request r'" "sn_payload r = sn_payload r'"
    "sn_payloadBytes r = sn_payloadBytes r'" "sn_payloadHash r = sn_payloadHash r'"
    by (simp_all add: payment_of_def)
qed

theorem sender_sends_only_saved_witness:
  "\<exists>j<3. \<exists>r. sw_log demo_session ! j = Ev_save r \<and> sn_payloadBytes r = [] \<and> sn_target r = demo_target"
proof -
  note saved = sender_sends_only_saved [OF refl, of 3 demo_platform
      "demo_sender_deps (Receipt_result (receipt_wire demo_rejection))" "[Ask_send demo_sender_request (demo_options 1)]"
      "()" "[]" demo_target, folded demo_session_def]
  show ?thesis
    using conjunct1 [OF saved] by (simp add: demo_session_log)
qed

text \<open>
  C16: Proofs are released only against a rejection: whenever the sender tells the wallet to release the
  proofs of a delivery, it has saved before a valid receipt with the status rejected that matches the
  delivery's request, identifier, payload hash, mint, unit and amount.
\<close>

theorem sender_releases_only_rejected:
  assumes "l = sw_log (sender_session pf deps calls m)" and "i < length l" and "l ! i = Ev_releaseRejected d"
  shows "\<exists>j<i. \<exists>r c. l ! j = Ev_save r \<and> sn_deliveryId r = d \<and> sn_receipt r = Some c \<and>
    rc_status c = Rejected \<and> valid_receipt (pf_url pf) c \<and> assertReceiptIdentity r c = Inr ()"
proof -
  have "event_ok (pf_url pf) (take i l) (Ev_releaseRejected d)"
    using session_event [of i pf deps calls m] assms by auto
  then obtain r where "Ev_save r \<in> set (take i l)" "sn_deliveryId r = d" "sn_status r = Sender_rejected"
    "sender_record_ok (pf_url pf) r"
    by auto
  then show ?thesis
    unfolding sender_record_ok_def by (fastforce dest!: in_take)
qed

theorem sender_releases_only_rejected_witness:
  "\<exists>j<5. \<exists>r c. sw_log demo_session ! j = Ev_save r \<and> sn_receipt r = Some c \<and> rc_status c = Rejected"
proof -
  note released = sender_releases_only_rejected [OF refl, of 5 demo_platform
      "demo_sender_deps (Receipt_result (receipt_wire demo_rejection))" "[Ask_send demo_sender_request (demo_options 1)]"
      "()" demo_id, folded demo_session_def]
  show ?thesis
    using released by (simp add: demo_session_log) blast
qed

text \<open>
  C18: Sending a payment terminates and sends at most the configured number of messages, as does resuming
  one, whatever the transport answers.
\<close>

theorem sender_attempts_bounded:
  assumes "op_maxAttempts options = Some (JInt n)"
  shows "sends (snd (sendPayment pf deps request options w)) \<le> sends w + nat n \<and>
    sends (snd (resumePayment pf deps d options w)) \<le> sends w + nat n"
proof -
  have "max_attempts options = JInt n"
    using assms by (simp add: max_attempts_def)
  then show ?thesis
    using sendPayment_adds [of options n pf deps request] resumePayment_adds [of options n pf deps d]
    by (simp add: adds_def)
qed

theorem sender_attempts_bounded_witness:
  "sends (snd (sendPayment demo_platform (demo_sender_deps No_response) demo_sender_request (demo_options 3)
     \<lparr>sw_records = [], sw_lockScope = False, sw_env = (), sw_log = []\<rparr>)) \<le> 3"
proof -
  have "op_maxAttempts (demo_options 3) = Some (JInt 3)"
    by (simp add: demo_options_def)
  from conjunct1 [OF sender_attempts_bounded [OF this, of demo_platform "demo_sender_deps No_response"
      demo_sender_request "\<lparr>sw_records = [], sw_lockScope = False, sw_env = (), sw_log = []\<rparr>" demo_id]]
  show ?thesis by (simp add: sends_def)
qed

lemma mark_told: "told d (snd (attempt (logged (Ev_markRecoveryRequired d) (port f))
    (\<lambda>_. throw e) (\<lambda>e'. throw (AggregateError e e')) w))"
  using logged_told(3) [of d f w] by (auto simp: attempt_def throw_def split: prod.split sum.split)

lemma after_failure_told:
  "told d (snd (markRecoveryAfterNonterminalFailure deps d e w)) \<or>
   (\<exists>r. state_get d (sw_records (snd (markRecoveryAfterNonterminalFailure deps d e w))) = Some r \<and>
      sn_status r \<in> {Sender_settled, Sender_rejected})"
proof -
  let ?mark = "attempt (logged (Ev_markRecoveryRequired d) (port (sd_markRecoveryRequired deps d)))
       (\<lambda>_. throw e) (\<lambda>markError. throw (AggregateError e markError))"
  let ?final = "case state_get d (sw_records w) of None \<Rightarrow> False
      | Some r \<Rightarrow> sn_status r = Sender_settled \<or> sn_status r = Sender_rejected"
  have run: "markRecoveryAfterNonterminalFailure deps d e w = (if ?final then throw e else ?mark) w"
    by (simp add: markRecoveryAfterNonterminalFailure_def andThen_def attempt_def [of "get d"] get_def)
  show ?thesis
  proof (cases ?final)
    case True
    then show ?thesis
      by (auto simp: run throw_def split: option.splits)
  next
    case False
    then show ?thesis
      by (simp add: run mark_told)
  qed
qed

text \<open>
  C17: Reserved proofs are never forgotten: once the wallet has reserved proofs for a new delivery, the
  payment ends, whether it returns or throws, with the wallet told that the delivery is settled,
  rejected or in need of recovery, or else with a settled or rejected record stored.
\<close>

theorem reservation_never_forgotten:
  assumes new: "state_get d (sw_records w) = None"
    and reserved: "fst (sd_reserveExact deps \<lparr>rv_deliveryId = d, rv_amount = sq_amount request,
      rv_unit = sq_unit request, rv_mints = sq_mints request\<rparr> (sw_env w)) = Inr proofs"
    and run: "send_locked pf deps request options d now expires w = (res, w')"
  shows "told d w' \<or> (\<exists>r. state_get d (sw_records w') = Some r \<and> sn_status r \<in> {Sender_settled, Sender_rejected})"
proof -
  let ?q = "\<lparr>rv_deliveryId = d, rv_amount = sq_amount request, rv_unit = sq_unit request, rv_mints = sq_mints request\<rparr>"
  let ?prep = "andThen (lift (prepare_record pf request options d proofs now expires)) (\<lambda>record.
          andThen (create record) (\<lambda>_. ret record))"
  let ?go = "\<lambda>r. attempt (runAttempts pf deps r options) ret (markRecoveryAfterNonterminalFailure deps d)"
  let ?fail = "\<lambda>e. attempt (logged (Ev_markRecoveryRequired d) (port (sd_markRecoveryRequired deps d)))
            (\<lambda>_. throw e) (\<lambda>markError. throw (AggregateError e markError))"
  define w1 where "w1 = (note_event (Ev_reserve d) w)\<lparr>sw_env := snd (sd_reserveExact deps ?q (sw_env w))\<rparr>"
  have "logged (Ev_reserve d) (port (sd_reserveExact deps ?q)) w = (Inr proofs, w1)"
    using reserved by (simp add: logged_def port_def note_event_def w1_def split_beta Let_def)
  then have eq: "(res, w') = attempt ?prep ?go ?fail w1"
    using run new by (simp add: send_locked_def andThen_Inr get_def)
  show ?thesis
  proof (cases "?prep w1")
    case (Pair x w2)
    show ?thesis
    proof (cases x)
      case (Inl e)
      then have "(res, w') = ?fail e w2"
        using eq Pair by (simp add: attempt_Inl)
      then show ?thesis
        using mark_told [of d "sd_markRecoveryRequired deps d" e w2] by (metis snd_conv)
    next
      case (Inr r)
      then have go: "(res, w') = ?go r w2"
        using eq Pair by (simp add: attempt_Inr)
      have "prepare_record pf request options d proofs now expires = Inr r"
        using Pair Inr by (cases "prepare_record pf request options d proofs now expires")
          (auto simp: throw_def andThen_eq_Inr ret_def)
      then have id: "sn_deliveryId r = d"
        by (rule prepare_record_ok(3))
      show ?thesis
      proof (cases "runAttempts pf deps r options w2")
        case (Pair y w3)
        show ?thesis
        proof (cases y)
          case (Inr out)
          then have "told d w3"
            using runAttempts_told [of pf deps r options] Pair id unfolding ends_def by blast
          then show ?thesis
            using go Pair Inr by (simp add: attempt_Inr ret_def)
        next
          case (Inl e)
          then have "(res, w') = markRecoveryAfterNonterminalFailure deps d e w3"
            using go Pair by (simp add: attempt_Inl)
          then show ?thesis
            using after_failure_told [of d deps e w3] by (metis snd_conv)
        qed
      qed
    qed
  qed
qed

definition demo_sender_start :: "unit sender_world" where
  "demo_sender_start = \<lparr>sw_records = [], sw_lockScope = False, sw_env = (), sw_log = []\<rparr>"

theorem reservation_never_forgotten_witness:
  "\<exists>res w'. send_locked demo_platform (demo_sender_deps No_response) demo_sender_request (demo_options 1)
     demo_id 1000 2000 demo_sender_start = (res, w') \<and>
   (told demo_id w' \<or> (\<exists>r. state_get demo_id (sw_records w') = Some r \<and>
     sn_status r \<in> {Sender_settled, Sender_rejected}))"
proof -
  let ?deps = "demo_sender_deps No_response"
  obtain res w' where run: "send_locked demo_platform ?deps demo_sender_request (demo_options 1)
      demo_id 1000 2000 demo_sender_start = (res, w')"
    by fastforce
  have new: "state_get demo_id (sw_records demo_sender_start) = None"
    by (simp add: demo_sender_start_def state_get_def)
  have "fst (sd_reserveExact ?deps q (sw_env demo_sender_start)) =
      Inr \<lparr>rs_mint = ''https://mint.io/a'', rs_unit = ''sat'', rs_netAmount = JInt 8, rs_proofs = []\<rparr>" for q
    by (simp add: demo_sender_deps_def)
  from reservation_never_forgotten [OF new this run] run show ?thesis by blast
qed

end
