(* ===== verification/Oracle.thy ===== *)
theory Oracle
  imports Receipt Js_Map
begin

text \<open>
  \<open>packages/oracle/src\<close>: the model that observations of a run build (\<open>model.ts\<close>, \<open>commands.ts\<close>) and the
  checks on it (\<open>invariants.ts\<close>). Versions and amounts are integers, still tested for the safe range. A
  failed check is the value of \<open>oracle_violation\<close> that names it. The key \<open>deliveryId\0version\<close> of the
  receipt table is the pair of the two.
\<close>

section \<open>The model\<close>

datatype oracle_transport = Http_transport | Nostr_transport

datatype oracle_proof_state = State_UNSPENT | State_PENDING | State_SPENT

record oracle_delivery =
  od_requestId :: string
  od_deliveryId :: string
  od_payloadHash :: string
  od_proofSetHash :: string
  od_transports :: "oracle_transport list"
  od_replacementPlanHash :: "string option"

record oracle_credit =
  oc_creditId :: string
  oc_requestId :: string
  oc_deliveryId :: string
  oc_amount :: int
  oc_unit :: string

record oracle_receipt =
  or_requestId :: string
  or_deliveryId :: string
  or_payloadHash :: string
  or_status :: delivery_status
  or_detailCode :: string
  or_version :: int
  or_amount :: int
  or_unit :: string

record attempted_delivery =
  at_requestId :: string
  at_deliveryId :: string
  at_payloadHash :: string
  at_proofSetHash :: string
  at_transport :: oracle_transport

datatype observation =
    Request_observed string bool
  | Delivery_attempted attempted_delivery
  | Mint_proofs_state string oracle_proof_state
  | Redemption_started string string
  | Receiver_settled string string
  | Merchant_credited oracle_credit
  | Receipt_observed oracle_receipt

record oracle_model =
  om_requests :: "(string, bool) jsmap"
  om_deliveries :: "(string, oracle_delivery) jsmap"
  om_proofOwners :: "(string, string) jsmap"
  om_proofStates :: "(string, oracle_proof_state) jsmap"
  om_credits :: "(string, oracle_credit) jsmap"
  om_receipts :: "(string, oracle_receipt) jsmap"
  om_observations :: "observation list"

definition emptyOracleModel :: oracle_model where
  "emptyOracleModel = \<lparr>om_requests = [], om_deliveries = [], om_proofOwners = [], om_proofStates = [],
     om_credits = [], om_receipts = [], om_observations = []\<rparr>"

definition set_if_absent :: "('k, 'v) jsmap \<Rightarrow> 'k \<Rightarrow> 'v \<Rightarrow> ('k, 'v) jsmap" where
  "set_if_absent m k v = (if map_of m k = None then mp_set m k v else m)"

definition attempt_delivery :: "oracle_model \<Rightarrow> attempted_delivery \<Rightarrow> (string, oracle_delivery) jsmap" where
  "attempt_delivery m a =
     (case map_of (om_deliveries m) (at_deliveryId a) of
        None \<Rightarrow> mp_set (om_deliveries m) (at_deliveryId a)
          \<lparr>od_requestId = at_requestId a, od_deliveryId = at_deliveryId a, od_payloadHash = at_payloadHash a,
           od_proofSetHash = at_proofSetHash a, od_transports = [at_transport a], od_replacementPlanHash = None\<rparr>
      | Some previous \<Rightarrow>
          if od_requestId previous = at_requestId a \<and> od_payloadHash previous = at_payloadHash a \<and>
             od_proofSetHash previous = at_proofSetHash a
          then mp_set (om_deliveries m) (at_deliveryId a)
            (previous\<lparr>od_transports := List.insert (at_transport a) (od_transports previous)\<rparr>)
          else om_deliveries m)"

definition applyObservation :: "oracle_model \<Rightarrow> observation \<Rightarrow> oracle_model" where
  "applyObservation m ob =
     (case ob of
        Request_observed r single \<Rightarrow> m\<lparr>om_requests := set_if_absent (om_requests m) r single\<rparr>
      | Delivery_attempted a \<Rightarrow> m\<lparr>om_deliveries := attempt_delivery m a,
          om_proofOwners := set_if_absent (om_proofOwners m) (at_proofSetHash a) (at_deliveryId a)\<rparr>
      | Mint_proofs_state p s \<Rightarrow> m\<lparr>om_proofStates := mp_set (om_proofStates m) p s\<rparr>
      | Redemption_started d p \<Rightarrow> m
      | Receiver_settled d h \<Rightarrow>
          (case map_of (om_deliveries m) d of
             None \<Rightarrow> m
           | Some previous \<Rightarrow>
               if od_replacementPlanHash previous = None
               then m\<lparr>om_deliveries := mp_set (om_deliveries m) d (previous\<lparr>od_replacementPlanHash := Some h\<rparr>)\<rparr>
               else m)
      | Merchant_credited c \<Rightarrow> m\<lparr>om_credits := set_if_absent (om_credits m) (oc_creditId c) c\<rparr>
      | Receipt_observed r \<Rightarrow>
          (case map_of (om_receipts m) (or_deliveryId r) of
             None \<Rightarrow> m\<lparr>om_receipts := mp_set (om_receipts m) (or_deliveryId r) r\<rparr>
           | Some previous \<Rightarrow>
               if or_version r > or_version previous
               then m\<lparr>om_receipts := mp_set (om_receipts m) (or_deliveryId r) r\<rparr> else m))
     \<lparr>om_observations := om_observations m @ [ob]\<rparr>"

section \<open>Safety\<close>

datatype oracle_violation =
    Request_policy_mutable string
  | Delivery_identity_mutable string
  | Proof_set_owner string
  | Redemption_identity string
  | Redemption_twice string
  | Settlement_plan_conflict string
  | Credit_identity_mutable string
  | Receipt_version_invalid string
  | Receipt_version_conflict string int
  | Delivery_credited_twice string
  | Credited_without_outputs string
  | Credit_delivery_mismatch string
  | Credit_amount_invalid string
  | Single_use_credited_twice string
  | Receipt_delivery_mismatch string
  | Terminal_regressed string
  | Settled_without_credit string
  | Settled_credit_mismatch string
  | Rejected_after_consumption string
  | Settled_amount_mismatch string int int
  | Settled_unit_mismatch string string string
  | Not_quiescent_no_receipt string
  | Not_quiescent string

type_synonym delivery_identity = "string \<times> string \<times> string"

record safety_scan =
  sc_requests :: "(string, bool) jsmap"
  sc_deliveries :: "(string, delivery_identity) jsmap"
  sc_proofOwners :: "(string, string) jsmap"
  sc_redemptionStarts :: "(string, int) jsmap"
  sc_mayBeConsumed :: "string list"
  sc_settlementPlans :: "(string, string) jsmap"
  sc_credits :: "(string, oracle_credit) jsmap"
  sc_creditsByDelivery :: "(string, string list) jsmap"
  sc_creditsByRequest :: "(string, string list) jsmap"
  sc_receiptVersions :: "(string \<times> int, oracle_receipt) jsmap"
  sc_receiptsByDelivery :: "(string, oracle_receipt list) jsmap"

definition empty_scan :: safety_scan where
  "empty_scan = \<lparr>sc_requests = [], sc_deliveries = [], sc_proofOwners = [], sc_redemptionStarts = [],
     sc_mayBeConsumed = [], sc_settlementPlans = [], sc_credits = [], sc_creditsByDelivery = [],
     sc_creditsByRequest = [], sc_receiptVersions = [], sc_receiptsByDelivery = []\<rparr>"

definition identity_of :: "attempted_delivery \<Rightarrow> delivery_identity" where
  "identity_of a = (at_requestId a, at_payloadHash a, at_proofSetHash a)"

definition addToSetMap :: "(string, string list) jsmap \<Rightarrow> string \<Rightarrow> string \<Rightarrow> (string, string list) jsmap" where
  "addToSetMap m k v = mp_set m k (List.insert v (case map_of m k of None \<Rightarrow> [] | Some vs \<Rightarrow> vs))"

text \<open>One turn of the first loop; \<open>conflicts\<close> is the test \<open>previous !== undefined && previous !== value\<close>.\<close>

definition conflicts :: "'v option \<Rightarrow> 'v \<Rightarrow> bool" where
  "conflicts previous v \<longleftrightarrow> (case previous of None \<Rightarrow> False | Some p \<Rightarrow> p \<noteq> v)"

fun scan_step :: "safety_scan \<Rightarrow> observation \<Rightarrow> oracle_violation + safety_scan" where
  "scan_step s (Request_observed r single) =
     (if conflicts (map_of (sc_requests s) r) single then Inl (Request_policy_mutable r)
      else Inr (s\<lparr>sc_requests := mp_set (sc_requests s) r single\<rparr>))"
| "scan_step s (Delivery_attempted a) =
     (let d = at_deliveryId a; p = at_proofSetHash a in
      if conflicts (map_of (sc_deliveries s) d) (identity_of a) then Inl (Delivery_identity_mutable d)
      else if conflicts (map_of (sc_proofOwners s) p) d then Inl (Proof_set_owner p)
      else Inr (s\<lparr>sc_deliveries := mp_set (sc_deliveries s) d (identity_of a),
        sc_proofOwners := mp_set (sc_proofOwners s) p d\<rparr>))"
| "scan_step s (Mint_proofs_state p st) =
     Inr (if st = State_PENDING \<or> st = State_SPENT
          then s\<lparr>sc_mayBeConsumed := List.insert p (sc_mayBeConsumed s)\<rparr> else s)"
| "scan_step s (Redemption_started d p) =
     (case map_of (sc_deliveries s) d of
        None \<Rightarrow> Inl (Redemption_identity d)
      | Some i \<Rightarrow>
          if snd (snd i) \<noteq> p then Inl (Redemption_identity d)
          else
            let count = (case map_of (sc_redemptionStarts s) d of None \<Rightarrow> 0 | Some n \<Rightarrow> n) + 1 in
            if count > 1 then Inl (Redemption_twice d)
            else Inr (s\<lparr>sc_redemptionStarts := mp_set (sc_redemptionStarts s) d count\<rparr>))"
| "scan_step s (Receiver_settled d h) =
     (if conflicts (map_of (sc_settlementPlans s) d) h then Inl (Settlement_plan_conflict d)
      else Inr (s\<lparr>sc_settlementPlans := mp_set (sc_settlementPlans s) d h\<rparr>))"
| "scan_step s (Merchant_credited c) =
     (if conflicts (map_of (sc_credits s) (oc_creditId c)) c then Inl (Credit_identity_mutable (oc_creditId c))
      else Inr (s\<lparr>sc_credits := mp_set (sc_credits s) (oc_creditId c) c,
        sc_creditsByDelivery := addToSetMap (sc_creditsByDelivery s) (oc_deliveryId c) (oc_creditId c),
        sc_creditsByRequest := addToSetMap (sc_creditsByRequest s) (oc_requestId c) (oc_creditId c)\<rparr>))"
| "scan_step s (Receipt_observed r) =
     (let d = or_deliveryId r; k = (d, or_version r) in
      if \<not> safe_int (or_version r) \<or> or_version r < 1 then Inl (Receipt_version_invalid d)
      else if conflicts (map_of (sc_receiptVersions s) k) r then Inl (Receipt_version_conflict d (or_version r))
      else Inr (s\<lparr>sc_receiptVersions := mp_set (sc_receiptVersions s) k r,
        sc_receiptsByDelivery := mp_set (sc_receiptsByDelivery s) d
          ((case map_of (sc_receiptsByDelivery s) d of None \<Rightarrow> [] | Some rs \<Rightarrow> rs) @ [r])\<rparr>))"

text \<open>The checks after the loop.\<close>

definition check_credit :: "safety_scan \<Rightarrow> string \<Rightarrow> string \<Rightarrow> oracle_violation + unit" where
  "check_credit s d creditId =
     (case (map_of (sc_credits s) creditId, map_of (sc_deliveries s) d) of
        (Some credit, Some i) \<Rightarrow>
          if oc_requestId credit \<noteq> fst i then Inl (Credit_delivery_mismatch creditId)
          else if \<not> safe_int (oc_amount credit) \<or> oc_amount credit < 0 then Inl (Credit_amount_invalid creditId)
          else Inr ()
      | _ \<Rightarrow> Inl (Credit_delivery_mismatch creditId))"

definition each :: "('a \<Rightarrow> 'e + unit) \<Rightarrow> 'a list \<Rightarrow> 'e + unit" where
  "each f xs = rbind (traverse f xs) (\<lambda>_. Inr ())"

definition check_credited :: "safety_scan \<Rightarrow> string \<times> string list \<Rightarrow> oracle_violation + unit" where
  "check_credited s entry =
     (let d = fst entry; creditIds = snd entry in
      if length creditIds > 1 then Inl (Delivery_credited_twice d)
      else if map_of (sc_settlementPlans s) d = None then Inl (Credited_without_outputs d)
      else each (check_credit s d) creditIds)"

definition check_request :: "safety_scan \<Rightarrow> string \<times> string list \<Rightarrow> oracle_violation + unit" where
  "check_request s entry =
     ensure (\<not> (map_of (sc_requests s) (fst entry) = Some True \<and> length (snd entry) > 1))
       (Single_use_credited_twice (fst entry))"

text \<open>One receipt per version: the later value, at the place of the first.\<close>

definition unique_versions :: "oracle_receipt list \<Rightarrow> oracle_receipt list" where
  "unique_versions history = mp_values (fold (\<lambda>r m. mp_set m (or_version r) r) history [])"

definition terminal_status :: "delivery_status \<Rightarrow> bool" where
  "terminal_status st \<longleftrightarrow> st = Settled \<or> st = Rejected"

definition check_receipts :: "safety_scan \<Rightarrow> string \<times> oracle_receipt list \<Rightarrow> oracle_violation + unit" where
  "check_receipts s entry =
     (let d = fst entry; unique = unique_versions (snd entry); identity = map_of (sc_deliveries s) d in
      rbind (traverse (\<lambda>r. ensure (case identity of None \<Rightarrow> True
          | Some i \<Rightarrow> \<not> (or_requestId r \<noteq> fst i \<or> or_payloadHash r \<noteq> fst (snd i)))
          (Receipt_delivery_mismatch d)) unique) (\<lambda>_.
      rbind (case sort_key or_version (filter (\<lambda>r. terminal_status (or_status r)) unique) of
               [] \<Rightarrow> Inr ()
             | terminal # _ \<Rightarrow>
                 ensure (\<not> list_ex (\<lambda>r. or_version r > or_version terminal \<and> r \<noteq> terminal) unique)
                   (Terminal_regressed d)) (\<lambda>_.
      let latest = hd (sort_key (\<lambda>r. - or_version r) unique) in
      rbind (if or_status latest = Settled then
               (case map_of (sc_creditsByDelivery s) d of
                  Some [c] \<Rightarrow>
                    if map_of (sc_settlementPlans s) d = None then Inl (Settled_without_credit d)
                    else (case map_of (sc_credits s) c of
                        None \<Rightarrow> Inl (Settled_credit_mismatch d)
                      | Some credit \<Rightarrow>
                          ensure (oc_requestId credit = or_requestId latest \<and>
                            oc_amount credit = or_amount latest \<and> oc_unit credit = or_unit latest)
                            (Settled_credit_mismatch d))
                | _ \<Rightarrow> Inl (Settled_without_credit d))
             else Inr ()) (\<lambda>_.
      ensure (\<not> (or_status latest = Rejected \<and>
          (case identity of None \<Rightarrow> False | Some i \<Rightarrow> snd (snd i) \<in> set (sc_mayBeConsumed s))))
        (Rejected_after_consumption d)))))"

definition check_amounts :: "safety_scan \<Rightarrow> string \<times> oracle_receipt list \<Rightarrow> oracle_violation + unit" where
  "check_amounts s entry =
     (let d = fst entry in
      case sort_key (\<lambda>r. - or_version r) (filter (\<lambda>r. or_status r = Settled) (snd entry)) of
        [] \<Rightarrow> Inr ()
      | settled # _ \<Rightarrow>
          (case map_of (sc_creditsByDelivery s) d of
             Some [c] \<Rightarrow>
               (case map_of (sc_credits s) c of
                  None \<Rightarrow> Inr ()
                | Some credit \<Rightarrow>
                    if oc_amount credit \<noteq> or_amount settled then Inl (Settled_amount_mismatch d (or_amount settled) (oc_amount credit))
                    else if oc_unit credit \<noteq> or_unit settled then Inl (Settled_unit_mismatch d (or_unit settled) (oc_unit credit))
                    else Inr ())
           | _ \<Rightarrow> Inr ()))"

definition assertSafety :: "oracle_model \<Rightarrow> oracle_violation + unit" where
  "assertSafety model =
     rbind (rfold scan_step empty_scan (om_observations model)) (\<lambda>s.
     rbind (each (check_credited s) (sc_creditsByDelivery s)) (\<lambda>_.
     rbind (each (check_request s) (sc_creditsByRequest s)) (\<lambda>_.
     rbind (each (check_receipts s) (sc_receiptsByDelivery s)) (\<lambda>_.
       each (check_amounts s) (sc_receiptsByDelivery s)))))"

section \<open>Liveness\<close>

definition latestReceipt :: "observation list \<Rightarrow> string \<Rightarrow> oracle_receipt option" where
  "latestReceipt obs d = foldl (\<lambda>latest ob.
     case ob of
       Receipt_observed r \<Rightarrow>
         if or_deliveryId r = d \<and> (case latest of None \<Rightarrow> True | Some l \<Rightarrow> or_version r > or_version l)
         then Some r else latest
     | _ \<Rightarrow> latest) None obs"

fun strongest_from :: "oracle_proof_state option \<Rightarrow> observation list \<Rightarrow> string \<Rightarrow> oracle_proof_state option" where
  "strongest_from strongest [] p = strongest"
| "strongest_from strongest (ob # obs) p =
     (case ob of
        Mint_proofs_state p' st \<Rightarrow>
          if p' \<noteq> p then strongest_from strongest obs p
          else if st = State_SPENT then Some State_SPENT
          else if st = State_PENDING then strongest_from (Some State_PENDING) obs p
          else strongest_from (case strongest of None \<Rightarrow> Some State_UNSPENT | Some s \<Rightarrow> Some s) obs p
      | _ \<Rightarrow> strongest_from strongest obs p)"

definition strongestState :: "observation list \<Rightarrow> string \<Rightarrow> oracle_proof_state option" where
  "strongestState obs p = strongest_from None obs p"

definition assertQuiescentLiveness :: "oracle_model \<Rightarrow> oracle_violation + unit" where
  "assertQuiescentLiveness model =
     rbind (assertSafety model) (\<lambda>_.
     each (\<lambda>delivery.
       case latestReceipt (om_observations model) (od_deliveryId delivery) of
         None \<Rightarrow> Inl (Not_quiescent_no_receipt (od_deliveryId delivery))
       | Some receipt \<Rightarrow>
           if or_status receipt = Settled \<or> or_status receipt = Rejected then Inr ()
           else
             let state = strongestState (om_observations model) (od_proofSetHash delivery) in
             if or_detailCode receipt = ''recovery_blocked'' \<and>
                (state = Some State_PENDING \<or> state = Some State_SPENT)
             then Inr () else Inl (Not_quiescent (od_deliveryId delivery)))
       (mp_values (om_deliveries model)))"

end
