(* ===== verification/Oracle_Spec.thy ===== *)
theory Oracle_Spec
  imports Oracle Version_Register
begin

text \<open>
  What the oracle's safety check decides. \<open>oracle_safe\<close> states it over the observations themselves; the
  check of the code builds eleven tables in one pass and then walks through them. The lemmas say what
  each table holds after a prefix of the observations.
\<close>

section \<open>The specification\<close>

definition requests_of :: "observation list \<Rightarrow> (string \<times> bool) set" where
  "requests_of obs = {(r, b). Request_observed r b \<in> set obs}"

definition deliveries_of :: "observation list \<Rightarrow> (string \<times> delivery_identity) set" where
  "deliveries_of obs = (\<lambda>a. (at_deliveryId a, identity_of a)) ` {a. Delivery_attempted a \<in> set obs}"

definition owners_of :: "observation list \<Rightarrow> (string \<times> string) set" where
  "owners_of obs = (\<lambda>a. (at_proofSetHash a, at_deliveryId a)) ` {a. Delivery_attempted a \<in> set obs}"

definition plans_of :: "observation list \<Rightarrow> (string \<times> string) set" where
  "plans_of obs = {(d, h). Receiver_settled d h \<in> set obs}"

definition credited :: "observation list \<Rightarrow> oracle_credit set" where
  "credited obs = {c. Merchant_credited c \<in> set obs}"

definition received :: "observation list \<Rightarrow> oracle_receipt list" where
  "received obs = concat (map (\<lambda>ob. case ob of Receipt_observed r \<Rightarrow> [r] | _ \<Rightarrow> []) obs)"

definition credits_of :: "observation list \<Rightarrow> (string \<times> oracle_credit) set" where
  "credits_of obs = (\<lambda>c. (oc_creditId c, c)) ` credited obs"

definition versions_of :: "observation list \<Rightarrow> ((string \<times> int) \<times> oracle_receipt) set" where
  "versions_of obs = (\<lambda>r. ((or_deliveryId r, or_version r), r)) ` set (received obs)"

definition consumed_of :: "observation list \<Rightarrow> string set" where
  "consumed_of obs = {p. \<exists>st. Mint_proofs_state p st \<in> set obs \<and> st \<noteq> State_UNSPENT}"

fun is_start :: "string \<Rightarrow> observation \<Rightarrow> bool" where
  "is_start d (Redemption_started d' p) \<longleftrightarrow> d' = d"
| "is_start d _ \<longleftrightarrow> False"

definition started :: "observation list \<Rightarrow> string \<Rightarrow> bool" where
  "started obs d \<longleftrightarrow> list_ex (is_start d) obs"

text \<open>Every redemption follows an attempt of its delivery with its proofs, and no delivery starts two.\<close>

definition redemptions_ok :: "observation list \<Rightarrow> bool" where
  "redemptions_ok obs \<longleftrightarrow>
     (\<forall>i<length obs. \<forall>d p. obs ! i = Redemption_started d p \<longrightarrow>
        (\<exists>i'. (d, i') \<in> deliveries_of (take i obs) \<and> snd (snd i') = p)) \<and>
     (\<forall>d. length (filter (is_start d) obs) \<le> 1)"

text \<open>What the single pass over the observations decides.\<close>

definition scan_ok :: "observation list \<Rightarrow> bool" where
  "scan_ok obs \<longleftrightarrow>
     single_valued (requests_of obs) \<and> single_valued (deliveries_of obs) \<and> single_valued (owners_of obs) \<and>
     single_valued (plans_of obs) \<and> single_valued (credits_of obs) \<and> single_valued (versions_of obs) \<and>
     (\<forall>r\<in>set (received obs). safe_int (or_version r) \<and> 1 \<le> or_version r) \<and>
     redemptions_ok obs"

definition credits_ok :: "observation list \<Rightarrow> bool" where
  "credits_ok obs \<longleftrightarrow>
     (\<forall>c\<in>credited obs.
        (\<exists>h. (oc_deliveryId c, h) \<in> plans_of obs) \<and>
        (\<exists>i. (oc_deliveryId c, i) \<in> deliveries_of obs \<and> fst i = oc_requestId c) \<and>
        safe_nonneg (oc_amount c) \<and>
        (\<forall>c'\<in>credited obs. oc_deliveryId c' = oc_deliveryId c \<longrightarrow> oc_creditId c' = oc_creditId c) \<and>
        (\<forall>c'\<in>credited obs. oc_requestId c' = oc_requestId c \<and> (oc_requestId c, True) \<in> requests_of obs \<longrightarrow>
           oc_creditId c' = oc_creditId c))"

definition receipts_ok :: "observation list \<Rightarrow> bool" where
  "receipts_ok obs \<longleftrightarrow>
     (\<forall>r\<in>set (received obs).
        (\<forall>i. (or_deliveryId r, i) \<in> deliveries_of obs \<longrightarrow>
           or_requestId r = fst i \<and> or_payloadHash r = fst (snd i)) \<and>
        (terminal_status (or_status r) \<longrightarrow>
           (\<forall>r'\<in>set (received obs). or_deliveryId r' = or_deliveryId r \<longrightarrow> or_version r' \<le> or_version r)) \<and>
        (or_status r = Settled \<longrightarrow>
           (\<exists>c\<in>credited obs. oc_deliveryId c = or_deliveryId r \<and> oc_requestId c = or_requestId r \<and>
              oc_amount c = or_amount r \<and> oc_unit c = or_unit r)) \<and>
        (or_status r = Rejected \<longrightarrow>
           (\<forall>i. (or_deliveryId r, i) \<in> deliveries_of obs \<longrightarrow> snd (snd i) \<notin> consumed_of obs)))"

definition oracle_safe :: "observation list \<Rightarrow> bool" where
  "oracle_safe obs \<longleftrightarrow> scan_ok obs \<and> credits_ok obs \<and> receipts_ok obs"

section \<open>Tables\<close>

definition table :: "('k, 'v) jsmap \<Rightarrow> ('k \<times> 'v) set \<Rightarrow> bool" where
  "table m T \<longleftrightarrow> (\<forall>k v. map_of m k = Some v \<longleftrightarrow> (k, v) \<in> T)"

definition grouped :: "(string, string list) jsmap \<Rightarrow> (string \<times> string) set \<Rightarrow> bool" where
  "grouped m T \<longleftrightarrow> mp_ok m \<and>
     (\<forall>k. case map_of m k of None \<Rightarrow> T `` {k} = {} | Some vs \<Rightarrow> vs \<noteq> [] \<and> distinct vs \<and> set vs = T `` {k})"

lemma table_empty: "table [] {}" and grouped_empty: "grouped [] {}"
  by (simp_all add: table_def grouped_def)

lemma table_in: "table m T \<Longrightarrow> (k, v) \<in> T \<longleftrightarrow> map_of m k = Some v"
  by (simp add: table_def)

lemma table_single_valued: "table m T \<Longrightarrow> single_valued T"
  by (rule single_valuedI) (simp add: table_in)

lemma table_insert:
  assumes "table m T"
  shows "\<not> conflicts (map_of m k) v \<longleftrightarrow> single_valued (insert (k, v) T)"
    and "\<not> conflicts (map_of m k) v \<Longrightarrow> table (mp_set m k v) (insert (k, v) T)"
proof -
  have c: "conflicts (map_of m k) v \<longleftrightarrow> (\<exists>v'. (k, v') \<in> T \<and> v' \<noteq> v)"
    by (simp add: conflicts_def table_in [OF assms] split: option.split)
  show "\<not> conflicts (map_of m k) v \<longleftrightarrow> single_valued (insert (k, v) T)"
    using c table_single_valued [OF assms] by (auto simp: single_valued_def)
  assume n: "\<not> conflicts (map_of m k) v"
  have "(x, y) \<in> insert (k, v) T \<longleftrightarrow> (if x = k then y = v else (x, y) \<in> T)" for x y
    using n c by auto
  then show "table (mp_set m k v) (insert (k, v) T)"
    unfolding table_def by (auto simp: map_upd_Some_iff table_in [OF assms] simp del: insert_iff)
qed

lemma conflicts_iff: "table m T \<Longrightarrow> conflicts (map_of m k) v \<longleftrightarrow> \<not> single_valued (insert (k, v) T)"
  by (simp flip: table_insert(1))

lemma grouped_at:
  "grouped m T \<Longrightarrow> case map_of m k of None \<Rightarrow> T `` {k} = {} | Some vs \<Rightarrow> vs \<noteq> [] \<and> distinct vs \<and> set vs = T `` {k}"
  by (simp add: grouped_def)

lemma grouped_add:
  assumes "grouped m T"
  shows "grouped (addToSetMap m k v) (insert (k, v) T)"
proof -
  have "case map_of (addToSetMap m k v) x of None \<Rightarrow> insert (k, v) T `` {x} = {}
     | Some vs \<Rightarrow> vs \<noteq> [] \<and> distinct vs \<and> set vs = insert (k, v) T `` {x}" for x
  proof (cases "x = k")
    case True
    then show ?thesis
      using grouped_at [OF assms, of k] unfolding addToSetMap_def
      by (cases "map_of m k") (auto simp flip: set_empty simp: Image_def)
  next
    case False
    then have "insert (k, v) T `` {x} = T `` {x}" by auto
    with False grouped_at [OF assms, of x] show ?thesis
      by (cases "map_of m x") (simp_all add: addToSetMap_def)
  qed
  then show ?thesis
    using assms by (simp add: grouped_def addToSetMap_def)
qed

lemma grouped_dest:
  assumes "grouped m T" and "map_of m k = Some vs"
  shows "vs \<noteq> []" and "distinct vs" and "set vs = T `` {k}"
  using grouped_at [OF assms(1), of k] assms(2) by auto

lemma grouped_single:
  assumes "grouped m T"
  shows "map_of m k = Some [v] \<longleftrightarrow> T `` {k} = {v}"
proof (cases "map_of m k")
  case None
  then show ?thesis using grouped_at [OF assms, of k] by auto
next
  case (Some vs)
  note g = grouped_dest [OF assms Some]
  show ?thesis
    using g Some by (cases vs rule: remdups_adj.cases) auto
qed

lemma in_entries: "mp_ok m \<Longrightarrow> (k, v) \<in> set m \<longleftrightarrow> map_of m k = Some v"
  by (simp add: mp_ok_def)

lemma grouped_entries:
  assumes "grouped m T"
  shows "(\<forall>e\<in>set m. P (fst e) (snd e)) \<longleftrightarrow> (\<forall>k vs. map_of m k = Some vs \<longrightarrow> P k vs)"
proof -
  have m: "mp_ok m" using assms by (simp add: grouped_def)
  have "(\<forall>e\<in>set m. P (fst e) (snd e)) \<longleftrightarrow> (\<forall>k vs. (k, vs) \<in> set m \<longrightarrow> P k vs)"
    by force
  then show ?thesis by (simp add: in_entries [OF m])
qed

section \<open>The pass over the observations\<close>

lemma requests_of_snoc [simp]:
  "requests_of [] = {}"
  "requests_of (obs @ [Request_observed r b]) = insert (r, b) (requests_of obs)"
  "requests_of (obs @ [Delivery_attempted a]) = requests_of obs"
  "requests_of (obs @ [Mint_proofs_state p st]) = requests_of obs"
  "requests_of (obs @ [Redemption_started d p]) = requests_of obs"
  "requests_of (obs @ [Receiver_settled d h]) = requests_of obs"
  "requests_of (obs @ [Merchant_credited c]) = requests_of obs"
  "requests_of (obs @ [Receipt_observed rc]) = requests_of obs"
  by (auto simp: requests_of_def)

lemma deliveries_of_snoc [simp]:
  "deliveries_of [] = {}"
  "deliveries_of (obs @ [Request_observed r b]) = deliveries_of obs"
  "deliveries_of (obs @ [Delivery_attempted a]) = insert (at_deliveryId a, identity_of a) (deliveries_of obs)"
  "deliveries_of (obs @ [Mint_proofs_state p st]) = deliveries_of obs"
  "deliveries_of (obs @ [Redemption_started d p]) = deliveries_of obs"
  "deliveries_of (obs @ [Receiver_settled d h]) = deliveries_of obs"
  "deliveries_of (obs @ [Merchant_credited c]) = deliveries_of obs"
  "deliveries_of (obs @ [Receipt_observed rc]) = deliveries_of obs"
  by (auto simp: deliveries_of_def)

lemma owners_of_snoc [simp]:
  "owners_of [] = {}"
  "owners_of (obs @ [Request_observed r b]) = owners_of obs"
  "owners_of (obs @ [Delivery_attempted a]) = insert (at_proofSetHash a, at_deliveryId a) (owners_of obs)"
  "owners_of (obs @ [Mint_proofs_state p st]) = owners_of obs"
  "owners_of (obs @ [Redemption_started d p]) = owners_of obs"
  "owners_of (obs @ [Receiver_settled d h]) = owners_of obs"
  "owners_of (obs @ [Merchant_credited c]) = owners_of obs"
  "owners_of (obs @ [Receipt_observed rc]) = owners_of obs"
  by (auto simp: owners_of_def)

lemma plans_of_snoc [simp]:
  "plans_of [] = {}"
  "plans_of (obs @ [Request_observed r b]) = plans_of obs"
  "plans_of (obs @ [Delivery_attempted a]) = plans_of obs"
  "plans_of (obs @ [Mint_proofs_state p st]) = plans_of obs"
  "plans_of (obs @ [Redemption_started d p]) = plans_of obs"
  "plans_of (obs @ [Receiver_settled d h]) = insert (d, h) (plans_of obs)"
  "plans_of (obs @ [Merchant_credited c]) = plans_of obs"
  "plans_of (obs @ [Receipt_observed rc]) = plans_of obs"
  by (auto simp: plans_of_def)

lemma credited_snoc [simp]:
  "credited [] = {}"
  "credited (obs @ [Request_observed r b]) = credited obs"
  "credited (obs @ [Delivery_attempted a]) = credited obs"
  "credited (obs @ [Mint_proofs_state p st]) = credited obs"
  "credited (obs @ [Redemption_started d p]) = credited obs"
  "credited (obs @ [Receiver_settled d h]) = credited obs"
  "credited (obs @ [Merchant_credited c]) = insert c (credited obs)"
  "credited (obs @ [Receipt_observed rc]) = credited obs"
  by (auto simp: credited_def)

lemma received_snoc [simp]:
  "received [] = []"
  "received (obs @ [Request_observed r b]) = received obs"
  "received (obs @ [Delivery_attempted a]) = received obs"
  "received (obs @ [Mint_proofs_state p st]) = received obs"
  "received (obs @ [Redemption_started d p]) = received obs"
  "received (obs @ [Receiver_settled d h]) = received obs"
  "received (obs @ [Merchant_credited c]) = received obs"
  "received (obs @ [Receipt_observed rc]) = received obs @ [rc]"
  by (simp_all add: received_def)

lemma consumed_of_snoc [simp]:
  "consumed_of [] = {}"
  "consumed_of (obs @ [Request_observed r b]) = consumed_of obs"
  "consumed_of (obs @ [Delivery_attempted a]) = consumed_of obs"
  "consumed_of (obs @ [Mint_proofs_state p st]) =
     (if st = State_UNSPENT then consumed_of obs else insert p (consumed_of obs))"
  "consumed_of (obs @ [Redemption_started d p]) = consumed_of obs"
  "consumed_of (obs @ [Receiver_settled d h]) = consumed_of obs"
  "consumed_of (obs @ [Merchant_credited c]) = consumed_of obs"
  "consumed_of (obs @ [Receipt_observed rc]) = consumed_of obs"
  by (auto simp: consumed_of_def)

lemma started_snoc [simp]:
  "started [] d \<longleftrightarrow> False"
  "started (obs @ [ob]) d \<longleftrightarrow> started obs d \<or> is_start d ob"
  by (simp_all add: started_def)

lemma redemptions_ok_snoc:
  "redemptions_ok (obs @ [ob]) \<longleftrightarrow> redemptions_ok obs \<and>
     (\<forall>d p. ob = Redemption_started d p \<longrightarrow>
        (\<exists>i. (d, i) \<in> deliveries_of obs \<and> snd (snd i) = p) \<and> \<not> started obs d)"
proof -
  have n: "(length (filter (is_start d) (obs @ [ob])) \<le> 1) \<longleftrightarrow>
      length (filter (is_start d) obs) \<le> 1 \<and> (is_start d ob \<longrightarrow> \<not> started obs d)" for d
    by (auto simp: started_def list_ex_iff filter_empty_conv simp flip: not_le)
  have s: "is_start d ob \<longleftrightarrow> (\<exists>p. ob = Redemption_started d p)" for d
    by (cases ob) auto
  show ?thesis
    unfolding redemptions_ok_def n s
    by (auto simp: less_Suc_eq nth_append)
qed

lemma redemptions_ok_Nil: "redemptions_ok []"
  by (simp add: redemptions_ok_def)

text \<open>What the tables hold after a prefix of the observations.\<close>

definition scan_rel :: "observation list \<Rightarrow> safety_scan \<Rightarrow> bool" where
  "scan_rel obs s \<longleftrightarrow>
     table (sc_requests s) (requests_of obs) \<and>
     table (sc_deliveries s) (deliveries_of obs) \<and>
     table (sc_proofOwners s) (owners_of obs) \<and>
     (\<forall>d. map_of (sc_redemptionStarts s) d = (if started obs d then Some 1 else None)) \<and>
     set (sc_mayBeConsumed s) = consumed_of obs \<and>
     table (sc_settlementPlans s) (plans_of obs) \<and>
     table (sc_credits s) (credits_of obs) \<and>
     grouped (sc_creditsByDelivery s) ((\<lambda>c. (oc_deliveryId c, oc_creditId c)) ` credited obs) \<and>
     grouped (sc_creditsByRequest s) ((\<lambda>c. (oc_requestId c, oc_creditId c)) ` credited obs) \<and>
     table (sc_receiptVersions s) (versions_of obs) \<and>
     mp_ok (sc_receiptsByDelivery s) \<and>
     (\<forall>d. map_of (sc_receiptsByDelivery s) d =
        (case filter (\<lambda>r. or_deliveryId r = d) (received obs) of [] \<Rightarrow> None | rs \<Rightarrow> Some rs))"

lemma scan_relD:
  assumes "scan_rel obs s"
  shows "table (sc_requests s) (requests_of obs)" and "table (sc_deliveries s) (deliveries_of obs)"
    and "table (sc_proofOwners s) (owners_of obs)"
    and "map_of (sc_redemptionStarts s) d = (if started obs d then Some 1 else None)"
    and "set (sc_mayBeConsumed s) = consumed_of obs" and "table (sc_settlementPlans s) (plans_of obs)"
    and "table (sc_credits s) (credits_of obs)"
    and "grouped (sc_creditsByDelivery s) ((\<lambda>c. (oc_deliveryId c, oc_creditId c)) ` credited obs)"
    and "grouped (sc_creditsByRequest s) ((\<lambda>c. (oc_requestId c, oc_creditId c)) ` credited obs)"
    and "table (sc_receiptVersions s) (versions_of obs)" and "mp_ok (sc_receiptsByDelivery s)"
    and "map_of (sc_receiptsByDelivery s) d =
        (case filter (\<lambda>r. or_deliveryId r = d) (received obs) of [] \<Rightarrow> None | rs \<Rightarrow> Some rs)"
  using assms unfolding scan_rel_def by blast+

lemma credits_of_snoc [simp]:
  "credits_of [] = {}"
  "credits_of (obs @ [Merchant_credited c]) = insert (oc_creditId c, c) (credits_of obs)"
  by (simp_all add: credits_of_def)

lemma versions_of_snoc [simp]:
  "versions_of [] = {}"
  "versions_of (obs @ [Receipt_observed r]) = insert ((or_deliveryId r, or_version r), r) (versions_of obs)"
  by (simp_all add: versions_of_def)

lemma credits_of_other [simp]: "(\<And>c. ob \<noteq> Merchant_credited c) \<Longrightarrow> credits_of (obs @ [ob]) = credits_of obs"
  by (cases ob) (auto simp: credits_of_def)

lemma versions_of_other [simp]: "(\<And>r. ob \<noteq> Receipt_observed r) \<Longrightarrow> versions_of (obs @ [ob]) = versions_of obs"
  by (cases ob) (auto simp: versions_of_def)

lemma scan_rel_empty: "scan_rel [] empty_scan"
  by (simp add: scan_rel_def empty_scan_def table_def grouped_def credits_of_def versions_of_def)

lemma scan_ok_Nil: "scan_ok []"
  by (simp add: scan_ok_def credits_of_def versions_of_def redemptions_ok_Nil)

lemma scan_ok_snoc: "scan_ok (obs @ [ob]) \<Longrightarrow> scan_ok obs"
  unfolding scan_ok_def redemptions_ok_snoc
  by (cases ob) (auto simp: single_valued_def)

lemma scan_step_iff:
  assumes rel: "scan_rel obs s" and ok: "scan_ok obs"
  shows "is_ok (scan_step s ob) \<longleftrightarrow> scan_ok (obs @ [ob])"
proof (cases ob)
  case (Redemption_started d p)
  have "is_ok (scan_step s ob) \<longleftrightarrow>
      (\<exists>i. map_of (sc_deliveries s) d = Some i \<and> snd (snd i) = p) \<and> \<not> started obs d"
    by (cases "map_of (sc_deliveries s) d"; cases "started obs d")
      (simp_all add: Redemption_started Let_def scan_relD(4) [OF rel])
  also have "\<dots> \<longleftrightarrow> scan_ok (obs @ [ob])"
    using Redemption_started ok
    by (simp add: scan_ok_def redemptions_ok_snoc table_in [OF scan_relD(2) [OF rel]])
  finally show ?thesis .
qed (use ok in \<open>auto simp: scan_ok_def redemptions_ok_snoc Let_def
       conflicts_iff [OF scan_relD(1) [OF rel]] conflicts_iff [OF scan_relD(2) [OF rel]]
       conflicts_iff [OF scan_relD(3) [OF rel]] conflicts_iff [OF scan_relD(6) [OF rel]]
       conflicts_iff [OF scan_relD(7) [OF rel]] conflicts_iff [OF scan_relD(10) [OF rel]]\<close>)

lemma scan_step_rel:
  assumes rel: "scan_rel obs s" and step: "scan_step s ob = Inr s'"
  shows "scan_rel (obs @ [ob]) s'"
proof -
  note d = scan_relD [OF rel]
  show ?thesis
  proof (cases ob)
    case (Request_observed q b)
    then have "\<not> conflicts (map_of (sc_requests s) q) b" "s' = s\<lparr>sc_requests := mp_set (sc_requests s) q b\<rparr>"
      using step by (auto split: if_splits)
    then show ?thesis
      using Request_observed by (simp add: scan_rel_def d table_insert(2) [OF d(1)])
  next
    case (Delivery_attempted a)
    then have "\<not> conflicts (map_of (sc_deliveries s) (at_deliveryId a)) (identity_of a)"
      "\<not> conflicts (map_of (sc_proofOwners s) (at_proofSetHash a)) (at_deliveryId a)"
      "s' = s\<lparr>sc_deliveries := mp_set (sc_deliveries s) (at_deliveryId a) (identity_of a),
        sc_proofOwners := mp_set (sc_proofOwners s) (at_proofSetHash a) (at_deliveryId a)\<rparr>"
      using step by (auto simp: Let_def split: if_splits)
    then show ?thesis
      using Delivery_attempted by (simp add: scan_rel_def d table_insert(2) [OF d(2)] table_insert(2) [OF d(3)])
  next
    case (Mint_proofs_state p st)
    then have "s' = (if st = State_UNSPENT then s
        else s\<lparr>sc_mayBeConsumed := List.insert p (sc_mayBeConsumed s)\<rparr>)"
      using step by (cases st) auto
    then show ?thesis
      using Mint_proofs_state by (simp add: scan_rel_def d)
  next
    case (Redemption_started q p)
    then have "s' = s\<lparr>sc_redemptionStarts := mp_set (sc_redemptionStarts s) q 1\<rparr>"
      using step d(4) [of q] by (auto simp: Let_def split: if_splits option.splits)
    then show ?thesis
      using Redemption_started by (simp add: scan_rel_def d)
  next
    case (Receiver_settled q h)
    then have "\<not> conflicts (map_of (sc_settlementPlans s) q) h"
      "s' = s\<lparr>sc_settlementPlans := mp_set (sc_settlementPlans s) q h\<rparr>"
      using step by (auto split: if_splits)
    then show ?thesis
      using Receiver_settled by (simp add: scan_rel_def d table_insert(2) [OF d(6)])
  next
    case (Merchant_credited c)
    then have "\<not> conflicts (map_of (sc_credits s) (oc_creditId c)) c"
      "s' = s\<lparr>sc_credits := mp_set (sc_credits s) (oc_creditId c) c,
        sc_creditsByDelivery := addToSetMap (sc_creditsByDelivery s) (oc_deliveryId c) (oc_creditId c),
        sc_creditsByRequest := addToSetMap (sc_creditsByRequest s) (oc_requestId c) (oc_creditId c)\<rparr>"
      using step by (auto split: if_splits)
    then show ?thesis
      using Merchant_credited by (simp add: scan_rel_def d table_insert(2) [OF d(7)] grouped_add)
  next
    case (Receipt_observed r)
    then have "\<not> conflicts (map_of (sc_receiptVersions s) (or_deliveryId r, or_version r)) r"
      "s' = s\<lparr>sc_receiptVersions := mp_set (sc_receiptVersions s) (or_deliveryId r, or_version r) r,
        sc_receiptsByDelivery := mp_set (sc_receiptsByDelivery s) (or_deliveryId r)
          ((case map_of (sc_receiptsByDelivery s) (or_deliveryId r) of None \<Rightarrow> [] | Some rs \<Rightarrow> rs) @ [r])\<rparr>"
      using step by (auto simp: Let_def split: if_splits)
    then show ?thesis
      using Receipt_observed
      by (auto simp: scan_rel_def d table_insert(2) [OF d(10)] split: list.split)
  qed
qed

lemma scan_correct:
  "is_ok (rfold scan_step empty_scan obs) \<longleftrightarrow> scan_ok obs"
  "rfold scan_step empty_scan obs = Inr s \<Longrightarrow> scan_rel obs s"
proof (induction obs arbitrary: s rule: rev_induct)
  case Nil
  {
    case 1
    then show ?case by (simp add: scan_ok_Nil)
  next
    case 2
    then show ?case using scan_rel_empty by simp
  }
next
  case (snoc ob obs)
  {
    case 1
    show ?case
    proof (cases "rfold scan_step empty_scan obs")
      case (Inl e)
      then have "\<not> scan_ok obs" using snoc.IH(1) by simp
      then have "\<not> scan_ok (obs @ [ob])" using scan_ok_snoc by blast
      with Inl show ?thesis by (simp add: rfold_append)
    next
      case (Inr t)
      then have "scan_ok obs" using snoc.IH(1) by simp
      with Inr show ?thesis
        using scan_step_iff [OF snoc.IH(2) [OF Inr], of ob]
        by (cases "scan_step t ob") (simp_all add: rfold_append)
    qed
  next
    case 2
    then obtain t where t: "rfold scan_step empty_scan obs = Inr t" and "scan_step t ob = Inr s"
      by (auto simp: rfold_append result_simps)
    then show ?case
      using scan_step_rel [OF snoc.IH(2) [OF t]] by blast
  }
qed

section \<open>The checks after the pass\<close>

lemma is_ok_each [result_simps]: "is_ok (each f xs) \<longleftrightarrow> (\<forall>x\<in>set xs. is_ok (f x))"
  by (simp add: each_def result_simps flip: is_ok_iff)

text \<open>In scanned tables a credit is found under its identifier, and receipts are told apart by version.\<close>

lemma credit_at:
  assumes "scan_rel obs s" and "c \<in> credited obs"
  shows "map_of (sc_credits s) (oc_creditId c) = Some c"
  using assms table_in [OF scan_relD(7) [OF assms(1)], of "oc_creditId c" c]
  by (simp add: credits_of_def)

lemma credit_found:
  assumes "scan_rel obs s" and "map_of (sc_credits s) k = Some c"
  shows "c \<in> credited obs \<and> oc_creditId c = k"
  using assms table_in [OF scan_relD(7) [OF assms(1)], of k c] by (auto simp: credits_of_def)

lemma version_inj:
  assumes "scan_ok obs" and "r \<in> set (received obs)" and "r' \<in> set (received obs)"
    and "or_deliveryId r = or_deliveryId r'" and "or_version r = or_version r'"
  shows "r = r'"
proof -
  have "single_valued (versions_of obs)" using assms(1) by (simp add: scan_ok_def)
  moreover have "((or_deliveryId r, or_version r), r) \<in> versions_of obs"
    using assms(2) by (simp add: versions_of_def)
  moreover have "((or_deliveryId r, or_version r), r') \<in> versions_of obs"
    unfolding assms(4,5) using assms(3) by (simp add: versions_of_def)
  ultimately show ?thesis by (rule single_valuedD)
qed

text \<open>The credits of a delivery or a request are at most one exactly when the list has at most one entry.\<close>

lemma one_entry:
  assumes "distinct vs" and "set vs = f ` A"
  shows "length vs \<le> 1 \<longleftrightarrow> (\<forall>a\<in>A. \<forall>b\<in>A. f b = f a)"
proof -
  have "length vs = card (f ` A)" using assms(2) distinct_card [OF assms(1)] by simp
  moreover have "finite (f ` A)" using finite_set [of vs] assms(2) by simp
  ultimately show ?thesis by (auto simp: card_le_Suc0_iff_eq)
qed

lemma check_credit_ok:
  assumes "scan_rel obs s" and "c \<in> credited obs"
  shows "is_ok (check_credit s d (oc_creditId c)) \<longleftrightarrow>
    (\<exists>i. map_of (sc_deliveries s) d = Some i \<and> fst i = oc_requestId c) \<and> safe_nonneg (oc_amount c)"
  by (cases "map_of (sc_deliveries s) d") (auto simp: check_credit_def credit_at [OF assms] safe_nonneg_def)

lemma check_credited_ok:
  assumes rel: "scan_rel obs s"
  shows "is_ok (each (check_credited s) (sc_creditsByDelivery s)) \<longleftrightarrow>
    (\<forall>c\<in>credited obs.
        (\<exists>h. (oc_deliveryId c, h) \<in> plans_of obs) \<and>
        (\<exists>i. (oc_deliveryId c, i) \<in> deliveries_of obs \<and> fst i = oc_requestId c) \<and>
        safe_nonneg (oc_amount c) \<and>
        (\<forall>c'\<in>credited obs. oc_deliveryId c' = oc_deliveryId c \<longrightarrow> oc_creditId c' = oc_creditId c))"
  (is "?ok \<longleftrightarrow> (\<forall>c\<in>_. ?good c)")
proof -
  note g = scan_relD(8) [OF rel]
  have entry: "is_ok (check_credited s (d, vs)) \<longleftrightarrow> (\<forall>c\<in>credited obs. oc_deliveryId c = d \<longrightarrow> ?good c)"
    if "map_of (sc_creditsByDelivery s) d = Some vs" for d vs
  proof -
    note e = grouped_dest [OF g that]
    have vs: "set vs = oc_creditId ` {c \<in> credited obs. oc_deliveryId c = d}"
      using e(3) by auto
    have plan: "map_of (sc_settlementPlans s) d \<noteq> None \<longleftrightarrow> (\<exists>h. (d, h) \<in> plans_of obs)"
      by (simp add: table_in [OF scan_relD(6) [OF rel]])
    have ids: "(\<exists>i. (d, i) \<in> deliveries_of obs \<and> fst i = q) \<longleftrightarrow>
        (\<exists>i. map_of (sc_deliveries s) d = Some i \<and> fst i = q)" for q
      by (simp add: table_in [OF scan_relD(2) [OF rel]])
    have body: "is_ok (check_credited s (d, vs)) \<longleftrightarrow> length vs \<le> 1 \<and> map_of (sc_settlementPlans s) d \<noteq> None \<and>
        (\<forall>c\<in>credited obs. oc_deliveryId c = d \<longrightarrow>
          (\<exists>i. map_of (sc_deliveries s) d = Some i \<and> fst i = oc_requestId c) \<and> safe_nonneg (oc_amount c))"
      unfolding check_credited_def by (auto simp: Let_def result_simps vs check_credit_ok [OF rel])
    let ?A = "{c \<in> credited obs. oc_deliveryId c = d}"
    have ne: "?A \<noteq> {}"
      using e(1) vs by (metis image_empty set_empty)
    have one: "length vs \<le> 1 \<longleftrightarrow> (\<forall>c\<in>?A. \<forall>c'\<in>?A. oc_creditId c' = oc_creditId c)"
      by (rule one_entry [OF e(2) vs])
    have "(\<forall>c\<in>credited obs. oc_deliveryId c = d \<longrightarrow> ?good c) \<longleftrightarrow>
        (\<forall>c\<in>?A. (\<exists>h. (d, h) \<in> plans_of obs) \<and> (\<exists>i. (d, i) \<in> deliveries_of obs \<and> fst i = oc_requestId c) \<and>
           safe_nonneg (oc_amount c) \<and> (\<forall>c'\<in>?A. oc_creditId c' = oc_creditId c))"
      by (simp add: Ball_def imp_conjL)
    also have "\<dots> \<longleftrightarrow> is_ok (check_credited s (d, vs))"
      unfolding body one plan ids using ne by blast
    finally show ?thesis by simp
  qed
  have "?ok \<longleftrightarrow> (\<forall>d vs. map_of (sc_creditsByDelivery s) d = Some vs \<longrightarrow> is_ok (check_credited s (d, vs)))"
    using grouped_entries [OF g, of "\<lambda>d vs. is_ok (check_credited s (d, vs))"] by (simp add: result_simps)
  also have "\<dots> \<longleftrightarrow> (\<forall>c\<in>credited obs. ?good c)"
  proof -
    have "\<exists>vs. map_of (sc_creditsByDelivery s) (oc_deliveryId c) = Some vs" if "c \<in> credited obs" for c
      using grouped_at [OF g, of "oc_deliveryId c"] that by (auto split: option.splits)
    then show ?thesis using entry by blast
  qed
  finally show ?thesis .
qed

lemma check_request_ok:
  assumes rel: "scan_rel obs s"
  shows "is_ok (each (check_request s) (sc_creditsByRequest s)) \<longleftrightarrow>
    (\<forall>c\<in>credited obs. \<forall>c'\<in>credited obs. oc_requestId c' = oc_requestId c \<and>
       (oc_requestId c, True) \<in> requests_of obs \<longrightarrow> oc_creditId c' = oc_creditId c)"
  (is "?ok \<longleftrightarrow> ?spec")
proof -
  note g = scan_relD(9) [OF rel]
  have "?ok \<longleftrightarrow> (\<forall>q vs. map_of (sc_creditsByRequest s) q = Some vs \<longrightarrow> is_ok (check_request s (q, vs)))"
    using grouped_entries [OF g, of "\<lambda>q vs. is_ok (check_request s (q, vs))"] by (simp add: result_simps)
  also have "\<dots> \<longleftrightarrow> ?spec"
  proof -
    have entry: "is_ok (check_request s (q, vs)) \<longleftrightarrow>
        ((q, True) \<in> requests_of obs \<longrightarrow> (\<forall>c\<in>credited obs. \<forall>c'\<in>credited obs.
           oc_requestId c = q \<longrightarrow> oc_requestId c' = q \<longrightarrow> oc_creditId c' = oc_creditId c))"
      if "map_of (sc_creditsByRequest s) q = Some vs" for q vs
    proof -
      note e = grouped_dest [OF g that]
      have "is_ok (check_request s (q, vs)) \<longleftrightarrow> ((q, True) \<in> requests_of obs \<longrightarrow> length vs \<le> 1)"
        by (auto simp: check_request_def result_simps table_in [OF scan_relD(1) [OF rel]])
      moreover have vs: "set vs = oc_creditId ` {c \<in> credited obs. oc_requestId c = q}"
        using e(3) by auto
      ultimately show ?thesis
        unfolding one_entry [OF e(2) vs] by (simp add: Ball_def imp_conjL)
    qed
    have ex: "\<exists>vs. map_of (sc_creditsByRequest s) (oc_requestId c) = Some vs" if "c \<in> credited obs" for c
      using grouped_at [OF g, of "oc_requestId c"] that by (auto split: option.splits)
    show ?thesis
    proof
      assume L: "\<forall>q vs. map_of (sc_creditsByRequest s) q = Some vs \<longrightarrow> is_ok (check_request s (q, vs))"
      show ?spec
      proof (intro ballI impI, elim conjE)
        fix c c'
        assume c: "c \<in> credited obs" "c' \<in> credited obs" "oc_requestId c' = oc_requestId c"
          "(oc_requestId c, True) \<in> requests_of obs"
        obtain vs where vs: "map_of (sc_creditsByRequest s) (oc_requestId c) = Some vs" using ex c(1) by blast
        then have "is_ok (check_request s (oc_requestId c, vs))" using L by blast
        then show "oc_creditId c' = oc_creditId c" unfolding entry [OF vs] using c by blast
      qed
    next
      assume S: ?spec
      show "\<forall>q vs. map_of (sc_creditsByRequest s) q = Some vs \<longrightarrow> is_ok (check_request s (q, vs))"
      proof (intro allI impI)
        fix q vs
        assume vs: "map_of (sc_creditsByRequest s) q = Some vs"
        show "is_ok (check_request s (q, vs))" unfolding entry [OF vs] using S by metis
      qed
    qed
  qed
  finally show ?thesis .
qed

lemma credits_checked:
  assumes "scan_rel obs s"
  shows "is_ok (each (check_credited s) (sc_creditsByDelivery s)) \<and>
    is_ok (each (check_request s) (sc_creditsByRequest s)) \<longleftrightarrow> credits_ok obs"
  unfolding check_credited_ok [OF assms] check_request_ok [OF assms] credits_ok_def by blast

subsection \<open>Receipts\<close>

text \<open>With one receipt per version, dropping repeated versions keeps the same receipts.\<close>

lemma set_unique_versions:
  assumes "\<And>r r'. r \<in> set h \<Longrightarrow> r' \<in> set h \<Longrightarrow> or_version r = or_version r' \<Longrightarrow> r = r'"
  shows "set (unique_versions h) = set h"
proof -
  let ?m = "fold (\<lambda>r m. mp_set m (or_version r) r) h []"
  have fold_ok: "mp_ok m \<Longrightarrow> mp_ok (fold (\<lambda>r m. mp_set m (or_version r) r) h m)" for m
    by (induction h arbitrary: m) auto
  have look: "map_of (fold (\<lambda>r m. mp_set m (or_version r) r) h m) v =
      (case filter (\<lambda>r. or_version r = v) h of [] \<Rightarrow> map_of m v | rs \<Rightarrow> Some (last rs))" for m v
    by (induction h arbitrary: m) (auto split: list.splits)
  have "r \<in> set (unique_versions h) \<longleftrightarrow> (\<exists>v. map_of ?m v = Some r)" for r
    unfolding unique_versions_def by (rule in_mp_values) (simp add: fold_ok)
  moreover have "map_of ?m v = Some r \<longleftrightarrow> r \<in> set h \<and> or_version r = v" for v r
  proof -
    have sel: "x \<in> set h \<and> or_version x = v" if "x \<in> set (filter (\<lambda>r. or_version r = v) h)" for x
      using that by auto
    show ?thesis
      unfolding look
    proof (cases "filter (\<lambda>r. or_version r = v) h")
      case Nil
      then show "(case filter (\<lambda>r. or_version r = v) h of [] \<Rightarrow> map_of [] v | rs \<Rightarrow> Some (last rs)) = Some r \<longleftrightarrow>
          r \<in> set h \<and> or_version r = v"
        by (auto simp: filter_empty_conv)
    next
      case (Cons x xs)
      have l: "last (x # xs) \<in> set h \<and> or_version (last (x # xs)) = v"
        using sel [of "last (x # xs)"] Cons by (metis last_in_set list.distinct(1))
      with Cons show "(case filter (\<lambda>r. or_version r = v) h of [] \<Rightarrow> map_of [] v | rs \<Rightarrow> Some (last rs)) = Some r \<longleftrightarrow>
          r \<in> set h \<and> or_version r = v"
        using assms by auto
    qed
  qed
  ultimately show ?thesis by auto
qed

text \<open>The head of a list sorted by a key is an element with the least key.\<close>

lemma sort_key_head:
  fixes f :: "'a \<Rightarrow> int"
  assumes "sort_key f xs = y # ys"
  shows "y \<in> set xs" and "x \<in> set xs \<Longrightarrow> f y \<le> f x"
proof -
  have s: "set xs = set (y # ys)" and "sorted (map f (y # ys))"
    using sorted_sort_key [of f xs] by (simp_all flip: assms)
  then show "y \<in> set xs" and "x \<in> set xs \<Longrightarrow> f y \<le> f x" by auto
qed

definition settled_credit :: "safety_scan \<Rightarrow> string \<Rightarrow> oracle_receipt \<Rightarrow> bool" where
  "settled_credit s d r \<longleftrightarrow> map_of (sc_settlementPlans s) d \<noteq> None \<and>
     (\<exists>k c. map_of (sc_creditsByDelivery s) d = Some [k] \<and> map_of (sc_credits s) k = Some c \<and>
        oc_requestId c = or_requestId r \<and> oc_amount c = or_amount r \<and> oc_unit c = or_unit r)"

lemma settled_check:
  "is_ok (case map_of (sc_creditsByDelivery s) d of
      Some [c] \<Rightarrow>
        if map_of (sc_settlementPlans s) d = None then Inl (Settled_without_credit d)
        else (case map_of (sc_credits s) c of
            None \<Rightarrow> Inl (Settled_credit_mismatch d)
          | Some credit \<Rightarrow>
              ensure (oc_requestId credit = or_requestId r \<and> oc_amount credit = or_amount r \<and> oc_unit credit = or_unit r)
                (Settled_credit_mismatch d))
    | _ \<Rightarrow> Inl (Settled_without_credit d)) \<longleftrightarrow> settled_credit s d r"
  by (auto simp: settled_credit_def result_simps split: option.splits list.splits)

lemma terminal_check:
  "(case sort_key or_version (filter P xs) of [] \<Rightarrow> True
    | t # _ \<Rightarrow> \<not> list_ex (\<lambda>r. or_version r > or_version t \<and> r \<noteq> t) xs) \<longleftrightarrow>
   (\<forall>t\<in>set xs. P t \<longrightarrow> (\<forall>r\<in>set xs. or_version r \<le> or_version t))"
proof (cases "sort_key or_version (filter P xs)")
  case Nil
  then have "filter P xs = []" by (metis set_empty set_sort)
  with Nil show ?thesis by (auto simp: filter_empty_conv)
next
  case (Cons t ts)
  note h = sort_key_head [OF Cons]
  have "(\<forall>r\<in>set xs. or_version r \<le> or_version t) \<longleftrightarrow>
      (\<forall>t\<in>set xs. P t \<longrightarrow> (\<forall>r\<in>set xs. or_version r \<le> or_version t))"
    using h by (auto intro: order_trans)
  moreover have "list_ex (\<lambda>r. or_version r > or_version t \<and> r \<noteq> t) xs \<longleftrightarrow> \<not> (\<forall>r\<in>set xs. or_version r \<le> or_version t)"
    by (auto simp: list_ex_iff not_le)
  ultimately show ?thesis using Cons by simp
qed

text \<open>What \<open>check_receipts\<close> asks of the receipts of one delivery.\<close>

definition history_ok :: "safety_scan \<Rightarrow> string \<Rightarrow> oracle_receipt set \<Rightarrow> bool" where
  "history_ok s d R \<longleftrightarrow>
     (\<forall>r\<in>R. (\<forall>i. map_of (sc_deliveries s) d = Some i \<longrightarrow> or_requestId r = fst i \<and> or_payloadHash r = fst (snd i)) \<and>
        (terminal_status (or_status r) \<longrightarrow> (\<forall>r'\<in>R. or_version r' \<le> or_version r)) \<and>
        (or_status r = Settled \<longrightarrow> settled_credit s d r) \<and>
        (or_status r = Rejected \<longrightarrow>
           (\<forall>i. map_of (sc_deliveries s) d = Some i \<longrightarrow> snd (snd i) \<notin> set (sc_mayBeConsumed s))))"

lemma is_ok_seq: "is_ok (rbind m (\<lambda>_. n)) \<longleftrightarrow> is_ok m \<and> is_ok n"
  by (cases m) simp_all

lemma is_ok_first:
  "is_ok (case xs of [] \<Rightarrow> Inr () | t # _ \<Rightarrow> ensure (Q t) e) \<longleftrightarrow> (case xs of [] \<Rightarrow> True | t # _ \<Rightarrow> Q t)"
  by (cases xs) (simp_all add: result_simps)

lemma check_receipts_iff:
  assumes inj: "\<And>r r'. r \<in> set h \<Longrightarrow> r' \<in> set h \<Longrightarrow> or_version r = or_version r' \<Longrightarrow> r = r'"
    and ne: "h \<noteq> []"
  shows "is_ok (check_receipts s (d, h)) \<longleftrightarrow> history_ok s d (set h)"
proof -
  have u: "set (unique_versions h) = set h"
    using inj by (rule set_unique_versions)
  obtain l ls where l: "sort_key (\<lambda>r. - or_version r) (unique_versions h) = l # ls"
    using ne u by (cases "sort_key (\<lambda>r. - or_version r) (unique_versions h)") (metis set_empty set_sort, blast)
  have latest: "l \<in> set h" "r \<in> set h \<Longrightarrow> or_version r \<le> or_version l" for r
    using sort_key_head [OF l] u by auto
  have "is_ok (check_receipts s (d, h)) \<longleftrightarrow>
    (\<forall>r\<in>set h. \<forall>i. map_of (sc_deliveries s) d = Some i \<longrightarrow> or_requestId r = fst i \<and> or_payloadHash r = fst (snd i)) \<and>
    (\<forall>r\<in>set h. terminal_status (or_status r) \<longrightarrow> (\<forall>r'\<in>set h. or_version r' \<le> or_version r)) \<and>
    (or_status l = Settled \<longrightarrow> settled_credit s d l) \<and>
    (or_status l = Rejected \<longrightarrow>
       (\<forall>i. map_of (sc_deliveries s) d = Some i \<longrightarrow> snd (snd i) \<notin> set (sc_mayBeConsumed s)))"
    unfolding check_receipts_def Let_def fst_conv snd_conv is_ok_seq is_ok_first terminal_check l list.sel u
      is_ok_traverse is_ok_ensure
    by (cases "map_of (sc_deliveries s) d") (simp_all add: settled_check)
  also have "\<dots> \<longleftrightarrow> history_ok s d (set h)"
  proof -
    have "r = l" if "r \<in> set h" "\<forall>r'\<in>set h. or_version r' \<le> or_version r" for r
      using that latest inj [of r l] by (simp add: order_antisym)
    then have "(\<forall>r\<in>set h. terminal_status (or_status r) \<longrightarrow> (\<forall>r'\<in>set h. or_version r' \<le> or_version r)) \<Longrightarrow>
        r \<in> set h \<Longrightarrow> or_status r = Settled \<or> or_status r = Rejected \<Longrightarrow> r = l" for r
      by (auto simp: terminal_status_def)
    then show ?thesis
      unfolding history_ok_def using latest(1) by blast
  qed
  finally show ?thesis .
qed

lemma settled_credit_iff:
  assumes rel: "scan_rel obs s" and cr: "credits_ok obs" and d: "or_deliveryId r = d"
  shows "settled_credit s d r \<longleftrightarrow>
    (\<exists>c\<in>credited obs. oc_deliveryId c = d \<and> oc_requestId c = or_requestId r \<and>
       oc_amount c = or_amount r \<and> oc_unit c = or_unit r)" (is "?l \<longleftrightarrow> ?r")
proof
  assume ?l
  then obtain k c where k: "map_of (sc_creditsByDelivery s) d = Some [k]"
    and c: "map_of (sc_credits s) k = Some c" "oc_requestId c = or_requestId r" "oc_amount c = or_amount r"
      "oc_unit c = or_unit r"
    by (auto simp: settled_credit_def)
  have "k \<in> oc_creditId ` {c \<in> credited obs. oc_deliveryId c = d}"
    using grouped_dest(3) [OF scan_relD(8) [OF rel] k] by auto
  then obtain c' where c': "c' \<in> credited obs" "oc_deliveryId c' = d" "k = oc_creditId c'"
    by auto
  then have "c' = c" using credit_at [OF rel c'(1)] c(1) by simp
  with c c' show ?r by blast
next
  assume ?r
  then obtain c where c: "c \<in> credited obs" "oc_deliveryId c = d" "oc_requestId c = or_requestId r"
    "oc_amount c = or_amount r" "oc_unit c = or_unit r"
    by blast
  have one: "oc_creditId c' = oc_creditId c" if "c' \<in> credited obs" "oc_deliveryId c' = d" for c'
    using cr c(1) that unfolding credits_ok_def c(2) [symmetric] by blast
  have "((\<lambda>c. (oc_deliveryId c, oc_creditId c)) ` credited obs) `` {d} = oc_creditId ` {c \<in> credited obs. oc_deliveryId c = d}"
    by auto
  also have "\<dots> = {oc_creditId c}" using c(1,2) by (auto intro: one)
  finally have "map_of (sc_creditsByDelivery s) d = Some [oc_creditId c]"
    unfolding grouped_single [OF scan_relD(8) [OF rel]] .
  moreover have "\<exists>h. (d, h) \<in> plans_of obs"
    using cr c(1) unfolding credits_ok_def c(2) [symmetric] by blast
  then have "map_of (sc_settlementPlans s) d \<noteq> None"
    by (simp add: table_in [OF scan_relD(6) [OF rel]])
  ultimately show ?l
    using c credit_at [OF rel c(1)] by (auto simp: settled_credit_def)
qed

lemma histories:
  assumes rel: "scan_rel obs s"
  shows "map_of (sc_receiptsByDelivery s) d = Some h \<longleftrightarrow>
    h \<noteq> [] \<and> h = filter (\<lambda>r. or_deliveryId r = d) (received obs)"
  by (auto simp: scan_relD(12) [OF rel] split: list.splits)

lemma each_history:
  assumes rel: "scan_rel obs s" and "\<And>d h. h = filter (\<lambda>r. or_deliveryId r = d) (received obs) \<Longrightarrow> h \<noteq> [] \<Longrightarrow>
    is_ok (f (d, h)) \<longleftrightarrow> (\<forall>r\<in>set h. P r)"
  shows "is_ok (each f (sc_receiptsByDelivery s)) \<longleftrightarrow> (\<forall>r\<in>set (received obs). P r)"
proof -
  have "is_ok (each f (sc_receiptsByDelivery s)) \<longleftrightarrow>
      (\<forall>d h. map_of (sc_receiptsByDelivery s) d = Some h \<longrightarrow> is_ok (f (d, h)))"
    using in_entries [OF scan_relD(11) [OF rel]] by (auto simp: result_simps)
  also have "\<dots> \<longleftrightarrow> (\<forall>d. \<forall>r\<in>set (received obs). or_deliveryId r = d \<longrightarrow> P r)"
    unfolding histories [OF rel] using assms(2) by (auto simp: filter_empty_conv)
  also have "\<dots> \<longleftrightarrow> (\<forall>r\<in>set (received obs). P r)" by auto
  finally show ?thesis .
qed

lemma check_receipts_ok:
  assumes rel: "scan_rel obs s" and ok: "scan_ok obs" and cr: "credits_ok obs"
  shows "is_ok (each (check_receipts s) (sc_receiptsByDelivery s)) \<longleftrightarrow> receipts_ok obs"
  unfolding receipts_ok_def
proof (rule each_history [OF rel])
  fix d h
  assume h: "h = filter (\<lambda>r. or_deliveryId r = d) (received obs)" and ne: "h \<noteq> []"
  have "is_ok (check_receipts s (d, h)) \<longleftrightarrow> history_ok s d (set h)"
    by (rule check_receipts_iff [OF _ ne]) (auto simp: h intro: version_inj [OF ok])
  also have "\<dots> \<longleftrightarrow> (\<forall>r\<in>set h.
      (\<forall>i. (or_deliveryId r, i) \<in> deliveries_of obs \<longrightarrow> or_requestId r = fst i \<and> or_payloadHash r = fst (snd i)) \<and>
      (terminal_status (or_status r) \<longrightarrow>
         (\<forall>r'\<in>set (received obs). or_deliveryId r' = or_deliveryId r \<longrightarrow> or_version r' \<le> or_version r)) \<and>
      (or_status r = Settled \<longrightarrow>
         (\<exists>c\<in>credited obs. oc_deliveryId c = or_deliveryId r \<and> oc_requestId c = or_requestId r \<and>
            oc_amount c = or_amount r \<and> oc_unit c = or_unit r)) \<and>
      (or_status r = Rejected \<longrightarrow>
         (\<forall>i. (or_deliveryId r, i) \<in> deliveries_of obs \<longrightarrow> snd (snd i) \<notin> consumed_of obs)))"
    unfolding history_ok_def
    by (rule ball_cong [OF refl])
      (simp add: h table_in [OF scan_relD(2) [OF rel]] scan_relD(5) [OF rel] settled_credit_iff [OF rel cr] Ball_def imp_conjL)
  finally show "is_ok (check_receipts s (d, h)) \<longleftrightarrow> \<dots>" .
qed

lemma check_amounts_ok:
  assumes rel: "scan_rel obs s" and cr: "credits_ok obs" and rc: "receipts_ok obs"
  shows "is_ok (each (check_amounts s) (sc_receiptsByDelivery s))"
proof -
  have "is_ok (check_amounts s (d, h))" if h: "h = filter (\<lambda>r. or_deliveryId r = d) (received obs)" for d h
  proof (cases "sort_key (\<lambda>r. - or_version r) (filter (\<lambda>r. or_status r = Settled) h)")
    case Nil
    then show ?thesis by (simp add: check_amounts_def)
  next
    case (Cons r rs)
    have r: "r \<in> set (received obs)" "or_deliveryId r = d" "or_status r = Settled"
      using sort_key_head(1) [OF Cons] by (auto simp: h)
    then have "settled_credit s d r"
      using rc settled_credit_iff [OF rel cr r(2)] unfolding receipts_ok_def by auto
    then show ?thesis
      using Cons by (auto simp: check_amounts_def settled_credit_def)
  qed
  then show ?thesis
    using each_history [OF rel, of "check_amounts s" "\<lambda>_. True"] by simp
qed

text \<open>The check succeeds exactly on the safe observations.\<close>

lemma assertSafety_correct: "is_ok (assertSafety m) \<longleftrightarrow> oracle_safe (om_observations m)"
proof (cases "rfold scan_step empty_scan (om_observations m)")
  case (Inl e)
  then have "\<not> scan_ok (om_observations m)" using scan_correct(1) [of "om_observations m"] by simp
  with Inl show ?thesis by (simp add: assertSafety_def oracle_safe_def)
next
  case (Inr s)
  then have ok: "scan_ok (om_observations m)" using scan_correct(1) [of "om_observations m"] by simp
  note rel = scan_correct(2) [OF Inr]
  show ?thesis
    unfolding assertSafety_def oracle_safe_def Inr rbind_simps is_ok_seq
    using credits_checked [OF rel] check_receipts_ok [OF rel ok] check_amounts_ok [OF rel] ok by blast
qed

text \<open>
  C19: The oracle's safety check decides its specification: it accepts a run exactly when the observations
  have stable request policies and delivery identities, one owner per proof set, one settlement plan per
  delivery, one content per receipt version, at most one redemption per delivery and only after its
  attempt, every credit backed by outputs and by an attempt of its own request, at most one credit per
  delivery and per single-use request, no receipt after a terminal one, a matching credit for every
  settled receipt, and no rejection of proofs that may have been consumed.
\<close>
theorem assertSafety_decides: "is_ok (assertSafety m) \<longleftrightarrow> oracle_safe (om_observations m)"
  by (rule assertSafety_correct)

section \<open>Watching receipts\<close>

definition newer_receipt :: "oracle_receipt option \<Rightarrow> oracle_receipt \<Rightarrow> oracle_violation + oracle_receipt" where
  "newer_receipt latest r =
     Inr (case latest of None \<Rightarrow> r | Some l \<Rightarrow> if or_version r > or_version l then r else l)"

definition versions_distinct :: "oracle_receipt list \<Rightarrow> bool" where
  "versions_distinct hs \<longleftrightarrow> inj_on or_version (set hs)"

interpretation watch: version_register newer_receipt or_version versions_distinct
  by unfold_locales (auto simp: newer_receipt_def versions_distinct_def inj_on_def)

definition receipts_for :: "string \<Rightarrow> observation list \<Rightarrow> oracle_receipt list" where
  "receipts_for d obs = filter (\<lambda>r. or_deliveryId r = d) (received obs)"

lemma latestReceipt_snoc:
  "latestReceipt (obs @ [ob]) d =
     (case ob of Receipt_observed r \<Rightarrow>
        if or_deliveryId r = d \<and> (case latestReceipt obs d of None \<Rightarrow> True | Some l \<Rightarrow> or_version r > or_version l)
        then Some r else latestReceipt obs d
      | _ \<Rightarrow> latestReceipt obs d)"
  by (cases ob) (simp_all add: latestReceipt_def)

lemma latestReceipt_watch: "watch.observe None (receipts_for d obs) = Inr (latestReceipt obs d)"
proof (induction obs rule: rev_induct)
  case Nil
  then show ?case by (simp add: receipts_for_def watch.observe_def latestReceipt_def)
next
  case (snoc ob obs)
  have step: "watch.observe None (rs @ [r]) =
      Inr (Some (case l of None \<Rightarrow> r | Some l' \<Rightarrow> if or_version r > or_version l' then r else l'))"
    if "watch.observe None rs = Inr l" for rs r l
    using that by (simp add: watch.observe_def rfold_append) (simp add: newer_receipt_def)
  show ?case
    using snoc by (cases ob) (auto simp: receipts_for_def latestReceipt_snoc step split: option.splits)
qed

lemma folded_receipts:
  "map_of (om_receipts (foldl applyObservation emptyOracleModel obs)) d = latestReceipt obs d"
proof (induction obs rule: rev_induct)
  case Nil
  then show ?case by (simp add: emptyOracleModel_def latestReceipt_def)
next
  case (snoc ob obs)
  then show ?case
    by (cases ob) (auto simp: applyObservation_def latestReceipt_snoc split: option.splits)
qed

lemma safe_versions: "oracle_safe obs \<Longrightarrow> versions_distinct (receipts_for d obs)"
  unfolding versions_distinct_def
  by (rule inj_onI) (auto simp: receipts_for_def oracle_safe_def intro: version_inj)

text \<open>
  The receipt the oracle's model holds for a delivery does not depend on the order of observation: on
  a safe run it is the observed receipt with the highest version, and two safe runs in which the same
  receipts of the delivery were observed, in any order and any number of times, give the same one.
\<close>
theorem model_receipts_converge:
  assumes "oracle_safe obs" and "oracle_safe obs'" and "set (receipts_for d obs) = set (receipts_for d obs')"
  shows "map_of (om_receipts (foldl applyObservation emptyOracleModel obs)) d =
      map_of (om_receipts (foldl applyObservation emptyOracleModel obs')) d \<and>
    (receipts_for d obs \<noteq> [] \<longrightarrow>
      (\<exists>r\<in>set (receipts_for d obs). map_of (om_receipts (foldl applyObservation emptyOracleModel obs)) d = Some r \<and>
        list_all (\<lambda>r'. or_version r' \<le> or_version r) (receipts_for d obs)))"
proof -
  have "latestReceipt obs d = latestReceipt obs' d"
    using watch.observe_convergent [OF safe_versions [OF assms(1)] assms(3) subset_refl]
    by (simp add: latestReceipt_watch)
  moreover have "\<exists>r\<in>set (receipts_for d obs). latestReceipt obs d = Some r \<and>
      list_all (\<lambda>r'. or_version r' \<le> or_version r) (receipts_for d obs)" if "receipts_for d obs \<noteq> []"
    using watch.observe_latest [OF safe_versions [OF assms(1)] that subset_refl]
    by (simp add: latestReceipt_watch list_all_iff)
  ultimately show ?thesis
    by (simp add: folded_receipts)
qed

definition demo_observed :: "delivery_status \<Rightarrow> int \<Rightarrow> oracle_receipt" where
  "demo_observed st v = \<lparr>or_requestId = ''q'', or_deliveryId = ''d'', or_payloadHash = ''p'', or_status = st,
     or_detailCode = ''redeeming'', or_version = v, or_amount = 8, or_unit = ''sat''\<rparr>"

definition demo_run :: "observation list" where
  "demo_run = [Receipt_observed (demo_observed Processing 1), Receipt_observed (demo_observed Processing 2)]"

lemma demo_run_safe: "oracle_safe demo_run" "oracle_safe (rev demo_run)"
proof -
  have "is_ok (assertSafety \<lparr>om_requests = [], om_deliveries = [], om_proofOwners = [], om_proofStates = [],
      om_credits = [], om_receipts = [], om_observations = demo_run\<rparr>)"
    "is_ok (assertSafety \<lparr>om_requests = [], om_deliveries = [], om_proofOwners = [], om_proofStates = [],
      om_credits = [], om_receipts = [], om_observations = rev demo_run\<rparr>)"
    by code_simp+
  then show "oracle_safe demo_run" "oracle_safe (rev demo_run)"
    by (simp_all add: assertSafety_correct)
qed

lemma model_receipts_converge_witness:
  "map_of (om_receipts (foldl applyObservation emptyOracleModel demo_run)) ''d'' =
     map_of (om_receipts (foldl applyObservation emptyOracleModel (rev demo_run))) ''d'' \<and>
   map_of (om_receipts (foldl applyObservation emptyOracleModel demo_run)) ''d'' = Some (demo_observed Processing 2)"
proof -
  have "receipts_for ''d'' demo_run = [demo_observed Processing 1, demo_observed Processing 2]"
    "receipts_for ''d'' (rev demo_run) = [demo_observed Processing 2, demo_observed Processing 1]"
    by code_simp+
  moreover have "map_of (om_receipts (foldl applyObservation emptyOracleModel demo_run)) ''d'' =
      Some (demo_observed Processing 2)"
    by code_simp
  ultimately show ?thesis
    using model_receipts_converge [OF demo_run_safe, of "''d''"] by auto
qed

end
