(* ===== verification/Lifecycle.thy ===== *)
theory Lifecycle
  imports Mint_Url Protocol_Id
begin

text \<open>
  \<open>packages/wallet-lifecycle-core/src\<close>: the phases of a wallet operation (\<open>types.ts\<close>) and the moves
  between them (\<open>operation.ts\<close>). A record that reaches the code from outside holds texts
  (\<open>raw_operation\<close>); what the parsers return holds the parsed kind and phase. Every failure is an
  \<open>Error\<close> with a message; \<open>lifecycle_error\<close> says which.
\<close>

section \<open>Kinds, phases and records\<close>

datatype lifecycle_kind = Kind_mint | Kind_swap | Kind_send | Kind_receive | Kind_melt | Kind_restore | Kind_reconcile

datatype lifecycle_phase =
    Ph_created | Ph_prepared | Ph_submitted | Ph_ambiguous | Ph_reconciling
  | Ph_succeeded | Ph_failed_definitive | Ph_recovery_blocked

fun kind_text :: "lifecycle_kind \<Rightarrow> string" where
  "kind_text Kind_mint = ''mint''"
| "kind_text Kind_swap = ''swap''"
| "kind_text Kind_send = ''send''"
| "kind_text Kind_receive = ''receive''"
| "kind_text Kind_melt = ''melt''"
| "kind_text Kind_restore = ''restore''"
| "kind_text Kind_reconcile = ''reconcile''"

fun phase_text :: "lifecycle_phase \<Rightarrow> string" where
  "phase_text Ph_created = ''created''"
| "phase_text Ph_prepared = ''prepared''"
| "phase_text Ph_submitted = ''submitted''"
| "phase_text Ph_ambiguous = ''ambiguous''"
| "phase_text Ph_reconciling = ''reconciling''"
| "phase_text Ph_succeeded = ''succeeded''"
| "phase_text Ph_failed_definitive = ''failed_definitive''"
| "phase_text Ph_recovery_blocked = ''recovery_blocked''"

definition lifecycle_operation_kinds :: "lifecycle_kind list" where
  "lifecycle_operation_kinds =
     [Kind_mint, Kind_swap, Kind_send, Kind_receive, Kind_melt, Kind_restore, Kind_reconcile]"

definition lifecycle_phases :: "lifecycle_phase list" where
  "lifecycle_phases =
     [Ph_created, Ph_prepared, Ph_submitted, Ph_ambiguous, Ph_reconciling, Ph_succeeded,
      Ph_failed_definitive, Ph_recovery_blocked]"

record raw_operation =
  ro_operationId :: string
  ro_kind :: string
  ro_mint :: string
  ro_unit :: string
  ro_intentHash :: string
  ro_phase :: string
  ro_evidenceCode :: "string option"

record operation_record =
  lo_operationId :: string
  lo_kind :: lifecycle_kind
  lo_mint :: string
  lo_unit :: string
  lo_intentHash :: string
  lo_phase :: lifecycle_phase
  lo_evidenceCode :: "string option"

datatype lifecycle_error =
    Operation_id_invalid
  | Kind_invalid
  | Mint_invalid
  | Unit_invalid
  | Intent_hash_invalid
  | Phase_invalid
  | Evidence_invalid lifecycle_phase
  | Evidence_conflict lifecycle_phase
  | Transition_invalid lifecycle_phase lifecycle_phase

section \<open>Parsers\<close>

definition operation_id_pattern :: "string \<Rightarrow> bool" where
  "operation_id_pattern s \<longleftrightarrow> length s = 22 \<and> all_in b64_alphabet (take 21 s) \<and> last s \<in> set ''AQgw''"

definition unit_class :: string where
  "unit_class = lower_alpha @ digits @ ''_-''"

definition unit_pattern :: "string \<Rightarrow> bool" where
  "unit_pattern s \<longleftrightarrow> 1 \<le> length s \<and> length s \<le> 16 \<and> all_in unit_class s"

definition evidence_code_pattern :: "string \<Rightarrow> bool" where
  "evidence_code_pattern s \<longleftrightarrow> 1 \<le> length s \<and> length s \<le> 64 \<and> all_in (lower_alpha @ digits @ ''_'') s"

definition parseOperationId :: "string \<Rightarrow> lifecycle_error + string" where
  "parseOperationId v = (if operation_id_pattern v then Inr v else Inl Operation_id_invalid)"

definition parseKind :: "string \<Rightarrow> lifecycle_error + lifecycle_kind" where
  "parseKind v =
     (case find (\<lambda>k. kind_text k = v) lifecycle_operation_kinds of None \<Rightarrow> Inl Kind_invalid | Some k \<Rightarrow> Inr k)"

definition parseMintUrl :: "url_api \<Rightarrow> string \<Rightarrow> lifecycle_error + string" where
  "parseMintUrl api v =
     (case url_new api v of
        None \<Rightarrow> Inl Mint_invalid
      | Some u \<Rightarrow>
          if u_protocol u \<notin> set [''http:'', ''https:''] \<or> u_username u \<noteq> [] \<or> u_password u \<noteq> [] \<or>
             u_search u \<noteq> [] \<or> u_hash u \<noteq> []
          then Inl Mint_invalid
          else
            let canonical = u_protocol u @ ''//'' @ u_host u @ strip_path (u_pathname u) in
            if canonical \<noteq> v then Inl Mint_invalid else Inr v)"

definition parseUnit :: "string \<Rightarrow> lifecycle_error + string" where
  "parseUnit v = (if unit_pattern v then Inr v else Inl Unit_invalid)"

definition parseIntentHash :: "string \<Rightarrow> lifecycle_error + string" where
  "parseIntentHash v = (if hash_pattern v then Inr v else Inl Intent_hash_invalid)"

definition parsePhase :: "string \<Rightarrow> lifecycle_error + lifecycle_phase" where
  "parsePhase v =
     (case find (\<lambda>p. phase_text p = v) lifecycle_phases of None \<Rightarrow> Inl Phase_invalid | Some p \<Rightarrow> Inr p)"

definition evidenced_terminal :: "lifecycle_phase \<Rightarrow> bool" where
  "evidenced_terminal p \<longleftrightarrow> p \<in> {Ph_failed_definitive, Ph_recovery_blocked}"

definition parseEvidenceCode :: "string option \<Rightarrow> lifecycle_phase \<Rightarrow> lifecycle_error + string option" where
  "parseEvidenceCode v p =
     (if evidenced_terminal p then
        (case v of
           None \<Rightarrow> Inl (Evidence_invalid p)
         | Some code \<Rightarrow> if evidence_code_pattern code then Inr (Some code) else Inl (Evidence_invalid p))
      else if v \<noteq> None then Inl (Evidence_invalid p) else Inr None)"

section \<open>Operations\<close>

fun transitions :: "lifecycle_phase \<Rightarrow> lifecycle_phase list" where
  "transitions Ph_created = [Ph_prepared]"
| "transitions Ph_prepared = [Ph_submitted]"
| "transitions Ph_submitted = [Ph_succeeded, Ph_ambiguous]"
| "transitions Ph_ambiguous = [Ph_reconciling]"
| "transitions Ph_reconciling = [Ph_succeeded, Ph_failed_definitive, Ph_recovery_blocked]"
| "transitions Ph_succeeded = []"
| "transitions Ph_failed_definitive = []"
| "transitions Ph_recovery_blocked = []"

definition createOperation :: "url_api \<Rightarrow> raw_operation \<Rightarrow> lifecycle_error + operation_record" where
  "createOperation api identity =
     rbind (parseOperationId (ro_operationId identity)) (\<lambda>operationId.
     rbind (parseKind (ro_kind identity)) (\<lambda>kind.
     rbind (parseMintUrl api (ro_mint identity)) (\<lambda>mint.
     rbind (parseUnit (ro_unit identity)) (\<lambda>unit.
     rbind (parseIntentHash (ro_intentHash identity)) (\<lambda>intentHash.
       Inr \<lparr>lo_operationId = operationId, lo_kind = kind, lo_mint = mint, lo_unit = unit,
         lo_intentHash = intentHash, lo_phase = Ph_created, lo_evidenceCode = None\<rparr>)))))"

text \<open>The phase of the record is a parsed one, so only the next phase is a text here.\<close>

definition transitionOperation ::
    "url_api \<Rightarrow> operation_record \<Rightarrow> string \<Rightarrow> string option \<Rightarrow> lifecycle_error + operation_record" where
  "transitionOperation api r next evidenceCode =
     (let current = lo_phase r in
      rbind (parsePhase next) (\<lambda>target.
      rbind (parseEvidenceCode evidenceCode target) (\<lambda>parsedEvidence.
      if current = target then
        (if lo_evidenceCode r \<noteq> parsedEvidence then Inl (Evidence_conflict target) else Inr r)
      else if target \<notin> set (transitions current) then Inl (Transition_invalid current target)
      else
        rbind (parseOperationId (lo_operationId r)) (\<lambda>operationId.
        rbind (parseKind (kind_text (lo_kind r))) (\<lambda>kind.
        rbind (parseMintUrl api (lo_mint r)) (\<lambda>mint.
        rbind (parseUnit (lo_unit r)) (\<lambda>unit.
        rbind (parseIntentHash (lo_intentHash r)) (\<lambda>intentHash.
          Inr \<lparr>lo_operationId = operationId, lo_kind = kind, lo_mint = mint, lo_unit = unit,
            lo_intentHash = intentHash, lo_phase = target, lo_evidenceCode = parsedEvidence\<rparr>))))))))"

section \<open>Properties\<close>

lemma kind_text_inject [simp]: "kind_text a = kind_text b \<longleftrightarrow> a = b"
  by (cases a; cases b) simp_all

lemma phase_text_inject [simp]: "phase_text a = phase_text b \<longleftrightarrow> a = b"
  by (cases a; cases b) simp_all

lemma parseKind_Inr [result_simps]: "parseKind v = Inr k \<longleftrightarrow> v = kind_text k"
proof -
  have "v = kind_text k \<Longrightarrow> parseKind v = Inr k"
    by (cases k) (simp_all add: parseKind_def lifecycle_operation_kinds_def)
  moreover have "parseKind v = Inr k \<Longrightarrow> v = kind_text k"
    by (auto simp: parseKind_def split: option.splits dest: find_Some_in)
  ultimately show ?thesis by blast
qed

lemma parsePhase_Inr [result_simps]: "parsePhase v = Inr p \<longleftrightarrow> v = phase_text p"
proof -
  have "v = phase_text p \<Longrightarrow> parsePhase v = Inr p"
    by (cases p) (simp_all add: parsePhase_def lifecycle_phases_def)
  moreover have "parsePhase v = Inr p \<Longrightarrow> v = phase_text p"
    by (auto simp: parsePhase_def split: option.splits dest: find_Some_in)
  ultimately show ?thesis by blast
qed

lemma parse_text_Inr [result_simps]:
  "parseOperationId v = Inr w \<longleftrightarrow> operation_id_pattern v \<and> w = v"
  "parseUnit v = Inr w \<longleftrightarrow> unit_pattern v \<and> w = v"
  "parseIntentHash v = Inr w \<longleftrightarrow> hash_pattern v \<and> w = v"
  by (auto simp: parseOperationId_def parseUnit_def parseIntentHash_def)

lemma parseMintUrl_same [result_simps]: "parseMintUrl api v = Inr w \<longleftrightarrow> is_ok (parseMintUrl api v) \<and> w = v"
  by (auto simp: parseMintUrl_def Let_def split: option.splits if_splits)

definition evidence_fits :: "string option \<Rightarrow> lifecycle_phase \<Rightarrow> bool" where
  "evidence_fits v p \<longleftrightarrow>
     (case v of None \<Rightarrow> \<not> evidenced_terminal p | Some code \<Rightarrow> evidenced_terminal p \<and> evidence_code_pattern code)"

lemma parseEvidenceCode_Inr [result_simps]: "parseEvidenceCode v p = Inr w \<longleftrightarrow> w = v \<and> evidence_fits v p"
  by (auto simp: parseEvidenceCode_def evidence_fits_def split: option.splits)

text \<open>A parsed record: what the constructor returns and every move keeps.\<close>

definition operation_ok :: "url_api \<Rightarrow> operation_record \<Rightarrow> bool" where
  "operation_ok api r \<longleftrightarrow>
     operation_id_pattern (lo_operationId r) \<and> is_ok (parseMintUrl api (lo_mint r)) \<and> unit_pattern (lo_unit r) \<and>
     hash_pattern (lo_intentHash r) \<and> evidence_fits (lo_evidenceCode r) (lo_phase r)"

lemma createOperation_ok [inv_intros]: "createOperation api i = Inr r \<Longrightarrow> operation_ok api r \<and> lo_phase r = Ph_created"
  by (auto simp: createOperation_def result_simps operation_ok_def evidence_fits_def evidenced_terminal_def)

text \<open>Whether a move succeeds, and what it returns, on a parsed record.\<close>

lemma transitionOperation_iff:
  assumes "operation_ok api r"
  shows "transitionOperation api r next ev = Inr r' \<longleftrightarrow>
    (\<exists>target. next = phase_text target \<and> evidence_fits ev target \<and>
      (if target = lo_phase r then ev = lo_evidenceCode r \<and> r' = r
       else target \<in> set (transitions (lo_phase r)) \<and> r' = r\<lparr>lo_phase := target, lo_evidenceCode := ev\<rparr>))"
  using assms
  by (cases r; auto simp: transitionOperation_def operation_ok_def Let_def result_simps; metis)

lemma transitionOperation_ok [inv_intros]:
  assumes "operation_ok api r" and "transitionOperation api r next ev = Inr r'"
  shows "operation_ok api r'"
  using assms unfolding transitionOperation_iff [OF assms(1)]
  by (auto simp: operation_ok_def split: if_splits)

section \<open>Histories of an operation\<close>

definition move :: "url_api \<Rightarrow> operation_record \<Rightarrow> string \<times> string option \<Rightarrow> lifecycle_error + operation_record" where
  "move api r m = transitionOperation api r (fst m) (snd m)"

definition terminal_phase :: "lifecycle_phase \<Rightarrow> bool" where
  "terminal_phase p \<longleftrightarrow> transitions p = []"

fun phase_rank :: "lifecycle_phase \<Rightarrow> nat" where
  "phase_rank Ph_created = 0"
| "phase_rank Ph_prepared = 1"
| "phase_rank Ph_submitted = 2"
| "phase_rank Ph_ambiguous = 3"
| "phase_rank Ph_reconciling = 4"
| "phase_rank Ph_succeeded = 5"
| "phase_rank Ph_failed_definitive = 5"
| "phase_rank Ph_recovery_blocked = 5"

definition later_record :: "operation_record \<Rightarrow> operation_record \<Rightarrow> bool" where
  "later_record a b \<longleftrightarrow>
     b = a \<or> (\<not> terminal_phase (lo_phase a) \<and> phase_rank (lo_phase a) < phase_rank (lo_phase b) \<and>
       b = a\<lparr>lo_phase := lo_phase b, lo_evidenceCode := lo_evidenceCode b\<rparr>)"

lemma transitions_rank: "q \<in> set (transitions p) \<Longrightarrow> phase_rank p < phase_rank q \<and> \<not> terminal_phase p"
  by (cases p) (auto simp: terminal_phase_def)

lemma move_later:
  assumes "operation_ok api a" and "move api a m = Inr b"
  shows "operation_ok api b \<and> later_record a b"
  using assms transitionOperation_ok [OF assms(1)]
  by (auto simp: move_def transitionOperation_iff [OF assms(1)] later_record_def split: if_splits dest: transitions_rank)

lemma later_record_trans: "later_record a b \<Longrightarrow> later_record b c \<Longrightarrow> later_record a c"
  unfolding later_record_def by (cases a; cases b; cases c) auto

lemma moves_later:
  assumes "operation_ok api a" and "rfold (move api) a ms = Inr b"
  shows "operation_ok api b \<and> later_record a b"
  using assms
proof (induction ms arbitrary: a)
  case Nil
  then show ?case by (simp add: later_record_def)
next
  case (Cons m ms)
  then obtain c where c: "move api a m = Inr c" "rfold (move api) c ms = Inr b"
    by (auto simp: result_simps)
  note step = move_later [OF Cons.prems(1) c(1)]
  then have "operation_ok api b \<and> later_record c b" using Cons.IH c(2) by blast
  with step show ?case using later_record_trans by blast
qed

text \<open>A definitive failure or a block is only reached through reconciliation.\<close>

lemma evidenced_from_reconciling:
  assumes "operation_ok api a" and "rfold (move api) a ms = Inr b" and "evidenced_terminal (lo_phase b)"
    and "\<not> evidenced_terminal (lo_phase a)"
  shows "\<exists>k c. rfold (move api) a (take k ms) = Inr c \<and> lo_phase c = Ph_reconciling"
  using assms
proof (induction ms arbitrary: a)
  case Nil
  then show ?case by simp
next
  case (Cons m ms)
  then obtain c where c: "move api a m = Inr c" "rfold (move api) c ms = Inr b"
    by (auto simp: result_simps)
  note step = move_later [OF Cons.prems(1) c(1)]
  show ?case
  proof (cases "evidenced_terminal (lo_phase c)")
    case True
    then have "lo_phase c \<in> set (transitions (lo_phase a))"
      using c(1) Cons.prems(4) by (auto simp: move_def transitionOperation_iff [OF Cons.prems(1)] split: if_splits)
    then have "lo_phase a = Ph_reconciling"
      using True by (cases "lo_phase a") (auto simp: evidenced_terminal_def)
    then have "rfold (move api) a (take 0 (m # ms)) = Inr a \<and> lo_phase a = Ph_reconciling" by simp
    then show ?thesis by blast
  next
    case False
    then obtain k d where "rfold (move api) c (take k ms) = Inr d" "lo_phase d = Ph_reconciling"
      using Cons.IH [of c] step c(2) Cons.prems(3) by blast
    then have "rfold (move api) a (take (Suc k) (m # ms)) = Inr d \<and> lo_phase d = Ph_reconciling"
      by (simp add: c(1))
    then show ?thesis by blast
  qed
qed

text \<open>
  An operation moves forward only. Whatever moves are asked of a created operation, those that
  succeed keep its identifier, kind, mint, unit and intent, never lower its phase, and leave a terminal
  record (succeeded, failed or blocked) exactly as it is, evidence code included; and a definitive
  failure or a block is recorded only after the operation was being reconciled, with a well-formed code.
\<close>
theorem operation_moves_forward:
  assumes "createOperation api i = Inr r0" and "rfold (move api) r0 ms = Inr r1"
    and "rfold (move api) r1 later = Inr r2"
  shows "later_record r1 r2 \<and> operation_ok api r2 \<and>
    (terminal_phase (lo_phase r1) \<longrightarrow> r2 = r1) \<and>
    (evidenced_terminal (lo_phase r2) \<longrightarrow>
      (\<exists>code. lo_evidenceCode r2 = Some code \<and> evidence_code_pattern code) \<and>
      (\<exists>k c. rfold (move api) r0 (take k (ms @ later)) = Inr c \<and> lo_phase c = Ph_reconciling))"
proof -
  have r0: "operation_ok api r0" "\<not> evidenced_terminal (lo_phase r0)"
    using createOperation_ok [OF assms(1)] by (simp_all add: evidenced_terminal_def)
  note r1 = moves_later [OF r0(1) assms(2)]
  have r2: "operation_ok api r2" "later_record r1 r2"
    using moves_later [OF _ assms(3)] r1 by blast+
  have "rfold (move api) r0 (ms @ later) = Inr r2"
    using assms(2,3) by (simp add: rfold_append)
  then have "evidenced_terminal (lo_phase r2) \<longrightarrow>
      (\<exists>k c. rfold (move api) r0 (take k (ms @ later)) = Inr c \<and> lo_phase c = Ph_reconciling)"
    using evidenced_from_reconciling [OF r0(1)] r0(2) by blast
  moreover have "evidenced_terminal (lo_phase r2) \<longrightarrow>
      (\<exists>code. lo_evidenceCode r2 = Some code \<and> evidence_code_pattern code)"
    using r2(1) by (auto simp: operation_ok_def evidence_fits_def split: option.splits)
  ultimately show ?thesis
    using r2 by (auto simp: later_record_def)
qed

definition demo_raw_operation :: "string \<Rightarrow> raw_operation" where
  "demo_raw_operation kind =
     \<lparr>ro_operationId = demo_id, ro_kind = kind, ro_mint = ''https://mint.io/a'', ro_unit = ''sat'',
      ro_intentHash = replicate 64 (CHR ''0''), ro_phase = ''created'', ro_evidenceCode = None\<rparr>"

lemma operation_moves_forward_witness:
  "\<exists>r0 r1. createOperation demo_url_api (demo_raw_operation ''swap'') = Inr r0 \<and>
     rfold (move demo_url_api) r0 [(''prepared'', None), (''submitted'', None), (''ambiguous'', None),
       (''reconciling'', None), (''recovery_blocked'', Some ''mint_gone'')] = Inr r1 \<and>
     later_record r1 r1 \<and> lo_evidenceCode r1 = Some ''mint_gone''"
proof -
  let ?ms = "[(''prepared'', None), (''submitted'', None), (''ambiguous'', None),
       (''reconciling'', None), (''recovery_blocked'', Some ''mint_gone'')]"
  define r0 where "r0 = projr (createOperation demo_url_api (demo_raw_operation ''swap''))"
  define r1 where "r1 = projr (rfold (move demo_url_api) r0 ?ms)"
  have 0: "createOperation demo_url_api (demo_raw_operation ''swap'') = Inr r0"
    unfolding r0_def by code_simp
  have 1: "rfold (move demo_url_api) r0 ?ms = Inr r1"
    unfolding r1_def r0_def by code_simp
  have "lo_evidenceCode r1 = Some ''mint_gone''"
    unfolding r1_def r0_def by code_simp
  then show ?thesis
    using operation_moves_forward [OF 0 1, of "[]" r1] 0 1 by auto
qed

end
