(* ===== verification/Lifecycle_Oracle.thy ===== *)
theory Lifecycle_Oracle
  imports Lifecycle Js_Map
begin

text \<open>
  \<open>packages/wallet-lifecycle-oracle/src\<close>: observations of a run of wallet operations (\<open>model.ts\<close>,
  \<open>commands.ts\<close>) and their evaluation (\<open>invariants.ts\<close>). Amounts and times are integers, still tested for
  the safe range. A key the code joins with a NUL character is the pair of its parts, a settlement key
  the sum of its two forms. Balances are exact integers; \<open>balance_bounded\<close> says when a double holds them.
\<close>

section \<open>Observations\<close>

datatype lifecycle_proof_state = Proof_UNSPENT | Proof_PENDING | Proof_SPENT

datatype request_kind = Request_mint | Request_swap | Request_melt

record value_movement =
  vm_operationId :: string
  vm_effectId :: string
  vm_unit :: string
  vm_amount :: int
  vm_from :: string
  vm_to :: string

record request_dispatch =
  dsp_operationId :: string
  dsp_requestKind :: request_kind
  dsp_method :: string
  dsp_path :: string
  dsp_bodyHash :: string

record quote_observation =
  mq_operationId :: string
  mq_quoteHash :: string
  mq_amountPaid :: int
  mq_amountIssued :: int
  mq_updatedAt :: int

record proof_observation =
  po_operationId :: string
  po_proofId :: string
  po_owner :: string
  po_state :: lifecycle_proof_state

record settlement_observation =
  lse_operationId :: string
  lse_invoiceHash :: "string option"
  lse_paymentHash :: "string option"
  lse_amount :: "int option"
  lse_unit :: "string option"
  lse_evidenceHash :: "string option"

record outputs_observation =
  oo_operationId :: string
  oo_outputPlanHash :: string
  oo_amount :: int
  oo_unit :: string

datatype observation_body =
    Operation_observed raw_operation
  | Phase_observed string string "string option"
  | Value_moved value_movement
  | Request_dispatched request_dispatch
  | Mint_quote_observed quote_observation
  | Proof_state_observed proof_observation
  | Lightning_settlement_observed settlement_observation
  | Outputs_persisted_observed outputs_observation

record lifecycle_observation =
  ob_provenance :: "string option"
  ob_body :: observation_body

record lifecycle_model =
  lm_observations :: "lifecycle_observation list"

definition emptyLifecycleModel :: lifecycle_model where
  "emptyLifecycleModel = \<lparr>lm_observations = []\<rparr>"

definition applyLifecycleObservation :: "lifecycle_model \<Rightarrow> lifecycle_observation \<Rightarrow> lifecycle_model" where
  "applyLifecycleObservation model observation =
     \<lparr>lm_observations = lm_observations model @ [observation]\<rparr>"

record lifecycle_evaluation =
  ev_operations :: "(string, operation_record) jsmap"
  ev_balances :: "(string \<times> string, int) jsmap"
  ev_effects :: "(string, value_movement) jsmap"
  ev_requests :: "(string \<times> request_kind, request_dispatch) jsmap"
  ev_quotes :: "(string, quote_observation) jsmap"
  ev_proofs :: "(string, proof_observation) jsmap"
  ev_settlements :: "(string + string, settlement_observation) jsmap"
  ev_outputs :: "(string, outputs_observation) jsmap"

definition empty_evaluation :: lifecycle_evaluation where
  "empty_evaluation = \<lparr>ev_operations = [], ev_balances = [], ev_effects = [], ev_requests = [], ev_quotes = [],
     ev_proofs = [], ev_settlements = [], ev_outputs = []\<rparr>"

datatype lifecycle_violation =
    Provenance_invalid
  | Operation_unobserved string
  | Operation_identity_invalid string
  | Operation_not_created string
  | Operation_identity_changed string
  | Phase_violation lifecycle_error
  | Movement_invalid string
  | Account_negative string
  | Effect_conflict string
  | Request_invalid string
  | Request_changed string request_kind
  | Quote_invalid string
  | Quote_overissued string
  | Quote_owner_changed string
  | Quote_regressed string
  | Proof_invalid string
  | Proof_owner_changed string
  | Proof_regressed string
  | Settlement_invalid string
  | Settled_more_than_once "string + string"
  | Outputs_invalid string
  | Outputs_changed string
  | Lifecycle_not_quiescent string
  | No_persisted_outputs string
  | No_settlement string
  | No_request_evidence string
  | No_quote_evidence string
  | No_proof_evidence string
  | No_movement_evidence string

section \<open>Patterns and accounts\<close>

definition identifier_pattern :: "string \<Rightarrow> bool" where
  "identifier_pattern s \<longleftrightarrow>
     (case s of [] \<Rightarrow> False
      | c # cs \<Rightarrow> c \<in> set (lower_alpha @ digits) \<and> length cs \<le> 63 \<and> all_in (lower_alpha @ digits @ ''_.-'') cs)"

definition effect_id_pattern :: "string \<Rightarrow> bool" where
  "effect_id_pattern s \<longleftrightarrow>
     (case s of [] \<Rightarrow> False
      | c # cs \<Rightarrow> c \<in> set (lower_alpha @ digits) \<and> length cs \<le> 63 \<and> all_in (lower_alpha @ digits @ ''_-'') cs)"

definition path_pattern :: "string \<Rightarrow> bool" where
  "path_pattern s \<longleftrightarrow> is_prefix ''/v1/'' s \<and>
     (let rest = drop 4 s in 1 \<le> length rest \<and> length rest \<le> 128 \<and> all_in (lower_alpha @ digits @ ''/_-'') rest)"

definition provenances :: "string list" where
  "provenances = [''adapter_claimed'', ''durable_state'', ''mint'', ''lightning'', ''runner_derived'']"

definition safeNonNegative :: "int \<Rightarrow> bool" where
  "safeNonNegative i \<longleftrightarrow> safe_int i \<and> i \<ge> 0"

definition safePositive :: "int \<Rightarrow> bool" where
  "safePositive i \<longleftrightarrow> safe_int i \<and> i > 0"

text \<open>\<open>s.split(sep)\<close> for a single character.\<close>

fun js_split :: "char \<Rightarrow> string \<Rightarrow> string list" where
  "js_split sep [] = [[]]"
| "js_split sep (c # s) =
     (if c = sep then [] # js_split sep s
      else case js_split sep s of [] \<Rightarrow> [[c]] | w # ws \<Rightarrow> (c # w) # ws)"

definition validAccount :: "string \<Rightarrow> bool" where
  "validAccount v =
     (let parts = js_split (CHR '':'') v in
      case parts of
        [] \<Rightarrow> False
      | hd_part # rest \<Rightarrow>
          if hd_part \<in> set [''external'', ''transfer'', ''lightning'', ''receiver''] then
            (case rest of [name] \<Rightarrow> identifier_pattern name | _ \<Rightarrow> False)
          else if hd_part = ''wallet'' then
            (case rest of
               [name, bucket] \<Rightarrow>
                 identifier_pattern name \<and> bucket \<in> set [''available'', ''reserved'', ''recoverable'']
             | _ \<Rightarrow> False)
          else if hd_part = ''fee'' then
            (case rest of [payee, name] \<Rightarrow> payee \<in> set [''mint'', ''lightning''] \<and> identifier_pattern name | _ \<Rightarrow> False)
          else False)"

definition trackedAccount :: "string \<Rightarrow> bool" where
  "trackedAccount v \<longleftrightarrow> \<not> is_prefix ''external:'' v"

definition balance_at :: "(string \<times> string, int) jsmap \<Rightarrow> string \<times> string \<Rightarrow> int" where
  "balance_at balances key = (case map_of balances key of None \<Rightarrow> 0 | Some b \<Rightarrow> b)"

definition moveValue ::
    "(string \<times> string, int) jsmap \<Rightarrow> value_movement \<Rightarrow> operation_record \<Rightarrow>
     lifecycle_violation + (string \<times> string, int) jsmap" where
  "moveValue balances m operation =
     (if \<not> effect_id_pattern (vm_effectId m) \<or> \<not> unit_pattern (vm_unit m) \<or> vm_unit m \<noteq> lo_unit operation \<or>
         \<not> safePositive (vm_amount m) \<or> \<not> validAccount (vm_from m) \<or> \<not> validAccount (vm_to m) \<or>
         vm_from m = vm_to m
      then Inl (Movement_invalid (vm_effectId m))
      else
        let fromKey = (vm_unit m, vm_from m); toKey = (vm_unit m, vm_to m);
            fromBalance = balance_at balances fromKey - vm_amount m in
        if trackedAccount (vm_from m) \<and> fromBalance < 0 then Inl (Account_negative (vm_from m))
        else
          let debited = mp_set balances fromKey fromBalance in
          Inr (mp_set debited toKey (balance_at debited toKey + vm_amount m)))"

fun validProofTransition :: "lifecycle_proof_state \<Rightarrow> lifecycle_proof_state \<Rightarrow> bool" where
  "validProofTransition from to =
     (if from = to then True
      else if from = Proof_UNSPENT then to = Proof_PENDING \<or> to = Proof_SPENT
      else if from = Proof_PENDING then to = Proof_UNSPENT \<or> to = Proof_SPENT
      else False)"

definition settlementKey :: "settlement_observation \<Rightarrow> string + string" where
  "settlementKey ob =
     (case lse_invoiceHash ob of
        Some h \<Rightarrow> Inl h
      | None \<Rightarrow> Inr (case lse_evidenceHash ob of None \<Rightarrow> [] | Some h \<Rightarrow> h))"

text \<open>The fields \<open>sameOperation\<close> compares; the other comparisons of the code are of whole bodies.\<close>

definition sameOperation :: "operation_record \<Rightarrow> operation_record \<Rightarrow> bool" where
  "sameOperation l r \<longleftrightarrow>
     lo_operationId l = lo_operationId r \<and> lo_kind l = lo_kind r \<and> lo_mint l = lo_mint r \<and>
     lo_unit l = lo_unit r \<and> lo_intentHash l = lo_intentHash r"

definition operationFor ::
    "(string, operation_record) jsmap \<Rightarrow> string \<Rightarrow> lifecycle_violation + operation_record" where
  "operationFor operations i =
     (case map_of operations i of None \<Rightarrow> Inl (Operation_unobserved i) | Some r \<Rightarrow> Inr r)"

section \<open>Evaluation\<close>

text \<open>A value is recorded once and must be the same whenever it is observed again.\<close>

definition record_once :: "('k, 'v) jsmap \<Rightarrow> 'k \<Rightarrow> 'v \<Rightarrow> 'e \<Rightarrow> 'e + ('k, 'v) jsmap" where
  "record_once m k v e =
     (case map_of m k of
        None \<Rightarrow> Inr (mp_set m k v)
      | Some previous \<Rightarrow> if previous \<noteq> v then Inl e else Inr (mp_set m k previous))"

definition observe_operation ::
    "url_api \<Rightarrow> lifecycle_evaluation \<Rightarrow> raw_operation \<Rightarrow> lifecycle_violation + lifecycle_evaluation" where
  "observe_operation api e raw =
     rbind (map_sum (\<lambda>_. Operation_identity_invalid (ro_operationId raw)) id (createOperation api raw)) (\<lambda>created.
     if ro_phase raw \<noteq> ''created'' \<or> ro_evidenceCode raw \<noteq> None
     then Inl (Operation_not_created (lo_operationId created))
     else
       (case map_of (ev_operations e) (lo_operationId created) of
          None \<Rightarrow> Inr (e\<lparr>ev_operations := mp_set (ev_operations e) (lo_operationId created) created\<rparr>)
        | Some previous \<Rightarrow>
            if \<not> sameOperation previous created then Inl (Operation_identity_changed (lo_operationId created))
            else Inr (e\<lparr>ev_operations := mp_set (ev_operations e) (lo_operationId created) previous\<rparr>)))"

definition observe_quote ::
    "lifecycle_evaluation \<Rightarrow> quote_observation \<Rightarrow> lifecycle_violation + lifecycle_evaluation" where
  "observe_quote e q =
     rbind (operationFor (ev_operations e) (mq_operationId q)) (\<lambda>_.
     if \<not> hash_pattern (mq_quoteHash q) \<or> \<not> safeNonNegative (mq_amountPaid q) \<or>
        \<not> safeNonNegative (mq_amountIssued q) \<or> \<not> safeNonNegative (mq_updatedAt q)
     then Inl (Quote_invalid (mq_operationId q))
     else if mq_amountIssued q > mq_amountPaid q then Inl (Quote_overissued (mq_operationId q))
     else
       rbind (case map_of (ev_quotes e) (mq_quoteHash q) of
           None \<Rightarrow> Inr ()
         | Some previous \<Rightarrow>
             if mq_operationId previous \<noteq> mq_operationId q then Inl (Quote_owner_changed (mq_quoteHash q))
             else
               let amountsChanged = (mq_amountPaid previous \<noteq> mq_amountPaid q \<or>
                     mq_amountIssued previous \<noteq> mq_amountIssued q) in
               if mq_amountPaid q < mq_amountPaid previous \<or> mq_amountIssued q < mq_amountIssued previous \<or>
                  mq_updatedAt q < mq_updatedAt previous \<or>
                  (amountsChanged \<and> mq_updatedAt q \<le> mq_updatedAt previous)
               then Inl (Quote_regressed (mq_operationId q)) else Inr ()) (\<lambda>_.
         Inr (e\<lparr>ev_quotes := mp_set (ev_quotes e) (mq_quoteHash q) q\<rparr>)))"

definition strip_wallet :: "string \<Rightarrow> string" where
  "strip_wallet s = (if is_prefix ''wallet:'' s then drop 7 s else s)"

definition observe_proof ::
    "lifecycle_evaluation \<Rightarrow> proof_observation \<Rightarrow> lifecycle_violation + lifecycle_evaluation" where
  "observe_proof e p =
     rbind (operationFor (ev_operations e) (po_operationId p)) (\<lambda>_.
     if \<not> hash_pattern (po_proofId p) \<or> \<not> identifier_pattern (strip_wallet (po_owner p))
     then Inl (Proof_invalid (po_operationId p))
     else
       rbind (case map_of (ev_proofs e) (po_proofId p) of
           None \<Rightarrow> Inr ()
         | Some previous \<Rightarrow>
             if po_owner previous \<noteq> po_owner p then Inl (Proof_owner_changed (po_proofId p))
             else if \<not> validProofTransition (po_state previous) (po_state p)
             then Inl (Proof_regressed (po_proofId p)) else Inr ()) (\<lambda>_.
         Inr (e\<lparr>ev_proofs := mp_set (ev_proofs e) (po_proofId p) p\<rparr>)))"

definition observe_settlement ::
    "lifecycle_evaluation \<Rightarrow> string option \<Rightarrow> settlement_observation \<Rightarrow>
     lifecycle_violation + lifecycle_evaluation" where
  "observe_settlement e provenance s =
     rbind (operationFor (ev_operations e) (lse_operationId s)) (\<lambda>operation.
     let hasProtocolBinding =
           (case (lse_invoiceHash s, lse_paymentHash s, lse_amount s, lse_unit s) of
              (Some invoice, Some payment, Some amount, Some unit) \<Rightarrow>
                hash_pattern invoice \<and> hash_pattern payment \<and> safePositive amount \<and> unit = lo_unit operation
            | _ \<Rightarrow> False);
         hasAuthenticatedEvidence = (provenance = Some ''lightning'' \<and>
           hash_pattern (case lse_evidenceHash s of None \<Rightarrow> [] | Some h \<Rightarrow> h)) in
     if lo_kind operation \<noteq> Kind_melt \<or> (\<not> hasProtocolBinding \<and> \<not> hasAuthenticatedEvidence)
     then Inl (Settlement_invalid (lse_operationId s))
     else
       rbind (record_once (ev_settlements e) (settlementKey s) s (Settled_more_than_once (settlementKey s)))
         (\<lambda>m. Inr (e\<lparr>ev_settlements := m\<rparr>)))"

definition evaluate_step ::
    "url_api \<Rightarrow> lifecycle_evaluation \<Rightarrow> lifecycle_observation \<Rightarrow> lifecycle_violation + lifecycle_evaluation" where
  "evaluate_step api e ob =
     (if (case ob_provenance ob of None \<Rightarrow> False | Some p \<Rightarrow> p \<notin> set provenances) then Inl Provenance_invalid
      else case ob_body ob of
        Operation_observed raw \<Rightarrow> observe_operation api e raw
      | Phase_observed i phase code \<Rightarrow>
          rbind (operationFor (ev_operations e) i) (\<lambda>current.
          rbind (map_sum Phase_violation id (transitionOperation api current phase code)) (\<lambda>next.
            Inr (e\<lparr>ev_operations := mp_set (ev_operations e) i next\<rparr>)))
      | Value_moved m \<Rightarrow>
          rbind (operationFor (ev_operations e) (vm_operationId m)) (\<lambda>operation.
          case map_of (ev_effects e) (vm_effectId m) of
            Some previous \<Rightarrow> if previous \<noteq> m then Inl (Effect_conflict (vm_effectId m)) else Inr e
          | None \<Rightarrow>
              rbind (moveValue (ev_balances e) m operation) (\<lambda>balances.
                Inr (e\<lparr>ev_balances := balances, ev_effects := mp_set (ev_effects e) (vm_effectId m) m\<rparr>)))
      | Request_dispatched d \<Rightarrow>
          rbind (operationFor (ev_operations e) (dsp_operationId d)) (\<lambda>_.
          if dsp_method d \<noteq> ''POST'' \<or> \<not> path_pattern (dsp_path d) \<or> \<not> hash_pattern (dsp_bodyHash d)
          then Inl (Request_invalid (dsp_operationId d))
          else
            rbind (record_once (ev_requests e) (dsp_operationId d, dsp_requestKind d) d
                (Request_changed (dsp_operationId d) (dsp_requestKind d)))
              (\<lambda>m. Inr (e\<lparr>ev_requests := m\<rparr>)))
      | Mint_quote_observed q \<Rightarrow> observe_quote e q
      | Proof_state_observed p \<Rightarrow> observe_proof e p
      | Lightning_settlement_observed s \<Rightarrow> observe_settlement e (ob_provenance ob) s
      | Outputs_persisted_observed p \<Rightarrow>
          rbind (operationFor (ev_operations e) (oo_operationId p)) (\<lambda>operation.
          if \<not> hash_pattern (oo_outputPlanHash p) \<or> \<not> safePositive (oo_amount p) \<or> oo_unit p \<noteq> lo_unit operation
          then Inl (Outputs_invalid (oo_operationId p))
          else
            rbind (record_once (ev_outputs e) (oo_operationId p) p (Outputs_changed (oo_operationId p)))
              (\<lambda>m. Inr (e\<lparr>ev_outputs := m\<rparr>))))"

definition evaluateLifecycleModel :: "url_api \<Rightarrow> lifecycle_model \<Rightarrow> lifecycle_violation + lifecycle_evaluation" where
  "evaluateLifecycleModel api model = rfold (evaluate_step api) empty_evaluation (lm_observations model)"

definition assertLifecycleSafety :: "url_api \<Rightarrow> lifecycle_model \<Rightarrow> lifecycle_violation + unit" where
  "assertLifecycleSafety api model = rbind (evaluateLifecycleModel api model) (\<lambda>_. Inr ())"

section \<open>Quiescence\<close>

fun required_request :: "lifecycle_kind \<Rightarrow> request_kind option" where
  "required_request kind =
     (if kind = Kind_mint then Some Request_mint
      else if kind = Kind_melt then Some Request_melt
      else if kind \<in> set [Kind_swap, Kind_send, Kind_receive] then Some Request_swap
      else None)"

definition quiescent_operation ::
    "lifecycle_model \<Rightarrow> lifecycle_evaluation \<Rightarrow> operation_record \<Rightarrow> lifecycle_violation + unit" where
  "quiescent_operation model e r =
     (let i = lo_operationId r; succeeded = (lo_phase r = Ph_succeeded); kind = lo_kind r in
      if lo_phase r \<notin> set [Ph_succeeded, Ph_failed_definitive, Ph_recovery_blocked]
      then Inl (Lifecycle_not_quiescent i)
      else if succeeded \<and> kind \<in> set [Kind_mint, Kind_swap, Kind_receive, Kind_restore] \<and> map_of (ev_outputs e) i = None
      then Inl (No_persisted_outputs i)
      else if succeeded \<and> kind = Kind_melt \<and> \<not> list_ex (\<lambda>s. lse_operationId s = i) (mp_values (ev_settlements e))
      then Inl (No_settlement i)
      else if \<not> succeeded then Inr ()
      else if (case required_request kind of None \<Rightarrow> False | Some k \<Rightarrow> map_of (ev_requests e) (i, k) = None)
      then Inl (No_request_evidence i)
      else if kind = Kind_mint \<and> \<not> list_ex (\<lambda>q. mq_operationId q = i) (mp_values (ev_quotes e))
      then Inl (No_quote_evidence i)
      else if kind \<in> set [Kind_swap, Kind_send, Kind_receive, Kind_melt] \<and>
        \<not> list_ex (\<lambda>ob. case ob_body ob of Proof_state_observed p \<Rightarrow> po_operationId p = i | _ \<Rightarrow> False)
           (lm_observations model)
      then Inl (No_proof_evidence i)
      else if kind \<noteq> Kind_reconcile \<and> \<not> list_ex (\<lambda>m. vm_operationId m = i) (mp_values (ev_effects e))
      then Inl (No_movement_evidence i)
      else Inr ())"

definition assertLifecycleQuiescence :: "url_api \<Rightarrow> lifecycle_model \<Rightarrow> lifecycle_violation + unit" where
  "assertLifecycleQuiescence api model =
     rbind (evaluateLifecycleModel api model) (\<lambda>e.
     rbind (traverse (quiescent_operation model e) (mp_values (ev_operations e))) (\<lambda>_. Inr ()))"

end
