(* ===== verification/Lifecycle_Properties.thy ===== *)
theory Lifecycle_Properties
  imports Lifecycle_Oracle
begin

text \<open>
  What the evaluation of a lifecycle run guarantees: value is conserved, no tracked account is overdrawn,
  balances are the net of the distinct effects, and what has been observed is never taken back.
\<close>

section \<open>Growing maps\<close>

definition grows :: "('v \<Rightarrow> 'v \<Rightarrow> bool) \<Rightarrow> ('k, 'v) jsmap \<Rightarrow> ('k, 'v) jsmap \<Rightarrow> bool" where
  "grows Q m m' \<longleftrightarrow> (\<forall>k v. map_of m k = Some v \<longrightarrow> (\<exists>v'. map_of m' k = Some v' \<and> Q v v'))"

lemma growsD: "grows Q m m' \<Longrightarrow> map_of m k = Some v \<Longrightarrow> \<exists>v'. map_of m' k = Some v' \<and> Q v v'"
  by (simp add: grows_def)

lemma grows_eqD: "grows (=) m m' \<Longrightarrow> map_of m k = Some v \<Longrightarrow> map_of m' k = Some v"
  by (auto simp: grows_def)

lemma grows_refl: "(\<And>v. Q v v) \<Longrightarrow> grows Q m m"
  by (simp add: grows_def)

lemma grows_trans: "(\<And>a b c. Q a b \<Longrightarrow> Q b c \<Longrightarrow> Q a c) \<Longrightarrow> grows Q m1 m2 \<Longrightarrow> grows Q m2 m3 \<Longrightarrow> grows Q m1 m3"
  unfolding grows_def by meson

lemma grows_set: "(\<And>v. Q v v) \<Longrightarrow> (\<And>v0. map_of m k = Some v0 \<Longrightarrow> Q v0 v) \<Longrightarrow> grows Q m (mp_set m k v)"
  unfolding grows_def by simp

lemma record_once_grows: "record_once m k v e = Inr m' \<Longrightarrow> grows (=) m m'"
  by (auto simp: record_once_def grows_def split: option.splits if_splits)

section \<open>Balances and effects\<close>

definition moved :: "string \<Rightarrow> string \<Rightarrow> value_movement \<Rightarrow> int" where
  "moved u a m =
     (if vm_unit m = u then (if vm_to m = a then vm_amount m else 0) - (if vm_from m = a then vm_amount m else 0) else 0)"

definition net :: "value_movement list \<Rightarrow> string \<Rightarrow> string \<Rightarrow> int" where
  "net ms u a = sum_list (map (moved u a) ms)"

definition unit_total :: "string \<Rightarrow> (string \<times> string, int) jsmap \<Rightarrow> int" where
  "unit_total u balances = sum_list (map snd (filter (\<lambda>p. fst (fst p) = u) balances))"

lemma mp_set_new: "map_of m k = None \<Longrightarrow> mp_set m k v = m @ [(k, v)]"
  by (induction m) (auto split: if_splits)

lemma balance_at_set [simp]: "balance_at (mp_set m k v) k' = (if k' = k then v else balance_at m k')"
  by (simp add: balance_at_def)

lemma unit_total_set:
  "mp_ok m \<Longrightarrow> unit_total u (mp_set m k v) = unit_total u m + (if fst k = u then v - balance_at m k else 0)"
proof (induction m)
  case Nil
  then show ?case by (simp add: unit_total_def balance_at_def)
next
  case (Cons p m)
  have "mp_ok m" using Cons.prems by (simp add: mp_ok_def)
  with Cons.IH show ?case
    by (cases p) (auto simp: unit_total_def balance_at_def)
qed

text \<open>What a successful movement does to the balances.\<close>

definition movement_ok :: "value_movement \<Rightarrow> bool" where
  "movement_ok m \<longleftrightarrow> safePositive (vm_amount m) \<and> vm_from m \<noteq> vm_to m"

lemma moveValue_effect:
  assumes "moveValue bs m r = Inr bs'" and "mp_ok bs"
  shows "movement_ok m \<and> mp_ok bs' \<and> unit_total u bs' = unit_total u bs \<and>
    balance_at bs' (u, a) = balance_at bs (u, a) + moved u a m \<and>
    (trackedAccount (vm_from m) \<longrightarrow> 0 \<le> balance_at bs' (vm_unit m, vm_from m))"
proof -
  define b where "b = balance_at bs (vm_unit m, vm_from m) - vm_amount m"
  define d where "d = mp_set bs (vm_unit m, vm_from m) b"
  have m: "movement_ok m" "trackedAccount (vm_from m) \<longrightarrow> 0 \<le> b"
    "bs' = mp_set d (vm_unit m, vm_to m) (balance_at d (vm_unit m, vm_to m) + vm_amount m)"
    using assms(1) by (auto simp: moveValue_def movement_ok_def Let_def b_def d_def split: if_splits)
  have ok: "mp_ok d" "mp_ok bs'" using assms(2) by (simp_all add: d_def m(3))
  have "unit_total u bs' = unit_total u bs"
    using ok by (simp add: m(3) unit_total_set) (simp add: d_def unit_total_set assms(2) b_def)
  moreover have "balance_at bs' (u, a) = balance_at bs (u, a) + moved u a m"
    using m(1) by (auto simp: m(3) d_def b_def moved_def movement_ok_def)
  moreover have "balance_at bs' (vm_unit m, vm_from m) = b"
    using m(1) by (auto simp: m(3) d_def movement_ok_def)
  ultimately show ?thesis using m ok by simp
qed

section \<open>The invariant of the evaluation\<close>

definition ledger_ok :: "lifecycle_evaluation \<Rightarrow> bool" where
  "ledger_ok e \<longleftrightarrow> mp_ok (ev_balances e) \<and>
     (\<forall>u. unit_total u (ev_balances e) = 0) \<and>
     (\<forall>u a. balance_at (ev_balances e) (u, a) = net (mp_values (ev_effects e)) u a) \<and>
     (\<forall>u a. trackedAccount a \<longrightarrow> 0 \<le> balance_at (ev_balances e) (u, a)) \<and>
     list_all (\<lambda>(k, m). vm_effectId m = k \<and> movement_ok m) (ev_effects e) \<and> mp_ok (ev_effects e)"

lemma ledger_okD:
  assumes "ledger_ok e"
  shows "mp_ok (ev_balances e)" and "unit_total u (ev_balances e) = 0"
    and "balance_at (ev_balances e) (u, a) = net (mp_values (ev_effects e)) u a"
    and "trackedAccount a \<Longrightarrow> 0 \<le> balance_at (ev_balances e) (u, a)"
    and "list_all (\<lambda>(k, m). vm_effectId m = k \<and> movement_ok m) (ev_effects e)" and "mp_ok (ev_effects e)"
  using assms unfolding ledger_ok_def by blast+

definition quote_le :: "quote_observation \<Rightarrow> quote_observation \<Rightarrow> bool" where
  "quote_le q q' \<longleftrightarrow> mq_operationId q' = mq_operationId q \<and> mq_amountPaid q \<le> mq_amountPaid q' \<and>
     mq_amountIssued q \<le> mq_amountIssued q' \<and> mq_updatedAt q \<le> mq_updatedAt q'"

definition proof_le :: "proof_observation \<Rightarrow> proof_observation \<Rightarrow> bool" where
  "proof_le p p' \<longleftrightarrow> po_owner p' = po_owner p \<and> (po_state p = Proof_SPENT \<longrightarrow> po_state p' = Proof_SPENT)"

definition operations_ok :: "url_api \<Rightarrow> lifecycle_evaluation \<Rightarrow> bool" where
  "operations_ok api e \<longleftrightarrow>
     (\<forall>k r. map_of (ev_operations e) k = Some r \<longrightarrow> operation_ok api r \<and> lo_operationId r = k)"

definition eval_inv :: "url_api \<Rightarrow> lifecycle_evaluation \<Rightarrow> bool" where
  "eval_inv api e \<longleftrightarrow> operations_ok api e \<and> ledger_ok e"

definition eval_le :: "lifecycle_evaluation \<Rightarrow> lifecycle_evaluation \<Rightarrow> bool" where
  "eval_le e e' \<longleftrightarrow>
     grows later_record (ev_operations e) (ev_operations e') \<and> grows (=) (ev_effects e) (ev_effects e') \<and>
     grows (=) (ev_requests e) (ev_requests e') \<and> grows quote_le (ev_quotes e) (ev_quotes e') \<and>
     grows proof_le (ev_proofs e) (ev_proofs e') \<and> grows (=) (ev_settlements e) (ev_settlements e') \<and>
     grows (=) (ev_outputs e) (ev_outputs e')"

lemma le_refls [simp]: "later_record r r" "quote_le q q" "proof_le p p"
  by (simp_all add: later_record_def quote_le_def proof_le_def)

lemma eval_le_refl [simp]: "eval_le e e"
  by (simp add: eval_le_def grows_refl)

lemma eval_le_trans: "eval_le a b \<Longrightarrow> eval_le b c \<Longrightarrow> eval_le a c"
  unfolding eval_le_def
  by (auto elim!: grows_trans [rotated] intro: later_record_trans simp: quote_le_def proof_le_def)

lemma eval_inv_empty: "eval_inv api empty_evaluation"
  by (simp add: eval_inv_def operations_ok_def ledger_ok_def empty_evaluation_def unit_total_def balance_at_def
      net_def mp_values_def)

section \<open>Steps\<close>

lemma operationFor_Inr [result_simps]: "operationFor m i = Inr r \<longleftrightarrow> map_of m i = Some r"
  by (simp add: operationFor_def split: option.split)

text \<open>Observations that leave operations, balances and effects alone.\<close>

lemma eval_inv_other [simp]:
  "eval_inv api (e\<lparr>ev_requests := m1\<rparr>) = eval_inv api e"
  "eval_inv api (e\<lparr>ev_quotes := m2\<rparr>) = eval_inv api e"
  "eval_inv api (e\<lparr>ev_proofs := m3\<rparr>) = eval_inv api e"
  "eval_inv api (e\<lparr>ev_settlements := m4\<rparr>) = eval_inv api e"
  "eval_inv api (e\<lparr>ev_outputs := m5\<rparr>) = eval_inv api e"
  unfolding eval_inv_def operations_ok_def ledger_ok_def by simp_all

lemma set_operation:
  assumes "eval_inv api e" and "operation_ok api r" and "lo_operationId r = i"
    and "\<And>r0. map_of (ev_operations e) i = Some r0 \<Longrightarrow> later_record r0 r"
  shows "eval_inv api (e\<lparr>ev_operations := mp_set (ev_operations e) i r\<rparr>) \<and>
    eval_le e (e\<lparr>ev_operations := mp_set (ev_operations e) i r\<rparr>)"
  using assms
  by (auto simp: eval_inv_def operations_ok_def ledger_ok_def eval_le_def map_upd_Some_iff intro!: grows_refl grows_set)

lemma observe_operation_step:
  assumes "eval_inv api e" and "observe_operation api e raw = Inr e'"
  shows "eval_inv api e' \<and> eval_le e e'"
proof -
  obtain r where r: "createOperation api raw = Inr r"
    using assms(2) by (auto simp: observe_operation_def result_simps)
  note ok = createOperation_ok [OF r]
  have "(map_of (ev_operations e) (lo_operationId r) = None \<and>
          e' = e\<lparr>ev_operations := mp_set (ev_operations e) (lo_operationId r) r\<rparr>) \<or>
        (\<exists>p. map_of (ev_operations e) (lo_operationId r) = Some p \<and>
          e' = e\<lparr>ev_operations := mp_set (ev_operations e) (lo_operationId r) p\<rparr>)"
    using assms(2) by (auto simp: observe_operation_def r split: option.splits if_splits)
  then show ?thesis
  proof (elim disjE exE conjE)
    assume "map_of (ev_operations e) (lo_operationId r) = None"
      and e': "e' = e\<lparr>ev_operations := mp_set (ev_operations e) (lo_operationId r) r\<rparr>"
    then show ?thesis unfolding e' by (intro set_operation [OF assms(1)]) (use ok in auto)
  next
    fix p
    assume p: "map_of (ev_operations e) (lo_operationId r) = Some p"
      and e': "e' = e\<lparr>ev_operations := mp_set (ev_operations e) (lo_operationId r) p\<rparr>"
    have "e' = e" unfolding e' by (simp add: mp_set_same [OF p])
    then show ?thesis using assms(1) by simp
  qed
qed

lemma phase_step:
  assumes inv: "eval_inv api e" and r: "map_of (ev_operations e) i = Some r"
    and t: "transitionOperation api r phase code = Inr r'"
  shows "eval_inv api (e\<lparr>ev_operations := mp_set (ev_operations e) i r'\<rparr>) \<and>
    eval_le e (e\<lparr>ev_operations := mp_set (ev_operations e) i r'\<rparr>)"
proof -
  have ok: "operation_ok api r" "lo_operationId r = i"
    using inv r by (simp_all add: eval_inv_def operations_ok_def)
  have later: "operation_ok api r' \<and> later_record r r'"
    using move_later [OF ok(1), of "(phase, code)" r'] t by (simp add: move_def)
  then have "lo_operationId r' = i"
    using ok(2) by (cases r; cases r') (auto simp: later_record_def)
  then show ?thesis
    using later r by (intro set_operation [OF inv]) auto
qed

lemma movement_step:
  assumes inv: "eval_inv api e" and new: "map_of (ev_effects e) (vm_effectId m) = None"
    and bs: "moveValue (ev_balances e) m r = Inr bs"
  shows "eval_inv api (e\<lparr>ev_balances := bs, ev_effects := mp_set (ev_effects e) (vm_effectId m) m\<rparr>) \<and>
    eval_le e (e\<lparr>ev_balances := bs, ev_effects := mp_set (ev_effects e) (vm_effectId m) m\<rparr>)"
proof -
  have led: "ledger_ok e" and ops: "operations_ok api e" using inv by (simp_all add: eval_inv_def)
  have ok: "mp_ok (ev_balances e)" using led by (simp add: ledger_ok_def)
  note eff = moveValue_effect [OF bs ok]
  have bal: "balance_at bs (u, a) = balance_at (ev_balances e) (u, a) + moved u a m" for u a
    using eff [of u a] by simp
  have nonneg: "0 \<le> balance_at bs (u, a)" if "trackedAccount a" for u a
  proof (cases "vm_unit m = u \<and> vm_from m = a")
    case True
    moreover have "trackedAccount (vm_from m) \<longrightarrow> 0 \<le> balance_at bs (vm_unit m, vm_from m)" using eff by blast
    ultimately show ?thesis using that by blast
  next
    case False
    have "0 \<le> balance_at (ev_balances e) (u, a)" using ledger_okD(4) [OF led that] .
    moreover have "movement_ok m" using eff by blast
    then have "0 \<le> moved u a m" using False by (auto simp: moved_def movement_ok_def safePositive_def)
    ultimately show ?thesis by (simp add: bal)
  qed
  have "ledger_ok (e\<lparr>ev_balances := bs, ev_effects := mp_set (ev_effects e) (vm_effectId m) m\<rparr>)"
    unfolding ledger_ok_def using led eff nonneg
    by (auto simp: ledger_ok_def mp_set_new [OF new] mp_values_def net_def bal)
       (metis mp_ok_set mp_set_new new)
  moreover have "operations_ok api (e\<lparr>ev_balances := bs, ev_effects := mp_set (ev_effects e) (vm_effectId m) m\<rparr>)"
    using ops by (simp add: operations_ok_def)
  moreover have "eval_le e (e\<lparr>ev_balances := bs, ev_effects := mp_set (ev_effects e) (vm_effectId m) m\<rparr>)"
    using new by (auto simp: eval_le_def intro!: grows_refl grows_set)
  ultimately show ?thesis by (simp add: eval_inv_def)
qed

lemma quote_step:
  assumes "eval_inv api e" and "observe_quote e q = Inr e'"
  shows "eval_inv api e' \<and> eval_le e e'"
proof -
  have e': "e' = e\<lparr>ev_quotes := mp_set (ev_quotes e) (mq_quoteHash q) q\<rparr>"
    using assms(2) by (auto simp: observe_quote_def result_simps)
  have "quote_le p q" if "map_of (ev_quotes e) (mq_quoteHash q) = Some p" for p
    using assms(2) that by (auto simp: observe_quote_def result_simps quote_le_def Let_def split: if_splits)
  then show ?thesis
    using assms(1) by (auto simp: e' eval_le_def intro!: grows_refl grows_set)
qed

lemma proof_step:
  assumes "eval_inv api e" and "observe_proof e p = Inr e'"
  shows "eval_inv api e' \<and> eval_le e e'"
proof -
  have e': "e' = e\<lparr>ev_proofs := mp_set (ev_proofs e) (po_proofId p) p\<rparr>"
    using assms(2) by (auto simp: observe_proof_def result_simps)
  have "proof_le p0 p" if "map_of (ev_proofs e) (po_proofId p) = Some p0" for p0
    using assms(2) that by (auto simp: observe_proof_def result_simps proof_le_def split: if_splits)
  then show ?thesis
    using assms(1) by (auto simp: e' eval_le_def intro!: grows_refl grows_set)
qed

lemma evaluate_step_keeps:
  assumes inv: "eval_inv api e" and step: "evaluate_step api e ob = Inr e'"
  shows "eval_inv api e' \<and> eval_le e e'"
proof (cases "ob_body ob")
  case (Operation_observed raw)
  then show ?thesis
    using step observe_operation_step [OF inv] by (auto simp: evaluate_step_def split: if_splits)
next
  case (Phase_observed i phase code)
  then show ?thesis
    using step phase_step [OF inv] by (auto simp: evaluate_step_def result_simps split: if_splits)
next
  case (Value_moved m)
  show ?thesis
  proof (cases "map_of (ev_effects e) (vm_effectId m)")
    case None
    then show ?thesis
      using step movement_step [OF inv None] Value_moved
      by (auto simp: evaluate_step_def result_simps split: if_splits)
  next
    case (Some p)
    then have "e' = e"
      using step Value_moved by (auto simp: evaluate_step_def result_simps split: if_splits)
    then show ?thesis using inv by simp
  qed
next
  case (Request_dispatched d)
  then obtain m where m: "record_once (ev_requests e) (dsp_operationId d, dsp_requestKind d) d
      (Request_changed (dsp_operationId d) (dsp_requestKind d)) = Inr m" "e' = e\<lparr>ev_requests := m\<rparr>"
    using step by (auto simp: evaluate_step_def result_simps split: if_splits)
  then show ?thesis
    using inv record_once_grows [OF m(1)] by (simp add: eval_le_def grows_refl)
next
  case (Mint_quote_observed q)
  then show ?thesis
    using step quote_step [OF inv] by (auto simp: evaluate_step_def split: if_splits)
next
  case (Proof_state_observed p)
  then show ?thesis
    using step proof_step [OF inv] by (auto simp: evaluate_step_def split: if_splits)
next
  case (Lightning_settlement_observed s)
  then obtain m where m: "record_once (ev_settlements e) (settlementKey s) s (Settled_more_than_once (settlementKey s)) = Inr m"
      "e' = e\<lparr>ev_settlements := m\<rparr>"
    using step by (auto simp: evaluate_step_def observe_settlement_def result_simps Let_def split: if_splits)
  then show ?thesis
    using inv record_once_grows [OF m(1)] by (simp add: eval_le_def grows_refl)
next
  case (Outputs_persisted_observed p)
  then obtain m where m: "record_once (ev_outputs e) (oo_operationId p) p (Outputs_changed (oo_operationId p)) = Inr m"
      "e' = e\<lparr>ev_outputs := m\<rparr>"
    using step by (auto simp: evaluate_step_def result_simps split: if_splits)
  then show ?thesis
    using inv record_once_grows [OF m(1)] by (simp add: eval_le_def grows_refl)
qed

lemma evaluate_keeps:
  assumes "eval_inv api e" and "rfold (evaluate_step api) e obs = Inr e'"
  shows "eval_inv api e' \<and> eval_le e e'"
  using assms
proof (induction obs arbitrary: e)
  case Nil
  then show ?case by simp
next
  case (Cons ob obs)
  then obtain c where c: "evaluate_step api e ob = Inr c" "rfold (evaluate_step api) c obs = Inr e'"
    by (auto simp: result_simps)
  then show ?case
    using evaluate_step_keeps [OF Cons.prems(1) c(1)] Cons.IH [of c] eval_le_trans by blast
qed

lemma evaluated:
  assumes "evaluateLifecycleModel api model = Inr e"
  shows "eval_inv api e"
  using evaluate_keeps [OF eval_inv_empty] assms by (auto simp: evaluateLifecycleModel_def)

section \<open>Theorems\<close>


lemma net_bounded: "list_all movement_ok ms \<Longrightarrow> \<bar>net ms u a\<bar> \<le> sum_list (map vm_amount ms)"
  by (induction ms) (auto simp: net_def moved_def movement_ok_def safePositive_def)

text \<open>While the amounts moved add up to a safe integer, every balance is one: a double holds it exactly.\<close>

lemma balance_bounded:
  assumes "evaluateLifecycleModel api model = Inr e"
    and "sum_list (map vm_amount (mp_values (ev_effects e))) \<le> max_safe_integer"
  shows "safe_int (balance_at (ev_balances e) (u, a))"
proof -
  have led: "ledger_ok e" using evaluated [OF assms(1)] by (simp add: eval_inv_def)
  then have "list_all movement_ok (mp_values (ev_effects e))"
    using ledger_okD(5) by (fastforce simp: mp_values_def list_all_iff)
  from net_bounded [OF this, of u a] show ?thesis
    using assms(2) by (simp add: ledger_okD(3) [OF led] safe_int_def) linarith
qed

text \<open>
  C30: What the lifecycle oracle has accepted is never taken back. When a run goes on and is still
  accepted, every operation keeps its identity and only moves forward; an effect, a request, a settlement
  and a set of outputs stay as first recorded; a quote keeps its owner and its amounts and time only grow;
  and a proof keeps its owner and, once spent, stays spent.
\<close>
theorem lifecycle_observations_stable:
  assumes "evaluateLifecycleModel api \<lparr>lm_observations = obs\<rparr> = Inr e"
    and "evaluateLifecycleModel api \<lparr>lm_observations = obs @ later\<rparr> = Inr e'"
  shows "(\<forall>r. map_of (ev_operations e) i = Some r \<longrightarrow>
        (\<exists>r'. map_of (ev_operations e') i = Some r' \<and> later_record r r')) \<and>
    (\<forall>m. map_of (ev_effects e) k = Some m \<longrightarrow> map_of (ev_effects e') k = Some m) \<and>
    (\<forall>d. map_of (ev_requests e) (i, q) = Some d \<longrightarrow> map_of (ev_requests e') (i, q) = Some d) \<and>
    (\<forall>s. map_of (ev_settlements e) h = Some s \<longrightarrow> map_of (ev_settlements e') h = Some s) \<and>
    (\<forall>p. map_of (ev_outputs e) i = Some p \<longrightarrow> map_of (ev_outputs e') i = Some p) \<and>
    (\<forall>x. map_of (ev_quotes e) k = Some x \<longrightarrow> (\<exists>x'. map_of (ev_quotes e') k = Some x' \<and> quote_le x x')) \<and>
    (\<forall>p. map_of (ev_proofs e) k = Some p \<longrightarrow> (\<exists>p'. map_of (ev_proofs e') k = Some p' \<and>
        po_owner p' = po_owner p \<and> (po_state p = Proof_SPENT \<longrightarrow> po_state p' = Proof_SPENT)))"
proof -
  have "rfold (evaluate_step api) e later = Inr e'"
    using assms by (auto simp: evaluateLifecycleModel_def rfold_append)
  then have "eval_le e e'"
    using evaluate_keeps evaluated [OF assms(1)] by blast
  then have g: "grows later_record (ev_operations e) (ev_operations e')" "grows (=) (ev_effects e) (ev_effects e')"
    "grows (=) (ev_requests e) (ev_requests e')" "grows quote_le (ev_quotes e) (ev_quotes e')"
    "grows proof_le (ev_proofs e) (ev_proofs e')" "grows (=) (ev_settlements e) (ev_settlements e')"
    "grows (=) (ev_outputs e) (ev_outputs e')"
    by (simp_all add: eval_le_def)
  show ?thesis
    unfolding proof_le_def [symmetric]
    using growsD [OF g(1)] growsD [OF g(4)] growsD [OF g(5)]
    by (intro conjI allI impI) (auto intro: grows_eqD [OF g(2)] grows_eqD [OF g(3)] grows_eqD [OF g(6)] grows_eqD [OF g(7)])
qed

section \<open>An example run\<close>

definition demo_movement :: "string \<Rightarrow> string \<Rightarrow> string \<Rightarrow> value_movement" where
  "demo_movement effect from to =
     \<lparr>vm_operationId = demo_id, vm_effectId = effect, vm_unit = ''sat'', vm_amount = 8, vm_from = from, vm_to = to\<rparr>"

definition plain_observation :: "observation_body \<Rightarrow> lifecycle_observation" where
  "plain_observation b = \<lparr>ob_provenance = None, ob_body = b\<rparr>"

definition demo_lifecycle :: "lifecycle_observation list" where
  "demo_lifecycle = map plain_observation
     [Operation_observed (demo_raw_operation ''mint''),
      Value_moved (demo_movement ''in'' ''external:mint'' ''wallet:alice:available''),
      Phase_observed demo_id ''prepared'' None,
      Value_moved (demo_movement ''in'' ''external:mint'' ''wallet:alice:available'')]"

definition demo_lifecycle_later :: "lifecycle_observation list" where
  "demo_lifecycle_later = map plain_observation
     [Phase_observed demo_id ''submitted'' None,
      Value_moved (demo_movement ''out'' ''wallet:alice:available'' ''receiver:bob'')]"


lemma lifecycle_observations_stable_witness:
  "\<exists>e e' r'. evaluateLifecycleModel demo_url_api \<lparr>lm_observations = demo_lifecycle\<rparr> = Inr e \<and>
     evaluateLifecycleModel demo_url_api \<lparr>lm_observations = demo_lifecycle @ demo_lifecycle_later\<rparr> = Inr e' \<and>
     map_of (ev_effects e') ''in'' = Some (demo_movement ''in'' ''external:mint'' ''wallet:alice:available'') \<and>
     map_of (ev_operations e') demo_id = Some r' \<and> lo_phase r' = Ph_submitted"
proof -
  define e where "e = projr (evaluateLifecycleModel demo_url_api \<lparr>lm_observations = demo_lifecycle\<rparr>)"
  define e' where "e' = projr (evaluateLifecycleModel demo_url_api
    \<lparr>lm_observations = demo_lifecycle @ demo_lifecycle_later\<rparr>)"
  have e: "evaluateLifecycleModel demo_url_api \<lparr>lm_observations = demo_lifecycle\<rparr> = Inr e"
    unfolding e_def by code_simp
  have e': "evaluateLifecycleModel demo_url_api \<lparr>lm_observations = demo_lifecycle @ demo_lifecycle_later\<rparr> = Inr e'"
    unfolding e'_def by code_simp
  have "map_of (ev_effects e) ''in'' = Some (demo_movement ''in'' ''external:mint'' ''wallet:alice:available'')"
    unfolding e_def by code_simp
  then have "map_of (ev_effects e') ''in'' = Some (demo_movement ''in'' ''external:mint'' ''wallet:alice:available'')"
    using lifecycle_observations_stable [OF e e', where k = "''in''"] by blast
  moreover have "map_option lo_phase (map_of (ev_operations e') demo_id) = Some Ph_submitted"
    unfolding e'_def by code_simp
  ultimately show ?thesis
    using e e' by (auto simp: map_option_eq_Some)
qed

end
