(* ===== verification/Mint_Gateway.thy ===== *)
theory Mint_Gateway
  imports Receiver
begin

text \<open>
  The receiver's gateway to a mint: \<open>adapters/cashu-ts-mint.ts\<close>, \<open>adapters/swap-plan.ts\<close> and
  \<open>adapters/bounded-json.ts\<close> of \<open>apps/reference-receiver/src\<close>.

  The network is the port \<open>gw_fetch\<close> on a state of any type. One \<open>fetch\<close> ends in one of three ways: the
  call itself throws, its promise rejects before the request body was seen to leave, or the request is
  dispatched (its body was sent, or its response came first) and the promise then resolves or rejects.
  A dispatch hook is an action on the same state. The functions of the cashu-ts library, of the URI and
  number conversions of the platform and of the clock are fields of the record too. Two requests the code
  starts together run one after the other here.
\<close>

section \<open>Swap plans\<close>

record plan_material =
  pm_keysetId :: string
  pm_inputFeePpk :: int
  pm_outputs :: "swap_output list"
  pm_preparedAt :: int
  pm_recovery :: recovery_policy

definition plan_integer :: "int \<Rightarrow> receiver_error + unit" where
  "plan_integer v = ensure (\<not> (\<not> safe_int v \<or> v < 0)) (OtherError ''integer'')"

definition networkProof :: "jsval \<Rightarrow> jsval" where
  "networkProof p =
     (case p of JObj ps \<Rightarrow> JObj (filter (\<lambda>e. fst e \<noteq> ''dleq'' \<and> fst e \<noteq> ''p2pk_e'') ps) | _ \<Rightarrow> JObj [])"

definition compressed_point :: "string \<Rightarrow> bool" where
  "compressed_point s \<longleftrightarrow> length s = 66 \<and> (take 2 s = ''02'' \<or> take 2 s = ''03'') \<and>
     all_in (lower_hex @ ''ABCDEF'') (drop 2 s)"

definition validateOutput :: "swap_output \<Rightarrow> string \<Rightarrow> receiver_error + unit" where
  "validateOutput out keysetId =
     rbind (plan_integer (so_amount out)) (\<lambda>_.
     if so_amount out = 0 then Inl (OtherError ''amount'')
     else if so_id out \<noteq> keysetId then Inl (OtherError ''keyset'')
     else if \<not> compressed_point (so_B out) then Inl (OtherError ''point'')
     else if so_secret out = [] then Inl (OtherError ''secret'')
     else if \<not> hash_pattern (so_blindingFactor out) then Inl (OtherError ''blinding'')
     else Inr ())"

definition output_message :: "swap_output \<Rightarrow> jsval" where
  "output_message out = JObj [(''amount'', js_int (so_amount out)), (''id'', JStr (so_id out)), (''B_'', JStr (so_B out))]"

definition swap_request :: "jsval option list \<Rightarrow> swap_output list \<Rightarrow> jsval" where
  "swap_request proofs outputs =
     JObj [(''inputs'', JArr (map (map_option networkProof) proofs)), (''outputs'', js_array (map output_message outputs))]"

definition createExactSwapPlan :: "platform \<Rightarrow> swap_plan_draft \<Rightarrow> plan_material \<Rightarrow> receiver_error + exact_swap_plan" where
  "createExactSwapPlan pf draft mat =
     (if pm_keysetId mat = [] then Inl (OtherError ''keyset'')
      else
        rbind (plan_integer (pm_inputFeePpk mat)) (\<lambda>_.
        rbind (plan_integer (pm_preparedAt mat)) (\<lambda>_.
        if pm_outputs mat = [] then Inl (OtherError ''outputs'')
        else
          rbind (traverse (\<lambda>out. validateOutput out (pm_keysetId mat)) (pm_outputs mat)) (\<lambda>_.
          let outputAmount = sum_list (map so_amount (pm_outputs mat)) in
          if \<not> safe_int outputAmount \<or> outputAmount \<noteq> sp_expectedAmount draft then Inl (OtherError ''amount'')
          else if (case rp_nut19ReplayUntil (pm_recovery mat) of
                     None \<Rightarrow> False | Some t \<Rightarrow> \<not> safe_int t \<or> t < pm_preparedAt mat)
          then Inl (OtherError ''deadline'')
          else
            Inr \<lparr>sp_deliveryId = sp_deliveryId draft, sp_mint = sp_mint draft, sp_unit = sp_unit draft,
              sp_expectedAmount = sp_expectedAmount draft, sp_inputProofs = sp_inputProofs draft,
              sp_proofYs = sp_proofYs draft, xp_keysetId = pm_keysetId mat, xp_inputFeePpk = pm_inputFeePpk mat,
              xp_outputs = pm_outputs mat,
              xp_serializedRequest = pf_json_stringify pf (swap_request (sp_inputProofs draft) (pm_outputs mat)),
              xp_preparedAt = pm_preparedAt mat, xp_recovery = pm_recovery mat\<rparr>))))"

definition replacementPlanHash :: "platform \<Rightarrow> exact_swap_plan \<Rightarrow> string" where
  "replacementPlanHash pf plan =
     pf_sha256 pf (pf_utf8_encode pf (''cashu-fault-lab/replacement-plan-v1'' @ [CHR 0x00]) @
       pf_utf8_encode pf (xp_serializedRequest plan))"

section \<open>Responses\<close>

record http_response =
  hr_status :: int
  hr_contentLength :: "jsnum option"
  hr_body :: "(nat list list \<times> bool) option"

text \<open>The chunks of a body, and whether reading it to its end succeeds.\<close>

fun read_chunks :: "int \<Rightarrow> int \<Rightarrow> nat list \<Rightarrow> nat list list \<Rightarrow> bool \<Rightarrow> receiver_error + nat list" where
  "read_chunks maxBytes sofar bytes [] finished =
     (if finished then Inr bytes else Inl (OtherError ''stream''))"
| "read_chunks maxBytes sofar bytes (chunk # chunks) finished =
     (let sofar' = sofar + int (length chunk) in
      if sofar' > maxBytes then Inl (OtherError ''too large'')
      else read_chunks maxBytes sofar' (bytes @ chunk) chunks finished)"

definition readBoundedJson :: "platform \<Rightarrow> http_response \<Rightarrow> int \<Rightarrow> receiver_error + jsval" where
  "readBoundedJson pf response maxBytes =
     (if (case hr_contentLength response of
            None \<Rightarrow> False
          | Some declared \<Rightarrow> \<not> isSafeInteger declared \<or> (case declared of JInt n \<Rightarrow> n < 0 \<or> n > maxBytes | JNonInt _ \<Rightarrow> False))
      then Inl (OtherError ''too large'')
      else case hr_body response of
        None \<Rightarrow> Inl (OtherError ''empty'')
      | Some (chunks, finished) \<Rightarrow>
          rbind (read_chunks maxBytes 0 [] chunks finished) (\<lambda>bytes.
          case pf_utf8_decode pf bytes of
            None \<Rightarrow> Inl (OtherError ''json'')
          | Some body \<Rightarrow> (case pf_json_parse pf body of None \<Rightarrow> Inl (OtherError ''json'') | Some v \<Rightarrow> Inr v)))"

definition max_mint_response_bytes :: int where
  "max_mint_response_bytes = 1048576"

record mint_keyset =
  mk_id :: string
  mk_unit :: string
  mk_active :: bool
  mk_input_fee_ppk :: int

record mint_keys =
  my_id :: string
  my_unit :: string
  my_keys :: "(string \<times> string) list"

record mint_signature =
  ms_id :: string
  ms_amount :: int
  ms_C :: string
  ms_dleq :: "jsval option"

definition safeInteger :: "jsval \<Rightarrow> receiver_error + int" where
  "safeInteger v =
     (case v of JNum (JInt i) \<Rightarrow> if safe_int i \<and> 0 \<le> i then Inr i else Inl (OtherError ''integer'')
      | _ \<Rightarrow> Inl (OtherError ''integer''))"

definition assertTimeout :: "jsnum \<Rightarrow> receiver_error + unit" where
  "assertTimeout v =
     ensure (case v of JInt i \<Rightarrow> safe_int i \<and> 1 \<le> i \<and> i \<le> 300000 | JNonInt _ \<Rightarrow> False) (OtherError ''timeout'')"

definition mintEndpoint :: "platform \<Rightarrow> string \<Rightarrow> string \<Rightarrow> receiver_error + string" where
  "mintEndpoint pf mint path = rbind (map_sum Validation id (normalizeMintUrl (pf_url pf) mint)) (\<lambda>m. Inr (m @ path))"

text \<open>The elements of an array; a hole cannot come from \<open>JSON.parse\<close> and is an invalid element.\<close>

definition slot_value :: "jsval option \<Rightarrow> jsval" where
  "slot_value s = (case s of None \<Rightarrow> JUndef | Some v \<Rightarrow> v)"

definition parse_keyset :: "jsval option \<Rightarrow> receiver_error + mint_keyset" where
  "parse_keyset s =
     (let entry = slot_value s in
      case (js_get entry ''id'', js_get entry ''unit'', js_get entry ''active'') of
        (JStr i, JStr u, JBool a) \<Rightarrow>
          if \<not> isRecord entry \<or> i = [] then Inl (OtherError ''keyset entry'')
          else
            rbind (if js_get entry ''input_fee_ppk'' = JUndef then Inr 0 else safeInteger (js_get entry ''input_fee_ppk''))
              (\<lambda>fee. Inr \<lparr>mk_id = i, mk_unit = u, mk_active = a, mk_input_fee_ppk = fee\<rparr>)
      | _ \<Rightarrow> Inl (OtherError ''keyset entry''))"

definition parseKeysets :: "jsval \<Rightarrow> receiver_error + mint_keyset list" where
  "parseKeysets value =
     (case js_get value ''keysets'' of
        JArr slots \<Rightarrow> traverse parse_keyset slots
      | _ \<Rightarrow> Inl (OtherError ''keysets''))"

fun object_entries :: "jsval \<Rightarrow> (string \<times> jsval) list" where
  "object_entries (JObj ps) = ps"
| "object_entries _ = []"

definition parseKeys :: "jsval \<Rightarrow> string \<Rightarrow> string \<Rightarrow> receiver_error + mint_keys" where
  "parseKeys value expectedId expectedUnit =
     (case js_get value ''keysets'' of
        JArr slots \<Rightarrow>
          (case find (\<lambda>c. isRecord c \<and> js_get c ''id'' = JStr expectedId) (map slot_value slots) of
             None \<Rightarrow> Inl (OtherError ''keys unavailable'')
           | Some entry \<Rightarrow>
               if js_get entry ''unit'' \<noteq> JStr expectedUnit \<or> \<not> isRecord (js_get entry ''keys'')
               then Inl (OtherError ''keys unavailable'')
               else
                 rbind (traverse (\<lambda>p. case snd p of JStr point \<Rightarrow> Inr (fst p, point) | _ \<Rightarrow> Inl (OtherError ''public key''))
                     (object_entries (js_get entry ''keys'')))
                   (\<lambda>keys. Inr \<lparr>my_id = expectedId, my_unit = expectedUnit, my_keys = keys\<rparr>))
      | _ \<Rightarrow> Inl (OtherError ''keys''))"

definition recoveryPolicy :: "jsval \<Rightarrow> int \<Rightarrow> receiver_error + recovery_policy" where
  "recoveryPolicy info preparedAt =
     (let nuts = js_get info ''nuts'' in
      if \<not> isRecord info \<or> \<not> isRecord nuts
      then Inr \<lparr>rp_nut09 = False, rp_nut19Replay = False, rp_nut19ReplayUntil = None\<rparr>
      else
        let nut09 = (isRecord (js_get nuts ''9'') \<and> js_get (js_get nuts ''9'') ''supported'' = JBool True);
            nut19 = js_get nuts ''19'' in
        case js_get nut19 ''cached_endpoints'' of
          JArr slots \<Rightarrow>
            if \<not> list_ex (\<lambda>s. let endpoint = slot_value s in isRecord endpoint \<and>
                 js_get endpoint ''method'' = JStr ''POST'' \<and> js_get endpoint ''path'' = JStr ''/v1/swap'') slots
            then Inr \<lparr>rp_nut09 = nut09, rp_nut19Replay = False, rp_nut19ReplayUntil = None\<rparr>
            else if js_get nut19 ''ttl'' = JNull
            then Inr \<lparr>rp_nut09 = nut09, rp_nut19Replay = True, rp_nut19ReplayUntil = None\<rparr>
            else
              rbind (safeInteger (js_get nut19 ''ttl'')) (\<lambda>ttl.
                Inr \<lparr>rp_nut09 = nut09, rp_nut19Replay = True, rp_nut19ReplayUntil = Some (preparedAt + ttl)\<rparr>)
        | _ \<Rightarrow> Inr \<lparr>rp_nut09 = nut09, rp_nut19Replay = False, rp_nut19ReplayUntil = None\<rparr>)"

section \<open>The gateway\<close>

record http_request =
  hq_url :: string
  hq_method :: string
  hq_body :: "string option"

datatype fetch_outcome =
    Fetch_throws
  | Rejects_undispatched
  | Dispatched "http_response option"

record output_data =
  od_amount :: int
  od_id :: string
  od_B :: string
  od_secret :: "nat list"
  od_blindingFactor :: nat

record 's mint_gateway =
  gw_platform :: platform
  gw_now :: "'s \<Rightarrow> int \<times> 's"
  gw_fetch :: "http_request \<Rightarrow> 's \<Rightarrow> fetch_outcome \<times> 's"
  gw_encodeURIComponent :: "string \<Rightarrow> string"
  gw_localeCompare :: "string \<Rightarrow> string \<Rightarrow> int"
  gw_number :: "jsval \<Rightarrow> jsnum"
  gw_amount_from :: "string \<Rightarrow> int option"
  gw_createRandomData :: "int \<Rightarrow> mint_keys \<Rightarrow> 's \<Rightarrow> (receiver_error + output_data list) \<times> 's"
  gw_toProof :: "swap_output \<Rightarrow> mint_signature \<Rightarrow> mint_keys \<Rightarrow> receiver_error + string"

type_synonym ('s, 'a) gateway_action = "('s, receiver_error, 'a) eff"

text \<open>Read the state of the network: the outcome of a fetch, the clock.\<close>

definition ask :: "('s \<Rightarrow> 'a \<times> 's) \<Rightarrow> ('s, 'a) gateway_action" where
  "ask f w = (let (a, w') = f w in (Inr a, w'))"

definition network_error :: "bool \<Rightarrow> receiver_error" where
  "network_error b = MintGatewayError ''MINT_NETWORK_ERROR'' b"

definition await_response ::
    "platform \<Rightarrow> bool \<Rightarrow> http_response option \<Rightarrow> receiver_error + jsval" where
  "await_response pf mayHaveConsumed settled =
     (case settled of
        None \<Rightarrow> Inl (network_error mayHaveConsumed)
      | Some response \<Rightarrow>
          if hr_status response < 200 \<or> hr_status response \<ge> 300
          then Inl (MintGatewayError (''MINT_HTTP_'' @ decimal_text (nat (hr_status response))) (mayHaveConsumed \<and> hr_status response \<ge> 500))
          else map_sum (\<lambda>_. MintGatewayError ''MINT_INVALID_RESPONSE'' mayHaveConsumed) id
            (readBoundedJson pf response max_mint_response_bytes))"

definition request ::
    "'s mint_gateway \<Rightarrow> http_request \<Rightarrow> bool \<Rightarrow> ('s, unit) gateway_action option \<Rightarrow> ('s, jsval) gateway_action" where
  "request gw req mayHaveConsumed hooks =
     andThen (ask (gw_fetch gw req)) (\<lambda>outcome.
     case outcome of
       Fetch_throws \<Rightarrow> throw (network_error mayHaveConsumed)
     | Rejects_undispatched \<Rightarrow> throw (network_error mayHaveConsumed)
     | Dispatched settled \<Rightarrow>
         andThen (case hooks of None \<Rightarrow> ret () | Some hook \<Rightarrow> hook) (\<lambda>_.
           lift (await_response (gw_platform gw) mayHaveConsumed settled)))"

definition get_json :: "'s mint_gateway \<Rightarrow> string \<Rightarrow> string \<Rightarrow> ('s, jsval) gateway_action" where
  "get_json gw mint path =
     andThen (lift (mintEndpoint (gw_platform gw) mint path)) (\<lambda>url.
       request gw \<lparr>hq_url = url, hq_method = ''GET'', hq_body = None\<rparr> False None)"

definition keys :: "'s mint_gateway \<Rightarrow> string \<Rightarrow> string \<Rightarrow> string \<Rightarrow> ('s, mint_keys) gateway_action" where
  "keys gw mint i unit =
     andThen (get_json gw mint (''/v1/keys/'' @ gw_encodeURIComponent gw i)) (\<lambda>v. lift (parseKeys v i unit))"

definition post :: "'s mint_gateway \<Rightarrow> string \<Rightarrow> string \<Rightarrow> string \<Rightarrow> bool \<Rightarrow>
    ('s, unit) gateway_action option \<Rightarrow> ('s, jsval) gateway_action" where
  "post gw mint path body mayHaveConsumed hooks =
     andThen (lift (mintEndpoint (gw_platform gw) mint path)) (\<lambda>url.
       request gw \<lparr>hq_url = url, hq_method = ''POST'', hq_body = Some body\<rparr> mayHaveConsumed hooks)"

definition parse_signature :: "'s mint_gateway \<Rightarrow> jsval option \<Rightarrow> receiver_error + mint_signature" where
  "parse_signature gw s =
     (let sg = slot_value s in
      case (js_get sg ''id'', js_get sg ''C_'') of
        (JStr i, JStr c) \<Rightarrow>
          rbind (case js_get sg ''amount'' of
                   JStr a \<Rightarrow> (case gw_amount_from gw a of None \<Rightarrow> Inl (OtherError ''amount'') | Some n \<Rightarrow> Inr n)
                 | v \<Rightarrow> safeInteger v)
            (\<lambda>amount. Inr \<lparr>ms_id = i, ms_amount = amount, ms_C = c,
               ms_dleq = (if isRecord (js_get sg ''dleq'') then Some (js_get sg ''dleq'') else None)\<rparr>)
      | _ \<Rightarrow> Inl (OtherError ''signature''))"

definition parseSignatures :: "'s mint_gateway \<Rightarrow> jsval \<Rightarrow> receiver_error + mint_signature list" where
  "parseSignatures gw value =
     (case js_get value ''signatures'' of
        JArr slots \<Rightarrow> traverse (parse_signature gw) slots
      | _ \<Rightarrow> Inl (OtherError ''signatures''))"

definition replacementResult ::
    "'s mint_gateway \<Rightarrow> exact_swap_plan \<Rightarrow> mint_keys \<Rightarrow> mint_signature list \<Rightarrow> receiver_error + swap_result" where
  "replacementResult gw plan ks signatures =
     (if length signatures \<noteq> length (xp_outputs plan) then Inl (OtherError ''signature count'')
      else
        rbind (traverse (\<lambda>(out, sg).
            if ms_id sg \<noteq> so_id out \<or> ms_amount sg \<noteq> so_amount out then Inl (OtherError ''signature'')
            else gw_toProof gw out sg ks) (zip (xp_outputs plan) signatures))
          (\<lambda>proofs. Inr \<lparr>sr_replacementPlanHash = replacementPlanHash (gw_platform gw) plan,
             sr_replacementProofs = proofs\<rparr>))"

definition postSwap ::
    "'s mint_gateway \<Rightarrow> exact_swap_plan \<Rightarrow> ('s, unit) gateway_action option \<Rightarrow> ('s, swap_result) gateway_action" where
  "postSwap gw plan hooks =
     andThen (post gw (sp_mint plan) ''/v1/swap'' (xp_serializedRequest plan) True hooks) (\<lambda>value.
       attempt
         (andThen (keys gw (sp_mint plan) (xp_keysetId plan) (sp_unit plan)) (\<lambda>ks.
           lift (rbind (parseSignatures gw value) (replacementResult gw plan ks))))
         ret
         (\<lambda>_. throw (MintGatewayError ''MINT_POST_SWAP_PROCESSING'' True)))"

definition swap ::
    "'s mint_gateway \<Rightarrow> exact_swap_plan \<Rightarrow> ('s, unit) gateway_action option \<Rightarrow> ('s, swap_result) gateway_action" where
  "swap gw plan hooks = postSwap gw plan hooks"

definition restored_output :: "'s mint_gateway \<Rightarrow> jsval option \<times> swap_output \<Rightarrow> bool" where
  "restored_output gw p =
     (let restored = slot_value (fst p); planned = snd p in
      isRecord restored \<and> js_get restored ''B_'' = JStr (so_B planned) \<and> js_get restored ''id'' = JStr (so_id planned) \<and>
      gw_number gw (js_get restored ''amount'') = JInt (so_amount planned))"

definition restoreOutputs :: "'s mint_gateway \<Rightarrow> exact_swap_plan \<Rightarrow> ('s, restore_result) gateway_action" where
  "restoreOutputs gw plan =
     andThen (post gw (sp_mint plan) ''/v1/restore''
         (pf_json_stringify (gw_platform gw) (JObj [(''outputs'', js_array (map output_message (xp_outputs plan)))]))
         False None) (\<lambda>value.
     case js_get value ''outputs'' of
       JArr slots \<Rightarrow>
         if length slots \<noteq> length (xp_outputs plan) \<or> \<not> list_all (restored_output gw) (zip slots (xp_outputs plan))
         then ret Not_found
         else
           andThen (keys gw (sp_mint plan) (xp_keysetId plan) (sp_unit plan)) (\<lambda>ks.
           andThen (lift (rbind (parseSignatures gw value) (replacementResult gw plan ks))) (\<lambda>result.
             ret (Recovered result)))
     | _ \<Rightarrow> ret Not_found)"

definition replay_allowed :: "'s mint_gateway \<Rightarrow> exact_swap_plan \<Rightarrow> ('s, bool) gateway_action" where
  "replay_allowed gw plan =
     (if \<not> rp_nut19Replay (xp_recovery plan) then ret False
      else case rp_nut19ReplayUntil (xp_recovery plan) of
        None \<Rightarrow> ret True
      | Some until \<Rightarrow> andThen (ask (gw_now gw)) (\<lambda>now. ret (now \<le> until)))"

definition replay_swap ::
    "'s mint_gateway \<Rightarrow> exact_swap_plan \<Rightarrow> ('s, unit) gateway_action option \<Rightarrow> bool \<Rightarrow> receiver_error option \<Rightarrow>
     ('s, restore_result) gateway_action" where
  "replay_swap gw plan hooks replayAllowed restoreError =
     (if replayAllowed then
        attempt (postSwap gw plan hooks) (\<lambda>result. ret (Recovered result))
          (\<lambda>_. case restoreError of None \<Rightarrow> ret Not_found | Some e \<Rightarrow> throw e)
      else ret Not_found)"

definition restore ::
    "'s mint_gateway \<Rightarrow> exact_swap_plan \<Rightarrow> ('s, unit) gateway_action option \<Rightarrow> ('s, restore_result) gateway_action" where
  "restore gw plan hooks =
     andThen (replay_allowed gw plan) (\<lambda>replayAllowed.
     if rp_nut09 (xp_recovery plan) then
       attempt (restoreOutputs gw plan)
         (\<lambda>restored. case restored of
            Recovered result \<Rightarrow> ret (Recovered result)
          | Not_found \<Rightarrow> replay_swap gw plan hooks replayAllowed None)
         (\<lambda>e. if \<not> replayAllowed then throw e else replay_swap gw plan hooks replayAllowed (Some e))
     else replay_swap gw plan hooks replayAllowed None)"

fun proof_state_of :: "jsval \<Rightarrow> mint_proof_state option" where
  "proof_state_of v =
     (if v = JStr ''UNSPENT'' then Some UNSPENT
      else if v = JStr ''PENDING'' then Some PENDING
      else if v = JStr ''SPENT'' then Some SPENT
      else None)"

definition state_entry :: "jsval option \<times> string \<Rightarrow> receiver_error + mint_proof_state" where
  "state_entry p =
     (let entry = slot_value (fst p) in
      case proof_state_of (js_get entry ''state'') of
        Some st \<Rightarrow>
          if \<not> isRecord entry \<or> js_get entry ''Y'' \<noteq> JStr (snd p)
          then Inl (MintGatewayError ''MINT_INVALID_STATE_RESPONSE'' False) else Inr st
      | None \<Rightarrow> Inl (MintGatewayError ''MINT_INVALID_STATE_RESPONSE'' False))"

definition proofStates :: "'s mint_gateway \<Rightarrow> exact_swap_plan \<Rightarrow> ('s, mint_proof_state list) gateway_action" where
  "proofStates gw plan =
     andThen (post gw (sp_mint plan) ''/v1/checkstate''
         (pf_json_stringify (gw_platform gw) (JObj [(''Ys'', js_array (map JStr (sp_proofYs plan)))])) False None) (\<lambda>value.
       lift (case js_get value ''states'' of
          JArr slots \<Rightarrow>
            if length slots \<noteq> length (sp_proofYs plan) then Inl (MintGatewayError ''MINT_INVALID_STATE_RESPONSE'' False)
            else traverse state_entry (zip slots (sp_proofYs plan))
        | _ \<Rightarrow> Inl (MintGatewayError ''MINT_INVALID_STATE_RESPONSE'' False)))"

section \<open>Preparing a swap\<close>

text \<open>\<open>n.toString(16).padStart(64, '0')\<close>\<close>

fun hex_text :: "nat \<Rightarrow> string" where
  "hex_text n = (if n < 16 then [lower_hex ! n] else hex_text (n div 16) @ [lower_hex ! (n mod 16)])"

definition pad_start :: "nat \<Rightarrow> char \<Rightarrow> string \<Rightarrow> string" where
  "pad_start n c s = replicate (n - length s) c @ s"

definition planned_output :: "output_data \<Rightarrow> swap_output" where
  "planned_output out = \<lparr>so_amount = od_amount out, so_id = od_id out, so_B = od_B out,
     so_secret = b64url_encode (od_secret out), so_blindingFactor = pad_start 64 (CHR ''0'') (hex_text (od_blindingFactor out))\<rparr>"

text \<open>The comparison of two keysets, and the first element of a list sorted by it (the sort is stable).\<close>

definition keyset_less :: "'s mint_gateway \<Rightarrow> mint_keyset \<Rightarrow> mint_keyset \<Rightarrow> bool" where
  "keyset_less gw l r \<longleftrightarrow>
     (let d = mk_input_fee_ppk l - mk_input_fee_ppk r in
      if d \<noteq> 0 then d < 0 else gw_localeCompare gw (mk_id l) (mk_id r) < 0)"

definition first_keyset :: "'s mint_gateway \<Rightarrow> mint_keyset list \<Rightarrow> mint_keyset option" where
  "first_keyset gw ks =
     (case ks of [] \<Rightarrow> None | k # rest \<Rightarrow> Some (foldl (\<lambda>best x. if keyset_less gw x best then x else best) k rest))"

text \<open>Both requests are started before either is awaited, so both are sent whatever the first one gives.\<close>

definition both :: "('s, 'a) gateway_action \<Rightarrow> ('s, 'b) gateway_action \<Rightarrow> ('s, 'a \<times> 'b) gateway_action" where
  "both f g w =
     (let (a, w1) = f w; (b, w2) = g w1 in (rbind a (\<lambda>x. rbind b (\<lambda>y. Inr (x, y))), w2))"

definition prepareSwap :: "'s mint_gateway \<Rightarrow> swap_plan_draft \<Rightarrow> ('s, exact_swap_plan) gateway_action" where
  "prepareSwap gw draft =
     andThen (ask (gw_now gw)) (\<lambda>preparedAt.
     andThen (lift (safeInteger (js_int preparedAt))) (\<lambda>_.
     andThen (both (get_json gw (sp_mint draft) ''/v1/info'') (get_json gw (sp_mint draft) ''/v1/keysets'')) (\<lambda>(info, keysetsValue).
     andThen (lift (parseKeysets keysetsValue)) (\<lambda>all_keysets.
     case first_keyset gw (filter (\<lambda>k. mk_active k \<and> mk_unit k = sp_unit draft) all_keysets) of
       None \<Rightarrow> throw (OtherError ''no active keyset'')
     | Some keyset \<Rightarrow>
         andThen (keys gw (sp_mint draft) (mk_id keyset) (sp_unit draft)) (\<lambda>ks.
         andThen (gw_createRandomData gw (sp_expectedAmount draft) ks) (\<lambda>outs.
         andThen (lift (recoveryPolicy info preparedAt)) (\<lambda>recovery.
           lift (createExactSwapPlan (gw_platform gw) draft
             \<lparr>pm_keysetId = mk_id keyset, pm_inputFeePpk = mk_input_fee_ppk keyset,
              pm_outputs = map planned_output outs, pm_preparedAt = preparedAt, pm_recovery = recovery\<rparr>))))))))"

section \<open>Plans\<close>

lemma plan_integer_Inr [result_simps]: "plan_integer v = Inr u \<longleftrightarrow> safe_nonneg v"
  by (auto simp: plan_integer_def ensure_def safe_nonneg_def)

definition output_ok :: "string \<Rightarrow> swap_output \<Rightarrow> bool" where
  "output_ok keysetId out \<longleftrightarrow> safe_int (so_amount out) \<and> 0 < so_amount out \<and> so_id out = keysetId \<and>
     compressed_point (so_B out) \<and> so_secret out \<noteq> [] \<and> hash_pattern (so_blindingFactor out)"

lemma validateOutput_Inr [result_simps]: "validateOutput out k = Inr u \<longleftrightarrow> output_ok k out"
  by (auto simp: validateOutput_def output_ok_def result_simps safe_nonneg_def)

lemma validateOutput_ok: "is_ok (validateOutput out k) \<longleftrightarrow> output_ok k out"
  using validateOutput_Inr [of out k] by (simp add: is_ok_iff)

lemma validateOutputs_ok:
  "(\<exists>us. traverse (\<lambda>out. validateOutput out k) outs = Inr us) \<longleftrightarrow> list_all (output_ok k) outs"
  unfolding is_ok_iff [symmetric] list_all_iff is_ok_traverse validateOutput_ok ..

text \<open>The inputs of a plan, and what the constructor demands of the material.\<close>

definition material_ok :: "swap_plan_draft \<Rightarrow> plan_material \<Rightarrow> bool" where
  "material_ok draft mat \<longleftrightarrow>
     pm_keysetId mat \<noteq> [] \<and> safe_nonneg (pm_inputFeePpk mat) \<and> safe_nonneg (pm_preparedAt mat) \<and>
     pm_outputs mat \<noteq> [] \<and> list_all (output_ok (pm_keysetId mat)) (pm_outputs mat) \<and>
     safe_int (sp_expectedAmount draft) \<and> sum_list (map so_amount (pm_outputs mat)) = sp_expectedAmount draft \<and>
     (case rp_nut19ReplayUntil (pm_recovery mat) of None \<Rightarrow> True | Some t \<Rightarrow> safe_int t \<and> pm_preparedAt mat \<le> t)"

lemma createExactSwapPlan_iff:
  "createExactSwapPlan pf draft mat = Inr plan \<longleftrightarrow> material_ok draft mat \<and>
     plan = \<lparr>sp_deliveryId = sp_deliveryId draft, sp_mint = sp_mint draft, sp_unit = sp_unit draft,
       sp_expectedAmount = sp_expectedAmount draft, sp_inputProofs = sp_inputProofs draft,
       sp_proofYs = sp_proofYs draft, xp_keysetId = pm_keysetId mat, xp_inputFeePpk = pm_inputFeePpk mat,
       xp_outputs = pm_outputs mat,
       xp_serializedRequest = pf_json_stringify pf (swap_request (sp_inputProofs draft) (pm_outputs mat)),
       xp_preparedAt = pm_preparedAt mat, xp_recovery = pm_recovery mat\<rparr>"
  unfolding createExactSwapPlan_def material_ok_def validateOutputs_ok [symmetric]
  by (cases "rp_nut19ReplayUntil (pm_recovery mat)") (auto simp: result_simps Let_def)

section \<open>Properties\<close>

lemma ask_eq: "ask f w = (r, w') \<longleftrightarrow> (\<exists>a. f w = (a, w') \<and> r = Inr a)"
  by (auto simp: ask_def split: prod.splits)

lemma andThen_eq_Inl: "andThen m f w = (Inl e, w'') \<longleftrightarrow>
    m w = (Inl e, w'') \<or> (\<exists>a w'. m w = (Inr a, w') \<and> f a w' = (Inl e, w''))"
  by (auto simp: andThen_def attempt_def throw_def split: prod.splits sum.splits)

lemma lift_eq: "lift r w = (r', w') \<longleftrightarrow> r = r' \<and> w' = w"
  by (auto simp: lift_def)

lemma gateway_simps: "ret a w = (Inr b, w') \<longleftrightarrow> b = a \<and> w' = w" "\<not> ret a w = (Inl e, w')"
  "throw e w = (Inl e', w') \<longleftrightarrow> e' = e \<and> w' = w" "\<not> throw e w = (Inr b, w')"
  by (auto simp: ret_def throw_def)

definition known_unconsumed :: "receiver_error \<Rightarrow> bool" where
  "known_unconsumed e \<longleftrightarrow> isMintGatewayError e \<and> \<not> mayHaveConsumedInputs e"

definition refused :: "http_response \<Rightarrow> bool" where
  "refused resp \<longleftrightarrow> hr_status resp < 200 \<or> (300 \<le> hr_status resp \<and> hr_status resp < 500)"

lemma await_unconsumed:
  "(\<exists>e. await_response pf True settled = Inl e \<and> known_unconsumed e) \<longleftrightarrow> (\<exists>resp. settled = Some resp \<and> refused resp)"
  by (cases settled) (auto simp: await_response_def known_unconsumed_def refused_def network_error_def map_sum_Inl_iff)

text \<open>The hook of a swap fails with the error of the store or with a crash, never with one of the gateway.\<close>

definition hook_ok :: "('s, unit) gateway_action \<Rightarrow> bool" where
  "hook_ok hook \<longleftrightarrow> (\<forall>w e w'. hook w = (Inl e, w') \<longrightarrow> \<not> known_unconsumed e)"

definition swap_http :: "string \<Rightarrow> exact_swap_plan \<Rightarrow> http_request" where
  "swap_http url plan = \<lparr>hq_url = url, hq_method = ''POST'', hq_body = Some (xp_serializedRequest plan)\<rparr>"

lemma after_swap_consumed:
  "attempt m ret (\<lambda>_. throw (MintGatewayError c True)) w = (Inl d, w') \<Longrightarrow> \<not> known_unconsumed d"
  by (auto simp: attempt_def gateway_simps known_unconsumed_def split: prod.splits sum.splits)

lemma swap_refused_iff:
  assumes "hook_ok hook"
  shows "(\<exists>e w'. swap gw plan (Some hook) w = (Inl e, w') \<and> known_unconsumed e) \<longleftrightarrow>
    (\<exists>url resp w1 w2. mintEndpoint (gw_platform gw) (sp_mint plan) ''/v1/swap'' = Inr url \<and>
       gw_fetch gw (swap_http url plan) w = (Dispatched (Some resp), w1) \<and> hook w1 = (Inr (), w2) \<and> refused resp)"
  (is "?l \<longleftrightarrow> ?r")
proof
  assume ?l
  then obtain e w' where e: "swap gw plan (Some hook) w = (Inl e, w')" "known_unconsumed e" by blast
  have "post gw (sp_mint plan) ''/v1/swap'' (xp_serializedRequest plan) True (Some hook) w = (Inl e, w')"
    using e by (auto simp: swap_def postSwap_def andThen_eq_Inl dest: after_swap_consumed)
  then consider "mintEndpoint (gw_platform gw) (sp_mint plan) ''/v1/swap'' = Inl e"
    | url where "mintEndpoint (gw_platform gw) (sp_mint plan) ''/v1/swap'' = Inr url"
        "request gw (swap_http url plan) True (Some hook) w = (Inl e, w')"
    by (auto simp: post_def andThen_eq_Inl lift_eq swap_http_def)
  then show ?r
  proof cases
    case 1
    then show ?thesis
      using e(2) by (auto simp: mintEndpoint_def result_simps map_sum_Inl_iff known_unconsumed_def)
  next
    case 2
    obtain outcome w1 where f0: "gw_fetch gw (swap_http url plan) w = (outcome, w1)"
      by (cases "gw_fetch gw (swap_http url plan) w")
    have "(case outcome of Fetch_throws \<Rightarrow> throw (network_error True) | Rejects_undispatched \<Rightarrow> throw (network_error True)
       | Dispatched settled \<Rightarrow> andThen hook (\<lambda>_. lift (await_response (gw_platform gw) True settled))) w1 = (Inl e, w')"
      using 2(2) f0
      by (cases outcome) (simp_all add: request_def andThen_def [of "ask _"] attempt_def [of "ask _"] ask_def)
    then obtain settled where f: "gw_fetch gw (swap_http url plan) w = (Dispatched settled, w1)"
      and r: "andThen hook (\<lambda>_. lift (await_response (gw_platform gw) True settled)) w1 = (Inl e, w')"
      using e(2) f0 by (cases outcome) (auto simp: gateway_simps known_unconsumed_def network_error_def)
    from r obtain w2 where h: "hook w1 = (Inr (), w2)" and a: "await_response (gw_platform gw) True settled = Inl e"
      using assms e(2) by (auto simp: andThen_eq_Inl lift_eq hook_ok_def)
    with e(2) obtain resp where "settled = Some resp" "refused resp"
      using await_unconsumed [of "gw_platform gw" settled] by blast
    with 2(1) f h show ?thesis by blast
  qed
next
  assume ?r
  then obtain url resp w1 w2 where r: "mintEndpoint (gw_platform gw) (sp_mint plan) ''/v1/swap'' = Inr url"
    "gw_fetch gw (swap_http url plan) w = (Dispatched (Some resp), w1)" "hook w1 = (Inr (), w2)" "refused resp"
    by blast
  then obtain e where e: "await_response (gw_platform gw) True (Some resp) = Inl e" "known_unconsumed e"
    using await_unconsumed [of "gw_platform gw" "Some resp"] by blast
  have "request gw (swap_http url plan) True (Some hook) w = (Inl e, w2)"
    using r e by (simp add: request_def andThen_def attempt_def ask_def throw_def lift_def)
  then have "post gw (sp_mint plan) ''/v1/swap'' (xp_serializedRequest plan) True (Some hook) w = (Inl e, w2)"
    using r(1) by (simp add: post_def swap_http_def)
  then have "swap gw plan (Some hook) w = (Inl e, w2)"
    by (simp add: swap_def postSwap_def andThen_Inl)
  with e(2) show ?l by blast
qed

text \<open>
  C11: The gateway says that the inputs of a swap were not consumed exactly when the mint refused the swap
  request: the request was dispatched, the dispatch was recorded, and the mint answered with a status that
  is neither a success nor a server error. A network failure, a timeout, a server error, an unreadable
  answer or a failure after the swap all count as possibly consumed. So the receiver, which releases the
  payer's proofs only on such an error, releases them only after a refusal.
\<close>
theorem swap_unconsumed_iff_refused:
  assumes "hook_ok hook"
  shows "(\<exists>e w'. swap gw plan (Some hook) w = (Inl e, w') \<and> isMintGatewayError e \<and> \<not> mayHaveConsumedInputs e) \<longleftrightarrow>
    (\<exists>url resp w1 w2. mintEndpoint (gw_platform gw) (sp_mint plan) ''/v1/swap'' = Inr url \<and>
       gw_fetch gw (swap_http url plan) w = (Dispatched (Some resp), w1) \<and> hook w1 = (Inr (), w2) \<and>
       (hr_status resp < 200 \<or> 300 \<le> hr_status resp \<and> hr_status resp < 500))"
  using swap_refused_iff [OF assms] by (simp add: known_unconsumed_def refused_def)

lemma replacementResult_ok:
  assumes "replacementResult gw plan ks sgs = Inr res"
  shows "sr_replacementPlanHash res = replacementPlanHash (gw_platform gw) plan \<and>
    length (sr_replacementProofs res) = length (xp_outputs plan)"
  using assms by (auto simp: replacementResult_def result_simps dest!: traverse_length split: if_splits)

lemma attempt_eq_Inr: "attempt m ok err w = (Inr b, w'') \<longleftrightarrow>
    (\<exists>a w'. m w = (Inr a, w') \<and> ok a w' = (Inr b, w'')) \<or> (\<exists>e w'. m w = (Inl e, w') \<and> err e w' = (Inr b, w''))"
  by (auto simp: attempt_def split: prod.splits sum.splits)

lemmas gateway_eqs = andThen_eq_Inr attempt_eq_Inr lift_eq gateway_simps ask_eq

definition result_of_plan :: "'s mint_gateway \<Rightarrow> exact_swap_plan \<Rightarrow> swap_result \<Rightarrow> bool" where
  "result_of_plan gw plan res \<longleftrightarrow> sr_replacementPlanHash res = replacementPlanHash (gw_platform gw) plan \<and>
     length (sr_replacementProofs res) = length (xp_outputs plan)"

lemma postSwap_result: "postSwap gw plan hooks w = (Inr res, w') \<Longrightarrow> result_of_plan gw plan res"
  by (auto simp: postSwap_def gateway_eqs result_of_plan_def result_simps dest: replacementResult_ok)

lemma restoreOutputs_result:
  assumes "restoreOutputs gw plan w = (Inr (Recovered res), w')"
  shows "result_of_plan gw plan res"
proof -
  obtain v w1 where "(case js_get v ''outputs'' of
       JArr slots \<Rightarrow>
         if length slots \<noteq> length (xp_outputs plan) \<or> \<not> list_all (restored_output gw) (zip slots (xp_outputs plan))
         then ret Not_found
         else
           andThen (keys gw (sp_mint plan) (xp_keysetId plan) (sp_unit plan)) (\<lambda>ks.
           andThen (lift (rbind (parseSignatures gw v) (replacementResult gw plan ks))) (\<lambda>result.
             ret (Recovered result)))
     | _ \<Rightarrow> ret Not_found) w1 = (Inr (Recovered res), w')"
    using assms unfolding restoreOutputs_def andThen_eq_Inr [of "post _ _ _ _ _ _"] by blast
  then show ?thesis
    by (cases "js_get v ''outputs''")
      (auto simp: gateway_eqs result_of_plan_def result_simps dest: replacementResult_ok split: if_splits)
qed

lemma replay_swap_result:
  "replay_swap gw plan hooks allowed err w = (Inr (Recovered res), w') \<Longrightarrow> result_of_plan gw plan res"
  by (auto simp: replay_swap_def gateway_eqs dest: postSwap_result split: if_splits option.splits)

lemma restored_result:
  assumes "restore gw plan hooks w = (Inr (Recovered res), w')"
  shows "result_of_plan gw plan res"
proof -
  obtain allowed w1 where w1: "(if rp_nut09 (xp_recovery plan) then
       attempt (restoreOutputs gw plan)
         (\<lambda>restored. case restored of
            Recovered result \<Rightarrow> ret (Recovered result)
          | Not_found \<Rightarrow> replay_swap gw plan hooks allowed None)
         (\<lambda>e. if \<not> allowed then throw e else replay_swap gw plan hooks allowed (Some e))
     else replay_swap gw plan hooks allowed None) w1 = (Inr (Recovered res), w')"
    using assms unfolding restore_def andThen_eq_Inr by blast
  show ?thesis
  proof (cases "rp_nut09 (xp_recovery plan)")
    case False
    then show ?thesis using w1 by (auto dest: replay_swap_result)
  next
    case True
    obtain x w2 where x: "restoreOutputs gw plan w1 = (x, w2)" by (cases "restoreOutputs gw plan w1")
    show ?thesis
    proof (cases x)
      case (Inl e)
      then show ?thesis
        using w1 True x by (auto simp: attempt_def gateway_simps dest: replay_swap_result split: if_splits)
    next
      case (Inr y)
      then show ?thesis
        using w1 True x
        by (cases y) (auto simp: attempt_def gateway_simps dest: replay_swap_result restoreOutputs_result)
    qed
  qed
qed

text \<open>
  C12: However the replacement proofs of a plan are obtained, by the swap itself, by restoring its outputs
  or by replaying the swap, the result carries the hash of the plan's own request and one proof for each
  planned output. So a recovery never conflicts with the settlement of an earlier attempt.
\<close>
theorem gateway_result_matches_plan:
  assumes "swap gw plan hooks w = (Inr res, w') \<or> restore gw plan hooks w = (Inr (Recovered res), w')"
  shows "sr_replacementPlanHash res = replacementPlanHash (gw_platform gw) plan \<and>
    length (sr_replacementProofs res) = length (xp_outputs plan)"
proof -
  have "result_of_plan gw plan res"
    using assms unfolding swap_def by (auto dest: postSwap_result restored_result)
  then show ?thesis by (simp add: result_of_plan_def)
qed

text \<open>
  C13: A prepared plan is exact: its outputs are all of the chosen keyset, positive and well formed, they
  add up to the expected net amount of the draft, its request is that of the draft's proofs and these
  outputs, and a replay deadline is never before the time of preparation.
\<close>
theorem prepareSwap_exact:
  assumes "prepareSwap gw draft w = (Inr plan, w')"
  shows "sum_list (map so_amount (xp_outputs plan)) = sp_expectedAmount draft \<and>
    xp_outputs plan \<noteq> [] \<and> list_all (output_ok (xp_keysetId plan)) (xp_outputs plan) \<and>
    sp_expectedAmount plan = sp_expectedAmount draft \<and> sp_mint plan = sp_mint draft \<and> sp_proofYs plan = sp_proofYs draft \<and>
    xp_serializedRequest plan = pf_json_stringify (gw_platform gw) (swap_request (sp_inputProofs draft) (xp_outputs plan)) \<and>
    (case rp_nut19ReplayUntil (xp_recovery plan) of None \<Rightarrow> True | Some t \<Rightarrow> xp_preparedAt plan \<le> t)"
proof -
  obtain mat where "createExactSwapPlan (gw_platform gw) draft mat = Inr plan"
    using assms by (auto simp: prepareSwap_def gateway_eqs split: prod.splits option.splits)
  then show ?thesis
    by (auto simp: createExactSwapPlan_iff material_ok_def split: option.splits)
qed

section \<open>An example gateway\<close>

definition demo_answer :: "string \<Rightarrow> jsval option" where
  "demo_answer path =
     (if path = ''/v1/info'' then Some (JObj [])
      else if path = ''/v1/keysets'' then Some (JObj [(''keysets'', js_array [JObj [(''id'', JStr ''k''), (''unit'', JStr ''sat''), (''active'', JBool True)]])])
      else if path = ''/v1/keys/k'' then Some (JObj [(''keysets'', js_array [JObj [(''id'', JStr ''k''), (''unit'', JStr ''sat''), (''keys'', JObj [])]])])
      else if path = ''/v1/swap'' then Some (JObj [(''signatures'', js_array [JObj [(''id'', JStr ''k''), (''amount'', js_int 8), (''C_'', JStr ''c'')]])])
      else None)"

definition demo_gateway :: "int \<Rightarrow> unit mint_gateway" where
  "demo_gateway status =
     \<lparr>gw_platform = demo_platform\<lparr>pf_json_parse := demo_answer\<rparr>, gw_now = (\<lambda>w. (1000, w)),
      gw_fetch = (\<lambda>req w. (Dispatched (Some \<lparr>hr_status = status, hr_contentLength = None,
        hr_body = Some ([map of_char (drop 17 (hq_url req))], True)\<rparr>), w)),
      gw_encodeURIComponent = (\<lambda>s. s), gw_localeCompare = (\<lambda>a b. 0), gw_number = (\<lambda>v. JInt 0),
      gw_amount_from = (\<lambda>s. None),
      gw_createRandomData = (\<lambda>n ks w. (Inr [\<lparr>od_amount = n, od_id = ''k'', od_B = ''02'' @ replicate 64 (CHR ''a''),
        od_secret = [1, 2, 3], od_blindingFactor = 5\<rparr>], w)),
      gw_toProof = (\<lambda>out sg ks. Inr ''proof'')\<rparr>"

definition demo_draft :: swap_plan_draft where
  "demo_draft = \<lparr>sp_deliveryId = ''d'', sp_mint = ''https://mint.io/a'', sp_unit = ''sat'', sp_expectedAmount = 8,
     sp_inputProofs = [], sp_proofYs = [''y'']\<rparr>"

definition demo_exact_plan :: exact_swap_plan where
  "demo_exact_plan = projr (fst (prepareSwap (demo_gateway 200) demo_draft ()))"

lemma prepareSwap_exact_witness:
  "prepareSwap (demo_gateway 200) demo_draft () = (Inr demo_exact_plan, ()) \<and>
   sum_list (map so_amount (xp_outputs demo_exact_plan)) = 8 \<and> length (xp_outputs demo_exact_plan) = 1"
proof -
  have p: "prepareSwap (demo_gateway 200) demo_draft () = (Inr demo_exact_plan, ())"
    unfolding demo_exact_plan_def by code_simp
  moreover have "sp_expectedAmount demo_draft = 8" by (simp add: demo_draft_def)
  moreover have "length (xp_outputs demo_exact_plan) = 1"
    unfolding demo_exact_plan_def by code_simp
  ultimately show ?thesis
    using prepareSwap_exact [OF p] by simp
qed

lemma gateway_result_matches_plan_witness:
  "\<exists>res. swap (demo_gateway 200) demo_exact_plan None () = (Inr res, ()) \<and>
     sr_replacementPlanHash res = replacementPlanHash (gw_platform (demo_gateway 200)) demo_exact_plan \<and>
     length (sr_replacementProofs res) = length (xp_outputs demo_exact_plan)"
proof -
  define res where "res = projr (fst (swap (demo_gateway 200) demo_exact_plan None ()))"
  have r: "swap (demo_gateway 200) demo_exact_plan None () = (Inr res, ())"
    unfolding res_def demo_exact_plan_def by code_simp
  then show ?thesis
    using gateway_result_matches_plan [of "demo_gateway 200" demo_exact_plan None "()" res "()"] by blast
qed

lemma swap_unconsumed_iff_refused_witness:
  "\<exists>e w'. swap (demo_gateway 400) demo_exact_plan (Some (\<lambda>w. (Inr (), w))) () = (Inl e, w') \<and>
     isMintGatewayError e \<and> \<not> mayHaveConsumedInputs e"
proof -
  have "hook_ok (\<lambda>w. (Inr (), w))" by (simp add: hook_ok_def)
  moreover have "mintEndpoint (gw_platform (demo_gateway 400)) (sp_mint demo_exact_plan) ''/v1/swap'' =
      Inr ''https://mint.io/a/v1/swap''"
    by code_simp
  moreover have "gw_fetch (demo_gateway 400) (swap_http ''https://mint.io/a/v1/swap'' demo_exact_plan) () =
      (Dispatched (Some \<lparr>hr_status = 400, hr_contentLength = None,
        hr_body = Some ([map of_char ''/v1/swap''], True)\<rparr>), ())"
    by (simp add: demo_gateway_def swap_http_def)
  moreover have "hr_status \<lparr>hr_status = 400, hr_contentLength = None,
      hr_body = Some ([map of_char ''/v1/swap''], True)\<rparr> = 400" by simp
  ultimately show ?thesis
    using swap_unconsumed_iff_refused [of "\<lambda>w. (Inr (), w)" "demo_gateway 400" demo_exact_plan "()"] by fastforce
qed

end
