(* ===== verification/Fault_Budget.thy ===== *)
theory Fault_Budget
  imports Prelude
begin

text \<open>
  The interface of a book of fault rules. The HTTP gateway and the Nostr relay of the laboratory both keep
  a list of rules, each with the number of times it is still to be applied and the number of times it was.
  The locale states what an operation may do to such a book: leave it, empty it, add a fresh rule at its
  end, or apply some rules that have applications left. Its lemmas say that the books then add up, over
  any sequence of operations: what the evidence reports as applied is what was applied, and no rule is
  applied more often than it was set to.
\<close>

record 'r rule_state =
  rs_rule :: 'r
  rs_remaining :: int
  rs_applied :: int

definition fresh_state :: "('r \<Rightarrow> int) \<Rightarrow> 'r \<Rightarrow> 'r rule_state" where
  "fresh_state budget r = \<lparr>rs_rule = r, rs_remaining = budget r, rs_applied = 0\<rparr>"

definition spend_one :: "'r rule_state \<Rightarrow> 'r rule_state" where
  "spend_one a = a\<lparr>rs_remaining := rs_remaining a - 1, rs_applied := rs_applied a + 1\<rparr>"

lemma spend_one_simps [simp]:
  "rs_rule (spend_one a) = rs_rule a"
  "rs_remaining (spend_one a) = rs_remaining a - 1"
  "rs_applied (spend_one a) = rs_applied a + 1"
  by (simp_all add: spend_one_def)

lemma fresh_state_simps [simp]:
  "rs_rule (fresh_state b r) = r"
  "rs_remaining (fresh_state b r) = b r"
  "rs_applied (fresh_state b r) = 0"
  by (simp_all add: fresh_state_def)

text \<open>Applying the rules at the marked places.\<close>

fun spend :: "bool list \<Rightarrow> 'r rule_state list \<Rightarrow> 'r rule_state list" where
  "spend (f # fs) (a # as) = (if f then spend_one a else a) # spend fs as"
| "spend _ as = as"

fun marked :: "bool list \<Rightarrow> 'r rule_state list \<Rightarrow> 'r list" where
  "marked (f # fs) (a # as) = (if f then [rs_rule a] else []) @ marked fs as"
| "marked _ _ = []"

fun spendable :: "bool list \<Rightarrow> 'r rule_state list \<Rightarrow> bool" where
  "spendable (f # fs) (a # as) \<longleftrightarrow> (f \<longrightarrow> rs_remaining a > 0) \<and> spendable fs as"
| "spendable _ _ \<longleftrightarrow> True"

lemma map_rule_spend [simp]: "map rs_rule (spend fs as) = map rs_rule as"
  by (induction fs as rule: spend.induct) auto

lemma set_marked: "set (marked fs as) \<subseteq> rs_rule ` set as"
  by (induction fs as rule: marked.induct) auto

inductive book_change ::
    "('r \<Rightarrow> string) \<Rightarrow> ('r \<Rightarrow> int) \<Rightarrow> (nat \<Rightarrow> string) \<Rightarrow> int \<Rightarrow>
     nat \<Rightarrow> nat \<Rightarrow> 'r list \<Rightarrow> 'r rule_state list \<Rightarrow> 'r rule_state list \<Rightarrow> bool"
  for ident budget name most where
  keep: "book_change ident budget name most n n' [] as as" if "n \<le> n'"
| clear: "book_change ident budget name most n n' [] as []" if "n \<le> n'"
| add: "book_change ident budget name most n n' [] as (as @ [fresh_state budget r])"
    if "n < n'" "ident r = name n'" "1 \<le> budget r" "budget r \<le> most"
| spent: "book_change ident budget name most n n (marked fs as) as (spend fs as)"
    if "spendable fs as"

text \<open>The books add up: \<open>log\<close> holds the rules that were applied so far, in order.\<close>

definition applications :: "('r \<Rightarrow> string) \<Rightarrow> 'r list \<Rightarrow> string \<Rightarrow> int" where
  "applications ident log k = int (length (filter (\<lambda>r. ident r = k) log))"

lemma applications_simps [simp]:
  "applications ident [] k = 0"
  "applications ident (r # log) k = (if ident r = k then 1 else 0) + applications ident log k"
  "applications ident (xs @ ys) k = applications ident xs k + applications ident ys k"
  by (simp_all add: applications_def)

lemma applications_0: "(\<And>r. r \<in> set log \<Longrightarrow> ident r \<noteq> k) \<Longrightarrow> applications ident log k = 0"
  by (induction log) auto

definition balanced :: "('r \<Rightarrow> string) \<Rightarrow> ('r \<Rightarrow> int) \<Rightarrow> 'r list \<Rightarrow> 'r rule_state \<Rightarrow> bool" where
  "balanced ident budget log a \<longleftrightarrow>
     rs_applied a = applications ident log (ident (rs_rule a)) \<and>
     rs_remaining a + rs_applied a = budget (rs_rule a) \<and> 0 \<le> rs_remaining a"

definition book_ok ::
    "('r \<Rightarrow> string) \<Rightarrow> ('r \<Rightarrow> int) \<Rightarrow> (nat \<Rightarrow> string) \<Rightarrow> int \<Rightarrow> nat \<Rightarrow> 'r list \<Rightarrow> 'r rule_state list \<Rightarrow> bool" where
  "book_ok ident budget name most n log as \<longleftrightarrow>
     distinct (map (\<lambda>a. ident (rs_rule a)) as) \<and>
     (\<forall>a\<in>set as. balanced ident budget log a) \<and>
     (\<forall>r\<in>set log \<union> rs_rule ` set as. (\<exists>k\<le>n. ident r = name k) \<and> 1 \<le> budget r \<and> budget r \<le> most) \<and>
     (\<forall>r\<in>set log. applications ident log (ident r) \<le> budget r) \<and>
     (\<forall>r\<in>set log \<union> rs_rule ` set as. \<forall>r'\<in>set log \<union> rs_rule ` set as. ident r = ident r' \<longrightarrow> r = r')"

lemma applications_marked:
  assumes "distinct (map (\<lambda>a. ident (rs_rule a)) as)" and "b \<in> set (spend fs as)" and "spendable fs as"
  obtains a where "a \<in> set as" and "rs_rule b = rs_rule a"
    and "applications ident (marked fs as) (ident (rs_rule a)) = rs_applied b - rs_applied a"
    and "rs_remaining b + rs_applied b = rs_remaining a + rs_applied a"
    and "0 \<le> rs_remaining a \<Longrightarrow> 0 \<le> rs_remaining b"
  using assms
proof (induction fs as arbitrary: thesis rule: spend.induct)
  case (1 f fs a as)
  have rest: "applications ident (marked fs as) (ident (rs_rule a)) = 0"
  proof (rule applications_0)
    fix r assume "r \<in> set (marked fs as)"
    then obtain x where "x \<in> set as" "r = rs_rule x"
      by (blast dest: subsetD [OF set_marked])
    then show "ident r \<noteq> ident (rs_rule a)"
      using "1.prems"(2) by (simp add: image_iff) metis
  qed
  show ?case
  proof (cases "b = (if f then spend_one a else a)")
    case True
    then show ?thesis
      using "1.prems"(1) [of a] "1.prems"(4) rest by (cases f) auto
  next
    case False
    then have b: "b \<in> set (spend fs as)"
      using "1.prems"(3) by auto
    show ?thesis
    proof (rule "1.IH")
      fix a'
      assume a': "a' \<in> set as" "rs_rule b = rs_rule a'"
        "applications ident (marked fs as) (ident (rs_rule a')) = rs_applied b - rs_applied a'"
        "rs_remaining b + rs_applied b = rs_remaining a' + rs_applied a'"
        "0 \<le> rs_remaining a' \<Longrightarrow> 0 \<le> rs_remaining b"
      have "ident (rs_rule a) \<noteq> ident (rs_rule a')"
        using "1.prems"(2) a'(1) by auto
      then show thesis
        using "1.prems"(1) [of a'] a' by auto
    qed (use "1.prems" b in auto)
  qed
qed auto

lemma book_ok_apply:
  assumes ok: "book_ok ident budget name most n log as" and fs: "spendable fs as"
  shows "book_ok ident budget name most n (log @ marked fs as) (spend fs as)"
proof -
  have d: "distinct (map (\<lambda>a. ident (rs_rule a)) as)"
    and bal: "\<And>a. a \<in> set as \<Longrightarrow> balanced ident budget log a"
    and low: "\<And>r. r \<in> set log \<Longrightarrow> applications ident log (ident r) \<le> budget r"
    and same: "\<And>r r'. r \<in> set log \<union> rs_rule ` set as \<Longrightarrow> r' \<in> set log \<union> rs_rule ` set as \<Longrightarrow>
        ident r = ident r' \<Longrightarrow> r = r'"
    using ok unfolding book_ok_def by blast+
  have rules: "rs_rule ` set (spend fs as) = rs_rule ` set as"
    by (metis map_rule_spend list.set_map)
  have all: "set (log @ marked fs as) \<union> rs_rule ` set (spend fs as) = set log \<union> rs_rule ` set as"
    using rules set_marked [of fs as] by auto
  have names: "map (\<lambda>a. ident (rs_rule a)) (spend fs as) = map (\<lambda>a. ident (rs_rule a)) as"
    using arg_cong [OF map_rule_spend [of fs as], of "map ident"] by (simp add: comp_def del: map_rule_spend)
  have bal': "balanced ident budget (log @ marked fs as) b" if b: "b \<in> set (spend fs as)" for b
  proof -
    from applications_marked [OF d b fs] obtain a where "a \<in> set as" "rs_rule b = rs_rule a"
      "applications ident (marked fs as) (ident (rs_rule a)) = rs_applied b - rs_applied a"
      "rs_remaining b + rs_applied b = rs_remaining a + rs_applied a"
      "0 \<le> rs_remaining a \<Longrightarrow> 0 \<le> rs_remaining b" by metis
    then show ?thesis
      using bal [of a] by (auto simp: balanced_def)
  qed
  have low': "applications ident (log @ marked fs as) (ident r) \<le> budget r" if r: "r \<in> set (log @ marked fs as)" for r
  proof (cases "r \<in> rs_rule ` set as")
    case True
    then obtain b where "b \<in> set (spend fs as)" "rs_rule b = r"
      unfolding rules [symmetric] by blast
    then show ?thesis
      using bal' [of b] by (auto simp: balanced_def)
  next
    case False
    then have log: "r \<in> set log"
      using r set_marked [of fs as] by auto
    have "applications ident (marked fs as) (ident r) = 0"
    proof (rule applications_0)
      fix r' assume "r' \<in> set (marked fs as)"
      then have "r' \<in> rs_rule ` set as"
        by (rule subsetD [OF set_marked])
      then show "ident r' \<noteq> ident r"
        using same [of r' r] log False by auto
    qed
    then show ?thesis
      using low [OF log] by simp
  qed
  show ?thesis
    unfolding book_ok_def all names
    using ok bal' low' by (simp add: book_ok_def)
qed

lemma book_ok_add:
  assumes ok: "book_ok ident budget name most n log as" and names: "inj name"
    and r: "n < n'" "ident r = name n'" "1 \<le> budget r" "budget r \<le> most"
  shows "book_ok ident budget name most n' log (as @ [fresh_state budget r])"
proof -
  have old: "\<exists>k\<le>n. ident r' = name k" if "r' \<in> set log \<union> rs_rule ` set as" for r'
    using ok that unfolding book_ok_def by blast
  have new: "ident r' \<noteq> ident r" if "r' \<in> set log \<union> rs_rule ` set as" for r'
    using old [OF that] r(1,2) injD [OF names] by fastforce
  have "applications ident log (ident r) = 0"
    using new by (intro applications_0) auto
  then have fresh: "balanced ident budget log (fresh_state budget r)"
    using r(3) by (simp add: balanced_def)
  have named: "\<exists>k\<le>n'. ident r' = name k" if "r' \<in> set log \<union> rs_rule ` set as" for r'
    using old [OF that] r(1) by (meson less_imp_le order_trans)
  have all: "set log \<union> rs_rule ` set (as @ [fresh_state budget r]) = insert r (set log \<union> rs_rule ` set as)"
    by auto
  have other: "ident r \<notin> (\<lambda>a. ident (rs_rule a)) ` set as"
  proof
    assume "ident r \<in> (\<lambda>a. ident (rs_rule a)) ` set as"
    then obtain a where "a \<in> set as" "ident r = ident (rs_rule a)" ..
    then show False using new [of "rs_rule a"] by simp
  qed
  show ?thesis
    unfolding book_ok_def all
  proof (intro conjI ballI impI)
    show "distinct (map (\<lambda>a. ident (rs_rule a)) (as @ [fresh_state budget r]))"
      using ok other by (simp add: book_ok_def)
    show "balanced ident budget log a" if "a \<in> set (as @ [fresh_state budget r])" for a
      using ok fresh that by (auto simp: book_ok_def)
    show "applications ident log (ident r') \<le> budget r'" if "r' \<in> set log" for r'
      using ok that by (simp add: book_ok_def)
    fix r' assume r': "r' \<in> insert r (set log \<union> rs_rule ` set as)"
    show "\<exists>k\<le>n'. ident r' = name k"
      using r' named r(2) by blast
    show "1 \<le> budget r'" "budget r' \<le> most"
      using r' ok r(3,4) by (auto simp: book_ok_def)
    show "r' = r''" if "r'' \<in> insert r (set log \<union> rs_rule ` set as)" "ident r' = ident r''" for r''
      using r' ok new [of r'] new [of r''] that unfolding book_ok_def by (metis insert_iff)
  qed
qed

lemma book_ok_clear:
  assumes "book_ok ident budget name most n log as" and "n \<le> n'" and "as' = as \<or> as' = []"
  shows "book_ok ident budget name most n' log as'"
  using assms unfolding book_ok_def by (auto 0 4 intro: order_trans)

lemma book_change_ok:
  assumes "book_change ident budget name most n n' new as as'"
    and "book_ok ident budget name most n log as" and "inj name"
  shows "book_ok ident budget name most n' (log @ new) as'"
  using assms
proof (cases rule: book_change.cases)
  case keep
  then show ?thesis using assms(2) book_ok_clear by fastforce
next
  case clear
  then show ?thesis using assms(2) book_ok_clear by fastforce
next
  case (add r)
  then show ?thesis using book_ok_add [OF assms(2,3)] by simp
next
  case (spent fs)
  then show ?thesis using book_ok_apply [OF assms(2)] by simp
qed

locale fault_book =
  fixes rules :: "'s \<Rightarrow> 'r rule_state list"
    and ident :: "'r \<Rightarrow> string"
    and budget :: "'r \<Rightarrow> int"
    and issued :: "'s \<Rightarrow> nat"
    and name :: "nat \<Rightarrow> string"
    and most :: int
    and step :: "'i \<Rightarrow> 's \<Rightarrow> 'r list \<times> 's"
  assumes names_distinct: "inj name"
    and step_changes: "book_change ident budget name most (issued s) (issued (snd (step i s)))
      (fst (step i s)) (rules s) (rules (snd (step i s)))"
begin

primrec run_book :: "'i list \<Rightarrow> 's \<Rightarrow> 'r list \<times> 's" where
  "run_book [] s = ([], s)"
| "run_book (i # is) s =
     (fst (step i s) @ fst (run_book is (snd (step i s))), snd (run_book is (snd (step i s))))"

lemma run_book_ok:
  assumes "book_ok ident budget name most (issued s) log (rules s)"
  shows "book_ok ident budget name most (issued (snd (run_book is s)))
    (log @ fst (run_book is s)) (rules (snd (run_book is s)))"
  using assms
proof (induction "is" arbitrary: s log)
  case (Cons i "is")
  have "book_ok ident budget name most (issued (snd (step i s))) (log @ fst (step i s)) (rules (snd (step i s)))"
    by (rule book_change_ok [OF step_changes Cons.prems names_distinct])
  from Cons.IH [OF this] show ?case by simp
qed simp

theorem books_add_up:
  assumes "rules s = []" and "run_book is s = (log, s')" and "a \<in> set (rules s')"
  shows "rs_applied a = applications ident log (ident (rs_rule a))"
    and "rs_remaining a + rs_applied a = budget (rs_rule a)" and "0 \<le> rs_remaining a"
  using run_book_ok [of s "[]" "is"] assms by (auto simp: book_ok_def balanced_def)

theorem never_over_budget:
  assumes "rules s = []" and "run_book is s = (log, s')" and "r \<in> set log"
  shows "applications ident log (ident r) \<le> budget r" and "budget r \<le> most"
  using run_book_ok [of s "[]" "is"] assms by (auto simp: book_ok_def)

end

end
