(* ===== verification/Http_Faults.thy ===== *)
theory Http_Faults
  imports Fault_Budget Fingerprint Js_Map
begin

text \<open>
  The fault rules of the HTTP gateway: \<open>rules.ts\<close> and \<open>control.ts\<close> of \<open>apps/http-fault-gateway/src\<close>.

  A rule is set from untyped JSON, so \<open>validateRule\<close> takes any value, and the fields it does not look at
  stay untyped in the rule. A call that throws is an \<open>Inl\<close> with the start of its message; a method called
  on a value that has none throws a \<open>TypeError\<close>. The laws of the book of rules are those of the locale
  \<open>fault_book\<close>.
\<close>

section \<open>Rules\<close>

datatype fault_phase = Before_forward | After_downstream_commit | After_downstream_response

datatype fault_action = Fa_drop | Fa_delay | Fa_duplicate | Fa_reorder | Fa_status | Fa_stale_response | Fa_truncate

datatype endpoint_family = Fam_mint | Fam_swap | Fam_melt | Fam_quote | Fam_proof_state | Fam_restore

fun fault_phase_text :: "fault_phase \<Rightarrow> string" where
  "fault_phase_text Before_forward = ''before_forward''"
| "fault_phase_text After_downstream_commit = ''after_downstream_commit''"
| "fault_phase_text After_downstream_response = ''after_downstream_response''"

fun fault_action_text :: "fault_action \<Rightarrow> string" where
  "fault_action_text Fa_drop = ''drop''"
| "fault_action_text Fa_delay = ''delay''"
| "fault_action_text Fa_duplicate = ''duplicate''"
| "fault_action_text Fa_reorder = ''reorder''"
| "fault_action_text Fa_status = ''status''"
| "fault_action_text Fa_stale_response = ''stale_response''"
| "fault_action_text Fa_truncate = ''truncate''"

fun family_text :: "endpoint_family \<Rightarrow> string" where
  "family_text Fam_mint = ''mint''"
| "family_text Fam_swap = ''swap''"
| "family_text Fam_melt = ''melt''"
| "family_text Fam_quote = ''quote''"
| "family_text Fam_proof_state = ''proof_state''"
| "family_text Fam_restore = ''restore''"

definition fault_phases :: "fault_phase list" where
  "fault_phases = [Before_forward, After_downstream_commit, After_downstream_response]"

definition fault_actions :: "fault_action list" where
  "fault_actions = [Fa_drop, Fa_delay, Fa_duplicate, Fa_reorder, Fa_status, Fa_stale_response, Fa_truncate]"

definition endpoint_families :: "endpoint_family list" where
  "endpoint_families = [Fam_mint, Fam_swap, Fam_melt, Fam_quote, Fam_proof_state, Fam_restore]"

record fault_rule =
  fr_id :: string
  fr_count :: int
  fr_phase :: fault_phase
  fr_action :: fault_action
  fr_match :: jsval
  fr_occurrence :: jsval
  fr_delayMs :: jsval
  fr_duplicateCount :: jsval
  fr_statusCode :: jsval
  fr_truncateBytes :: jsval

record request_metadata =
  md_method :: string
  md_path :: string
  md_deliveryIdHash :: "string option"
  md_operationIdHash :: "string option"
  md_endpointFamily :: "endpoint_family option"
  md_bodyDigest :: string
  md_attemptOrdinal :: int

definition rule_fields :: "string list" where
  "rule_fields = [''phase'', ''action'', ''match'', ''occurrence'', ''count'', ''delayMs'', ''duplicateCount'',
     ''statusCode'', ''truncateBytes'']"

definition match_fields :: "string list" where
  "match_fields = [''method'', ''path'', ''deliveryIdHash'', ''operationId'', ''endpointFamily'', ''attemptOrdinal'']"

definition rejectUnknownFields :: "jsval \<Rightarrow> string list \<Rightarrow> string \<Rightarrow> string + unit" where
  "rejectUnknownFields v allowed name =
     (case find (\<lambda>k. k \<notin> set allowed) (js_keys v) of
        None \<Rightarrow> Inr () | Some k \<Rightarrow> Inl (name @ '' contains unknown field '' @ k))"

definition operationIdHash :: "platform \<Rightarrow> string \<Rightarrow> string" where
  "operationIdHash pf operationId =
     pf_sha256 pf (pf_utf8_encode pf (''cashu-fault-lab/http-fault-operation/v1'' @ [CHR 0x00]) @
       pf_utf8_encode pf operationId)"

definition positiveInteger :: "jsval \<Rightarrow> int \<Rightarrow> string \<Rightarrow> string + int" where
  "positiveInteger v fallback name =
     (case coalesce v (js_int fallback) of
        JNum (JInt i) \<Rightarrow>
          if \<not> safe_int i \<or> i < 1 \<or> i > 10000 then Inl (name @ '' must be an integer from 1 to 10,000'') else Inr i
      | _ \<Rightarrow> Inl (name @ '' must be an integer from 1 to 10,000''))"

text \<open>A safe integer in a range, for a value that is not undefined.\<close>

definition integer_within :: "jsval \<Rightarrow> int \<Rightarrow> int \<Rightarrow> bool" where
  "integer_within v lo hi \<longleftrightarrow> (case v of JNum (JInt i) \<Rightarrow> safe_int i \<and> lo \<le> i \<and> i \<le> hi | _ \<Rightarrow> False)"

text \<open>\<open>value.length === 0\<close>, which throws on null.\<close>

fun length_zero :: "jsval \<Rightarrow> string + bool" where
  "length_zero JUndef = Inl ''TypeError''"
| "length_zero JNull = Inl ''TypeError''"
| "length_zero (JStr s) = Inr (s = [])"
| "length_zero (JArr vs) = Inr (vs = [])"
| "length_zero v = Inr (js_get v ''length'' = js_int 0)"

text \<open>
  The text a regular expression is tried on: that of a text, or of the only element of an array. The texts
  of all other values hold a comma or a bracket, are empty, or end in a digit or a small letter of a word
  such as \<open>true\<close>, and so do not match the pattern of an operation id.
\<close>

function tested_text :: "jsval \<Rightarrow> string option" where
  "tested_text v =
     (case v of JStr s \<Rightarrow> Some s
      | JArr vs \<Rightarrow> (case vs of [Some w] \<Rightarrow> tested_text w | _ \<Rightarrow> None)
      | _ \<Rightarrow> None)"
  by auto
termination
  by (relation "measure size") auto

declare tested_text.simps [simp del]

definition fault_operation_pattern :: "jsval \<Rightarrow> bool" where
  "fault_operation_pattern v \<longleftrightarrow> (case tested_text v of None \<Rightarrow> False | Some s \<Rightarrow>
     length s = 22 \<and> all_in b64_alphabet (butlast s) \<and> last s \<in> set ''AQgw'')"

definition validateRule :: "string \<Rightarrow> jsval \<Rightarrow> string + fault_rule" where
  "validateRule ident input =
     (let mat = js_get input ''match'' in
      rbind (ensure (isRecord input) ''HTTP fault rule must be an object'') (\<lambda>_.
      rbind (rejectUnknownFields input rule_fields ''HTTP fault rule'') (\<lambda>_.
      rbind (ensure (mat = JUndef \<or> isRecord mat) ''HTTP fault match must be an object'') (\<lambda>_.
      rbind (if mat = JUndef then Inr () else rejectUnknownFields mat match_fields ''HTTP fault match'') (\<lambda>_.
      case find (\<lambda>p. js_get input ''phase'' = JStr (fault_phase_text p)) fault_phases of
        None \<Rightarrow> Inl ''HTTP fault phase is invalid''
      | Some phase \<Rightarrow>
     (case find (\<lambda>a. js_get input ''action'' = JStr (fault_action_text a)) fault_actions of
        None \<Rightarrow> Inl ''HTTP fault action is invalid''
      | Some act \<Rightarrow>
      rbind (positiveInteger (js_get input ''count'') 1 ''Fault count'') (\<lambda>n.
      rbind (if js_get input ''occurrence'' = JUndef then Inr 1
             else positiveInteger (js_get input ''occurrence'') 1 ''Fault occurrence'') (\<lambda>_.
      rbind (if js_get mat ''attemptOrdinal'' = JUndef then Inr 1
             else positiveInteger (js_get mat ''attemptOrdinal'') 1 ''Attempt ordinal'') (\<lambda>_.
      rbind (ensure (js_get input ''delayMs'' = JUndef \<or> integer_within (js_get input ''delayMs'') 0 max_safe_integer)
               ''Fault delay must be a nonnegative integer'') (\<lambda>_.
      rbind (if act = Fa_duplicate then positiveInteger (js_get input ''duplicateCount'') 1 ''Duplicate count''
             else Inr 1) (\<lambda>_.
      rbind (ensure (\<not> (act = Fa_duplicate \<and> phase \<noteq> Before_forward))
               ''Duplicate faults must run before forwarding'') (\<lambda>_.
      rbind (ensure (\<not> (act = Fa_reorder \<and> phase \<noteq> Before_forward))
               ''Reorder faults must run before forwarding'') (\<lambda>_.
      rbind (ensure (act = Fa_status \<longrightarrow> integer_within (js_get input ''statusCode'') 100 599)
               ''Injected status must be an integer from 100 to 599'') (\<lambda>_.
      rbind (ensure (\<not> (act = Fa_stale_response \<and> phase \<noteq> After_downstream_response))
               ''Stale response faults must run after a downstream response'') (\<lambda>_.
      rbind (ensure (\<not> (act = Fa_truncate \<and> phase \<noteq> After_downstream_response))
               ''Truncate faults must run after a downstream response'') (\<lambda>_.
      rbind (ensure (act = Fa_truncate \<longrightarrow> integer_within (js_get input ''truncateBytes'') 0 65536)
               ''Truncate bytes must be an integer from 0 to 65,536'') (\<lambda>_.
      rbind (if js_get mat ''method'' = JUndef then Inr False else length_zero (js_get mat ''method'')) (\<lambda>empty.
      rbind (ensure (\<not> empty) ''Fault method match cannot be empty'') (\<lambda>_.
      rbind (case js_get mat ''path'' of
               JUndef \<Rightarrow> Inr ()
             | JStr p \<Rightarrow> ensure (take 1 p = ''/'') ''Fault path match must be absolute''
             | _ \<Rightarrow> Inl ''TypeError'') (\<lambda>_.
      rbind (ensure (js_get mat ''endpointFamily'' = JUndef \<or>
                 (\<exists>f\<in>set endpoint_families. js_get mat ''endpointFamily'' = JStr (family_text f)))
               ''Cashu endpoint family is invalid'') (\<lambda>_.
      rbind (ensure (js_get mat ''operationId'' = JUndef \<or> fault_operation_pattern (js_get mat ''operationId''))
               ''Lifecycle operation ID is invalid'') (\<lambda>_.
      Inr \<lparr>fr_id = ident, fr_count = n, fr_phase = phase, fr_action = act, fr_match = mat,
        fr_occurrence = js_get input ''occurrence'', fr_delayMs = js_get input ''delayMs'',
        fr_duplicateCount = js_get input ''duplicateCount'', fr_statusCode = js_get input ''statusCode'',
        fr_truncateBytes = js_get input ''truncateBytes''\<rparr>))))))))))))))))))))))"

text \<open>\<open>wanted !== undefined && wanted !== actual\<close>\<close>

definition differs :: "jsval \<Rightarrow> jsval \<Rightarrow> bool" where
  "differs wanted actual \<longleftrightarrow> wanted \<noteq> JUndef \<and> wanted \<noteq> actual"

definition ruleMatches :: "platform \<Rightarrow> fault_rule \<Rightarrow> fault_phase \<Rightarrow> request_metadata \<Rightarrow> string + bool" where
  "ruleMatches pf r phase md =
     (let mat = fr_match r in
      if fr_phase r \<noteq> phase then Inr False
      else if differs (fr_occurrence r) (js_int (md_attemptOrdinal md)) then Inr False
      else if mat = JUndef then Inr True
      else
        rbind (case js_get mat ''method'' of
                 JUndef \<Rightarrow> Inr False
               | JStr s \<Rightarrow> Inr (ascii_upper s \<noteq> md_method md)
               | _ \<Rightarrow> Inl ''TypeError'') (\<lambda>otherMethod.
        if otherMethod then Inr False
        else if differs (js_get mat ''path'') (JStr (md_path md)) then Inr False
        else if differs (js_get mat ''deliveryIdHash'') (js_opt (md_deliveryIdHash md)) then Inr False
        else
        rbind (case js_get mat ''operationId'' of
                 JUndef \<Rightarrow> Inr False
               | JStr s \<Rightarrow> Inr (Some (operationIdHash pf s) \<noteq> md_operationIdHash md)
               | _ \<Rightarrow> Inl ''TypeError'') (\<lambda>otherOperation.
        if otherOperation then Inr False
        else if differs (js_get mat ''endpointFamily'') (js_opt (map_option family_text (md_endpointFamily md)))
        then Inr False
        else Inr (\<not> differs (js_get mat ''attemptOrdinal'') (js_int (md_attemptOrdinal md))))))"

section \<open>The control\<close>

record gateway_counters =
  ct_inbound :: int
  ct_forwarded :: int
  ct_responded :: int
  ct_dropped :: int
  ct_delayed :: int
  ct_duplicates :: int
  ct_reordered :: int
  ct_statusInjected :: int
  ct_staleResponses :: int
  ct_truncated :: int

record request_evidence =
  re_method :: string
  re_path :: string
  re_endpointFamily :: "endpoint_family option"
  re_attemptOrdinal :: int
  re_bodyDigest :: string

record gateway_control =
  gc_sequence :: nat
  gc_generation :: nat
  gc_rules :: "fault_rule rule_state list"
  gc_attempts :: "(string, int) jsmap"
  gc_requests :: "request_evidence list"
  gc_counters :: gateway_counters

definition zero_counters :: gateway_counters where
  "zero_counters = \<lparr>ct_inbound = 0, ct_forwarded = 0, ct_responded = 0, ct_dropped = 0, ct_delayed = 0,
     ct_duplicates = 0, ct_reordered = 0, ct_statusInjected = 0, ct_staleResponses = 0, ct_truncated = 0\<rparr>"

definition new_control :: gateway_control where
  "new_control = \<lparr>gc_sequence = 0, gc_generation = 0, gc_rules = [], gc_attempts = [], gc_requests = [],
     gc_counters = zero_counters\<rparr>"

definition http_rule_name :: "nat \<Rightarrow> string" where
  "http_rule_name n = ''http-rule-'' @ decimal_text n"

text \<open>The sequence number is used up even when the rule is refused.\<close>

definition setRule :: "jsval \<Rightarrow> gateway_control \<Rightarrow> (string + fault_rule) \<times> gateway_control" where
  "setRule input gc =
     (let n = gc_sequence gc + 1; gc' = gc\<lparr>gc_sequence := n\<rparr> in
      case validateRule (http_rule_name n) input of
        Inl e \<Rightarrow> (Inl e, gc')
      | Inr r \<Rightarrow> (Inr r, gc'\<lparr>gc_rules := gc_rules gc' @ [\<lparr>rs_rule = r, rs_remaining = fr_count r, rs_applied = 0\<rparr>]\<rparr>))"

definition clearRules :: "gateway_control \<Rightarrow> gateway_control" where
  "clearRules gc = gc\<lparr>gc_rules := []\<rparr>"

definition reset_control :: "gateway_control \<Rightarrow> gateway_control" where
  "reset_control gc =
     (clearRules (gc\<lparr>gc_generation := gc_generation gc + 1\<rparr>))
       \<lparr>gc_attempts := [], gc_counters := zero_counters, gc_requests := []\<rparr>"

definition attempt_key :: "request_metadata \<Rightarrow> string" where
  "attempt_key md =
     md_method md @ [CHR 0x00] @ md_path md @ [CHR 0x00] @
     (case md_deliveryIdHash md of None \<Rightarrow> ''-'' | Some h \<Rightarrow> h) @ [CHR 0x00] @
     (case md_operationIdHash md of None \<Rightarrow> ''-'' | Some h \<Rightarrow> h)"

text \<open>The attempt ordinal of the argument is not read: \<open>begin\<close> computes it.\<close>

definition begin_request :: "request_metadata \<Rightarrow> gateway_control \<Rightarrow> request_metadata \<times> gateway_control" where
  "begin_request input gc =
     (let cs = (gc_counters gc)\<lparr>ct_inbound := ct_inbound (gc_counters gc) + 1\<rparr>;
          key = attempt_key input;
          ordinal = (case map_of (gc_attempts gc) key of None \<Rightarrow> 0 | Some n \<Rightarrow> n) + 1;
          md = input\<lparr>md_attemptOrdinal := ordinal\<rparr>;
          kept = (if length (gc_requests gc) = 1024 then drop 1 (gc_requests gc) else gc_requests gc)
      in (md, gc\<lparr>gc_counters := cs, gc_attempts := mp_set (gc_attempts gc) key ordinal,
            gc_requests := kept @ [\<lparr>re_method = md_method md, re_path = md_path md,
              re_endpointFamily = md_endpointFamily md, re_attemptOrdinal = ordinal,
              re_bodyDigest = md_bodyDigest md\<rparr>]\<rparr>))"

text \<open>The first rule with applications left that matches, and the rules with that one applied.\<close>

fun apply_first :: "platform \<Rightarrow> fault_phase \<Rightarrow> request_metadata \<Rightarrow> fault_rule rule_state list \<Rightarrow>
    string + (fault_rule option \<times> fault_rule rule_state list)" where
  "apply_first pf phase md [] = Inr (None, [])"
| "apply_first pf phase md (a # as) =
     rbind (if rs_remaining a > 0 then ruleMatches pf (rs_rule a) phase md else Inr False) (\<lambda>hit.
     if hit then Inr (Some (rs_rule a), a\<lparr>rs_remaining := rs_remaining a - 1, rs_applied := rs_applied a + 1\<rparr> # as)
     else rbind (apply_first pf phase md as) (\<lambda>(r, as'). Inr (r, a # as')))"

definition take_fault :: "platform \<Rightarrow> fault_phase \<Rightarrow> request_metadata \<Rightarrow> gateway_control \<Rightarrow>
    (string + fault_rule option) \<times> gateway_control" where
  "take_fault pf phase md gc =
     (case apply_first pf phase md (gc_rules gc) of
        Inl e \<Rightarrow> (Inl e, gc)
      | Inr (r, as) \<Rightarrow> (Inr r, gc\<lparr>gc_rules := as\<rparr>))"

definition recordForward :: "int \<Rightarrow> gateway_control \<Rightarrow> gateway_control" where
  "recordForward n gc = gc\<lparr>gc_counters := (gc_counters gc)\<lparr>ct_forwarded := ct_forwarded (gc_counters gc) + n\<rparr>\<rparr>"

definition recordResponse :: "gateway_control \<Rightarrow> gateway_control" where
  "recordResponse gc = gc\<lparr>gc_counters := (gc_counters gc)\<lparr>ct_responded := ct_responded (gc_counters gc) + 1\<rparr>\<rparr>"

fun count_action :: "fault_action \<Rightarrow> int \<Rightarrow> gateway_counters \<Rightarrow> gateway_counters" where
  "count_action Fa_drop extra cs = cs\<lparr>ct_dropped := ct_dropped cs + 1\<rparr>"
| "count_action Fa_delay extra cs = cs\<lparr>ct_delayed := ct_delayed cs + 1\<rparr>"
| "count_action Fa_duplicate extra cs = cs\<lparr>ct_duplicates := ct_duplicates cs + extra\<rparr>"
| "count_action Fa_reorder extra cs = cs\<lparr>ct_reordered := ct_reordered cs + 1\<rparr>"
| "count_action Fa_status extra cs = cs\<lparr>ct_statusInjected := ct_statusInjected cs + 1\<rparr>"
| "count_action Fa_stale_response extra cs = cs\<lparr>ct_staleResponses := ct_staleResponses cs + 1\<rparr>"
| "count_action Fa_truncate extra cs = cs\<lparr>ct_truncated := ct_truncated cs + 1\<rparr>"

definition recordAction :: "fault_action \<Rightarrow> int \<Rightarrow> gateway_control \<Rightarrow> gateway_control" where
  "recordAction act extra gc = gc\<lparr>gc_counters := count_action act extra (gc_counters gc)\<rparr>"

record rule_evidence =
  ev_id :: string
  ev_phase :: fault_phase
  ev_action :: fault_action
  ev_method :: "string option"
  ev_path :: jsval
  ev_endpointFamily :: jsval
  ev_remaining :: int
  ev_applied :: int

record gateway_evidence =
  ge_counters :: gateway_counters
  ge_requests :: "request_evidence list"
  ge_rules :: "rule_evidence list"

definition rule_evidence_of :: "fault_rule rule_state \<Rightarrow> string + rule_evidence" where
  "rule_evidence_of a =
     (let r = rs_rule a; mat = fr_match r in
      rbind (case js_get mat ''method'' of
               JUndef \<Rightarrow> Inr None
             | JStr s \<Rightarrow> Inr (Some (ascii_upper s))
             | _ \<Rightarrow> Inl ''TypeError'') (\<lambda>m.
      Inr \<lparr>ev_id = fr_id r, ev_phase = fr_phase r, ev_action = fr_action r, ev_method = m,
        ev_path = js_get mat ''path'', ev_endpointFamily = js_get mat ''endpointFamily'',
        ev_remaining = rs_remaining a, ev_applied = rs_applied a\<rparr>))"

definition gateway_snapshot :: "gateway_control \<Rightarrow> string + gateway_evidence" where
  "gateway_snapshot gc =
     rbind (traverse rule_evidence_of (gc_rules gc)) (\<lambda>rules.
     Inr \<lparr>ge_counters = gc_counters gc, ge_requests = gc_requests gc, ge_rules = rules\<rparr>)"

section \<open>Control requests\<close>

definition control_prefix :: string where
  "control_prefix = ''/__faults/v1/''"

definition control_body_limit :: nat where
  "control_body_limit = 16384"

datatype control_reply =
    Problem_reply int string
  | Evidence_reply gateway_evidence
  | Created_reply string
  | Done_reply

record control_request =
  cq_method :: string
  cq_path :: string
  cq_authorization :: "string option"
  cq_body :: "nat list"
  cq_token :: "string option"

definition secureEqual :: "platform \<Rightarrow> string \<Rightarrow> string \<Rightarrow> bool" where
  "secureEqual pf l r \<longleftrightarrow> length (pf_utf8_encode pf l) = length (pf_utf8_encode pf r) \<and> pf_utf8_encode pf l = pf_utf8_encode pf r"

definition decodeRule :: "platform \<Rightarrow> nat list \<Rightarrow> string + jsval" where
  "decodeRule pf body =
     (if length body > control_body_limit then Inl ''CONTROL_PAYLOAD_TOO_LARGE''
      else case Option.bind (pf_utf8_decode pf body) (pf_json_parse pf) of
        None \<Rightarrow> Inl ''INVALID_CONTROL_JSON''
      | Some v \<Rightarrow> Inr v)"

text \<open>\<open>Inr None\<close>: not a control request. The evidence route throws when the snapshot does.\<close>

definition handleControlRequest :: "platform \<Rightarrow> control_request \<Rightarrow> gateway_control \<Rightarrow>
    (string + control_reply option) \<times> gateway_control" where
  "handleControlRequest pf q gc =
     (if take (length control_prefix) (cq_path q) \<noteq> control_prefix then (Inr None, gc)
      else case cq_token q of
        None \<Rightarrow> (Inr (Some (Problem_reply 404 ''NOT_FOUND'')), gc)
      | Some token \<Rightarrow>
        if token = [] then (Inr (Some (Problem_reply 404 ''NOT_FOUND'')), gc)
        else if \<not> secureEqual pf (case cq_authorization q of None \<Rightarrow> [] | Some a \<Rightarrow> a) (''Bearer '' @ token)
        then (Inr (Some (Problem_reply 401 ''UNAUTHORIZED'')), gc)
        else if cq_method q = ''GET'' \<and> cq_path q = control_prefix @ ''evidence''
        then (map_sum id (\<lambda>e. Some (Evidence_reply e)) (gateway_snapshot gc), gc)
        else if cq_method q = ''POST'' \<and> cq_path q = control_prefix @ ''rules''
        then (case decodeRule pf (cq_body q) of
                Inl e \<Rightarrow>
                  (Inr (Some (if e = ''CONTROL_PAYLOAD_TOO_LARGE'' then Problem_reply 413 e
                              else Problem_reply 422 ''INVALID_FAULT_RULE'')), gc)
              | Inr v \<Rightarrow>
                  (case setRule v gc of
                     (Inl e, gc') \<Rightarrow> (Inr (Some (Problem_reply 422 ''INVALID_FAULT_RULE'')), gc')
                   | (Inr r, gc') \<Rightarrow> (Inr (Some (Created_reply (fr_id r))), gc')))
        else if cq_method q = ''DELETE'' \<and> cq_path q = control_prefix @ ''rules''
        then (Inr (Some Done_reply), clearRules gc)
        else if cq_method q = ''POST'' \<and> cq_path q = control_prefix @ ''reset''
        then (Inr (Some Done_reply), reset_control gc)
        else (Inr (Some (Problem_reply 404 ''NOT_FOUND'')), gc))"

section \<open>The laws of the book of rules\<close>

lemma positiveInteger_Inr: "positiveInteger v d name = Inr n \<Longrightarrow> 1 \<le> n \<and> n \<le> 10000"
  by (auto simp: positiveInteger_def split: jsval.splits jsnum.splits if_splits)

text \<open>What an accepted rule guarantees to the proxy.\<close>

definition rule_valid :: "fault_rule \<Rightarrow> bool" where
  "rule_valid r \<longleftrightarrow>
     1 \<le> fr_count r \<and> fr_count r \<le> 10000 \<and>
     (fr_action r = Fa_duplicate \<longrightarrow> fr_phase r = Before_forward \<and> is_ok (positiveInteger (fr_duplicateCount r) 1 ''Duplicate count'')) \<and>
     (fr_action r = Fa_reorder \<longrightarrow> fr_phase r = Before_forward) \<and>
     (fr_action r = Fa_status \<longrightarrow> integer_within (fr_statusCode r) 100 599) \<and>
     (fr_action r \<in> {Fa_stale_response, Fa_truncate} \<longrightarrow> fr_phase r = After_downstream_response) \<and>
     (fr_action r = Fa_truncate \<longrightarrow> integer_within (fr_truncateBytes r) 0 65536)"

lemma validateRule_Inr:
  assumes "validateRule ident input = Inr r"
  shows "fr_id r = ident" and "rule_valid r"
proof -
  from assms have "fr_id r = ident \<and> rule_valid r"
    unfolding validateRule_def Let_def
  proof (elim rbindE option_throwE, goal_cases)
    case (1 u1 u2 u3 u4 phase act n u5 u6 u7 dup u8 u9 u10 u11 u12 u13 empty u14 u15 u16 u17)
    from 1(23) have r: "fr_id r = ident" "fr_count r = n" "fr_phase r = phase" "fr_action r = act"
      "fr_duplicateCount r = js_get input ''duplicateCount''" "fr_statusCode r = js_get input ''statusCode''"
      "fr_truncateBytes r = js_get input ''truncateBytes''" by auto
    show ?case
      unfolding rule_valid_def r
      using positiveInteger_Inr [OF 1(7)] 1(11-17) by (auto simp: ensure_eq_Inr is_ok_iff)
  qed
  then show "fr_id r = ident" and "rule_valid r" by auto
qed

lemma apply_first_spends:
  assumes "apply_first pf phase md as = Inr (r, as')"
  obtains fs where "spendable fs as" and "as' = spend fs as"
    and "marked fs as = (case r of None \<Rightarrow> [] | Some x \<Rightarrow> [x])"
  using assms
proof (induction as arbitrary: r as' thesis)
  case Nil
  then show ?case by (auto intro: Nil(1) [of "[]"])
next
  case (Cons a as)
  show ?case
  proof (cases "rs_remaining a > 0 \<and> ruleMatches pf (rs_rule a) phase md = Inr True")
    case True
    have none: "marked (True # []) (a # as) = [rs_rule a]" "spend (True # []) (a # as) = spend_one a # as"
      by (cases as; simp)+
    show ?thesis
      by (rule Cons.prems(1) [of "[True]"]) (use True Cons.prems(2) none in \<open>auto simp: spend_one_def\<close>)
  next
    case False
    then obtain bs where bs: "apply_first pf phase md as = Inr (r, bs)" "as' = a # bs"
      using Cons.prems(2) by (auto simp: rbind_eq_Inr split: if_splits)
    obtain fs where "spendable fs as" "bs = spend fs as"
      "marked fs as = (case r of None \<Rightarrow> [] | Some x \<Rightarrow> [x])"
      using Cons.IH [OF _ bs(1)] by blast
    then show ?thesis
      using bs(2) by (intro Cons.prems(1) [of "False # fs"]) auto
  qed
qed

datatype control_op =
    Op_setRule jsval
  | Op_clearRules
  | Op_reset
  | Op_begin request_metadata
  | Op_take fault_phase request_metadata
  | Op_forward int
  | Op_response
  | Op_action fault_action int

text \<open>One operation of the control, with the rules it applied.\<close>

fun control_step :: "platform \<Rightarrow> control_op \<Rightarrow> gateway_control \<Rightarrow> fault_rule list \<times> gateway_control" where
  "control_step pf (Op_setRule v) gc = ([], snd (setRule v gc))"
| "control_step pf Op_clearRules gc = ([], clearRules gc)"
| "control_step pf Op_reset gc = ([], reset_control gc)"
| "control_step pf (Op_begin md) gc = ([], snd (begin_request md gc))"
| "control_step pf (Op_take phase md) gc =
     (case take_fault pf phase md gc of (Inr (Some r), gc') \<Rightarrow> ([r], gc') | (_, gc') \<Rightarrow> ([], gc'))"
| "control_step pf (Op_forward n) gc = ([], recordForward n gc)"
| "control_step pf Op_response gc = ([], recordResponse gc)"
| "control_step pf (Op_action act extra) gc = ([], recordAction act extra gc)"

lemmas control_defs = setRule_def clearRules_def reset_control_def begin_request_def take_fault_def
  recordForward_def recordResponse_def recordAction_def

lemma inj_http_rule_name: "inj http_rule_name"
  by (auto simp: inj_def http_rule_name_def decimal_text_inject)

interpretation http: fault_book gc_rules fr_id fr_count gc_sequence http_rule_name 10000 "control_step pf" for pf
proof
  show "inj http_rule_name" by (rule inj_http_rule_name)
  fix s i
  show "book_change fr_id fr_count http_rule_name 10000 (gc_sequence s) (gc_sequence (snd (control_step pf i s)))
    (fst (control_step pf i s)) (gc_rules s) (gc_rules (snd (control_step pf i s)))"
  proof (cases i)
    case (Op_setRule v)
    show ?thesis
    proof (cases "validateRule (http_rule_name (gc_sequence s + 1)) v")
      case (Inl e)
      then show ?thesis
        using Op_setRule by (auto simp: setRule_def Let_def intro: book_change.intros)
    next
      case (Inr r)
      then have "fr_id r = http_rule_name (gc_sequence s + 1)" "1 \<le> fr_count r" "fr_count r \<le> 10000"
        using validateRule_Inr [OF Inr] by (auto simp: rule_valid_def)
      then show ?thesis
        using Op_setRule Inr book_change.add [of "gc_sequence s" "gc_sequence s + 1" fr_id r http_rule_name fr_count 10000 "gc_rules s"]
        by (simp add: setRule_def Let_def fresh_state_def)
    qed
  next
    case (Op_take phase md)
    show ?thesis
    proof (cases "apply_first pf phase md (gc_rules s)")
      case (Inl e)
      then show ?thesis
        using Op_take by (auto simp: take_fault_def intro: book_change.intros)
    next
      case (Inr p)
      then obtain r as where p: "apply_first pf phase md (gc_rules s) = Inr (r, as)"
        by (cases p) auto
      from apply_first_spends [OF p] obtain fs where fs: "spendable fs (gc_rules s)" "as = spend fs (gc_rules s)"
        "marked fs (gc_rules s) = (case r of None \<Rightarrow> [] | Some x \<Rightarrow> [x])" by metis
      then show ?thesis
        using Op_take p book_change.spent [OF fs(1), of fr_id fr_count http_rule_name 10000 "gc_sequence s"]
        by (cases r) (simp_all add: take_fault_def)
    qed
  qed (auto simp: control_defs Let_def intro: book_change.intros)
qed

text \<open>A control request acts on the control by one of its operations, or not at all.\<close>

lemma handleControlRequest_step:
  "snd (handleControlRequest pf q gc) \<in> {gc, clearRules gc, reset_control gc} \<union> range (\<lambda>v. snd (setRule v gc))"
    (is "_ \<in> ?S")
proof -
  have created: "snd (case decodeRule pf (cq_body q) of
      Inl e \<Rightarrow> (f e, gc) | Inr v \<Rightarrow> (case setRule v gc of (Inl e, gc') \<Rightarrow> (g e, gc') | (Inr r, gc') \<Rightarrow> (h r, gc'))) \<in> ?S" for f g h
    by (auto split: sum.splits prod.splits simp: image_iff) (metis snd_conv)+
  show ?thesis
    unfolding handleControlRequest_def
    by (simp only: if_distrib [of snd] snd_conv option.case_distrib [of snd])
      (cases "cq_token q"; simp only: option.case split: if_split; intro conjI impI; (rule created | simp))
qed

end
