(* ===== verification/Http_Gateway.thy ===== *)
theory Http_Gateway
  imports Http_Faults
begin

text \<open>
  The proxy of the HTTP fault gateway: \<open>apps/http-fault-gateway/src/proxy.ts\<close>.

  Requests are handled concurrently. The handler of one request is cut at its awaits: between two of them
  it is a \<open>stage\<close> that says what it waits for and what it has in hand, and a \<open>gateway_event\<close> resumes it.
  Any sequence of events is a schedule; an event for a request that does not wait for it does nothing. A
  resumption may come at any time after its await, so a delay of any length and the plain hand-over to the
  next microtask are the same event \<open>Resume\<close>.

  \<open>gs_log\<close> notes what happens, in order, for the theorems; the code has no such field. The network is in
  the events (\<open>Fetched\<close>), and \<open>new URL(text, base)\<close>, \<open>JSON.parse\<close> of a body read as UTF-8 and the
  functions of the record \<open>platform\<close> are parameters.
\<close>

section \<open>Messages\<close>

record gateway_api =
  ga_platform :: platform
  ga_resolve :: "string \<Rightarrow> (string \<times> string) option"
  ga_parse_body :: "nat list \<Rightarrow> jsval option"

record gateway_config =
  cf_downstream :: url
  cf_bodyLimit :: int
  cf_requestTimeoutMs :: int
  cf_controlToken :: "string option"

record incoming_request =
  iq_method :: "string option"
  iq_url :: "string option"
  iq_headers :: jsval

record downstream_result =
  dn_status :: int
  dn_headers :: "(string, string) jsmap"
  dn_body :: "nat list"

text \<open>A response as \<open>fetch\<close> gives it: the chunks of its body, and whether reading them to the end succeeds.\<close>

record downstream_response =
  rp_status :: int
  rp_headers :: "(string, string) jsmap"
  rp_body :: "(nat list list \<times> bool) option"

record fetch_call =
  fc_host :: string
  fc_pathname :: string
  fc_search :: string
  fc_method :: string
  fc_headers :: "(string, string) jsmap"
  fc_body :: "nat list option"

datatype upstream_reply =
    Destroyed
  | Injected jsval string
  | Controlled control_reply
  | Passed int "(string, string) jsmap" "nat list"
  | Failed int

definition validateLimit :: "jsval \<Rightarrow> string + int" where
  "validateLimit v = (case v of
     JNum (JInt i) \<Rightarrow> if \<not> safe_int i \<or> i < 1 \<or> i > 10485760 then Inl ''Gateway body limit'' else Inr i
   | _ \<Rightarrow> Inl ''Gateway body limit'')"

definition validateTimeout :: "jsval \<Rightarrow> string + int" where
  "validateTimeout v = (case v of
     JNum (JInt i) \<Rightarrow> if \<not> safe_int i \<or> i < 1 \<or> i > 300000 then Inl ''Gateway timeout'' else Inr i
   | _ \<Rightarrow> Inl ''Gateway timeout'')"

text \<open>The options of the constructor: the downstream URL, the limits (undefined when absent) and the token.\<close>

definition new_gateway_config :: "url_api \<Rightarrow> string \<Rightarrow> jsval \<Rightarrow> jsval \<Rightarrow> string option \<Rightarrow> string + gateway_config" where
  "new_gateway_config api downstream bodyLimit timeoutMs token =
     (case url_new api downstream of
        None \<Rightarrow> Inl ''TypeError''
      | Some u \<Rightarrow>
          rbind (ensure (\<not> (u_protocol u \<noteq> ''http:'' \<and> u_protocol u \<noteq> ''https:''))
                   ''Gateway downstream must be HTTP or HTTPS'') (\<lambda>_.
          rbind (validateLimit (coalesce bodyLimit (js_int 65536))) (\<lambda>limit.
          rbind (validateTimeout (coalesce timeoutMs (js_int 10000))) (\<lambda>ms.
          Inr \<lparr>cf_downstream = u, cf_bodyLimit = limit, cf_requestTimeoutMs = ms, cf_controlToken = token\<rparr>))))"

section \<open>Reading\<close>

text \<open>The loop of \<open>readRequest\<close> and \<open>readResponse\<close>: \<open>sofar\<close> bytes are read.\<close>

fun read_limited :: "string \<Rightarrow> int \<Rightarrow> int \<Rightarrow> nat list list \<Rightarrow> bool \<Rightarrow> string + nat list" where
  "read_limited code limit sofar [] finished = (if finished then Inr [] else Inl ''aborted'')"
| "read_limited code limit sofar (chunk # chunks) finished =
     (let sofar' = sofar + int (length chunk) in
      if sofar' > limit then Inl code
      else rbind (read_limited code limit sofar' chunks finished) (\<lambda>rest. Inr (chunk @ rest)))"

definition readRequest :: "nat list list \<Rightarrow> bool \<Rightarrow> int \<Rightarrow> string + nat list" where
  "readRequest chunks finished limit = read_limited ''REQUEST_TOO_LARGE'' limit 0 chunks finished"

definition max_response_bytes :: int where
  "max_response_bytes = 65536"

definition readResponse :: "downstream_response \<Rightarrow> string + nat list" where
  "readResponse r = (case rp_body r of
     None \<Rightarrow> Inr []
   | Some (chunks, finished) \<Rightarrow> read_limited ''DOWNSTREAM_RESPONSE_TOO_LARGE'' max_response_bytes 0 chunks finished)"

definition deliveryIdHash :: "gateway_api \<Rightarrow> nat list \<Rightarrow> string option" where
  "deliveryIdHash ga body = (case ga_parse_body ga body of
     None \<Rightarrow> None
   | Some v \<Rightarrow>
       let d = js_get v ''delivery'' in
       if js_has v ''delivery'' \<and> js_has d ''id'' then
         (case js_get d ''id'' of
            JStr s \<Rightarrow> Some (pf_sha256 (ga_platform ga) (pf_utf8_encode (ga_platform ga) s))
          | _ \<Rightarrow> None)
       else None)"

text \<open>The pattern \<open>^p(?:/|$)\<close>.\<close>

definition below :: "string \<Rightarrow> string \<Rightarrow> bool" where
  "below p path \<longleftrightarrow> path = p \<or> is_prefix (p @ ''/'') path"

definition cashuEndpointFamily :: "string \<Rightarrow> endpoint_family option" where
  "cashuEndpointFamily path =
     (if below ''/v1/mint/quote'' path \<or> below ''/v1/melt/quote'' path then Some Fam_quote
      else if below ''/v1/mint'' path then Some Fam_mint
      else if below ''/v1/swap'' path then Some Fam_swap
      else if below ''/v1/melt'' path then Some Fam_melt
      else if below ''/v1/checkstate'' path then Some Fam_proof_state
      else if below ''/v1/restore'' path then Some Fam_restore
      else None)"

text \<open>A path of the form quote prefix, one segment, one segment loses its last segment, the quote id.\<close>

definition evidencePath :: "string \<Rightarrow> string" where
  "evidencePath path =
     (case find (\<lambda>p. is_prefix p path) [''/v1/mint/quote/'', ''/v1/melt/quote/''] of
        None \<Rightarrow> path
      | Some p \<Rightarrow>
          let rest = drop (length p) path;
              seg = takeWhile (\<lambda>c. c \<noteq> CHR ''/'') rest;
              final = drop (length seg + 1) rest
          in if seg \<noteq> [] \<and> final \<noteq> [] \<and> CHR ''/'' \<notin> set final then p @ seg @ ''/:quote_id'' else path)"

section \<open>Forwarding\<close>

definition strip_slash :: "string \<Rightarrow> string" where
  "strip_slash p = (if p \<noteq> [] \<and> last p = CHR ''/'' then butlast p else p)"

text \<open>The target keeps the origin of the downstream URL; path and query are those of the request.\<close>

definition downstreamUrl :: "url \<Rightarrow> string \<times> string \<Rightarrow> string \<times> string \<times> string" where
  "downstreamUrl base incoming =
     (u_host base, (if u_pathname base = ''/'' then [] else strip_slash (u_pathname base)) @ fst incoming, snd incoming)"

definition forwardedHeaders :: "jsval \<Rightarrow> (string, string) jsmap" where
  "forwardedHeaders headers =
     concat (map (\<lambda>name. case js_get headers name of JStr v \<Rightarrow> [(name, v)] | _ \<Rightarrow> []) [''accept'', ''content-type''])"

definition responseHeaders :: "(string, string) jsmap \<Rightarrow> (string, string) jsmap" where
  "responseHeaders headers =
     foldl (\<lambda>m (name, v).
       if name \<in> {''connection'', ''content-encoding'', ''content-length'', ''transfer-encoding''} then m
       else mp_set m name v) [] headers"

section \<open>The state of the gateway\<close>

record handling =
  hd_request :: incoming_request
  hd_body :: "nat list"
  hd_method :: string
  hd_rawPath :: string
  hd_search :: string
  hd_metadata :: request_metadata
  hd_second :: "nat option"

text \<open>What the handler of a request waits for.\<close>

datatype stage =
    Reading incoming_request
  | Delayed handling int
  | Waiting handling bool
  | Fetching handling
  | Committed handling "downstream_response list"
  | Answering handling downstream_result

datatype gateway_fact =
    Was_reset
  | Begun nat request_metadata
  | Applied nat fault_rule
  | Sent nat fetch_call
  | Received nat string downstream_result
  | Replied nat upstream_reply

record gateway_state =
  gs_control :: gateway_control
  gs_reorder :: "(string, nat) jsmap"
  gs_timers :: "(nat, string) jsmap"
  gs_responseCache :: "(string, downstream_result) jsmap"
  gs_controlGeneration :: nat
  gs_stages :: "(nat, stage) jsmap"
  gs_log :: "gateway_fact list"

definition new_gateway :: gateway_state where
  "new_gateway = \<lparr>gs_control = new_control, gs_reorder = [], gs_timers = [], gs_responseCache = [],
     gs_controlGeneration = 0, gs_stages = [], gs_log = []\<rparr>"

definition on_control :: "(gateway_control \<Rightarrow> gateway_control) \<Rightarrow> gateway_state \<Rightarrow> gateway_state" where
  "on_control f s = s\<lparr>gs_control := f (gs_control s)\<rparr>"

definition note_fact :: "gateway_fact \<Rightarrow> gateway_state \<Rightarrow> gateway_state" where
  "note_fact x s = s\<lparr>gs_log := gs_log s @ [x]\<rparr>"

definition goto :: "nat \<Rightarrow> stage \<Rightarrow> gateway_state \<Rightarrow> gateway_state" where
  "goto n st s = s\<lparr>gs_stages := mp_set (gs_stages s) n st\<rparr>"

text \<open>The handler returns after the reply.\<close>

definition reply :: "nat \<Rightarrow> upstream_reply \<Rightarrow> gateway_state \<Rightarrow> gateway_state" where
  "reply n r s = note_fact (Replied n r) (s\<lparr>gs_stages := mp_delete (gs_stages s) n\<rparr>)"

text \<open>The handler threw.\<close>

definition fail :: "nat \<Rightarrow> string \<Rightarrow> gateway_state \<Rightarrow> gateway_state" where
  "fail n e = reply n (Failed (if e = ''REQUEST_TOO_LARGE'' then 413 else 502))"

text \<open>\<open>clearTimeout(waiter.timeout); waiter.release()\<close>\<close>

definition release :: "nat \<Rightarrow> gateway_state \<Rightarrow> gateway_state" where
  "release m s = (case map_of (gs_stages s) m of
     Some (Waiting h _) \<Rightarrow> goto m (Waiting h True) s
   | _ \<Rightarrow> s)"

definition clear_and_release :: "nat option \<Rightarrow> gateway_state \<Rightarrow> gateway_state" where
  "clear_and_release w s = (case w of
     None \<Rightarrow> s
   | Some m \<Rightarrow> release m (s\<lparr>gs_timers := mp_delete (gs_timers s) m\<rparr>))"

section \<open>The handler\<close>

definition duplicate_count :: "fault_rule \<Rightarrow> int \<Rightarrow> int" where
  "duplicate_count r fallback = (case coalesce (fr_duplicateCount r) (js_int fallback) of JNum (JInt i) \<Rightarrow> i | _ \<Rightarrow> 0)"

definition applyBefore :: "nat \<Rightarrow> handling \<Rightarrow> fault_rule option \<Rightarrow> gateway_state \<Rightarrow> gateway_state" where
  "applyBefore n h rule s =
     (case rule of
        None \<Rightarrow> goto n (Delayed h 1) s
      | Some r \<Rightarrow>
         (let s = on_control (recordAction (fr_action r) (duplicate_count r 0)) (note_fact (Applied n r) s) in
          case fr_action r of
            Fa_drop \<Rightarrow> reply n Destroyed s
          | Fa_status \<Rightarrow> reply n (Injected (fr_statusCode r) (fr_id r)) s
          | Fa_delay \<Rightarrow> goto n (Delayed h 1) s
          | Fa_duplicate \<Rightarrow> goto n (Delayed h (1 + duplicate_count r 1)) s
          | Fa_reorder \<Rightarrow>
              (case map_of (gs_reorder s) (fr_id r) of
                 Some m \<Rightarrow>
                   goto n (Delayed (h\<lparr>hd_second := Some m\<rparr>) 1) (s\<lparr>gs_reorder := mp_delete (gs_reorder s) (fr_id r)\<rparr>)
               | None \<Rightarrow>
                   goto n (Waiting h False)
                     (s\<lparr>gs_reorder := mp_set (gs_reorder s) (fr_id r) n, gs_timers := mp_set (gs_timers s) n (fr_id r)\<rparr>))
          | _ \<Rightarrow> goto n (Delayed h 1) s))"

text \<open>The timer of a waiting request: it removes whatever waits under its rule.\<close>

definition reorder_timeout :: "nat \<Rightarrow> gateway_state \<Rightarrow> gateway_state" where
  "reorder_timeout n s =
     (case map_of (gs_timers s) n of
        None \<Rightarrow> s
      | Some rid \<Rightarrow>
          release n (s\<lparr>gs_reorder := mp_delete (gs_reorder s) rid, gs_timers := mp_delete (gs_timers s) n\<rparr>))"

definition dispatch_call :: "gateway_config \<Rightarrow> handling \<Rightarrow> fetch_call" where
  "dispatch_call cf h =
     (let (host, path, search) = downstreamUrl (cf_downstream cf) (hd_rawPath h, hd_search h); m = iq_method (hd_request h) in
      \<lparr>fc_host = host, fc_pathname = path, fc_search = search,
       fc_method = (case m of None \<Rightarrow> ''GET'' | Some x \<Rightarrow> x),
       fc_headers = forwardedHeaders (iq_headers (hd_request h)),
       fc_body = (if hd_body h = [] \<or> m = Some ''GET'' \<or> m = Some ''HEAD'' then None else Some (hd_body h))\<rparr>)"

definition dispatch :: "gateway_config \<Rightarrow> nat \<Rightarrow> handling \<Rightarrow> int \<Rightarrow> gateway_state \<Rightarrow> gateway_state" where
  "dispatch cf n h copies s =
     goto n (Fetching h)
       (fold note_fact (replicate (nat copies) (Sent n (dispatch_call cf h))) (on_control (recordForward copies) s))"

text \<open>All bodies are read, the first is used.\<close>

definition consume :: "downstream_response list \<Rightarrow> string + downstream_result" where
  "consume rs = (case rs of
     [] \<Rightarrow> Inl ''TypeError''
   | r # rest \<Rightarrow>
       rbind (readResponse r) (\<lambda>body.
       rbind (traverse readResponse rest) (\<lambda>_.
       Inr \<lparr>dn_status = rp_status r, dn_headers = rp_headers r, dn_body = body\<rparr>)))"

definition applyAfterCommit :: "nat \<Rightarrow> handling \<Rightarrow> downstream_response list \<Rightarrow> fault_rule option \<Rightarrow>
    gateway_state \<Rightarrow> gateway_state" where
  "applyAfterCommit n h responses rule s =
     (case rule of
        None \<Rightarrow> goto n (Committed h responses) s
      | Some r \<Rightarrow>
         (let s = on_control (recordAction (fr_action r) 0) (note_fact (Applied n r) s) in
          case fr_action r of
            Fa_drop \<Rightarrow> clear_and_release (hd_second h) (reply n Destroyed s)
          | Fa_status \<Rightarrow> clear_and_release (hd_second h) (reply n (Injected (fr_statusCode r) (fr_id r)) s)
          | _ \<Rightarrow> goto n (Committed h responses) s))"

definition max_stale_responses :: nat where
  "max_stale_responses = 128"

definition rememberResponse :: "string \<Rightarrow> downstream_result \<Rightarrow>
    (string, downstream_result) jsmap \<Rightarrow> (string, downstream_result) jsmap" where
  "rememberResponse key res cache =
     (let cache = (if map_of cache key = None \<and> length cache = max_stale_responses
                   then (case cache of [] \<Rightarrow> [] | (oldest, _) # _ \<Rightarrow> mp_delete cache oldest) else cache)
      in mp_set cache key res)"

definition truncated :: "fault_rule \<Rightarrow> downstream_result \<Rightarrow> downstream_result" where
  "truncated r res = res\<lparr>dn_body := take (case fr_truncateBytes r of JNum (JInt i) \<Rightarrow> nat i | _ \<Rightarrow> length (dn_body res)) (dn_body res)\<rparr>"

definition applyAfterResponse :: "nat \<Rightarrow> handling \<Rightarrow> downstream_result \<Rightarrow> downstream_result option \<Rightarrow>
    fault_rule option \<Rightarrow> gateway_state \<Rightarrow> gateway_state" where
  "applyAfterResponse n h res stale rule s =
     (case rule of
        None \<Rightarrow> goto n (Answering h res) s
      | Some r \<Rightarrow>
         (let s = on_control (recordAction (fr_action r) 0) (note_fact (Applied n r) s) in
          case fr_action r of
            Fa_drop \<Rightarrow> reply n Destroyed s
          | Fa_status \<Rightarrow> reply n (Injected (fr_statusCode r) (fr_id r)) s
          | Fa_stale_response \<Rightarrow>
              (case stale of None \<Rightarrow> fail n ''STALE_RESPONSE_UNAVAILABLE'' s | Some old \<Rightarrow> goto n (Answering h old) s)
          | Fa_truncate \<Rightarrow> goto n (Answering h (truncated r res)) s
          | _ \<Rightarrow> goto n (Answering h res) s))"

text \<open>\<open>const rule = control.take(phase, metadata)\<close>, then the rest of the handler.\<close>

definition with_fault :: "gateway_api \<Rightarrow> fault_phase \<Rightarrow> nat \<Rightarrow> handling \<Rightarrow>
    (fault_rule option \<Rightarrow> gateway_state \<Rightarrow> gateway_state) \<Rightarrow> gateway_state \<Rightarrow> gateway_state" where
  "with_fault ga phase n h rest s =
     (case take_fault (ga_platform ga) phase (hd_metadata h) (gs_control s) of
        (Inl e, gc) \<Rightarrow> fail n e (s\<lparr>gs_control := gc\<rparr>)
      | (Inr rule, gc) \<Rightarrow> rest rule (s\<lparr>gs_control := gc\<rparr>))"

text \<open>\<open>#handle\<close>, up to reading the body.\<close>

definition handle_arrival :: "nat \<Rightarrow> incoming_request \<Rightarrow> gateway_state \<Rightarrow> gateway_state" where
  "handle_arrival n req s =
     goto n (Reading req)
       (if gs_controlGeneration s \<noteq> gc_generation (gs_control s)
        then s\<lparr>gs_responseCache := [], gs_controlGeneration := gc_generation (gs_control s)\<rparr> else s)"

definition header_text :: "jsval \<Rightarrow> string \<Rightarrow> string option" where
  "header_text headers name = (case js_get headers name of JStr v \<Rightarrow> Some v | _ \<Rightarrow> None)"

text \<open>The request as the control sees it.\<close>

definition describe_request :: "gateway_api \<Rightarrow> incoming_request \<Rightarrow> nat list \<Rightarrow> string \<Rightarrow> request_metadata" where
  "describe_request ga req body rawPath =
     (let operationId = (case header_text (iq_headers req) ''x-cashu-fault-operation-id'' of
            Some v \<Rightarrow> if v = [] then None else Some v | None \<Rightarrow> None) in
      \<lparr>md_method = ascii_upper (case iq_method req of None \<Rightarrow> ''GET'' | Some m \<Rightarrow> m),
       md_path = evidencePath rawPath, md_deliveryIdHash = deliveryIdHash ga body,
       md_operationIdHash = map_option (operationIdHash (ga_platform ga)) operationId,
       md_endpointFamily = cashuEndpointFamily rawPath, md_bodyDigest = pf_sha256 (ga_platform ga) body,
       md_attemptOrdinal = 0\<rparr>)"

text \<open>From the body to the wait of \<open>#applyBefore\<close>. A reset by a control request is noted in the log.\<close>

definition handle_body :: "gateway_api \<Rightarrow> gateway_config \<Rightarrow> nat \<Rightarrow> incoming_request \<Rightarrow> nat list \<Rightarrow>
    gateway_state \<Rightarrow> gateway_state" where
  "handle_body ga cf n req body s =
     (case ga_resolve ga (case iq_url req of None \<Rightarrow> ''/'' | Some u \<Rightarrow> u) of
        None \<Rightarrow> fail n ''TypeError'' s
      | Some (rawPath, search) \<Rightarrow>
         (let md = describe_request ga req body rawPath;
              q = \<lparr>cq_method = md_method md, cq_path = md_path md,
                   cq_authorization = header_text (iq_headers req) ''authorization'', cq_body = body,
                   cq_token = cf_controlToken cf\<rparr> in
          case handleControlRequest (ga_platform ga) q (gs_control s) of
            (Inl e, gc) \<Rightarrow> fail n e (s\<lparr>gs_control := gc\<rparr>)
          | (Inr (Some r), gc) \<Rightarrow>
              reply n (Controlled r)
                ((if gc_generation gc \<noteq> gc_generation (gs_control s) then note_fact Was_reset else id) (s\<lparr>gs_control := gc\<rparr>))
          | (Inr None, gc) \<Rightarrow>
             (let (md, gc) = begin_request md gc;
                  h = \<lparr>hd_request = req, hd_body = body, hd_method = md_method md, hd_rawPath = rawPath,
                       hd_search = search, hd_metadata = md, hd_second = None\<rparr> in
              with_fault ga Before_forward n h (applyBefore n h) (note_fact (Begun n md) (s\<lparr>gs_control := gc\<rparr>)))))"

definition cache_key :: "handling \<Rightarrow> string" where
  "cache_key h = hd_method h @ [CHR 0x00] @ hd_rawPath h @ [CHR 0x00] @
     (case md_operationIdHash (hd_metadata h) of None \<Rightarrow> ''-'' | Some x \<Rightarrow> x)"

text \<open>From the responses of the downstream to the wait of \<open>#applyAfterResponse\<close>.\<close>

definition handle_responses :: "gateway_api \<Rightarrow> nat \<Rightarrow> handling \<Rightarrow> downstream_response list \<Rightarrow>
    gateway_state \<Rightarrow> gateway_state" where
  "handle_responses ga n h responses s =
     (case consume responses of
        Inl e \<Rightarrow> fail n e s
      | Inr res \<Rightarrow>
         (let s = clear_and_release (hd_second h) s;
              key = cache_key h;
              stale = map_of (gs_responseCache s) key;
              s = note_fact (Received n key res) (s\<lparr>gs_responseCache := rememberResponse key res (gs_responseCache s)\<rparr>)
          in with_fault ga After_downstream_response n h (applyAfterResponse n h res stale) s))"

definition handle_answer :: "nat \<Rightarrow> downstream_result \<Rightarrow> gateway_state \<Rightarrow> gateway_state" where
  "handle_answer n res s =
     reply n (Passed (dn_status res) (responseHeaders (dn_headers res)) (dn_body res)) (on_control recordResponse s)"

section \<open>Schedules\<close>

datatype gateway_event =
    Arrive nat incoming_request
  | Body nat "nat list list" bool
  | Resume nat
  | Timer nat
  | Fetched nat "downstream_response list option"

text \<open>A request that arrives gets a number that no other request had.\<close>

fun fact_number :: "gateway_fact \<Rightarrow> nat option" where
  "fact_number Was_reset = None"
| "fact_number (Begun n _) = Some n"
| "fact_number (Applied n _) = Some n"
| "fact_number (Sent n _) = Some n"
| "fact_number (Received n _ _) = Some n"
| "fact_number (Replied n _) = Some n"

definition fresh_number :: "nat \<Rightarrow> gateway_state \<Rightarrow> bool" where
  "fresh_number n s \<longleftrightarrow> map_of (gs_stages s) n = None \<and> list_all (\<lambda>x. fact_number x \<noteq> Some n) (gs_log s)"

fun gateway_step :: "gateway_api \<Rightarrow> gateway_config \<Rightarrow> gateway_event \<Rightarrow> gateway_state \<Rightarrow> gateway_state" where
  "gateway_step ga cf (Arrive n req) s = (if fresh_number n s then handle_arrival n req s else s)"
| "gateway_step ga cf (Body n chunks finished) s =
     (case map_of (gs_stages s) n of
        Some (Reading req) \<Rightarrow>
          (case readRequest chunks finished (cf_bodyLimit cf) of
             Inl e \<Rightarrow> fail n e s | Inr body \<Rightarrow> handle_body ga cf n req body s)
      | _ \<Rightarrow> s)"
| "gateway_step ga cf (Resume n) s =
     (case map_of (gs_stages s) n of
        Some (Delayed h copies) \<Rightarrow> dispatch cf n h copies s
      | Some (Waiting h True) \<Rightarrow> dispatch cf n h 1 s
      | Some (Committed h responses) \<Rightarrow> handle_responses ga n h responses s
      | Some (Answering h res) \<Rightarrow> handle_answer n res s
      | _ \<Rightarrow> s)"
| "gateway_step ga cf (Timer n) s = reorder_timeout n s"
| "gateway_step ga cf (Fetched n responses) s =
     (case map_of (gs_stages s) n of
        Some (Fetching h) \<Rightarrow>
          (case responses of
             None \<Rightarrow> fail n ''fetch'' s
           | Some rs \<Rightarrow> with_fault ga After_downstream_commit n h (applyAfterCommit n h rs) s)
      | _ \<Rightarrow> s)"

definition run_gateway :: "gateway_api \<Rightarrow> gateway_config \<Rightarrow> gateway_event list \<Rightarrow> gateway_state" where
  "run_gateway ga cf es = foldl (\<lambda>s e. gateway_step ga cf e s) new_gateway es"

end
