(* ===== verification/Http_Gateway_Properties.thy ===== *)
theory Http_Gateway_Properties
  imports Http_Gateway
begin

text \<open>
  What the HTTP fault gateway guarantees under every schedule of its requests: its evidence is what
  happened, its rules are applied as often as they were set to, its caches stay bounded, and every answer
  it passes on is one the downstream gave.
\<close>

section \<open>Reading the log\<close>

definition since_reset :: "gateway_fact list \<Rightarrow> gateway_fact list" where
  "since_reset facts = rev (takeWhile (\<lambda>x. x \<noteq> Was_reset) (rev facts))"

lemma since_reset_simps [simp]:
  "since_reset [] = []"
  "since_reset (facts @ [x]) = (if x = Was_reset then [] else since_reset facts @ [x])"
  by (simp_all add: since_reset_def)

fun applied_rule :: "gateway_fact \<Rightarrow> fault_rule list" where
  "applied_rule (Applied n r) = [r]"
| "applied_rule _ = []"

definition applied_rules :: "gateway_fact list \<Rightarrow> fault_rule list" where
  "applied_rules facts = concat (map applied_rule facts)"

lemma applied_rules_simps [simp]:
  "applied_rules [] = []"
  "applied_rules (xs @ ys) = applied_rules xs @ applied_rules ys"
  "applied_rules (x # xs) = applied_rule x @ applied_rules xs"
  by (simp_all add: applied_rules_def)

text \<open>How many facts of a kind there are.\<close>

definition tally :: "(gateway_fact \<Rightarrow> bool) \<Rightarrow> gateway_fact list \<Rightarrow> int" where
  "tally P facts = int (length (filter P facts))"

lemma tally_simps [simp]:
  "tally P [] = 0"
  "tally P (xs @ ys) = tally P xs + tally P ys"
  "tally P (x # xs) = (if P x then 1 else 0) + tally P xs"
  by (simp_all add: tally_def)

fun is_begun :: "gateway_fact \<Rightarrow> bool" where
  "is_begun (Begun _ _) = True" | "is_begun _ = False"

fun is_sent :: "gateway_fact \<Rightarrow> bool" where
  "is_sent (Sent _ _) = True" | "is_sent _ = False"

fun is_passed :: "gateway_fact \<Rightarrow> bool" where
  "is_passed (Replied _ (Passed _ _ _)) = True" | "is_passed _ = False"

fun is_destroyed :: "gateway_fact \<Rightarrow> bool" where
  "is_destroyed (Replied _ Destroyed) = True" | "is_destroyed _ = False"

fun is_injected :: "gateway_fact \<Rightarrow> bool" where
  "is_injected (Replied _ (Injected _ _)) = True" | "is_injected _ = False"

fun applies :: "fault_action \<Rightarrow> gateway_fact \<Rightarrow> bool" where
  "applies act (Applied _ r) \<longleftrightarrow> fr_action r = act"
| "applies act _ \<longleftrightarrow> False"

definition duplicates_noted :: "gateway_fact list \<Rightarrow> int" where
  "duplicates_noted facts =
     sum_list (map (\<lambda>r. if fr_action r = Fa_duplicate then duplicate_count r 0 else 0) (applied_rules facts))"

text \<open>The counters of the evidence are what happened.\<close>

definition counted :: "gateway_fact list \<Rightarrow> gateway_counters \<Rightarrow> bool" where
  "counted facts cs \<longleftrightarrow>
     ct_inbound cs = tally is_begun facts \<and>
     ct_forwarded cs = tally is_sent facts \<and>
     ct_responded cs = tally is_passed facts \<and>
     ct_dropped cs = tally is_destroyed facts \<and>
     ct_statusInjected cs = tally is_injected facts \<and>
     ct_delayed cs = tally (applies Fa_delay) facts \<and>
     ct_reordered cs = tally (applies Fa_reorder) facts \<and>
     ct_staleResponses cs = tally (applies Fa_stale_response) facts \<and>
     ct_truncated cs = tally (applies Fa_truncate) facts \<and>
     ct_duplicates cs = duplicates_noted facts"

text \<open>An answer is genuine: the downstream gave it, in full or cut short, for this request, or it gave it
  for another request with the same method, path and operation.\<close>

definition genuine :: "gateway_fact set \<Rightarrow> nat \<Rightarrow> downstream_result \<Rightarrow> bool" where
  "genuine facts n res \<longleftrightarrow>
     (\<exists>key full. Received n key full \<in> facts \<and>
        ((\<exists>k. res = full\<lparr>dn_body := take k (dn_body full)\<rparr>) \<or> (\<exists>m. Received m key res \<in> facts)))"

fun reply_ok :: "gateway_fact set \<Rightarrow> nat \<Rightarrow> upstream_reply \<Rightarrow> bool" where
  "reply_ok facts n (Passed st hs body) \<longleftrightarrow>
     (\<exists>res. genuine facts n res \<and> st = dn_status res \<and> hs = responseHeaders (dn_headers res) \<and> body = dn_body res)"
| "reply_ok facts n Destroyed \<longleftrightarrow> (\<exists>r. Applied n r \<in> facts \<and> fr_action r = Fa_drop)"
| "reply_ok facts n (Injected code rid) \<longleftrightarrow>
     (\<exists>r. Applied n r \<in> facts \<and> fr_action r = Fa_status \<and> fr_id r = rid \<and> fr_statusCode r = code \<and>
        integer_within code 100 599)"
| "reply_ok facts n (Controlled _) \<longleftrightarrow> True"
| "reply_ok facts n (Failed code) \<longleftrightarrow> code = 413 \<or> code = 502"

text \<open>A rule is applied to a request that it matches.\<close>

definition hits :: "platform \<Rightarrow> gateway_fact set \<Rightarrow> nat \<Rightarrow> fault_rule \<Rightarrow> bool" where
  "hits pf facts n r \<longleftrightarrow> (\<exists>md. Begun n md \<in> facts \<and> ruleMatches pf r (fr_phase r) md = Inr True)"

definition started :: "gateway_fact set \<Rightarrow> nat \<Rightarrow> handling \<Rightarrow> bool" where
  "started facts n h \<longleftrightarrow> Begun n (hd_metadata h) \<in> facts"

fun stage_ok :: "gateway_fact set \<Rightarrow> nat \<Rightarrow> stage \<Rightarrow> bool" where
  "stage_ok facts n (Reading req) \<longleftrightarrow> True"
| "stage_ok facts n (Delayed h copies) \<longleftrightarrow> 1 \<le> copies \<and> started facts n h"
| "stage_ok facts n (Waiting h released) \<longleftrightarrow> started facts n h"
| "stage_ok facts n (Fetching h) \<longleftrightarrow> started facts n h"
| "stage_ok facts n (Committed h rs) \<longleftrightarrow> started facts n h"
| "stage_ok facts n (Answering h res) \<longleftrightarrow> genuine facts n res \<and> started facts n h"

lemma started_simps [simp]: "started facts n (h\<lparr>hd_second := w\<rparr>) \<longleftrightarrow> started facts n h"
  by (simp add: started_def)

lemma started_mono: "started facts n h \<Longrightarrow> facts \<subseteq> facts' \<Longrightarrow> started facts' n h"
  unfolding started_def by blast

lemma started_insert [simp]: "started facts n h \<Longrightarrow> started (insert x facts) n h"
  by (simp add: started_def)

lemma hits_mono: "hits pf facts n r \<Longrightarrow> facts \<subseteq> facts' \<Longrightarrow> hits pf facts' n r"
  unfolding hits_def by blast

lemma genuine_mono: "genuine facts n res \<Longrightarrow> facts \<subseteq> facts' \<Longrightarrow> genuine facts' n res"
  unfolding genuine_def by blast

lemma reply_ok_mono: "reply_ok facts n r \<Longrightarrow> facts \<subseteq> facts' \<Longrightarrow> reply_ok facts' n r"
  by (cases r) (auto intro: genuine_mono)

lemma stage_ok_mono: "stage_ok facts n st \<Longrightarrow> facts \<subseteq> facts' \<Longrightarrow> stage_ok facts' n st"
  by (cases st) (auto intro: genuine_mono started_mono)

section \<open>The invariant\<close>

definition cache_ok :: "gateway_fact set \<Rightarrow> (string, downstream_result) jsmap \<Rightarrow> bool" where
  "cache_ok facts cache \<longleftrightarrow>
     mp_ok cache \<and> length cache \<le> max_stale_responses \<and> (\<forall>(k, res)\<in>set cache. \<exists>m. Received m k res \<in> facts)"

text \<open>\<open>new\<close>: the rules that were taken and are not yet noted as applied.\<close>

definition control_ok :: "gateway_fact list \<Rightarrow> fault_rule list \<Rightarrow> gateway_control \<Rightarrow> bool" where
  "control_ok facts new gc \<longleftrightarrow>
     counted (since_reset facts) (gc_counters gc) \<and>
     book_ok fr_id fr_count http_rule_name 10000 (gc_sequence gc) (applied_rules facts @ new) (gc_rules gc) \<and>
     (\<forall>a\<in>set (gc_rules gc). rule_valid (rs_rule a)) \<and> length (gc_requests gc) \<le> 1024"

definition flow_ok :: "platform \<Rightarrow> gateway_state \<Rightarrow> bool" where
  "flow_ok pf s \<longleftrightarrow>
     (\<forall>n r. Applied n r \<in> set (gs_log s) \<longrightarrow> hits pf (set (gs_log s)) n r) \<and>
     cache_ok (set (gs_log s)) (gs_responseCache s) \<and>
     (\<forall>n st. map_of (gs_stages s) n = Some st \<longrightarrow> stage_ok (set (gs_log s)) n st) \<and>
     (\<forall>n r. Replied n r \<in> set (gs_log s) \<longrightarrow> reply_ok (set (gs_log s)) n r)"

definition gateway_inv :: "platform \<Rightarrow> fault_rule list \<Rightarrow> gateway_state \<Rightarrow> bool" where
  "gateway_inv pf new s \<longleftrightarrow> control_ok (gs_log s) new (gs_control s) \<and> flow_ok pf s"

section \<open>The flow of requests\<close>

lemma field_simps [simp]:
  "gs_control (note_fact x s) = gs_control s" "gs_log (note_fact x s) = gs_log s @ [x]"
  "gs_stages (note_fact x s) = gs_stages s" "gs_responseCache (note_fact x s) = gs_responseCache s"
  "gs_control (on_control f s) = f (gs_control s)" "gs_log (on_control f s) = gs_log s"
  "gs_stages (on_control f s) = gs_stages s" "gs_responseCache (on_control f s) = gs_responseCache s"
  "gs_control (goto n st s) = gs_control s" "gs_log (goto n st s) = gs_log s"
  "gs_stages (goto n st s) = mp_set (gs_stages s) n st" "gs_responseCache (goto n st s) = gs_responseCache s"
  "gs_control (reply n r s) = gs_control s" "gs_log (reply n r s) = gs_log s @ [Replied n r]"
  "gs_stages (reply n r s) = mp_delete (gs_stages s) n" "gs_responseCache (reply n r s) = gs_responseCache s"
  by (simp_all add: note_fact_def on_control_def goto_def reply_def)

lemma clear_and_release_simps [simp]:
  "gs_control (clear_and_release w s) = gs_control s" "gs_log (clear_and_release w s) = gs_log s"
  "gs_responseCache (clear_and_release w s) = gs_responseCache s"
  by (auto simp: clear_and_release_def release_def split: option.splits stage.splits)

lemma flow_ok_release: "flow_ok pf s \<Longrightarrow> flow_ok pf (release m s)"
  by (fastforce simp: flow_ok_def release_def split: option.splits stage.splits)

lemma flow_ok_clear: "flow_ok pf s \<Longrightarrow> flow_ok pf (clear_and_release w s)"
  using flow_ok_release [of pf "s\<lparr>gs_timers := mp_delete (gs_timers s) (the w)\<rparr>" "the w"]
  by (auto simp: clear_and_release_def flow_ok_def split: option.splits)

lemma cache_ok_mono: "cache_ok facts cache \<Longrightarrow> facts \<subseteq> facts' \<Longrightarrow> cache_ok facts' cache"
  unfolding cache_ok_def by blast

lemma flow_ok_note:
  assumes "flow_ok pf s" and "\<And>n r. x = Replied n r \<Longrightarrow> reply_ok (set (gs_log s)) n r"
    and "\<And>n r. x = Applied n r \<Longrightarrow> hits pf (set (gs_log s)) n r"
  shows "flow_ok pf (note_fact x s)"
  using assms unfolding flow_ok_def
  by (auto intro: cache_ok_mono [rotated] stage_ok_mono [rotated] reply_ok_mono [rotated] hits_mono [rotated])

text \<open>The rule the control gave, if any, for a request in some phase.\<close>

definition chosen :: "platform \<Rightarrow> fault_phase \<Rightarrow> handling \<Rightarrow> fault_rule option \<Rightarrow> bool" where
  "chosen pf phase h rule \<longleftrightarrow>
     (\<forall>r. rule = Some r \<longrightarrow> rule_valid r \<and> fr_phase r = phase \<and> ruleMatches pf r phase (hd_metadata h) = Inr True)"

lemma flow_ok_applied:
  assumes "flow_ok pf s" and "chosen pf phase h (Some r)" and "started (set (gs_log s)) n h"
  shows "flow_ok pf (note_fact (Applied n r) s)"
  using assms(1) by (rule flow_ok_note) (use assms(2,3) in \<open>auto simp: chosen_def started_def hits_def\<close>)

lemma flow_ok_goto: "flow_ok pf s \<Longrightarrow> stage_ok (set (gs_log s)) n st \<Longrightarrow> flow_ok pf (goto n st s)"
  by (auto simp: flow_ok_def)

lemma flow_ok_control: "flow_ok pf (on_control f s) \<longleftrightarrow> flow_ok pf s" "flow_ok pf (s\<lparr>gs_control := gc\<rparr>) \<longleftrightarrow> flow_ok pf s"
  "flow_ok pf (s\<lparr>gs_timers := ts\<rparr>) \<longleftrightarrow> flow_ok pf s" "flow_ok pf (s\<lparr>gs_reorder := rs\<rparr>) \<longleftrightarrow> flow_ok pf s"
  "flow_ok pf (s\<lparr>gs_controlGeneration := g\<rparr>) \<longleftrightarrow> flow_ok pf s"
  by (simp_all add: flow_ok_def)

lemma flow_ok_reply: "flow_ok pf s \<Longrightarrow> reply_ok (set (gs_log s)) n r \<Longrightarrow> flow_ok pf (reply n r s)"
  unfolding reply_def by (rule flow_ok_note) (auto simp: flow_ok_def)

lemma flow_ok_fail: "flow_ok pf s \<Longrightarrow> flow_ok pf (fail n e s)"
  unfolding fail_def by (rule flow_ok_reply) simp_all

lemma duplicate_count_valid:
  "rule_valid r \<Longrightarrow> fr_action r = Fa_duplicate \<Longrightarrow> 1 \<le> duplicate_count r 1"
  by (auto simp: rule_valid_def duplicate_count_def positiveInteger_def split: jsval.splits jsnum.splits if_splits)

lemmas flow_rules = flow_ok_goto flow_ok_reply flow_ok_note flow_ok_fail flow_ok_clear

lemma flow_ok_before:
  assumes "flow_ok pf s" and chosen: "chosen pf Before_forward h rule" and start: "started (set (gs_log s)) n h"
  shows "flow_ok pf (applyBefore n h rule s)"
proof (cases rule)
  case None
  then show ?thesis using assms(1) start by (simp add: applyBefore_def flow_ok_goto)
next
  case (Some r)
  let ?s = "on_control (recordAction (fr_action r) (duplicate_count r 0)) (note_fact (Applied n r) s)"
  have s: "flow_ok pf ?s"
    using flow_ok_applied [OF assms(1) chosen [unfolded Some] start] by (simp add: flow_ok_control)
  have "rule_valid r" using chosen Some by (simp add: chosen_def)
  then show ?thesis
    unfolding applyBefore_def Some option.case Let_def
    using s start duplicate_count_valid [of r]
    by (cases "fr_action r"; cases "map_of (gs_reorder ?s) (fr_id r)")
      (auto intro!: flow_ok_goto flow_ok_reply simp: flow_ok_control rule_valid_def)
qed

lemma flow_ok_commit:
  assumes "flow_ok pf s" and chosen: "chosen pf After_downstream_commit h rule" and start: "started (set (gs_log s)) n h"
  shows "flow_ok pf (applyAfterCommit n h rs rule s)"
proof (cases rule)
  case None
  then show ?thesis using assms(1) start by (simp add: applyAfterCommit_def flow_ok_goto)
next
  case (Some r)
  have "flow_ok pf (on_control (recordAction (fr_action r) 0) (note_fact (Applied n r) s))"
    using flow_ok_applied [OF assms(1) chosen [unfolded Some] start] by (simp add: flow_ok_control)
  then show ?thesis
    unfolding applyAfterCommit_def Some option.case Let_def
    using chosen start
    by (cases "fr_action r") (auto intro!: flow_ok_goto flow_ok_reply flow_ok_clear simp: rule_valid_def chosen_def Some)
qed

lemma flow_ok_response:
  assumes "flow_ok pf s" and chosen: "chosen pf After_downstream_response h rule" and start: "started (set (gs_log s)) n h"
    and res: "Received n key res \<in> set (gs_log s)"
    and stale: "\<And>old. stale = Some old \<Longrightarrow> \<exists>m. Received m key old \<in> set (gs_log s)"
  shows "flow_ok pf (applyAfterResponse n h res stale rule s)"
proof -
  have full: "genuine facts n (res\<lparr>dn_body := take k (dn_body res)\<rparr>)" if "set (gs_log s) \<subseteq> facts" for facts k
    using res that unfolding genuine_def by blast
  have same: "genuine facts n res" if "set (gs_log s) \<subseteq> facts" for facts
    using full [OF that, of "length (dn_body res)"] by simp
  have old: "genuine facts n old" if "stale = Some old" "set (gs_log s) \<subseteq> facts" for facts old
    using stale [OF that(1)] res that(2) unfolding genuine_def by blast
  show ?thesis
  proof (cases rule)
    case None
    then show ?thesis using assms(1) same start by (simp add: applyAfterResponse_def flow_ok_goto)
  next
    case (Some r)
    let ?s = "on_control (recordAction (fr_action r) 0) (note_fact (Applied n r) s)"
    have s: "flow_ok pf ?s"
      using flow_ok_applied [OF assms(1) chosen [unfolded Some] start] by (simp add: flow_ok_control)
    have log: "set (gs_log s) \<subseteq> set (gs_log ?s)" by auto
    show ?thesis
      unfolding applyAfterResponse_def Some option.case Let_def
      using s chosen start same [OF log] full [OF log] old [OF _ log]
      by (cases "fr_action r"; cases stale)
        (auto intro!: flow_ok_goto flow_ok_reply flow_ok_fail simp: rule_valid_def chosen_def Some truncated_def)
  qed
qed

lemma cache_ok_remember:
  assumes "cache_ok facts cache" and "Received n key res \<in> facts"
  shows "cache_ok facts (rememberResponse key res cache)"
proof -
  let ?kept = "if map_of cache key = None \<and> length cache = max_stale_responses
    then (case cache of [] \<Rightarrow> [] | (oldest, _) # _ \<Rightarrow> mp_delete cache oldest) else cache"
  have sub: "set ?kept \<subseteq> set cache" and ok: "mp_ok ?kept"
    using assms(1) by (auto simp: cache_ok_def mp_delete_def mp_ok_def distinct_map_filter split: list.splits)
  have len: "length (mp_set ?kept key res) \<le> max_stale_responses"
  proof -
    have keys: "length (mp_set m key res) = (if map_of m key = None then length m + 1 else length m)" for m :: "(string, downstream_result) jsmap"
      by (induction m) auto
    have "length (mp_delete cache (fst (hd cache))) < length cache" if "cache \<noteq> []"
      using that by (cases cache) (simp_all add: mp_delete_def le_imp_less_Suc)
    moreover have "max_stale_responses > 0" by (simp add: max_stale_responses_def)
    ultimately show ?thesis
      using assms(1) by (cases cache) (auto simp: keys cache_ok_def mp_delete_def split: if_splits)
  qed
  have "set (mp_set m key res) \<subseteq> insert (key, res) (set m)" for m :: "(string, downstream_result) jsmap"
    by (induction m) auto
  then have all: "set (mp_set ?kept key res) \<subseteq> insert (key, res) (set cache)"
    using sub by blast
  have "\<forall>(k, v)\<in>insert (key, res) (set cache). \<exists>m. Received m k v \<in> facts"
    using assms unfolding cache_ok_def by auto
  then have "\<forall>(k, v)\<in>set (mp_set ?kept key res). \<exists>m. Received m k v \<in> facts"
    using all by blast
  then show ?thesis
    unfolding cache_ok_def rememberResponse_def Let_def by (intro conjI mp_ok_set [OF ok] len)
qed

section \<open>The control\<close>

definition rule_list :: "fault_rule option \<Rightarrow> fault_rule list" where
  "rule_list rule = (case rule of None \<Rightarrow> [] | Some r \<Rightarrow> [r])"

lemma rule_list_simps [simp]: "rule_list None = []" "rule_list (Some r) = [r]"
  by (simp_all add: rule_list_def)

lemma apply_first_rules:
  assumes "apply_first pf phase md as = Inr (rule, as')"
  shows "rs_rule ` set as' = rs_rule ` set as"
    and "rule = Some r \<Longrightarrow> r \<in> rs_rule ` set as \<and> fr_phase r = phase \<and> ruleMatches pf r phase md = Inr True"
proof -
  from apply_first_spends [OF assms] obtain fs where "as' = spend fs as" by metis
  then show "rs_rule ` set as' = rs_rule ` set as"
    by (metis map_rule_spend list.set_map)
  have phase: "ruleMatches pf r phase md = Inr True \<Longrightarrow> fr_phase r = phase" for r
    by (simp add: ruleMatches_def Let_def split: if_splits)
  show "rule = Some r \<Longrightarrow> r \<in> rs_rule ` set as \<and> fr_phase r = phase \<and> ruleMatches pf r phase md = Inr True"
    using assms
  proof (induction as arbitrary: as')
    case (Cons a as)
    then show ?case
      by (auto simp: rbind_eq_Inr phase split: if_splits)
  qed simp
qed

lemma take_fault_ok:
  assumes ok: "control_ok facts [] gc" and taken: "take_fault pf phase md gc = (Inr rule, gc')"
  shows "control_ok facts (rule_list rule) gc'"
    and "rule = Some r \<Longrightarrow> rule_valid r \<and> fr_phase r = phase \<and> ruleMatches pf r phase md = Inr True"
proof -
  from taken obtain as where as: "apply_first pf phase md (gc_rules gc) = Inr (rule, as)" "gc' = gc\<lparr>gc_rules := as\<rparr>"
    by (auto simp: take_fault_def split: sum.splits)
  have valid: "\<forall>r\<in>rs_rule ` set (gc_rules gc). rule_valid r"
    using ok by (auto simp: control_ok_def)
  then show "rule = Some r \<Longrightarrow> rule_valid r \<and> fr_phase r = phase \<and> ruleMatches pf r phase md = Inr True"
    using apply_first_rules(2) [OF as(1)] by blast
  have "\<forall>r\<in>rs_rule ` set as. rule_valid r"
    using valid apply_first_rules(1) [OF as(1)] by simp
  moreover have "book_ok fr_id fr_count http_rule_name 10000 (gc_sequence gc) (applied_rules facts @ rule_list rule) as"
    using book_change_ok [OF http.step_changes [of "gc" pf "Op_take phase md"], of "applied_rules facts"] ok taken as inj_http_rule_name
    by (cases rule) (simp_all add: control_ok_def)
  ultimately show "control_ok facts (rule_list rule) gc'"
    using ok as(2) by (simp add: control_ok_def)
qed

lemma take_fault_Inl: "take_fault pf phase md gc = (Inl e, gc') \<Longrightarrow> gc' = gc"
  by (auto simp: take_fault_def split: sum.splits prod.splits)

lemma counted_simps:
  assumes "counted facts cs"
  shows "counted (facts @ [Begun n md]) (cs\<lparr>ct_inbound := ct_inbound cs + 1\<rparr>)"
    and "counted (facts @ [Received n key res]) cs"
    and "counted (facts @ [Replied n (Failed c)]) cs"
    and "counted (facts @ [Replied n (Controlled q)]) cs"
    and "counted (facts @ [Replied n (Passed st hs body)]) (cs\<lparr>ct_responded := ct_responded cs + 1\<rparr>)"
    and "counted (facts @ replicate k (Sent n call)) (cs\<lparr>ct_forwarded := ct_forwarded cs + int k\<rparr>)"
    and "fr_action r = Fa_drop \<Longrightarrow> counted (facts @ [Applied n r, Replied n Destroyed]) (count_action (fr_action r) x cs)"
    and "fr_action r = Fa_status \<Longrightarrow> counted (facts @ [Applied n r, Replied n (Injected v rid)]) (count_action (fr_action r) x cs)"
    and "fr_action r \<notin> {Fa_drop, Fa_status} \<Longrightarrow> (fr_action r = Fa_duplicate \<longrightarrow> x = duplicate_count r 0) \<Longrightarrow>
      counted (facts @ [Applied n r]) (count_action (fr_action r) x cs)"
proof -
  have sent: "tally P (replicate k y) = (if P y then int k else 0)" for P y
    by (simp add: tally_def)
  have rules: "applied_rules (replicate k (Sent n call)) = []"
    by (induction k) auto
  show "counted (facts @ replicate k (Sent n call)) (cs\<lparr>ct_forwarded := ct_forwarded cs + int k\<rparr>)"
    using assms by (simp add: counted_def sent rules duplicates_noted_def)
  show "fr_action r \<notin> {Fa_drop, Fa_status} \<Longrightarrow> (fr_action r = Fa_duplicate \<longrightarrow> x = duplicate_count r 0) \<Longrightarrow>
      counted (facts @ [Applied n r]) (count_action (fr_action r) x cs)"
    using assms by (cases "fr_action r") (simp_all add: counted_def duplicates_noted_def)
qed (use assms in \<open>simp_all add: counted_def duplicates_noted_def\<close>)

lemma since_reset_append: "Was_reset \<notin> set ys \<Longrightarrow> since_reset (xs @ ys) = since_reset xs @ ys"
  by (induction ys rule: rev_induct) (auto simp flip: append_assoc)

text \<open>Facts that are not applications, with the counters they change.\<close>

lemma control_ok_facts:
  assumes "control_ok facts new gc" and "Was_reset \<notin> set xs" and "applied_rules xs = []"
    and "counted (since_reset facts @ xs) cs"
  shows "control_ok (facts @ xs) new (gc\<lparr>gc_counters := cs\<rparr>)"
  using assms by (simp add: control_ok_def since_reset_append)

text \<open>An application, with the reply it leads to at once.\<close>

lemma control_ok_applied:
  assumes "control_ok facts [r] gc"
  shows "fr_action r \<notin> {Fa_drop, Fa_status} \<Longrightarrow> (fr_action r = Fa_duplicate \<longrightarrow> x = duplicate_count r 0) \<Longrightarrow>
      control_ok (facts @ [Applied n r]) [] (recordAction (fr_action r) x gc)"
    and "fr_action r = Fa_drop \<Longrightarrow> control_ok (facts @ [Applied n r, Replied n Destroyed]) [] (recordAction (fr_action r) x gc)"
    and "fr_action r = Fa_status \<Longrightarrow>
      control_ok (facts @ [Applied n r, Replied n (Injected v rid)]) [] (recordAction (fr_action r) x gc)"
proof -
  have ok: "control_ok (facts @ Applied n r # xs) [] (recordAction (fr_action r) x gc)"
    if "Was_reset \<notin> set xs" "applied_rules xs = []"
      "counted (since_reset facts @ Applied n r # xs) (count_action (fr_action r) x (gc_counters gc))" for xs
    using assms that by (simp add: control_ok_def recordAction_def since_reset_append)
  have cs: "counted (since_reset facts) (gc_counters gc)"
    using assms by (simp add: control_ok_def)
  show "fr_action r \<notin> {Fa_drop, Fa_status} \<Longrightarrow> (fr_action r = Fa_duplicate \<longrightarrow> x = duplicate_count r 0) \<Longrightarrow>
      control_ok (facts @ [Applied n r]) [] (recordAction (fr_action r) x gc)"
    by (rule ok) (simp_all add: counted_simps(9) [OF cs])
  show "fr_action r = Fa_drop \<Longrightarrow> control_ok (facts @ [Applied n r, Replied n Destroyed]) [] (recordAction (fr_action r) x gc)"
    by (rule ok) (simp, simp, rule counted_simps(7) [OF cs])
  show "fr_action r = Fa_status \<Longrightarrow>
      control_ok (facts @ [Applied n r, Replied n (Injected v rid)]) [] (recordAction (fr_action r) x gc)"
    by (rule ok) (simp, simp, rule counted_simps(8) [OF cs])
qed

lemma inv_before:
  assumes inv: "gateway_inv pf (rule_list rule) s" and chosen: "chosen pf Before_forward h rule"
    and start: "started (set (gs_log s)) n h"
  shows "gateway_inv pf [] (applyBefore n h rule s)"
proof (cases rule)
  case None
  then show ?thesis using inv start by (simp add: gateway_inv_def applyBefore_def flow_ok_goto)
next
  case (Some r)
  have ok: "control_ok (gs_log s) [r] (gs_control s)"
    using inv Some by (simp add: gateway_inv_def)
  have "control_ok (gs_log (applyBefore n h rule s)) [] (gs_control (applyBefore n h rule s))"
    unfolding applyBefore_def Some option.case Let_def
    using control_ok_applied [OF ok, where x = "duplicate_count r 0" and n = n]
    by (cases "fr_action r") (simp_all split: option.split)
  moreover have "flow_ok pf (applyBefore n h rule s)"
    using inv by (intro flow_ok_before [OF _ chosen start]) (simp add: gateway_inv_def)
  ultimately show ?thesis by (simp add: gateway_inv_def)
qed

lemma inv_commit:
  assumes inv: "gateway_inv pf (rule_list rule) s"
    and chosen: "chosen pf After_downstream_commit h rule"
    and start: "started (set (gs_log s)) n h"
  shows "gateway_inv pf [] (applyAfterCommit n h rs rule s)"
proof (cases rule)
  case None
  then show ?thesis using inv start by (simp add: gateway_inv_def applyAfterCommit_def flow_ok_goto)
next
  case (Some r)
  have ok: "control_ok (gs_log s) [r] (gs_control s)"
    using inv Some by (simp add: gateway_inv_def)
  have "control_ok (gs_log (applyAfterCommit n h rs rule s)) [] (gs_control (applyAfterCommit n h rs rule s))"
    unfolding applyAfterCommit_def Some option.case Let_def
    using control_ok_applied [OF ok, where x = 0 and n = n] chosen
    by - (cases "fr_action r"; auto simp: rule_valid_def chosen_def Some)
  moreover have "flow_ok pf (applyAfterCommit n h rs rule s)"
    using inv by (intro flow_ok_commit [OF _ chosen start]) (simp add: gateway_inv_def)
  ultimately show ?thesis by (simp add: gateway_inv_def)
qed

lemma control_ok_fail: "control_ok facts new gc \<Longrightarrow> control_ok (facts @ [Replied n (Failed c)]) new gc"
  using control_ok_facts [of facts new gc "[Replied n (Failed c)]" "gc_counters gc"]
  by (simp add: counted_simps control_ok_def)

lemma inv_response:
  assumes inv: "gateway_inv pf (rule_list rule) s"
    and chosen: "chosen pf After_downstream_response h rule"
    and start: "started (set (gs_log s)) n h"
    and res: "Received n key res \<in> set (gs_log s)"
    and stale: "\<And>old. stale = Some old \<Longrightarrow> \<exists>m. Received m key old \<in> set (gs_log s)"
  shows "gateway_inv pf [] (applyAfterResponse n h res stale rule s)"
proof (cases rule)
  case None
  then show ?thesis
    using inv flow_ok_response [OF _ chosen start res stale] by (simp add: gateway_inv_def applyAfterResponse_def)
next
  case (Some r)
  have ok: "control_ok (gs_log s) [r] (gs_control s)"
    using inv Some by (simp add: gateway_inv_def)
  have fails: "control_ok (gs_log s @ [Applied n r, Replied n (Failed 502)]) [] (recordAction (fr_action r) 0 (gs_control s))"
    if "fr_action r = Fa_stale_response"
    using control_ok_fail [OF control_ok_applied(1) [OF ok, where x = 0 and n = n], of n 502] that by simp
  have "control_ok (gs_log (applyAfterResponse n h res stale rule s)) [] (gs_control (applyAfterResponse n h res stale rule s))"
    unfolding applyAfterResponse_def Some option.case Let_def
    using control_ok_applied [OF ok, where x = 0 and n = n] chosen fails
    by - (cases "fr_action r"; auto simp: rule_valid_def chosen_def Some fail_def split: option.split)
  moreover have "flow_ok pf (applyAfterResponse n h res stale rule s)"
    using inv by (intro flow_ok_response [OF _ chosen start res stale]) (simp_all add: gateway_inv_def)
  ultimately show ?thesis by (simp add: gateway_inv_def)
qed

lemma inv_fail: "gateway_inv pf new s \<Longrightarrow> gateway_inv pf new (fail n e s)"
  using flow_ok_fail [of pf s n e] control_ok_fail [of "gs_log s" new "gs_control s"]
  by (simp add: gateway_inv_def fail_def)

lemma inv_with_fault:
  assumes inv: "gateway_inv (ga_platform ga) [] s"
    and rest: "\<And>rule s'. gateway_inv (ga_platform ga) (rule_list rule) s' \<Longrightarrow> gs_log s' = gs_log s \<Longrightarrow>
      chosen (ga_platform ga) phase h rule \<Longrightarrow> gateway_inv (ga_platform ga) [] (rest rule s')"
  shows "gateway_inv (ga_platform ga) [] (with_fault ga phase n h rest s)"
proof -
  obtain res gc where t: "take_fault (ga_platform ga) phase (hd_metadata h) (gs_control s) = (res, gc)"
    by (cases "take_fault (ga_platform ga) phase (hd_metadata h) (gs_control s)")
  show ?thesis
  proof (cases res)
    case (Inl e)
    then have "gc = gs_control s"
      using take_fault_Inl t by blast
    then show ?thesis
      using t Inl inv by (simp add: with_fault_def inv_fail)
  next
    case (Inr rule)
    have "control_ok (gs_log s) [] (gs_control s)"
      using inv by (simp add: gateway_inv_def)
    note taken = take_fault_ok [OF this t [unfolded Inr]]
    have "gateway_inv (ga_platform ga) (rule_list rule) (s\<lparr>gs_control := gc\<rparr>)"
      using taken(1) inv by (simp add: gateway_inv_def flow_ok_control)
    from rest [OF this] show ?thesis
      using t Inr taken(2) by (simp add: with_fault_def chosen_def)
  qed
qed

section \<open>Every step keeps the invariant\<close>

lemma inv_goto: "gateway_inv pf new s \<Longrightarrow> stage_ok (set (gs_log s)) n st \<Longrightarrow> gateway_inv pf new (goto n st s)"
  by (simp add: gateway_inv_def flow_ok_goto)

lemma inv_release: "gateway_inv pf new s \<Longrightarrow> gateway_inv pf new (clear_and_release w s)"
  by (simp add: gateway_inv_def flow_ok_clear)

lemma inv_timeout: "gateway_inv pf new s \<Longrightarrow> gateway_inv pf new (reorder_timeout n s)"
proof (cases "map_of (gs_timers s) n")
  case (Some rid)
  assume inv: "gateway_inv pf new s"
  let ?s = "s\<lparr>gs_reorder := mp_delete (gs_reorder s) rid, gs_timers := mp_delete (gs_timers s) n\<rparr>"
  have "flow_ok pf ?s"
    using inv by (simp add: gateway_inv_def flow_ok_def)
  moreover have "gs_control (release n ?s) = gs_control s" "gs_log (release n ?s) = gs_log s"
    by (auto simp: release_def split: option.splits stage.splits)
  ultimately show ?thesis
    using inv flow_ok_release [of pf ?s n] by (simp add: reorder_timeout_def Some gateway_inv_def)
qed (simp add: reorder_timeout_def)

lemma inv_dispatch:
  assumes inv: "gateway_inv pf [] s" and copies: "1 \<le> copies" and start: "started (set (gs_log s)) n h"
  shows "gateway_inv pf [] (dispatch cf n h copies s)"
proof -
  let ?xs = "replicate (nat copies) (Sent n (dispatch_call cf h))"
  have fold: "gs_log (fold note_fact xs s) = gs_log s @ xs" "gs_control (fold note_fact xs s) = gs_control s" for xs s
    by (induction xs arbitrary: s) simp_all
  have sent: "flow_ok pf (note_fact (Sent n call) s)" if "flow_ok pf s" for call s
    using that by (rule flow_ok_note) simp_all
  then have flow: "flow_ok pf (fold note_fact (replicate k (Sent n call)) s)" if "flow_ok pf s" for k call s
    using that by (induction k arbitrary: s) simp_all
  have "applied_rules (replicate k (Sent n call)) = []" for k call
    by (induction k) simp_all
  then have "control_ok (gs_log s @ ?xs) [] (recordForward copies (gs_control s))"
    unfolding recordForward_def
    using inv copies counted_simps(6) [of "since_reset (gs_log s)" "gc_counters (gs_control s)" "nat copies" n "dispatch_call cf h"]
    by (intro control_ok_facts) (simp_all add: gateway_inv_def control_ok_def)
  moreover have "flow_ok pf (dispatch cf n h copies s)"
    unfolding dispatch_def using inv started_mono [OF start]
    by (intro flow_ok_goto flow) (simp_all add: flow_ok_control gateway_inv_def fold del: fold_replicate)
  ultimately show ?thesis
    by (simp add: gateway_inv_def dispatch_def fold del: fold_replicate)
qed

lemma inv_answer: "gateway_inv pf [] s \<Longrightarrow> genuine (set (gs_log s)) n res \<Longrightarrow> gateway_inv pf [] (handle_answer n res s)"
  unfolding handle_answer_def gateway_inv_def
  using control_ok_facts [of "gs_log s" "[]" "gs_control s" "[Replied n (Passed (dn_status res) (responseHeaders (dn_headers res)) (dn_body res))]"]
  by (auto intro!: flow_ok_reply simp: flow_ok_control recordResponse_def counted_simps control_ok_def)

lemma inv_responses:
  assumes inv: "gateway_inv (ga_platform ga) [] s"
    and start: "started (set (gs_log s)) n h"
  shows "gateway_inv (ga_platform ga) [] (handle_responses ga n h rs s)"
proof (cases "consume rs")
  case (Inl e)
  then show ?thesis using inv by (simp add: handle_responses_def inv_fail)
next
  case (Inr res)
  let ?s = "clear_and_release (hd_second h) s" and ?key = "cache_key h"
  let ?t = "note_fact (Received n ?key res) (?s\<lparr>gs_responseCache := rememberResponse ?key res (gs_responseCache ?s)\<rparr>)"
  have flow: "flow_ok (ga_platform ga) ?s" and ctl: "control_ok (gs_log s) [] (gs_control s)"
    using inv inv_release by (auto simp: gateway_inv_def flow_ok_clear)
  have "flow_ok (ga_platform ga) (note_fact (Received n ?key res) ?s)"
    by (rule flow_ok_note [OF flow]) simp_all
  then have "flow_ok (ga_platform ga) ?t"
    using cache_ok_remember [of "set (gs_log (note_fact (Received n ?key res) ?s))" "gs_responseCache ?s" n ?key res]
    by (simp add: flow_ok_def)
  moreover have "control_ok (gs_log ?t) [] (gs_control ?t)"
    using control_ok_facts [OF ctl, of "[Received n ?key res]" "gc_counters (gs_control s)"] ctl
    by (simp add: counted_simps control_ok_def)
  ultimately have t: "gateway_inv (ga_platform ga) [] ?t"
    by (simp add: gateway_inv_def)
  have stale: "\<exists>m. Received m ?key old \<in> set (gs_log s)" if "map_of (gs_responseCache s) ?key = Some old" for old
    using flow map_of_SomeD [OF that] by (auto simp: flow_ok_def cache_ok_def)
  have "gateway_inv (ga_platform ga) [] (with_fault ga After_downstream_response n h
      (applyAfterResponse n h res (map_of (gs_responseCache ?s) ?key)) ?t)"
  proof (rule inv_with_fault [OF t])
    fix rule s'
    assume s': "gateway_inv (ga_platform ga) (rule_list rule) s'" "gs_log s' = gs_log ?t"
      and chosen: "chosen (ga_platform ga) After_downstream_response h rule"
    show "gateway_inv (ga_platform ga) [] (applyAfterResponse n h res (map_of (gs_responseCache ?s) ?key) rule s')"
      by (rule inv_response [OF s'(1) chosen, where key = ?key]) (use s'(2) stale start in auto)
  qed
  then show ?thesis
    by (simp add: handle_responses_def Inr Let_def)
qed

definition untouched :: "gateway_control \<Rightarrow> (string + control_reply option) \<times> gateway_control \<Rightarrow> bool" where
  "untouched gc x \<longleftrightarrow> (fst x = Inr None \<or> (\<exists>e. fst x = Inl e) \<longrightarrow> snd x = gc)"

lemma control_request_untouched: "untouched gc (handleControlRequest pf q gc)"
proof -
  have created: "untouched gc (case decodeRule pf (cq_body q) of
      Inl e \<Rightarrow> (Inr (Some (f e)), gc)
    | Inr v \<Rightarrow> (case setRule v gc of (Inl e, gc') \<Rightarrow> (Inr (Some g), gc') | (Inr r, gc') \<Rightarrow> (Inr (Some (h r)), gc')))" for f g h
    by (auto simp: untouched_def split: sum.splits prod.splits)
  show ?thesis
    unfolding handleControlRequest_def
    by (cases "cq_token q"; simp only: option.case split: if_split; intro conjI impI; (rule created | simp add: untouched_def))
qed

lemma control_request_ok:
  assumes ok: "control_ok facts [] gc" and run: "handleControlRequest pf q gc = (res, gc')"
  shows "control_ok (facts @ (if gc_generation gc' \<noteq> gc_generation gc then [Was_reset] else [])) [] gc'"
proof -
  have book: "book_ok fr_id fr_count http_rule_name 10000 (gc_sequence gc) (applied_rules facts) (gc_rules gc)"
    using ok by (simp add: control_ok_def)
  have "gc' \<in> {gc, clearRules gc, reset_control gc} \<union> range (\<lambda>v. snd (setRule v gc))"
    using handleControlRequest_step [of pf q gc] run by simp
  then consider "gc' = gc" | "gc' = clearRules gc" | "gc' = reset_control gc" | v where "gc' = snd (setRule v gc)"
    by auto
  then show ?thesis
  proof cases
    case 1
    then show ?thesis using ok by simp
  next
    case 2
    then show ?thesis
      using ok book_ok_clear [OF book, of "gc_sequence gc" "[]"] by (simp add: control_ok_def clearRules_def)
  next
    case 3
    have "counted [] zero_counters"
      by (simp add: counted_def zero_counters_def duplicates_noted_def)
    then show ?thesis
      using 3 book_ok_clear [OF book, of "gc_sequence gc" "[]"]
      by (simp add: control_ok_def reset_control_def clearRules_def)
  next
    case (4 v)
    let ?n = "gc_sequence gc + 1"
    have "book_ok fr_id fr_count http_rule_name 10000 (gc_sequence gc') (applied_rules facts) (gc_rules gc')"
      using book_change_ok [OF http.step_changes [of gc pf "Op_setRule v"] book inj_http_rule_name] 4 by simp
    moreover have "rule_valid (rs_rule a)" if "a \<in> set (gc_rules gc')" for a
      using that 4 ok validateRule_Inr(2) [of "http_rule_name ?n" v]
      by (cases "validateRule (http_rule_name ?n) v") (auto simp: setRule_def Let_def control_ok_def)
    moreover have "gc_generation gc' = gc_generation gc \<and> gc_counters gc' = gc_counters gc \<and> gc_requests gc' = gc_requests gc"
      using 4 by (cases "validateRule (http_rule_name ?n) v") (simp_all add: setRule_def Let_def)
    ultimately show ?thesis
      using ok by (simp add: control_ok_def)
  qed
qed

lemma control_ok_begin:
  assumes "control_ok facts [] gc" and "begin_request md gc = (md', gc')"
  shows "control_ok (facts @ [Begun n md']) [] gc'"
proof -
  have "length (gc_requests gc') \<le> 1024" "gc_rules gc' = gc_rules gc" "gc_sequence gc' = gc_sequence gc"
    "gc_counters gc' = (gc_counters gc)\<lparr>ct_inbound := ct_inbound (gc_counters gc) + 1\<rparr>"
    using assms by (auto simp: begin_request_def Let_def control_ok_def)
  then show ?thesis
    using assms(1) by (simp add: control_ok_def counted_simps)
qed

lemma inv_controlled: "gateway_inv pf [] s \<Longrightarrow> gateway_inv pf [] (reply n (Controlled r) s)"
  using flow_ok_reply [of pf s n "Controlled r"]
    control_ok_facts [of "gs_log s" "[]" "gs_control s" "[Replied n (Controlled r)]" "gc_counters (gs_control s)"]
  by (simp add: gateway_inv_def counted_simps control_ok_def)

lemma inv_body:
  assumes inv: "gateway_inv (ga_platform ga) [] s"
  shows "gateway_inv (ga_platform ga) [] (handle_body ga cf n req body s)"
proof (cases "ga_resolve ga (case iq_url req of None \<Rightarrow> ''/'' | Some u \<Rightarrow> u)")
  case None
  then show ?thesis using inv by (simp add: handle_body_def inv_fail)
next
  case (Some pq)
  obtain rawPath search where pq: "pq = (rawPath, search)" by (cases pq)
  let ?md = "describe_request ga req body rawPath"
  let ?q = "\<lparr>cq_method = md_method ?md, cq_path = md_path ?md,
     cq_authorization = header_text (iq_headers req) ''authorization'', cq_body = body, cq_token = cf_controlToken cf\<rparr>"
  obtain res gc where hc: "handleControlRequest (ga_platform ga) ?q (gs_control s) = (res, gc)"
    by (cases "handleControlRequest (ga_platform ga) ?q (gs_control s)")
  note defs = handle_body_def Some pq Let_def hc
  have ctl: "control_ok (gs_log s) [] (gs_control s)" and flow: "flow_ok (ga_platform ga) s"
    using inv by (simp_all add: gateway_inv_def)
  consider e where "res = Inl e" | "res = Inr None" | r where "res = Inr (Some r)"
    by (cases res) (auto intro: option.exhaust)
  then show ?thesis
  proof cases
    case 1
    then have "gc = gs_control s"
      using control_request_untouched [of "gs_control s" "ga_platform ga" ?q] hc by (simp add: untouched_def)
    then show ?thesis
      using 1 inv by (simp add: defs inv_fail)
  next
    case 2
    then have gc: "gc = gs_control s"
      using control_request_untouched [of "gs_control s" "ga_platform ga" ?q] hc by (simp add: untouched_def)
    obtain md gc' where md: "begin_request ?md gc = (md, gc')" by (cases "begin_request ?md gc")
    have "flow_ok (ga_platform ga) (note_fact (Begun n md) (s\<lparr>gs_control := gc'\<rparr>))"
      by (rule flow_ok_note) (simp_all add: flow_ok_control flow)
    then have "gateway_inv (ga_platform ga) [] (note_fact (Begun n md) (s\<lparr>gs_control := gc'\<rparr>))"
      using control_ok_begin [OF ctl, of ?md md gc' n] md gc by (simp add: gateway_inv_def)
    then show ?thesis
      by (auto simp: defs 2 md started_def intro!: inv_with_fault inv_before)
  next
    case (3 r)
    let ?s = "(if gc_generation gc \<noteq> gc_generation (gs_control s) then note_fact Was_reset else id) (s\<lparr>gs_control := gc\<rparr>)"
    have "flow_ok (ga_platform ga) (note_fact Was_reset (s\<lparr>gs_control := gc\<rparr>))"
      by (rule flow_ok_note) (simp_all add: flow_ok_control flow)
    then have "gateway_inv (ga_platform ga) [] ?s"
      using flow control_request_ok [OF ctl hc] by (auto simp: gateway_inv_def flow_ok_control)
    then have "gateway_inv (ga_platform ga) [] (reply n (Controlled r) ?s)"
      by (rule inv_controlled)
    then show ?thesis by (simp add: defs 3)
  qed
qed

lemma inv_arrival: "gateway_inv pf [] s \<Longrightarrow> gateway_inv pf [] (handle_arrival n req s)"
  unfolding handle_arrival_def
  by (rule inv_goto) (auto simp: gateway_inv_def flow_ok_def cache_ok_def)

lemma gateway_step_inv:
  assumes inv: "gateway_inv (ga_platform ga) [] s"
  shows "gateway_inv (ga_platform ga) [] (gateway_step ga cf e s)"
proof -
  have stage: "stage_ok (set (gs_log s)) n st" if "map_of (gs_stages s) n = Some st" for n st
    using inv that by (simp add: gateway_inv_def flow_ok_def)
  show ?thesis
  proof (cases e)
    case (Arrive n req)
    then show ?thesis using inv by (simp add: inv_arrival)
  next
    case (Body n chunks finished)
    then show ?thesis using inv by (auto split: option.split stage.split sum.split intro: inv_fail inv_body)
  next
    case (Resume n)
    then show ?thesis
      using inv stage [of n]
      by (auto split: option.split stage.split bool.split intro!: inv_dispatch inv_responses inv_answer)
  next
    case (Timer n)
    then show ?thesis using inv by (simp add: inv_timeout)
  next
    case (Fetched n rs)
    then show ?thesis
      using inv stage [of n] by (auto split: option.split stage.split intro!: inv_fail inv_with_fault inv_commit)
  qed
qed

lemma run_gateway_inv: "gateway_inv (ga_platform ga) [] (run_gateway ga cf es)"
proof (induction es rule: rev_induct)
  case Nil
  show ?case
    by (simp add: run_gateway_def new_gateway_def gateway_inv_def control_ok_def flow_ok_def cache_ok_def new_control_def
        zero_counters_def counted_def duplicates_noted_def book_ok_def mp_ok_def)
next
  case (snoc e es)
  then show ?case by (simp add: run_gateway_def gateway_step_inv)
qed

section \<open>Properties\<close>



text \<open>The evidence of a duplicate fault is the number of extra copies exactly when the rule states a count.\<close>

lemma duplicate_evidence_iff:
  assumes "validateRule ident input = Inr r" and "fr_action r = Fa_duplicate"
  shows "map_of (gs_stages (applyBefore n h (Some r) s)) n = Some (Delayed h copies) \<Longrightarrow>
      (ct_duplicates (gc_counters (gs_control (applyBefore n h (Some r) s))) - ct_duplicates (gc_counters (gs_control s))
        = copies - 1) \<longleftrightarrow> fr_duplicateCount r \<noteq> JUndef \<and> fr_duplicateCount r \<noteq> JNull"
  using duplicate_count_valid [OF validateRule_Inr(2) [OF assms(1)] assms(2)] assms(2)
  by (auto simp: applyBefore_def Let_def recordAction_def duplicate_count_def coalesce_def js_int_def)

section \<open>A run\<close>

text \<open>A rule that cuts the first request to swap: the first such request is cut, the second is answered.\<close>

definition demo_rule :: jsval where
  "demo_rule = JObj [(''phase'', JStr ''before_forward''), (''action'', JStr ''drop''),
     (''match'', JObj [(''path'', JStr ''/v1/swap'')])]"

definition demo_gateway_api :: gateway_api where
  "demo_gateway_api =
     \<lparr>ga_platform = \<lparr>pf_url = \<lparr>url_new = (\<lambda>_. None), url_set_hostname = (\<lambda>u _. u)\<rparr>, pf_cbor = (\<lambda>_. []),
        pf_sha256 = (\<lambda>bs. ''digest''), pf_convert_key = (\<lambda>_. None), pf_utf8_encode = map of_char,
        pf_utf8_decode = (\<lambda>_. Some []), pf_json_stringify = (\<lambda>_. []), pf_json_parse = (\<lambda>_. Some demo_rule)\<rparr>,
      ga_resolve = (\<lambda>u. Some (u, [])), ga_parse_body = (\<lambda>_. None)\<rparr>"

definition demo_gateway_config :: gateway_config where
  "demo_gateway_config =
     \<lparr>cf_downstream = \<lparr>u_protocol = ''http:'', u_username = [], u_password = [], u_hostname = ''mint'', u_host = ''mint'',
        u_pathname = ''/'', u_search = [], u_hash = []\<rparr>,
      cf_bodyLimit = 65536, cf_requestTimeoutMs = 10000, cf_controlToken = Some ''t''\<rparr>"

definition demo_schedule :: "gateway_event list" where
  "demo_schedule =
     (let swap = \<lparr>iq_method = Some ''POST'', iq_url = Some ''/v1/swap'', iq_headers = JObj []\<rparr> in
      [Arrive 0 \<lparr>iq_method = Some ''POST'', iq_url = Some ''/__faults/v1/rules'',
         iq_headers = JObj [(''authorization'', JStr ''Bearer t'')]\<rparr>,
       Body 0 [] True, Arrive 1 swap, Arrive 2 swap, Body 1 [[1]] True, Body 2 [[1]] True, Resume 2,
       Fetched 2 (Some [\<lparr>rp_status = 200, rp_headers = [], rp_body = Some ([[7], [8]], True)\<rparr>]),
       Resume 2, Resume 2])"

lemma demo_gateway_run:
  "let s = run_gateway demo_gateway_api demo_gateway_config demo_schedule in
   map fr_action (applied_rules (gs_log s)) = [Fa_drop] \<and>
   map (\<lambda>a. (rs_remaining a, rs_applied a)) (gc_rules (gs_control s)) = [(0, 1)] \<and>
   Replied 1 Destroyed \<in> set (gs_log s) \<and> Replied 2 (Passed 200 [] [7, 8]) \<in> set (gs_log s)"
  by code_simp



end
