(* ===== verification/Nostr_Faults.thy ===== *)
theory Nostr_Faults
  imports Fault_Budget Js_Values
begin

text \<open>
  The fault rules of the Nostr relay: \<open>apps/nostr-fault-relay/src/rules.ts\<close>. A rule and a history partition
  are set from untyped JSON. The laws of the book of rules are those of the locale \<open>fault_book\<close>.
\<close>

section \<open>Rules and partitions\<close>

datatype nostr_action = Duplicate_publish | Drop_ok | Delay_history | Reorder_history | Disconnect

fun nostr_action_text :: "nostr_action \<Rightarrow> string" where
  "nostr_action_text Duplicate_publish = ''duplicate_publish''"
| "nostr_action_text Drop_ok = ''drop_ok''"
| "nostr_action_text Delay_history = ''delay_history''"
| "nostr_action_text Reorder_history = ''reorder_history''"
| "nostr_action_text Disconnect = ''disconnect''"

definition nostr_actions :: "nostr_action list" where
  "nostr_actions = [Duplicate_publish, Drop_ok, Delay_history, Reorder_history, Disconnect]"

record nostr_rule =
  nr_id :: string
  nr_count :: int
  nr_action :: nostr_action
  nr_occurrence :: jsval
  nr_kind :: jsval
  nr_duplicateCount :: jsval
  nr_delayMs :: jsval

record history_partition =
  hp_eventIds :: "string list"
  hp_kinds :: "int list"
  hp_authors :: "string list"

text \<open>An array whose elements all are texts of 64 lower-case hexadecimal digits, or all are integers from
  0 to 65,535. (A hole is skipped by \<open>every\<close> and becomes undefined when the array is copied; JSON has none.)\<close>

fun hex64_elements :: "jsval option list \<Rightarrow> string list option" where
  "hex64_elements [] = Some []"
| "hex64_elements (Some (JStr s) # vs) = (if hash_pattern s then map_option (Cons s) (hex64_elements vs) else None)"
| "hex64_elements (v # vs) = None"

fun kind_elements :: "jsval option list \<Rightarrow> int list option" where
  "kind_elements [] = Some []"
| "kind_elements (Some (JNum (JInt i)) # vs) =
     (if safe_int i \<and> i \<ge> 0 \<and> i \<le> 65535 then map_option (Cons i) (kind_elements vs) else None)"
| "kind_elements (v # vs) = None"

definition array_or_empty :: "jsval \<Rightarrow> jsval option list option" where
  "array_or_empty v = (case v of JUndef \<Rightarrow> Some [] | JArr vs \<Rightarrow> Some vs | _ \<Rightarrow> None)"

definition validatePartition :: "jsval \<Rightarrow> string + history_partition" where
  "validatePartition input =
     rbind (ensure (isRecord input) ''History partition is invalid'') (\<lambda>_.
     case Option.bind (array_or_empty (js_get input ''eventIds'')) hex64_elements of
       None \<Rightarrow> Inl ''History partition eventIds are invalid''
     | Some ids \<Rightarrow>
     if length ids > 100000 then Inl ''History partition eventIds are invalid'' else
     (case Option.bind (array_or_empty (js_get input ''kinds'')) kind_elements of
       None \<Rightarrow> Inl ''History partition kinds are invalid''
     | Some kinds \<Rightarrow>
     if length kinds > 1024 then Inl ''History partition kinds are invalid'' else
     (case Option.bind (array_or_empty (js_get input ''authors'')) hex64_elements of
       None \<Rightarrow> Inl ''History partition authors are invalid''
     | Some authors \<Rightarrow>
     if length authors > 1024 then Inl ''History partition authors are invalid'' else
     Inr \<lparr>hp_eventIds = ids, hp_kinds = kinds, hp_authors = authors\<rparr>)))"

definition boundedRuleInteger :: "jsval \<Rightarrow> int \<Rightarrow> string \<Rightarrow> int \<Rightarrow> string + int" where
  "boundedRuleInteger v fallback name maximum =
     (case coalesce v (js_int fallback) of
        JNum (JInt i) \<Rightarrow>
          if \<not> safe_int i \<or> i < 1 \<or> i > maximum then Inl (name @ '' must be an integer from 1 to the maximum'') else Inr i
      | _ \<Rightarrow> Inl (name @ '' must be an integer from 1 to the maximum''))"

definition within_range :: "jsval \<Rightarrow> int \<Rightarrow> int \<Rightarrow> bool" where
  "within_range v lo hi \<longleftrightarrow> (case v of JNum (JInt i) \<Rightarrow> safe_int i \<and> lo \<le> i \<and> i \<le> hi | _ \<Rightarrow> False)"

definition validateNostrRule :: "string \<Rightarrow> jsval \<Rightarrow> string + nostr_rule" where
  "validateNostrRule ident input =
     (case find (\<lambda>a. js_get input ''action'' = JStr (nostr_action_text a)) nostr_actions of
        None \<Rightarrow> Inl ''Nostr fault action is invalid''
      | Some act \<Rightarrow>
      rbind (boundedRuleInteger (js_get input ''count'') 1 ''Fault count'' 10000) (\<lambda>n.
      rbind (if js_get input ''occurrence'' = JUndef then Inr 1
             else boundedRuleInteger (js_get input ''occurrence'') 1 ''Fault occurrence'' 10000) (\<lambda>_.
      rbind (ensure (js_get input ''kind'' = JUndef \<or> within_range (js_get input ''kind'') 0 65535)
               ''Nostr fault kind is invalid'') (\<lambda>_.
      rbind (if act = Duplicate_publish
             then boundedRuleInteger (js_get input ''duplicateCount'') 1 ''Duplicate count'' 100
             else if js_get input ''duplicateCount'' \<noteq> JUndef then Inl ''Duplicate count requires duplicate_publish''
             else Inr 1) (\<lambda>_.
      rbind (if act = Delay_history
             then ensure (within_range (js_get input ''delayMs'') 0 300000)
               ''History delay must be an integer from 0 to 300,000 milliseconds''
             else ensure (js_get input ''delayMs'' = JUndef) ''Delay requires delay_history'') (\<lambda>_.
      Inr \<lparr>nr_id = ident, nr_count = n, nr_action = act, nr_occurrence = js_get input ''occurrence'',
        nr_kind = js_get input ''kind'', nr_duplicateCount = js_get input ''duplicateCount'',
        nr_delayMs = js_get input ''delayMs''\<rparr>))))))"

datatype nostr_phase = Publish_phase | History_phase

definition phase_of :: "nostr_action \<Rightarrow> nostr_phase" where
  "phase_of act = (if act = Delay_history \<or> act = Reorder_history then History_phase else Publish_phase)"

section \<open>The control\<close>

record nostr_control =
  nc_rules :: "nostr_rule rule_state list"
  nc_nextId :: nat
  nc_publishAttempts :: int
  nc_historyQueries :: int
  nc_partition :: "history_partition option"

definition new_nostr_control :: nostr_control where
  "new_nostr_control = \<lparr>nc_rules = [], nc_nextId = 1, nc_publishAttempts = 0, nc_historyQueries = 0, nc_partition = None\<rparr>"

definition setPartition :: "jsval \<Rightarrow> nostr_control \<Rightarrow> (string + history_partition) \<times> nostr_control" where
  "setPartition input c = (case validatePartition input of
     Inl e \<Rightarrow> (Inl e, c) | Inr p \<Rightarrow> (Inr p, c\<lparr>nc_partition := Some p\<rparr>))"

definition clearPartition :: "nostr_control \<Rightarrow> nostr_control" where
  "clearPartition c = c\<lparr>nc_partition := None\<rparr>"

definition clear_control :: "nostr_control \<Rightarrow> nostr_control" where
  "clear_control c = c\<lparr>nc_rules := [], nc_partition := None\<rparr>"

text \<open>The number is used up even when the rule is refused.\<close>

definition setNostrRule :: "jsval \<Rightarrow> nostr_control \<Rightarrow> (string + string) \<times> nostr_control" where
  "setNostrRule input c =
     (let ident = ''nostr-rule-'' @ decimal_text (nc_nextId c); c' = c\<lparr>nc_nextId := nc_nextId c + 1\<rparr> in
      case validateNostrRule ident input of
        Inl e \<Rightarrow> (Inl e, c')
      | Inr r \<Rightarrow> (Inr ident, c'\<lparr>nc_rules := nc_rules c' @ [\<lparr>rs_rule = r, rs_remaining = nr_count r, rs_applied = 0\<rparr>]\<rparr>))"

definition takes :: "nostr_phase \<Rightarrow> int \<Rightarrow> jsval \<Rightarrow> nostr_rule rule_state \<Rightarrow> bool" where
  "takes wanted ordinal kind a \<longleftrightarrow>
     \<not> (rs_remaining a < 1 \<or> phase_of (nr_action (rs_rule a)) \<noteq> wanted) \<and>
     \<not> (nr_occurrence (rs_rule a) \<noteq> JUndef \<and> nr_occurrence (rs_rule a) \<noteq> js_int ordinal) \<and>
     \<not> (nr_kind (rs_rule a) \<noteq> JUndef \<and> nr_kind (rs_rule a) \<noteq> kind)"

text \<open>The loop over the rules: what matched, and the rules after it.\<close>

fun take_all :: "nostr_phase \<Rightarrow> int \<Rightarrow> jsval \<Rightarrow> nostr_rule rule_state list \<Rightarrow> nostr_rule list \<times> nostr_rule rule_state list" where
  "take_all wanted ordinal kind [] = ([], [])"
| "take_all wanted ordinal kind (a # as) =
     (let (matched, as') = take_all wanted ordinal kind as in
      if takes wanted ordinal kind a
      then (rs_rule a # matched, a\<lparr>rs_remaining := rs_remaining a - 1, rs_applied := rs_applied a + 1\<rparr> # as')
      else (matched, a # as'))"

definition take_matching :: "nostr_phase \<Rightarrow> int \<Rightarrow> jsval \<Rightarrow> nostr_control \<Rightarrow> nostr_rule list \<times> nostr_control" where
  "take_matching wanted ordinal kind c =
     (let (matched, as) = take_all wanted ordinal kind (nc_rules c) in (matched, c\<lparr>nc_rules := as\<rparr>))"

definition takePublish :: "int \<Rightarrow> nostr_control \<Rightarrow> nostr_rule list \<times> nostr_control" where
  "takePublish kind c =
     (let c = c\<lparr>nc_publishAttempts := nc_publishAttempts c + 1\<rparr> in
      take_matching Publish_phase (nc_publishAttempts c) (js_int kind) c)"

definition takeHistory :: "nostr_control \<Rightarrow> nostr_rule list \<times> nostr_control" where
  "takeHistory c =
     (let c = c\<lparr>nc_historyQueries := nc_historyQueries c + 1\<rparr> in
      take_matching History_phase (nc_historyQueries c) JUndef c)"

record nostr_rule_evidence =
  ne_id :: string
  ne_action :: nostr_action
  ne_remaining :: int
  ne_applied :: int

record nostr_evidence =
  ns_publishAttempts :: int
  ns_historyQueries :: int
  ns_rules :: "nostr_rule_evidence list"
  ns_partition :: "history_partition option"

definition nostr_snapshot :: "nostr_control \<Rightarrow> nostr_evidence" where
  "nostr_snapshot c =
     \<lparr>ns_publishAttempts = nc_publishAttempts c, ns_historyQueries = nc_historyQueries c,
      ns_rules = map (\<lambda>a. \<lparr>ne_id = nr_id (rs_rule a), ne_action = nr_action (rs_rule a),
        ne_remaining = rs_remaining a, ne_applied = rs_applied a\<rparr>) (nc_rules c),
      ns_partition = nc_partition c\<rparr>"

section \<open>The laws of the book of rules\<close>

datatype nostr_op =
    No_setRule jsval
  | No_setPartition jsval
  | No_clearPartition
  | No_clear
  | No_publish int
  | No_history

fun nostr_step :: "nostr_op \<Rightarrow> nostr_control \<Rightarrow> nostr_rule list \<times> nostr_control" where
  "nostr_step (No_setRule v) c = ([], snd (setNostrRule v c))"
| "nostr_step (No_setPartition v) c = ([], snd (setPartition v c))"
| "nostr_step No_clearPartition c = ([], clearPartition c)"
| "nostr_step No_clear c = ([], clear_control c)"
| "nostr_step (No_publish kind) c = takePublish kind c"
| "nostr_step No_history c = takeHistory c"

text \<open>The name of the rule that was set when the counter went to \<open>n\<close>.\<close>

definition nostr_rule_name :: "nat \<Rightarrow> string" where
  "nostr_rule_name n = (if n = 0 then [] else ''nostr-rule-'' @ decimal_text (n - 1))"

lemma inj_nostr_rule_name: "inj nostr_rule_name"
  by (auto simp: inj_def nostr_rule_name_def decimal_text_inject split: if_splits)

lemma validateNostrRule_Inr:
  assumes "validateNostrRule ident input = Inr r"
  shows "nr_id r = ident" and "1 \<le> nr_count r" and "nr_count r \<le> 10000"
proof -
  from assms have "nr_id r = ident \<and> 1 \<le> nr_count r \<and> nr_count r \<le> 10000"
    unfolding validateNostrRule_def
    by (elim rbindE option_throwE) (auto simp: boundedRuleInteger_def split: jsval.splits jsnum.splits if_splits)
  then show "nr_id r = ident" and "1 \<le> nr_count r" and "nr_count r \<le> 10000" by auto
qed

lemma take_all_spends:
  "\<exists>fs. spendable fs as \<and> take_all wanted ordinal kind as = (marked fs as, spend fs as)"
proof (induction as)
  case (Cons a as)
  then obtain fs where "spendable fs as" "take_all wanted ordinal kind as = (marked fs as, spend fs as)" by blast
  then show ?case
    by (intro exI [of _ "takes wanted ordinal kind a # fs"]) (auto simp: takes_def spend_one_def)
qed (auto intro: exI [of _ "[]"])

interpretation nostr: fault_book nc_rules nr_id nr_count nc_nextId nostr_rule_name 10000 nostr_step
proof
  show "inj nostr_rule_name" by (rule inj_nostr_rule_name)
  fix s i
  have taken: "book_change nr_id nr_count nostr_rule_name 10000 n n hits as as'" if "take_all w k d as = (hits, as')"
    for n w k d as hits as'
    using take_all_spends [of as w k d] that by (auto intro: book_change.spent)
  show "book_change nr_id nr_count nostr_rule_name 10000 (nc_nextId s) (nc_nextId (snd (nostr_step i s)))
    (fst (nostr_step i s)) (nc_rules s) (nc_rules (snd (nostr_step i s)))"
  proof (cases i)
    case (No_setRule v)
    let ?ident = "''nostr-rule-'' @ decimal_text (nc_nextId s)"
    show ?thesis
    proof (cases "validateNostrRule ?ident v")
      case (Inl e)
      then show ?thesis
        using No_setRule by (auto simp: setNostrRule_def Let_def intro: book_change.intros)
    next
      case (Inr r)
      then have "nr_id r = nostr_rule_name (nc_nextId s + 1)" "1 \<le> nr_count r" "nr_count r \<le> 10000"
        using validateNostrRule_Inr [OF Inr] by (auto simp: nostr_rule_name_def)
      then show ?thesis
        using No_setRule Inr book_change.add [of "nc_nextId s" "nc_nextId s + 1" nr_id r nostr_rule_name nr_count 10000 "nc_rules s"]
        by (simp add: setNostrRule_def Let_def fresh_state_def)
    qed
  next
    case (No_setPartition v)
    then show ?thesis
      by (cases "validatePartition v") (auto simp: setPartition_def intro: book_change.intros)
  qed (auto simp: clearPartition_def clear_control_def takePublish_def takeHistory_def take_matching_def Let_def
      split: prod.split intro: book_change.keep book_change.clear taken)
qed

section \<open>Properties\<close>

text \<open>A life of the control, with the rules it applied.\<close>

primrec run_nostr :: "nostr_op list \<Rightarrow> nostr_control \<Rightarrow> nostr_rule list \<times> nostr_control" where
  "run_nostr [] c = ([], c)"
| "run_nostr (i # is) c =
     (let (now, c') = nostr_step i c; (later, c'') = run_nostr is c' in (now @ later, c''))"

lemma run_nostr_book: "run_nostr is c = nostr.run_book is c"
  by (induction "is" arbitrary: c) (simp_all add: case_prod_beta Let_def)

lemma nostr_applied_phase:
  "r \<in> set (fst (take_all wanted ordinal kind as)) \<Longrightarrow> phase_of (nr_action r) = wanted"
  by (induction as) (auto simp: case_prod_beta Let_def takes_def split: if_splits)


definition demo_nostr_ops :: "nostr_op list" where
  "demo_nostr_ops =
     [No_setRule (JObj [(''action'', JStr ''drop_ok''), (''count'', js_int 2)]), No_publish 1, No_publish 7375, No_publish 1]"


end
