(* ===== verification/Nostr_Relay.thy ===== *)
theory Nostr_Relay
  imports Nostr_Faults Mint_Url Js_Map "HOL-Library.List_Lexorder" "HOL-Library.Char_ord" "HOL-Library.Product_Lexorder"
    "HOL-Library.Multiset"
begin

text \<open>
  The Nostr relay with fault injection: \<open>apps/nostr-fault-relay/src/relay.ts\<close>.

  Sockets are numbers; what reaches a client is the list \<open>rl_sent\<close>. A message is handled in one go, except
  that a query with a delay fault waits in \<open>rl_pending\<close> until it is resumed. \<open>JSON.parse\<close> is in the events
  (a message that does not parse is \<open>None\<close>), and \<open>verifyEvent\<close> of nostr-tools is the argument \<open>verify\<close>; it
  refuses an event whose fields have the wrong types. The identifiers of events are hexadecimal, on which
  \<open>localeCompare\<close> is the order of texts. Times and kinds of events are integers.
\<close>

section \<open>Events and filters\<close>

record nostr_event =
  nv_id :: string
  nv_pubkey :: string
  nv_created_at :: int
  nv_kind :: int
  nv_tags :: "string list list"
  nv_content :: string
  nv_sig :: string

definition max_filters :: nat where
  "max_filters = 16"

definition max_subscriptions :: nat where
  "max_subscriptions = 64"

definition relay_limit :: "jsval \<Rightarrow> int \<Rightarrow> string + int" where
  "relay_limit v maximum = (case v of
     JNum (JInt i) \<Rightarrow> if \<not> safe_int i \<or> i < 1 \<or> i > maximum then Inl ''limit'' else Inr i
   | _ \<Rightarrow> Inl ''limit'')"

fun text_elements :: "jsval option list \<Rightarrow> string list option" where
  "text_elements [] = Some []"
| "text_elements (Some (JStr s) # vs) = map_option (Cons s) (text_elements vs)"
| "text_elements (v # vs) = None"

fun number_elements :: "jsval option list \<Rightarrow> int list option" where
  "number_elements [] = Some []"
| "number_elements (Some (JNum (JInt i)) # vs) =
     (if safe_int i \<and> i \<ge> 0 then map_option (Cons i) (number_elements vs) else None)"
| "number_elements (v # vs) = None"

definition stringArray :: "jsval \<Rightarrow> string list option" where
  "stringArray v = (case v of JArr vs \<Rightarrow> text_elements vs | _ \<Rightarrow> None)"

definition numberArray :: "jsval \<Rightarrow> int list option" where
  "numberArray v = (case v of JArr vs \<Rightarrow> number_elements vs | _ \<Rightarrow> None)"

definition prefixMatch :: "string \<Rightarrow> string list \<Rightarrow> bool" where
  "prefixMatch value prefixes = list_ex (\<lambda>p. is_prefix p value) prefixes"

definition safe_bound :: "jsval \<Rightarrow> int option" where
  "safe_bound v = (case v of JNum (JInt i) \<Rightarrow> if safe_int i then Some i else None | _ \<Rightarrow> None)"

text \<open>One entry \<open>#x\<close> of a filter: the event has a tag \<open>x\<close> with one of the wanted values.\<close>

definition tag_matches :: "nostr_event \<Rightarrow> string \<times> jsval \<Rightarrow> bool" where
  "tag_matches e entry \<longleftrightarrow>
     (take 1 (fst entry) = ''#'' \<longrightarrow>
       (case stringArray (snd entry) of
          None \<Rightarrow> False
        | Some wanted \<Rightarrow>
            list_ex (\<lambda>tag. length tag \<ge> 2 \<and> tag ! 0 = drop 1 (fst entry) \<and> tag ! 1 \<noteq> [] \<and> tag ! 1 \<in> set wanted)
              (nv_tags e)))"

fun filter_entries :: "jsval \<Rightarrow> (string \<times> jsval) list" where
  "filter_entries (JObj ps) = ps"
| "filter_entries _ = []"

definition matchesFilter :: "nostr_event \<Rightarrow> jsval \<Rightarrow> bool" where
  "matchesFilter e f \<longleftrightarrow>
     (js_get f ''ids'' = JUndef \<or>
        (case stringArray (js_get f ''ids'') of None \<Rightarrow> False | Some ids \<Rightarrow> prefixMatch (nv_id e) ids)) \<and>
     (js_get f ''authors'' = JUndef \<or>
        (case stringArray (js_get f ''authors'') of None \<Rightarrow> False | Some as \<Rightarrow> prefixMatch (nv_pubkey e) as)) \<and>
     (js_get f ''kinds'' = JUndef \<or>
        (case numberArray (js_get f ''kinds'') of None \<Rightarrow> False | Some ks \<Rightarrow> nv_kind e \<in> set ks)) \<and>
     (js_get f ''since'' = JUndef \<or>
        (case safe_bound (js_get f ''since'') of None \<Rightarrow> False | Some t \<Rightarrow> \<not> nv_created_at e < t)) \<and>
     (js_get f ''until'' = JUndef \<or>
        (case safe_bound (js_get f ''until'') of None \<Rightarrow> False | Some t \<Rightarrow> \<not> nv_created_at e > t)) \<and>
     list_all (tag_matches e) (filter_entries f)"

definition parseFilters :: "jsval list \<Rightarrow> string + jsval list" where
  "parseFilters vs =
     (if length vs < 1 \<or> length vs > max_filters \<or> \<not> list_all isRecord vs then Inl ''Relay request filters are invalid''
      else Inr vs)"

section \<open>Queries\<close>

definition event_order :: "nostr_event \<Rightarrow> int \<times> string" where
  "event_order e = (nv_created_at e, nv_id e)"

text \<open>Descending, and stable as \<open>sort\<close> is.\<close>

definition newest_first :: "nostr_event list \<Rightarrow> nostr_event list" where
  "newest_first es = rev (sort_key event_order (rev es))"

definition filter_limit :: "jsval \<Rightarrow> nat \<Rightarrow> nat" where
  "filter_limit f stored = (case js_get f ''limit'' of
     JUndef \<Rightarrow> stored
   | JNum (JInt i) \<Rightarrow> if safe_int i \<and> i \<ge> 0 then min (nat i) stored else 0
   | _ \<Rightarrow> 0)"

definition select_matching :: "nostr_event list \<Rightarrow> (string, nostr_event) jsmap \<Rightarrow> jsval \<Rightarrow> (string, nostr_event) jsmap" where
  "select_matching newest selected f =
     foldl (\<lambda>m e. mp_set m (nv_id e) e) selected
       (take (filter_limit f (length newest)) (filter (\<lambda>e. matchesFilter e f) newest))"

definition queryEvents :: "nostr_event list \<Rightarrow> jsval list \<Rightarrow> nostr_event list" where
  "queryEvents es filters =
     sort_key event_order (mp_values (foldl (select_matching (newest_first es)) [] filters))"

section \<open>The relay\<close>

datatype relay_message =
    M_notice
  | M_ok string bool string
  | M_event string nostr_event
  | M_eose string

record pending_query =
  pq_socket :: nat
  pq_subscription :: string
  pq_filters :: "jsval list"
  pq_rules :: "nostr_rule list"

record relay_state =
  rl_control :: nostr_control
  rl_maximumEvents :: int
  rl_events :: "(string, nostr_event) jsmap"
  rl_subscriptions :: "(nat, (string, jsval list) jsmap) jsmap"
  rl_open :: "nat list"
  rl_pending :: "pending_query list"
  rl_sent :: "(nat \<times> relay_message) list"

text \<open>The options of the constructor; \<open>undefined\<close> stands for an absent one.\<close>

definition new_relay :: "jsval \<Rightarrow> jsval \<Rightarrow> string + relay_state" where
  "new_relay maximumEvents maximumMessageBytes =
     rbind (relay_limit (coalesce maximumEvents (js_int 100000)) 1000000) (\<lambda>events.
     rbind (relay_limit (coalesce maximumMessageBytes (js_int 2097152)) 10485760) (\<lambda>_.
     Inr \<lparr>rl_control = new_nostr_control, rl_maximumEvents = events, rl_events = [], rl_subscriptions = [],
       rl_open = [], rl_pending = [], rl_sent = []\<rparr>))"

definition send_message :: "nat \<Rightarrow> relay_message \<Rightarrow> relay_state \<Rightarrow> relay_state" where
  "send_message sock m s = (if sock \<in> set (rl_open s) then s\<lparr>rl_sent := rl_sent s @ [(sock, m)]\<rparr> else s)"

definition includes_action :: "nostr_rule list \<Rightarrow> nostr_action \<Rightarrow> bool" where
  "includes_action rules act = list_ex (\<lambda>r. nr_action r = act) rules"

definition copies_of :: "nostr_rule list \<Rightarrow> nat" where
  "copies_of rules =
     1 + (case find (\<lambda>r. nr_action r = Duplicate_publish) rules of
            None \<Rightarrow> 0
          | Some r \<Rightarrow> (case coalesce (nr_duplicateCount r) (js_int 0) of JNum (JInt i) \<Rightarrow> nat i | _ \<Rightarrow> 0))"

text \<open>The messages a publication sends to the subscribers, in order.\<close>

definition broadcast :: "nostr_event \<Rightarrow> nat \<Rightarrow> (nat, (string, jsval list) jsmap) jsmap \<Rightarrow> (nat \<times> relay_message) list" where
  "broadcast e copies subs =
     concat (map (\<lambda>(sock, sub). concat (map (\<lambda>(sid, filters).
       if list_ex (matchesFilter e) filters then replicate copies (sock, M_event sid e) else []) sub)) subs)"

fun text_field :: "jsval \<Rightarrow> string option" where
  "text_field (JStr s) = Some s"
| "text_field _ = None"

fun number_field :: "jsval \<Rightarrow> int option" where
  "number_field (JNum (JInt i)) = Some i"
| "number_field _ = None"

fun tag_elements :: "jsval option list \<Rightarrow> string list list option" where
  "tag_elements [] = Some []"
| "tag_elements (Some (JArr t) # vs) =
     Option.bind (text_elements t) (\<lambda>x. map_option (Cons x) (tag_elements vs))"
| "tag_elements (v # vs) = None"

definition event_of :: "jsval \<Rightarrow> nostr_event option" where
  "event_of v =
     Option.bind (text_field (js_get v ''id'')) (\<lambda>i.
     Option.bind (text_field (js_get v ''pubkey'')) (\<lambda>p.
     Option.bind (number_field (js_get v ''created_at'')) (\<lambda>t.
     Option.bind (number_field (js_get v ''kind'')) (\<lambda>k.
     Option.bind (case js_get v ''tags'' of JArr ts \<Rightarrow> tag_elements ts | _ \<Rightarrow> None) (\<lambda>tags.
     Option.bind (text_field (js_get v ''content'')) (\<lambda>c.
     Option.bind (text_field (js_get v ''sig'')) (\<lambda>sg.
     Some \<lparr>nv_id = i, nv_pubkey = p, nv_created_at = t, nv_kind = k, nv_tags = tags, nv_content = c, nv_sig = sg\<rparr>)))))))"

definition terminate :: "nat \<Rightarrow> relay_state \<Rightarrow> relay_state" where
  "terminate sock s = s\<lparr>rl_open := removeAll sock (rl_open s)\<rparr>"

definition publish :: "(nostr_event \<Rightarrow> bool) \<Rightarrow> nat \<Rightarrow> jsval \<Rightarrow> relay_state \<Rightarrow> (string + unit) \<times> relay_state" where
  "publish verify sock v s =
     (if \<not> isRecord v then (Inl ''Relay event is invalid'', s)
      else case (case event_of v of None \<Rightarrow> None | Some e \<Rightarrow> if verify e then Some e else None) of
        None \<Rightarrow>
          (Inr (), send_message sock (M_ok (case js_get v ''id'' of JStr i \<Rightarrow> i | _ \<Rightarrow> []) False ''invalid: signature'') s)
      | Some e \<Rightarrow>
         (let (rules, c) = takePublish (nv_kind e) (rl_control s);
              s = s\<lparr>rl_control := c\<rparr> in
          if map_of (rl_events s) (nv_id e) = None \<and> int (length (rl_events s)) \<ge> rl_maximumEvents s
          then (Inr (), send_message sock (M_ok (nv_id e) False ''error: relay event limit exceeded'') s)
          else
           (let s = (if map_of (rl_events s) (nv_id e) = None
                     then s\<lparr>rl_events := mp_set (rl_events s) (nv_id e) e\<rparr> else s);
                s = fold (\<lambda>(to, m). send_message to m) (broadcast e (copies_of rules) (rl_subscriptions s)) s in
            if includes_action rules Disconnect then (Inr (), terminate sock s)
            else if \<not> includes_action rules Drop_ok then (Inr (), send_message sock (M_ok (nv_id e) True []) s)
            else (Inr (), s))))"

definition withheld :: "history_partition option \<Rightarrow> nostr_event \<Rightarrow> bool" where
  "withheld p e \<longleftrightarrow> (case p of
     None \<Rightarrow> False
   | Some h \<Rightarrow> nv_id e \<in> set (hp_eventIds h) \<or> nv_kind e \<in> set (hp_kinds h) \<or> nv_pubkey e \<in> set (hp_authors h))"

definition history_of :: "pending_query \<Rightarrow> relay_state \<Rightarrow> nostr_event list" where
  "history_of q s =
     (let h = queryEvents (mp_values (rl_events s)) (pq_filters q);
          h = (if includes_action (pq_rules q) Reorder_history then rev h else h)
      in filter (\<lambda>e. \<not> withheld (nc_partition (rl_control s)) e) h)"

text \<open>The rest of a query, after the pause.\<close>

definition finish_query :: "pending_query \<Rightarrow> relay_state \<Rightarrow> relay_state" where
  "finish_query q s =
     send_message (pq_socket q) (M_eose (pq_subscription q))
       (fold (\<lambda>e. send_message (pq_socket q) (M_event (pq_subscription q) e)) (history_of q s) s)"

definition query :: "nat \<Rightarrow> jsval \<Rightarrow> jsval list \<Rightarrow> relay_state \<Rightarrow> (string + unit) \<times> relay_state" where
  "query sock sv filterValues s =
     (case (case sv of JStr sid \<Rightarrow> if length sid < 1 \<or> length sid > 64 then None else Some sid | _ \<Rightarrow> None) of
        None \<Rightarrow> (Inl ''Relay subscription id is invalid'', s)
      | Some sid \<Rightarrow>
     (case parseFilters filterValues of
        Inl e \<Rightarrow> (Inl e, s)
      | Inr filters \<Rightarrow>
     (case map_of (rl_subscriptions s) sock of
        None \<Rightarrow> (Inr (), s)
      | Some subs \<Rightarrow>
        if map_of subs sid = None \<and> length subs \<ge> max_subscriptions then (Inl ''Relay subscription limit exceeded'', s)
        else
         (let s = s\<lparr>rl_subscriptions := mp_set (rl_subscriptions s) sock (mp_set subs sid filters)\<rparr>;
              (rules, c) = takeHistory (rl_control s);
              s = s\<lparr>rl_control := c\<rparr>;
              q = \<lparr>pq_socket = sock, pq_subscription = sid, pq_filters = filters, pq_rules = rules\<rparr> in
          if includes_action rules Delay_history then (Inr (), s\<lparr>rl_pending := rl_pending s @ [q]\<rparr>)
          else (Inr (), finish_query q s)))))"

definition closeSubscription :: "nat \<Rightarrow> jsval \<Rightarrow> relay_state \<Rightarrow> (string + unit) \<times> relay_state" where
  "closeSubscription sock sv s =
     (case sv of
        JStr sid \<Rightarrow>
          (Inr (), (case map_of (rl_subscriptions s) sock of
             None \<Rightarrow> s | Some subs \<Rightarrow> s\<lparr>rl_subscriptions := mp_set (rl_subscriptions s) sock (mp_delete subs sid)\<rparr>))
      | _ \<Rightarrow> (Inl ''Relay subscription id is invalid'', s))"

text \<open>An element of an array; one that is missing reads as undefined.\<close>

definition at_index :: "jsval option list \<Rightarrow> nat \<Rightarrow> jsval" where
  "at_index vs i = (if i < length vs then (case vs ! i of None \<Rightarrow> JUndef | Some v \<Rightarrow> v) else JUndef)"

definition handle_message :: "(nostr_event \<Rightarrow> bool) \<Rightarrow> nat \<Rightarrow> jsval option \<Rightarrow> relay_state \<Rightarrow> (string + unit) \<times> relay_state" where
  "handle_message verify sock data s =
     (case data of
        Some (JArr vs) \<Rightarrow>
          (case at_index vs 0 of
             JStr kind \<Rightarrow>
               if kind = ''EVENT'' then publish verify sock (at_index vs 1) s
               else if kind = ''REQ'' then query sock (at_index vs 1) (map (\<lambda>v. case v of None \<Rightarrow> JUndef | Some w \<Rightarrow> w) (drop 2 vs)) s
               else if kind = ''CLOSE'' then closeSubscription sock (at_index vs 1) s
               else (Inl ''Relay message type is unsupported'', s)
           | _ \<Rightarrow> (Inl ''Relay message must be an array'', s))
      | _ \<Rightarrow> (Inl ''Relay message must be an array'', s))"

section \<open>Schedules\<close>

datatype relay_event =
    Connect nat
  | Closed nat
  | Message nat "jsval option"
  | Resume_query nat
  | Control_op nostr_op
  | Clear_events

fun relay_step :: "(nostr_event \<Rightarrow> bool) \<Rightarrow> relay_event \<Rightarrow> relay_state \<Rightarrow> relay_state" where
  "relay_step verify (Connect sock) s =
     (if map_of (rl_subscriptions s) sock = None
      then s\<lparr>rl_subscriptions := mp_set (rl_subscriptions s) sock [], rl_open := sock # rl_open s\<rparr> else s)"
| "relay_step verify (Closed sock) s =
     s\<lparr>rl_subscriptions := mp_delete (rl_subscriptions s) sock, rl_open := removeAll sock (rl_open s)\<rparr>"
| "relay_step verify (Message sock data) s =
     (case handle_message verify sock data s of
        (Inl e, s') \<Rightarrow> send_message sock M_notice s'
      | (Inr _, s') \<Rightarrow> s')"
| "relay_step verify (Resume_query i) s =
     (if i < length (rl_pending s)
      then finish_query (rl_pending s ! i) (s\<lparr>rl_pending := take i (rl_pending s) @ drop (i + 1) (rl_pending s)\<rparr>)
      else s)"
| "relay_step verify (Control_op i) s =
     (case i of
        No_publish k \<Rightarrow> s
      | No_history \<Rightarrow> s
      | _ \<Rightarrow> s\<lparr>rl_control := snd (nostr_step i (rl_control s))\<rparr>)"
| "relay_step verify Clear_events s = s\<lparr>rl_events := []\<rparr>"

definition run_relay :: "(nostr_event \<Rightarrow> bool) \<Rightarrow> relay_state \<Rightarrow> relay_event list \<Rightarrow> relay_state" where
  "run_relay verify s es = foldl (\<lambda>s e. relay_step verify e s) s es"

section \<open>What a query returns\<close>

definition newer :: "nostr_event \<Rightarrow> nostr_event \<Rightarrow> bool" where
  "newer e e' \<longleftrightarrow> event_order e' < event_order e"

text \<open>An event a filter asks for: it matches, and fewer than the limit of the matching events are newer.\<close>

definition asked_for :: "nostr_event list \<Rightarrow> jsval \<Rightarrow> nostr_event \<Rightarrow> bool" where
  "asked_for stored f e \<longleftrightarrow>
     matchesFilter e f \<and>
     length (filter (\<lambda>e'. matchesFilter e' f \<and> newer e' e) stored) < filter_limit f (length stored)"

lemma event_order_inj: "distinct (map nv_id es) \<Longrightarrow> inj_on event_order (set es)"
  by (auto simp: inj_on_def event_order_def distinct_map dest: inj_onD)

lemma set_newest_first [simp]: "set (newest_first es) = set es" "length (newest_first es) = length es"
  "mset (newest_first es) = mset es"
  by (simp_all add: newest_first_def)

lemma newest_first_descending:
  assumes "distinct (map nv_id es)"
  shows "sorted_wrt newer (newest_first es)"
proof -
  let ?xs = "sort_key event_order (rev es)"
  have "distinct (map event_order ?xs)"
    using assms event_order_inj [OF assms] by (simp add: distinct_map)
  then have "sorted_wrt (<) (map event_order ?xs)"
    by (simp add: strict_sorted_iff)
  then show ?thesis
    by (simp add: newest_first_def sorted_wrt_rev newer_def sorted_wrt_map)
qed

lemma newer_irrefl [simp]: "\<not> newer e e"
  by (simp add: newer_def)

lemma newer_asym: "newer e e' \<Longrightarrow> \<not> newer e' e"
  by (simp add: newer_def)

lemma in_take_descending:
  "sorted_wrt newer xs \<Longrightarrow> e \<in> set (take n xs) \<longleftrightarrow> e \<in> set xs \<and> length (filter (\<lambda>x. newer x e) xs) < n"
proof (induction xs arbitrary: n)
  case (Cons x xs)
  show ?case
  proof (cases "e = x")
    case True
    then have none: "filter (\<lambda>y. newer y e) xs = []"
      using Cons.prems by (auto simp: filter_empty_conv dest: newer_asym)
    then show ?thesis using True by (cases n) (auto simp: newer_def)
  next
    case False
    have "newer x e" if "e \<in> set xs"
      using Cons.prems that by simp
    then show ?thesis using Cons False by (cases n) auto
  qed
qed simp

lemma selected_values:
  assumes "mp_ok m" and "\<forall>(k, e)\<in>set m. nv_id e = k \<and> e \<in> S" and "set es \<subseteq> S"
    and "inj_on nv_id S"
  shows "mp_ok (foldl (\<lambda>m e. mp_set m (nv_id e) e) m es) \<and>
    (\<forall>(k, e)\<in>set (foldl (\<lambda>m e. mp_set m (nv_id e) e) m es). nv_id e = k \<and> e \<in> S) \<and>
    set (mp_values (foldl (\<lambda>m e. mp_set m (nv_id e) e) m es)) = set (mp_values m) \<union> set es"
  using assms
proof (induction es arbitrary: m)
  case (Cons x es)
  have ok: "mp_ok (mp_set m (nv_id x) x)" using Cons.prems by simp
  have keys: "\<forall>(k, e)\<in>set (mp_set m (nv_id x) x). nv_id e = k \<and> e \<in> S"
  proof -
    have sub: "set (mp_set m (nv_id x) x) \<subseteq> insert (nv_id x, x) (set m)"
      by (induction m) auto
    have "\<forall>(k, e)\<in>insert (nv_id x, x) (set m). nv_id e = k \<and> e \<in> S"
      using Cons.prems(2,3) by simp
    then show ?thesis using sub by blast
  qed
  have vals: "set (mp_values (mp_set m (nv_id x) x)) = insert x (set (mp_values m))"
  proof -
    have same: "v = x" if "map_of m (nv_id x) = Some v" for v
      using Cons.prems(2,3,4) map_of_SomeD [OF that] by (auto dest: inj_onD)
    show ?thesis
      using same Cons.prems(1) ok by (auto simp: in_mp_values split: if_splits) metis
  qed
  show ?case
    using Cons.IH [OF ok keys _ Cons.prems(4)] Cons.prems(3) vals by auto
qed auto

lemma queryEvents_result:
  assumes d: "distinct (map nv_id es)"
  shows "set (queryEvents es filters) = {e \<in> set es. \<exists>f\<in>set filters. asked_for es f e}"
    and "sorted_wrt (\<lambda>a b. newer b a) (queryEvents es filters)"
proof -
  let ?new = "newest_first es"
  let ?pick = "\<lambda>f. take (filter_limit f (length ?new)) (filter (\<lambda>e. matchesFilter e f) ?new)"
  have pick: "e \<in> set (?pick f) \<longleftrightarrow> e \<in> set es \<and> asked_for es f e" for e f
  proof -
    have "length (filter P ?new) = length (filter P es)" for P
      by (metis mset_filter set_newest_first(3) size_mset)
    then show ?thesis
      using in_take_descending [OF sorted_wrt_filter [OF newest_first_descending [OF d]], of e "filter_limit f (length es)" "\<lambda>e. matchesFilter e f"]
      by (auto simp: asked_for_def conj_commute)
  qed
  have inj: "inj_on nv_id (set es)"
    using d by (simp add: distinct_map)
  have fold: "mp_ok (foldl (select_matching ?new) m fs) \<and> (\<forall>(k, e)\<in>set (foldl (select_matching ?new) m fs). nv_id e = k \<and> e \<in> set es) \<and>
      set (mp_values (foldl (select_matching ?new) m fs)) = set (mp_values m) \<union> {e \<in> set es. \<exists>f\<in>set fs. asked_for es f e}"
    if "mp_ok m" "\<forall>(k, e)\<in>set m. nv_id e = k \<and> e \<in> set es" for m fs
    using that
  proof (induction fs arbitrary: m)
    case (Cons f fs)
    have sel: "mp_ok (select_matching ?new m f) \<and> (\<forall>(k, e)\<in>set (select_matching ?new m f). nv_id e = k \<and> e \<in> set es) \<and>
        set (mp_values (select_matching ?new m f)) = set (mp_values m) \<union> set (?pick f)"
      unfolding select_matching_def
      by (rule selected_values [OF Cons.prems _ inj]) (use pick in blast)
    then show ?case
      using Cons.IH [of "select_matching ?new m f"] pick by (auto simp: set_eq_iff)
  qed auto
  let ?m = "foldl (select_matching ?new) [] filters"
  have m: "mp_ok ?m" "\<forall>(k, e)\<in>set ?m. nv_id e = k \<and> e \<in> set es"
    "set (mp_values ?m) = {e \<in> set es. \<exists>f\<in>set filters. asked_for es f e}"
    using fold [of "[]" filters] by (auto simp: mp_values_def)
  then show "set (queryEvents es filters) = {e \<in> set es. \<exists>f\<in>set filters. asked_for es f e}"
    by (simp add: queryEvents_def)
  have "map nv_id (mp_values ?m) = map fst ?m"
    using m(2) by (auto simp: mp_values_def)
  then have "distinct (map nv_id (mp_values ?m))"
    using m(1) by (simp add: mp_ok_def)
  then have "distinct (map event_order (sort_key event_order (mp_values ?m)))"
    using event_order_inj by (simp add: distinct_map)
  then have "sorted_wrt (<) (map event_order (sort_key event_order (mp_values ?m)))"
    by (simp add: strict_sorted_iff)
  then show "sorted_wrt (\<lambda>a b. newer b a) (queryEvents es filters)"
    by (simp add: queryEvents_def newer_def sorted_wrt_map)
qed

section \<open>Reachable relays\<close>

definition relay_inv :: "relay_state \<Rightarrow> bool" where
  "relay_inv s \<longleftrightarrow> mp_ok (rl_events s) \<and> (\<forall>(k, e)\<in>set (rl_events s). nv_id e = k) \<and>
     1 \<le> rl_maximumEvents s \<and> int (length (rl_events s)) \<le> rl_maximumEvents s"

lemma send_message_fields [simp]:
  "rl_events (send_message k m s) = rl_events s" "rl_maximumEvents (send_message k m s) = rl_maximumEvents s"
  "rl_open (send_message k m s) = rl_open s" "rl_control (send_message k m s) = rl_control s"
  by (simp_all add: send_message_def)

lemma send_all_fields [simp]:
  "rl_events (fold (\<lambda>(to, m). send_message to m) ms s) = rl_events s"
  "rl_maximumEvents (fold (\<lambda>(to, m). send_message to m) ms s) = rl_maximumEvents s"
  "rl_events (fold (\<lambda>e. send_message k (g e)) es s) = rl_events s"
  "rl_maximumEvents (fold (\<lambda>e. send_message k (g e)) es s) = rl_maximumEvents s"
  "rl_open (fold (\<lambda>e. send_message k (g e)) es s) = rl_open s"
proof -
  show "rl_events (fold (\<lambda>(to, m). send_message to m) ms s) = rl_events s"
    "rl_maximumEvents (fold (\<lambda>(to, m). send_message to m) ms s) = rl_maximumEvents s"
    by (induction ms arbitrary: s) auto
  show "rl_events (fold (\<lambda>e. send_message k (g e)) es s) = rl_events s"
    "rl_maximumEvents (fold (\<lambda>e. send_message k (g e)) es s) = rl_maximumEvents s"
    "rl_open (fold (\<lambda>e. send_message k (g e)) es s) = rl_open s"
    by (induction es arbitrary: s) auto
qed

lemma finish_query_fields [simp]:
  "rl_events (finish_query q s) = rl_events s" "rl_maximumEvents (finish_query q s) = rl_maximumEvents s"
  by (simp_all add: finish_query_def)

lemma length_mp_set: "length (mp_set m k v) = (if map_of m k = None then length m + 1 else length m)"
  by (induction m) auto

lemma publish_inv: "relay_inv s \<Longrightarrow> relay_inv (snd (publish verify sock v s))"
proof -
  assume inv: "relay_inv s"
  have add: "relay_inv (s'\<lparr>rl_events := mp_set (rl_events s') (nv_id e) e\<rparr>)"
    if "relay_inv s'" "map_of (rl_events s') (nv_id e) = None" "int (length (rl_events s')) < rl_maximumEvents s'" for s' e
  proof -
    have "set (mp_set m k w) \<subseteq> insert (k, w) (set m)" for m :: "(string, nostr_event) jsmap" and k w
      by (induction m) auto
    then have "\<forall>(k, x)\<in>set (mp_set (rl_events s') (nv_id e) e). nv_id x = k"
      using that(1) unfolding relay_inv_def by (fastforce dest: subsetD)
    then show ?thesis
      using that by (simp add: relay_inv_def length_mp_set)
  qed
  show ?thesis
  proof (cases "isRecord v \<and> (\<exists>e. event_of v = Some e \<and> verify e)")
    case False
    then show ?thesis
      using inv by (auto simp: publish_def relay_inv_def split: option.split)
  next
    case True
    then obtain e where e: "isRecord v" "event_of v = Some e" "verify e" by blast
    let ?c = "takePublish (nv_kind e) (rl_control s)"
    have "relay_inv (s\<lparr>rl_control := snd ?c\<rparr>)"
      using inv by (simp add: relay_inv_def)
    then show ?thesis
      using e inv add [of "s\<lparr>rl_control := snd ?c\<rparr>" e]
      by (auto simp: publish_def Let_def case_prod_beta relay_inv_def terminate_def)
  qed
qed

lemma relay_step_inv: "relay_inv s \<Longrightarrow> relay_inv (relay_step verify e s)"
proof -
  assume inv: "relay_inv s"
  have same: "relay_inv s'" if "rl_events s' = rl_events s" "rl_maximumEvents s' = rl_maximumEvents s" for s'
    using inv that by (simp add: relay_inv_def)
  have query: "relay_inv (snd (query sock sv fs s))" for sock sv fs
    by (rule same) (auto simp: query_def Let_def case_prod_beta split: option.split sum.split)
  have close: "relay_inv (snd (closeSubscription sock sv s))" for sock sv
    by (rule same) (auto simp: closeSubscription_def split: option.split jsval.split)
  have handle: "relay_inv (snd (handle_message verify sock data s))" for sock data
  proof (cases "\<exists>vs kind. data = Some (JArr vs) \<and> at_index vs 0 = JStr kind")
    case True
    then obtain vs kind where "data = Some (JArr vs)" "at_index vs 0 = JStr kind" by blast
    then show ?thesis
      unfolding handle_message_def using inv publish_inv [OF inv] query close by simp
  next
    case False
    have "snd (handle_message verify sock data s) = s"
    proof (cases data)
      case (Some v)
      then show ?thesis
        using False unfolding handle_message_def by (cases v; cases "at_index (case v of JArr vs \<Rightarrow> vs | _ \<Rightarrow> []) 0"; simp)
    qed (simp add: handle_message_def)
    then show ?thesis using inv by simp
  qed
  have notice: "relay_inv (send_message k m s')" if "relay_inv s'" for k m s'
    using that by (simp add: relay_inv_def)
  show ?thesis
  proof (cases e)
    case (Message sock data)
    obtain r s' where r: "handle_message verify sock data s = (r, s')"
      by (cases "handle_message verify sock data s")
    then have "relay_inv s'"
      using handle [of sock data] by simp
    from notice [OF this] this show ?thesis
      by (cases r) (simp_all add: Message r)
  next
    case Clear_events
    then show ?thesis using inv by (simp add: relay_inv_def mp_ok_def)
  qed (auto intro!: same split: nostr_op.split)
qed

lemma run_relay_inv:
  assumes "new_relay a b = Inr s0"
  shows "relay_inv (run_relay verify s0 es)"
proof -
  have "relay_inv s0"
    using assms by (auto simp: new_relay_def rbind_eq_Inr relay_inv_def mp_ok_def relay_limit_def split: jsval.splits jsnum.splits if_splits)
  then show ?thesis
    unfolding run_relay_def by (induction es rule: rev_induct) (simp_all add: relay_step_inv)
qed

lemma fold_send:
  "sock \<in> set (rl_open s) \<Longrightarrow>
   rl_sent (fold (\<lambda>e. send_message sock (g e)) es s) = rl_sent s @ map (\<lambda>e. (sock, g e)) es"
  by (induction es arbitrary: s) (simp_all add: send_message_def)

lemma history_of_result:
  assumes inv: "relay_inv s"
  shows "set (history_of q s) = {e \<in> set (mp_values (rl_events s)).
      \<not> withheld (nc_partition (rl_control s)) e \<and> (\<exists>f\<in>set (pq_filters q). asked_for (mp_values (rl_events s)) f e)}"
    and "sorted_wrt (\<lambda>a b. if includes_action (pq_rules q) Reorder_history then newer a b else newer b a) (history_of q s)"
proof -
  let ?es = "mp_values (rl_events s)"
  have "map nv_id ?es = map fst (rl_events s)"
    using inv by (auto simp: relay_inv_def mp_values_def)
  then have d: "distinct (map nv_id ?es)"
    using inv by (simp add: relay_inv_def mp_ok_def)
  show "set (history_of q s) = {e \<in> set ?es. \<not> withheld (nc_partition (rl_control s)) e \<and>
      (\<exists>f\<in>set (pq_filters q). asked_for ?es f e)}"
    using queryEvents_result(1) [OF d, of "pq_filters q"] by (auto simp: history_of_def Let_def)
  show "sorted_wrt (\<lambda>a b. if includes_action (pq_rules q) Reorder_history then newer a b else newer b a) (history_of q s)"
    using queryEvents_result(2) [OF d, of "pq_filters q"]
    by (auto simp: history_of_def Let_def sorted_wrt_rev intro!: sorted_wrt_filter)
qed

section \<open>Properties\<close>


lemma relay_copies:
  assumes "validateNostrRule ident input = Inr r" and "nr_action r = Duplicate_publish"
  shows "copies_of [r] = 1 \<longleftrightarrow> nr_duplicateCount r = JUndef \<or> nr_duplicateCount r = JNull"
proof -
  from assms have "is_ok (boundedRuleInteger (nr_duplicateCount r) 1 ''Duplicate count'' 100)"
    unfolding validateNostrRule_def
    by (elim rbindE option_throwE) (auto simp: is_ok_iff split: if_splits)
  then show ?thesis
    using assms(2) by (auto simp: is_ok_iff boundedRuleInteger_def copies_of_def coalesce_def js_int_def
        split: jsval.splits jsnum.splits if_splits)
qed

text \<open>Every matching subscription gets as many copies of a publication.\<close>

lemma broadcast_copies:
  assumes "distinct (map fst subs)" and "map_of subs sock = Some sub" and "distinct (map fst sub)"
    and "map_of sub sid = Some filters" and "list_ex (matchesFilter e) filters"
  shows "length (filter (\<lambda>m. m = (sock, M_event sid e)) (broadcast e copies subs)) = copies"
proof -
  let ?P = "\<lambda>m. m = (sock, M_event sid e)"
  let ?row = "\<lambda>k sub. concat (map (\<lambda>(i, fs). if list_ex (matchesFilter e) fs then replicate copies (k, M_event i e) else []) sub)"
  have other: "filter ?P (?row sock xs) = []" if "sid \<notin> fst ` set xs" for xs
    using that by (induction xs) (auto simp: filter_empty_conv split: if_splits)
  have row: "length (filter ?P (?row sock xs)) = copies" if "distinct (map fst xs)" "map_of xs sid = Some filters" for xs
    using that
  proof (induction xs)
    case (Cons x xs)
    then show ?case
      using assms(5) other [of xs] by (cases x) (auto split: if_splits)
  qed simp
  have away: "filter ?P (?row k xs) = []" if "k \<noteq> sock" for k xs
    using that by (induction xs) (auto simp: filter_empty_conv)
  have none: "filter ?P (broadcast e copies xs) = []" if "sock \<notin> fst ` set xs" for xs
    using that away by (induction xs) (auto simp: broadcast_def filter_concat)
  show ?thesis
    using assms(1,2)
  proof (induction subs)
    case (Cons x xs)
    obtain k ys where x: "x = (k, ys)" by (cases x)
    show ?case
    proof (cases "k = sock")
      case True
      then have "ys = sub" using Cons.prems(2) x by simp
      then show ?thesis
        using row [OF assms(3,4)] none [of xs] Cons.prems(1) x True by (simp add: broadcast_def)
    next
      case False
      then show ?thesis
        using Cons away [OF False, of ys] x by (simp add: broadcast_def)
    qed
  qed simp
qed

section \<open>A run\<close>

definition demo_event :: "string \<Rightarrow> int \<Rightarrow> nostr_event" where
  "demo_event i t = \<lparr>nv_id = i, nv_pubkey = ''aa'', nv_created_at = t, nv_kind = 1, nv_tags = [], nv_content = [], nv_sig = []\<rparr>"

definition demo_event_json :: "string \<Rightarrow> int \<Rightarrow> jsval" where
  "demo_event_json i t = JArr [Some (JStr ''EVENT''), Some (JObj [(''id'', JStr i), (''pubkey'', JStr ''aa''), (''created_at'', js_int t),
     (''kind'', js_int 1), (''tags'', JArr []), (''content'', JStr []), (''sig'', JStr [])])]"

definition demo_relay_events :: "relay_event list" where
  "demo_relay_events = [Connect 1, Message 1 (Some (demo_event_json ''b'' 5)), Message 1 (Some (demo_event_json ''a'' 4))]"

definition demo_query :: pending_query where
  "demo_query = \<lparr>pq_socket = 1, pq_subscription = ''s'', pq_filters = [JObj [(''limit'', js_int 1)]], pq_rules = []\<rparr>"

definition demo_relay :: relay_state where
  "demo_relay = (case new_relay JUndef JUndef of Inr s \<Rightarrow> s | Inl _ \<Rightarrow>
     \<lparr>rl_control = new_nostr_control, rl_maximumEvents = 1, rl_events = [], rl_subscriptions = [], rl_open = [],
      rl_pending = [], rl_sent = []\<rparr>)"

lemma demo_relay_new: "new_relay JUndef JUndef = Inr demo_relay"
  by code_simp

lemma demo_relay_run:
  "rl_open (run_relay (\<lambda>_. True) demo_relay demo_relay_events) = [1] \<and>
   map nv_id (history_of demo_query (run_relay (\<lambda>_. True) demo_relay demo_relay_events)) = [''b'']"
  by code_simp


end
