(* ===== verification/Fault_Defaults.thy ===== *)
theory Fault_Defaults
  imports Http_Gateway_Properties Nostr_Relay
begin

text \<open>
  What a duplicate fault does when its rule leaves out how many duplicates it wants: the HTTP gateway and the
  Nostr relay both accept such a rule, and disagree with their evidence and with each other.
\<close>

text \<open>
  The number of duplicates has no common default. Both fault controls accept a duplicate rule that leaves
  out its duplicate count. The HTTP gateway then sends one extra copy and its evidence counts none: the
  evidence is the number of extra copies exactly when the rule states the count. The Nostr relay then sends
  each subscriber a single copy, so the fault is spent without any effect: it duplicates exactly when the
  rule states the count.
\<close>

theorem duplicate_faults_default:
  assumes "validateRule ident input = Inr r" and "fr_action r = Fa_duplicate"
    and "map_of (gs_stages (applyBefore n h (Some r) s)) n = Some (Delayed h copies)"
    and "validateNostrRule ident' input' = Inr q" and "nr_action q = Duplicate_publish"
    and "mp_ok subs" and "map_of subs sock = Some sub" and "mp_ok sub"
    and "map_of sub sid = Some filters" and "list_ex (matchesFilter e) filters"
  shows "(ct_duplicates (gc_counters (gs_control (applyBefore n h (Some r) s))) - ct_duplicates (gc_counters (gs_control s))
        = copies - 1 \<longleftrightarrow> fr_duplicateCount r \<noteq> JUndef \<and> fr_duplicateCount r \<noteq> JNull) \<and>
    2 \<le> copies \<and>
    (length (filter (\<lambda>m. m = (sock, M_event sid e)) (broadcast e (copies_of [q]) subs)) > 1 \<longleftrightarrow>
      nr_duplicateCount q \<noteq> JUndef \<and> nr_duplicateCount q \<noteq> JNull)"
proof -
  have "length (filter (\<lambda>m. m = (sock, M_event sid e)) (broadcast e (copies_of [q]) subs)) = copies_of [q]"
    by (rule broadcast_copies [OF assms(6) [unfolded mp_ok_def] assms(7) assms(8) [unfolded mp_ok_def] assms(9,10)])
  moreover have "copies_of [q] \<ge> 1"
    by (simp add: copies_of_def)
  moreover have "2 \<le> copies"
    using duplicate_count_valid [OF validateRule_Inr(2) [OF assms(1)] assms(2)] assms(2,3)
    by (simp add: applyBefore_def Let_def)
  ultimately show ?thesis
    using duplicate_evidence_iff [OF assms(1-3)] relay_copies [OF assms(4,5)] by auto
qed

definition demo_duplicate :: fault_rule where
  "demo_duplicate = \<lparr>fr_id = ''http-rule-1'', fr_count = 1, fr_phase = Before_forward, fr_action = Fa_duplicate,
     fr_match = JUndef, fr_occurrence = JUndef, fr_delayMs = JUndef, fr_duplicateCount = JUndef,
     fr_statusCode = JUndef, fr_truncateBytes = JUndef\<rparr>"

definition demo_duplicate_input :: jsval where
  "demo_duplicate_input = JObj [(''phase'', JStr ''before_forward''), (''action'', JStr ''duplicate'')]"

definition demo_handling :: handling where
  "demo_handling = \<lparr>hd_request = \<lparr>iq_method = None, iq_url = None, iq_headers = JObj []\<rparr>, hd_body = [], hd_method = ''GET'',
     hd_rawPath = ''/'', hd_search = [], hd_metadata = describe_request demo_gateway_api
       \<lparr>iq_method = None, iq_url = None, iq_headers = JObj []\<rparr> [] ''/'', hd_second = None\<rparr>"

definition demo_nostr_duplicate :: nostr_rule where
  "demo_nostr_duplicate = \<lparr>nr_id = ''nostr-rule-1'', nr_count = 1, nr_action = Duplicate_publish, nr_occurrence = JUndef,
     nr_kind = JUndef, nr_duplicateCount = JUndef, nr_delayMs = JUndef\<rparr>"

theorem duplicate_faults_default_witness:
  "validateRule ''http-rule-1'' demo_duplicate_input = Inr demo_duplicate \<and>
   map_of (gs_stages (applyBefore 1 demo_handling (Some demo_duplicate) new_gateway)) 1 = Some (Delayed demo_handling 2) \<and>
   ct_duplicates (gc_counters (gs_control (applyBefore 1 demo_handling (Some demo_duplicate) new_gateway)))
     - ct_duplicates (gc_counters (gs_control new_gateway)) \<noteq> 2 - 1 \<and>
   validateNostrRule ''nostr-rule-1'' (JObj [(''action'', JStr ''duplicate_publish'')]) = Inr demo_nostr_duplicate \<and>
   \<not> length (filter (\<lambda>m. m = (7, M_event ''s'' (demo_event ''a'' 1)))
       (broadcast (demo_event ''a'' 1) (copies_of [demo_nostr_duplicate]) [(7, [(''s'', [JObj []])])])) > 1"
proof -
  have ok: "validateRule ''http-rule-1'' demo_duplicate_input = Inr demo_duplicate"
    by code_simp
  have at: "map_of (gs_stages (applyBefore 1 demo_handling (Some demo_duplicate) new_gateway)) 1 = Some (Delayed demo_handling 2)"
    by (simp add: applyBefore_def demo_duplicate_def Let_def duplicate_count_def coalesce_def js_int_def)
  have nostr: "validateNostrRule ''nostr-rule-1'' (JObj [(''action'', JStr ''duplicate_publish'')]) = Inr demo_nostr_duplicate"
    by code_simp
  have rules: "fr_action demo_duplicate = Fa_duplicate" "fr_duplicateCount demo_duplicate = JUndef"
    "nr_action demo_nostr_duplicate = Duplicate_publish" "nr_duplicateCount demo_nostr_duplicate = JUndef"
    by (simp_all add: demo_duplicate_def demo_nostr_duplicate_def)
  have "list_ex (matchesFilter (demo_event ''a'' 1)) [JObj []]"
    by (simp add: matchesFilter_def)
  then show ?thesis
    using duplicate_faults_default [OF ok rules(1) at nostr rules(3), of "[(7, [(''s'', [JObj []])])]" 7 "[(''s'', [JObj []])]" "''s''" "[JObj []]" "demo_event ''a'' 1"]
      ok at nostr rules by (simp add: mp_ok_def)
qed

end
