(* ===== verification/Js_Set.thy ===== *)
theory Js_Set
  imports Js_Map "HOL-Library.List_Lexorder" "HOL-Library.Char_ord" "HOL-Library.Multiset"
begin

text \<open>
  The JavaScript \<open>Set\<close> and \<open>Array.prototype.sort\<close>. A set is the list of its members in insertion order.
  Sorting is stable, so for a comparator that is consistent the result is the one of insertion. Without a
  comparator texts are sorted by their code units, which is the order of \<open>List_Lexorder\<close>.
\<close>

definition js_set :: "'a list \<Rightarrow> 'a list" where
  "js_set xs = rev (remdups (rev xs))"

lemma set_js_set [simp]: "set (js_set xs) = set xs"
  by (simp add: js_set_def)

lemma distinct_js_set [simp]: "distinct (js_set xs)"
  by (simp add: js_set_def)

lemma js_set_Nil [simp]: "js_set [] = []"
  by (simp add: js_set_def)

lemma js_set_eq_Nil [simp]: "js_set xs = [] \<longleftrightarrow> xs = []"
  by (simp add: js_set_def)

primrec insert_by :: "('a \<Rightarrow> 'a \<Rightarrow> int) \<Rightarrow> 'a \<Rightarrow> 'a list \<Rightarrow> 'a list" where
  "insert_by cmp x [] = [x]"
| "insert_by cmp x (y # ys) = (if cmp x y \<le> 0 then x # y # ys else y # insert_by cmp x ys)"

definition js_sort :: "('a \<Rightarrow> 'a \<Rightarrow> int) \<Rightarrow> 'a list \<Rightarrow> 'a list" where
  "js_sort cmp xs = foldr (insert_by cmp) xs []"

lemma mset_insert_by [simp]: "mset (insert_by cmp x ys) = add_mset x (mset ys)"
  by (induction ys) auto

lemma mset_js_sort [simp]: "mset (js_sort cmp xs) = mset xs"
  by (induction xs) (auto simp: js_sort_def)

lemma set_js_sort [simp]: "set (js_sort cmp xs) = set xs"
  by (rule mset_eq_setD) simp

lemma js_sort_Nil_iff [simp]: "js_sort cmp xs = [] \<longleftrightarrow> xs = []"
  by (metis mset_js_sort mset_zero_iff)

text \<open>\<open>Array.prototype.join\<close>.\<close>

fun join_text :: "string \<Rightarrow> string list \<Rightarrow> string" where
  "join_text sep [] = []"
| "join_text sep [x] = x"
| "join_text sep (x # xs) = x @ sep @ join_text sep xs"

text \<open>The two texts of a pair key are determined by the key when the second one has no separator.\<close>

lemma nul_join_suffix:
  assumes "CHR 0x00 \<notin> set y"
  shows "takeWhile (\<lambda>c. c \<noteq> CHR 0x00) (rev (m @ CHR 0x00 # y)) = rev y"
proof -
  have "takeWhile (\<lambda>c. c \<noteq> CHR 0x00) (rev y @ CHR 0x00 # rev m) = rev y"
    using assms by (subst takeWhile_append2) auto
  then show ?thesis by simp
qed

lemma nul_join_inject:
  assumes "CHR 0x00 \<notin> set y" and "CHR 0x00 \<notin> set y'" and "m @ CHR 0x00 # y = m' @ CHR 0x00 # y'"
  shows "m = m' \<and> y = y'"
proof -
  have "y = y'"
    using nul_join_suffix [OF assms(1), of m] nul_join_suffix [OF assms(2), of m'] assms(3) by simp
  then show ?thesis using assms(3) by simp
qed

lemma find_append: "find P (xs @ ys) = (case find P xs of Some x \<Rightarrow> Some x | None \<Rightarrow> find P ys)"
  by (induction xs) auto

lemma find_SomeD: "find P xs = Some x \<Longrightarrow> x \<in> set xs \<and> P x"
  by (auto simp: find_Some_iff)

lemma find_Some_exists: "x \<in> set xs \<Longrightarrow> P x \<Longrightarrow> \<exists>y. find P xs = Some y"
  by (metis find_None_iff not_None_eq)

lemma find_unique: "x \<in> set xs \<Longrightarrow> distinct (map f xs) \<Longrightarrow> find (\<lambda>y. f y = f x) xs = Some x"
  by (induction xs) (auto simp: image_iff)

end
