(* ===== verification/Doctor_Core.thy ===== *)
theory Doctor_Core
  imports Js_Set Js_Values
begin

text \<open>
  The wallet doctor's model of a NIP-60 wallet: \<open>packages/wallet-doctor-core/src\<close> \<open>types.ts\<close>,
  \<open>reconstruct.ts\<close> and \<open>plan.ts\<close>.

  Observations are records; amounts are integers (the capture contract keeps the total amount of a capture
  within the safe integers, so no sum below is rounded). \<open>localeCompare\<close> is the argument \<open>lc\<close> of the functions
  that sort with it. The function \<open>dedupeEvents\<close> works on any kind of event; the locale \<open>event_views\<close> says
  what it uses of one, and is interpreted for token and wallet events.
\<close>

section \<open>Observations\<close>

record proof_view =
  pv_keysetId :: string
  pv_amount :: int
  pv_y :: string

record token_view =
  tv_eventId :: string
  tv_createdAt :: int
  tv_mint :: string
  tv_unit :: string
  tv_proofs :: "proof_view list"
  tv_del :: "string list"
  tv_seenOn :: "string list"

record wallet_view =
  wv_eventId :: string
  wv_createdAt :: int
  wv_mints :: "string list"
  wv_hasP2pkKey :: bool
  wv_seenOn :: "string list"

record deletion_view =
  dv_eventId :: string
  dv_createdAt :: int
  dv_targets :: "string list"
  dv_kinds :: "int list"
  dv_seenOn :: "string list"

datatype direction = Dir_in | Dir_out

record history_view =
  hv_eventId :: string
  hv_createdAt :: int
  hv_direction :: "direction option"
  hv_amount :: "int option"
  hv_unit :: "string option"
  hv_created :: "string list"
  hv_destroyed :: "string list"
  hv_redeemed :: "string list"
  hv_seenOn :: "string list"

record quote_view =
  qv_eventId :: string
  qv_createdAt :: int
  qv_expiration :: "int option"
  qv_mint :: "string option"
  qv_seenOn :: "string list"

datatype malformed_reason = Decryption_failed | Invalid_payload | Invalid_signature | Wallet_without_mints

record malformed_view =
  mv_eventId :: "string option"
  mv_kind :: "int option"
  mv_reason :: malformed_reason
  mv_seenOn :: "string list"

datatype relay_status = Relay_ok | Relay_error

record relay_observation =
  ro_url :: string
  ro_status :: relay_status
  ro_error :: "string option"
  ro_wallet :: "wallet_view list"
  ro_tokens :: "token_view list"
  ro_deletions :: "deletion_view list"
  ro_history :: "history_view list"
  ro_quotes :: "quote_view list"
  ro_malformed :: "malformed_view list"

datatype doctor_state = Is_unspent | Is_spent | Is_pending

record mint_observation =
  mo_mint :: string
  mo_y :: string
  mo_state :: doctor_state

record doctor_observation =
  ob_subject :: string
  ob_relays :: "relay_observation list"
  ob_mint :: "mint_observation list"

section \<open>Reconstruction\<close>

record relay_view =
  rv_url :: string
  rv_status :: relay_status
  rv_walletEvent :: "wallet_view option"
  rv_liveTokens :: "token_view list"
  rv_balance :: int

record duplicate_proof =
  dp_y :: string
  dp_amount :: int
  dp_eventIds :: "string list"

record orphan_candidate =
  oc_y :: string
  oc_keysetId :: string
  oc_amount :: int
  oc_mint :: string
  oc_lastSeenIn :: "string list"

record merged_view =
  mg_walletEvent :: "wallet_view option"
  mg_liveTokens :: "token_view list"
  mg_naiveLiveTokens :: "token_view list"
  mg_balance :: int
  mg_naiveBalance :: int
  mg_doubleCounted :: int
  mg_duplicateProofs :: "duplicate_proof list"
  mg_supersededAnywhere :: "string list"
  mg_orphanCandidates :: "orphan_candidate list"

record reconstruction =
  rx_perRelay :: "relay_view list"
  rx_merged :: merged_view

definition sumProofs :: "proof_view list \<Rightarrow> int" where
  "sumProofs proofs = sum_list (map pv_amount proofs)"

definition sumTokens :: "token_view list \<Rightarrow> int" where
  "sumTokens tokens = sum_list (map (\<lambda>t. sumProofs (tv_proofs t)) tokens)"

definition mintProofKey :: "string \<Rightarrow> string \<Rightarrow> string" where
  "mintProofKey mint y = mint @ CHR 0x00 # y"

text \<open>The loop over the events, and the result it is read off.\<close>

definition dedupe_step :: "('e \<Rightarrow> string) \<Rightarrow> ('e \<Rightarrow> string list) \<Rightarrow>
    'e \<Rightarrow> (string, 'e \<times> string list) jsmap \<Rightarrow> (string, 'e \<times> string list) jsmap" where
  "dedupe_step event_id seen_on e m = (case map_of m (event_id e) of
     Some (first, seen) \<Rightarrow> mp_set m (event_id e) (first, js_set (seen @ seen_on e))
   | None \<Rightarrow> mp_set m (event_id e) (e, js_set (seen_on e)))"

definition dedupeEvents :: "('e \<Rightarrow> string) \<Rightarrow> ('e \<Rightarrow> string list) \<Rightarrow> (string list \<Rightarrow> 'e \<Rightarrow> 'e) \<Rightarrow> 'e list \<Rightarrow> 'e list" where
  "dedupeEvents event_id seen_on with_seen events =
     map (\<lambda>(e, seen). with_seen (sort seen) e) (mp_values (fold (dedupe_step event_id seen_on) events []))"

abbreviation dedupe_tokens :: "token_view list \<Rightarrow> token_view list" where
  "dedupe_tokens \<equiv> dedupeEvents tv_eventId tv_seenOn (\<lambda>s t. t\<lparr>tv_seenOn := s\<rparr>)"

abbreviation dedupe_wallets :: "wallet_view list \<Rightarrow> wallet_view list" where
  "dedupe_wallets \<equiv> dedupeEvents wv_eventId wv_seenOn (\<lambda>s w. w\<lparr>wv_seenOn := s\<rparr>)"

definition later_wallet :: "wallet_view option \<Rightarrow> wallet_view \<Rightarrow> wallet_view option" where
  "later_wallet latest e = (case latest of
     None \<Rightarrow> Some e
   | Some l \<Rightarrow>
      if wv_createdAt e > wv_createdAt l \<or> wv_createdAt e = wv_createdAt l \<and> wv_eventId e < wv_eventId l
      then Some e else Some l)"

definition latestWalletEvent :: "wallet_view list \<Rightarrow> wallet_view option" where
  "latestWalletEvent events = foldl later_wallet None events"

definition deleted_here :: "relay_observation \<Rightarrow> string list" where
  "deleted_here relay = concat (map dv_targets (ro_deletions relay))"

definition reconstructRelay :: "relay_observation \<Rightarrow> relay_view" where
  "reconstructRelay relay =
     (if ro_status relay \<noteq> Relay_ok
      then \<lparr>rv_url = ro_url relay, rv_status = Relay_error, rv_walletEvent = None, rv_liveTokens = [], rv_balance = 0\<rparr>
      else let deletedHere = js_set (deleted_here relay);
               live = filter (\<lambda>t. tv_eventId t \<notin> set deletedHere) (ro_tokens relay)
           in \<lparr>rv_url = ro_url relay, rv_status = Relay_ok, rv_walletEvent = latestWalletEvent (ro_wallet relay),
               rv_liveTokens = live, rv_balance = sumTokens live\<rparr>)"

definition ok_relays :: "relay_observation list \<Rightarrow> relay_observation list" where
  "ok_relays relays = filter (\<lambda>r. ro_status r = Relay_ok) relays"

definition all_tokens :: "relay_observation list \<Rightarrow> token_view list" where
  "all_tokens relays = dedupe_tokens (concat (map ro_tokens (ok_relays relays)))"

text \<open>The owners of every proof of the naive view: the loops over tokens and their proofs.\<close>

definition own_proof :: "token_view \<Rightarrow> proof_view \<Rightarrow>
    (string, proof_view \<times> string list) jsmap \<Rightarrow> (string, proof_view \<times> string list) jsmap" where
  "own_proof token p m = (let key = mintProofKey (tv_mint token) (pv_y p) in
     case map_of m key of
       Some (first, ids) \<Rightarrow>
         if tv_eventId token \<in> set ids then m else mp_set m key (first, ids @ [tv_eventId token])
     | None \<Rightarrow> mp_set m key (p, [tv_eventId token]))"

definition own_token :: "token_view \<Rightarrow>
    (string, proof_view \<times> string list) jsmap \<Rightarrow> (string, proof_view \<times> string list) jsmap" where
  "own_token token m = fold (own_proof token) (tv_proofs token) m"

definition proof_owners :: "token_view list \<Rightarrow> (string, proof_view \<times> string list) jsmap" where
  "proof_owners tokens = fold own_token tokens []"

definition duplicate_proofs :: "(string \<Rightarrow> string \<Rightarrow> int) \<Rightarrow> (string, proof_view \<times> string list) jsmap \<Rightarrow> duplicate_proof list" where
  "duplicate_proofs lc owners =
     js_sort (\<lambda>a b. lc (dp_y a) (dp_y b))
       (map (\<lambda>(key, p, ids). \<lparr>dp_y = pv_y p, dp_amount = pv_amount p, dp_eventIds = sort ids\<rparr>)
         (filter (\<lambda>(key, p, ids). length ids > 1) owners))"

definition token_keys :: "token_view \<Rightarrow> string list" where
  "token_keys t = map (\<lambda>p. mintProofKey (tv_mint t) (pv_y p)) (tv_proofs t)"

text \<open>The orphan candidates: proofs of events that are not live which no live event carries.\<close>

definition orphan_proof :: "string list \<Rightarrow> token_view \<Rightarrow> proof_view \<Rightarrow>
    (string, orphan_candidate) jsmap \<Rightarrow> (string, orphan_candidate) jsmap" where
  "orphan_proof liveYs token p m = (let key = mintProofKey (tv_mint token) (pv_y p) in
     if key \<in> set liveYs then m
     else case map_of m key of
       Some c \<Rightarrow> mp_set m key (c\<lparr>oc_lastSeenIn := js_set (oc_lastSeenIn c @ [tv_eventId token])\<rparr>)
     | None \<Rightarrow> mp_set m key \<lparr>oc_y = pv_y p, oc_keysetId = pv_keysetId p, oc_amount = pv_amount p,
                            oc_mint = tv_mint token, oc_lastSeenIn = [tv_eventId token]\<rparr>)"

definition orphan_token :: "string list \<Rightarrow> string list \<Rightarrow> token_view \<Rightarrow>
    (string, orphan_candidate) jsmap \<Rightarrow> (string, orphan_candidate) jsmap" where
  "orphan_token liveIds liveYs token m =
     (if tv_eventId token \<in> set liveIds then m else fold (orphan_proof liveYs token) (tv_proofs token) m)"

definition orphan_candidates :: "(string \<Rightarrow> string \<Rightarrow> int) \<Rightarrow> token_view list \<Rightarrow> token_view list \<Rightarrow> orphan_candidate list" where
  "orphan_candidates lc allTokens live =
     js_sort (\<lambda>a b. lc (oc_y a) (oc_y b))
       (map (\<lambda>c. c\<lparr>oc_lastSeenIn := sort (oc_lastSeenIn c)\<rparr>)
         (mp_values (fold (orphan_token (map tv_eventId live) (concat (map token_keys live))) allTokens [])))"

definition deleted_anywhere :: "relay_observation list \<Rightarrow> string list" where
  "deleted_anywhere relays = js_set (concat (map deleted_here (ok_relays relays)))"

definition superseded_anywhere :: "relay_observation list \<Rightarrow> string list" where
  "superseded_anywhere relays = js_set (concat (map tv_del (all_tokens relays)))"

definition live_tokens :: "relay_observation list \<Rightarrow> token_view list" where
  "live_tokens relays = filter (\<lambda>t. tv_eventId t \<notin> set (deleted_anywhere relays) \<and>
      tv_eventId t \<notin> set (superseded_anywhere relays)) (all_tokens relays)"

definition naive_tokens :: "relay_observation list \<Rightarrow> token_view list" where
  "naive_tokens relays = dedupe_tokens (concat (map (\<lambda>r. rv_liveTokens (reconstructRelay r)) (ok_relays relays)))"

definition reconstructMerged :: "(string \<Rightarrow> string \<Rightarrow> int) \<Rightarrow> relay_observation list \<Rightarrow> merged_view" where
  "reconstructMerged lc relays =
     (let allTokens = all_tokens relays;
          allWallet = dedupe_wallets (concat (map ro_wallet (ok_relays relays)));
          live = live_tokens relays;
          naive = naive_tokens relays;
          owners = proof_owners naive;
          naiveBalance = sumTokens naive;
          uniqueBalance = sum_list (map (\<lambda>(p, ids). pv_amount p) (mp_values owners))
      in \<lparr>mg_walletEvent = latestWalletEvent allWallet,
          mg_liveTokens = live,
          mg_naiveLiveTokens = naive,
          mg_balance = sumTokens live,
          mg_naiveBalance = naiveBalance,
          mg_doubleCounted = naiveBalance - uniqueBalance,
          mg_duplicateProofs = duplicate_proofs lc owners,
          mg_supersededAnywhere = sort (superseded_anywhere relays),
          mg_orphanCandidates = orphan_candidates lc allTokens live\<rparr>)"

definition reconstruct :: "(string \<Rightarrow> string \<Rightarrow> int) \<Rightarrow> doctor_observation \<Rightarrow> reconstruction" where
  "reconstruct lc ob =
     \<lparr>rx_perRelay = map reconstructRelay (ob_relays ob), rx_merged = reconstructMerged lc (ob_relays ob)\<rparr>"

definition indexMintTruth :: "mint_observation list \<Rightarrow> (string, mint_observation) jsmap" where
  "indexMintTruth mint = foldl (\<lambda>m o'. mp_set m (mintProofKey (mo_mint o') (mo_y o')) o') [] mint"

section \<open>Repair plans\<close>

datatype repair_step =
    Republish_event string "string list"
  | Publish_rollover string string string "string list" "string list" "string list"
  | Delete_events "string list" "string list"
  | Republish_wallet_event string "string list"
  | Wallet_action string "string list"

record repair_plan =
  rp_subject :: string
  rp_captureDigest :: string
  rp_steps :: "repair_step list"

record plan_state =
  ps_liveTokens :: "(string, token_view) jsmap"
  ps_proofsByY :: "(string, proof_view) jsmap"

definition index_proof :: "token_view \<Rightarrow> proof_view \<Rightarrow> (string, proof_view) jsmap \<Rightarrow> (string, proof_view) jsmap" where
  "index_proof token p m = (let key = mintProofKey (tv_mint token) (pv_y p) in
     if map_of m key = None then mp_set m key p else m)"

definition initialPlanState :: "token_view list \<Rightarrow> token_view list \<Rightarrow> plan_state" where
  "initialPlanState live allTokens =
     \<lparr>ps_liveTokens = foldl (\<lambda>m t. mp_set m (tv_eventId t) t) [] live,
      ps_proofsByY = fold (\<lambda>t. fold (index_proof t) (tv_proofs t)) allTokens []\<rparr>"

definition delete_ids :: "string list \<Rightarrow> (string, token_view) jsmap \<Rightarrow> (string, token_view) jsmap" where
  "delete_ids ids m = fold (\<lambda>i m. mp_delete m i) ids m"

definition covered_proof :: "plan_state \<Rightarrow> string \<Rightarrow> string \<Rightarrow> string \<Rightarrow> string + proof_view" where
  "covered_proof st rolloverId mint y = (case map_of (ps_proofsByY st) (mintProofKey mint y) of
     None \<Rightarrow> Inl (''rollover '' @ rolloverId @ '' covers unknown proof y '' @ y)
   | Some p \<Rightarrow> Inr p)"

fun simulate_step :: "plan_state \<Rightarrow> repair_step \<Rightarrow> string + plan_state" where
  "simulate_step st (Publish_rollover rolloverId mint unit coveredYs del toRelays) =
     rbind (traverse (covered_proof st rolloverId mint) coveredYs) (\<lambda>proofs.
       Inr (st\<lparr>ps_liveTokens := mp_set (delete_ids del (ps_liveTokens st)) rolloverId
         \<lparr>tv_eventId = rolloverId, tv_createdAt = max_safe_integer, tv_mint = mint, tv_unit = unit,
          tv_proofs = proofs, tv_del = del, tv_seenOn = toRelays\<rparr>\<rparr>))"
| "simulate_step st (Delete_events eventIds toRelays) =
     Inr (st\<lparr>ps_liveTokens := delete_ids eventIds (ps_liveTokens st)\<rparr>)"
| "simulate_step st (Republish_event eventId toRelays) = Inr st"
| "simulate_step st (Republish_wallet_event eventId toRelays) = Inr st"
| "simulate_step st (Wallet_action mint ys) = Inr st"

definition simulatePlan :: "plan_state \<Rightarrow> repair_step list \<Rightarrow> string + plan_state" where
  "simulatePlan st steps = rfold simulate_step st steps"

definition planStateBalance :: "plan_state \<Rightarrow> int" where
  "planStateBalance st = sumTokens (mp_values (ps_liveTokens st))"

definition count_proof :: "string \<Rightarrow> string list \<times> int \<Rightarrow> proof_view \<Rightarrow> string list \<times> int" where
  "count_proof mint acc p = (let key = mintProofKey mint (pv_y p) in
     if key \<in> set (fst acc) then acc else (fst acc @ [key], snd acc + pv_amount p))"

definition planStateUniqueBalance :: "plan_state \<Rightarrow> int" where
  "planStateUniqueBalance st =
     snd (foldl (\<lambda>acc t. foldl (count_proof (tv_mint t)) acc (tv_proofs t)) ([], 0) (mp_values (ps_liveTokens st)))"

section \<open>Merging of events\<close>

text \<open>
  What merging uses of an event: an identifier that replacing the list of relays does not change.
\<close>

locale event_views =
  fixes event_id :: "'e \<Rightarrow> string" and seen_on :: "'e \<Rightarrow> string list" and with_seen :: "string list \<Rightarrow> 'e \<Rightarrow> 'e"
  assumes id_with_seen: "event_id (with_seen s e) = event_id e"
    and seen_with_seen: "seen_on (with_seen s e) = s"
begin

definition merging :: "'e list \<Rightarrow> (string, 'e \<times> string list) jsmap" where
  "merging es = fold (dedupe_step event_id seen_on) es []"

lemma merging_snoc: "merging (es @ [e]) = dedupe_step event_id seen_on e (merging es)"
  by (simp add: merging_def)

lemma merging_mp_ok: "mp_ok (merging es)"
  by (induction es rule: rev_induct) (auto simp: merging_snoc dedupe_step_def merging_def split: option.splits)

lemma merging_first: "map_option fst (map_of (merging es) i) = find (\<lambda>e. event_id e = i) es"
proof (induction es rule: rev_induct)
  case Nil
  then show ?case by (simp add: merging_def)
next
  case (snoc e es)
  show ?case
  proof (cases "i = event_id e")
    case True
    then show ?thesis
      using snoc.IH by (auto simp: merging_snoc dedupe_step_def find_append split: option.splits)
  next
    case False
    then show ?thesis
      using snoc.IH by (auto simp: merging_snoc dedupe_step_def find_append split: option.splits)
  qed
qed

lemma merging_seen:
  "map_of (merging es) i = Some (e, s) \<Longrightarrow> set s = (\<Union>x \<in> {x \<in> set es. event_id x = i}. set (seen_on x))"
proof (induction es arbitrary: e s rule: rev_induct)
  case Nil
  then show ?case by (simp add: merging_def)
next
  case (snoc x es)
  have *: "{y \<in> set (es @ [x]). event_id y = i} =
      (if event_id x = i then insert x {y \<in> set es. event_id y = i} else {y \<in> set es. event_id y = i})"
    by auto
  have none: "map_of (merging es) i = None \<Longrightarrow> {y \<in> set es. event_id y = i} = {}"
    using merging_first [of es i] by (simp add: eq_commute [of None] find_None_iff)
  show ?case
    using snoc.prems snoc.IH none unfolding *
    by (auto simp: merging_snoc dedupe_step_def split: option.splits if_splits; blast)
qed

abbreviation deduped :: "'e list \<Rightarrow> 'e list" where
  "deduped \<equiv> dedupeEvents event_id seen_on with_seen"

lemma deduped_iff:
  "x \<in> set (deduped es) \<longleftrightarrow> (\<exists>e s. map_of (merging es) (event_id e) = Some (e, s) \<and> x = with_seen (sort s) e)"
proof -
  have id: "\<And>i e s. map_of (merging es) i = Some (e, s) \<Longrightarrow> event_id e = i"
    using merging_first [of es] by (metis (mono_tags) find_SomeD fst_conv option.map(2))
  have "x \<in> set (deduped es) \<longleftrightarrow> (\<exists>e s. (e, s) \<in> set (mp_values (merging es)) \<and> x = with_seen (sort s) e)"
    by (force simp: dedupeEvents_def merging_def [symmetric])
  then show ?thesis
    using id by (auto simp: in_mp_values [OF merging_mp_ok]) blast+
qed

lemma deduped_from: "x \<in> set (deduped es) \<Longrightarrow> \<exists>e \<in> set es. \<exists>s. x = with_seen s e \<and> find (\<lambda>y. event_id y = event_id x) es = Some e"
  using merging_first [of es] unfolding deduped_iff
  by (metis (mono_tags) find_SomeD fst_conv id_with_seen option.map(2))

lemma deduped_seen:
  "x \<in> set (deduped es) \<Longrightarrow> set (seen_on x) = (\<Union>y \<in> {y \<in> set es. event_id y = event_id x}. set (seen_on y))"
  unfolding deduped_iff using merging_seen [of es] by (auto simp: id_with_seen seen_with_seen)

lemma deduped_has: 
  assumes "e \<in> set es"
  shows "\<exists>x \<in> set (deduped es). event_id x = event_id e"
proof -
  obtain f where "find (\<lambda>y. event_id y = event_id e) es = Some f"
    using find_Some_exists [OF assms, of "\<lambda>y. event_id y = event_id e"] by auto
  then obtain s where "map_of (merging es) (event_id e) = Some (f, s)" and "event_id f = event_id e"
    using merging_first [of es "event_id e"] by (auto dest!: find_SomeD simp: map_option_case split: option.splits)
  then show ?thesis
    unfolding Bex_def deduped_iff by (metis id_with_seen)
qed

lemma deduped_distinct: "distinct (map event_id (deduped es))"
proof -
  have "\<And>p. p \<in> set (merging es) \<Longrightarrow> event_id (fst (snd p)) = fst p"
    using merging_mp_ok [of es] merging_first [of es]
    by (metis (mono_tags) find_SomeD map_of_eq_Some_iff mp_ok_def option.map(2) prod.collapse)
  then have "map event_id (deduped es) = map fst (merging es)"
    by (auto simp: dedupeEvents_def merging_def [symmetric] mp_values_def id_with_seen split: prod.splits)
  then show ?thesis
    using merging_mp_ok [of es] by (simp add: mp_ok_def)
qed

lemma deduped_ids: "event_id ` set (deduped es) = event_id ` set es"
  using deduped_from deduped_has by (auto simp: id_with_seen image_iff) (metis id_with_seen)+

end

interpretation tokens: event_views tv_eventId tv_seenOn "\<lambda>s t. t\<lparr>tv_seenOn := s\<rparr>"
  by unfold_locales simp_all

interpretation wallets: event_views wv_eventId wv_seenOn "\<lambda>s w. w\<lparr>wv_seenOn := s\<rparr>"
  by unfold_locales simp_all

end
