(* ===== verification/Doctor_Diagnose.thy ===== *)
theory Doctor_Diagnose
  imports Doctor_Core
begin

text \<open>
  The diagnosis rules of the wallet doctor: \<open>packages/wallet-doctor-oracle/src/diagnose.ts\<close>. One function per
  rule, in the order of the source; the template texts of the summaries are included.
\<close>

datatype diagnosis_code =
    Relay_partition | Ghost_token | Orphaned_proofs | Del_chain_break | Wallet_event_fork
  | Deletion_not_propagated | History_gap | Quote_limbo | Malformed_event

fun code_text :: "diagnosis_code \<Rightarrow> string" where
  "code_text Relay_partition = ''RELAY_PARTITION''"
| "code_text Ghost_token = ''GHOST_TOKEN''"
| "code_text Orphaned_proofs = ''ORPHANED_PROOFS''"
| "code_text Del_chain_break = ''DEL_CHAIN_BREAK''"
| "code_text Wallet_event_fork = ''WALLET_EVENT_FORK''"
| "code_text Deletion_not_propagated = ''DELETION_NOT_PROPAGATED''"
| "code_text History_gap = ''HISTORY_GAP''"
| "code_text Quote_limbo = ''QUOTE_LIMBO''"
| "code_text Malformed_event = ''MALFORMED_EVENT''"

datatype severity = Sev_error | Sev_warning | Sev_info

fun severity_order :: "severity \<Rightarrow> int" where
  "severity_order Sev_error = 0"
| "severity_order Sev_warning = 1"
| "severity_order Sev_info = 2"

record finding =
  fd_code :: diagnosis_code
  fd_severity :: severity
  fd_summary :: string
  fd_relays :: "string list"
  fd_eventIds :: "string list"
  fd_ys :: "string list"
  fd_mint :: "string option"
  fd_amountAtRisk :: int

record relay_balance =
  rb_url :: string
  rb_status :: relay_status
  rb_balance :: int

record balance_explanation =
  be_perRelay :: "relay_balance list"
  be_naiveMerged :: int
  be_merged :: int
  be_mintVerified :: int
  be_doubleCounted :: int
  be_ghost :: int
  be_orphanedUnspent :: int

record diagnosis =
  dg_subject :: string
  dg_findings :: "finding list"
  dg_balance :: balance_explanation
  dg_ok :: bool

section \<open>Texts\<close>

definition maximum_summary :: nat where
  "maximum_summary = 8192"

fun reason_text :: "malformed_reason \<Rightarrow> string" where
  "reason_text Decryption_failed = ''decryption_failed''"
| "reason_text Invalid_payload = ''invalid_payload''"
| "reason_text Invalid_signature = ''invalid_signature''"
| "reason_text Wallet_without_mints = ''wallet_without_mints''"

definition first_text :: "string list \<Rightarrow> string" where
  "first_text xs = (case xs of [] \<Rightarrow> [] | x # _ \<Rightarrow> x)"

section \<open>Rules\<close>

definition sumAmounts :: "token_view list \<Rightarrow> int" where
  "sumAmounts tokens = sum_list (map (\<lambda>t. sum_list (map pv_amount (tv_proofs t))) tokens)"

definition finding_order :: "(string \<Rightarrow> string \<Rightarrow> int) \<Rightarrow> finding \<Rightarrow> finding \<Rightarrow> int" where
  "finding_order lc a b =
     (let severity = severity_order (fd_severity a) - severity_order (fd_severity b);
          code = lc (code_text (fd_code a)) (code_text (fd_code b));
          event = lc (first_text (fd_eventIds a)) (first_text (fd_eventIds b)) in
      if severity \<noteq> 0 then severity else if code \<noteq> 0 then code else if event \<noteq> 0 then event
      else lc (first_text (fd_ys a)) (first_text (fd_ys b)))"

definition sortFindings :: "(string \<Rightarrow> string \<Rightarrow> int) \<Rightarrow> finding list \<Rightarrow> finding list" where
  "sortFindings lc findings = js_sort (finding_order lc) findings"

definition state_of :: "(string, mint_observation) jsmap \<Rightarrow> string \<Rightarrow> string \<Rightarrow> doctor_state option" where
  "state_of mintByY mint y = map_option mo_state (map_of mintByY (mintProofKey mint y))"

definition partition_finding :: "string list \<Rightarrow> token_view \<Rightarrow> finding list" where
  "partition_finding okUrls token =
     (let present = filter (\<lambda>u. u \<in> set okUrls) (tv_seenOn token);
          absent = filter (\<lambda>u. u \<notin> set (tv_seenOn token)) okUrls in
      if present = [] \<or> absent = [] then []
      else [\<lparr>fd_code = Relay_partition, fd_severity = Sev_warning,
             fd_summary = ''token event '' @ tv_eventId token @ '' is served by '' @ int_text (int (length present)) @
               '' of '' @ int_text (int (length okUrls)) @ '' relays; applications reading only '' @
               join_text '', '' absent @ '' never see it'',
             fd_relays = present @ absent, fd_eventIds = [tv_eventId token],
             fd_ys = map pv_y (tv_proofs token), fd_mint = None, fd_amountAtRisk = sumAmounts [token]\<rparr>])"

definition relayPartitions :: "merged_view \<Rightarrow> string list \<Rightarrow> finding list" where
  "relayPartitions merged okUrls = concat (map (partition_finding okUrls) (mg_liveTokens merged))"

definition ghost_finding :: "(string, mint_observation) jsmap \<Rightarrow> token_view \<Rightarrow> finding list" where
  "ghost_finding mintByY token =
     (let spent = filter (\<lambda>p. state_of mintByY (tv_mint token) (pv_y p) = Some Is_spent) (tv_proofs token) in
      if tv_proofs token = [] then []
      else if list_ex (\<lambda>p. state_of mintByY (tv_mint token) (pv_y p) = None) (tv_proofs token) then []
      else if spent = [] then []
      else [\<lparr>fd_code = Ghost_token, fd_severity = Sev_error,
             fd_summary = ''token event '' @ tv_eventId token @ '' is live on '' @ join_text '', '' (tv_seenOn token) @
               '' but '' @ int_text (int (length spent)) @ '' of '' @ int_text (int (length (tv_proofs token))) @
               '' proof(s) are SPENT at '' @ tv_mint token @ ''; applications show '' @
               int_text (sum_list (map pv_amount spent)) @ '' sats that are gone'',
             fd_relays = tv_seenOn token, fd_eventIds = [tv_eventId token],
             fd_ys = sort (map pv_y spent), fd_mint = None, fd_amountAtRisk = sum_list (map pv_amount spent)\<rparr>])"

definition ghostTokens :: "merged_view \<Rightarrow> (string, mint_observation) jsmap \<Rightarrow> finding list" where
  "ghostTokens merged mintByY = concat (map (ghost_finding mintByY) (mg_liveTokens merged))"

text \<open>The entry of one mint: its proofs, the events that carried them, the amount.\<close>

definition add_orphan :: "(string, mint_observation) jsmap \<Rightarrow> orphan_candidate \<Rightarrow>
    (string, string list \<times> string list \<times> int) jsmap \<Rightarrow> (string, string list \<times> string list \<times> int) jsmap" where
  "add_orphan mintByY c m =
     (if state_of mintByY (oc_mint c) (oc_y c) \<noteq> Some Is_unspent then m
      else let (ys, ids, amount) = (case map_of m (oc_mint c) of Some e \<Rightarrow> e | None \<Rightarrow> ([], [], 0))
           in mp_set m (oc_mint c) (ys @ [oc_y c], js_set (ids @ oc_lastSeenIn c), amount + oc_amount c))"

definition orphanedProofs :: "(string \<Rightarrow> string \<Rightarrow> int) \<Rightarrow> merged_view \<Rightarrow> (string, mint_observation) jsmap \<Rightarrow> finding list" where
  "orphanedProofs lc merged mintByY =
     map (\<lambda>(mint, ys, ids, amount).
        \<lparr>fd_code = Orphaned_proofs, fd_severity = Sev_error,
         fd_summary = int_text (int (length ys)) @ '' proof(s) worth '' @ int_text amount @ '' sats are UNSPENT at '' @
           mint @ '' but no live token event references them; a deletion or rollover reached the relays without its successor'',
         fd_relays = [], fd_eventIds = sort ids, fd_ys = sort ys, fd_mint = Some mint, fd_amountAtRisk = amount\<rparr>)
       (js_sort (\<lambda>a b. lc (fst a) (fst b)) (fold (add_orphan mintByY) (mg_orphanCandidates merged) []))"

definition still_live_on :: "relay_view list \<Rightarrow> string \<Rightarrow> string list" where
  "still_live_on perRelay i =
     sort (map rv_url (filter (\<lambda>v. list_ex (\<lambda>t. tv_eventId t = i) (rv_liveTokens v)) perRelay))"

definition break_finding :: "merged_view \<Rightarrow> relay_view list \<Rightarrow> token_view \<Rightarrow> finding list" where
  "break_finding merged perRelay token =
     (let stillLiveOn = still_live_on perRelay (tv_eventId token) in
      if tv_eventId token \<in> tv_eventId ` set (mg_liveTokens merged) then []
      else if tv_eventId token \<notin> set (mg_supersededAnywhere merged) then []
      else if stillLiveOn = [] then []
      else [\<lparr>fd_code = Del_chain_break, fd_severity = Sev_error,
             fd_summary = ''token event '' @ tv_eventId token @ '' was rolled over but its deletion never reached '' @
               join_text '', '' stillLiveOn @ ''; a naive merge counts its proofs twice'',
             fd_relays = stillLiveOn, fd_eventIds = [tv_eventId token],
             fd_ys = map pv_y (tv_proofs token), fd_mint = None, fd_amountAtRisk = sumAmounts [token]\<rparr>])"

definition delChainBreaks :: "merged_view \<Rightarrow> relay_view list \<Rightarrow> finding list" where
  "delChainBreaks merged perRelay = concat (map (break_finding merged perRelay) (mg_naiveLiveTokens merged))"

definition fork_finding :: "string \<Rightarrow> string list \<Rightarrow> string list \<Rightarrow> finding" where
  "fork_finding summary relays ids =
     \<lparr>fd_code = Wallet_event_fork, fd_severity = Sev_error, fd_summary = summary, fd_relays = relays,
      fd_eventIds = ids, fd_ys = [], fd_mint = None, fd_amountAtRisk = 0\<rparr>"

definition stale_relays :: "relay_view list \<Rightarrow> wallet_view \<Rightarrow> string list" where
  "stale_relays perRelay global = sort (map rv_url (filter (\<lambda>v. rv_status v = Relay_ok \<and>
     (case rv_walletEvent v of None \<Rightarrow> False | Some w \<Rightarrow> wv_eventId w \<noteq> wv_eventId global)) perRelay))"

definition missing_relays :: "relay_observation list \<Rightarrow> string list" where
  "missing_relays relays = sort (map ro_url (filter (\<lambda>r. ro_status r = Relay_ok \<and> ro_wallet r = []) relays))"

definition walletEventForks :: "doctor_observation \<Rightarrow> relay_view list \<Rightarrow> merged_view \<Rightarrow> string list \<Rightarrow> finding list" where
  "walletEventForks ob perRelay merged okUrls = (case mg_walletEvent merged of
     None \<Rightarrow>
       if okUrls = [] then []
       else [fork_finding (''relays '' @ join_text '', '' okUrls @
               '' serve no kind:17375 wallet event; applications do not recognize the wallet'') okUrls []]
   | Some global \<Rightarrow>
       (let stale = stale_relays perRelay global;
            missing = missing_relays (ob_relays ob);
            staleIds = sort (filter (\<lambda>i. i \<noteq> []) (map (\<lambda>v. case rv_walletEvent v of None \<Rightarrow> [] | Some w \<Rightarrow> wv_eventId w)
              (filter (\<lambda>v. rv_url v \<in> set stale \<and> rv_walletEvent v \<noteq> None) perRelay))) in
        (if stale = [] then []
         else [fork_finding (''relays '' @ join_text '', '' stale @ '' serve a stale kind:17375 wallet event instead of '' @
                 wv_eventId global @ ''; applications may use different mint sets or fail to recognize the wallet'')
                 stale (wv_eventId global # staleIds)]) @
        (if missing = [] \<or> length okUrls \<le> length missing then []
         else [fork_finding (''relays '' @ join_text '', '' missing @ '' serve no kind:17375 wallet event while others serve '' @
                 wv_eventId global @ ''; applications reading only those relays do not recognize the wallet'')
                 missing [wv_eventId global]])))"

definition unpropagated_finding :: "merged_view \<Rightarrow> relay_view list \<Rightarrow> relay_observation \<Rightarrow> deletion_view \<Rightarrow> string \<Rightarrow> finding list" where
  "unpropagated_finding merged perRelay relay deletion target =
     (let stillLiveOn = still_live_on (filter (\<lambda>v. rv_url v \<noteq> ro_url relay) perRelay) target in
      if target \<in> set (mg_supersededAnywhere merged) then []
      else if target \<in> tv_eventId ` set (mg_liveTokens merged) then []
      else if stillLiveOn = [] then []
      else [\<lparr>fd_code = Deletion_not_propagated, fd_severity = Sev_warning,
             fd_summary = ''kind:5 deletion '' @ dv_eventId deletion @ '' reached '' @ ro_url relay @ '' but '' @
               join_text '', '' stillLiveOn @ '' still serve '' @ target @ '' as live; balances flap between applications'',
             fd_relays = ro_url relay # stillLiveOn, fd_eventIds = [dv_eventId deletion, target],
             fd_ys = [], fd_mint = None, fd_amountAtRisk = 0\<rparr>])"

text \<open>The second event of a finding, and the filter that keeps the first finding for each.\<close>

definition second_event :: "finding \<Rightarrow> string" where
  "second_event f = (case fd_eventIds f of _ # t # _ \<Rightarrow> t | _ \<Rightarrow> [])"

fun first_per_target :: "string list \<Rightarrow> finding list \<Rightarrow> finding list" where
  "first_per_target seen [] = []"
| "first_per_target seen (f # fs) =
     (if second_event f \<in> set seen then first_per_target seen fs
      else f # first_per_target (second_event f # seen) fs)"

definition deletionsNotPropagated :: "doctor_observation \<Rightarrow> merged_view \<Rightarrow> relay_view list \<Rightarrow> finding list" where
  "deletionsNotPropagated ob merged perRelay =
     first_per_target [] (concat (map (\<lambda>relay.
       concat (map (\<lambda>deletion. concat (map (unpropagated_finding merged perRelay relay deletion) (dv_targets deletion)))
         (ro_deletions relay))) (ok_relays (ob_relays ob))))"

definition known_ids :: "relay_observation list \<Rightarrow> string list" where
  "known_ids relays = js_set (concat (map (\<lambda>r. map tv_eventId (ro_tokens r) @ concat (map dv_targets (ro_deletions r))) (ok_relays relays)))"

definition historyGaps :: "doctor_observation \<Rightarrow> finding list" where
  "historyGaps ob =
     (let known = known_ids (ob_relays ob);
          unknown = js_set (filter (\<lambda>r. r \<notin> set known) (concat (map (\<lambda>relay.
            concat (map (\<lambda>h. hv_created h @ hv_destroyed h @ hv_redeemed h) (ro_history relay))) (ok_relays (ob_relays ob))))) in
      if unknown = [] then []
      else [\<lparr>fd_code = History_gap, fd_severity = Sev_info,
             fd_summary = ''spending history references '' @ int_text (int (length unknown)) @
               '' unknown token event(s); transaction history is incomplete or inconsistent with relay token state'',
             fd_relays = [], fd_eventIds = sort unknown, fd_ys = [], fd_mint = None, fd_amountAtRisk = 0\<rparr>])"

definition quoteLimbo :: "doctor_observation \<Rightarrow> int \<Rightarrow> finding list" where
  "quoteLimbo ob now =
     (let pending = filter (\<lambda>q. case qv_expiration q of None \<Rightarrow> True | Some e \<Rightarrow> e > now)
            (concat (map ro_quotes (ok_relays (ob_relays ob))));
          ids = sort (js_set (map qv_eventId pending)) in
      if pending = [] then []
      else [\<lparr>fd_code = Quote_limbo, fd_severity = Sev_info,
             fd_summary = int_text (int (length ids)) @
               '' unexpired kind:7374 quote event(s) sit on relays; a minting wallet may be waiting on quotes another application cannot see complete'',
             fd_relays = [], fd_eventIds = ids, fd_ys = [], fd_mint = None, fd_amountAtRisk = 0\<rparr>])"

definition malformed_finding :: "relay_observation \<Rightarrow> malformed_view \<Rightarrow> finding" where
  "malformed_finding relay m =
     \<lparr>fd_code = Malformed_event,
      fd_severity = (if mv_kind m = Some 17375 \<or> mv_kind m = Some 7375 then Sev_error else Sev_warning),
      fd_summary = (case mv_kind m of None \<Rightarrow> ''event'' | Some k \<Rightarrow> ''kind:'' @ int_text k @ '' event'') @ '' '' @
        (case mv_eventId m of None \<Rightarrow> ''(unparseable)'' | Some i \<Rightarrow> i) @ '' on '' @ ro_url relay @ '': '' @ reason_text (mv_reason m),
      fd_relays = [ro_url relay],
      fd_eventIds = (case mv_eventId m of None \<Rightarrow> [] | Some i \<Rightarrow> [i]),
      fd_ys = [], fd_mint = None, fd_amountAtRisk = 0\<rparr>"

definition malformedEvents :: "doctor_observation \<Rightarrow> finding list" where
  "malformedEvents ob = concat (map (\<lambda>r. map (malformed_finding r) (ro_malformed r)) (ob_relays ob))"

definition live_value :: "merged_view \<Rightarrow> (string, mint_observation) jsmap \<Rightarrow> doctor_state \<Rightarrow> int" where
  "live_value merged mintByY st = sum_list (map (\<lambda>t. sumProofs
     (filter (\<lambda>p. state_of mintByY (tv_mint t) (pv_y p) = Some st) (tv_proofs t))) (mg_liveTokens merged))"

definition explainBalance :: "relay_view list \<Rightarrow> merged_view \<Rightarrow> (string, mint_observation) jsmap \<Rightarrow> balance_explanation" where
  "explainBalance perRelay merged mintByY =
     (let orphanedUnspent = sum_list (map oc_amount
            (filter (\<lambda>c. state_of mintByY (oc_mint c) (oc_y c) = Some Is_unspent) (mg_orphanCandidates merged))) in
      \<lparr>be_perRelay = map (\<lambda>v. \<lparr>rb_url = rv_url v, rb_status = rv_status v, rb_balance = rv_balance v\<rparr>) perRelay,
       be_naiveMerged = mg_naiveBalance merged,
       be_merged = mg_balance merged,
       be_mintVerified = live_value merged mintByY Is_unspent + orphanedUnspent,
       be_doubleCounted = mg_doubleCounted merged,
       be_ghost = live_value merged mintByY Is_spent,
       be_orphanedUnspent = orphanedUnspent\<rparr>)"

definition ok_relay_urls :: "relay_observation list \<Rightarrow> string list" where
  "ok_relay_urls relays = sort (map ro_url (ok_relays relays))"

definition all_findings :: "(string \<Rightarrow> string \<Rightarrow> int) \<Rightarrow> doctor_observation \<Rightarrow> int \<Rightarrow> finding list" where
  "all_findings lc ob now =
     (let perRelay = rx_perRelay (reconstruct lc ob);
          merged = rx_merged (reconstruct lc ob);
          mintByY = indexMintTruth (ob_mint ob);
          okUrls = ok_relay_urls (ob_relays ob) in
      relayPartitions merged okUrls @ ghostTokens merged mintByY @ orphanedProofs lc merged mintByY @
      delChainBreaks merged perRelay @ walletEventForks ob perRelay merged okUrls @
      deletionsNotPropagated ob merged perRelay @ historyGaps ob @ quoteLimbo ob now @ malformedEvents ob)"

definition diagnose :: "(string \<Rightarrow> string \<Rightarrow> int) \<Rightarrow> doctor_observation \<Rightarrow> int option \<Rightarrow> diagnosis" where
  "diagnose lc ob now =
     (let perRelay = rx_perRelay (reconstruct lc ob);
          merged = rx_merged (reconstruct lc ob);
          mintByY = indexMintTruth (ob_mint ob);
          bounded = map (\<lambda>f. f\<lparr>fd_summary := take maximum_summary (fd_summary f)\<rparr>)
            (all_findings lc ob (case now of None \<Rightarrow> 0 | Some n \<Rightarrow> n)) in
      \<lparr>dg_subject = ob_subject ob,
       dg_findings = sortFindings lc bounded,
       dg_balance = explainBalance perRelay merged mintByY,
       dg_ok = list_all (\<lambda>f. fd_severity f \<noteq> Sev_error) bounded\<rparr>)"

end
