(* ===== verification/Doctor_Plan.thy ===== *)
theory Doctor_Plan
  imports Doctor_Diagnose
begin

text \<open>
  Building and checking of repair plans: \<open>packages/wallet-doctor-oracle/src\<close> \<open>plan-build.ts\<close> and
  \<open>plan-check.ts\<close>. A loop of the source that appends to several lists is a fold over the tuple of them.
\<close>

section \<open>Building a plan\<close>

definition find_by_id :: "token_view list \<Rightarrow> string \<Rightarrow> token_view option" where
  "find_by_id tokens i = find (\<lambda>t. tv_eventId t = i) tokens"

definition findToken :: "token_view list \<Rightarrow> token_view list \<Rightarrow> string \<Rightarrow> token_view option" where
  "findToken live naive i = (case find_by_id live i of Some t \<Rightarrow> Some t | None \<Rightarrow> find_by_id naive i)"

definition covered_states :: "doctor_state list" where
  "covered_states = [Is_unspent, Is_pending]"

text \<open>The mints to consolidate and the events whose chain is broken.\<close>

definition note_token :: "merged_view \<Rightarrow> diagnosis_code \<Rightarrow> string \<Rightarrow> string list \<times> string list \<Rightarrow> string list \<times> string list" where
  "note_token merged code i acc = (case findToken (mg_liveTokens merged) (mg_naiveLiveTokens merged) i of
     None \<Rightarrow> acc
   | Some t \<Rightarrow> (js_set (fst acc @ [tv_mint t]), if code = Del_chain_break then js_set (snd acc @ [i]) else snd acc))"

definition note_finding :: "merged_view \<Rightarrow> finding \<Rightarrow> string list \<times> string list \<Rightarrow> string list \<times> string list" where
  "note_finding merged f acc =
     (if fd_code f = Ghost_token \<or> fd_code f = Del_chain_break
      then fold (note_token merged (fd_code f)) (fd_eventIds f) acc else acc)"

definition consolidation :: "merged_view \<Rightarrow> finding list \<Rightarrow> string list \<times> string list" where
  "consolidation merged findings = fold (note_finding merged) findings ([], [])"

definition republish_steps :: "merged_view \<Rightarrow> finding list \<Rightarrow> string list \<Rightarrow> string list \<Rightarrow> repair_step list" where
  "republish_steps merged findings mints okUrls =
     concat (map (\<lambda>i. case findToken (mg_liveTokens merged) (mg_naiveLiveTokens merged) i of
         None \<Rightarrow> []
       | Some t \<Rightarrow>
           (let lacking = filter (\<lambda>u. u \<notin> set (tv_seenOn t)) okUrls in
            if tv_mint t \<in> set mints \<or> lacking = [] then [] else [Republish_event i lacking]))
       (sort (js_set (concat (map fd_eventIds (filter (\<lambda>f. fd_code f = Relay_partition) findings))))))"

definition live_for_mint :: "merged_view \<Rightarrow> string \<Rightarrow> token_view list" where
  "live_for_mint merged mint = filter (\<lambda>t. tv_mint t = mint) (mg_liveTokens merged)"

definition delete_ids_for :: "merged_view \<Rightarrow> string list \<Rightarrow> string \<Rightarrow> string list" where
  "delete_ids_for merged broken mint =
     sort (js_set (map tv_eventId (live_for_mint merged mint) @
       map tv_eventId (filter (\<lambda>t. tv_mint t = mint \<and> tv_eventId t \<in> set broken) (mg_naiveLiveTokens merged))))"

definition deletes_unchecked :: "merged_view \<Rightarrow> (string, mint_observation) jsmap \<Rightarrow> string list \<Rightarrow> bool" where
  "deletes_unchecked merged mintByY ids =
     list_ex (\<lambda>i. case findToken (mg_liveTokens merged) (mg_naiveLiveTokens merged) i of
         None \<Rightarrow> False
       | Some t \<Rightarrow> list_ex (\<lambda>p. map_of mintByY (mintProofKey (tv_mint t) (pv_y p)) = None) (tv_proofs t)) ids"

definition covered_ys :: "merged_view \<Rightarrow> (string, mint_observation) jsmap \<Rightarrow> string \<Rightarrow> string list" where
  "covered_ys merged mintByY mint =
     sort (js_set (concat (map (\<lambda>t. map pv_y (filter (\<lambda>p.
       (case state_of mintByY (tv_mint t) (pv_y p) of None \<Rightarrow> Is_spent | Some s \<Rightarrow> s) \<in> set covered_states)
         (tv_proofs t))) (live_for_mint merged mint))))"

text \<open>One mint of the consolidation loop, over the next index and the two lists of steps.\<close>

definition consolidate_mint :: "merged_view \<Rightarrow> (string, mint_observation) jsmap \<Rightarrow> string list \<Rightarrow> string list \<Rightarrow> string \<Rightarrow>
    nat \<times> repair_step list \<times> repair_step list \<Rightarrow> nat \<times> repair_step list \<times> repair_step list" where
  "consolidate_mint merged mintByY broken okUrls mint acc =
     (case acc of (index, rollovers, deletes) \<Rightarrow>
       let deleteIds = delete_ids_for merged broken mint;
           covered = covered_ys merged mintByY mint;
           unit = (case live_for_mint merged mint of [] \<Rightarrow> ''sat'' | t # _ \<Rightarrow> tv_unit t) in
       if deleteIds = [] then acc
       else if deletes_unchecked merged mintByY deleteIds then acc
       else if covered \<noteq> []
       then (index + 1,
             rollovers @ [Publish_rollover (''planned:rollover:'' @ decimal_text index) mint unit covered deleteIds okUrls],
             deletes @ [Delete_events deleteIds okUrls])
       else (index, rollovers, deletes @ [Delete_events deleteIds okUrls]))"

definition wallet_steps :: "merged_view \<Rightarrow> finding list \<Rightarrow> repair_step list" where
  "wallet_steps merged findings = (case mg_walletEvent merged of
     None \<Rightarrow> []
   | Some w \<Rightarrow>
      (let forks = filter (\<lambda>f. fd_code f = Wallet_event_fork) findings;
           stale = sort (js_set (concat (map (\<lambda>f. filter (\<lambda>u. u \<notin> set (wv_seenOn w)) (fd_relays f)) forks))) in
       if forks = [] \<or> stale = [] then [] else [Republish_wallet_event (wv_eventId w) stale]))"

definition orphanMint :: "finding \<Rightarrow> mint_observation list \<Rightarrow> string option" where
  "orphanMint f mint = (case fd_mint f of
     Some m \<Rightarrow> Some m
   | None \<Rightarrow>
      if fd_ys f = [] then None
      else (case js_set (map mo_mint (filter (\<lambda>e. mo_y e \<in> set (fd_ys f) \<and> mo_state e = Is_unspent) mint)) of
              [m] \<Rightarrow> Some m | _ \<Rightarrow> None))"

definition action_steps :: "finding list \<Rightarrow> mint_observation list \<Rightarrow> repair_step list" where
  "action_steps findings mint =
     concat (map (\<lambda>f. case orphanMint f mint of None \<Rightarrow> [] | Some m \<Rightarrow> [Wallet_action m (fd_ys f)])
       (filter (\<lambda>f. fd_code f = Orphaned_proofs) findings))"

definition buildRepairPlan :: "(string \<Rightarrow> string \<Rightarrow> int) \<Rightarrow> doctor_observation \<Rightarrow> diagnosis \<Rightarrow> string \<Rightarrow> repair_plan" where
  "buildRepairPlan lc ob dg captureDigest =
     (let merged = rx_merged (reconstruct lc ob);
          mintByY = indexMintTruth (ob_mint ob);
          okUrls = ok_relay_urls (ob_relays ob);
          (mints, broken) = consolidation merged (dg_findings dg);
          (index, rollovers, deletes) = fold (consolidate_mint merged mintByY broken okUrls) (sort mints) (0, [], []) in
      \<lparr>rp_subject = ob_subject ob,
       rp_captureDigest = captureDigest,
       rp_steps = republish_steps merged (dg_findings dg) mints okUrls @ rollovers @ deletes @
         wallet_steps merged (dg_findings dg) @ action_steps (dg_findings dg) (ob_mint ob)\<rparr>)"

section \<open>Checking a plan\<close>

record plan_check =
  pc_ok :: bool
  pc_violations :: "string list"

fun rollover_keys :: "repair_step \<Rightarrow> string list" where
  "rollover_keys (Publish_rollover i mint unit covered del relays) = map (mintProofKey mint) covered"
| "rollover_keys _ = []"

fun restore_keys :: "repair_step \<Rightarrow> string list" where
  "restore_keys (Wallet_action mint ys) = map (mintProofKey mint) ys"
| "restore_keys _ = []"

definition coveredSets :: "repair_step list \<Rightarrow> string list \<times> string list" where
  "coveredSets steps = (js_set (concat (map rollover_keys steps)), js_set (concat (map restore_keys steps)))"

definition unknown_reference :: "string \<Rightarrow> string list" where
  "unknown_reference what = [''P3_UNKNOWN_REFERENCE: '' @ what]"

fun step_references :: "string list \<Rightarrow> string list \<Rightarrow> string list \<Rightarrow> repair_step \<Rightarrow> string list" where
  "step_references tokenIds walletIds knownYs (Republish_event i relays) =
     (if i \<notin> set tokenIds then unknown_reference (''republish '' @ i) else [])"
| "step_references tokenIds walletIds knownYs (Republish_wallet_event i relays) =
     (if i \<notin> set walletIds then unknown_reference (''wallet event '' @ i) else [])"
| "step_references tokenIds walletIds knownYs (Delete_events ids relays) =
     concat (map (\<lambda>i. if i \<notin> set tokenIds then unknown_reference (''delete '' @ i) else []) ids)"
| "step_references tokenIds walletIds knownYs (Publish_rollover r mint unit covered del relays) =
     concat (map (\<lambda>y. if mintProofKey mint y \<notin> set knownYs then unknown_reference (''rollover covers '' @ y) else []) covered) @
     concat (map (\<lambda>i. if i \<notin> set tokenIds then unknown_reference (''rollover del '' @ i) else []) del)"
| "step_references tokenIds walletIds knownYs (Wallet_action mint ys) =
     concat (map (\<lambda>y. if mintProofKey mint y \<notin> set knownYs then unknown_reference (''restore '' @ y) else []) ys)"

fun deleted_ids :: "repair_step \<Rightarrow> string list" where
  "deleted_ids (Delete_events ids relays) = ids"
| "deleted_ids (Publish_rollover r mint unit covered del relays) = del"
| "deleted_ids _ = []"

definition deleted_proof_check :: "(string, mint_observation) jsmap \<Rightarrow> string list \<Rightarrow> string list \<Rightarrow> string \<Rightarrow> string \<Rightarrow> proof_view \<Rightarrow> string list" where
  "deleted_proof_check mintByY rolloverYs restoreYs i mint p =
     (let key = mintProofKey mint (pv_y p) in
      case map_option mo_state (map_of mintByY key) of
        None \<Rightarrow> [''MISSING_MINT_TRUTH: '' @ pv_y p @ '' deleted with '' @ i @ '' is unchecked'']
      | Some st \<Rightarrow>
          if (st = Is_unspent \<or> st = Is_pending) \<and> key \<notin> set rolloverYs \<and> key \<notin> set restoreYs
          then [''P1_UNCOVERED_UNSPENT: '' @ pv_y p @ '' deleted with '' @ i] else [])"

definition deleted_event_check :: "(string, token_view) jsmap \<Rightarrow> (string, mint_observation) jsmap \<Rightarrow> string list \<Rightarrow> string list \<Rightarrow> string \<Rightarrow> string list" where
  "deleted_event_check tokensById mintByY rolloverYs restoreYs i = (case map_of tokensById i of
     None \<Rightarrow> []
   | Some t \<Rightarrow> concat (map (deleted_proof_check mintByY rolloverYs restoreYs i (tv_mint t)) (tv_proofs t)))"

text \<open>The scan of the state after the plan: the keys met, the duplicates, the violations.\<close>

definition scan_proof :: "(string, mint_observation) jsmap \<Rightarrow> string \<Rightarrow> string list \<times> nat \<times> string list \<Rightarrow> proof_view \<Rightarrow> string list \<times> nat \<times> string list" where
  "scan_proof mintByY mint acc p = (case acc of (keys, duplicates, violations) \<Rightarrow>
     let key = mintProofKey mint (pv_y p) in
     (js_set (keys @ [key]),
      if key \<in> set keys then duplicates + 1 else duplicates,
      if map_option mo_state (map_of mintByY key) = Some Is_spent
      then violations @ [''CONVERGENCE_SPENT_REMAINS: '' @ pv_y p] else violations))"

definition scan_state :: "(string, mint_observation) jsmap \<Rightarrow> plan_state \<Rightarrow> string list \<times> nat \<times> string list" where
  "scan_state mintByY st =
     foldl (\<lambda>acc t. foldl (scan_proof mintByY (tv_mint t)) acc (tv_proofs t)) ([], 0, []) (mp_values (ps_liveTokens st))"

definition live_proofs :: "merged_view \<Rightarrow> (string \<times> proof_view) list" where
  "live_proofs merged = concat (map (\<lambda>t. map (\<lambda>p. (tv_mint t, p)) (tv_proofs t)) (mg_liveTokens merged))"

definition expected_keys :: "(string, mint_observation) jsmap \<Rightarrow> merged_view \<Rightarrow> string list" where
  "expected_keys mintByY merged = js_set (map (\<lambda>(mint, p). mintProofKey mint (pv_y p))
     (filter (\<lambda>(mint, p). state_of mintByY mint (pv_y p) = Some Is_unspent \<or> state_of mintByY mint (pv_y p) = Some Is_pending)
       (live_proofs merged)))"

definition amount_of_key :: "token_view list \<Rightarrow> string \<Rightarrow> int" where
  "amount_of_key tokens key =
     (case find (\<lambda>(k, p). k = key) (concat (map (\<lambda>t. map (\<lambda>p. (mintProofKey (tv_mint t) (pv_y p), p)) (tv_proofs t)) tokens)) of
        None \<Rightarrow> 0 | Some (k, p) \<Rightarrow> pv_amount p)"

definition convergence_violations :: "(string, mint_observation) jsmap \<Rightarrow> merged_view \<Rightarrow> token_view list \<Rightarrow> plan_state \<Rightarrow> string list" where
  "convergence_violations mintByY merged allTokens once =
     (let (keys, duplicates, spent) = scan_state mintByY once;
          expectedBalance = sum_list (map (amount_of_key (mg_liveTokens merged @ allTokens)) (expected_keys mintByY merged)) in
      spent @ (if duplicates > 0 then [''CONVERGENCE_DUPLICATE_REMAINS''] else []) @
      (if planStateUniqueBalance once \<noteq> expectedBalance
       then [''CONVERGENCE_BALANCE_MISMATCH: expected '' @ int_text expectedBalance @ '', got '' @ int_text (planStateUniqueBalance once)]
       else []))"

definition token_map :: "token_view list \<Rightarrow> (string, token_view) jsmap" where
  "token_map tokens = foldl (\<lambda>m t. mp_set m (tv_eventId t) t) [] tokens"

definition static_violations :: "doctor_observation \<Rightarrow> repair_step list \<Rightarrow> string list" where
  "static_violations ob steps =
     (let allTokens = all_tokens (ob_relays ob);
          tokensById = token_map allTokens;
          walletIds = js_set (concat (map (\<lambda>r. map wv_eventId (ro_wallet r)) (ok_relays (ob_relays ob))));
          knownYs = js_set (concat (map token_keys allTokens));
          (rolloverYs, restoreYs) = coveredSets steps in
      concat (map (step_references (mp_keys tokensById) walletIds knownYs) steps) @
      concat (map (deleted_event_check tokensById (indexMintTruth (ob_mint ob)) rolloverYs restoreYs)
        (concat (map deleted_ids steps))))"

definition checkRepairPlan :: "(string \<Rightarrow> string \<Rightarrow> int) \<Rightarrow> doctor_observation \<Rightarrow> repair_plan \<Rightarrow> plan_check" where
  "checkRepairPlan lc ob plan =
     (let merged = rx_merged (reconstruct lc ob);
          mintByY = indexMintTruth (ob_mint ob);
          allTokens = all_tokens (ob_relays ob);
          violations = static_violations ob (rp_steps plan);
          runs = rbind (simulatePlan (initialPlanState (mg_liveTokens merged) allTokens) (rp_steps plan)) (\<lambda>once.
            rbind (simulatePlan once (rp_steps plan)) (\<lambda>twice. Inr (once, twice))) in
      case runs of
        Inl e \<Rightarrow> \<lparr>pc_ok = False, pc_violations = sort (violations @ unknown_reference e)\<rparr>
      | Inr (once, twice) \<Rightarrow>
         (let violations = violations @
                (if join_text '','' (sort (mp_keys (ps_liveTokens once))) \<noteq> join_text '','' (sort (mp_keys (ps_liveTokens twice))) \<or>
                    planStateUniqueBalance once \<noteq> planStateUniqueBalance twice then [''P2_NOT_IDEMPOTENT''] else []);
              unknownTruth = filter (\<lambda>(mint, p). map_of mintByY (mintProofKey mint (pv_y p)) = None) (live_proofs merged) in
          if unknownTruth \<noteq> []
          then \<lparr>pc_ok = False, pc_violations = sort (violations @
                 [''MISSING_MINT_TRUTH: '' @ int_text (int (length unknownTruth)) @ '' live proof(s) unchecked''])\<rparr>
          else let violations = violations @ convergence_violations mintByY merged allTokens once in
            \<lparr>pc_ok = (violations = []), pc_violations = sort violations\<rparr>))"

end
