(* ===== verification/Doctor_Capture.thy ===== *)
theory Doctor_Capture
  imports Doctor_Core
begin

text \<open>
  The contract of a capture bundle: \<open>packages/wallet-doctor-contract/src\<close> \<open>types.ts\<close> and \<open>validation.ts\<close>.

  A capture is a record, so the parts of the schema that say which members an object has and of which type
  they are hold by construction; the fields that the schema fixes to a constant are left out. What remains
  of the schema, patterns and bounds, is one predicate per definition of the schema. The digest of a bundle
  (SHA-256 over canonical JSON) is the argument \<open>digest_of\<close>, the texts of the schema validator are \<open>describe\<close>.
\<close>

record relay_evidence =
  re_url :: string
  re_status :: relay_status
  re_error :: "string option"
  re_eventIds :: "string list"

record nip60_capture =
  cp_capturedAt :: string
  cp_digest :: string
  cp_subject :: string
  cp_observation :: doctor_observation
  cp_relayEvidence :: "relay_evidence list"

section \<open>The schema\<close>

definition compressed_point_pattern :: "string \<Rightarrow> bool" where
  "compressed_point_pattern s \<longleftrightarrow> length s = 66 \<and> s ! 0 = CHR ''0'' \<and> s ! 1 \<in> {CHR ''2'', CHR ''3''} \<and> all_in lower_hex s"

definition digest_pattern :: "string \<Rightarrow> bool" where
  "digest_pattern s \<longleftrightarrow> take 7 s = ''sha256:'' \<and> hash_pattern (drop 7 s)"

abbreviation opt_all :: "('a \<Rightarrow> bool) \<Rightarrow> 'a option \<Rightarrow> bool" where
  "opt_all P x \<equiv> (case x of None \<Rightarrow> True | Some a \<Rightarrow> P a)"

definition seenOn_schema :: "string list \<Rightarrow> bool" where
  "seenOn_schema urls \<longleftrightarrow> distinct urls \<and> list_all (\<lambda>u. length u \<le> 2048) urls \<and> length urls \<le> 64"

definition proofView_schema :: "proof_view \<Rightarrow> bool" where
  "proofView_schema p \<longleftrightarrow> length (pv_keysetId p) \<le> 66 \<and> 1 \<le> pv_amount p \<and> pv_amount p \<le> max_safe_integer \<and>
     compressed_point_pattern (pv_y p)"

definition event_ids_schema :: "string list \<Rightarrow> bool" where
  "event_ids_schema ids \<longleftrightarrow> list_all hash_pattern ids \<and> length ids \<le> 10000"

definition tokenEventView_schema :: "token_view \<Rightarrow> bool" where
  "tokenEventView_schema t \<longleftrightarrow> hash_pattern (tv_eventId t) \<and> safe_nonneg (tv_createdAt t) \<and> length (tv_mint t) \<le> 2048 \<and>
     length (tv_unit t) \<le> 16 \<and> list_all proofView_schema (tv_proofs t) \<and> length (tv_proofs t) \<le> 10000 \<and>
     event_ids_schema (tv_del t) \<and> seenOn_schema (tv_seenOn t)"

definition walletEventView_schema :: "wallet_view \<Rightarrow> bool" where
  "walletEventView_schema w \<longleftrightarrow> hash_pattern (wv_eventId w) \<and> safe_nonneg (wv_createdAt w) \<and>
     list_all (\<lambda>m. length m \<le> 2048) (wv_mints w) \<and> 1 \<le> length (wv_mints w) \<and> length (wv_mints w) \<le> 1024 \<and>
     distinct (wv_mints w) \<and> seenOn_schema (wv_seenOn w)"

definition deletionView_schema :: "deletion_view \<Rightarrow> bool" where
  "deletionView_schema d \<longleftrightarrow> hash_pattern (dv_eventId d) \<and> safe_nonneg (dv_createdAt d) \<and> event_ids_schema (dv_targets d) \<and>
     list_all safe_nonneg (dv_kinds d) \<and> length (dv_kinds d) \<le> 1024 \<and> seenOn_schema (dv_seenOn d)"

definition historyEventView_schema :: "history_view \<Rightarrow> bool" where
  "historyEventView_schema h \<longleftrightarrow> hash_pattern (hv_eventId h) \<and> safe_nonneg (hv_createdAt h) \<and>
     opt_all safe_nonneg (hv_amount h) \<and> opt_all (\<lambda>u. length u \<le> 16) (hv_unit h) \<and>
     event_ids_schema (hv_created h) \<and> event_ids_schema (hv_destroyed h) \<and> event_ids_schema (hv_redeemed h) \<and>
     seenOn_schema (hv_seenOn h)"

definition quoteEventView_schema :: "quote_view \<Rightarrow> bool" where
  "quoteEventView_schema q \<longleftrightarrow> hash_pattern (qv_eventId q) \<and> safe_nonneg (qv_createdAt q) \<and>
     opt_all safe_nonneg (qv_expiration q) \<and> opt_all (\<lambda>m. length m \<le> 2048) (qv_mint q) \<and> seenOn_schema (qv_seenOn q)"

definition malformedEventView_schema :: "malformed_view \<Rightarrow> bool" where
  "malformedEventView_schema m \<longleftrightarrow> opt_all hash_pattern (mv_eventId m) \<and> opt_all safe_nonneg (mv_kind m) \<and>
     seenOn_schema (mv_seenOn m)"

definition mintObservation_schema :: "mint_observation \<Rightarrow> bool" where
  "mintObservation_schema m \<longleftrightarrow> length (mo_mint m) \<le> 2048 \<and> compressed_point_pattern (mo_y m)"

definition relayObservation_schema :: "relay_observation \<Rightarrow> bool" where
  "relayObservation_schema r \<longleftrightarrow> length (ro_url r) \<le> 2048 \<and> opt_all (\<lambda>e. length e \<le> 512) (ro_error r) \<and>
     list_all walletEventView_schema (ro_wallet r) \<and> length (ro_wallet r) \<le> 1024 \<and>
     list_all tokenEventView_schema (ro_tokens r) \<and> length (ro_tokens r) \<le> 10000 \<and>
     list_all deletionView_schema (ro_deletions r) \<and> length (ro_deletions r) \<le> 10000 \<and>
     list_all historyEventView_schema (ro_history r) \<and> length (ro_history r) \<le> 10000 \<and>
     list_all quoteEventView_schema (ro_quotes r) \<and> length (ro_quotes r) \<le> 10000 \<and>
     list_all malformedEventView_schema (ro_malformed r) \<and> length (ro_malformed r) \<le> 10000"

definition relayEvidence_schema :: "relay_evidence \<Rightarrow> bool" where
  "relayEvidence_schema e \<longleftrightarrow> length (re_url e) \<le> 2048 \<and> opt_all (\<lambda>x. length x \<le> 512) (re_error e) \<and>
     length (re_eventIds e) \<le> 10000 \<and> distinct (re_eventIds e) \<and> list_all hash_pattern (re_eventIds e)"

definition nip60_capture_schema :: "nip60_capture \<Rightarrow> bool" where
  "nip60_capture_schema c \<longleftrightarrow> length (cp_capturedAt c) \<le> 64 \<and> digest_pattern (cp_digest c) \<and> hash_pattern (cp_subject c) \<and>
     hash_pattern (ob_subject (cp_observation c)) \<and>
     list_all relayObservation_schema (ob_relays (cp_observation c)) \<and> length (ob_relays (cp_observation c)) \<le> 64 \<and>
     list_all mintObservation_schema (ob_mint (cp_observation c)) \<and> length (ob_mint (cp_observation c)) \<le> 10000 \<and>
     list_all relayEvidence_schema (cp_relayEvidence c) \<and> length (cp_relayEvidence c) \<le> 64"

section \<open>Bounds checked before the schema\<close>

definition boundedIntegrityErrors :: "string list \<Rightarrow> string list" where
  "boundedIntegrityErrors errors = map (take 2048) (take 256 errors)"

definition event_count :: "relay_observation \<Rightarrow> nat" where
  "event_count r = length (ro_wallet r) + length (ro_tokens r) + length (ro_deletions r) + length (ro_history r) +
     length (ro_quotes r) + length (ro_malformed r)"

text \<open>Loops that stop once a count is above the limit: over the tokens, over the relays, over the evidence.\<close>

fun count_proofs :: "nat \<Rightarrow> token_view list \<Rightarrow> nat" where
  "count_proofs n [] = n"
| "count_proofs n (t # ts) =
     (let n = n + length (tv_proofs t) in if n > 10000 then n else count_proofs n ts)"

fun count_relays :: "nat \<times> nat \<Rightarrow> relay_observation list \<Rightarrow> nat \<times> nat" where
  "count_relays acc [] = acc"
| "count_relays (events, proofs) (r # rs) =
     (let events = events + event_count r;
          proofs = count_proofs proofs (take 10001 (ro_tokens r)) in
      if events > 10000 \<or> proofs > 10000 then (events, proofs) else count_relays (events, proofs) rs)"

fun count_evidence :: "nat \<Rightarrow> relay_evidence list \<Rightarrow> nat" where
  "count_evidence n [] = n"
| "count_evidence n (e # es) =
     (let n = n + length (re_eventIds e) in if n > 10000 then n else count_evidence n es)"

definition when_text :: "bool \<Rightarrow> string \<Rightarrow> string list" where
  "when_text b t = (if b then [t] else [])"

definition preflightCaptureBounds :: "nip60_capture \<Rightarrow> string list" where
  "preflightCaptureBounds c =
     (let relays = ob_relays (cp_observation c);
          (events, proofs) = count_relays (0, 0) (take 65 relays) in
      boundedIntegrityErrors
       (when_text (length relays > 64) ''capture contains more than 64 relay observations'' @
        when_text (length (cp_relayEvidence c) > 64) ''capture contains more than 64 relay evidence entries'' @
        when_text (length (ob_mint (cp_observation c)) > 10000) ''capture contains more than 10000 mint observations'' @
        when_text (events > 10000) ''capture contains more than 10000 event occurrences'' @
        when_text (proofs > 10000) ''capture contains more than 10000 proof candidates'' @
        when_text (count_evidence 0 (take 65 (cp_relayEvidence c)) > 10000)
          ''capture contains more than 10000 relay-evidence event occurrences''))"

section \<open>Integrity\<close>

definition eventIdsForRelay :: "relay_observation \<Rightarrow> string list" where
  "eventIdsForRelay r = js_set (map wv_eventId (ro_wallet r) @ map tv_eventId (ro_tokens r) @
     map dv_eventId (ro_deletions r) @ map hv_eventId (ro_history r) @ map qv_eventId (ro_quotes r) @
     concat (map (\<lambda>m. case mv_eventId m of None \<Rightarrow> [] | Some i \<Rightarrow> [i]) (ro_malformed r)))"

definition seen_lists :: "relay_observation \<Rightarrow> string list list" where
  "seen_lists r = map wv_seenOn (ro_wallet r) @ map tv_seenOn (ro_tokens r) @ map dv_seenOn (ro_deletions r) @
     map hv_seenOn (ro_history r) @ map qv_seenOn (ro_quotes r) @ map mv_seenOn (ro_malformed r)"

definition relay_errors :: "(string, relay_evidence) jsmap \<Rightarrow> relay_observation \<Rightarrow> string list" where
  "relay_errors evidenceByUrl r = (case map_of evidenceByUrl (ro_url r) of
     None \<Rightarrow> [''missing relay evidence for '' @ ro_url r]
   | Some e \<Rightarrow>
       when_text (re_status e \<noteq> ro_status r \<or> re_error e \<noteq> ro_error r) (''relay evidence status differs for '' @ ro_url r) @
       concat (map (\<lambda>i. when_text (i \<notin> set (re_eventIds e)) (''relay evidence is missing event '' @ i @ '' from '' @ ro_url r))
         (eventIdsForRelay r)) @
       concat (map (\<lambda>s. when_text (s \<noteq> [ro_url r]) (''event observation on '' @ ro_url r @ '' has inconsistent seenOn evidence''))
         (seen_lists r)))"

text \<open>The proofs of a token: the running total of the capture and the keys of the token met so far.\<close>

fun proof_errors :: "token_view \<Rightarrow> string list \<Rightarrow> int \<Rightarrow> proof_view list \<Rightarrow> string list \<times> int" where
  "proof_errors t seen aggregate [] = ([], aggregate)"
| "proof_errors t seen aggregate (p # ps) =
     (let key = mintProofKey (tv_mint t) (pv_y p);
          over = aggregate > max_safe_integer - pv_amount p;
          (errors, aggregate') = proof_errors t (key # seen) (if over then aggregate else aggregate + pv_amount p) ps in
      (when_text over ''capture aggregate proof amount exceeds the safe integer limit'' @
       when_text (key \<in> set seen) (''token '' @ tv_eventId t @ '' contains duplicate proof '' @ pv_y p) @ errors, aggregate'))"

fun token_errors :: "int \<Rightarrow> token_view list \<Rightarrow> string list" where
  "token_errors aggregate [] = []"
| "token_errors aggregate (t # ts) =
     (let (errors, aggregate') = proof_errors t [] aggregate (tv_proofs t) in errors @ token_errors aggregate' ts)"

fun truth_errors :: "string list \<Rightarrow> string list \<Rightarrow> mint_observation list \<Rightarrow> string list" where
  "truth_errors expected observed [] = []"
| "truth_errors expected observed (m # ms) =
     (let key = mintProofKey (mo_mint m) (mo_y m) in
      when_text (key \<in> set observed) (''duplicate mint state for '' @ mo_mint m @ '' '' @ mo_y m) @
      when_text (key \<notin> set expected) (''unexpected mint state for '' @ mo_mint m @ '' '' @ mo_y m) @
      truth_errors expected (key # observed) ms)"

text \<open>The parts of a key around its first separator, as \<open>split\<close> gives them.\<close>

definition key_parts :: "string \<Rightarrow> string \<times> string" where
  "key_parts key = (takeWhile (\<lambda>c. c \<noteq> CHR 0x00) key,
     takeWhile (\<lambda>c. c \<noteq> CHR 0x00) (drop 1 (dropWhile (\<lambda>c. c \<noteq> CHR 0x00) key)))"

definition capture_tokens :: "doctor_observation \<Rightarrow> token_view list" where
  "capture_tokens ob = concat (map ro_tokens (ob_relays ob))"

definition truth_key :: "mint_observation \<Rightarrow> string" where
  "truth_key m = mintProofKey (mo_mint m) (mo_y m)"

definition integrity_errors :: "(nip60_capture \<Rightarrow> string) \<Rightarrow> nip60_capture \<Rightarrow> string list" where
  "integrity_errors digest_of c =
     (let ob = cp_observation c;
          observationUrls = js_set (map ro_url (ob_relays ob));
          evidenceByUrl = foldl (\<lambda>m e. mp_set m (re_url e) e) [] (cp_relayEvidence c);
          expected = js_set (concat (map token_keys (capture_tokens ob)));
          observed = js_set (map truth_key (ob_mint ob)) in
      when_text (cp_subject c \<noteq> ob_subject ob) ''capture subject does not match observation subject'' @
      when_text (length observationUrls \<noteq> length (ob_relays ob)) ''relay observations contain duplicate urls'' @
      when_text (length evidenceByUrl \<noteq> length (cp_relayEvidence c)) ''relay evidence contains duplicate urls'' @
      concat (map (relay_errors evidenceByUrl) (ob_relays ob)) @
      when_text (length evidenceByUrl \<noteq> length (ob_relays ob)) ''relay evidence count does not match relay observation count'' @
      concat (map (\<lambda>u. when_text (u \<notin> set observationUrls) (''relay evidence URL '' @ u @ '' has no matching observation''))
        (mp_keys evidenceByUrl)) @
      token_errors 0 (capture_tokens ob) @
      when_text (length (js_set (concat (map eventIdsForRelay (ob_relays ob)))) > 10000) ''capture contains more than 10000 events'' @
      when_text (sum_list (map event_count (ob_relays ob)) > 10000) ''capture contains more than 10000 event occurrences'' @
      when_text (sum_list (map (\<lambda>t. length (tv_proofs t)) (capture_tokens ob)) > 10000) ''capture contains more than 10000 proof candidates'' @
      when_text (length (js_set (map tv_mint (capture_tokens ob))) > 64) ''capture contains more than 64 distinct mints'' @
      truth_errors expected [] (ob_mint ob) @
      concat (map (\<lambda>k. when_text (k \<notin> set observed)
        (''missing mint state for '' @ fst (key_parts k) @ '' '' @ snd (key_parts k))) expected) @
      when_text (digest_of c \<noteq> cp_digest c) ''capture digest does not match its canonical contents'')"

definition verifyCaptureIntegrity :: "(nip60_capture \<Rightarrow> string list) \<Rightarrow> (nip60_capture \<Rightarrow> string) \<Rightarrow> nip60_capture \<Rightarrow> bool \<times> string list" where
  "verifyCaptureIntegrity describe digest_of c =
     (let preflight = preflightCaptureBounds c;
          errors = boundedIntegrityErrors (integrity_errors digest_of c) in
      if preflight \<noteq> [] then (False, preflight)
      else if \<not> nip60_capture_schema c then (False, describe c)
      else (errors = [], errors))"

definition assertNip60Capture :: "(nip60_capture \<Rightarrow> string list) \<Rightarrow> (nip60_capture \<Rightarrow> string) \<Rightarrow> nip60_capture \<Rightarrow> string + nip60_capture" where
  "assertNip60Capture describe digest_of c = (case verifyCaptureIntegrity describe digest_of c of
     (ok, errors) \<Rightarrow> if \<not> ok then Inl (''capture bundle is invalid: '' @ join_text ''; '' errors) else Inr c)"

end
