(* ===== verification/Doctor_Facts.thy ===== *)
theory Doctor_Facts
  imports Doctor_Plan Doctor_Capture
begin

text \<open>
  What the functions of the wallet doctor compute, as sets and sums: the loops over maps and counters are
  replaced by the membership and the totals the properties are about.
\<close>

section \<open>Keys and mint truth\<close>

lemma token_keys_iff: "k \<in> set (token_keys t) \<longleftrightarrow> (\<exists>p \<in> set (tv_proofs t). k = mintProofKey (tv_mint t) (pv_y p))"
  by (auto simp: token_keys_def)

lemma mintProofKey_inject:
  "CHR 0x00 \<notin> set y \<Longrightarrow> CHR 0x00 \<notin> set y' \<Longrightarrow> mintProofKey m y = mintProofKey m' y' \<longleftrightarrow> m = m' \<and> y = y'"
  by (auto simp: mintProofKey_def dest: nul_join_inject)

lemma map_of_foldl_set:
  "map_of (foldl (\<lambda>m x. mp_set m (f x) (g x)) m0 xs) k =
     (case find (\<lambda>x. f x = k) (rev xs) of Some x \<Rightarrow> Some (g x) | None \<Rightarrow> map_of m0 k)"
  by (induction xs arbitrary: m0) (auto simp: find_append split: option.splits)

lemma mp_ok_foldl_set: "mp_ok m0 \<Longrightarrow> mp_ok (foldl (\<lambda>m x. mp_set m (f x) (g x)) m0 xs)"
  by (induction xs arbitrary: m0) auto

lemma indexMintTruth_None: "map_of (indexMintTruth mint) k = None \<longleftrightarrow> k \<notin> truth_key ` set mint"
  unfolding indexMintTruth_def truth_key_def [symmetric]
  by (auto simp: map_of_foldl_set [where g = "\<lambda>x. x"] find_None_iff split: option.splits dest!: find_SomeD)

lemma token_map_lookup:
  "distinct (map tv_eventId ts) \<Longrightarrow> map_of (token_map ts) i = find (\<lambda>t. tv_eventId t = i) ts"
proof -
  assume d: "distinct (map tv_eventId ts)"
  have "find (\<lambda>t. tv_eventId t = i) (rev ts) = find (\<lambda>t. tv_eventId t = i) ts"
  proof (cases "\<exists>t \<in> set ts. tv_eventId t = i")
    case True
    then obtain t where t: "t \<in> set ts" "tv_eventId t = i" by blast
    then show ?thesis
      using d find_unique [of t ts tv_eventId] find_unique [of t "rev ts" tv_eventId] by (simp add: rev_map [symmetric])
  next
    case False
    then have "find (\<lambda>t. tv_eventId t = i) (rev ts) = None" "find (\<lambda>t. tv_eventId t = i) ts = None"
      by (simp_all add: find_None_iff)
    then show ?thesis by simp
  qed
  then show ?thesis
    unfolding token_map_def map_of_foldl_set [where g = "\<lambda>x. x"] by (auto split: option.splits)
qed

lemma token_map_keys: "set (mp_keys (token_map ts)) = tv_eventId ` set ts"
proof -
  have "set (mp_keys (foldl (\<lambda>m t. mp_set m (tv_eventId t) t) m0 ts)) = set (mp_keys m0) \<union> tv_eventId ` set ts" for m0
    by (induction ts arbitrary: m0) (auto simp: mp_keys_def keys_mp_set)
  then show ?thesis by (simp add: token_map_def mp_keys_def)
qed

section \<open>Balances of a plan state\<close>

lemma count_proofs_sum:
  assumes "\<And>p. p \<in> set ps \<Longrightarrow> pv_amount p = a (mintProofKey mint (pv_y p))"
    and "snd acc = sum a (set (fst acc))"
  shows "snd (foldl (count_proof mint) acc ps) = sum a (set (fst (foldl (count_proof mint) acc ps)))
    \<and> set (fst (foldl (count_proof mint) acc ps)) = set (fst acc) \<union> (\<lambda>p. mintProofKey mint (pv_y p)) ` set ps"
  using assms
proof (induction ps arbitrary: acc)
  case (Cons p ps)
  have "snd (count_proof mint acc p) = sum a (set (fst (count_proof mint acc p)))"
    using Cons.prems by (auto simp: count_proof_def Let_def)
  with Cons.IH [of "count_proof mint acc p"] Cons.prems show ?case
    by (auto simp: count_proof_def Let_def)
qed simp

lemma unique_balance_fold:
  assumes "\<And>t p. t \<in> set ts \<Longrightarrow> p \<in> set (tv_proofs t) \<Longrightarrow> pv_amount p = a (mintProofKey (tv_mint t) (pv_y p))"
    and "snd acc = sum a (set (fst acc))"
  shows "snd (foldl (\<lambda>acc t. foldl (count_proof (tv_mint t)) acc (tv_proofs t)) acc ts) =
    sum a (set (fst acc) \<union> (\<Union>t \<in> set ts. set (token_keys t)))"
  using assms
proof (induction ts arbitrary: acc)
  case (Cons t ts)
  let ?acc = "foldl (count_proof (tv_mint t)) acc (tv_proofs t)"
  have "snd ?acc = sum a (set (fst ?acc)) \<and> set (fst ?acc) = set (fst acc) \<union> set (token_keys t)"
    using count_proofs_sum [of "tv_proofs t" a "tv_mint t" acc] Cons.prems by (simp add: token_keys_def)
  with Cons.IH [of ?acc] Cons.prems(1) show ?case
    by (simp add: Un_assoc)
qed simp

lemma planStateUniqueBalance_sum:
  assumes "\<And>t p. t \<in> set (mp_values (ps_liveTokens st)) \<Longrightarrow> p \<in> set (tv_proofs t) \<Longrightarrow>
      pv_amount p = a (mintProofKey (tv_mint t) (pv_y p))"
  shows "planStateUniqueBalance st = sum a (\<Union>t \<in> set (mp_values (ps_liveTokens st)). set (token_keys t))"
  unfolding planStateUniqueBalance_def
  using unique_balance_fold [of "mp_values (ps_liveTokens st)" a "([], 0)"] assms by simp

section \<open>The scan for convergence\<close>

lemma pairwise_disjoint_insert:
  assumes "a \<notin> S"
  shows "(\<forall>x \<in> insert a S. \<forall>y \<in> insert a S. x \<noteq> y \<longrightarrow> g x \<inter> g y = {}) \<longleftrightarrow>
    (\<forall>y \<in> S. g a \<inter> g y = {}) \<and> (\<forall>x \<in> S. \<forall>y \<in> S. x \<noteq> y \<longrightarrow> g x \<inter> g y = {})"
    (is "?l \<longleftrightarrow> ?r")
proof
  assume ?l
  then show ?r using assms by (intro conjI ballI impI) (metis insertCI)+
next
  assume ?r
  then show ?l by (intro ballI impI, elim insertE) (simp_all add: Int_commute)
qed

lemma distinct_concat_map_iff:
  "distinct xs \<Longrightarrow> distinct (concat (map f xs)) \<longleftrightarrow>
     (\<forall>x \<in> set xs. distinct (f x)) \<and> (\<forall>x \<in> set xs. \<forall>y \<in> set xs. x \<noteq> y \<longrightarrow> set (f x) \<inter> set (f y) = {})"
proof (induction xs)
  case (Cons a xs)
  then have "distinct (concat (map f (a # xs))) \<longleftrightarrow> distinct (f a) \<and> distinct (concat (map f xs)) \<and>
      (\<forall>y \<in> set xs. set (f a) \<inter> set (f y) = {})"
    by auto
  then show ?case
    using Cons pairwise_disjoint_insert [of a "set xs" "\<lambda>x. set (f x)"] by (simp add: conj_ac)
qed simp

lemma scan_proofs:
  "foldl (scan_proof M mint) (keys, d, v) ps = (keys', d', v') \<Longrightarrow>
     set keys' = set keys \<union> set (map (\<lambda>p. mintProofKey mint (pv_y p)) ps)
     \<and> (d' = 0 \<longleftrightarrow> d = 0 \<and> distinct (map (\<lambda>p. mintProofKey mint (pv_y p)) ps)
          \<and> set keys \<inter> set (map (\<lambda>p. mintProofKey mint (pv_y p)) ps) = {})
     \<and> (v' = [] \<longleftrightarrow> v = [] \<and> (\<forall>p \<in> set ps. state_of M mint (pv_y p) \<noteq> Some Is_spent))"
proof (induction ps arbitrary: keys d v)
  case (Cons p ps)
  obtain k1 d1 v1 where 1: "scan_proof M mint (keys, d, v) p = (k1, d1, v1)"
    by (metis prod_cases3)
  then have k1: "set k1 = insert (mintProofKey mint (pv_y p)) (set keys)"
    and d1: "d1 = 0 \<longleftrightarrow> d = 0 \<and> mintProofKey mint (pv_y p) \<notin> set keys"
    and v1: "v1 = [] \<longleftrightarrow> v = [] \<and> state_of M mint (pv_y p) \<noteq> Some Is_spent"
    by (auto simp: scan_proof_def Let_def state_of_def split: if_splits)
  have "foldl (scan_proof M mint) (k1, d1, v1) ps = (keys', d', v')"
    using Cons.prems 1 by simp
  from Cons.IH [OF this] show ?case
    unfolding k1 d1 v1 by auto
qed auto

lemma scan_tokens:
  "foldl (\<lambda>acc t. foldl (scan_proof M (tv_mint t)) acc (tv_proofs t)) (keys, d, v) ts = (keys', d', v') \<Longrightarrow>
     (d' = 0 \<longleftrightarrow> d = 0 \<and> distinct (concat (map token_keys ts)) \<and> set keys \<inter> set (concat (map token_keys ts)) = {})
     \<and> (v' = [] \<longleftrightarrow> v = [] \<and> (\<forall>t \<in> set ts. \<forall>p \<in> set (tv_proofs t). state_of M (tv_mint t) (pv_y p) \<noteq> Some Is_spent))"
proof (induction ts arbitrary: keys d v)
  case (Cons t ts)
  obtain k1 d1 v1 where 1: "foldl (scan_proof M (tv_mint t)) (keys, d, v) (tv_proofs t) = (k1, d1, v1)"
    by (metis prod_cases3)
  note facts = scan_proofs [OF 1, folded token_keys_def]
  have "foldl (\<lambda>acc t. foldl (scan_proof M (tv_mint t)) acc (tv_proofs t)) (k1, d1, v1) ts = (keys', d', v')"
    using Cons.prems 1 by simp
  from Cons.IH [OF this] facts show ?case
    by (simp add: Int_Un_distrib Int_Un_distrib2 conj_ac)
qed auto

lemma scan_state_facts:
  assumes "scan_state M st = (keys, d, v)"
  shows "d = 0 \<longleftrightarrow> distinct (concat (map token_keys (mp_values (ps_liveTokens st))))"
    and "v = [] \<longleftrightarrow> (\<forall>t \<in> set (mp_values (ps_liveTokens st)). \<forall>p \<in> set (tv_proofs t).
           state_of M (tv_mint t) (pv_y p) \<noteq> Some Is_spent)"
  using scan_tokens [of M "[]" 0 "[]" "mp_values (ps_liveTokens st)" keys d v] assms
  by (simp_all add: scan_state_def)

section \<open>Looking up proofs\<close>

lemma index_proofs_lookup:
  "map_of (fold (\<lambda>t. fold (index_proof t) (tv_proofs t)) ts m) k =
     (case map_of m k of Some p \<Rightarrow> Some p | None \<Rightarrow>
        map_option snd (find (\<lambda>(k', p). k' = k) (concat (map (\<lambda>t. map (\<lambda>p. (mintProofKey (tv_mint t) (pv_y p), p)) (tv_proofs t)) ts))))"
proof (induction ts arbitrary: m)
  case (Cons t ts)
  have "map_of (fold (index_proof t) ps m) k =
     (case map_of m k of Some p \<Rightarrow> Some p | None \<Rightarrow>
        map_option snd (find (\<lambda>(k', p). k' = k) (map (\<lambda>p. (mintProofKey (tv_mint t) (pv_y p), p)) ps)))" for ps
    by (induction ps arbitrary: m) (auto simp: index_proof_def Let_def split: option.splits)
  then show ?case
    using Cons.IH [of "fold (index_proof t) (tv_proofs t) m"] by (auto simp: find_append split: option.splits)
qed (auto split: option.splits)

lemma proofsByY_Some:
  assumes "map_of (ps_proofsByY (initialPlanState live ts)) k = Some p"
  shows "\<exists>t \<in> set ts. p \<in> set (tv_proofs t) \<and> k = mintProofKey (tv_mint t) (pv_y p)"
  using assms by (auto simp: initialPlanState_def index_proofs_lookup dest!: find_SomeD)

lemma proofsByY_None:
  "map_of (ps_proofsByY (initialPlanState live ts)) k = None \<longleftrightarrow> (\<forall>t \<in> set ts. k \<notin> set (token_keys t))"
  by (auto simp: initialPlanState_def index_proofs_lookup find_None_iff token_keys_def)

lemma amount_of_key_eq:
  assumes "t \<in> set ts" and "p \<in> set (tv_proofs t)"
    and "\<And>u q. u \<in> set ts \<Longrightarrow> q \<in> set (tv_proofs u) \<Longrightarrow>
      mintProofKey (tv_mint u) (pv_y q) = mintProofKey (tv_mint t) (pv_y p) \<Longrightarrow> pv_amount q = pv_amount p"
  shows "amount_of_key ts (mintProofKey (tv_mint t) (pv_y p)) = pv_amount p"
proof -
  let ?L = "concat (map (\<lambda>t. map (\<lambda>p. (mintProofKey (tv_mint t) (pv_y p), p)) (tv_proofs t)) ts)"
  let ?k = "mintProofKey (tv_mint t) (pv_y p)"
  have "(?k, p) \<in> set ?L" using assms(1,2) by auto
  then obtain e where e: "find (\<lambda>(k', q). k' = ?k) ?L = Some e"
    using find_Some_exists [of "(?k, p)" ?L "\<lambda>(k', q). k' = ?k"] by auto
  then have "e \<in> set ?L" and k: "fst e = ?k"
    using find_SomeD [OF e] by auto
  then obtain u q where "u \<in> set ts" "q \<in> set (tv_proofs u)" "e = (mintProofKey (tv_mint u) (pv_y q), q)"
    by auto
  then have "pv_amount (snd e) = pv_amount p"
    using assms(3) k by simp
  with e show ?thesis
    by (simp add: amount_of_key_def case_prod_unfold)
qed

end
