(* ===== verification/Doctor_Views.thy ===== *)
theory Doctor_Views
  imports Doctor_Facts
begin

text \<open>
  What an accepted capture guarantees, and what follows for the merged view of the relays: the live tokens,
  the tokens that only some relay shows as live, and the proofs that no live event carries any more.
\<close>

section \<open>What the contract guarantees\<close>

text \<open>The facts of an observation that diagnosis and repair rest on.\<close>

definition sound_observation :: "doctor_observation \<Rightarrow> bool" where
  "sound_observation ob \<longleftrightarrow>
     distinct (map ro_url (ob_relays ob)) \<and>
     (\<forall>r \<in> set (ob_relays ob). \<forall>t \<in> set (ro_tokens r). tv_seenOn t = [ro_url r]) \<and>
     (\<forall>t \<in> set (capture_tokens ob). hash_pattern (tv_eventId t) \<and> distinct (token_keys t) \<and>
        (\<forall>p \<in> set (tv_proofs t). CHR 0x00 \<notin> set (pv_y p)) \<and>
        set (token_keys t) \<subseteq> truth_key ` set (ob_mint ob))"

text \<open>
  The identifier of an event is a hash of it, so the same identifier on two relays is the same event; and a
  proof, which is what a mint signed for an amount, has one amount.
\<close>

definition ids_bind :: "doctor_observation \<Rightarrow> bool" where
  "ids_bind ob \<longleftrightarrow> (\<forall>t \<in> set (capture_tokens ob). \<forall>u \<in> set (capture_tokens ob).
     tv_eventId t = tv_eventId u \<longrightarrow> t\<lparr>tv_seenOn := []\<rparr> = u\<lparr>tv_seenOn := []\<rparr>)"

definition one_amount :: "doctor_observation \<Rightarrow> bool" where
  "one_amount ob \<longleftrightarrow> (\<forall>t \<in> set (capture_tokens ob). \<forall>p \<in> set (tv_proofs t).
     \<forall>u \<in> set (capture_tokens ob). \<forall>q \<in> set (tv_proofs u).
       mintProofKey (tv_mint t) (pv_y p) = mintProofKey (tv_mint u) (pv_y q) \<longrightarrow> pv_amount p = pv_amount q)"

lemma when_text_Nil [simp]: "when_text b t = [] \<longleftrightarrow> \<not> b"
  by (simp add: when_text_def)

lemma proof_errors_Nil:
  "fst (proof_errors t seen a ps) = [] \<Longrightarrow>
     distinct (map (\<lambda>p. mintProofKey (tv_mint t) (pv_y p)) ps) \<and>
     set seen \<inter> (\<lambda>p. mintProofKey (tv_mint t) (pv_y p)) ` set ps = {}"
proof (induction ps arbitrary: seen a)
  case (Cons p ps)
  let ?k = "mintProofKey (tv_mint t) (pv_y p)"
  from Cons.prems have "?k \<notin> set seen"
    and "\<exists>a'. fst (proof_errors t (?k # seen) a' ps) = []"
    by (auto simp: Let_def case_prod_unfold)
  with Cons.IH [of "?k # seen"] show ?case by auto
qed simp

lemma token_errors_Nil: "token_errors a ts = [] \<Longrightarrow> t \<in> set ts \<Longrightarrow> distinct (token_keys t)"
  by (induction ts arbitrary: a)
    (auto simp: token_keys_def Let_def split: prod.splits dest!: arg_cong [where f = fst] proof_errors_Nil)

lemma concat_Nil_iff: "concat (map f xs) = [] \<longleftrightarrow> (\<forall>x \<in> set xs. f x = [])"
  by simp

lemma no_nul_point:
  assumes "compressed_point_pattern y"
  shows "CHR 0x00 \<notin> set y"
  using assms by (auto simp: compressed_point_pattern_def all_in_iff lower_hex_def)

lemma integrity_accepts:
  assumes "fst (verifyCaptureIntegrity describe digest_of c)"
  shows "nip60_capture_schema c \<and> integrity_errors digest_of c = []"
  using assms by (auto simp: verifyCaptureIntegrity_def Let_def boundedIntegrityErrors_def split: if_splits)

lemma js_set_length: "length (js_set xs) = length xs \<Longrightarrow> distinct xs"
  by (metis card_distinct distinct_card distinct_js_set set_js_set)

lemma verified_sound:
  assumes "fst (verifyCaptureIntegrity describe digest_of c)"
  shows "sound_observation (cp_observation c)"
proof -
  let ?ob = "cp_observation c"
  note acc = integrity_accepts [OF assms]
  from acc have errors: "integrity_errors digest_of c = []" ..
  have schema: "hash_pattern (tv_eventId t) \<and> (\<forall>p \<in> set (tv_proofs t). CHR 0x00 \<notin> set (pv_y p))"
    if "t \<in> set (capture_tokens ?ob)" for t
  proof -
    have "tokenEventView_schema t"
      using acc that by (auto simp: nip60_capture_schema_def capture_tokens_def list_all_iff relayObservation_schema_def)
    then show ?thesis
      by (auto simp: tokenEventView_schema_def list_all_iff proofView_schema_def dest!: bspec no_nul_point)
  qed
  have urls: "distinct (map ro_url (ob_relays ?ob))"
    using errors by (auto simp: integrity_errors_def Let_def intro!: js_set_length)
  have seen: "tv_seenOn t = [ro_url r]" if "r \<in> set (ob_relays ?ob)" "t \<in> set (ro_tokens r)" for r t
    using errors that by (fastforce simp: integrity_errors_def Let_def relay_errors_def seen_lists_def split: option.splits)
  have keys: "distinct (token_keys t)" if "t \<in> set (capture_tokens ?ob)" for t
    using errors that by (auto simp: integrity_errors_def Let_def intro: token_errors_Nil)
  have truth: "set (token_keys t) \<subseteq> truth_key ` set (ob_mint ?ob)" if "t \<in> set (capture_tokens ?ob)" for t
    using errors that by (auto simp: integrity_errors_def Let_def)
  show ?thesis
    using schema urls seen keys truth by (auto simp: sound_observation_def)
qed

end
