(* ===== verification/Doctor_Merge.thy ===== *)
theory Doctor_Merge
  imports Doctor_Views
begin

text \<open>
  The merged view of an accepted observation: where its tokens come from, what they have in common, and
  which proofs are orphan candidates.
\<close>

definition accepted :: "doctor_observation \<Rightarrow> bool" where
  "accepted ob \<longleftrightarrow> sound_observation ob \<and> ids_bind ob \<and> one_amount ob"

lemma merged_fields [simp]:
  "mg_liveTokens (rx_merged (reconstruct lc ob)) = live_tokens (ob_relays ob)"
  "mg_naiveLiveTokens (rx_merged (reconstruct lc ob)) = naive_tokens (ob_relays ob)"
  "mg_supersededAnywhere (rx_merged (reconstruct lc ob)) = sort (superseded_anywhere (ob_relays ob))"
  "mg_orphanCandidates (rx_merged (reconstruct lc ob)) = orphan_candidates lc (all_tokens (ob_relays ob)) (live_tokens (ob_relays ob))"
  "mg_walletEvent (rx_merged (reconstruct lc ob)) =
     latestWalletEvent (dedupe_wallets (concat (map ro_wallet (ok_relays (ob_relays ob)))))"
  "rx_perRelay (reconstruct lc ob) = map reconstructRelay (ob_relays ob)"
  by (simp_all add: reconstruct_def reconstructMerged_def Let_def)

section \<open>Tokens of the merged view\<close>

definition known_token :: "doctor_observation \<Rightarrow> token_view \<Rightarrow> bool" where
  "known_token ob t \<longleftrightarrow> t \<in> set (all_tokens (ob_relays ob)) \<or> t \<in> set (naive_tokens (ob_relays ob))"

lemma relay_live_subset: "set (rv_liveTokens (reconstructRelay r)) \<subseteq> set (ro_tokens r)"
  by (auto simp: reconstructRelay_def Let_def)

lemma ok_relays_subset: "set (ok_relays rs) \<subseteq> set rs"
  by (auto simp: ok_relays_def)

lemma known_source:
  assumes "known_token ob t"
  shows "\<exists>u \<in> set (capture_tokens ob). \<exists>s. t = u\<lparr>tv_seenOn := s\<rparr>"
proof -
  have "set (concat (map ro_tokens (ok_relays (ob_relays ob)))) \<subseteq> set (capture_tokens ob)"
    using ok_relays_subset by (fastforce simp: capture_tokens_def)
  moreover have "set (concat (map (\<lambda>r. rv_liveTokens (reconstructRelay r)) (ok_relays (ob_relays ob)))) \<subseteq> set (capture_tokens ob)"
    using ok_relays_subset relay_live_subset by (fastforce simp: capture_tokens_def)
  moreover obtain es e s where "es = concat (map ro_tokens (ok_relays (ob_relays ob))) \<or>
      es = concat (map (\<lambda>r. rv_liveTokens (reconstructRelay r)) (ok_relays (ob_relays ob)))"
    and e: "e \<in> set es" "t = e\<lparr>tv_seenOn := s\<rparr>"
    using assms unfolding known_token_def all_tokens_def naive_tokens_def by (blast dest: tokens.deduped_from)
  ultimately have "e \<in> set (capture_tokens ob)" by blast
  then show ?thesis using e(2) by blast
qed

lemma live_known: "t \<in> set (live_tokens (ob_relays ob)) \<Longrightarrow> known_token ob t"
  by (simp add: live_tokens_def known_token_def)

lemma live_in_all: "t \<in> set (live_tokens rs) \<Longrightarrow> t \<in> set (all_tokens rs)"
  by (simp add: live_tokens_def)

lemma naive_in_all:
  assumes "t \<in> set (naive_tokens rs)"
  shows "\<exists>u \<in> set (all_tokens rs). tv_eventId u = tv_eventId t"
proof -
  from assms obtain e s where e: "e \<in> set (concat (map (\<lambda>r. rv_liveTokens (reconstructRelay r)) (ok_relays rs)))"
    and t: "t = e\<lparr>tv_seenOn := s\<rparr>"
    unfolding naive_tokens_def by (metis tokens.deduped_from)
  have "e \<in> set (concat (map ro_tokens (ok_relays rs)))"
    using e relay_live_subset by fastforce
  from tokens.deduped_has [OF this] show ?thesis
    by (simp add: all_tokens_def t)
qed

lemma known_in_all: "known_token ob t \<Longrightarrow> \<exists>u \<in> set (all_tokens (ob_relays ob)). tv_eventId u = tv_eventId t"
  by (auto simp: known_token_def dest: naive_in_all)

lemma all_tokens_distinct: "distinct (map tv_eventId (all_tokens rs))"
  unfolding all_tokens_def by (rule tokens.deduped_distinct)

lemma naive_tokens_distinct: "distinct (map tv_eventId (naive_tokens rs))"
  unfolding naive_tokens_def by (rule tokens.deduped_distinct)

lemma live_tokens_distinct: "distinct (map tv_eventId (live_tokens rs))"
  using all_tokens_distinct by (simp add: live_tokens_def distinct_map_filter)

lemma accepted_sound: "accepted ob \<Longrightarrow> sound_observation ob"
  by (simp add: accepted_def)

lemma sound_facts:
  assumes "sound_observation ob" and "known_token ob t"
  shows "hash_pattern (tv_eventId t)" and "distinct (token_keys t)"
    and "\<And>p. p \<in> set (tv_proofs t) \<Longrightarrow> CHR 0x00 \<notin> set (pv_y p)"
    and "set (token_keys t) \<subseteq> truth_key ` set (ob_mint ob)"
proof -
  from known_source [OF assms(2)] obtain u s where u: "u \<in> set (capture_tokens ob)" "t = u\<lparr>tv_seenOn := s\<rparr>"
    by blast
  from assms(1) u(1) have "hash_pattern (tv_eventId u) \<and> distinct (token_keys u) \<and>
      (\<forall>p \<in> set (tv_proofs u). CHR 0x00 \<notin> set (pv_y p)) \<and> set (token_keys u) \<subseteq> truth_key ` set (ob_mint ob)"
    by (simp add: sound_observation_def)
  then show "hash_pattern (tv_eventId t)" "distinct (token_keys t)"
    "\<And>p. p \<in> set (tv_proofs t) \<Longrightarrow> CHR 0x00 \<notin> set (pv_y p)"
    "set (token_keys t) \<subseteq> truth_key ` set (ob_mint ob)"
    by (simp_all add: u(2) token_keys_def)
qed

lemmas known_facts = sound_facts [OF accepted_sound]

lemma ids_bindD:
  "accepted ob \<Longrightarrow> t \<in> set (capture_tokens ob) \<Longrightarrow> u \<in> set (capture_tokens ob) \<Longrightarrow> tv_eventId t = tv_eventId u \<Longrightarrow>
     t\<lparr>tv_seenOn := []\<rparr> = u\<lparr>tv_seenOn := []\<rparr>"
  unfolding accepted_def ids_bind_def by blast

lemma one_amountD:
  "accepted ob \<Longrightarrow> t \<in> set (capture_tokens ob) \<Longrightarrow> u \<in> set (capture_tokens ob) \<Longrightarrow> p \<in> set (tv_proofs t) \<Longrightarrow> q \<in> set (tv_proofs u) \<Longrightarrow>
     mintProofKey (tv_mint t) (pv_y p) = mintProofKey (tv_mint u) (pv_y q) \<Longrightarrow> pv_amount p = pv_amount q"
  unfolding accepted_def one_amount_def by blast

lemma known_bind:
  assumes "accepted ob" and "known_token ob t" and "known_token ob u" and "tv_eventId t = tv_eventId u"
  shows "tv_mint t = tv_mint u" and "tv_proofs t = tv_proofs u" and "tv_del t = tv_del u" and "tv_unit t = tv_unit u"
proof -
  obtain t' s where t': "t' \<in> set (capture_tokens ob)" "t = t'\<lparr>tv_seenOn := s\<rparr>"
    using known_source [OF assms(2)] by (elim bexE exE)
  obtain u' s' where u': "u' \<in> set (capture_tokens ob)" "u = u'\<lparr>tv_seenOn := s'\<rparr>"
    using known_source [OF assms(3)] by (elim bexE exE)
  note * = t' u'
  have "t'\<lparr>tv_seenOn := []\<rparr> = u'\<lparr>tv_seenOn := []\<rparr>"
    by (rule ids_bindD [OF assms(1) t'(1) u'(1)]) (use assms(4) t' u' in simp)
  then show "tv_mint t = tv_mint u" "tv_proofs t = tv_proofs u" "tv_del t = tv_del u" "tv_unit t = tv_unit u"
    using * by (cases t'; cases u'; simp)+
qed

lemma known_keys: "accepted ob \<Longrightarrow> known_token ob t \<Longrightarrow> known_token ob u \<Longrightarrow> tv_eventId t = tv_eventId u \<Longrightarrow> token_keys t = token_keys u"
  using known_bind [of ob t u] by (simp add: token_keys_def)

lemma known_amount:
  assumes "accepted ob" and "known_token ob t" and "p \<in> set (tv_proofs t)" and "known_token ob u" and "q \<in> set (tv_proofs u)"
    and "mintProofKey (tv_mint t) (pv_y p) = mintProofKey (tv_mint u) (pv_y q)"
  shows "pv_amount p = pv_amount q"
proof -
  obtain t' s where t': "t' \<in> set (capture_tokens ob)" "t = t'\<lparr>tv_seenOn := s\<rparr>"
    using known_source [OF assms(2)] by (elim bexE exE)
  obtain u' s' where u': "u' \<in> set (capture_tokens ob)" "u = u'\<lparr>tv_seenOn := s'\<rparr>"
    using known_source [OF assms(4)] by (elim bexE exE)
  show ?thesis
    by (rule one_amountD [OF assms(1) t'(1) u'(1)]) (use assms(3,5,6) t' u' in simp_all)
qed

text \<open>The amount of a proof, by its key.\<close>

definition key_amount :: "doctor_observation \<Rightarrow> string \<Rightarrow> int" where
  "key_amount ob = amount_of_key (all_tokens (ob_relays ob))"

lemma key_amount_eq:
  assumes "accepted ob" and "known_token ob t" and "p \<in> set (tv_proofs t)"
  shows "pv_amount p = key_amount ob (mintProofKey (tv_mint t) (pv_y p))"
proof -
  obtain u where u: "u \<in> set (all_tokens (ob_relays ob))" "tv_eventId u = tv_eventId t"
    using known_in_all [OF assms(2)] by blast
  then have k: "known_token ob u" by (simp add: known_token_def)
  note b = known_bind [OF assms(1) k assms(2) u(2)]
  have "amount_of_key (all_tokens (ob_relays ob)) (mintProofKey (tv_mint u) (pv_y p)) = pv_amount p"
    using assms(3) u(1) b
    by (intro amount_of_key_eq) (auto dest: known_amount [OF assms(1) _ _ assms(2,3), rotated 2] simp: known_token_def)
  then show ?thesis by (simp add: key_amount_def b)
qed

lemma sound_state:
  assumes "sound_observation ob" and "known_token ob t" and "p \<in> set (tv_proofs t)"
  shows "\<exists>s. state_of (indexMintTruth (ob_mint ob)) (tv_mint t) (pv_y p) = Some s"
proof -
  have "mintProofKey (tv_mint t) (pv_y p) \<in> truth_key ` set (ob_mint ob)"
    using sound_facts(4) [OF assms(1,2)] assms(3) by (auto simp: token_keys_def)
  then show ?thesis
    using indexMintTruth_None [of "ob_mint ob" "mintProofKey (tv_mint t) (pv_y p)"] by (auto simp: state_of_def)
qed

lemmas known_state = sound_state [OF accepted_sound]

section \<open>Orphan candidates\<close>

definition orphan_at :: "string list \<Rightarrow> string list \<Rightarrow> token_view list \<Rightarrow> string \<Rightarrow> orphan_candidate \<Rightarrow> bool" where
  "orphan_at ids ys ts k c \<longleftrightarrow> k \<notin> set ys \<and> k = mintProofKey (oc_mint c) (oc_y c) \<and>
     (\<exists>t \<in> set ts. tv_eventId t \<notin> set ids \<and> (\<exists>p \<in> set (tv_proofs t). oc_mint c = tv_mint t \<and> oc_y c = pv_y p \<and> oc_amount c = pv_amount p))"

lemma orphan_proofs_sound:
  assumes "\<And>k c. map_of m k = Some c \<Longrightarrow> orphan_at ids ys ts k c" and "t \<in> set ts" and "tv_eventId t \<notin> set ids"
    and "set ps \<subseteq> set (tv_proofs t)" and "map_of (fold (orphan_proof ys t) ps m) k = Some c"
  shows "orphan_at ids ys ts k c"
  using assms(1,4,5)
proof (induction ps arbitrary: m)
  case (Cons p ps)
  have "orphan_at ids ys ts k' c'" if "map_of (orphan_proof ys t p m) k' = Some c'" for k' c'
    using that Cons.prems(1,2) assms(2,3)
    by (auto simp: orphan_proof_def Let_def orphan_at_def split: if_splits option.splits; blast)
  from Cons.IH [OF this] Cons.prems(2,3) show ?case by simp
qed simp

lemma orphan_tokens_sound:
  assumes "\<And>k c. map_of m k = Some c \<Longrightarrow> orphan_at ids ys ts k c" and "set us \<subseteq> set ts"
    and "map_of (fold (orphan_token ids ys) us m) k = Some c"
  shows "orphan_at ids ys ts k c"
  using assms
proof (induction us arbitrary: m)
  case (Cons u us)
  have "orphan_at ids ys ts k' c'" if "map_of (orphan_token ids ys u m) k' = Some c'" for k' c'
  proof (cases "tv_eventId u \<in> set ids")
    case True
    then show ?thesis using that Cons.prems(1) by (simp add: orphan_token_def)
  next
    case False
    then show ?thesis
      using that orphan_proofs_sound [OF Cons.prems(1), where t = u and ps = "tv_proofs u"] Cons.prems(2) by (simp add: orphan_token_def)
  qed
  from Cons.IH [OF this] Cons.prems(2,3) show ?case by simp
qed simp

lemma dom_orphan_proofs:
  "dom (map_of (fold (orphan_proof ys t) ps m)) = dom (map_of m) \<union> ((\<lambda>p. mintProofKey (tv_mint t) (pv_y p)) ` set ps - set ys)"
proof (induction ps arbitrary: m)
  case (Cons p ps)
  have "dom (map_of (orphan_proof ys t p m)) = dom (map_of m) \<union> ({mintProofKey (tv_mint t) (pv_y p)} - set ys)"
    by (auto simp: orphan_proof_def Let_def split: if_splits option.splits)
  with Cons.IH [of "orphan_proof ys t p m"] show ?case by auto
qed simp

lemma dom_orphan_tokens:
  "dom (map_of (fold (orphan_token ids ys) ts m)) = dom (map_of m) \<union>
     ((\<Union>t \<in> {t \<in> set ts. tv_eventId t \<notin> set ids}. set (token_keys t)) - set ys)"
proof (induction ts arbitrary: m)
  case (Cons t ts)
  have "dom (map_of (orphan_token ids ys t m)) = dom (map_of m) \<union>
      (if tv_eventId t \<in> set ids then {} else set (token_keys t) - set ys)"
    by (auto simp: orphan_token_def dom_orphan_proofs token_keys_def)
  with Cons.IH [of "orphan_token ids ys t m"] show ?case by auto
qed simp

lemma mp_ok_orphans: "mp_ok m \<Longrightarrow> mp_ok (fold (orphan_token ids ys) ts m)"
proof (induction ts arbitrary: m)
  case (Cons t ts)
  have "mp_ok (fold (orphan_proof ys t) ps m)" if "mp_ok m" for ps m
    using that by (induction ps arbitrary: m) (auto simp: orphan_proof_def Let_def split: option.splits)
  with Cons show ?case by (simp add: orphan_token_def)
qed simp

lemma orphan_candidate_sound:
  assumes "c \<in> set (orphan_candidates lc ts live)"
  shows "\<exists>t \<in> set ts. tv_eventId t \<notin> tv_eventId ` set live \<and> (\<exists>p \<in> set (tv_proofs t). oc_mint c = tv_mint t \<and> oc_y c = pv_y p \<and>
      oc_amount c = pv_amount p) \<and> (\<forall>u \<in> set live. mintProofKey (oc_mint c) (oc_y c) \<notin> set (token_keys u))"
proof -
  let ?ids = "map tv_eventId live" and ?ys = "concat (map token_keys live)"
  from assms obtain k c' where c': "map_of (fold (orphan_token ?ids ?ys) ts []) k = Some c'"
    and c: "c = c'\<lparr>oc_lastSeenIn := sort (oc_lastSeenIn c')\<rparr>"
    by (auto simp: orphan_candidates_def in_mp_values mp_ok_orphans)
  from c' have "orphan_at ?ids ?ys ts k c'"
    by (rule orphan_tokens_sound [where m = "[]" and us = ts, rotated 2]) simp_all
  then show ?thesis
    by (auto simp: orphan_at_def c)
qed

lemma orphan_candidate_complete:
  assumes "t \<in> set ts" and "tv_eventId t \<notin> tv_eventId ` set live" and "k \<in> set (token_keys t)"
    and "\<And>u. u \<in> set live \<Longrightarrow> k \<notin> set (token_keys u)"
  shows "\<exists>c \<in> set (orphan_candidates lc ts live). mintProofKey (oc_mint c) (oc_y c) = k"
proof -
  let ?ids = "map tv_eventId live" and ?ys = "concat (map token_keys live)"
  have "k \<in> dom (map_of (fold (orphan_token ?ids ?ys) ts []))"
    using assms by (auto simp: dom_orphan_tokens)
  then obtain c where c: "map_of (fold (orphan_token ?ids ?ys) ts []) k = Some c" by blast
  then have "orphan_at ?ids ?ys ts k c"
    by (rule orphan_tokens_sound [where m = "[]" and us = ts, rotated 2]) simp_all
  then have "k = mintProofKey (oc_mint c) (oc_y c)" by (simp add: orphan_at_def)
  moreover have "c \<in> set (mp_values (fold (orphan_token ?ids ?ys) ts []))"
    using c by (auto simp: in_mp_values mp_ok_orphans)
  ultimately show ?thesis
    by (force simp: orphan_candidates_def)
qed

end
