(* ===== verification/Doctor_Findings.thy ===== *)
theory Doctor_Findings
  imports Doctor_Merge
begin

text \<open>
  When the diagnosis reports what: each rule's findings in terms of the merged view and the mint's truth, and
  the mints that a repair consolidates.
\<close>

section \<open>Findings by code\<close>

lemma partition_code: "f \<in> set (relayPartitions m urls) \<Longrightarrow> fd_code f = Relay_partition"
  by (auto simp: relayPartitions_def partition_finding_def Let_def split: if_splits)

lemma ghost_code: "f \<in> set (ghostTokens m M) \<Longrightarrow> fd_code f = Ghost_token"
  by (auto simp: ghostTokens_def ghost_finding_def Let_def split: if_splits)

lemma orphan_code: "f \<in> set (orphanedProofs lc m M) \<Longrightarrow> fd_code f = Orphaned_proofs"
  by (auto simp: orphanedProofs_def)

lemma break_code: "f \<in> set (delChainBreaks m v) \<Longrightarrow> fd_code f = Del_chain_break"
  by (auto simp: delChainBreaks_def break_finding_def Let_def split: if_splits)

lemma fork_code: "f \<in> set (walletEventForks ob v m urls) \<Longrightarrow> fd_code f = Wallet_event_fork"
  by (auto simp: walletEventForks_def fork_finding_def Let_def split: if_splits option.splits)

lemma first_per_target_subset: "set (first_per_target seen fs) \<subseteq> set fs"
  by (induction fs arbitrary: seen) (auto split: if_splits)

lemma unpropagated_code: "f \<in> set (deletionsNotPropagated ob m v) \<Longrightarrow> fd_code f = Deletion_not_propagated"
  unfolding deletionsNotPropagated_def
  by (drule subsetD [OF first_per_target_subset]) (auto simp: unpropagated_finding_def Let_def split: if_splits)

lemma history_code: "f \<in> set (historyGaps ob) \<Longrightarrow> fd_code f = History_gap"
  by (auto simp: historyGaps_def Let_def split: if_splits)

lemma quote_code: "f \<in> set (quoteLimbo ob now) \<Longrightarrow> fd_code f = Quote_limbo"
  by (auto simp: quoteLimbo_def Let_def split: if_splits)

lemma malformed_code: "f \<in> set (malformedEvents ob) \<Longrightarrow> fd_code f = Malformed_event"
  by (auto simp: malformedEvents_def malformed_finding_def)

lemmas rule_codes = partition_code ghost_code orphan_code break_code fork_code unpropagated_code history_code
  quote_code malformed_code

abbreviation doctor_findings :: "(string \<Rightarrow> string \<Rightarrow> int) \<Rightarrow> doctor_observation \<Rightarrow> int option \<Rightarrow> finding list" where
  "doctor_findings lc ob now \<equiv> dg_findings (diagnose lc ob now)"

definition rule_findings :: "(string \<Rightarrow> string \<Rightarrow> int) \<Rightarrow> doctor_observation \<Rightarrow> int option \<Rightarrow> diagnosis_code \<Rightarrow> finding list" where
  "rule_findings lc ob now code =
     (let perRelay = map reconstructRelay (ob_relays ob); merged = rx_merged (reconstruct lc ob);
          M = indexMintTruth (ob_mint ob); urls = ok_relay_urls (ob_relays ob) in
      case code of
        Relay_partition \<Rightarrow> relayPartitions merged urls
      | Ghost_token \<Rightarrow> ghostTokens merged M
      | Orphaned_proofs \<Rightarrow> orphanedProofs lc merged M
      | Del_chain_break \<Rightarrow> delChainBreaks merged perRelay
      | Wallet_event_fork \<Rightarrow> walletEventForks ob perRelay merged urls
      | Deletion_not_propagated \<Rightarrow> deletionsNotPropagated ob merged perRelay
      | History_gap \<Rightarrow> historyGaps ob
      | Quote_limbo \<Rightarrow> quoteLimbo ob (case now of None \<Rightarrow> 0 | Some n \<Rightarrow> n)
      | Malformed_event \<Rightarrow> malformedEvents ob)"

lemma all_findings_iff:
  "f \<in> set (all_findings lc ob (case now of None \<Rightarrow> 0 | Some n \<Rightarrow> n)) \<longleftrightarrow> f \<in> set (rule_findings lc ob now (fd_code f))"
  by (auto simp: all_findings_def Let_def rule_findings_def dest: rule_codes split: diagnosis_code.splits)

text \<open>What a finding says apart from its summary, which is cut to a maximal length.\<close>

lemma finding_iff:
  "(\<exists>f \<in> set (doctor_findings lc ob now). fd_code f = code \<and> P (fd_eventIds f) (fd_ys f) (fd_mint f) (fd_relays f) (fd_amountAtRisk f)) \<longleftrightarrow>
   (\<exists>f \<in> set (rule_findings lc ob now code). P (fd_eventIds f) (fd_ys f) (fd_mint f) (fd_relays f) (fd_amountAtRisk f))"
proof -
  have code: "f \<in> set (rule_findings lc ob now code) \<Longrightarrow> fd_code f = code" for f
    by (auto simp: rule_findings_def Let_def dest: rule_codes split: diagnosis_code.splits)
  have "(\<exists>f \<in> set (doctor_findings lc ob now). fd_code f = code \<and> P (fd_eventIds f) (fd_ys f) (fd_mint f) (fd_relays f) (fd_amountAtRisk f)) \<longleftrightarrow>
      (\<exists>f \<in> set (all_findings lc ob (case now of None \<Rightarrow> 0 | Some n \<Rightarrow> n)). fd_code f = code \<and>
        P (fd_eventIds f) (fd_ys f) (fd_mint f) (fd_relays f) (fd_amountAtRisk f))"
    by (simp add: diagnose_def Let_def sortFindings_def)
  then show ?thesis
    unfolding Bex_def all_findings_iff by (auto dest: code)
qed

section \<open>Ghosts and broken chains\<close>

abbreviation truth_state :: "doctor_observation \<Rightarrow> token_view \<Rightarrow> proof_view \<Rightarrow> doctor_state option" where
  "truth_state ob t p \<equiv> state_of (indexMintTruth (ob_mint ob)) (tv_mint t) (pv_y p)"

definition ghost_token :: "doctor_observation \<Rightarrow> token_view \<Rightarrow> bool" where
  "ghost_token ob t \<longleftrightarrow> t \<in> set (live_tokens (ob_relays ob)) \<and> (\<exists>p \<in> set (tv_proofs t). truth_state ob t p = Some Is_spent)"

definition broken_token :: "doctor_observation \<Rightarrow> token_view \<Rightarrow> bool" where
  "broken_token ob t \<longleftrightarrow> t \<in> set (naive_tokens (ob_relays ob)) \<and>
     tv_eventId t \<notin> tv_eventId ` set (live_tokens (ob_relays ob)) \<and> tv_eventId t \<in> set (superseded_anywhere (ob_relays ob))"

definition sick_mint :: "doctor_observation \<Rightarrow> string \<Rightarrow> bool" where
  "sick_mint ob m \<longleftrightarrow> (\<exists>t. (ghost_token ob t \<or> broken_token ob t) \<and> tv_mint t = m)"

lemma broken_known: "broken_token ob t \<Longrightarrow> known_token ob t"
  by (simp add: broken_token_def known_token_def)

lemma ghost_known: "ghost_token ob t \<Longrightarrow> known_token ob t"
  by (simp add: ghost_token_def live_known)

lemma ghost_finding_nonempty:
  assumes "accepted ob" and "t \<in> set (live_tokens (ob_relays ob))"
  shows "ghost_finding (indexMintTruth (ob_mint ob)) t \<noteq> [] \<longleftrightarrow> ghost_token ob t"
proof -
  have "\<not> list_ex (\<lambda>p. truth_state ob t p = None) (tv_proofs t)"
    using known_state [OF assms(1) live_known [OF assms(2)]] by (force simp: list_ex_iff)
  then show ?thesis
    using assms(2) by (auto simp: ghost_finding_def Let_def ghost_token_def filter_empty_conv)
qed

lemma ghost_event_ids: "f \<in> set (ghost_finding M t) \<Longrightarrow> fd_eventIds f = [tv_eventId t]"
  by (auto simp: ghost_finding_def Let_def split: if_splits)

lemma break_event_ids: "f \<in> set (break_finding m v t) \<Longrightarrow> fd_eventIds f = [tv_eventId t]"
  by (auto simp: break_finding_def Let_def split: if_splits)

lemma per_token_events:
  assumes "\<And>t f. f \<in> set (g t) \<Longrightarrow> fd_eventIds f = [tv_eventId t]"
  shows "(\<exists>f \<in> set (concat (map g ts)). i \<in> set (fd_eventIds f)) \<longleftrightarrow> (\<exists>t \<in> set ts. g t \<noteq> [] \<and> tv_eventId t = i)"
proof
  assume "\<exists>f \<in> set (concat (map g ts)). i \<in> set (fd_eventIds f)"
  then obtain t f where "t \<in> set ts" "f \<in> set (g t)" "i \<in> set (fd_eventIds f)" by auto
  then show "\<exists>t \<in> set ts. g t \<noteq> [] \<and> tv_eventId t = i" using assms [of f t] by (intro bexI [of _ t]) auto
next
  assume "\<exists>t \<in> set ts. g t \<noteq> [] \<and> tv_eventId t = i"
  then obtain t where "t \<in> set ts" "hd (g t) \<in> set (g t)" "tv_eventId t = i" by auto
  then show "\<exists>f \<in> set (concat (map g ts)). i \<in> set (fd_eventIds f)" using assms [of "hd (g t)" t] by force
qed

lemma ghost_events:
  assumes "accepted ob"
  shows "(\<exists>f \<in> set (doctor_findings lc ob now). fd_code f = Ghost_token \<and> i \<in> set (fd_eventIds f)) \<longleftrightarrow>
    (\<exists>t. ghost_token ob t \<and> tv_eventId t = i)"
proof -
  have "(\<exists>f \<in> set (rule_findings lc ob now Ghost_token). i \<in> set (fd_eventIds f)) \<longleftrightarrow>
      (\<exists>t \<in> set (live_tokens (ob_relays ob)). ghost_finding (indexMintTruth (ob_mint ob)) t \<noteq> [] \<and> tv_eventId t = i)"
    using per_token_events [OF ghost_event_ids] by (simp add: rule_findings_def ghostTokens_def Let_def)
  also have "\<dots> \<longleftrightarrow> (\<exists>t. ghost_token ob t \<and> tv_eventId t = i)"
    using ghost_finding_nonempty [OF assms] by (metis ghost_token_def)
  finally show ?thesis
    using finding_iff [of lc ob now Ghost_token "\<lambda>ids ys m rs a. i \<in> set ids"] by simp
qed

lemma naive_live_somewhere:
  assumes "t \<in> set (naive_tokens rs)"
  shows "\<exists>r \<in> set rs. ro_status r = Relay_ok \<and> (\<exists>u \<in> set (rv_liveTokens (reconstructRelay r)). tv_eventId u = tv_eventId t)"
proof -
  from assms obtain e s where "e \<in> set (concat (map (\<lambda>r. rv_liveTokens (reconstructRelay r)) (ok_relays rs)))"
    and "t = e\<lparr>tv_seenOn := s\<rparr>"
    unfolding naive_tokens_def by (blast dest: tokens.deduped_from)
  then show ?thesis by (auto simp: ok_relays_def)
qed

lemma still_live_iff:
  "still_live_on v i = [] \<longleftrightarrow> (\<forall>x \<in> set v. \<forall>t \<in> set (rv_liveTokens x). tv_eventId t \<noteq> i)"
  by (auto simp: still_live_on_def filter_empty_conv list_ex_iff simp flip: set_empty2)

lemma break_finding_nonempty:
  assumes "t \<in> set (naive_tokens (ob_relays ob))"
  shows "break_finding (rx_merged (reconstruct lc ob)) (map reconstructRelay (ob_relays ob)) t \<noteq> [] \<longleftrightarrow> broken_token ob t"
proof -
  have "still_live_on (map reconstructRelay (ob_relays ob)) (tv_eventId t) \<noteq> []"
    using naive_live_somewhere [OF assms] by (auto simp: still_live_iff)
  then show ?thesis
    using assms by (auto simp: break_finding_def Let_def broken_token_def)
qed

lemma break_events:
  "(\<exists>f \<in> set (doctor_findings lc ob now). fd_code f = Del_chain_break \<and> i \<in> set (fd_eventIds f)) \<longleftrightarrow>
    (\<exists>t. broken_token ob t \<and> tv_eventId t = i)"
proof -
  have "(\<exists>f \<in> set (rule_findings lc ob now Del_chain_break). i \<in> set (fd_eventIds f)) \<longleftrightarrow>
      (\<exists>t \<in> set (naive_tokens (ob_relays ob)).
        break_finding (rx_merged (reconstruct lc ob)) (map reconstructRelay (ob_relays ob)) t \<noteq> [] \<and> tv_eventId t = i)"
    using per_token_events [OF break_event_ids] by (simp add: rule_findings_def delChainBreaks_def Let_def)
  also have "\<dots> \<longleftrightarrow> (\<exists>t. broken_token ob t \<and> tv_eventId t = i)"
    using break_finding_nonempty [of _ ob lc] by (metis broken_token_def)
  finally show ?thesis
    using finding_iff [of lc ob now Del_chain_break "\<lambda>ids ys m rs a. i \<in> set ids"] by simp
qed

section \<open>Mints to consolidate\<close>

abbreviation found :: "merged_view \<Rightarrow> string \<Rightarrow> token_view option" where
  "found m i \<equiv> findToken (mg_liveTokens m) (mg_naiveLiveTokens m) i"

lemma note_tokens:
  "set (fst (fold (note_token m code) is acc)) = set (fst acc) \<union> {tv_mint t | t i. i \<in> set is \<and> found m i = Some t}"
  "set (snd (fold (note_token m code) is acc)) =
     set (snd acc) \<union> {i \<in> set is. code = Del_chain_break \<and> found m i \<noteq> None}"
  by (induction "is" arbitrary: acc) (auto simp: note_token_def split: option.splits)

lemma note_finding_sets:
  "set (fst (note_finding m f acc)) = set (fst acc) \<union>
     {tv_mint t | t i. (fd_code f = Ghost_token \<or> fd_code f = Del_chain_break) \<and> i \<in> set (fd_eventIds f) \<and> found m i = Some t}"
  "set (snd (note_finding m f acc)) = set (snd acc) \<union>
     {i. fd_code f = Del_chain_break \<and> i \<in> set (fd_eventIds f) \<and> found m i \<noteq> None}"
  by (auto simp: note_finding_def note_tokens)

lemma note_findings_fst:
  "set (fst (fold (note_finding m) fs acc)) = set (fst acc) \<union>
     {tv_mint t | t i. \<exists>f \<in> set fs. (fd_code f = Ghost_token \<or> fd_code f = Del_chain_break) \<and> i \<in> set (fd_eventIds f) \<and> found m i = Some t}"
proof (induction fs arbitrary: acc)
  case (Cons f fs)
  show ?case
    unfolding fold.simps comp_def Cons.IH note_finding_sets Un_assoc list.set bex_simps(5) by (rule arg_cong [where f = "(\<union>) (set (fst acc))"]) blast
qed simp

lemma note_findings_snd:
  "set (snd (fold (note_finding m) fs acc)) = set (snd acc) \<union>
     {i. \<exists>f \<in> set fs. fd_code f = Del_chain_break \<and> i \<in> set (fd_eventIds f) \<and> found m i \<noteq> None}"
proof (induction fs arbitrary: acc)
  case (Cons f fs)
  show ?case
    unfolding fold.simps comp_def Cons.IH note_finding_sets by auto
qed simp

lemma consolidation_sets:
  "set (fst (consolidation m fs)) =
     {tv_mint t | t i. \<exists>f \<in> set fs. (fd_code f = Ghost_token \<or> fd_code f = Del_chain_break) \<and> i \<in> set (fd_eventIds f) \<and> found m i = Some t}"
  "set (snd (consolidation m fs)) =
     {i. \<exists>f \<in> set fs. fd_code f = Del_chain_break \<and> i \<in> set (fd_eventIds f) \<and> found m i \<noteq> None}"
  by (simp_all add: consolidation_def note_findings_fst note_findings_snd)

lemma found_live:
  assumes "t \<in> set (live_tokens (ob_relays ob))"
  shows "found (rx_merged (reconstruct lc ob)) (tv_eventId t) = Some t"
  using find_unique [OF assms live_tokens_distinct] by (simp add: findToken_def find_by_id_def)

lemma found_naive:
  assumes "t \<in> set (naive_tokens (ob_relays ob))" and "tv_eventId t \<notin> tv_eventId ` set (live_tokens (ob_relays ob))"
  shows "found (rx_merged (reconstruct lc ob)) (tv_eventId t) = Some t"
proof -
  have "find (\<lambda>u. tv_eventId u = tv_eventId t) (live_tokens (ob_relays ob)) = None"
    using assms(2) by (auto simp: find_None_iff image_iff)
  then show ?thesis
    using find_unique [OF assms(1) naive_tokens_distinct] by (simp add: findToken_def find_by_id_def)
qed

lemma found_known: "found (rx_merged (reconstruct lc ob)) i = Some t \<Longrightarrow> known_token ob t \<and> tv_eventId t = i"
  by (auto simp: findToken_def find_by_id_def known_token_def live_tokens_def dest!: find_SomeD split: option.splits)

lemma consolidation_mints:
  assumes "accepted ob"
  shows "set (fst (consolidation (rx_merged (reconstruct lc ob)) (doctor_findings lc ob now))) = {m. sick_mint ob m}"
proof -
  let ?m = "rx_merged (reconstruct lc ob)"
  have events: "(\<exists>f \<in> set (doctor_findings lc ob now). (fd_code f = Ghost_token \<or> fd_code f = Del_chain_break) \<and> i \<in> set (fd_eventIds f) \<and>
      found ?m i = Some t) \<longleftrightarrow> (\<exists>u. (ghost_token ob u \<or> broken_token ob u) \<and> tv_eventId u = i) \<and> found ?m i = Some t" for i t
    using ghost_events [OF assms, of lc now i] break_events [of lc ob now i] by blast
  have found: "ghost_token ob u \<or> broken_token ob u \<Longrightarrow> found ?m (tv_eventId u) = Some u" for u
    by (auto simp: ghost_token_def broken_token_def found_live found_naive simp del: merged_fields)
  show ?thesis
    unfolding consolidation_sets events sick_mint_def using found by force
qed

lemma consolidation_broken:
  "set (snd (consolidation (rx_merged (reconstruct lc ob)) (doctor_findings lc ob now))) = {tv_eventId t | t. broken_token ob t}"
proof -
  let ?m = "rx_merged (reconstruct lc ob)"
  have found: "broken_token ob u \<Longrightarrow> found ?m (tv_eventId u) \<noteq> None" for u
    by (auto simp: broken_token_def found_naive simp del: merged_fields)
  have "(\<exists>f \<in> set (doctor_findings lc ob now). fd_code f = Del_chain_break \<and> i \<in> set (fd_eventIds f) \<and> found ?m i \<noteq> None) \<longleftrightarrow>
      (\<exists>t. broken_token ob t \<and> tv_eventId t = i) \<and> found ?m i \<noteq> None" for i
    using break_events [of lc ob now i] by blast
  then show ?thesis
    unfolding consolidation_sets using found by auto
qed

end
