(* ===== verification/Doctor_Simulation.thy ===== *)
theory Doctor_Simulation
  imports Doctor_Findings
begin

text \<open>
  The plan that the doctor builds from its own diagnosis, in closed form, and what simulating it does to the
  live events: the events of the consolidated mints go, one planned rollover comes for each mint that has
  value left, and a second application changes nothing.
\<close>

section \<open>The consolidation in closed form\<close>

definition planned :: "nat \<Rightarrow> string" where
  "planned k = ''planned:rollover:'' @ decimal_text k"

lemma planned_inject [simp]: "planned i = planned j \<longleftrightarrow> i = j"
  by (simp add: planned_def decimal_text_inject)

lemma planned_not_hash: "\<not> hash_pattern (planned k)"
  by (simp add: planned_def hash_pattern_def lower_hex_def)

definition rollover_step :: "merged_view \<Rightarrow> (string, mint_observation) jsmap \<Rightarrow> string list \<Rightarrow> string list \<Rightarrow> nat \<times> string \<Rightarrow> repair_step" where
  "rollover_step m M broken urls = (\<lambda>(k, mint). Publish_rollover (planned k) mint
     (case live_for_mint m mint of [] \<Rightarrow> ''sat'' | t # _ \<Rightarrow> tv_unit t) (covered_ys m M mint) (delete_ids_for m broken mint) urls)"

definition covered_mints :: "merged_view \<Rightarrow> (string, mint_observation) jsmap \<Rightarrow> string list \<Rightarrow> string list" where
  "covered_mints m M mints = filter (\<lambda>mint. covered_ys m M mint \<noteq> []) mints"

lemma consolidate_fold:
  assumes "\<And>mint. mint \<in> set mints \<Longrightarrow> delete_ids_for m broken mint \<noteq> [] \<and>
      \<not> deletes_unchecked m M (delete_ids_for m broken mint)"
  shows "\<exists>k'. fold (consolidate_mint m M broken urls) mints (k, R, E) =
    (k', R @ map (rollover_step m M broken urls) (enumerate k (covered_mints m M mints)),
     E @ map (\<lambda>mint. Delete_events (delete_ids_for m broken mint) urls) mints)"
  using assms
proof (induction mints arbitrary: k R E)
  case (Cons mint mints)
  let ?del = "Delete_events (delete_ids_for m broken mint) urls"
  have here: "delete_ids_for m broken mint \<noteq> []" "\<not> deletes_unchecked m M (delete_ids_for m broken mint)"
    using Cons.prems [of mint] by simp_all
  have rest: "delete_ids_for m broken x \<noteq> [] \<and> \<not> deletes_unchecked m M (delete_ids_for m broken x)" if "x \<in> set mints" for x
    using Cons.prems that by simp
  show ?case
  proof (cases "covered_ys m M mint = []")
    case True
    then have "consolidate_mint m M broken urls mint (k, R, E) = (k, R, E @ [?del])"
      using here by (simp add: consolidate_mint_def)
    then show ?thesis
      using Cons.IH [OF rest, of k R "E @ [?del]"] True by (simp add: covered_mints_def)
  next
    case False
    then have "consolidate_mint m M broken urls mint (k, R, E) =
        (Suc k, R @ [rollover_step m M broken urls (k, mint)], E @ [?del])"
      using here by (simp add: consolidate_mint_def Let_def rollover_step_def planned_def)
    then show ?thesis
      using Cons.IH [OF rest, of "Suc k" "R @ [rollover_step m M broken urls (k, mint)]" "E @ [?del]"] False
      by (simp add: covered_mints_def)
  qed
qed (simp add: covered_mints_def)

section \<open>Simulation\<close>

fun neutral :: "repair_step \<Rightarrow> bool" where
  "neutral (Publish_rollover i mint unit covered del relays) = False"
| "neutral (Delete_events ids relays) = False"
| "neutral _ = True"

lemma simulate_neutral: "list_all neutral steps \<Longrightarrow> rfold simulate_step st steps = Inr st"
proof (induction steps)
  case (Cons s steps)
  then show ?case by (cases s) simp_all
qed simp

lemma map_of_delete_ids: "map_of (delete_ids ids m) i = (if i \<in> set ids then None else map_of m i)"
  unfolding delete_ids_def by (induction ids arbitrary: m) auto

lemma mp_ok_delete_ids: "mp_ok m \<Longrightarrow> mp_ok (delete_ids ids m)"
  unfolding delete_ids_def by (induction ids arbitrary: m) auto

lemma delete_ids_append: "delete_ids (xs @ ys) m = delete_ids ys (delete_ids xs m)"
  by (simp add: delete_ids_def)

lemma simulate_deletes:
  "rfold simulate_step st (map (\<lambda>x. Delete_events (d x) urls) xs) =
     Inr (st\<lparr>ps_liveTokens := delete_ids (concat (map d xs)) (ps_liveTokens st)\<rparr>)"
proof (induction xs arbitrary: st)
  case (Cons x xs)
  then show ?case by (simp add: delete_ids_append)
qed (simp add: delete_ids_def)

text \<open>The token that a planned rollover becomes.\<close>

definition rollover_token :: "(string \<rightharpoonup> proof_view) \<Rightarrow> merged_view \<Rightarrow> (string, mint_observation) jsmap \<Rightarrow> string list \<Rightarrow> string list \<Rightarrow> nat \<times> string \<Rightarrow> token_view" where
  "rollover_token P m M broken urls = (\<lambda>(k, mint).
     \<lparr>tv_eventId = planned k, tv_createdAt = max_safe_integer, tv_mint = mint,
      tv_unit = (case live_for_mint m mint of [] \<Rightarrow> ''sat'' | t # _ \<Rightarrow> tv_unit t),
      tv_proofs = map (\<lambda>y. the (P (mintProofKey mint y))) (covered_ys m M mint),
      tv_del = delete_ids_for m broken mint, tv_seenOn = urls\<rparr>)"

lemma traverse_all_Some:
  "(\<And>y. y \<in> set ys \<Longrightarrow> map_of (ps_proofsByY st) (mintProofKey mint y) \<noteq> None) \<Longrightarrow>
     traverse (covered_proof st r mint) ys = Inr (map (\<lambda>y. the (map_of (ps_proofsByY st) (mintProofKey mint y))) ys)"
proof (induction ys)
  case (Cons y ys)
  then obtain p where "map_of (ps_proofsByY st) (mintProofKey mint y) = Some p" by fastforce
  then show ?case using Cons by (simp add: covered_proof_def)
qed simp

definition rolled :: "(string \<rightharpoonup> proof_view) \<Rightarrow> merged_view \<Rightarrow> (string, mint_observation) jsmap \<Rightarrow> string list \<Rightarrow> string list \<Rightarrow> (nat \<times> string) list \<Rightarrow> string \<rightharpoonup> token_view" where
  "rolled P m M broken urls xs = map_of (map (\<lambda>x. (planned (fst x), rollover_token P m M broken urls x)) xs)"

lemma rolled_Some:
  "rolled P m M broken urls xs i = Some t \<Longrightarrow> \<exists>x \<in> set xs. i = planned (fst x) \<and> t = rollover_token P m M broken urls x"
  unfolding rolled_def by (drule map_of_SomeD) auto

lemma rolled_None: "rolled P m M broken urls xs i = None \<longleftrightarrow> (\<forall>x \<in> set xs. i \<noteq> planned (fst x))"
  by (auto simp: rolled_def map_of_eq_None_iff image_image)

lemma simulate_rollovers:
  assumes "\<And>mint y. mint \<in> set mints \<Longrightarrow> y \<in> set (covered_ys m M mint) \<Longrightarrow> map_of (ps_proofsByY st) (mintProofKey mint y) \<noteq> None"
    and "\<And>mint j. mint \<in> set mints \<Longrightarrow> planned j \<notin> set (delete_ids_for m broken mint)"
    and "mp_ok (ps_liveTokens st)"
  shows "\<exists>st'. rfold simulate_step st (map (rollover_step m M broken urls) (enumerate k mints)) = Inr st' \<and>
    ps_proofsByY st' = ps_proofsByY st \<and> mp_ok (ps_liveTokens st') \<and>
    (\<forall>i. map_of (ps_liveTokens st') i =
      (case rolled (map_of (ps_proofsByY st)) m M broken urls (enumerate k mints) i of
         Some t \<Rightarrow> Some t
       | None \<Rightarrow> if \<exists>mint \<in> set mints. i \<in> set (delete_ids_for m broken mint) then None else map_of (ps_liveTokens st) i))"
  using assms
proof (induction mints arbitrary: k st)
  case (Cons mint mints)
  let ?tok = "rollover_token (map_of (ps_proofsByY st)) m M broken urls (k, mint)"
  let ?st = "st\<lparr>ps_liveTokens := mp_set (delete_ids (delete_ids_for m broken mint) (ps_liveTokens st)) (planned k) ?tok\<rparr>"
  have step: "simulate_step st (rollover_step m M broken urls (k, mint)) = Inr ?st"
    using traverse_all_Some [of "covered_ys m M mint" st mint "planned k"] Cons.prems(1) [of mint]
    by (simp add: rollover_step_def rollover_token_def)
  obtain st' where st': "rfold simulate_step ?st (map (rollover_step m M broken urls) (enumerate (Suc k) mints)) = Inr st'"
    "ps_proofsByY st' = ps_proofsByY st" "mp_ok (ps_liveTokens st')"
    and look: "\<And>i. map_of (ps_liveTokens st') i =
      (case rolled (map_of (ps_proofsByY st)) m M broken urls (enumerate (Suc k) mints) i of
         Some t \<Rightarrow> Some t
       | None \<Rightarrow> if \<exists>mint \<in> set mints. i \<in> set (delete_ids_for m broken mint) then None else map_of (ps_liveTokens ?st) i)"
    using Cons.IH [of ?st "Suc k"] Cons.prems by (auto simp: mp_ok_delete_ids)
  have first: "rolled (map_of (ps_proofsByY st)) m M broken urls ((k, mint) # enumerate (Suc k) mints) =
      (rolled (map_of (ps_proofsByY st)) m M broken urls (enumerate (Suc k) mints))(planned k \<mapsto> ?tok)"
    by (simp add: rolled_def)
  have fresh: "rolled (map_of (ps_proofsByY st)) m M broken urls (enumerate (Suc k) mints) (planned k) = None"
    by (auto simp: rolled_None in_set_enumerate_eq)
  have "map_of (ps_liveTokens st') i =
      (case rolled (map_of (ps_proofsByY st)) m M broken urls (enumerate k (mint # mints)) i of
         Some t \<Rightarrow> Some t
       | None \<Rightarrow> if \<exists>x \<in> set (mint # mints). i \<in> set (delete_ids_for m broken x) then None else map_of (ps_liveTokens st) i)" for i
  proof (cases "i = planned k")
    case True
    then show ?thesis
      using look [of i] fresh Cons.prems(2) by (simp add: first)
  next
    case False
    then show ?thesis
      using look [of i] by (auto simp: first map_of_delete_ids split: option.split)
  qed
  then show ?case
    using st' step by (intro exI [of _ st']) simp
qed (simp add: rolled_def)

end
