(* ===== verification/Doctor_Own_Plan.thy ===== *)
theory Doctor_Own_Plan
  imports Doctor_Simulation
begin

text \<open>
  The doctor's own plan under the doctor's own check. For an accepted capture the plan built from the
  diagnosis passes every test but two, and the two are exactly characterised.
\<close>

section \<open>Events deleted and proofs covered\<close>

abbreviation merged_of :: "(string \<Rightarrow> string \<Rightarrow> int) \<Rightarrow> doctor_observation \<Rightarrow> merged_view" where
  "merged_of lc ob \<equiv> rx_merged (reconstruct lc ob)"

abbreviation truth_of :: "doctor_observation \<Rightarrow> (string, mint_observation) jsmap" where
  "truth_of ob \<equiv> indexMintTruth (ob_mint ob)"

abbreviation live_of :: "doctor_observation \<Rightarrow> token_view set" where
  "live_of ob \<equiv> set (live_tokens (ob_relays ob))"

definition plan_mints :: "(string \<Rightarrow> string \<Rightarrow> int) \<Rightarrow> doctor_observation \<Rightarrow> int option \<Rightarrow> string list" where
  "plan_mints lc ob now = sort (fst (consolidation (merged_of lc ob) (doctor_findings lc ob now)))"

definition plan_broken :: "(string \<Rightarrow> string \<Rightarrow> int) \<Rightarrow> doctor_observation \<Rightarrow> int option \<Rightarrow> string list" where
  "plan_broken lc ob now = snd (consolidation (merged_of lc ob) (doctor_findings lc ob now))"

abbreviation plan_del :: "(string \<Rightarrow> string \<Rightarrow> int) \<Rightarrow> doctor_observation \<Rightarrow> int option \<Rightarrow> string \<Rightarrow> string list" where
  "plan_del lc ob now mint \<equiv> delete_ids_for (merged_of lc ob) (plan_broken lc ob now) mint"

abbreviation plan_covered :: "(string \<Rightarrow> string \<Rightarrow> int) \<Rightarrow> doctor_observation \<Rightarrow> string \<Rightarrow> string list" where
  "plan_covered lc ob mint \<equiv> covered_ys (merged_of lc ob) (truth_of ob) mint"

lemma set_plan_mints: "accepted ob \<Longrightarrow> set (plan_mints lc ob now) = {m. sick_mint ob m}"
  using consolidation_mints [of ob lc now] by (simp add: plan_mints_def)

lemma set_plan_del:
  "i \<in> set (plan_del lc ob now mint) \<longleftrightarrow>
     (\<exists>t. (t \<in> live_of ob \<or> broken_token ob t) \<and> tv_mint t = mint \<and> tv_eventId t = i)"
proof -
  have "t \<in> set (naive_tokens (ob_relays ob)) \<and> tv_eventId t \<in> {tv_eventId t |t. broken_token ob t} \<longleftrightarrow> broken_token ob t" for t
    by (auto simp: broken_token_def image_iff)
  then show ?thesis
    unfolding delete_ids_for_def plan_broken_def consolidation_broken
    by (auto simp: live_for_mint_def)
qed

lemma set_plan_covered:
  assumes "accepted ob"
  shows "y \<in> set (plan_covered lc ob mint) \<longleftrightarrow>
    (\<exists>t \<in> live_of ob. tv_mint t = mint \<and> (\<exists>p \<in> set (tv_proofs t). pv_y p = y \<and> truth_state ob t p \<noteq> Some Is_spent))"
proof -
  have "(case truth_state ob t p of None \<Rightarrow> Is_spent | Some s \<Rightarrow> s) \<in> set covered_states \<longleftrightarrow> truth_state ob t p \<noteq> Some Is_spent"
    if t: "t \<in> live_of ob" and p: "p \<in> set (tv_proofs t)" for t p
  proof -
    obtain s where "truth_state ob t p = Some s"
      using known_state [OF assms live_known [OF t] p] by blast
    then show ?thesis by (cases s) (simp_all add: covered_states_def)
  qed
  then show ?thesis
    unfolding covered_ys_def by (auto simp: live_for_mint_def)
qed

lemma plan_del_checked: "accepted ob \<Longrightarrow> \<not> deletes_unchecked (merged_of lc ob) (truth_of ob) ids"
proof -
  assume a: "accepted ob"
  have "map_of (truth_of ob) (mintProofKey (tv_mint t) (pv_y p)) \<noteq> None"
    if "found (merged_of lc ob) i = Some t" "p \<in> set (tv_proofs t)" for i t p
    using known_state [OF a _ that(2)] found_known [OF that(1)] by (auto simp: state_of_def)
  then show ?thesis
    by (auto simp: deletes_unchecked_def list_ex_iff simp del: merged_fields split: option.splits)
qed

lemma plan_del_nonempty: "sick_mint ob mint \<Longrightarrow> plan_del lc ob now mint \<noteq> []"
proof -
  assume "sick_mint ob mint"
  then obtain t where "(t \<in> live_of ob \<or> broken_token ob t) \<and> tv_mint t = mint"
    by (auto simp: sick_mint_def ghost_token_def)
  then have "tv_eventId t \<in> set (plan_del lc ob now mint)"
    unfolding set_plan_del by blast
  then show ?thesis by auto
qed

lemma plan_del_known: "i \<in> set (plan_del lc ob now mint) \<Longrightarrow> \<exists>t. known_token ob t \<and> tv_eventId t = i"
  unfolding set_plan_del by (blast dest: live_known broken_known)

lemma plan_del_not_planned: "accepted ob \<Longrightarrow> planned j \<notin> set (plan_del lc ob now mint)"
  using plan_del_known known_facts(1) planned_not_hash by metis

text \<open>A live event is deleted exactly when its mint is consolidated.\<close>

lemma live_deleted_iff:
  assumes "accepted ob" and "t \<in> live_of ob"
  shows "(\<exists>mint \<in> set (plan_mints lc ob now). tv_eventId t \<in> set (plan_del lc ob now mint)) \<longleftrightarrow> sick_mint ob (tv_mint t)"
proof
  assume "\<exists>mint \<in> set (plan_mints lc ob now). tv_eventId t \<in> set (plan_del lc ob now mint)"
  then obtain u where u: "u \<in> live_of ob \<or> broken_token ob u" "sick_mint ob (tv_mint u)" "tv_eventId u = tv_eventId t"
    unfolding set_plan_mints [OF assms(1)] set_plan_del by auto
  have "known_token ob u"
    using u(1) by (blast dest: live_known broken_known)
  then have "tv_mint u = tv_mint t"
    using known_bind(1) [OF assms(1) _ live_known [OF assms(2)] u(3)] by simp
  then show "sick_mint ob (tv_mint t)" using u(2) by simp
next
  assume "sick_mint ob (tv_mint t)"
  then show "\<exists>mint \<in> set (plan_mints lc ob now). tv_eventId t \<in> set (plan_del lc ob now mint)"
    unfolding set_plan_mints [OF assms(1)] set_plan_del using assms(2) by blast
qed

section \<open>The steps of the plan\<close>

definition own_plan :: "(string \<Rightarrow> string \<Rightarrow> int) \<Rightarrow> doctor_observation \<Rightarrow> int option \<Rightarrow> string \<Rightarrow> repair_plan" where
  "own_plan lc ob now digest = buildRepairPlan lc ob (diagnose lc ob now) digest"

definition plan_rollovers :: "(string \<Rightarrow> string \<Rightarrow> int) \<Rightarrow> doctor_observation \<Rightarrow> int option \<Rightarrow> (nat \<times> string) list" where
  "plan_rollovers lc ob now = enumerate 0 (covered_mints (merged_of lc ob) (truth_of ob) (plan_mints lc ob now))"

abbreviation own_rollover :: "(string \<Rightarrow> string \<Rightarrow> int) \<Rightarrow> doctor_observation \<Rightarrow> int option \<Rightarrow> nat \<times> string \<Rightarrow> repair_step" where
  "own_rollover lc ob now \<equiv> rollover_step (merged_of lc ob) (truth_of ob) (plan_broken lc ob now) (ok_relay_urls (ob_relays ob))"

lemma own_plan_steps:
  assumes "accepted ob"
  shows "rp_steps (own_plan lc ob now digest) =
    republish_steps (merged_of lc ob) (doctor_findings lc ob now)
      (fst (consolidation (merged_of lc ob) (doctor_findings lc ob now))) (ok_relay_urls (ob_relays ob)) @
    map (own_rollover lc ob now) (plan_rollovers lc ob now) @
    map (\<lambda>mint. Delete_events (plan_del lc ob now mint) (ok_relay_urls (ob_relays ob))) (plan_mints lc ob now) @
    wallet_steps (merged_of lc ob) (doctor_findings lc ob now) @
    action_steps (doctor_findings lc ob now) (ob_mint ob)"
proof -
  have "plan_del lc ob now mint \<noteq> [] \<and> \<not> deletes_unchecked (merged_of lc ob) (truth_of ob) (plan_del lc ob now mint)"
    if "mint \<in> set (plan_mints lc ob now)" for mint
    using that plan_del_nonempty plan_del_checked [OF assms] set_plan_mints [OF assms] by blast
  from consolidate_fold [OF this, of "plan_mints lc ob now" "ok_relay_urls (ob_relays ob)" 0 "[]" "[]"]
  show ?thesis
    by (auto simp: own_plan_def buildRepairPlan_def Let_def plan_mints_def plan_broken_def plan_rollovers_def
        case_prod_unfold simp del: merged_fields)
qed

lemma republish_neutral: "list_all neutral (republish_steps m fs mints urls)"
  by (auto simp: republish_steps_def list_all_iff Let_def split: option.splits if_splits)

lemma wallet_neutral: "list_all neutral (wallet_steps m fs)"
  by (auto simp: wallet_steps_def Let_def split: option.splits)

lemma action_neutral: "list_all neutral (action_steps fs mint)"
  by (auto simp: action_steps_def list_all_iff split: option.splits)

end
