(* ===== verification/Doctor_Own_Run.thy ===== *)
theory Doctor_Own_Run
  imports Doctor_Own_Plan
begin

text \<open>
  What applying the doctor's own plan does: the live events it leaves, the proofs they carry, and that a
  second application leaves the same.
\<close>

abbreviation start_state :: "doctor_observation \<Rightarrow> plan_state" where
  "start_state ob \<equiv> initialPlanState (live_tokens (ob_relays ob)) (all_tokens (ob_relays ob))"

abbreviation proof_lookup :: "doctor_observation \<Rightarrow> string \<rightharpoonup> proof_view" where
  "proof_lookup ob \<equiv> map_of (ps_proofsByY (start_state ob))"

abbreviation rolled_token :: "(string \<Rightarrow> string \<Rightarrow> int) \<Rightarrow> doctor_observation \<Rightarrow> int option \<Rightarrow> nat \<times> string \<Rightarrow> token_view" where
  "rolled_token lc ob now \<equiv> rollover_token (proof_lookup ob) (merged_of lc ob) (truth_of ob) (plan_broken lc ob now) (ok_relay_urls (ob_relays ob))"

definition own_effect :: "(string \<Rightarrow> string \<Rightarrow> int) \<Rightarrow> doctor_observation \<Rightarrow> int option \<Rightarrow> (string \<rightharpoonup> token_view) \<Rightarrow> string \<rightharpoonup> token_view" where
  "own_effect lc ob now L i =
     (case rolled (proof_lookup ob) (merged_of lc ob) (truth_of ob) (plan_broken lc ob now) (ok_relay_urls (ob_relays ob))
             (plan_rollovers lc ob now) i of
        Some t \<Rightarrow> Some t
      | None \<Rightarrow> if \<exists>mint \<in> set (plan_mints lc ob now). i \<in> set (plan_del lc ob now mint) then None else L i)"

lemma own_effect_idem: "own_effect lc ob now (own_effect lc ob now L) = own_effect lc ob now L"
  by (rule ext) (auto simp: own_effect_def split: option.split)

lemma covered_has_proof:
  assumes "accepted ob" and "y \<in> set (plan_covered lc ob mint)"
  shows "\<exists>p. proof_lookup ob (mintProofKey mint y) = Some p \<and> pv_y p = y \<and>
    pv_amount p = key_amount ob (mintProofKey mint y)"
proof -
  obtain t q where t: "t \<in> live_of ob" "tv_mint t = mint" "q \<in> set (tv_proofs t)" "pv_y q = y"
    using assms(2) unfolding set_plan_covered [OF assms(1)] by blast
  have "mintProofKey mint y \<in> set (token_keys t)"
    using t by (auto simp: token_keys_def)
  then obtain p where p: "proof_lookup ob (mintProofKey mint y) = Some p"
    using live_in_all [OF t(1)] proofsByY_None [of _ "all_tokens (ob_relays ob)" "mintProofKey mint y"] by blast
  then obtain u where u: "u \<in> set (all_tokens (ob_relays ob))" "p \<in> set (tv_proofs u)"
    "mintProofKey mint y = mintProofKey (tv_mint u) (pv_y p)"
    using proofsByY_Some by blast
  have ku: "known_token ob u" using u(1) by (simp add: known_token_def)
  have "CHR 0x00 \<notin> set y"
    using known_facts(3) [OF assms(1) live_known [OF t(1)] t(3)] t(4) by simp
  then have "pv_y p = y"
    using known_facts(3) [OF assms(1) ku u(2)] u(3) by (simp add: mintProofKey_inject)
  moreover have "pv_amount p = key_amount ob (mintProofKey mint y)"
    using key_amount_eq [OF assms(1) ku u(2)] u(3) by simp
  ultimately show ?thesis using p by blast
qed

lemma simulate_own:
  assumes "accepted ob" and "mp_ok (ps_liveTokens st)" and "ps_proofsByY st = ps_proofsByY (start_state ob)"
  shows "\<exists>st'. simulatePlan st (rp_steps (own_plan lc ob now digest)) = Inr st' \<and>
    ps_proofsByY st' = ps_proofsByY (start_state ob) \<and> mp_ok (ps_liveTokens st') \<and>
    map_of (ps_liveTokens st') = own_effect lc ob now (map_of (ps_liveTokens st))"
proof -
  let ?m = "merged_of lc ob" and ?M = "truth_of ob" and ?b = "plan_broken lc ob now" and ?urls = "ok_relay_urls (ob_relays ob)"
  let ?mints = "plan_mints lc ob now" and ?cov = "covered_mints (merged_of lc ob) (truth_of ob) (plan_mints lc ob now)"
  have sub: "set ?cov \<subseteq> set ?mints" by (auto simp: covered_mints_def)
  have "\<exists>p. map_of (ps_proofsByY st) (mintProofKey mint y) = Some p" if "y \<in> set (plan_covered lc ob mint)" for mint y
    using covered_has_proof [OF assms(1) that] assms(3) by auto
  then obtain s1 where s1: "rfold simulate_step st (map (own_rollover lc ob now) (plan_rollovers lc ob now)) = Inr s1"
    "ps_proofsByY s1 = ps_proofsByY st" "mp_ok (ps_liveTokens s1)"
    and look: "\<And>i. map_of (ps_liveTokens s1) i =
      (case rolled (map_of (ps_proofsByY st)) ?m ?M ?b ?urls (plan_rollovers lc ob now) i of
         Some t \<Rightarrow> Some t
       | None \<Rightarrow> if \<exists>mint \<in> set ?cov. i \<in> set (plan_del lc ob now mint) then None else map_of (ps_liveTokens st) i)"
    using simulate_rollovers [of ?cov ?m ?M st ?b ?urls 0] assms(2) plan_del_not_planned [OF assms(1)]
    unfolding plan_rollovers_def by auto
  let ?s2 = "s1\<lparr>ps_liveTokens := delete_ids (concat (map (plan_del lc ob now) ?mints)) (ps_liveTokens s1)\<rparr>"
  have "simulatePlan st (rp_steps (own_plan lc ob now digest)) = Inr ?s2"
    unfolding simulatePlan_def own_plan_steps [OF assms(1)] rfold_append
    by (simp add: simulate_neutral republish_neutral wallet_neutral action_neutral s1 simulate_deletes simulate_deletes
        del: merged_fields)
  moreover have "map_of (ps_liveTokens ?s2) i = own_effect lc ob now (map_of (ps_liveTokens st)) i" for i
  proof (cases "rolled (map_of (ps_proofsByY st)) ?m ?M ?b ?urls (plan_rollovers lc ob now) i")
    case None
    then show ?thesis
      using sub by (auto simp: own_effect_def look map_of_delete_ids assms(3) simp del: merged_fields)
  next
    case (Some t)
    then have "i \<notin> set (plan_del lc ob now mint)" for mint
      using plan_del_not_planned [OF assms(1)] by (auto dest!: rolled_Some)
    then show ?thesis
      using Some by (auto simp: own_effect_def look map_of_delete_ids assms(3) simp del: merged_fields)
  qed
  ultimately show ?thesis
    using s1 assms(3) by (intro exI [of _ ?s2]) (auto simp: mp_ok_delete_ids)
qed

section \<open>The live events afterwards\<close>

lemma start_lookup: "map_of (ps_liveTokens (start_state ob)) i = find (\<lambda>t. tv_eventId t = i) (live_tokens (ob_relays ob))"
  using token_map_lookup [OF live_tokens_distinct] by (simp add: initialPlanState_def token_map_def)

lemma start_ok: "mp_ok (ps_liveTokens (start_state ob))"
  by (simp add: initialPlanState_def mp_ok_foldl_set [where g = "\<lambda>x. x"])

definition after_plan :: "(string \<Rightarrow> string \<Rightarrow> int) \<Rightarrow> doctor_observation \<Rightarrow> int option \<Rightarrow> token_view set" where
  "after_plan lc ob now = {t \<in> live_of ob. \<not> sick_mint ob (tv_mint t)} \<union> rolled_token lc ob now ` set (plan_rollovers lc ob now)"

lemma rollover_ids_distinct: "distinct (map fst (plan_rollovers lc ob now))"
  by (simp add: plan_rollovers_def)

lemma effect_values:
  assumes "accepted ob"
  shows "(\<exists>i. own_effect lc ob now (map_of (ps_liveTokens (start_state ob))) i = Some t) \<longleftrightarrow> t \<in> after_plan lc ob now"
proof -
  let ?r = "rolled (proof_lookup ob) (merged_of lc ob) (truth_of ob) (plan_broken lc ob now) (ok_relay_urls (ob_relays ob)) (plan_rollovers lc ob now)"
  have r: "?r (planned (fst x)) = Some (rolled_token lc ob now x)" if "x \<in> set (plan_rollovers lc ob now)" for x
  proof -
    have "inj_on fst (set (plan_rollovers lc ob now))"
      using rollover_ids_distinct by (simp add: distinct_map)
    then have "distinct (map fst (map (\<lambda>x. (planned (fst x), rolled_token lc ob now x)) (plan_rollovers lc ob now)))"
      using rollover_ids_distinct [of lc ob now] by (auto simp: comp_def distinct_map inj_on_def)
    then show ?thesis
      using that unfolding rolled_def by (intro map_of_is_SomeI) auto
  qed
  have live: "own_effect lc ob now (map_of (ps_liveTokens (start_state ob))) (tv_eventId u) =
      (if sick_mint ob (tv_mint u) then None else Some u)" if "u \<in> live_of ob" for u
  proof -
    have "?r (tv_eventId u) = None"
      using known_facts(1) [OF assms live_known [OF that]] planned_not_hash unfolding rolled_None by metis
    then show ?thesis
      using live_deleted_iff [OF assms that, of lc now] find_unique [OF that live_tokens_distinct]
      by (simp add: own_effect_def start_lookup)
  qed
  show ?thesis
  proof
    assume "\<exists>i. own_effect lc ob now (map_of (ps_liveTokens (start_state ob))) i = Some t"
    then obtain i where i: "own_effect lc ob now (map_of (ps_liveTokens (start_state ob))) i = Some t" ..
    show "t \<in> after_plan lc ob now"
    proof (cases "?r i")
      case None
      then have "find (\<lambda>t. tv_eventId t = i) (live_tokens (ob_relays ob)) = Some t"
        using i by (simp add: own_effect_def start_lookup split: if_splits)
      then have "t \<in> live_of ob" "tv_eventId t = i" by (auto dest: find_SomeD)
      then show ?thesis using i live [of t] by (auto simp: after_plan_def split: if_splits)
    next
      case (Some u)
      then have "t = u" using i by (simp add: own_effect_def)
      then show ?thesis using rolled_Some [OF Some] by (auto simp: after_plan_def)
    qed
  next
    assume "t \<in> after_plan lc ob now"
    then consider "t \<in> live_of ob" "\<not> sick_mint ob (tv_mint t)"
      | x where "x \<in> set (plan_rollovers lc ob now)" "t = rolled_token lc ob now x"
      unfolding after_plan_def by blast
    then show "\<exists>i. own_effect lc ob now (map_of (ps_liveTokens (start_state ob))) i = Some t"
    proof cases
      case 1
      then show ?thesis using live [of t] by auto
    next
      case 2
      then show ?thesis using r [of x] by (intro exI [of _ "planned (fst x)"]) (simp add: own_effect_def)
    qed
  qed
qed

end
