(* ===== verification/Doctor_Own_Check.thy ===== *)
theory Doctor_Own_Check
  imports Doctor_Own_Run
begin

text \<open>
  The tests of the plan check on the doctor's own plan: references, cover, idempotence and convergence.
\<close>

section \<open>The events of the planned rollovers\<close>

lemma distinct_plan_mints: "distinct (plan_mints lc ob now)"
proof -
  have "distinct (fst acc) \<Longrightarrow> distinct (fst (fold (note_token m c) is acc))" for m c "is" acc
    by (induction "is" arbitrary: acc) (auto simp: note_token_def split: option.splits)
  then have "distinct (fst acc) \<Longrightarrow> distinct (fst (fold (note_finding m) fs acc))" for m fs acc
    by (induction fs arbitrary: acc) (auto simp: note_finding_def)
  then show ?thesis
    by (simp add: plan_mints_def consolidation_def del: merged_fields)
qed

lemma rollover_mints:
  assumes "accepted ob"
  shows "snd ` set (plan_rollovers lc ob now) = {mint. sick_mint ob mint \<and> plan_covered lc ob mint \<noteq> []}"
    and "distinct (map snd (plan_rollovers lc ob now))"
proof -
  have "map snd (plan_rollovers lc ob now) = covered_mints (merged_of lc ob) (truth_of ob) (plan_mints lc ob now)"
    by (simp add: plan_rollovers_def del: merged_fields)
  then show "snd ` set (plan_rollovers lc ob now) = {mint. sick_mint ob mint \<and> plan_covered lc ob mint \<noteq> []}"
    and "distinct (map snd (plan_rollovers lc ob now))"
    using set_plan_mints [OF assms, of lc now] distinct_plan_mints [of lc ob now]
    by (auto simp: covered_mints_def simp flip: set_map simp del: merged_fields)
qed

lemma rolled_token_fields [simp]:
  "tv_eventId (rolled_token lc ob now x) = planned (fst x)" "tv_mint (rolled_token lc ob now x) = snd x"
  by (cases x; simp add: rollover_token_def)+

lemma rolled_token_proofs:
  assumes "accepted ob" and "p \<in> set (tv_proofs (rolled_token lc ob now x))"
  shows "pv_y p \<in> set (plan_covered lc ob (snd x)) \<and> pv_amount p = key_amount ob (mintProofKey (snd x) (pv_y p))"
proof -
  obtain y where y: "y \<in> set (plan_covered lc ob (snd x))" "p = the (proof_lookup ob (mintProofKey (snd x) y))"
    using assms(2) by (cases x) (auto simp: rollover_token_def)
  obtain q where "proof_lookup ob (mintProofKey (snd x) y) = Some q" "pv_y q = y"
    "pv_amount q = key_amount ob (mintProofKey (snd x) y)"
    using covered_has_proof [OF assms(1) y(1)] by blast
  then show ?thesis using y by simp
qed

lemma rolled_token_keys:
  assumes "accepted ob"
  shows "token_keys (rolled_token lc ob now x) = map (mintProofKey (snd x)) (plan_covered lc ob (snd x))"
proof -
  have "pv_y (the (proof_lookup ob (mintProofKey (snd x) y))) = y" if "y \<in> set (plan_covered lc ob (snd x))" for y
    using covered_has_proof [OF assms that] by force
  then show ?thesis
    by (cases x) (auto simp: token_keys_def rollover_token_def)
qed

lemma covered_no_nul: "accepted ob \<Longrightarrow> y \<in> set (plan_covered lc ob mint) \<Longrightarrow> CHR 0x00 \<notin> set y"
  using known_facts(3) live_known unfolding set_plan_covered by blast

lemma key_inject:
  assumes "accepted ob" and "known_token ob t" and "p \<in> set (tv_proofs t)" and "CHR 0x00 \<notin> set y"
  shows "mintProofKey (tv_mint t) (pv_y p) = mintProofKey mint y \<longleftrightarrow> tv_mint t = mint \<and> pv_y p = y"
  using known_facts(3) [OF assms(1-3)] assms(4) by (simp add: mintProofKey_inject)

text \<open>Events that share a proof are of the same mint.\<close>

definition nul_free :: "token_view \<Rightarrow> bool" where
  "nul_free t \<longleftrightarrow> (\<forall>p \<in> set (tv_proofs t). CHR 0x00 \<notin> set (pv_y p))"

lemma nul_free_known: "accepted ob \<Longrightarrow> known_token ob t \<Longrightarrow> nul_free t"
  using known_facts(3) by (auto simp: nul_free_def)

lemma nul_free_rolled: "accepted ob \<Longrightarrow> nul_free (rolled_token lc ob now x)"
  unfolding nul_free_def using rolled_token_proofs covered_no_nul by blast

lemma shared_key_mint:
  assumes "nul_free t" and "nul_free u" and "set (token_keys t) \<inter> set (token_keys u) \<noteq> {}"
  shows "tv_mint t = tv_mint u"
proof -
  from assms(3) obtain p q where "p \<in> set (tv_proofs t)" "q \<in> set (tv_proofs u)"
    "mintProofKey (tv_mint t) (pv_y p) = mintProofKey (tv_mint u) (pv_y q)"
    by (auto simp: token_keys_def)
  then show ?thesis using assms(1,2) mintProofKey_inject unfolding nul_free_def by blast
qed

section \<open>The proofs that remain\<close>

definition kept_keys :: "doctor_observation \<Rightarrow> string set" where
  "kept_keys ob = {mintProofKey (tv_mint t) (pv_y p) | t p. t \<in> live_of ob \<and> p \<in> set (tv_proofs t) \<and> truth_state ob t p \<noteq> Some Is_spent}"

lemma healthy_not_spent:
  "t \<in> live_of ob \<Longrightarrow> \<not> sick_mint ob (tv_mint t) \<Longrightarrow> p \<in> set (tv_proofs t) \<Longrightarrow> truth_state ob t p \<noteq> Some Is_spent"
  by (auto simp: sick_mint_def ghost_token_def)

lemma covered_keys:
  "accepted ob \<Longrightarrow> k \<in> mintProofKey mint ` set (plan_covered lc ob mint) \<longleftrightarrow>
     (\<exists>t \<in> live_of ob. tv_mint t = mint \<and> (\<exists>p \<in> set (tv_proofs t). k = mintProofKey mint (pv_y p) \<and> truth_state ob t p \<noteq> Some Is_spent))"
  unfolding image_iff Bex_def set_plan_covered by blast

lemma after_plan_keys:
  assumes "accepted ob"
  shows "(\<Union>t \<in> after_plan lc ob now. set (token_keys t)) = kept_keys ob"
proof (intro equalityI subsetI)
  fix k assume "k \<in> (\<Union>t \<in> after_plan lc ob now. set (token_keys t))"
  then consider t where "t \<in> live_of ob" "\<not> sick_mint ob (tv_mint t)" "k \<in> set (token_keys t)"
    | x :: "nat \<times> string" where "k \<in> mintProofKey (snd x) ` set (plan_covered lc ob (snd x))"
    unfolding after_plan_def by (fastforce simp: rolled_token_keys [OF assms] simp del: merged_fields)
  then show "k \<in> kept_keys ob"
  proof cases
    case 1
    then show ?thesis using healthy_not_spent [OF 1(1,2)] by (auto simp: kept_keys_def token_keys_iff)
  next
    case 2
    then obtain t p where "t \<in> live_of ob" "p \<in> set (tv_proofs t)" "k = mintProofKey (tv_mint t) (pv_y p)"
      "truth_state ob t p \<noteq> Some Is_spent"
      unfolding covered_keys [OF assms] by auto
    then show ?thesis unfolding kept_keys_def by blast
  qed
next
  fix k assume "k \<in> kept_keys ob"
  then obtain t p where t: "t \<in> live_of ob" "p \<in> set (tv_proofs t)" "truth_state ob t p \<noteq> Some Is_spent"
    "k = mintProofKey (tv_mint t) (pv_y p)"
    by (auto simp: kept_keys_def)
  show "k \<in> (\<Union>t \<in> after_plan lc ob now. set (token_keys t))"
  proof (cases "sick_mint ob (tv_mint t)")
    case False
    then show ?thesis using t by (auto simp: after_plan_def token_keys_iff)
  next
    case True
    have k: "k \<in> mintProofKey (tv_mint t) ` set (plan_covered lc ob (tv_mint t))"
      unfolding covered_keys [OF assms] using t by blast
    then have "tv_mint t \<in> snd ` set (plan_rollovers lc ob now)"
      using True unfolding rollover_mints(1) [OF assms] by auto
    then obtain x where "x \<in> set (plan_rollovers lc ob now)" "snd x = tv_mint t" by auto
    then show ?thesis
      using k rolled_token_keys [OF assms, of lc now x] unfolding after_plan_def by (intro UN_I [of "rolled_token lc ob now x"]) auto
  qed
qed

lemma after_plan_amounts:
  assumes "accepted ob" and "t \<in> after_plan lc ob now" and "p \<in> set (tv_proofs t)"
  shows "pv_amount p = key_amount ob (mintProofKey (tv_mint t) (pv_y p))"
  using assms(2) unfolding after_plan_def
proof (elim UnE imageE CollectE conjE)
  assume "t \<in> live_of ob"
  then show ?thesis by (rule key_amount_eq [OF assms(1) live_known assms(3)])
next
  fix x assume "t = rolled_token lc ob now x"
  then show ?thesis using rolled_token_proofs [OF assms(1), of p lc now x] assms(3) by simp
qed

lemma after_plan_unspent:
  assumes "accepted ob" and "t \<in> after_plan lc ob now" and "p \<in> set (tv_proofs t)"
  shows "truth_state ob t p \<noteq> Some Is_spent"
  using assms(2) unfolding after_plan_def
proof (elim UnE imageE CollectE conjE)
  assume "t \<in> live_of ob" "\<not> sick_mint ob (tv_mint t)"
  then show ?thesis using assms(3) by (rule healthy_not_spent)
next
  fix x assume x: "t = rolled_token lc ob now x"
  then have "pv_y p \<in> set (plan_covered lc ob (snd x))"
    using rolled_token_proofs [OF assms(1), of p lc now x] assms(3) by simp
  then obtain u q where "u \<in> live_of ob" "tv_mint u = snd x" "q \<in> set (tv_proofs u)" "pv_y q = pv_y p" "truth_state ob u q \<noteq> Some Is_spent"
    unfolding set_plan_covered [OF assms(1)] by blast
  then show ?thesis using x by (simp del: merged_fields)
qed

text \<open>Two live events of a mint that needs no repair carry the same proof.\<close>

definition unseen_duplicate :: "doctor_observation \<Rightarrow> bool" where
  "unseen_duplicate ob \<longleftrightarrow> (\<exists>t \<in> live_of ob. \<exists>u \<in> live_of ob. t \<noteq> u \<and> \<not> sick_mint ob (tv_mint t) \<and>
     set (token_keys t) \<inter> set (token_keys u) \<noteq> {})"

lemma after_plan_ids: "accepted ob \<Longrightarrow> inj_on tv_eventId (after_plan lc ob now)"
proof (rule inj_onI)
  fix t u assume a: "accepted ob" and t: "t \<in> after_plan lc ob now" and u: "u \<in> after_plan lc ob now" and e: "tv_eventId t = tv_eventId u"
  have hash: "hash_pattern (tv_eventId x)" if "x \<in> live_of ob" for x
    using known_facts(1) [OF a live_known [OF that]] .
  have inj: "inj_on fst (set (plan_rollovers lc ob now))"
    using rollover_ids_distinct by (simp add: distinct_map)
  have live: "inj_on tv_eventId (live_of ob)"
    using live_tokens_distinct by (simp add: distinct_map)
  have apart: "tv_eventId x \<noteq> planned j" if "x \<in> live_of ob" for x j
    using hash [OF that] planned_not_hash by metis
  show "t = u"
    using t u unfolding after_plan_def
  proof (elim UnE imageE CollectE conjE)
    assume "t \<in> live_of ob" "u \<in> live_of ob"
    then show ?thesis by (rule inj_onD [OF live e])
  next
    fix x y assume x: "t = rolled_token lc ob now x" "x \<in> set (plan_rollovers lc ob now)"
      and y: "u = rolled_token lc ob now y" "y \<in> set (plan_rollovers lc ob now)"
    then have "fst x = fst y" using e by simp
    then show ?thesis using inj_onD [OF inj _ x(2) y(2)] x(1) y(1) by simp
  qed (use e apart apart [THEN not_sym] in auto)
qed

section \<open>The tests one by one\<close>

text \<open>A plan state whose live events are those the plan leaves.\<close>

definition leaves :: "(string \<Rightarrow> string \<Rightarrow> int) \<Rightarrow> doctor_observation \<Rightarrow> int option \<Rightarrow> plan_state \<Rightarrow> bool" where
  "leaves lc ob now st \<longleftrightarrow> mp_ok (ps_liveTokens st) \<and> ps_proofsByY st = ps_proofsByY (start_state ob) \<and>
     map_of (ps_liveTokens st) = own_effect lc ob now (map_of (ps_liveTokens (start_state ob)))"

lemma own_runs:
  assumes "accepted ob"
  shows "\<exists>once twice. simulatePlan (start_state ob) (rp_steps (own_plan lc ob now digest)) = Inr once \<and>
    simulatePlan once (rp_steps (own_plan lc ob now digest)) = Inr twice \<and> leaves lc ob now once \<and> leaves lc ob now twice"
proof -
  obtain once where once: "simulatePlan (start_state ob) (rp_steps (own_plan lc ob now digest)) = Inr once" "leaves lc ob now once"
    using simulate_own [OF assms start_ok refl, where lc = lc and now = now and digest = digest] by (auto simp: leaves_def)
  obtain twice where "simulatePlan once (rp_steps (own_plan lc ob now digest)) = Inr twice" "leaves lc ob now twice"
    using simulate_own [OF assms, of once lc now digest] once(2) by (auto simp: leaves_def own_effect_idem)
  with once show ?thesis by blast
qed

lemma leaves_values: "accepted ob \<Longrightarrow> leaves lc ob now st \<Longrightarrow> set (mp_values (ps_liveTokens st)) = after_plan lc ob now"
  using effect_values [of ob lc now] by (auto simp: leaves_def in_mp_values)

lemma leaves_balance:
  assumes "accepted ob" and "leaves lc ob now st"
  shows "planStateUniqueBalance st = sum (key_amount ob) (kept_keys ob)"
  using planStateUniqueBalance_sum [of st "key_amount ob"] after_plan_amounts [OF assms(1)]
  by (simp add: leaves_values [OF assms] after_plan_keys [OF assms(1)])

lemma leaves_keys:
  assumes "leaves lc ob now st" and "leaves lc ob now st'"
  shows "sort (mp_keys (ps_liveTokens st)) = sort (mp_keys (ps_liveTokens st'))"
proof -
  have "set (mp_keys (ps_liveTokens st)) = dom (map_of (ps_liveTokens st))"
    "set (mp_keys (ps_liveTokens st')) = dom (map_of (ps_liveTokens st'))"
    by (simp_all add: mp_keys_def dom_map_of_conv_image_fst)
  then have "set (mp_keys (ps_liveTokens st)) = set (mp_keys (ps_liveTokens st'))"
    using assms by (simp add: leaves_def)
  moreover have "distinct (mp_keys (ps_liveTokens st))" "distinct (mp_keys (ps_liveTokens st'))"
    using assms by (simp_all add: leaves_def mp_ok_def mp_keys_def)
  ultimately show ?thesis
    by (intro sorted_distinct_set_unique) simp_all
qed

lemma values_distinct:
  assumes "accepted ob" and "leaves lc ob now st"
  shows "distinct (mp_values (ps_liveTokens st))"
proof -
  have key: "tv_eventId t = i" if "map_of (ps_liveTokens st) i = Some t" for i t
  proof -
    have "own_effect lc ob now (map_of (ps_liveTokens (start_state ob))) i = Some t"
      using that assms(2) by (simp add: leaves_def)
    then show ?thesis
      by (auto simp: own_effect_def start_lookup dest!: rolled_Some find_SomeD split: option.splits if_splits)
  qed
  have ok: "distinct (map fst (ps_liveTokens st))"
    using assms(2) by (simp add: leaves_def mp_ok_def)
  then have "map tv_eventId (map snd (ps_liveTokens st)) = map fst (ps_liveTokens st)"
    using key by (auto simp: map_of_eq_Some_iff)
  then show ?thesis
    using ok by (metis distinct_map mp_values_def)
qed

lemma leaves_duplicates:
  assumes "accepted ob" and "leaves lc ob now st"
  shows "distinct (concat (map token_keys (mp_values (ps_liveTokens st)))) \<longleftrightarrow> \<not> unseen_duplicate ob"
proof -
  let ?A = "after_plan lc ob now"
  have single: "distinct (token_keys t)" if "t \<in> ?A" for t
    using that unfolding after_plan_def
  proof (elim UnE imageE CollectE conjE)
    assume "t \<in> live_of ob"
    then show ?thesis by (rule known_facts(2) [OF assms(1) live_known])
  next
    fix x assume "t = rolled_token lc ob now x"
    then show ?thesis
      using rolled_token_keys [OF assms(1), of lc now x] covered_no_nul [OF assms(1)]
      by (auto simp: distinct_map inj_on_def mintProofKey_inject covered_ys_def simp del: merged_fields)
  qed
  have roll: "set (token_keys (rolled_token lc ob now x)) \<inter> set (token_keys u) = {}"
    if x: "x \<in> set (plan_rollovers lc ob now)" and u: "u \<in> ?A" and ne: "rolled_token lc ob now x \<noteq> u" for x u
  proof -
    have sick: "sick_mint ob (snd x)"
      using x rollover_mints(1) [OF assms(1), of lc now] by blast
    show ?thesis
      using u unfolding after_plan_def
    proof (elim UnE imageE CollectE conjE)
      assume l: "u \<in> live_of ob" "\<not> sick_mint ob (tv_mint u)"
      then show ?thesis
        using sick shared_key_mint [OF nul_free_rolled [OF assms(1)] nul_free_known [OF assms(1) live_known [OF l(1)]], of lc now x]
        by (intro ccontr [of "_ = {}"]) simp
    next
      fix y assume y: "u = rolled_token lc ob now y" "y \<in> set (plan_rollovers lc ob now)"
      have "inj_on snd (set (plan_rollovers lc ob now))"
        using rollover_mints(2) [OF assms(1), of lc now] by (simp add: distinct_map)
      then have "snd x \<noteq> snd y" using x y ne by (auto dest: inj_onD)
      then show ?thesis
        using y(1) shared_key_mint [of "rolled_token lc ob now x" "rolled_token lc ob now y"] nul_free_rolled [OF assms(1)]
        by (intro ccontr [of "_ = {}"]) simp
    qed
  qed
  have "distinct (concat (map token_keys (mp_values (ps_liveTokens st)))) \<longleftrightarrow>
      (\<forall>t \<in> ?A. \<forall>u \<in> ?A. t \<noteq> u \<longrightarrow> set (token_keys t) \<inter> set (token_keys u) = {})"
    unfolding distinct_concat_map_iff [OF values_distinct [OF assms]] leaves_values [OF assms] using single by blast
  also have "\<dots> \<longleftrightarrow> (\<forall>t \<in> live_of ob. \<forall>u \<in> live_of ob. t \<noteq> u \<longrightarrow> \<not> sick_mint ob (tv_mint t) \<longrightarrow> \<not> sick_mint ob (tv_mint u) \<longrightarrow>
      set (token_keys t) \<inter> set (token_keys u) = {})" (is "?l \<longleftrightarrow> ?r")
  proof
    assume ?l
    then show ?r unfolding after_plan_def by blast
  next
    assume r: ?r
    show ?l
    proof (intro ballI impI)
      fix t u assume t: "t \<in> ?A" and u: "u \<in> ?A" and ne: "t \<noteq> u"
      consider "t \<in> rolled_token lc ob now ` set (plan_rollovers lc ob now)"
        | "u \<in> rolled_token lc ob now ` set (plan_rollovers lc ob now)"
        | "t \<in> live_of ob" "\<not> sick_mint ob (tv_mint t)" "u \<in> live_of ob" "\<not> sick_mint ob (tv_mint u)"
        using t u unfolding after_plan_def by blast
      then show "set (token_keys t) \<inter> set (token_keys u) = {}"
      proof cases
        case 1
        then show ?thesis using roll [OF _ u] ne by blast
      next
        case 2
        then show ?thesis using roll [OF _ t] ne by blast
      next
        case 3
        then show ?thesis using r ne by blast
      qed
    qed
  qed
  also have "\<dots> \<longleftrightarrow> \<not> unseen_duplicate ob"
  proof -
    have "tv_mint t = tv_mint u" if "t \<in> live_of ob" "u \<in> live_of ob" "set (token_keys t) \<inter> set (token_keys u) \<noteq> {}" for t u
      using shared_key_mint [OF nul_free_known [OF assms(1) live_known [OF that(1)]] nul_free_known [OF assms(1) live_known [OF that(2)]] that(3)] .
    then show ?thesis unfolding unseen_duplicate_def by metis
  qed
  finally show ?thesis .
qed

end
