(* ===== verification/Doctor_Cover.thy ===== *)
theory Doctor_Cover
  imports Doctor_Own_Check
begin

text \<open>
  References and cover: what the doctor's own plan refers to exists in the capture, and which deleted proofs
  it covers by a rollover or by a restore instruction.
\<close>

section \<open>Restore instructions\<close>

definition has_orphan :: "(string, string list \<times> string list \<times> int) jsmap \<Rightarrow> string \<Rightarrow> string \<Rightarrow> bool" where
  "has_orphan m mint y \<longleftrightarrow> (\<exists>e. map_of m mint = Some e \<and> y \<in> set (fst e))"

lemma has_orphan_fold:
  "has_orphan (fold (add_orphan M) cs m) mint y \<longleftrightarrow> has_orphan m mint y \<or>
     (\<exists>c \<in> set cs. state_of M (oc_mint c) (oc_y c) = Some Is_unspent \<and> oc_mint c = mint \<and> oc_y c = y)"
proof (induction cs arbitrary: m)
  case (Cons c cs)
  have "has_orphan (add_orphan M c m) mint y \<longleftrightarrow> has_orphan m mint y \<or>
      state_of M (oc_mint c) (oc_y c) = Some Is_unspent \<and> oc_mint c = mint \<and> oc_y c = y"
    by (cases "map_of m (oc_mint c)") (auto simp: add_orphan_def has_orphan_def split: if_splits)
  with Cons.IH [of "add_orphan M c m"] show ?case by auto
qed simp

lemma mp_ok_add_orphan: "mp_ok m \<Longrightarrow> mp_ok (fold (add_orphan M) cs m)"
  by (induction cs arbitrary: m) (auto simp: add_orphan_def split: prod.splits)

lemma orphan_finding_iff:
  "(\<exists>f \<in> set (orphanedProofs lc m M). fd_mint f = Some mint \<and> y \<in> set (fd_ys f)) \<longleftrightarrow>
     (\<exists>c \<in> set (mg_orphanCandidates m). state_of M (oc_mint c) (oc_y c) = Some Is_unspent \<and> oc_mint c = mint \<and> oc_y c = y)"
proof -
  let ?g = "fold (add_orphan M) (mg_orphanCandidates m) []"
  have "(\<exists>f \<in> set (orphanedProofs lc m M). fd_mint f = Some mint \<and> y \<in> set (fd_ys f)) \<longleftrightarrow>
      (\<exists>e. (mint, e) \<in> set ?g \<and> y \<in> set (fst e))"
    by (force simp: orphanedProofs_def)
  also have "\<dots> \<longleftrightarrow> has_orphan ?g mint y"
    using mp_ok_add_orphan [of "[]" M "mg_orphanCandidates m"] by (simp add: has_orphan_def mp_ok_def)
  finally show ?thesis
    unfolding has_orphan_fold by (simp add: has_orphan_def)
qed

lemma orphan_finding_mint: "f \<in> set (orphanedProofs lc m M) \<Longrightarrow> \<exists>mint. fd_mint f = Some mint"
  by (auto simp: orphanedProofs_def)

definition restorable :: "(string \<Rightarrow> string \<Rightarrow> int) \<Rightarrow> doctor_observation \<Rightarrow> string \<Rightarrow> string \<Rightarrow> bool" where
  "restorable lc ob mint y \<longleftrightarrow> (\<exists>c \<in> set (mg_orphanCandidates (merged_of lc ob)).
     state_of (truth_of ob) (oc_mint c) (oc_y c) = Some Is_unspent \<and> oc_mint c = mint \<and> oc_y c = y)"

lemma action_step_iff:
  "(\<exists>ys. Wallet_action mint ys \<in> set (action_steps (doctor_findings lc ob now) (ob_mint ob)) \<and> y \<in> set ys) \<longleftrightarrow> restorable lc ob mint y"
proof -
  let ?P = "\<lambda>ids ys m rs a. (case m of Some m \<Rightarrow> Some m
    | None \<Rightarrow> if ys = [] then None
        else (case js_set (map mo_mint (filter (\<lambda>e. mo_y e \<in> set ys \<and> mo_state e = Is_unspent) (ob_mint ob))) of
                [m] \<Rightarrow> Some m | _ \<Rightarrow> None)) = Some mint \<and> y \<in> set ys"
  have "(\<exists>ys. Wallet_action mint ys \<in> set (action_steps (doctor_findings lc ob now) (ob_mint ob)) \<and> y \<in> set ys) \<longleftrightarrow>
      (\<exists>f \<in> set (doctor_findings lc ob now). fd_code f = Orphaned_proofs \<and> orphanMint f (ob_mint ob) = Some mint \<and> y \<in> set (fd_ys f))"
    by (force simp: action_steps_def split: option.splits)
  also have "\<dots> \<longleftrightarrow> (\<exists>f \<in> set (rule_findings lc ob now Orphaned_proofs). orphanMint f (ob_mint ob) = Some mint \<and> y \<in> set (fd_ys f))"
    using finding_iff [of lc ob now Orphaned_proofs ?P] by (simp add: orphanMint_def)
  also have "\<dots> \<longleftrightarrow> (\<exists>f \<in> set (orphanedProofs lc (merged_of lc ob) (truth_of ob)). fd_mint f = Some mint \<and> y \<in> set (fd_ys f))"
  proof (rule bex_cong)
    fix f assume "f \<in> set (orphanedProofs lc (merged_of lc ob) (truth_of ob))"
    then show "(orphanMint f (ob_mint ob) = Some mint \<and> y \<in> set (fd_ys f)) = (fd_mint f = Some mint \<and> y \<in> set (fd_ys f))"
      using orphan_finding_mint by (fastforce simp: orphanMint_def)
  qed (simp add: rule_findings_def Let_def)
  finally show ?thesis
    unfolding orphan_finding_iff restorable_def .
qed

lemma restorable_key:
  "(\<exists>mint y. restorable lc ob mint y \<and> k = mintProofKey mint y) \<longleftrightarrow>
     map_option mo_state (map_of (truth_of ob) k) = Some Is_unspent \<and>
     (\<exists>t \<in> set (all_tokens (ob_relays ob)). tv_eventId t \<notin> tv_eventId ` live_of ob \<and> k \<in> set (token_keys t)) \<and>
     (\<forall>u \<in> live_of ob. k \<notin> set (token_keys u))" (is "?l \<longleftrightarrow> ?r")
proof
  assume ?l
  then obtain c where c: "c \<in> set (orphan_candidates lc (all_tokens (ob_relays ob)) (live_tokens (ob_relays ob)))"
    "state_of (truth_of ob) (oc_mint c) (oc_y c) = Some Is_unspent" "k = mintProofKey (oc_mint c) (oc_y c)"
    by (auto simp: restorable_def)
  from orphan_candidate_sound [OF c(1)] obtain t p where t: "t \<in> set (all_tokens (ob_relays ob))"
    "tv_eventId t \<notin> tv_eventId ` live_of ob" "p \<in> set (tv_proofs t)" "oc_mint c = tv_mint t" "oc_y c = pv_y p"
    and dead: "\<forall>u \<in> live_of ob. k \<notin> set (token_keys u)"
    unfolding c(3) by blast
  then have "k \<in> set (token_keys t)" by (auto simp: token_keys_def c(3))
  then show ?r using t dead c(2,3) by (auto simp: state_of_def)
next
  assume r: ?r
  then obtain t where "t \<in> set (all_tokens (ob_relays ob))" "tv_eventId t \<notin> tv_eventId ` live_of ob" "k \<in> set (token_keys t)"
    by blast
  from orphan_candidate_complete [OF this, where lc = lc] r
  obtain c where "c \<in> set (orphan_candidates lc (all_tokens (ob_relays ob)) (live_tokens (ob_relays ob)))"
    "mintProofKey (oc_mint c) (oc_y c) = k"
    by blast
  then show ?l
    using r by (auto simp: restorable_def state_of_def)
qed

section \<open>Cover of the deleted proofs\<close>

lemma own_restore_keys:
  assumes "accepted ob"
  shows "k \<in> set (snd (coveredSets (rp_steps (own_plan lc ob now digest)))) \<longleftrightarrow>
    (\<exists>mint y. restorable lc ob mint y \<and> k = mintProofKey mint y)"
proof -
  let ?A = "action_steps (doctor_findings lc ob now) (ob_mint ob)"
  have none: "concat (map restore_keys (republish_steps m fs ms urls)) = []"
    "concat (map restore_keys (wallet_steps m fs)) = []"
    "concat (map restore_keys (map (own_rollover lc ob now) xs)) = []"
    "concat (map restore_keys (map (\<lambda>x. Delete_events (d x) urls) ys)) = []" for m fs ms urls xs d ys
    by (auto simp: republish_steps_def wallet_steps_def Let_def rollover_step_def split: option.splits if_splits)
  have "k \<in> set (snd (coveredSets (rp_steps (own_plan lc ob now digest)))) \<longleftrightarrow> k \<in> set (concat (map restore_keys ?A))"
    unfolding coveredSets_def own_plan_steps [OF assms] map_append concat_append none by simp
  also have "\<dots> \<longleftrightarrow> (\<exists>mint ys y. Wallet_action mint ys \<in> set ?A \<and> y \<in> set ys \<and> k = mintProofKey mint y)"
  proof -
    have "k \<in> set (restore_keys s) \<longleftrightarrow> (\<exists>mint ys y. s = Wallet_action mint ys \<and> y \<in> set ys \<and> k = mintProofKey mint y)" for s
      by (cases s) auto
    then show ?thesis by auto
  qed
  finally show ?thesis
    using action_step_iff [of _ lc ob now] by blast
qed

lemma own_rollover_keys:
  assumes "accepted ob"
  shows "k \<in> set (fst (coveredSets (rp_steps (own_plan lc ob now digest)))) \<longleftrightarrow>
    (\<exists>mint. sick_mint ob mint \<and> k \<in> mintProofKey mint ` set (plan_covered lc ob mint))"
proof -
  have none: "concat (map rollover_keys (republish_steps m fs ms urls)) = []"
    "concat (map rollover_keys (wallet_steps m fs)) = []"
    "concat (map rollover_keys (action_steps fs mint)) = []"
    "concat (map rollover_keys (map (\<lambda>x. Delete_events (d x) urls) ys)) = []" for m fs ms urls mint d ys
    by (auto simp: republish_steps_def wallet_steps_def action_steps_def Let_def split: option.splits if_splits)
  have keys: "rollover_keys (own_rollover lc ob now x) = map (mintProofKey (snd x)) (plan_covered lc ob (snd x))" for x
    by (simp add: rollover_step_def case_prod_unfold)
  have "k \<in> set (fst (coveredSets (rp_steps (own_plan lc ob now digest)))) \<longleftrightarrow>
      (\<exists>mint \<in> snd ` set (plan_rollovers lc ob now). k \<in> mintProofKey mint ` set (plan_covered lc ob mint))"
    unfolding coveredSets_def own_plan_steps [OF assms] map_append concat_append none map_map comp_def keys
    by (auto simp del: merged_fields)
  then show ?thesis
    unfolding rollover_mints(1) [OF assms] by force
qed

lemma own_deleted_ids:
  assumes "accepted ob"
  shows "i \<in> set (concat (map deleted_ids (rp_steps (own_plan lc ob now digest)))) \<longleftrightarrow>
    (\<exists>t. (t \<in> live_of ob \<or> broken_token ob t) \<and> sick_mint ob (tv_mint t) \<and> tv_eventId t = i)"
proof -
  have none: "concat (map deleted_ids (republish_steps m fs ms urls)) = []"
    "concat (map deleted_ids (wallet_steps m fs)) = []"
    "concat (map deleted_ids (action_steps fs mint)) = []" for m fs ms urls mint
    by (auto simp: republish_steps_def wallet_steps_def action_steps_def Let_def split: option.splits if_splits)
  have keys: "deleted_ids (own_rollover lc ob now x) = plan_del lc ob now (snd x)" for x
    by (simp add: rollover_step_def case_prod_unfold)
  have "snd ` set (plan_rollovers lc ob now) \<subseteq> set (plan_mints lc ob now)"
    unfolding rollover_mints(1) [OF assms] set_plan_mints [OF assms] by blast
  then have "i \<in> set (concat (map deleted_ids (rp_steps (own_plan lc ob now digest)))) \<longleftrightarrow>
      (\<exists>mint \<in> set (plan_mints lc ob now). i \<in> set (plan_del lc ob now mint))"
    unfolding own_plan_steps [OF assms] map_append concat_append none map_map comp_def keys deleted_ids.simps
    by (auto simp del: merged_fields)
  then show ?thesis
    unfolding set_plan_mints [OF assms] set_plan_del by blast
qed

text \<open>A proof that a mint reports as pending and that only a superseded event carries.\<close>

definition pending_loss :: "doctor_observation \<Rightarrow> bool" where
  "pending_loss ob \<longleftrightarrow> (\<exists>t. broken_token ob t \<and> (\<exists>p \<in> set (tv_proofs t). truth_state ob t p = Some Is_pending \<and>
     (\<forall>u \<in> live_of ob. mintProofKey (tv_mint t) (pv_y p) \<notin> set (token_keys u))))"

end
