(* ===== verification/Doctor_Agreement.thy ===== *)
theory Doctor_Agreement
  imports Doctor_Own_Plan
begin

text \<open>
  When all relays show an application the same live events, and where the money of a balance is.
\<close>

section \<open>Relays that agree\<close>

abbreviation relay_live_ids :: "relay_observation \<Rightarrow> string set" where
  "relay_live_ids r \<equiv> tv_eventId ` set (rv_liveTokens (reconstructRelay r))"

abbreviation live_ids :: "doctor_observation \<Rightarrow> string set" where
  "live_ids ob \<equiv> tv_eventId ` live_of ob"

definition ok_relay :: "doctor_observation \<Rightarrow> relay_observation \<Rightarrow> bool" where
  "ok_relay ob r \<longleftrightarrow> r \<in> set (ob_relays ob) \<and> ro_status r = Relay_ok"

lemma relay_live_iff:
  "ro_status r = Relay_ok \<Longrightarrow> i \<in> relay_live_ids r \<longleftrightarrow> i \<in> tv_eventId ` set (ro_tokens r) \<and> i \<notin> set (deleted_here r)"
  by (auto simp: reconstructRelay_def Let_def)

lemma error_relay_empty: "ro_status r \<noteq> Relay_ok \<Longrightarrow> relay_live_ids r = {}"
  by (simp add: reconstructRelay_def)

lemma all_ids: "tv_eventId ` set (all_tokens (ob_relays ob)) = (\<Union>r \<in> {r. ok_relay ob r}. tv_eventId ` set (ro_tokens r))"
  unfolding all_tokens_def tokens.deduped_ids by (auto simp: ok_relays_def ok_relay_def)

lemma naive_ids: "tv_eventId ` set (naive_tokens (ob_relays ob)) = (\<Union>r \<in> {r. ok_relay ob r}. relay_live_ids r)"
  unfolding naive_tokens_def tokens.deduped_ids by (auto simp: ok_relays_def ok_relay_def)

lemma deleted_ids_iff: "i \<in> set (deleted_anywhere (ob_relays ob)) \<longleftrightarrow> (\<exists>r. ok_relay ob r \<and> i \<in> set (deleted_here r))"
  by (auto simp: deleted_anywhere_def ok_relays_def ok_relay_def)

lemma live_ids_iff:
  "i \<in> live_ids ob \<longleftrightarrow> (\<exists>r. ok_relay ob r \<and> i \<in> tv_eventId ` set (ro_tokens r)) \<and>
     (\<forall>r. ok_relay ob r \<longrightarrow> i \<notin> set (deleted_here r)) \<and> i \<notin> set (superseded_anywhere (ob_relays ob))"
proof -
  have "i \<in> live_ids ob \<longleftrightarrow> i \<in> tv_eventId ` set (all_tokens (ob_relays ob)) \<and> i \<notin> set (deleted_anywhere (ob_relays ob)) \<and>
      i \<notin> set (superseded_anywhere (ob_relays ob))"
    by (auto simp: live_tokens_def)
  then show ?thesis
    unfolding all_ids deleted_ids_iff by auto
qed

lemma seen_on_iff:
  assumes "sound_observation ob" and "t \<in> set (all_tokens (ob_relays ob))" and "ok_relay ob r"
  shows "ro_url r \<in> set (tv_seenOn t) \<longleftrightarrow> tv_eventId t \<in> tv_eventId ` set (ro_tokens r)"
proof -
  have seen: "tv_seenOn x = [ro_url r']" if "ok_relay ob r'" "x \<in> set (ro_tokens r')" for r' x
    using assms(1) that by (simp add: sound_observation_def ok_relay_def)
  have url: "r' = r" if "ok_relay ob r'" "ro_url r' = ro_url r" for r'
    using assms(1,3) that by (auto simp: sound_observation_def ok_relay_def distinct_map dest: inj_onD)
  have "set (tv_seenOn t) = (\<Union>y \<in> {y \<in> set (concat (map ro_tokens (ok_relays (ob_relays ob)))). tv_eventId y = tv_eventId t}. set (tv_seenOn y))"
    using tokens.deduped_seen assms(2) unfolding all_tokens_def by blast
  then have "ro_url r \<in> set (tv_seenOn t) \<longleftrightarrow>
      (\<exists>r' x. ok_relay ob r' \<and> x \<in> set (ro_tokens r') \<and> tv_eventId x = tv_eventId t \<and> ro_url r \<in> set (tv_seenOn x))"
    by (auto simp: ok_relays_def ok_relay_def)
  also have "\<dots> \<longleftrightarrow> (\<exists>x. x \<in> set (ro_tokens r) \<and> tv_eventId x = tv_eventId t)"
    using seen url assms(3) by (metis list.set_intros(1) singletonD list.set(1) list.set(2))
  finally show ?thesis by (simp add: image_iff eq_commute [of "tv_eventId t"] Bex_def)
qed

definition no_finding :: "(string \<Rightarrow> string \<Rightarrow> int) \<Rightarrow> doctor_observation \<Rightarrow> int option \<Rightarrow> diagnosis_code \<Rightarrow> bool" where
  "no_finding lc ob now code \<longleftrightarrow> (\<forall>f \<in> set (doctor_findings lc ob now). fd_code f \<noteq> code)"

lemma no_finding_iff: "no_finding lc ob now code \<longleftrightarrow> rule_findings lc ob now code = []"
  using finding_iff [of lc ob now code "\<lambda>ids ys m rs a. True"] by (auto simp: no_finding_def)

lemma no_partition_iff:
  assumes "sound_observation ob"
  shows "no_finding lc ob now Relay_partition \<longleftrightarrow>
    (\<forall>i \<in> live_ids ob. \<forall>r. ok_relay ob r \<longrightarrow> i \<in> tv_eventId ` set (ro_tokens r))"
proof -
  have one: "partition_finding (ok_relay_urls (ob_relays ob)) t = [] \<longleftrightarrow>
      (\<forall>r. ok_relay ob r \<longrightarrow> tv_eventId t \<in> tv_eventId ` set (ro_tokens r))" if t: "t \<in> live_of ob" for t
  proof -
    have urls: "u \<in> set (ok_relay_urls (ob_relays ob)) \<longleftrightarrow> (\<exists>r. ok_relay ob r \<and> u = ro_url r)" for u
      by (auto simp: ok_relay_urls_def ok_relays_def ok_relay_def)
    note seen = seen_on_iff [OF assms live_in_all [OF t]]
    obtain r where r: "ok_relay ob r" "tv_eventId t \<in> tv_eventId ` set (ro_tokens r)"
      using t live_ids_iff [of "tv_eventId t" ob] by blast
    then have "filter (\<lambda>u. u \<in> set (ok_relay_urls (ob_relays ob))) (tv_seenOn t) \<noteq> []"
      using seen [OF r(1)] urls by (auto simp: filter_empty_conv)
    then have "partition_finding (ok_relay_urls (ob_relays ob)) t = [] \<longleftrightarrow>
        filter (\<lambda>u. u \<notin> set (tv_seenOn t)) (ok_relay_urls (ob_relays ob)) = []"
      by (simp add: partition_finding_def Let_def)
    also have "\<dots> \<longleftrightarrow> (\<forall>r. ok_relay ob r \<longrightarrow> ro_url r \<in> set (tv_seenOn t))"
      using urls by (auto simp: filter_empty_conv)
    finally show ?thesis using seen by simp
  qed
  show ?thesis
    unfolding no_finding_iff using one by (auto simp: rule_findings_def Let_def relayPartitions_def)
qed

lemma no_break_iff:
  "no_finding lc ob now Del_chain_break \<longleftrightarrow>
     (\<forall>r. ok_relay ob r \<longrightarrow> (\<forall>i \<in> relay_live_ids r. i \<in> live_ids ob \<or> i \<notin> set (superseded_anywhere (ob_relays ob))))"
proof -
  have "no_finding lc ob now Del_chain_break \<longleftrightarrow> (\<forall>t \<in> set (naive_tokens (ob_relays ob)). \<not> broken_token ob t)"
    unfolding no_finding_iff using break_finding_nonempty [of _ ob lc]
    by (auto simp: rule_findings_def Let_def delChainBreaks_def simp del: merged_fields) (simp_all)
  also have "\<dots> \<longleftrightarrow> (\<forall>i \<in> tv_eventId ` set (naive_tokens (ob_relays ob)). i \<in> live_ids ob \<or> i \<notin> set (superseded_anywhere (ob_relays ob)))"
    by (auto simp: broken_token_def)
  finally show ?thesis unfolding naive_ids by auto
qed

lemma first_per_target_Nil: "first_per_target [] fs = [] \<longleftrightarrow> fs = []"
  by (cases fs) auto

lemma no_unpropagated_iff:
  assumes "sound_observation ob"
  shows "no_finding lc ob now Deletion_not_propagated \<longleftrightarrow>
    (\<forall>r i. ok_relay ob r \<longrightarrow> i \<in> set (deleted_here r) \<longrightarrow> i \<in> set (superseded_anywhere (ob_relays ob)) \<or> i \<in> live_ids ob \<or>
      (\<forall>r'. ok_relay ob r' \<longrightarrow> r' \<noteq> r \<longrightarrow> i \<notin> relay_live_ids r'))"
proof -
  let ?m = "merged_of lc ob" and ?v = "map reconstructRelay (ob_relays ob)"
  have url: "ro_url r' = ro_url r \<longleftrightarrow> r' = r" if "r \<in> set (ob_relays ob)" "r' \<in> set (ob_relays ob)" for r r'
    using assms that by (auto simp: sound_observation_def distinct_map dest: inj_onD)
  have view_url: "rv_url (reconstructRelay r) = ro_url r" for r
    by (simp add: reconstructRelay_def Let_def)
  have live: "still_live_on (filter (\<lambda>x. rv_url x \<noteq> ro_url r) ?v) i = [] \<longleftrightarrow> (\<forall>r'. ok_relay ob r' \<longrightarrow> r' \<noteq> r \<longrightarrow> i \<notin> relay_live_ids r')"
    if "ok_relay ob r" for r i
  proof -
    have "still_live_on (filter (\<lambda>x. rv_url x \<noteq> ro_url r) ?v) i = [] \<longleftrightarrow>
        (\<forall>r' \<in> set (ob_relays ob). ro_url r' \<noteq> ro_url r \<longrightarrow> i \<notin> relay_live_ids r')"
    proof -
      have "(\<forall>t \<in> set (rv_liveTokens x). tv_eventId t \<noteq> i) \<longleftrightarrow> i \<notin> tv_eventId ` set (rv_liveTokens x)" for x
        by auto
      then show ?thesis unfolding still_live_iff by (auto simp: view_url)
    qed
    also have "\<dots> \<longleftrightarrow> (\<forall>r' \<in> set (ob_relays ob). r' \<noteq> r \<longrightarrow> i \<notin> relay_live_ids r')"
    proof (rule ball_cong [OF refl])
      fix r' assume "r' \<in> set (ob_relays ob)"
      then show "(ro_url r' \<noteq> ro_url r \<longrightarrow> i \<notin> relay_live_ids r') = (r' \<noteq> r \<longrightarrow> i \<notin> relay_live_ids r')"
        using url [of r r'] that by (simp add: ok_relay_def)
    qed
    finally show ?thesis
    proof -
      assume "still_live_on (filter (\<lambda>x. rv_url x \<noteq> ro_url r) ?v) i = [] \<longleftrightarrow> (\<forall>r' \<in> set (ob_relays ob). r' \<noteq> r \<longrightarrow> i \<notin> relay_live_ids r')"
      moreover have "i \<notin> relay_live_ids r'" if "ro_status r' \<noteq> Relay_ok" for r'
        using error_relay_empty [OF that] by simp
      ultimately show ?thesis unfolding ok_relay_def by blast
    qed
  qed
  have one: "unpropagated_finding ?m ?v r d i = [] \<longleftrightarrow> i \<in> set (superseded_anywhere (ob_relays ob)) \<or> i \<in> live_ids ob \<or>
      (\<forall>r'. ok_relay ob r' \<longrightarrow> r' \<noteq> r \<longrightarrow> i \<notin> relay_live_ids r')" if "ok_relay ob r" for r d i
    using live [OF that, of i] by (simp add: unpropagated_finding_def Let_def)
  have "no_finding lc ob now Deletion_not_propagated \<longleftrightarrow>
      (\<forall>r. ok_relay ob r \<longrightarrow> (\<forall>d \<in> set (ro_deletions r). \<forall>i \<in> set (dv_targets d). unpropagated_finding ?m ?v r d i = []))"
    unfolding no_finding_iff rule_findings_def Let_def deletionsNotPropagated_def
    by (simp add: first_per_target_Nil ok_relays_def ok_relay_def del: merged_fields)
  also have "\<dots> \<longleftrightarrow> (\<forall>r i. ok_relay ob r \<longrightarrow> i \<in> set (deleted_here r) \<longrightarrow> i \<in> set (superseded_anywhere (ob_relays ob)) \<or> i \<in> live_ids ob \<or>
      (\<forall>r'. ok_relay ob r' \<longrightarrow> r' \<noteq> r \<longrightarrow> i \<notin> relay_live_ids r'))"
  proof -
    define C where "C r i \<longleftrightarrow> i \<in> set (superseded_anywhere (ob_relays ob)) \<or> i \<in> live_ids ob \<or>
      (\<forall>r'. ok_relay ob r' \<longrightarrow> r' \<noteq> r \<longrightarrow> i \<notin> relay_live_ids r')" for r i
    have del: "i \<in> set (deleted_here r) \<longleftrightarrow> (\<exists>d \<in> set (ro_deletions r). i \<in> set (dv_targets d))" for r i
      by (simp add: deleted_here_def)
    show ?thesis
      using one unfolding del C_def [symmetric] by blast
  qed
  finally show ?thesis .
qed

lemma relays_agree:
  assumes "sound_observation ob"
  shows "no_finding lc ob now Relay_partition \<and> no_finding lc ob now Del_chain_break \<and> no_finding lc ob now Deletion_not_propagated \<longleftrightarrow>
    (\<forall>r. ok_relay ob r \<longrightarrow> relay_live_ids r = live_ids ob)" (is "?l \<longleftrightarrow> ?r")
proof
  assume l: ?l
  show ?r
  proof (intro allI impI equalityI subsetI)
    fix r i assume r: "ok_relay ob r" and i: "i \<in> live_ids ob"
    then have "i \<in> tv_eventId ` set (ro_tokens r)"
      using l unfolding no_partition_iff [OF assms] by blast
    moreover have "i \<notin> set (deleted_here r)"
      using i r unfolding live_ids_iff by blast
    ultimately show "i \<in> relay_live_ids r"
      using relay_live_iff [of r i] r by (simp add: ok_relay_def)
  next
    fix r i assume r: "ok_relay ob r" and i: "i \<in> relay_live_ids r"
    show "i \<in> live_ids ob"
    proof (rule ccontr)
      assume n: "i \<notin> live_ids ob"
      then have sup: "i \<notin> set (superseded_anywhere (ob_relays ob))"
        using l r i unfolding no_break_iff by blast
      have here: "i \<in> tv_eventId ` set (ro_tokens r)" "i \<notin> set (deleted_here r)"
        using i r relay_live_iff [of r i] by (simp_all add: ok_relay_def)
      then obtain r' where "ok_relay ob r'" "i \<in> set (deleted_here r')"
        using n sup r unfolding live_ids_iff by blast
      then show False
        using l r i n sup here unfolding no_unpropagated_iff [OF assms] by blast
    qed
  qed
next
  assume r: ?r
  then have "no_finding lc ob now Relay_partition"
    using relay_live_iff unfolding no_partition_iff [OF assms] by (metis ok_relay_def)
  moreover have "no_finding lc ob now Del_chain_break" "no_finding lc ob now Deletion_not_propagated"
    using r unfolding no_break_iff no_unpropagated_iff [OF assms] by blast+
  ultimately show ?l by blast
qed

section \<open>Where the money of a balance is\<close>

lemma sum_list_js_sort: "sum_list (map (g :: 'a \<Rightarrow> int) (filter P (js_sort cmp xs))) = sum_list (map g (filter P xs))"
  by (metis mset_filter mset_js_sort mset_map sum_mset_sum_list)

lemma sum_list_concat: "sum_list (concat xss) = sum_list (map (sum_list :: int list \<Rightarrow> int) xss)"
  by (induction xss) simp_all

lemma filter_code_other: "(\<And>f. f \<in> set fs \<Longrightarrow> fd_code f = c) \<Longrightarrow> c \<noteq> code \<Longrightarrow> filter (\<lambda>f. fd_code f = code) fs = []"
  by (auto simp: filter_empty_conv)

lemma filter_code_same: "(\<And>f. f \<in> set fs \<Longrightarrow> fd_code f = code) \<Longrightarrow> filter (\<lambda>f. fd_code f = code) fs = fs"
  by (simp add: filter_id_conv)

lemma filter_all_findings:
  "filter (\<lambda>f. fd_code f = code) (all_findings lc ob (case now of None \<Rightarrow> 0 | Some n \<Rightarrow> n)) = rule_findings lc ob now code"
  unfolding all_findings_def rule_findings_def Let_def
  by (cases code; simp add: filter_code_other [OF partition_code] filter_code_other [OF ghost_code] filter_code_other [OF orphan_code]
      filter_code_other [OF break_code] filter_code_other [OF fork_code] filter_code_other [OF unpropagated_code]
      filter_code_other [OF history_code] filter_code_other [OF quote_code] filter_code_other [OF malformed_code]
      filter_code_same [OF partition_code] filter_code_same [OF ghost_code] filter_code_same [OF orphan_code]
      filter_code_same [OF break_code] filter_code_same [OF fork_code] filter_code_same [OF unpropagated_code]
      filter_code_same [OF history_code] filter_code_same [OF quote_code] filter_code_same [OF malformed_code] del: merged_fields) (simp_all)

definition at_risk :: "finding list \<Rightarrow> diagnosis_code \<Rightarrow> int" where
  "at_risk fs code = sum_list (map fd_amountAtRisk (filter (\<lambda>f. fd_code f = code) fs))"

lemma at_risk_findings: "at_risk (doctor_findings lc ob now) code = at_risk (rule_findings lc ob now code) code"
proof -
  have "at_risk (doctor_findings lc ob now) code =
      sum_list (map fd_amountAtRisk (filter (\<lambda>f. fd_code f = code) (all_findings lc ob (case now of None \<Rightarrow> 0 | Some n \<Rightarrow> n))))"
    by (simp add: at_risk_def diagnose_def Let_def sortFindings_def sum_list_js_sort filter_map comp_def)
  also have "\<dots> = sum_list (map fd_amountAtRisk (filter (\<lambda>f. fd_code f = code) (filter (\<lambda>f. fd_code f = code)
      (all_findings lc ob (case now of None \<Rightarrow> 0 | Some n \<Rightarrow> n)))))"
    by simp
  finally show ?thesis
    unfolding filter_all_findings at_risk_def .
qed

lemma sum_by_state:
  assumes "\<And>p. p \<in> set ps \<Longrightarrow> f p = Some Is_unspent \<or> f p = Some Is_spent \<or> f p = Some Is_pending"
  shows "sumProofs ps = sumProofs (filter (\<lambda>p. f p = Some Is_unspent) ps) + sumProofs (filter (\<lambda>p. f p = Some Is_spent) ps) +
    sumProofs (filter (\<lambda>p. f p = Some Is_pending) ps)"
  using assms by (induction ps) (auto simp: sumProofs_def)

lemma balance_by_state:
  assumes "sound_observation ob"
  shows "mg_balance (merged_of lc ob) = live_value (merged_of lc ob) (truth_of ob) Is_unspent +
    live_value (merged_of lc ob) (truth_of ob) Is_spent + live_value (merged_of lc ob) (truth_of ob) Is_pending"
proof -
  have "sumProofs (tv_proofs t) = sumProofs (filter (\<lambda>p. truth_state ob t p = Some Is_unspent) (tv_proofs t)) +
      sumProofs (filter (\<lambda>p. truth_state ob t p = Some Is_spent) (tv_proofs t)) +
      sumProofs (filter (\<lambda>p. truth_state ob t p = Some Is_pending) (tv_proofs t))" if live: "t \<in> live_of ob" for t
  proof (rule sum_by_state)
    fix p assume "p \<in> set (tv_proofs t)"
    then obtain s where "truth_state ob t p = Some s"
      using sound_state [OF assms live_known [OF live]] by blast
    then show "truth_state ob t p = Some Is_unspent \<or> truth_state ob t p = Some Is_spent \<or> truth_state ob t p = Some Is_pending"
      by (cases s) auto
  qed
  then have "sumTokens (live_tokens (ob_relays ob)) = sum_list (map (\<lambda>t. sumProofs (filter (\<lambda>p. truth_state ob t p = Some Is_unspent) (tv_proofs t)) +
      sumProofs (filter (\<lambda>p. truth_state ob t p = Some Is_spent) (tv_proofs t)) +
      sumProofs (filter (\<lambda>p. truth_state ob t p = Some Is_pending) (tv_proofs t))) (live_tokens (ob_relays ob)))"
    unfolding sumTokens_def by (intro arg_cong [where f = sum_list] map_cong) simp_all
  then show ?thesis
    by (simp add: live_value_def sum_list_addf reconstruct_def reconstructMerged_def Let_def)
qed

lemma ghost_at_risk:
  assumes "sound_observation ob"
  shows "at_risk (rule_findings lc ob now Ghost_token) Ghost_token = live_value (merged_of lc ob) (truth_of ob) Is_spent"
proof -
  have one: "sum_list (map fd_amountAtRisk (ghost_finding (truth_of ob) t)) =
      sumProofs (filter (\<lambda>p. truth_state ob t p = Some Is_spent) (tv_proofs t))" if "t \<in> live_of ob" for t
  proof -
    have "\<not> list_ex (\<lambda>p. truth_state ob t p = None) (tv_proofs t)"
      using sound_state [OF assms live_known [OF that]] by (force simp: list_ex_iff)
    then show ?thesis
      by (auto simp: ghost_finding_def Let_def sumProofs_def)
  qed
  have "at_risk (rule_findings lc ob now Ghost_token) Ghost_token = sum_list (map fd_amountAtRisk (rule_findings lc ob now Ghost_token))"
    using ghost_code by (simp add: at_risk_def rule_findings_def Let_def filter_code_same)
  also have "\<dots> = sum_list (map (\<lambda>t. sum_list (map fd_amountAtRisk (ghost_finding (truth_of ob) t))) (live_tokens (ob_relays ob)))"
    by (simp add: rule_findings_def Let_def ghostTokens_def map_concat sum_list_concat comp_def)
  also have "\<dots> = live_value (merged_of lc ob) (truth_of ob) Is_spent"
    unfolding live_value_def merged_fields using one by (intro arg_cong [where f = sum_list] map_cong) simp_all
  finally show ?thesis .
qed

lemma sum_mp_set:
  "sum_list (map (\<lambda>e. (g :: 'v \<Rightarrow> int) (snd e)) (mp_set m k v)) =
     sum_list (map (\<lambda>e. g (snd e)) m) + g v - (case map_of m k of None \<Rightarrow> 0 | Some w \<Rightarrow> g w)"
  by (induction m) auto

lemma orphans_total:
  "sum_list (map (\<lambda>e. snd (snd (snd e))) (fold (add_orphan M) cs m)) = sum_list (map (\<lambda>e. snd (snd (snd e))) m) +
     sum_list (map oc_amount (filter (\<lambda>c. state_of M (oc_mint c) (oc_y c) = Some Is_unspent) cs))"
proof (induction cs arbitrary: m)
  case (Cons c cs)
  have "sum_list (map (\<lambda>e. snd (snd (snd e))) (add_orphan M c m)) = sum_list (map (\<lambda>e. snd (snd (snd e))) m) +
      (if state_of M (oc_mint c) (oc_y c) = Some Is_unspent then oc_amount c else 0)"
    by (auto simp: add_orphan_def sum_mp_set [where g = "\<lambda>v. snd (snd v)"] split: option.splits prod.splits)
  with Cons.IH [of "add_orphan M c m"] show ?case by simp
qed simp

lemma orphan_at_risk:
  "at_risk (rule_findings lc ob now Orphaned_proofs) Orphaned_proofs =
     sum_list (map oc_amount (filter (\<lambda>c. state_of (truth_of ob) (oc_mint c) (oc_y c) = Some Is_unspent) (mg_orphanCandidates (merged_of lc ob))))"
proof -
  let ?g = "fold (add_orphan (truth_of ob)) (mg_orphanCandidates (merged_of lc ob)) []"
  have "at_risk (rule_findings lc ob now Orphaned_proofs) Orphaned_proofs = sum_list (map fd_amountAtRisk (rule_findings lc ob now Orphaned_proofs))"
    using orphan_code by (simp add: at_risk_def rule_findings_def Let_def filter_code_same)
  also have "\<dots> = sum_list (map (\<lambda>e. snd (snd (snd e))) (filter (\<lambda>_. True) (js_sort (\<lambda>a b. lc (fst a) (fst b)) ?g)))"
    by (simp add: rule_findings_def Let_def orphanedProofs_def comp_def case_prod_unfold)
  also have "\<dots> = sum_list (map (\<lambda>e. snd (snd (snd e))) ?g)"
    unfolding sum_list_js_sort by simp
  finally show ?thesis by (simp add: orphans_total)
qed

end
