(* ===== verification/Doctor_Properties.thy ===== *)
theory Doctor_Properties
  imports Doctor_Cover Doctor_Agreement
begin

text \<open>
  The properties of the wallet doctor: when its own repair plan passes its own check, what a diagnosis without
  findings says about the relays, and what the explanation of a balance adds up to.
\<close>

section \<open>The static tests\<close>

abbreviation own_steps :: "(string \<Rightarrow> string \<Rightarrow> int) \<Rightarrow> doctor_observation \<Rightarrow> int option \<Rightarrow> string \<Rightarrow> repair_step list" where
  "own_steps lc ob now digest \<equiv> rp_steps (own_plan lc ob now digest)"

lemma deleted_check_Nil:
  "deleted_proof_check M R S i mint p = [] \<longleftrightarrow>
     state_of M mint (pv_y p) = Some Is_spent \<or>
     state_of M mint (pv_y p) \<noteq> None \<and> (mintProofKey mint (pv_y p) \<in> set R \<or> mintProofKey mint (pv_y p) \<in> set S)"
  by (auto simp: deleted_proof_check_def Let_def state_of_def split: option.splits if_splits)
    (metis doctor_state.exhaust)+

definition own_covered :: "(string \<Rightarrow> string \<Rightarrow> int) \<Rightarrow> doctor_observation \<Rightarrow> int option \<Rightarrow> string \<Rightarrow> bool" where
  "own_covered lc ob now digest \<longleftrightarrow>
     (\<forall>i \<in> set (concat (map deleted_ids (own_steps lc ob now digest))). \<forall>t. map_of (token_map (all_tokens (ob_relays ob))) i = Some t \<longrightarrow>
        (\<forall>p \<in> set (tv_proofs t). deleted_proof_check (truth_of ob) (fst (coveredSets (own_steps lc ob now digest)))
           (snd (coveredSets (own_steps lc ob now digest))) i (tv_mint t) p = []))"

text \<open>A deleted proof is spent, carried on by a rollover, restored, or pending and in no live event.\<close>

lemma deleted_proof_cases:
  assumes a: "accepted ob" and t: "t \<in> set (all_tokens (ob_relays ob))" and p: "p \<in> set (tv_proofs t)"
    and b: "b \<in> live_of ob \<or> broken_token ob b" "sick_mint ob (tv_mint b)" "tv_eventId b = tv_eventId t"
    and safe: "\<not> pending_loss ob"
  shows "truth_state ob t p = Some Is_spent \<or> mintProofKey (tv_mint t) (pv_y p) \<in> set (fst (coveredSets (own_steps lc ob now digest)))
    \<or> mintProofKey (tv_mint t) (pv_y p) \<in> set (snd (coveredSets (own_steps lc ob now digest)))"
proof -
  have kt: "known_token ob t" using t by (simp add: known_token_def)
  have kb: "known_token ob b" using b(1) by (blast dest: live_known broken_known)
  note same = known_bind [OF a kb kt b(3)]
  obtain s where s: "truth_state ob t p = Some s" using known_state [OF a kt p] by blast
  show ?thesis
  proof (cases "\<exists>u \<in> live_of ob. mintProofKey (tv_mint t) (pv_y p) \<in> set (token_keys u)")
    case True
    then obtain u q where u: "u \<in> live_of ob" "q \<in> set (tv_proofs u)" "mintProofKey (tv_mint t) (pv_y p) = mintProofKey (tv_mint u) (pv_y q)"
      by (auto simp: token_keys_def)
    then have eq: "tv_mint u = tv_mint t" "pv_y q = pv_y p"
      using key_inject [OF a kt p known_facts(3) [OF a live_known [OF u(1)] u(2)]] by auto
    then have "truth_state ob t p \<noteq> Some Is_spent \<Longrightarrow> mintProofKey (tv_mint t) (pv_y p) \<in> set (fst (coveredSets (own_steps lc ob now digest)))"
      unfolding own_rollover_keys [OF a] covered_keys [OF a] using u b(2) same(1) by metis
    then show ?thesis by blast
  next
    case False
    then have "b \<notin> live_of ob" using p same by (auto simp: token_keys_def)
    then have broken: "broken_token ob b" using b(1) by blast
    then have "tv_eventId t \<notin> tv_eventId ` live_of ob" using b(3) by (simp add: broken_token_def)
    then have "s = Is_unspent \<Longrightarrow> mintProofKey (tv_mint t) (pv_y p) \<in> set (snd (coveredSets (own_steps lc ob now digest)))"
      unfolding own_restore_keys [OF a] restorable_key using False t p s by (auto simp: state_of_def token_keys_def)
    moreover have "s \<noteq> Is_pending"
      using safe broken False p s same unfolding pending_loss_def by metis
    ultimately show ?thesis using s by (cases s) auto
  qed
qed

lemma covered_unless_pending:
  assumes a: "accepted ob" and safe: "\<not> pending_loss ob"
  shows "own_covered lc ob now digest"
  unfolding own_covered_def
proof (intro ballI allI impI)
  fix i t p
  assume i: "i \<in> set (concat (map deleted_ids (own_steps lc ob now digest)))"
    and "map_of (token_map (all_tokens (ob_relays ob))) i = Some t" and p: "p \<in> set (tv_proofs t)"
  then have t: "t \<in> set (all_tokens (ob_relays ob))" "tv_eventId t = i"
    using find_SomeD [of "\<lambda>t. tv_eventId t = i" "all_tokens (ob_relays ob)" t]
    unfolding token_map_lookup [OF all_tokens_distinct] by simp_all
  from i [unfolded own_deleted_ids [OF a]]
  obtain b where b: "b \<in> live_of ob \<or> broken_token ob b" "sick_mint ob (tv_mint b)" "tv_eventId b = i"
    by (elim exE conjE)
  note cases = deleted_proof_cases [OF a t(1) p b(1,2) b(3) [folded t(2)] safe, of lc now digest]
  have "truth_state ob t p \<noteq> None"
    using known_state [OF a _ p] t(1) by (auto simp: known_token_def)
  with cases show "deleted_proof_check (truth_of ob) (fst (coveredSets (own_steps lc ob now digest)))
      (snd (coveredSets (own_steps lc ob now digest))) i (tv_mint t) p = []"
    unfolding deleted_check_Nil by blast
qed

lemma pending_not_covered:
  assumes a: "accepted ob" and loss: "pending_loss ob"
  shows "\<not> own_covered lc ob now digest"
proof
  assume cov: "own_covered lc ob now digest"
  obtain b p where b: "broken_token ob b" and p: "p \<in> set (tv_proofs b)" "truth_state ob b p = Some Is_pending"
    and dead: "\<forall>u \<in> live_of ob. mintProofKey (tv_mint b) (pv_y p) \<notin> set (token_keys u)"
    using loss by (auto simp: pending_loss_def)
  obtain t where t: "t \<in> set (all_tokens (ob_relays ob))" "tv_eventId t = tv_eventId b"
    using known_in_all [OF broken_known [OF b]] by blast
  have kt: "known_token ob t" using t(1) by (simp add: known_token_def)
  note same = known_bind [OF a kt broken_known [OF b] t(2)]
  have "sick_mint ob (tv_mint b)" using b by (auto simp: sick_mint_def)
  then have "tv_eventId b \<in> set (concat (map deleted_ids (own_steps lc ob now digest)))"
    unfolding own_deleted_ids [OF a] using b by blast
  moreover have "map_of (token_map (all_tokens (ob_relays ob))) (tv_eventId b) = Some t"
    using find_unique [OF t(1) all_tokens_distinct] t(2) by (simp add: token_map_lookup [OF all_tokens_distinct])
  ultimately have "deleted_proof_check (truth_of ob) (fst (coveredSets (own_steps lc ob now digest)))
      (snd (coveredSets (own_steps lc ob now digest))) (tv_eventId b) (tv_mint b) p = []"
    using cov p(1) same unfolding own_covered_def by (metis (no_types, lifting))
  then have "mintProofKey (tv_mint b) (pv_y p) \<in> set (fst (coveredSets (own_steps lc ob now digest)))
      \<or> mintProofKey (tv_mint b) (pv_y p) \<in> set (snd (coveredSets (own_steps lc ob now digest)))"
    unfolding deleted_check_Nil using p(2) by simp
  moreover have "mintProofKey (tv_mint b) (pv_y p) \<notin> set (fst (coveredSets (own_steps lc ob now digest)))"
    using dead unfolding own_rollover_keys [OF a] covered_keys [OF a] by (auto simp: token_keys_def)
  moreover have "mintProofKey (tv_mint b) (pv_y p) \<notin> set (snd (coveredSets (own_steps lc ob now digest)))"
    using p(2) unfolding own_restore_keys [OF a] restorable_key by (auto simp: state_of_def)
  ultimately show False by blast
qed

text \<open>Every reference of the plan exists in the capture.\<close>

lemma own_references:
  assumes a: "accepted ob" and s: "s \<in> set (own_steps lc ob now digest)"
  shows "step_references (mp_keys (token_map (all_tokens (ob_relays ob))))
    (js_set (concat (map (\<lambda>r. map wv_eventId (ro_wallet r)) (ok_relays (ob_relays ob)))))
    (js_set (concat (map token_keys (all_tokens (ob_relays ob))))) s = []"
proof -
  let ?T = "mp_keys (token_map (all_tokens (ob_relays ob)))"
  let ?W = "js_set (concat (map (\<lambda>r. map wv_eventId (ro_wallet r)) (ok_relays (ob_relays ob))))"
  let ?K = "js_set (concat (map token_keys (all_tokens (ob_relays ob))))"
  have known: "tv_eventId t \<in> set ?T" if "known_token ob t" for t
    using known_in_all [OF that] unfolding token_map_keys by (metis imageI)
  have del: "i \<in> set ?T" if "i \<in> set (plan_del lc ob now mint)" for i mint
    using plan_del_known [OF that] known by blast
  have cov: "mintProofKey mint y \<in> set ?K" if y: "y \<in> set (plan_covered lc ob mint)" for mint y
  proof -
    obtain t q where "t \<in> live_of ob" "tv_mint t = mint" "q \<in> set (tv_proofs t)" "pv_y q = y"
      using y unfolding set_plan_covered [OF a] by blast
    then show ?thesis using live_in_all by (force simp: token_keys_def)
  qed
  have restore: "mintProofKey mint y \<in> set ?K" if "restorable lc ob mint y" for mint y
    using restorable_key [of lc ob "mintProofKey mint y"] that by auto
  from s consider "s \<in> set (republish_steps (merged_of lc ob) (doctor_findings lc ob now)
        (fst (consolidation (merged_of lc ob) (doctor_findings lc ob now))) (ok_relay_urls (ob_relays ob)))"
    | x where "s = own_rollover lc ob now x"
    | mint where "s = Delete_events (plan_del lc ob now mint) (ok_relay_urls (ob_relays ob))"
    | "s \<in> set (wallet_steps (merged_of lc ob) (doctor_findings lc ob now))"
    | "s \<in> set (action_steps (doctor_findings lc ob now) (ob_mint ob))"
    unfolding own_plan_steps [OF a] by (auto simp del: merged_fields)
  then show ?thesis
  proof cases
    case 1
    then obtain i t relays where "s = Republish_event i relays" "found (merged_of lc ob) i = Some t"
      by (auto simp: republish_steps_def Let_def eq_commute [of "Some _"] simp del: merged_fields split: option.splits if_splits)
    then show ?thesis using known found_known by fastforce
  next
    case 2
    have "(if mintProofKey (snd x) y \<notin> set ?K then unknown_reference (''rollover covers '' @ y) else []) = []"
      if "y \<in> set (plan_covered lc ob (snd x))" for y
      using cov [OF that] by simp
    moreover have "(if i \<notin> set ?T then unknown_reference (''rollover del '' @ i) else []) = []"
      if "i \<in> set (plan_del lc ob now (snd x))" for i
      using del [OF that] by simp
    ultimately show ?thesis
      by (simp only: 2 rollover_step_def case_prod_unfold step_references.simps append_Nil2 append_is_Nil_conv concat_Nil_iff) blast
  next
    case 3
    then show ?thesis using del by simp
  next
    case 4
    then obtain w relays where s: "s = Republish_wallet_event (wv_eventId w) relays"
      and w: "latestWalletEvent (dedupe_wallets (concat (map ro_wallet (ok_relays (ob_relays ob))))) = Some w"
      by (auto simp: wallet_steps_def Let_def split: option.splits if_splits)
    have "w \<in> set (dedupe_wallets (concat (map ro_wallet (ok_relays (ob_relays ob)))))"
    proof -
      have "foldl later_wallet l ws = Some w \<Longrightarrow> l = Some w \<or> w \<in> set ws" for l ws
        by (induction ws arbitrary: l) (auto simp: later_wallet_def split: option.splits if_splits)
      then show ?thesis using w by (auto simp: latestWalletEvent_def)
    qed
    then have "wv_eventId w \<in> wv_eventId ` set (concat (map ro_wallet (ok_relays (ob_relays ob))))"
      using wallets.deduped_ids [of "concat (map ro_wallet (ok_relays (ob_relays ob)))"] by blast
    then show ?thesis by (auto simp: s)
  next
    case 5
    then obtain mint ys where s: "s = Wallet_action mint ys"
      by (auto simp: action_steps_def split: option.splits)
    then show ?thesis
      using 5 restore action_step_iff [of mint lc ob now] by (auto simp: unknown_reference_def)
  qed
qed

section \<open>The doctor's own plan\<close>

lemma static_violations_iff:
  assumes "accepted ob"
  shows "static_violations ob (own_steps lc ob now digest) = [] \<longleftrightarrow> \<not> pending_loss ob"
proof -
  have "static_violations ob (own_steps lc ob now digest) = [] \<longleftrightarrow> own_covered lc ob now digest"
    using own_references [OF assms, of _ lc now digest]
    by (auto simp: static_violations_def Let_def case_prod_unfold deleted_event_check_def own_covered_def split: option.splits)
  then show ?thesis
    using covered_unless_pending [OF assms] pending_not_covered [OF assms] by blast
qed

lemma expected_keys_set: "accepted ob \<Longrightarrow> set (expected_keys (truth_of ob) (merged_of lc ob)) = kept_keys ob"
proof -
  assume a: "accepted ob"
  have "truth_state ob t p = Some Is_unspent \<or> truth_state ob t p = Some Is_pending \<longleftrightarrow> truth_state ob t p \<noteq> Some Is_spent"
    if t: "t \<in> live_of ob" and p: "p \<in> set (tv_proofs t)" for t p
  proof -
    obtain s where "truth_state ob t p = Some s" using known_state [OF a live_known [OF t] p] by blast
    then show ?thesis by (cases s) auto
  qed
  then show ?thesis
    by (force simp: expected_keys_def live_proofs_def kept_keys_def)
qed

lemma expected_balance:
  assumes a: "accepted ob"
  shows "sum_list (map (amount_of_key (live_tokens (ob_relays ob) @ all_tokens (ob_relays ob))) (expected_keys (truth_of ob) (merged_of lc ob)))
    = sum (key_amount ob) (kept_keys ob)"
proof -
  let ?L = "live_tokens (ob_relays ob) @ all_tokens (ob_relays ob)"
  have "amount_of_key ?L k = key_amount ob k" if k: "k \<in> kept_keys ob" for k
  proof -
    obtain t p where t: "t \<in> live_of ob" "p \<in> set (tv_proofs t)" "k = mintProofKey (tv_mint t) (pv_y p)"
      using k by (auto simp: kept_keys_def)
    have "amount_of_key ?L k = pv_amount p"
      unfolding t(3)
    proof (rule amount_of_key_eq)
      fix u q assume "u \<in> set ?L" "q \<in> set (tv_proofs u)" "mintProofKey (tv_mint u) (pv_y q) = mintProofKey (tv_mint t) (pv_y p)"
      then show "pv_amount q = pv_amount p"
        using known_amount [OF a _ _ live_known [OF t(1)] t(2)] by (auto simp: known_token_def live_tokens_def)
    qed (use t in auto)
    then show ?thesis
      using key_amount_eq [OF a live_known [OF t(1)] t(2)] t(3) by simp
  qed
  moreover have "distinct (expected_keys (truth_of ob) (merged_of lc ob))"
    by (simp add: expected_keys_def)
  ultimately show ?thesis
    by (simp add: sum_list_distinct_conv_sum_set expected_keys_set [OF a])
qed

lemma live_truth_known:
  "accepted ob \<Longrightarrow> filter (\<lambda>(mint, p). map_of (truth_of ob) (mintProofKey mint (pv_y p)) = None) (live_proofs (merged_of lc ob)) = []"
  using known_state live_known by (fastforce simp: live_proofs_def filter_empty_conv state_of_def)

lemma convergence_iff:
  assumes a: "accepted ob" and st: "leaves lc ob now st"
  shows "convergence_violations (truth_of ob) (merged_of lc ob) (all_tokens (ob_relays ob)) st = [] \<longleftrightarrow> \<not> unseen_duplicate ob"
proof -
  obtain keys d v where scan: "scan_state (truth_of ob) st = (keys, d, v)" by (metis prod_cases3)
  have "v = []"
    unfolding scan_state_facts(2) [OF scan] leaves_values [OF a st] using after_plan_unspent [OF a] by blast
  moreover have "d = 0 \<longleftrightarrow> \<not> unseen_duplicate ob"
    unfolding scan_state_facts(1) [OF scan] by (rule leaves_duplicates [OF a st])
  ultimately show ?thesis
    by (auto simp: convergence_violations_def scan leaves_balance [OF a st] expected_balance [OF a, unfolded merged_fields])
qed

lemma own_plan_ok_iff:
  assumes a: "accepted ob"
  shows "pc_ok (checkRepairPlan lc ob (own_plan lc ob now digest)) \<longleftrightarrow> \<not> pending_loss ob \<and> \<not> unseen_duplicate ob"
proof -
  obtain once twice where runs: "simulatePlan (start_state ob) (own_steps lc ob now digest) = Inr once"
    "simulatePlan once (own_steps lc ob now digest) = Inr twice"
    and once: "leaves lc ob now once" and twice: "leaves lc ob now twice"
    using own_runs [OF a, of lc now digest] by blast
  have idem: "sort (mp_keys (ps_liveTokens once)) = sort (mp_keys (ps_liveTokens twice))"
    "planStateUniqueBalance once = planStateUniqueBalance twice"
    using leaves_keys [OF once twice] leaves_balance [OF a once] leaves_balance [OF a twice] by simp_all
  have "pc_ok (checkRepairPlan lc ob (own_plan lc ob now digest)) \<longleftrightarrow>
      static_violations ob (own_steps lc ob now digest) = [] \<and>
      convergence_violations (truth_of ob) (merged_of lc ob) (all_tokens (ob_relays ob)) once = []"
    using runs idem live_truth_known [OF a, of lc] by (simp add: checkRepairPlan_def Let_def)
  then show ?thesis
    unfolding static_violations_iff [OF a] convergence_iff [OF a once] .
qed

section \<open>Properties\<close>

text \<open>
  A capture for the witnesses: one relay serves an event and its successor. The mint reports the one proof of
  the old event as pending, and the successor does not carry it.
\<close>

definition demo_old :: token_view where
  "demo_old = \<lparr>tv_eventId = replicate 64 CHR ''a'', tv_createdAt = 1, tv_mint = ''m'', tv_unit = ''sat'',
     tv_proofs = [\<lparr>pv_keysetId = ''k'', pv_amount = 4, pv_y = ''02'' @ replicate 64 CHR ''a''\<rparr>],
     tv_del = [], tv_seenOn = [''w'']\<rparr>"

definition demo_new :: token_view where
  "demo_new = \<lparr>tv_eventId = replicate 64 CHR ''b'', tv_createdAt = 2, tv_mint = ''m'', tv_unit = ''sat'',
     tv_proofs = [], tv_del = [replicate 64 CHR ''a''], tv_seenOn = [''w'']\<rparr>"

definition demo_observation :: doctor_observation where
  "demo_observation = \<lparr>ob_subject = replicate 64 CHR ''c'',
     ob_relays = [\<lparr>ro_url = ''w'', ro_status = Relay_ok, ro_error = None, ro_wallet = [], ro_tokens = [demo_old, demo_new],
       ro_deletions = [], ro_history = [], ro_quotes = [], ro_malformed = []\<rparr>],
     ob_mint = [\<lparr>mo_mint = ''m'', mo_y = ''02'' @ replicate 64 CHR ''a'', mo_state = Is_pending\<rparr>]\<rparr>"

definition demo_capture :: nip60_capture where
  "demo_capture = \<lparr>cp_capturedAt = [], cp_digest = ''sha256:'' @ replicate 64 CHR ''d'', cp_subject = replicate 64 CHR ''c'',
     cp_observation = demo_observation,
     cp_relayEvidence = [\<lparr>re_url = ''w'', re_status = Relay_ok, re_error = None,
       re_eventIds = [replicate 64 CHR ''a'', replicate 64 CHR ''b'']\<rparr>]\<rparr>"

lemmas demo_defs = demo_capture_def demo_observation_def demo_old_def demo_new_def

lemma demo_schema: "nip60_capture_schema demo_capture"
  by (simp add: nip60_capture_schema_def relayObservation_schema_def tokenEventView_schema_def relayEvidence_schema_def
      mintObservation_schema_def proofView_schema_def event_ids_schema_def seenOn_schema_def compressed_point_pattern_def
      digest_pattern_def hash_pattern_def lower_hex_def max_safe_integer_def safe_nonneg_iff demo_defs nth_append)

lemma demo_preflight: "preflightCaptureBounds demo_capture = []"
  by (simp add: preflightCaptureBounds_def boundedIntegrityErrors_def when_text_def event_count_def Let_def demo_defs)

lemma demo_errors: "integrity_errors cp_digest demo_capture = []"
  by (simp add: integrity_errors_def when_text_def relay_errors_def seen_lists_def eventIdsForRelay_def mp_keys_def js_set_def
      capture_tokens_def token_keys_def truth_key_def event_count_def max_safe_integer_def Let_def demo_defs)

lemma demo_integrity: "fst (verifyCaptureIntegrity (\<lambda>_. []) cp_digest demo_capture)"
  by (simp add: verifyCaptureIntegrity_def demo_schema demo_preflight demo_errors boundedIntegrityErrors_def)

lemma demo_live: "live_tokens (ob_relays demo_observation) = [demo_new]"
  by code_simp

lemma demo_naive: "naive_tokens (ob_relays demo_observation) = [demo_old, demo_new]"
  by code_simp

lemma demo_superseded: "superseded_anywhere (ob_relays demo_observation) = [replicate 64 CHR ''a'']"
  by code_simp

lemma demo_binds: "ids_bind demo_observation" "one_amount demo_observation"
  by (simp_all add: ids_bind_def one_amount_def capture_tokens_def demo_defs)

lemma demo_pending: "pending_loss demo_observation"
proof -
  have "broken_token demo_observation demo_old"
    by (simp add: broken_token_def demo_naive demo_live demo_superseded) (simp add: demo_defs)
  moreover have "truth_state demo_observation demo_old (hd (tv_proofs demo_old)) = Some Is_pending"
    by (simp add: state_of_def indexMintTruth_def demo_defs)
  ultimately show ?thesis
    unfolding pending_loss_def demo_live
    by (intro exI [of _ demo_old] conjI bexI [of _ "hd (tv_proofs demo_old)"]) (simp_all add: demo_old_def demo_new_def token_keys_def)
qed

text \<open>
  C31: The doctor's own repair plan under the doctor's own check. For every capture that the contract accepts
  (with identifiers that identify events, and proofs that have one amount), the plan built from the diagnosis
  passes the plan check exactly when no proof is pending at the mint while only a superseded event carries it,
  and no two live events of a mint without other findings carry the same proof. In these two cases the plan
  of the doctor is one that the doctor itself rejects; in all others every deleted proof that is not spent is
  carried on by a rollover or restored, every reference exists, applying the plan twice is applying it once,
  and the balance afterwards is the value of the unspent and pending proofs of the live events before.
\<close>

theorem doctor_plan_ok_iff:
  assumes "fst (verifyCaptureIntegrity describe digest_of c)" and "ids_bind (cp_observation c)" and "one_amount (cp_observation c)"
  shows "pc_ok (checkRepairPlan lc (cp_observation c) (buildRepairPlan lc (cp_observation c) (diagnose lc (cp_observation c) now) digest))
    \<longleftrightarrow> \<not> pending_loss (cp_observation c) \<and> \<not> unseen_duplicate (cp_observation c)"
  using own_plan_ok_iff [of "cp_observation c" lc now digest] verified_sound [OF assms(1)] assms(2,3)
  by (simp add: accepted_def own_plan_def)

theorem doctor_plan_ok_iff_witness:
  "fst (verifyCaptureIntegrity (\<lambda>_. []) cp_digest demo_capture) \<and> ids_bind (cp_observation demo_capture) \<and>
   one_amount (cp_observation demo_capture) \<and> pending_loss demo_observation \<and>
   \<not> pc_ok (checkRepairPlan (\<lambda>a b. 0) (cp_observation demo_capture)
       (buildRepairPlan (\<lambda>a b. 0) (cp_observation demo_capture) (diagnose (\<lambda>a b. 0) (cp_observation demo_capture) None) []))"
proof -
  have ob: "cp_observation demo_capture = demo_observation" by (simp add: demo_capture_def)
  show ?thesis
    using doctor_plan_ok_iff [OF demo_integrity, of "\<lambda>a b. 0" None "[]"] demo_integrity demo_binds demo_pending
    unfolding ob by simp
qed

text \<open>
  C32: Agreement of the relays. In an accepted capture the diagnosis reports no partition, no broken chain and
  no deletion that failed to propagate exactly when every relay that answered shows an application the same
  live events, namely the live events of the merged view.
\<close>

theorem relays_agree_iff:
  assumes "fst (verifyCaptureIntegrity describe digest_of c)"
  shows "(\<forall>f \<in> set (dg_findings (diagnose lc (cp_observation c) now)).
        fd_code f \<notin> {Relay_partition, Del_chain_break, Deletion_not_propagated}) \<longleftrightarrow>
    (\<forall>r \<in> set (ob_relays (cp_observation c)). ro_status r = Relay_ok \<longrightarrow>
      tv_eventId ` set (rv_liveTokens (reconstructRelay r)) =
      tv_eventId ` set (mg_liveTokens (reconstructMerged lc (ob_relays (cp_observation c)))))"
proof -
  have live: "mg_liveTokens (reconstructMerged lc rs) = live_tokens rs" for rs
    by (simp add: reconstructMerged_def Let_def)
  have codes: "(\<forall>f \<in> set fs. fd_code f \<notin> {Relay_partition, Del_chain_break, Deletion_not_propagated}) \<longleftrightarrow>
      (\<forall>f \<in> set fs. fd_code f \<noteq> Relay_partition) \<and> (\<forall>f \<in> set fs. fd_code f \<noteq> Del_chain_break) \<and>
      (\<forall>f \<in> set fs. fd_code f \<noteq> Deletion_not_propagated)" for fs
    by auto
  show ?thesis
    unfolding live codes using relays_agree [OF verified_sound [OF assms], of lc now] unfolding no_finding_def ok_relay_def by blast
qed

theorem relays_agree_iff_witness:
  "fst (verifyCaptureIntegrity (\<lambda>_. []) cp_digest demo_capture) \<and>
   \<not> (\<forall>f \<in> set (dg_findings (diagnose (\<lambda>a b. 0) (cp_observation demo_capture) None)).
        fd_code f \<notin> {Relay_partition, Del_chain_break, Deletion_not_propagated})"
proof -
  have ob: "cp_observation demo_capture = demo_observation" by (simp add: demo_capture_def)
  have merged: "mg_liveTokens (reconstructMerged lc (ob_relays demo_observation)) = [demo_new]" for lc
    using demo_live by (simp add: reconstructMerged_def Let_def)
  have "\<not> (\<forall>r \<in> set (ob_relays demo_observation). ro_status r = Relay_ok \<longrightarrow>
      tv_eventId ` set (rv_liveTokens (reconstructRelay r)) = tv_eventId ` set [demo_new])"
    by (simp add: demo_defs reconstructRelay_def deleted_here_def Let_def)
  then show ?thesis
    using relays_agree_iff [OF demo_integrity, of "\<lambda>a b. 0" None] demo_integrity unfolding ob merged by blast
qed

text \<open>
  C33: A balance is explained by the findings. In an accepted capture the balance of the live events is the
  part that the mint verifies, without what is orphaned, plus the ghost value, plus what is pending; the ghost
  value is the amount at risk of the ghost findings, and the orphaned value that of the orphan findings.
\<close>

theorem balance_explained:
  assumes "fst (verifyCaptureIntegrity describe digest_of c)"
  shows "be_merged (dg_balance (diagnose lc (cp_observation c) now)) =
      be_mintVerified (dg_balance (diagnose lc (cp_observation c) now)) - be_orphanedUnspent (dg_balance (diagnose lc (cp_observation c) now)) +
      be_ghost (dg_balance (diagnose lc (cp_observation c) now)) +
      live_value (reconstructMerged lc (ob_relays (cp_observation c))) (indexMintTruth (ob_mint (cp_observation c))) Is_pending
    \<and> be_ghost (dg_balance (diagnose lc (cp_observation c) now)) = at_risk (dg_findings (diagnose lc (cp_observation c) now)) Ghost_token
    \<and> be_orphanedUnspent (dg_balance (diagnose lc (cp_observation c) now)) = at_risk (dg_findings (diagnose lc (cp_observation c) now)) Orphaned_proofs"
proof -
  note sound = verified_sound [OF assms]
  have merged: "reconstructMerged lc (ob_relays (cp_observation c)) = merged_of lc (cp_observation c)"
    by (simp add: reconstruct_def)
  show ?thesis
    unfolding at_risk_findings ghost_at_risk [OF sound] orphan_at_risk merged
    using balance_by_state [OF sound, of lc] by (simp add: diagnose_def explainBalance_def Let_def)
qed

theorem balance_explained_witness:
  "fst (verifyCaptureIntegrity (\<lambda>_. []) cp_digest demo_capture) \<and>
   be_ghost (dg_balance (diagnose (\<lambda>a b. 0) (cp_observation demo_capture) None)) =
     at_risk (dg_findings (diagnose (\<lambda>a b. 0) (cp_observation demo_capture) None)) Ghost_token"
  using balance_explained [OF demo_integrity, of "\<lambda>a b. 0" None] demo_integrity by blast

end
