(* ===== verification/Oracle_Evidence.thy ===== *)
theory Oracle_Evidence
  imports Oracle Js_Set
begin

text \<open>
  \<open>packages/oracle/src/evidence.ts\<close>: the evaluator that turns the observations of a run into one result
  per registered invariant. Each block of \<open>evaluateSafetyAndLiveness\<close> and \<open>evaluateEvidence\<close> pushes one
  result; here each block is a definition of its own, over the same intermediate lists. The evaluator
  recognises a failed safety check by the text of its error, so the texts of \<open>invariants.ts\<close> and the
  regular expressions are modelled as texts too. A number in such a text is written in decimals, which
  is what JavaScript prints for integers below \<open>10 ^ 21\<close>.
\<close>

section \<open>Results\<close>

datatype invariant_id =
    At_most_once_redemption_start
  | At_most_one_merchant_credit_per_request
  | At_most_one_merchant_credit_per_delivery
  | Proof_set_exclusivity
  | Delivery_identity_immutability
  | Exact_net_amount
  | No_premature_settlement
  | No_false_rejection_after_possible_consumption
  | Monotonic_receipts
  | Stable_duplicate_response
  | Eventual_terminal_or_recovery_state
  | Crash_recovery
  | Retry_convergence
  | Transport_convergence
  | Independent_mint_evidence
  | Independent_ledger_evidence
  | Reproducibility
  | No_unsupported_pass

datatype invariant_status = Inv_passed | Inv_failed | Inv_not_applicable | Inv_not_observable

datatype evidence_confidence = Conf_observed | Conf_derived | Conf_adapter_claimed

datatype evidence_source = Src_timeline | Src_receipt | Src_ledger | Src_proofs | Src_capabilities

datatype invariant_category = Cat_safety | Cat_liveness | Cat_evidence

record evidence_reference =
  er_source :: evidence_source
  er_index :: "nat option"
  er_field :: "string option"
  er_description :: string

record invariant_result =
  ir_id :: invariant_id
  ir_status :: invariant_status
  ir_confidence :: evidence_confidence
  ir_evidence :: "evidence_reference list"
  ir_reason :: "string option"

record invariant_definition =
  id_id :: invariant_id
  id_category :: invariant_category
  id_description :: string

definition invariant_entry :: "invariant_id \<Rightarrow> invariant_category \<Rightarrow> string \<Rightarrow> invariant_definition" where
  "invariant_entry i c d = \<lparr>id_id = i, id_category = c, id_description = d\<rparr>"

definition INVARIANT_REGISTRY :: "invariant_definition list" where
  "INVARIANT_REGISTRY =
    [invariant_entry At_most_once_redemption_start Cat_safety
       ''One delivery binding starts mint redemption at most once.'',
     invariant_entry At_most_one_merchant_credit_per_request Cat_safety
       ''A single-use request produces at most one merchant credit.'',
     invariant_entry At_most_one_merchant_credit_per_delivery Cat_safety
       ''A delivery produces at most one merchant credit.'',
     invariant_entry Proof_set_exclusivity Cat_safety
       ''One proof set is bound to at most one delivery.'',
     invariant_entry Delivery_identity_immutability Cat_safety
       ''A delivery identifier retains one immutable identity.'',
     invariant_entry Exact_net_amount Cat_safety
       ''The settled receipt amount and unit match the durable credit.'',
     invariant_entry No_premature_settlement Cat_safety
       ''Settlement requires recovered outputs and one matching credit.'',
     invariant_entry No_false_rejection_after_possible_consumption Cat_safety
       ''Possibly consumed proofs are not reported as rejected.'',
     invariant_entry Monotonic_receipts Cat_safety
       ''Receipt versions are consistent and terminal states do not regress.'',
     invariant_entry Stable_duplicate_response Cat_safety
       ''Duplicate delivery attempts preserve identity and side effects.'',
     invariant_entry Eventual_terminal_or_recovery_state Cat_liveness
       ''Quiescence ends in a terminal or explicit recovery-blocked state.'',
     invariant_entry Crash_recovery Cat_liveness
       ''Restarted components resume without duplicated durable effects.'',
     invariant_entry Retry_convergence Cat_liveness
       ''Retries converge on the receiver receipt.'',
     invariant_entry Transport_convergence Cat_liveness
       ''HTTP and Nostr attempts converge on one delivery identity.'',
     invariant_entry Independent_mint_evidence Cat_evidence
       ''Mint proof state is independently observed.'',
     invariant_entry Independent_ledger_evidence Cat_evidence
       ''Merchant credit is independently observed from the ledger.'',
     invariant_entry Reproducibility Cat_evidence
       ''The run records deterministic inputs, versions, and ordered history.'',
     invariant_entry No_unsupported_pass Cat_evidence
       ''Only declared role/profile combinations can execute as passes.'']"

fun invariant_text :: "invariant_id \<Rightarrow> string" where
  "invariant_text At_most_once_redemption_start = ''at-most-once-redemption-start''"
| "invariant_text At_most_one_merchant_credit_per_request = ''at-most-one-merchant-credit-per-request''"
| "invariant_text At_most_one_merchant_credit_per_delivery = ''at-most-one-merchant-credit-per-delivery''"
| "invariant_text Proof_set_exclusivity = ''proof-set-exclusivity''"
| "invariant_text Delivery_identity_immutability = ''delivery-identity-immutability''"
| "invariant_text Exact_net_amount = ''exact-net-amount''"
| "invariant_text No_premature_settlement = ''no-premature-settlement''"
| "invariant_text No_false_rejection_after_possible_consumption = ''no-false-rejection-after-possible-consumption''"
| "invariant_text Monotonic_receipts = ''monotonic-receipts''"
| "invariant_text Stable_duplicate_response = ''stable-duplicate-response''"
| "invariant_text Eventual_terminal_or_recovery_state = ''eventual-terminal-or-recovery-state''"
| "invariant_text Crash_recovery = ''crash-recovery''"
| "invariant_text Retry_convergence = ''retry-convergence''"
| "invariant_text Transport_convergence = ''transport-convergence''"
| "invariant_text Independent_mint_evidence = ''independent-mint-evidence''"
| "invariant_text Independent_ledger_evidence = ''independent-ledger-evidence''"
| "invariant_text Reproducibility = ''reproducibility''"
| "invariant_text No_unsupported_pass = ''no-unsupported-pass''"

section \<open>The input of an evaluation\<close>

record invariant_history_entry =
  ih_sequence :: int
  ih_phase :: string
  ih_event :: string

record invariant_command =
  ic_type :: string
  ic_target :: "string option"
  ic_component :: "string option"
  ic_boundary :: "string option"
  ic_ruleKind :: "string option"

record invariant_metadata =
  im_scenarioId :: "string option"
  im_seed :: "string option"
  im_componentVersions :: "(string \<times> string) list"

record evaluate_input =
  ei_model :: oracle_model
  ei_history :: "invariant_history_entry list"
  ei_commands :: "invariant_command list"
  ei_capabilities :: jsval
  ei_metadata :: "invariant_metadata option"
  ei_profile :: "string option"
  ei_observationConfidence :: "evidence_confidence option"
  ei_sourceConfidence :: "(evidence_source \<times> evidence_confidence) list"

definition evidence :: "evidence_source \<Rightarrow> string \<Rightarrow> nat option \<Rightarrow> evidence_reference" where
  "evidence source description index =
     \<lparr>er_source = source, er_index = index, er_field = None, er_description = description\<rparr>"

definition passed :: "invariant_id \<Rightarrow> evidence_confidence \<Rightarrow> evidence_reference list \<Rightarrow> invariant_result" where
  "passed i confidence references =
     \<lparr>ir_id = i, ir_status = Inv_passed, ir_confidence = confidence, ir_evidence = references, ir_reason = None\<rparr>"

definition failed :: "invariant_id \<Rightarrow> string \<Rightarrow> evidence_reference list \<Rightarrow> invariant_result" where
  "failed i reason references =
     \<lparr>ir_id = i, ir_status = Inv_failed, ir_confidence = Conf_observed, ir_evidence = references,
      ir_reason = Some reason\<rparr>"

definition notApplicable :: "invariant_id \<Rightarrow> string \<Rightarrow> invariant_result" where
  "notApplicable i reason =
     \<lparr>ir_id = i, ir_status = Inv_not_applicable, ir_confidence = Conf_derived, ir_evidence = [],
      ir_reason = Some reason\<rparr>"

definition notObservable :: "invariant_id \<Rightarrow> string \<Rightarrow> invariant_result" where
  "notObservable i reason =
     \<lparr>ir_id = i, ir_status = Inv_not_observable, ir_confidence = Conf_derived, ir_evidence = [],
      ir_reason = Some reason\<rparr>"

section \<open>Reading the observations\<close>

fun observation_type :: "observation \<Rightarrow> string" where
  "observation_type (Request_observed _ _) = ''request_observed''"
| "observation_type (Delivery_attempted _) = ''delivery_attempted''"
| "observation_type (Mint_proofs_state _ _) = ''mint_proofs_state''"
| "observation_type (Redemption_started _ _) = ''redemption_started''"
| "observation_type (Receiver_settled _ _) = ''receiver_settled''"
| "observation_type (Merchant_credited _) = ''merchant_credited''"
| "observation_type (Receipt_observed _) = ''receipt_observed''"

text \<open>\<open>observations(model, type)\<close>, one instance per type.\<close>

definition requests_in :: "oracle_model \<Rightarrow> (string \<times> bool) list" where
  "requests_in m = List.map_filter
     (\<lambda>ob. case ob of Request_observed r b \<Rightarrow> Some (r, b) | _ \<Rightarrow> None) (om_observations m)"

definition attempts_in :: "oracle_model \<Rightarrow> attempted_delivery list" where
  "attempts_in m = List.map_filter
     (\<lambda>ob. case ob of Delivery_attempted a \<Rightarrow> Some a | _ \<Rightarrow> None) (om_observations m)"

definition proofStates_in :: "oracle_model \<Rightarrow> (string \<times> oracle_proof_state) list" where
  "proofStates_in m = List.map_filter
     (\<lambda>ob. case ob of Mint_proofs_state p s \<Rightarrow> Some (p, s) | _ \<Rightarrow> None) (om_observations m)"

definition redemptions_in :: "oracle_model \<Rightarrow> (string \<times> string) list" where
  "redemptions_in m = List.map_filter
     (\<lambda>ob. case ob of Redemption_started d p \<Rightarrow> Some (d, p) | _ \<Rightarrow> None) (om_observations m)"

definition settlements_in :: "oracle_model \<Rightarrow> (string \<times> string) list" where
  "settlements_in m = List.map_filter
     (\<lambda>ob. case ob of Receiver_settled d h \<Rightarrow> Some (d, h) | _ \<Rightarrow> None) (om_observations m)"

definition credits_in :: "oracle_model \<Rightarrow> oracle_credit list" where
  "credits_in m = List.map_filter
     (\<lambda>ob. case ob of Merchant_credited c \<Rightarrow> Some c | _ \<Rightarrow> None) (om_observations m)"

definition receipts_in :: "oracle_model \<Rightarrow> oracle_receipt list" where
  "receipts_in m = List.map_filter
     (\<lambda>ob. case ob of Receipt_observed r \<Rightarrow> Some r | _ \<Rightarrow> None) (om_observations m)"

definition countBy :: "'a list \<Rightarrow> ('a \<Rightarrow> string) \<Rightarrow> (string, nat) jsmap" where
  "countBy items key = fold (\<lambda>item counts. mp_set counts (key item)
     ((case map_of counts (key item) of None \<Rightarrow> 0 | Some n \<Rightarrow> n) + 1)) items []"

definition groupedBy :: "'a list \<Rightarrow> ('a \<Rightarrow> string) \<Rightarrow> (string, 'a list) jsmap" where
  "groupedBy items key = fold (\<lambda>item groups. mp_set groups (key item)
     ((case map_of groups (key item) of None \<Rightarrow> [] | Some xs \<Rightarrow> xs) @ [item])) items []"

text \<open>A map from keys to the set of the values that go with them, as \<open>owners\<close> and \<open>transportSets\<close>
  build it.\<close>

definition set_groups :: "'a list \<Rightarrow> ('a \<Rightarrow> string) \<Rightarrow> ('a \<Rightarrow> 'v) \<Rightarrow> (string, 'v list) jsmap" where
  "set_groups items key val = fold (\<lambda>item groups. mp_set groups (key item)
     (List.insert (val item) (case map_of groups (key item) of None \<Rightarrow> [] | Some xs \<Rightarrow> xs))) items []"

definition firstObservationIndex :: "oracle_model \<Rightarrow> string \<Rightarrow> nat option" where
  "firstObservationIndex m ty =
     (let index = length (takeWhile (\<lambda>ob. observation_type ob \<noteq> ty) (om_observations m))
      in if index = length (om_observations m) then None else Some index)"

definition latestReceipts :: "oracle_receipt list \<Rightarrow> oracle_receipt list" where
  "latestReceipts receipts =
     map (\<lambda>items. hd (sort_key (\<lambda>r. - or_version r) items)) (mp_values (groupedBy receipts or_deliveryId))"

definition ledgerReference :: "oracle_model \<Rightarrow> evidence_reference" where
  "ledgerReference m = evidence Src_ledger
     ''Receiver ledger observation records merchant credit cardinality and value.''
     (firstObservationIndex m ''merchant_credited'')"

definition receiptReference :: "oracle_model \<Rightarrow> evidence_reference" where
  "receiptReference m = evidence Src_receipt
     ''Receiver receipt observation records delivery status and version.''
     (firstObservationIndex m ''receipt_observed'')"

definition proofReference :: "oracle_model \<Rightarrow> evidence_reference" where
  "proofReference m = evidence Src_proofs
     ''Mint evidence binds the delivery to its input proof-set identity and state.''
     (firstObservationIndex m ''mint_proofs_state'')"

text \<open>\<open>roleProfiles(capabilities, role)\<close>\<close>

definition roleProfiles :: "jsval \<Rightarrow> string \<Rightarrow> string list option" where
  "roleProfiles capabilities role =
     (if capabilities = JUndef then None
      else
        let directRoles = (if isRecord (js_get capabilities ''roles'') then js_get capabilities ''roles'' else JUndef);
            externalRole = (if isRecord (js_get capabilities role) then js_get capabilities role else JUndef);
            selected = coalesce (js_get directRoles role) (js_get externalRole ''role'')
        in (case js_get selected ''profiles'' of
              JArr items \<Rightarrow> Some (List.map_filter
                (\<lambda>item. case item of Some (JStr s) \<Rightarrow> Some s | _ \<Rightarrow> None) items)
            | _ \<Rightarrow> None))"

section \<open>The text of a failed safety check\<close>

text \<open>The argument of \<open>fail\<close> in \<open>invariants.ts\<close>.\<close>

fun violation_message :: "oracle_violation \<Rightarrow> string" where
  "violation_message (Request_policy_mutable r) = ''request '' @ r @ '' single-use policy is immutable''"
| "violation_message (Delivery_identity_mutable d) = ''delivery '' @ d @ '' identity is immutable''"
| "violation_message (Proof_set_owner p) = ''proof set '' @ p @ '' must have a unique owner''"
| "violation_message (Redemption_identity d) = ''redemption for '' @ d @ '' does not match delivery identity''"
| "violation_message (Redemption_twice d) = ''redemption for '' @ d @ '' must start at most once''"
| "violation_message (Settlement_plan_conflict d) = ''delivery '' @ d @ '' has more than one settlement plan''"
| "violation_message (Credit_identity_mutable c) = ''credit '' @ c @ '' identity is immutable''"
| "violation_message (Receipt_version_invalid d) = ''receipt '' @ d @ '' has an invalid version''"
| "violation_message (Receipt_version_conflict d v) = ''receipt '' @ d @ '' version '' @ int_text v @ '' is conflicting''"
| "violation_message (Delivery_credited_twice d) = ''delivery '' @ d @ '' must have at most one credit''"
| "violation_message (Credited_without_outputs d) = ''delivery '' @ d @ '' was credited without recovered replacement outputs''"
| "violation_message (Credit_delivery_mismatch c) = ''credit '' @ c @ '' does not match immutable delivery identity''"
| "violation_message (Credit_amount_invalid c) = ''credit '' @ c @ '' has an invalid amount''"
| "violation_message (Single_use_credited_twice r) = ''single-use request '' @ r @ '' must have at most one credit''"
| "violation_message (Receipt_delivery_mismatch d) = ''receipt '' @ d @ '' does not match immutable delivery identity''"
| "violation_message (Terminal_regressed d) = ''terminal receipt '' @ d @ '' regressed''"
| "violation_message (Settled_without_credit d) = ''settled receipt '' @ d @ '' requires recovered outputs and exactly one credit''"
| "violation_message (Settled_credit_mismatch d) = ''settled receipt '' @ d @ '' does not match its merchant credit''"
| "violation_message (Rejected_after_consumption d) = ''receipt '' @ d @ '' rejected proofs after they may have been consumed''"
| "violation_message (Settled_amount_mismatch d settled credit) = ''delivery '' @ d @ '' settled amount '' @
     int_text settled @ '' does not match credit amount '' @ int_text credit"
| "violation_message (Settled_unit_mismatch d settled credit) = ''delivery '' @ d @ '' settled unit '' @
     settled @ '' does not match credit unit '' @ credit"
| "violation_message (Not_quiescent_no_receipt d) = ''delivery '' @ d @ '' is not quiescent: no receipt''"
| "violation_message (Not_quiescent d) = ''delivery '' @ d @ '' is not quiescent''"

definition violation_text :: "oracle_violation \<Rightarrow> string" where
  "violation_text v = ''Oracle safety violation: '' @ violation_message v"

definition safetyFailure :: "oracle_model \<Rightarrow> string option" where
  "safetyFailure m = (case assertSafety m of Inl v \<Rightarrow> Some (violation_text v) | Inr _ \<Rightarrow> None)"

text \<open>The regular expressions of the evaluator are alternatives of a text, or of two texts with \<open>.*\<close> between
  them; the dot matches every character that ends no line.\<close>

datatype text_pattern = Plain string | Gapped string string

fun starts_with :: "string \<Rightarrow> string \<Rightarrow> bool" where
  "starts_with [] s = True"
| "starts_with (c # p) (d # s) = (c = d \<and> starts_with p s)"
| "starts_with (c # p) [] = False"

fun text_contains :: "string \<Rightarrow> string \<Rightarrow> bool" where
  "text_contains p [] = starts_with p []"
| "text_contains p (c # s) = (starts_with p (c # s) \<or> text_contains p s)"

fun after_gap :: "string \<Rightarrow> string \<Rightarrow> bool" where
  "after_gap p [] = starts_with p []"
| "after_gap p (c # s) = (starts_with p (c # s) \<or> (c \<noteq> CHR 0x0A \<and> c \<noteq> CHR 0x0D \<and> after_gap p s))"

fun gapped :: "string \<Rightarrow> string \<Rightarrow> string \<Rightarrow> bool" where
  "gapped p q [] = (starts_with p [] \<and> after_gap q [])"
| "gapped p q (c # s) =
     ((starts_with p (c # s) \<and> after_gap q (drop (length p) (c # s))) \<or> gapped p q s)"

fun pattern_found :: "string \<Rightarrow> text_pattern \<Rightarrow> bool" where
  "pattern_found s (Plain p) = text_contains p s"
| "pattern_found s (Gapped p q) = gapped p q s"

definition matchingSafetyFailure :: "string option \<Rightarrow> text_pattern list \<Rightarrow> string option" where
  "matchingSafetyFailure message patterns =
     (case message of None \<Rightarrow> None
      | Some s \<Rightarrow> if list_ex (pattern_found s) patterns then Some s else None)"

definition identity_patterns :: "text_pattern list" where
  "identity_patterns = [Gapped ''delivery '' '' identity is immutable'']"

definition rejection_patterns :: "text_pattern list" where
  "rejection_patterns = [Plain ''rejected proofs after they may'']"

definition receipt_patterns :: "text_pattern list" where
  "receipt_patterns = [Gapped ''receipt '' '' invalid version'', Gapped ''receipt '' '' conflicting'',
     Gapped ''terminal receipt '' '' regressed'']"

definition duplicate_patterns :: "text_pattern list" where
  "duplicate_patterns = [Plain ''identity is immutable'', Plain ''one credit'',
     Gapped ''redemption '' '' at most once'', Gapped ''receipt '' '' conflicting'']"

section \<open>Safety\<close>

definition obs_confidence :: "evaluate_input \<Rightarrow> evidence_confidence" where
  "obs_confidence input = (case ei_observationConfidence input of None \<Rightarrow> Conf_observed | Some c \<Rightarrow> c)"

definition latest_in :: "oracle_model \<Rightarrow> oracle_receipt list" where
  "latest_in m = latestReceipts (receipts_in m)"

definition settledReceipts :: "oracle_model \<Rightarrow> oracle_receipt list" where
  "settledReceipts m = filter (\<lambda>r. or_status r = Settled) (latest_in m)"

definition rejectedReceipts :: "oracle_model \<Rightarrow> oracle_receipt list" where
  "rejectedReceipts m = filter (\<lambda>r. or_status r = Rejected) (latest_in m)"

definition observedPreRedemptionRejection :: "oracle_model \<Rightarrow> bool" where
  "observedPreRedemptionRejection m \<longleftrightarrow>
     (let rejectedDeliveries = map or_deliveryId (rejectedReceipts m);
          unspentProofSets = map fst (filter (\<lambda>p. snd p = State_UNSPENT) (proofStates_in m))
      in attempts_in m \<noteq> [] \<and>
         list_all (\<lambda>a. at_deliveryId a \<in> set rejectedDeliveries \<and> at_proofSetHash a \<in> set unspentProofSets)
           (attempts_in m))"

definition redemption_result :: "evaluate_input \<Rightarrow> invariant_result" where
  "redemption_result input =
     (let m = ei_model input; i = At_most_once_redemption_start in
      if attempts_in m = [] then notApplicable i ''No delivery was attempted.''
      else if redemptions_in m = [] \<and> observedPreRedemptionRejection m then
        notApplicable i ''The observed delivery was rejected before mint redemption.''
      else if redemptions_in m = [] then notObservable i ''Mint redemption-start evidence is unavailable.''
      else if list_ex (\<lambda>count. count > 1) (mp_values (countBy (redemptions_in m) fst)) then
        failed i ''A delivery started mint redemption more than once.''
          [evidence Src_proofs ''Mint redemption evidence contains a duplicate delivery start.'' None]
      else passed i (obs_confidence input)
        [evidence Src_proofs ''Mint redemption evidence contains one start per delivery.''
           (firstObservationIndex m ''redemption_started'')])"

definition singleUse_in :: "oracle_model \<Rightarrow> string list" where
  "singleUse_in m = js_set (map fst (filter snd (requests_in m)))"

definition request_credit_result :: "evaluate_input \<Rightarrow> invariant_result" where
  "request_credit_result input =
     (let m = ei_model input; i = At_most_one_merchant_credit_per_request in
      if singleUse_in m = [] then notApplicable i ''No single-use request was observed.''
      else if credits_in m = [] \<and> observedPreRedemptionRejection m then
        notApplicable i ''The observed request was rejected before settlement.''
      else if credits_in m = [] then notObservable i ''Durable merchant ledger evidence is unavailable.''
      else if list_ex (\<lambda>entry. fst entry \<in> set (singleUse_in m) \<and> snd entry > 1)
          (countBy (credits_in m) oc_requestId) then
        failed i ''A single-use request produced more than one credit.'' [ledgerReference m]
      else passed i (obs_confidence input) [ledgerReference m])"

definition delivery_credit_result :: "evaluate_input \<Rightarrow> invariant_result" where
  "delivery_credit_result input =
     (let m = ei_model input; i = At_most_one_merchant_credit_per_delivery in
      if attempts_in m = [] then notApplicable i ''No delivery was attempted.''
      else if credits_in m = [] \<and> observedPreRedemptionRejection m then
        notApplicable i ''The observed delivery was rejected before settlement.''
      else if credits_in m = [] then notObservable i ''Durable merchant ledger evidence is unavailable.''
      else if list_ex (\<lambda>count. count > 1) (mp_values (countBy (credits_in m) oc_deliveryId)) then
        failed i ''A delivery produced more than one merchant credit.'' [ledgerReference m]
      else passed i (obs_confidence input) [ledgerReference m])"

definition proof_set_result :: "evaluate_input \<Rightarrow> invariant_result" where
  "proof_set_result input =
     (let m = ei_model input; i = Proof_set_exclusivity in
      if attempts_in m = [] then notApplicable i ''No proof set was bound to a delivery.''
      else if list_ex (\<lambda>values. length values > 1)
          (mp_values (set_groups (attempts_in m) at_proofSetHash at_deliveryId)) then
        failed i ''A proof set was bound to more than one delivery.''
          [evidence Src_timeline ''Delivery-attempt observations expose conflicting proof owners.'' None,
           proofReference m]
      else passed i Conf_derived
        [evidence Src_timeline ''Delivery-attempt identities derive a unique owner for every proof set.''
           (firstObservationIndex m ''delivery_attempted''),
         proofReference m])"

definition identity_result :: "evaluate_input \<Rightarrow> invariant_result" where
  "identity_result input =
     (let m = ei_model input; i = Delivery_identity_immutability in
      if attempts_in m = [] then notApplicable i ''No delivery identity was observed.''
      else case matchingSafetyFailure (safetyFailure m) identity_patterns of
          None \<Rightarrow> passed i Conf_derived
            [evidence Src_timeline ''Ordered delivery-attempt observations retain one identity per delivery.''
               (firstObservationIndex m ''delivery_attempted''),
             receiptReference m, proofReference m]
        | Some violation \<Rightarrow> failed i violation
            [evidence Src_timeline ''Delivery-attempt observations contain an identity conflict.'' None,
             receiptReference m, proofReference m])"

definition amount_conflict :: "oracle_model \<Rightarrow> oracle_receipt \<Rightarrow> bool" where
  "amount_conflict m receipt \<longleftrightarrow>
     (case map_of (groupedBy (credits_in m) oc_deliveryId) (or_deliveryId receipt) of
        Some [credit] \<Rightarrow> oc_amount credit \<noteq> or_amount receipt \<or> oc_unit credit \<noteq> or_unit receipt
      | _ \<Rightarrow> True)"

definition amount_result :: "evaluate_input \<Rightarrow> invariant_result" where
  "amount_result input =
     (let m = ei_model input; i = Exact_net_amount in
      if settledReceipts m = [] then notApplicable i ''No settled receipt was observed.''
      else if credits_in m = [] then notObservable i ''A matching durable credit was not observable.''
      else if list_ex (amount_conflict m) (settledReceipts m) then
        failed i ''A settled receipt does not match its merchant credit value.'' [receiptReference m, ledgerReference m]
      else passed i (obs_confidence input) [receiptReference m, ledgerReference m])"

definition premature :: "oracle_model \<Rightarrow> oracle_receipt \<Rightarrow> bool" where
  "premature m receipt \<longleftrightarrow>
     or_deliveryId receipt \<notin> set (map fst (settlements_in m)) \<or>
     map_of (countBy (credits_in m) oc_deliveryId) (or_deliveryId receipt) \<noteq> Some 1"

definition premature_result :: "evaluate_input \<Rightarrow> invariant_result" where
  "premature_result input =
     (let m = ei_model input; i = No_premature_settlement in
      if settledReceipts m = [] then notApplicable i ''No settled receipt was observed.''
      else if list_ex (premature m) (settledReceipts m) then
        failed i ''Settlement lacks recovered-output or durable-credit evidence.''
          [receiptReference m, ledgerReference m, proofReference m]
      else passed i (obs_confidence input)
        [receiptReference m, ledgerReference m, proofReference m,
         evidence Src_timeline ''Receiver settlement observation binds recovered replacement outputs.''
           (firstObservationIndex m ''receiver_settled'')])"

text \<open>A crash of the receiver that leaves open whether the mint took the proofs.\<close>

definition ambiguousReceiverCrash :: "invariant_command list \<Rightarrow> bool" where
  "ambiguousReceiverCrash commands = list_ex (\<lambda>command.
     ic_type command = ''arm_crash'' \<and> ic_component command = Some ''receiver'' \<and>
     (ic_boundary command = Some ''receiver_after_mint_request_before_response'' \<or>
      ic_boundary command = Some ''receiver_after_mint_response_before_output_persistence'')) commands"

definition rejectedAfterBinding :: "oracle_model \<Rightarrow> oracle_receipt list" where
  "rejectedAfterBinding m =
     filter (\<lambda>r. or_deliveryId r \<in> set (map at_deliveryId (attempts_in m))) (rejectedReceipts m)"

definition relevantProofStates :: "oracle_model \<Rightarrow> (string \<times> oracle_proof_state) list" where
  "relevantProofStates m =
     (let deliveryIds = map or_deliveryId (if rejectedAfterBinding m \<noteq> [] then rejectedAfterBinding m else latest_in m);
          proofSets = map at_proofSetHash (filter (\<lambda>a. at_deliveryId a \<in> set deliveryIds) (attempts_in m))
      in filter (\<lambda>p. fst p \<in> set proofSets) (proofStates_in m))"

definition rejection_result :: "evaluate_input \<Rightarrow> invariant_result" where
  "rejection_result input =
     (let m = ei_model input; i = No_false_rejection_after_possible_consumption;
          crash = ambiguousReceiverCrash (ei_commands input);
          violation = matchingSafetyFailure (safetyFailure m) rejection_patterns in
      if rejectedReceipts m = [] \<and> \<not> crash then notApplicable i ''No rejected receipt was observed.''
      else if rejectedReceipts m \<noteq> [] \<and> rejectedAfterBinding m = [] \<and> \<not> crash then
        notApplicable i ''The delivery was rejected before delivery binding.''
      else if crash \<and> rejectedReceipts m \<noteq> [] then
        failed i (case violation of Some v \<Rightarrow> v
            | None \<Rightarrow> ''Receiver rejected a delivery after an ambiguous mint request.'')
          (if violation = None then [receiptReference m] else [receiptReference m, proofReference m])
      else if receipts_in m = [] then
        notObservable i ''Receiver receipt evidence is unavailable after mint dispatch.''
      else if relevantProofStates m = [] then
        notObservable i ''Mint proof evidence is unavailable for the rejected delivery.''
      else case violation of
          None \<Rightarrow> passed i (obs_confidence input)
            [receiptReference m,
             evidence Src_proofs ''Mint proof-state observation distinguishes safe rejection from possible consumption.''
               (firstObservationIndex m ''mint_proofs_state'')]
        | Some v \<Rightarrow> failed i v [receiptReference m])"

definition receipts_result :: "evaluate_input \<Rightarrow> invariant_result" where
  "receipts_result input =
     (let m = ei_model input; i = Monotonic_receipts in
      if receipts_in m = [] then notApplicable i ''No receipt was observed.''
      else case matchingSafetyFailure (safetyFailure m) receipt_patterns of
          None \<Rightarrow> passed i Conf_derived [receiptReference m]
        | Some violation \<Rightarrow> failed i violation [receiptReference m])"

definition duplicates_in :: "oracle_model \<Rightarrow> bool" where
  "duplicates_in m = list_ex (\<lambda>count. count > 1) (mp_values (countBy (attempts_in m) at_deliveryId))"

definition duplicate_result :: "evaluate_input \<Rightarrow> invariant_result" where
  "duplicate_result input =
     (let m = ei_model input; i = Stable_duplicate_response in
      if \<not> duplicates_in m then notApplicable i ''No duplicate delivery attempt was observed.''
      else if receipts_in m = [] then notObservable i ''A stored receipt was not observable after retry.''
      else case matchingSafetyFailure (safetyFailure m) duplicate_patterns of
          None \<Rightarrow> passed i Conf_derived
            [evidence Src_timeline ''Repeated delivery attempts retain one identity and side-effect set.''
               (firstObservationIndex m ''delivery_attempted''),
             receiptReference m, ledgerReference m, proofReference m]
        | Some violation \<Rightarrow> failed i violation [receiptReference m, ledgerReference m, proofReference m])"

section \<open>Liveness\<close>

definition quiescence_asserted :: "invariant_command list \<Rightarrow> bool" where
  "quiescence_asserted commands = list_ex (\<lambda>command. ic_type command = ''assert_quiescent'') commands"

definition terminal_result :: "evaluate_input \<Rightarrow> invariant_result" where
  "terminal_result input =
     (let m = ei_model input; i = Eventual_terminal_or_recovery_state in
      if \<not> quiescence_asserted (ei_commands input) then notApplicable i ''The scenario does not assert quiescence.''
      else if attempts_in m = [] then notApplicable i ''No delivery was attempted.''
      else case assertQuiescentLiveness m of
          Inr _ \<Rightarrow> passed i Conf_derived [receiptReference m]
        | Inl v \<Rightarrow> failed i (violation_text v) [receiptReference m])"

definition crash_result :: "evaluate_input \<Rightarrow> invariant_result" where
  "crash_result input =
     (let m = ei_model input; i = Crash_recovery in
      if \<not> list_ex (\<lambda>command. ic_type command = ''restart'' \<or> ic_type command = ''arm_crash'') (ei_commands input)
      then notApplicable i ''The scenario does not restart a component.''
      else if receipts_in m = [] \<or> credits_in m = [] then
        notObservable i ''Post-restart receipt and durable ledger evidence are required.''
      else case safetyFailure m of
          Some safety \<Rightarrow> failed i safety [receiptReference m, ledgerReference m]
        | None \<Rightarrow> passed i Conf_derived
            [evidence Src_timeline ''Scenario command history contains an observed or armed component restart.'' None,
             receiptReference m, ledgerReference m])"

definition retryFaultKinds :: "string list" where
  "retryFaultKinds = [''drop_request'', ''drop_response'', ''duplicate'']"

definition retryApplies :: "evaluate_input \<Rightarrow> bool" where
  "retryApplies input \<longleftrightarrow> duplicates_in (ei_model input) \<or>
     list_ex (\<lambda>command. ic_type command = ''configure_fault'' \<and>
       (ic_target command = Some ''http'' \<or> ic_target command = Some ''nostr'') \<and>
       (case ic_ruleKind command of None \<Rightarrow> False | Some kind \<Rightarrow> kind \<in> set retryFaultKinds))
       (ei_commands input)"

definition retry_result :: "evaluate_input \<Rightarrow> invariant_result" where
  "retry_result input =
     (let m = ei_model input; i = Retry_convergence in
      if \<not> retryApplies input then notApplicable i ''The scenario does not exercise delivery retries.''
      else if receipts_in m = [] then notObservable i ''No converged receiver receipt was observable.''
      else case safetyFailure m of
          None \<Rightarrow> passed i Conf_derived [receiptReference m]
        | Some safety \<Rightarrow> failed i safety [receiptReference m])"

definition transport_result :: "evaluate_input \<Rightarrow> invariant_result" where
  "transport_result input =
     (let m = ei_model input; i = Transport_convergence in
      if \<not> list_ex (\<lambda>values. length values > 1) (mp_values (set_groups (attempts_in m) at_deliveryId at_transport))
      then notApplicable i ''The scenario does not use multiple transports.''
      else if receipts_in m = [] then notObservable i ''No receipt was observable across transports.''
      else case safetyFailure m of
          None \<Rightarrow> passed i Conf_derived
            [evidence Src_timeline ''HTTP and Nostr attempts share one immutable delivery identity.''
               (firstObservationIndex m ''delivery_attempted''),
             receiptReference m, proofReference m]
        | Some safety \<Rightarrow> failed i safety [receiptReference m, proofReference m])"

definition evaluateSafetyAndLiveness :: "evaluate_input \<Rightarrow> invariant_result list" where
  "evaluateSafetyAndLiveness input =
     [redemption_result input, request_credit_result input, delivery_credit_result input,
      proof_set_result input, identity_result input, amount_result input, premature_result input,
      rejection_result input, receipts_result input, duplicate_result input, terminal_result input,
      crash_result input, retry_result input, transport_result input]"

section \<open>Evidence\<close>

definition mint_evidence_result :: "evaluate_input \<Rightarrow> invariant_result" where
  "mint_evidence_result input =
     (let m = ei_model input; i = Independent_mint_evidence in
      if attempts_in m = [] then notApplicable i ''No delivery requiring mint evidence was attempted.''
      else if proofStates_in m = [] then notObservable i ''Independent mint proof evidence is unavailable.''
      else passed i (obs_confidence input)
        [evidence Src_proofs ''Mint proof-state endpoint observation records the input state.''
           (firstObservationIndex m ''mint_proofs_state'')])"

definition ledger_evidence_result :: "evaluate_input \<Rightarrow> invariant_result" where
  "ledger_evidence_result input =
     (let m = ei_model input; i = Independent_ledger_evidence in
      if settledReceipts m = [] then notApplicable i ''No settled delivery requires ledger evidence.''
      else if credits_in m = [] then notObservable i ''Independent durable ledger evidence is unavailable.''
      else passed i (obs_confidence input) [ledgerReference m])"

definition reproducible :: "evaluate_input \<Rightarrow> bool" where
  "reproducible input \<longleftrightarrow>
     (case ei_metadata input of
        Some metadata \<Rightarrow>
          (case (im_scenarioId metadata, im_seed metadata) of
             (Some scenarioId, Some seed) \<Rightarrow>
               scenarioId \<noteq> [] \<and> seed \<noteq> [] \<and> im_componentVersions metadata \<noteq> []
           | _ \<Rightarrow> False)
      | None \<Rightarrow> False) \<and>
     ei_history input \<noteq> [] \<and>
     list_all (\<lambda>(index, entry). ih_sequence entry = int index) (enumerate 0 (ei_history input))"

definition reproducibility_result :: "evaluate_input \<Rightarrow> invariant_result" where
  "reproducibility_result input =
     (if reproducible input then passed Reproducibility Conf_derived
        [evidence Src_timeline ''Scenario ID, seed, versions, and ordered history are recorded.'' None]
      else notObservable Reproducibility
        ''Scenario ID, seed, component versions, and ordered history are required.'')"

definition evaluated_profile :: "evaluate_input \<Rightarrow> string" where
  "evaluated_profile input = (case ei_profile input of None \<Rightarrow> ''delivery-v1'' | Some p \<Rightarrow> p)"

definition unsupported_result :: "evaluate_input \<Rightarrow> invariant_result" where
  "unsupported_result input =
     (let i = No_unsupported_pass; profile = evaluated_profile input in
      case (roleProfiles (ei_capabilities input) ''sender'', roleProfiles (ei_capabilities input) ''receiver'') of
        (Some senderProfiles, Some receiverProfiles) \<Rightarrow>
          if profile \<notin> set senderProfiles \<or> profile \<notin> set receiverProfiles then
            failed i (''Executed profile '' @ profile @ '' was not declared by both roles.'')
              [evidence Src_capabilities ''Role-specific capability declarations omit the executed profile.'' None]
          else passed i Conf_derived
            [evidence Src_capabilities
               ''Both executed roles declare the selected profile and the runner observed execution.'' None]
      | _ \<Rightarrow> notObservable i ''Role-specific sender and receiver capabilities are unavailable.'')"

definition evaluateEvidence :: "evaluate_input \<Rightarrow> invariant_result list" where
  "evaluateEvidence input =
     [mint_evidence_result input, ledger_evidence_result input, reproducibility_result input,
      unsupported_result input]"

section \<open>The evaluation\<close>

definition adapterClaimed :: "evaluate_input \<Rightarrow> invariant_result \<Rightarrow> bool" where
  "adapterClaimed input result \<longleftrightarrow>
     (ei_observationConfidence input = Some Conf_adapter_claimed \<and> ir_confidence result = Conf_observed) \<or>
     list_ex (\<lambda>reference. map_of (ei_sourceConfidence input) (er_source reference) = Some Conf_adapter_claimed)
       (ir_evidence result)"

definition evaluateInvariants :: "evaluate_input \<Rightarrow> string + invariant_result list" where
  "evaluateInvariants input =
     (let byId = fold (\<lambda>result m. mp_set m (ir_id result) result)
          (evaluateSafetyAndLiveness input @ evaluateEvidence input) []
      in traverse (\<lambda>definition'.
           case map_of byId (id_id definition') of
             None \<Rightarrow> Inl (''Invariant evaluator omitted '' @ invariant_text (id_id definition'))
           | Some result \<Rightarrow>
               Inr (if adapterClaimed input result then result\<lparr>ir_confidence := Conf_adapter_claimed\<rparr> else result))
         INVARIANT_REGISTRY)"

definition unobservableInvariantResults :: "string \<Rightarrow> string + invariant_result list" where
  "unobservableInvariantResults reason =
     (if reason = [] then Inl ''Invariant unobservable reason is required''
      else Inr (map (\<lambda>definition'. notObservable (id_id definition') reason) INVARIANT_REGISTRY))"

end
