(* ===== verification/Scenario_Replay.thy ===== *)
theory Scenario_Replay
  imports Crash_Boundary Oracle_Evidence Effects "HOL-Library.Sublist"
begin

text \<open>
  The commands of a scenario (\<open>packages/scenario-runner/src/runner.ts\<close>) and the minimisation of a failing
  command list (\<open>replay.ts\<close>). The test \<open>stillFails\<close> runs the whole scenario against a driver: it is a
  parameter, an action on the driver's state that may throw.
\<close>

section \<open>Commands\<close>

record scenario_fault_rule =
  fr_kind :: string
  fr_occurrence :: "int option"
  fr_delayMs :: "int option"
  fr_duplicateCount :: "int option"
  fr_statusCode :: "int option"

datatype scenario_command =
    Cmd_configure_fault string scenario_fault_rule
  | Cmd_send string string
  | Cmd_arm_crash string crash_boundary "int option"
  | Cmd_start_send string string string
  | Cmd_await_send string
  | Cmd_restart string
  | Cmd_advance_time int
  | Cmd_clear_faults "string option"
  | Cmd_assert_quiescent

record scenario_error =
  se_name :: string
  se_message :: string

definition plain_error :: "string \<Rightarrow> scenario_error" where
  "plain_error message = \<lparr>se_name = ''Error'', se_message = message\<rparr>"

text \<open>Every send that is started is awaited once, after its start.\<close>

fun dependencies_from :: "string list \<Rightarrow> string list \<Rightarrow> scenario_command list \<Rightarrow> bool" where
  "dependencies_from started awaited [] = (length started = length awaited)"
| "dependencies_from started awaited (Cmd_start_send op _ _ # cs) =
     (if op = [] \<or> op \<in> set started then False else dependencies_from (started @ [op]) awaited cs)"
| "dependencies_from started awaited (Cmd_await_send op # cs) =
     (if op = [] \<or> op \<notin> set started \<or> op \<in> set awaited then False
      else dependencies_from started (awaited @ [op]) cs)"
| "dependencies_from started awaited (_ # cs) = dependencies_from started awaited cs"

definition hasValidCommandDependencies :: "scenario_command list \<Rightarrow> bool" where
  "hasValidCommandDependencies = dependencies_from [] []"

section \<open>Minimisation\<close>

type_synonym 'd failure_test = "scenario_command list \<Rightarrow> ('d, scenario_error, bool) eff"

text \<open>The inner loop: drop one chunk after the other until a shorter list still fails. The chunk size is never 0.\<close>

function try_chunks :: "'d failure_test \<Rightarrow> nat \<Rightarrow> scenario_command list \<Rightarrow> nat \<Rightarrow> nat \<Rightarrow> nat \<Rightarrow>
    ('d, scenario_error, nat \<times> scenario_command list option) eff" where
  "try_chunks stillFails runLimit candidate chunkSize start runs d =
     (if start < length candidate \<and> runs < runLimit \<and> 0 < chunkSize then
        let next = take start candidate @ drop (start + chunkSize) candidate in
        if next = [] \<or> \<not> hasValidCommandDependencies next then
          try_chunks stillFails runLimit candidate chunkSize (start + chunkSize) runs d
        else
          (case stillFails next d of
             (Inl e, d') \<Rightarrow> (Inl e, d')
           | (Inr True, d') \<Rightarrow> (Inr (runs + 1, Some next), d')
           | (Inr False, d') \<Rightarrow>
               try_chunks stillFails runLimit candidate chunkSize (start + chunkSize) (runs + 1) d')
      else (Inr (runs, None), d))"
  by pat_completeness auto
termination
  by (relation "measure (\<lambda>(stillFails, runLimit, candidate, chunkSize, start, runs, d). length candidate - start)") auto

declare try_chunks.simps [simp del]

lemma try_chunks_stop:
  "\<not> (start < length candidate \<and> runs < runLimit \<and> 0 < chunkSize) \<Longrightarrow>
     try_chunks stillFails runLimit candidate chunkSize start runs d = (Inr (runs, None), d)"
  by (subst try_chunks.simps) (rule if_not_P)

lemma try_chunks_skip:
  assumes "start < length candidate \<and> runs < runLimit \<and> 0 < chunkSize"
    and "take start candidate @ drop (start + chunkSize) candidate = [] \<or>
      \<not> hasValidCommandDependencies (take start candidate @ drop (start + chunkSize) candidate)"
  shows "try_chunks stillFails runLimit candidate chunkSize start runs d =
    try_chunks stillFails runLimit candidate chunkSize (start + chunkSize) runs d"
  by (subst try_chunks.simps) (simp only: if_P [OF assms(1)] if_P [OF assms(2)] Let_def)

lemma try_chunks_run:
  assumes "start < length candidate \<and> runs < runLimit \<and> 0 < chunkSize"
    and "\<not> (take start candidate @ drop (start + chunkSize) candidate = [] \<or>
      \<not> hasValidCommandDependencies (take start candidate @ drop (start + chunkSize) candidate))"
    and "stillFails (take start candidate @ drop (start + chunkSize) candidate) d = (r, d1)"
  shows "try_chunks stillFails runLimit candidate chunkSize start runs d =
    (case r of Inl e \<Rightarrow> (Inl e, d1)
     | Inr b \<Rightarrow> if b then (Inr (runs + 1, Some (take start candidate @ drop (start + chunkSize) candidate)), d1)
         else try_chunks stillFails runLimit candidate chunkSize (start + chunkSize) (runs + 1) d1)"
  by (subst try_chunks.simps)
    (simp only: if_P [OF assms(1)] if_not_P [OF assms(2)] Let_def assms(3) prod.case, cases r; auto split: bool.split)

lemma try_chunks_Some:
  assumes "try_chunks stillFails runLimit candidate chunkSize start runs d = (Inr (runs', Some next), d')"
  shows "length next < length candidate" and "subseq next candidate" and "next \<noteq> []"
    and "hasValidCommandDependencies next" and "\<exists>e e'. stillFails next e = (Inr True, e')"
proof -
  have "length next < length candidate \<and> subseq next candidate \<and> next \<noteq> [] \<and> hasValidCommandDependencies next \<and>
      (\<exists>e e'. stillFails next e = (Inr True, e'))"
    using assms
  proof (induction stillFails runLimit candidate chunkSize start runs d rule: try_chunks.induct)
    case (1 stillFails runLimit candidate chunkSize start runs d)
    let ?n = "take start candidate @ drop (start + chunkSize) candidate"
    have sub: "subseq ?n candidate"
    proof -
      have "candidate = take start candidate @ take chunkSize (drop start candidate) @ drop (start + chunkSize) candidate"
        by (metis append_take_drop_id drop_drop add.commute)
      moreover have "subseq ?n (take start candidate @ (take chunkSize (drop start candidate) @ drop (start + chunkSize) candidate))"
        by (rule list_emb_append_mono) (auto intro: subseq_drop_many)
      ultimately show ?thesis by simp
    qed
    show ?case
      using "1.prems" "1.IH" sub
      by (subst (asm) try_chunks.simps)
        (auto simp: Let_def split: if_splits sum.splits prod.splits bool.splits)
  qed
  then show "length next < length candidate" "subseq next candidate" "next \<noteq> []" "hasValidCommandDependencies next"
    "\<exists>e e'. stillFails next e = (Inr True, e')" by auto
qed

function reduce_chunks :: "'d failure_test \<Rightarrow> nat \<Rightarrow> scenario_command list \<Rightarrow> nat \<Rightarrow> nat \<Rightarrow>
    ('d, scenario_error, scenario_command list \<times> nat) eff" where
  "reduce_chunks stillFails runLimit candidate chunkSize runs d =
     (if length candidate > 1 \<and> runs < runLimit then
        (case try_chunks stillFails runLimit candidate chunkSize 0 runs d of
           (Inl e, d') \<Rightarrow> (Inl e, d')
         | (Inr (runs', None), d') \<Rightarrow>
             if chunkSize \<le> 1 then (Inr (candidate, runs'), d')
             else reduce_chunks stillFails runLimit candidate (max 1 (chunkSize div 2)) runs' d'
         | (Inr (runs', Some next), d') \<Rightarrow>
             reduce_chunks stillFails runLimit next (min chunkSize (max 1 (length next div 2))) runs' d')
      else (Inr (candidate, runs), d))"
  by pat_completeness auto
termination
proof (relation "measures [\<lambda>(stillFails, runLimit, candidate, chunkSize, runs, d). length candidate,
    \<lambda>(stillFails, runLimit, candidate, chunkSize, runs, d). chunkSize]", goal_cases)
  case 1
  show ?case by simp
next
  case (2 stillFails runLimit candidate chunkSize runs d)
  then show ?case by auto
next
  case (3 stillFails runLimit candidate chunkSize runs d x y a b aa ba)
  then show ?case by (auto dest!: try_chunks_Some(1) [OF sym])
qed

declare reduce_chunks.simps [simp del]

text \<open>Halving the delay of one \<open>advance_time\<close> command.\<close>

definition with_delay :: "scenario_command list \<Rightarrow> nat \<Rightarrow> int \<Rightarrow> scenario_command list" where
  "with_delay candidate index v =
     map (\<lambda>(i, entry). case entry of Cmd_advance_time _ \<Rightarrow> if i = index then Cmd_advance_time v else entry | _ \<Rightarrow> entry)
       (enumerate 0 candidate)"

lemma length_with_delay [simp]: "length (with_delay candidate index v) = length candidate"
  by (simp add: with_delay_def)

function bisect_delay :: "'d failure_test \<Rightarrow> nat \<Rightarrow> scenario_command list \<Rightarrow> nat \<Rightarrow> int \<Rightarrow> int \<Rightarrow> nat \<Rightarrow>
    ('d, scenario_error, scenario_command list \<times> nat) eff" where
  "bisect_delay stillFails runLimit candidate index low high runs d =
     (if low < high \<and> runs < runLimit then
        let nextValue = (low + high) div 2; next = with_delay candidate index nextValue in
        if \<not> hasValidCommandDependencies next then (Inr (candidate, runs), d)
        else
          (case stillFails next d of
             (Inl e, d') \<Rightarrow> (Inl e, d')
           | (Inr True, d') \<Rightarrow> bisect_delay stillFails runLimit next index low nextValue (runs + 1) d'
           | (Inr False, d') \<Rightarrow> bisect_delay stillFails runLimit candidate index (nextValue + 1) high (runs + 1) d')
      else (Inr (candidate, runs), d))"
  by pat_completeness auto
termination
  by (relation "measure (\<lambda>(stillFails, runLimit, candidate, index, low, high, runs, d). nat (high - low))") auto

declare bisect_delay.simps [simp del]

lemma length_bisect_delay:
  assumes "bisect_delay stillFails runLimit candidate index low high runs d = (Inr (candidate', runs'), d')"
  shows "length candidate' = length candidate"
  using assms
proof (induction stillFails runLimit candidate index low high runs d rule: bisect_delay.induct)
  case (1 stillFails runLimit candidate index low high runs d)
  show ?case
    using "1.prems" "1.IH"
    by (subst (asm) bisect_delay.simps) (auto simp: Let_def split: if_splits sum.splits prod.splits bool.splits)
qed

function shorten_delays :: "'d failure_test \<Rightarrow> nat \<Rightarrow> scenario_command list \<Rightarrow> nat \<Rightarrow> nat \<Rightarrow>
    ('d, scenario_error, scenario_command list \<times> nat) eff" where
  "shorten_delays stillFails runLimit candidate index runs d =
     (if index < length candidate \<and> runs < runLimit then
        (case candidate ! index of
           Cmd_advance_time milliseconds \<Rightarrow>
             if milliseconds \<le> 0 then shorten_delays stillFails runLimit candidate (index + 1) runs d
             else
               (case bisect_delay stillFails runLimit candidate index 0 milliseconds runs d of
                  (Inl e, d') \<Rightarrow> (Inl e, d')
                | (Inr (candidate', runs'), d') \<Rightarrow>
                    shorten_delays stillFails runLimit candidate' (index + 1) runs' d')
         | _ \<Rightarrow> shorten_delays stillFails runLimit candidate (index + 1) runs d)
      else (Inr (candidate, runs), d))"
  by pat_completeness auto
termination
  by (relation "measure (\<lambda>(stillFails, runLimit, candidate, index, runs, d). length candidate - index)")
    (auto dest!: length_bisect_delay [OF sym])

declare shorten_delays.simps [simp del]

definition minimizeFailingCommands :: "scenario_command list \<Rightarrow> 'd failure_test \<Rightarrow> int \<Rightarrow>
    ('d, scenario_error, scenario_command list) eff" where
  "minimizeFailingCommands commands stillFails runLimit =
     (if \<not> safe_int runLimit \<or> runLimit < 1 then throw (plain_error ''Invalid shrink run limit'')
      else
        andThen (reduce_chunks stillFails (nat runLimit) commands (max 1 (length commands div 2)) 0) (\<lambda>(candidate, runs).
        andThen (shorten_delays stillFails (nat runLimit) candidate 0 runs) (\<lambda>(candidate', _). ret candidate')))"

section \<open>What a minimised list is\<close>

text \<open>A command is kept, or its delay is shortened.\<close>

fun eased :: "scenario_command \<Rightarrow> scenario_command \<Rightarrow> bool" where
  "eased (Cmd_advance_time v) (Cmd_advance_time w) = (v = w \<or> (0 \<le> v \<and> v \<le> w))"
| "eased c c' = (c = c')"

lemma eased_refl: "eased c c"
  by (cases c) simp_all

lemma eased_trans: "eased a b \<Longrightarrow> eased b c \<Longrightarrow> eased a c"
  by (cases a; cases b; cases c) auto

lemma eased_other: "(\<And>v. c \<noteq> Cmd_advance_time v) \<Longrightarrow> eased c' c \<longleftrightarrow> c' = c"
  by (cases c; cases c') auto

text \<open>A list that a failing run was seen of, made from the given one by dropping commands and easing delays.\<close>

definition shrunk :: "'d failure_test \<Rightarrow> scenario_command list \<Rightarrow> scenario_command list \<Rightarrow> bool" where
  "shrunk stillFails commands candidate \<longleftrightarrow> list_emb eased candidate commands \<and>
     (candidate = commands \<or>
      candidate \<noteq> [] \<and> hasValidCommandDependencies candidate \<and> (\<exists>e e'. stillFails candidate e = (Inr True, e')))"

lemma list_emb_eased_refl: "list_emb eased xs xs"
  by (induction xs) (auto simp: eased_refl)

lemma list_emb_eased_trans: "list_emb eased xs ys \<Longrightarrow> list_emb eased ys zs \<Longrightarrow> list_emb eased xs zs"
  by (rule list_emb_trans [of _ _ _ eased]) (auto intro: eased_trans)

lemma subseq_eased: "subseq xs ys \<Longrightarrow> list_emb eased xs ys"
  by (erule list_emb_mono [rotated, THEN mp, rotated]) (auto simp: eased_refl)

lemma shrunk_refl: "shrunk stillFails commands commands"
  by (simp add: shrunk_def list_emb_eased_refl)

lemma shrunk_step:
  assumes "shrunk stillFails commands candidate" and "list_emb eased next candidate" and "next \<noteq> []"
    and "hasValidCommandDependencies next" and "stillFails next e = (Inr True, e')"
  shows "shrunk stillFails commands next"
  using assms unfolding shrunk_def by (blast intro: list_emb_eased_trans)

lemma reduce_chunks_shrunk:
  assumes "reduce_chunks stillFails runLimit candidate chunkSize runs d = (Inr (candidate', runs'), d')"
    and "shrunk stillFails commands candidate"
  shows "shrunk stillFails commands candidate'"
  using assms
proof (induction stillFails runLimit candidate chunkSize runs d rule: reduce_chunks.induct)
  case (1 stillFails runLimit candidate chunkSize runs d)
  have nx: "shrunk stillFails commands c"
    if "try_chunks stillFails runLimit candidate chunkSize 0 runs d = (Inr (r, Some c), d1)" for r c d1
    using shrunk_step [OF "1.prems"(2) subseq_eased] try_chunks_Some [OF that] by blast
  show ?case
    using "1.prems" "1.IH" nx
    by (subst (asm) reduce_chunks.simps) (auto split: if_splits sum.splits prod.splits option.splits)
qed

lemma with_delay_eased:
  assumes "index < length candidate" and "candidate ! index = Cmd_advance_time w" and "0 \<le> v" and "v \<le> w"
  shows "list_emb eased (with_delay candidate index v) candidate"
    and "with_delay candidate index v ! index = Cmd_advance_time v"
proof -
  have nth: "with_delay candidate index v ! i = (if i = index then Cmd_advance_time v else candidate ! i)"
    if "i < length candidate" for i
    using that assms(2) by (auto simp: with_delay_def nth_enumerate_eq split: scenario_command.split)
  have "list_all2 eased (with_delay candidate index v) candidate"
    using assms by (auto simp: list_all2_conv_all_nth nth eased_refl)
  then show "list_emb eased (with_delay candidate index v) candidate"
    by (induction rule: list_all2_induct) auto
  show "with_delay candidate index v ! index = Cmd_advance_time v"
    using nth [OF assms(1)] by simp
qed

lemma bisect_delay_shrunk:
  assumes "bisect_delay stillFails runLimit candidate index low high runs d = (Inr (candidate', runs'), d')"
    and "shrunk stillFails commands candidate" and "index < length candidate"
    and "candidate ! index = Cmd_advance_time high" and "0 \<le> low" and "low \<le> high"
  shows "shrunk stillFails commands candidate'"
  using assms
proof (induction stillFails runLimit candidate index low high runs d rule: bisect_delay.induct)
  case (1 stillFails runLimit candidate index low high runs d)
  let ?v = "(low + high) div 2"
  have v: "0 \<le> ?v" "?v \<le> high" "low \<le> ?v" "low < high \<Longrightarrow> ?v + 1 \<le> high" using "1.prems"(5,6) by auto
  note e = with_delay_eased [OF "1.prems"(3,4) v(1,2)]
  have ne: "with_delay candidate index ?v \<noteq> []" using "1.prems"(3) by (metis length_with_delay list.size(3) not_less_zero)
  have nx: "shrunk stillFails commands (with_delay candidate index ?v)"
    if "stillFails (with_delay candidate index ?v) d = (Inr True, d1)" "hasValidCommandDependencies (with_delay candidate index ?v)" for d1
    using shrunk_step [OF "1.prems"(2) e(1) ne] that by blast
  show ?case
  proof (cases "low < high \<and> runs < runLimit \<and> hasValidCommandDependencies (with_delay candidate index ?v)")
    case False
    then show ?thesis
      using "1.prems"(1,2) by (subst (asm) bisect_delay.simps) (auto simp: Let_def split: if_splits)
  next
    case True
    obtain r d1 where r: "stillFails (with_delay candidate index ?v) d = (r, d1)" by fastforce
    show ?thesis
    proof (cases r)
      case (Inl e)
      then show ?thesis using "1.prems"(1) True r by (subst (asm) bisect_delay.simps) (simp add: Let_def)
    next
      case (Inr b)
      show ?thesis
      proof (cases b)
        assume b: "b"
        then have "bisect_delay stillFails runLimit (with_delay candidate index ?v) index low ?v (runs + 1) d1 = (Inr (candidate', runs'), d')"
          using "1.prems"(1) True r Inr by (subst (asm) bisect_delay.simps) (simp add: Let_def)
        then show ?thesis
          using "1.IH"(1) [OF conjI refl refl _ r [symmetric] Inr] b True nx [of d1] r Inr e(2) "1.prems"(3,5) v by simp
      next
        assume b: "\<not> b"
        then have "bisect_delay stillFails runLimit candidate index (?v + 1) high (runs + 1) d1 = (Inr (candidate', runs'), d')"
          using "1.prems"(1) True r Inr by (subst (asm) bisect_delay.simps) (simp add: Let_def)
        then show ?thesis
          using "1.IH"(2) [OF conjI refl refl _ r [symmetric] Inr] b True "1.prems"(2-5) v by simp
      qed
    qed
  qed
qed

lemma shorten_delays_shrunk:
  assumes "shorten_delays stillFails runLimit candidate index runs d = (Inr (candidate', runs'), d')"
    and "shrunk stillFails commands candidate"
  shows "shrunk stillFails commands candidate'"
  using assms
proof (induction stillFails runLimit candidate index runs d rule: shorten_delays.induct)
  case (1 stillFails runLimit candidate index runs d)
  have nx: "shrunk stillFails commands c"
    if "bisect_delay stillFails runLimit candidate index 0 ms runs d = (Inr (c, r), d1)"
      "index < length candidate" "candidate ! index = Cmd_advance_time ms" "\<not> ms \<le> 0" for c r d1 ms
    using bisect_delay_shrunk [OF that(1) "1.prems"(2) that(2,3)] that(4) by simp
  show ?case
    using "1.prems" "1.IH" nx
    by (subst (asm) shorten_delays.simps)
      (auto split: if_splits sum.splits prod.splits scenario_command.splits)
qed

section \<open>How often the scenario is run\<close>

text \<open>\<open>spent f d d' runs runs'\<close>: the runs counted by the loop are at least the runs seen by the driver.\<close>

definition spent :: "('d \<Rightarrow> nat) \<Rightarrow> nat \<Rightarrow> 'd \<Rightarrow> 'd \<Rightarrow> nat \<Rightarrow> nat \<Rightarrow> bool" where
  "spent calls runLimit d d' runs runs' \<longleftrightarrow>
     runs \<le> runs' \<and> runs' \<le> max runs runLimit \<and> calls d' + runs \<le> calls d + runs'"

lemma spent_refl: "spent calls runLimit d d runs runs"
  by (simp add: spent_def)

lemma spent_trans:
  "spent calls runLimit d d1 runs runs1 \<Longrightarrow> spent calls runLimit d1 d2 runs1 runs2 \<Longrightarrow> spent calls runLimit d d2 runs runs2"
  by (auto simp: spent_def)

definition counted :: "'d failure_test \<Rightarrow> ('d \<Rightarrow> nat) \<Rightarrow> bool" where
  "counted stillFails calls \<longleftrightarrow> (\<forall>c d. calls (snd (stillFails c d)) \<le> calls d + 1)"

lemma spent_run:
  assumes "counted stillFails calls" and "stillFails c d = (r, d1)" and "runs < runLimit"
  shows "spent calls runLimit d d1 runs (runs + 1)"
proof -
  have "calls (snd (stillFails c d)) \<le> calls d + 1" using assms(1) by (simp add: counted_def)
  then show ?thesis using assms(2,3) by (simp add: spent_def)
qed

lemma try_chunks_spent:
  assumes "try_chunks stillFails runLimit candidate chunkSize start runs d = (Inr (runs', c), d')"
    and "counted stillFails calls"
  shows "spent calls runLimit d d' runs runs'"
  using assms
proof (induction stillFails runLimit candidate chunkSize start runs d rule: try_chunks.induct)
  case (1 stillFails runLimit candidate chunkSize start runs d)
  let ?n = "take start candidate @ drop (start + chunkSize) candidate"
  show ?case
  proof (cases "start < length candidate \<and> runs < runLimit \<and> 0 < chunkSize")
    case False
    then show ?thesis using "1.prems"(1) by (simp add: try_chunks_stop [OF False] spent_refl)
  next
    case go: True
    show ?thesis
    proof (cases "?n = [] \<or> \<not> hasValidCommandDependencies ?n")
      case True
      then show ?thesis
        using "1.IH"(1) [OF go refl True _ "1.prems"(2)] "1.prems"(1) unfolding try_chunks_skip [OF go True] by blast
    next
      case False
      obtain r d1 where r: "stillFails ?n d = (r, d1)" by fastforce
      have run: "spent calls runLimit d d1 runs (runs + 1)" using spent_run [OF "1.prems"(2) r] go by blast
      obtain b where b: "r = Inr b"
        using "1.prems"(1) try_chunks_run [where stillFails = stillFails, OF go False r] by (cases r) auto
      show ?thesis
      proof (cases b)
        case True
        then show ?thesis using "1.prems"(1) run try_chunks_run [where stillFails = stillFails, OF go False r] b by auto
      next
        case nb: False
        then have "try_chunks stillFails runLimit candidate chunkSize (start + chunkSize) (runs + 1) d1 = (Inr (runs', c), d')"
          using "1.prems"(1) try_chunks_run [where stillFails = stillFails, OF go False r] b by simp
        then have "spent calls runLimit d1 d' (runs + 1) runs'"
          using "1.IH"(2) [OF go refl False r [symmetric] b _ _ "1.prems"(2)] nb by simp
        then show ?thesis by (rule spent_trans [OF run])
      qed
    qed
  qed
qed

lemma reduce_chunks_spent:
  assumes "reduce_chunks stillFails runLimit candidate chunkSize runs d = (Inr (candidate', runs'), d')"
    and "counted stillFails calls"
  shows "spent calls runLimit d d' runs runs'"
  using assms
proof (induction stillFails runLimit candidate chunkSize runs d rule: reduce_chunks.induct)
  case (1 stillFails runLimit candidate chunkSize runs d)
  show ?case
  proof (cases "length candidate > 1 \<and> runs < runLimit")
    case False
    then show ?thesis using "1.prems"(1) by (subst (asm) reduce_chunks.simps) (auto simp: spent_refl)
  next
    case go: True
    obtain r d1 where r: "try_chunks stillFails runLimit candidate chunkSize 0 runs d = (r, d1)" by fastforce
    show ?thesis
    proof (cases r)
      case (Inl e)
      then show ?thesis using "1.prems"(1) go r by (subst (asm) reduce_chunks.simps) simp
    next
      case (Inr x)
      obtain runs1 c where x: "x = (runs1, c)" by fastforce
      note sp = try_chunks_spent [OF r [unfolded Inr x] "1.prems"(2)]
      show ?thesis
      proof (cases c)
        case None
        show ?thesis
        proof (cases "chunkSize \<le> 1")
          case True
          then have "runs' = runs1" "d' = d1"
            using "1.prems"(1) go r Inr x None by (subst (asm) reduce_chunks.simps; simp)+
          then show ?thesis using sp by simp
        next
          case False
          then have "reduce_chunks stillFails runLimit candidate (max 1 (chunkSize div 2)) runs1 d1 = (Inr (candidate', runs'), d')"
            using "1.prems"(1) go r Inr x None by (subst (asm) reduce_chunks.simps) simp
          then show ?thesis
            using "1.IH"(1) [OF go r [symmetric] Inr x [symmetric] None False _ "1.prems"(2)] spent_trans [OF sp] by blast
        qed
      next
        case (Some nx)
        then have "reduce_chunks stillFails runLimit nx (min chunkSize (max 1 (length nx div 2))) runs1 d1 = (Inr (candidate', runs'), d')"
          using "1.prems"(1) go r Inr x by (subst (asm) reduce_chunks.simps) simp
        then show ?thesis
          using "1.IH"(2) [OF go r [symmetric] Inr x [symmetric] Some _ "1.prems"(2)] spent_trans [OF sp] by blast
      qed
    qed
  qed
qed

lemma bisect_delay_spent:
  assumes "bisect_delay stillFails runLimit candidate index low high runs d = (Inr (candidate', runs'), d')"
    and "counted stillFails calls"
  shows "spent calls runLimit d d' runs runs'"
  using assms
proof (induction stillFails runLimit candidate index low high runs d rule: bisect_delay.induct)
  case (1 stillFails runLimit candidate index low high runs d)
  let ?n = "with_delay candidate index ((low + high) div 2)"
  show ?case
  proof (cases "low < high \<and> runs < runLimit \<and> hasValidCommandDependencies ?n")
    case False
    then show ?thesis
      using "1.prems"(1) by (subst (asm) bisect_delay.simps) (auto simp: Let_def spent_refl split: if_splits)
  next
    case True
    obtain r d1 where r: "stillFails ?n d = (r, d1)" by fastforce
    have run: "spent calls runLimit d d1 runs (runs + 1)" using spent_run [OF "1.prems"(2) r] True by blast
    show ?thesis
    proof (cases r)
      case (Inl e)
      then show ?thesis using "1.prems"(1) True r by (subst (asm) bisect_delay.simps) (simp add: Let_def)
    next
      case (Inr b)
      have "\<exists>c l h. bisect_delay stillFails runLimit c index l h (runs + 1) d1 = (Inr (candidate', runs'), d') \<and>
          spent calls runLimit d1 d' (runs + 1) runs'"
      proof (cases b)
        assume b: "b"
        then have "bisect_delay stillFails runLimit ?n index low ((low + high) div 2) (runs + 1) d1 = (Inr (candidate', runs'), d')"
          using "1.prems"(1) True r Inr by (subst (asm) bisect_delay.simps) (simp add: Let_def)
        then show ?thesis
          using "1.IH"(1) [OF conjI refl refl _ r [symmetric] Inr] b True "1.prems"(2) by blast
      next
        assume b: "\<not> b"
        then have "bisect_delay stillFails runLimit candidate index ((low + high) div 2 + 1) high (runs + 1) d1 = (Inr (candidate', runs'), d')"
          using "1.prems"(1) True r Inr by (subst (asm) bisect_delay.simps) (simp add: Let_def)
        then show ?thesis
          using "1.IH"(2) [OF conjI refl refl _ r [symmetric] Inr] b True "1.prems"(2) by blast
      qed
      then show ?thesis using spent_trans [OF run] by blast
    qed
  qed
qed

lemma shorten_delays_spent:
  assumes "shorten_delays stillFails runLimit candidate index runs d = (Inr (candidate', runs'), d')"
    and "counted stillFails calls"
  shows "spent calls runLimit d d' runs runs'"
  using assms
proof (induction stillFails runLimit candidate index runs d rule: shorten_delays.induct)
  case (1 stillFails runLimit candidate index runs d)
  have nx: "spent calls runLimit d d' runs runs'"
    if "bisect_delay stillFails runLimit candidate index 0 ms runs d = (Inr (c, r), d1)" "spent calls runLimit d1 d' r runs'"
    for c r d1 ms
    using spent_trans [OF bisect_delay_spent [OF that(1) "1.prems"(2)] that(2)] .
  show ?case
    using "1.prems" "1.IH" nx
    by (subst (asm) shorten_delays.simps)
      (auto simp: spent_refl split: if_splits sum.splits prod.splits scenario_command.splits)
qed

section \<open>No command can be dropped\<close>

definition without :: "nat \<Rightarrow> 'a list \<Rightarrow> 'a list" where
  "without i xs = take i xs @ drop (Suc i) xs"

text \<open>Dropping the command leaves nothing, or breaks a dependency, or gives a list seen not to fail.\<close>

definition needed :: "'d failure_test \<Rightarrow> scenario_command list \<Rightarrow> nat \<Rightarrow> bool" where
  "needed stillFails candidate i \<longleftrightarrow> without i candidate = [] \<or> \<not> hasValidCommandDependencies (without i candidate) \<or>
     (\<exists>e e'. stillFails (without i candidate) e = (Inr False, e'))"

lemma try_chunks_needed:
  assumes "try_chunks stillFails runLimit candidate chunkSize start runs d = (Inr (runs', None), d')"
    and "runs' < runLimit" and "chunkSize = 1" and "start \<le> i" and "i < length candidate"
  shows "needed stillFails candidate i"
  using assms
proof (induction stillFails runLimit candidate chunkSize start runs d rule: try_chunks.induct)
  case (1 stillFails runLimit candidate chunkSize start runs d)
  let ?n = "take start candidate @ drop (start + chunkSize) candidate"
  have n: "?n = without start candidate" using "1.prems"(3) by (simp add: without_def)
  have lim: "runs < runLimit"
    using "1.prems"(1,2) try_chunks_stop [of start candidate runs runLimit chunkSize stillFails d] by (cases "runs < runLimit") auto
  have go: "start < length candidate \<and> runs < runLimit \<and> 0 < chunkSize" using "1.prems"(3-5) lim by simp
  show ?case
  proof (cases "?n = [] \<or> \<not> hasValidCommandDependencies ?n")
    case True
    show ?thesis
    proof (cases "start = i")
      case True': True
      with True n show ?thesis by (auto simp: needed_def)
    next
      case False
      then show ?thesis
        using "1.IH"(1) [OF go refl True _ "1.prems"(2,3) _ "1.prems"(5)] "1.prems"(1,3,4)
        unfolding try_chunks_skip [OF go True] by simp
    qed
  next
    case False
    obtain r d1 where r: "stillFails ?n d = (r, d1)" by fastforce
    obtain b where b: "r = Inr b" "\<not> b"
      using "1.prems"(1) try_chunks_run [where stillFails = stillFails, OF go False r] by (cases r) (auto split: if_splits)
    then have rest: "try_chunks stillFails runLimit candidate chunkSize (start + chunkSize) (runs + 1) d1 = (Inr (runs', None), d')"
      using "1.prems"(1) try_chunks_run [where stillFails = stillFails, OF go False r] by simp
    show ?thesis
    proof (cases "start = i")
      case True
      with r b n show ?thesis by (auto simp: needed_def)
    next
      case False': False
      then show ?thesis
        using "1.IH"(2) [OF go refl False r [symmetric] b(1) _ rest "1.prems"(2,3) _ "1.prems"(5)] b(2) "1.prems"(3,4) by simp
    qed
  qed
qed

lemma reduce_chunks_needed:
  assumes "reduce_chunks stillFails runLimit candidate chunkSize runs d = (Inr (candidate', runs'), d')"
    and "runs' < runLimit" and "1 \<le> chunkSize" and "i < length candidate'"
  shows "needed stillFails candidate' i"
  using assms
proof (induction stillFails runLimit candidate chunkSize runs d rule: reduce_chunks.induct)
  case (1 stillFails runLimit candidate chunkSize runs d)
  show ?case
  proof (cases "length candidate > 1 \<and> runs < runLimit")
    case False
    then have "candidate' = candidate" "runs' = runs"
      using "1.prems"(1) by (subst (asm) reduce_chunks.simps; auto)+
    then have "length candidate' = 1" "i = 0" using False "1.prems"(2,4) by auto
    then show ?thesis by (cases candidate') (auto simp: needed_def without_def)
  next
    case go: True
    obtain r d1 where r: "try_chunks stillFails runLimit candidate chunkSize 0 runs d = (r, d1)" by fastforce
    show ?thesis
    proof (cases r)
      case (Inl e)
      then show ?thesis using "1.prems"(1) go r by (subst (asm) reduce_chunks.simps) simp
    next
      case (Inr x)
      obtain runs1 c where x: "x = (runs1, c)" by fastforce
      show ?thesis
      proof (cases c)
        case None
        show ?thesis
        proof (cases "chunkSize \<le> 1")
          case True
          then have "runs' = runs1" "candidate' = candidate"
            using "1.prems"(1) go r Inr x None by (subst (asm) reduce_chunks.simps; simp)+
          then show ?thesis
            using try_chunks_needed [OF r [unfolded Inr x None]] "1.prems"(2-4) True by simp
        next
          case False
          then have "reduce_chunks stillFails runLimit candidate (max 1 (chunkSize div 2)) runs1 d1 = (Inr (candidate', runs'), d')"
            using "1.prems"(1) go r Inr x None by (subst (asm) reduce_chunks.simps) simp
          then show ?thesis
            using "1.IH"(1) [OF go r [symmetric] Inr x [symmetric] None False _ "1.prems"(2) _ "1.prems"(4)] by simp
        qed
      next
        case (Some nx)
        then have "reduce_chunks stillFails runLimit nx (min chunkSize (max 1 (length nx div 2))) runs1 d1 = (Inr (candidate', runs'), d')"
          using "1.prems"(1) go r Inr x by (subst (asm) reduce_chunks.simps) simp
        then show ?thesis
          using "1.IH"(2) [OF go r [symmetric] Inr x [symmetric] Some _ "1.prems"(2) _ "1.prems"(4)] "1.prems"(3) by simp
      qed
    qed
  qed
qed

section \<open>The minimised list\<close>

definition timeless :: "scenario_command list \<Rightarrow> bool" where
  "timeless commands \<longleftrightarrow> (\<forall>v. Cmd_advance_time v \<in> set commands \<longrightarrow> v \<le> 0)"

lemma shorten_delays_timeless:
  assumes "timeless candidate"
  shows "shorten_delays stillFails runLimit candidate index runs d = (Inr (candidate, runs), d)"
  using assms
proof (induction stillFails runLimit candidate index runs d rule: shorten_delays.induct)
  case (1 stillFails runLimit candidate index runs d)
  have "v \<le> 0" if "index < length candidate" "candidate ! index = Cmd_advance_time v" for v
    using "1.prems" nth_mem [OF that(1)] that(2) by (auto simp: timeless_def)
  with 1 show ?case
    by (subst shorten_delays.simps) (auto split: scenario_command.split)
qed

lemma timeless_shrunk: "shrunk stillFails commands candidate \<Longrightarrow> timeless commands \<Longrightarrow> timeless candidate"
proof -
  have "list_emb eased candidate commands \<Longrightarrow> timeless commands \<Longrightarrow> timeless candidate"
  proof (induction rule: list_emb.induct)
    case (list_emb_Cons2 x y xs ys)
    then show ?case by (cases x; cases y) (auto simp: timeless_def)
  qed (auto simp: timeless_def)
  then show "shrunk stillFails commands candidate \<Longrightarrow> timeless commands \<Longrightarrow> timeless candidate"
    by (simp add: shrunk_def)
qed


text \<open>A run that fails whenever the receiver is restarted, with the number of runs as its state.\<close>

definition demo_test :: "nat failure_test" where
  "demo_test commands n = (Inr (Cmd_restart ''receiver'' \<in> set commands), n + 1)"

definition demo_commands :: "scenario_command list" where
  "demo_commands = [Cmd_start_send ''a'' ''s'' ''q'', Cmd_restart ''receiver'', Cmd_await_send ''a'', Cmd_assert_quiescent]"


end
