(* ===== verification/Run_History.thy ===== *)
theory Run_History
  imports Js_Values
begin

text \<open>
  \<open>packages/scenario-runner/src/history.ts\<close>: the history of a scenario run and the redaction of what is
  recorded in it. Values are trees, so the table of visited objects (which cuts cycles, and the second
  visit of an object that is shared) plays no part. What \<open>String(value)\<close> gives for a value that is neither
  an object nor one of the primitives of \<open>jsval\<close> is the parameter \<open>text_of\<close>.
\<close>

section \<open>Texts that carry money\<close>

definition REDACTED :: string where
  "REDACTED = ''[REDACTED]''"

definition ascii_lower :: "char \<Rightarrow> char" where
  "ascii_lower c = (if c \<in> set upper_alpha then char_of (of_char c + 32 :: nat) else c)"

definition token_char :: "char \<Rightarrow> bool" where
  "token_char c \<longleftrightarrow> c \<in> set (upper_alpha @ lower_alpha @ digits @ ''_-'')"

text \<open>The match of \<open>/(?:cashu[AB]|nsec1)[A-Za-z0-9_-]+/gi\<close> at the start of a text: its length.\<close>

definition token_prefixes :: "string list" where
  "token_prefixes = [''cashua'', ''cashub'', ''nsec1'']"

definition token_at :: "string \<Rightarrow> nat option" where
  "token_at s =
     (case find (\<lambda>p. map ascii_lower (take (length p) s) = p) token_prefixes of
        None \<Rightarrow> None
      | Some p \<Rightarrow>
          let body = takeWhile token_char (drop (length p) s) in
          if body = [] then None else Some (length p + length body))"

function redactString :: "string \<Rightarrow> string" where
  "redactString [] = []"
| "redactString (c # s) =
     (case token_at (c # s) of
        Some n \<Rightarrow> REDACTED @ redactString (drop n (c # s))
      | None \<Rightarrow> c # redactString s)"
  by pat_completeness auto
termination
  by (relation "measure length")
    (auto simp: token_at_def token_prefixes_def Let_def split: if_splits option.splits)

definition SENSITIVE_KEYS :: "string list" where
  "SENSITIVE_KEYS = [''secret'', ''secrets'', ''proof'', ''proofs'', ''token'', ''tokens'', ''privatekey'', ''nsec'',
     ''blindingfactor'', ''witness'']"

definition normalizedKey :: "string \<Rightarrow> string" where
  "normalizedKey s = filter (\<lambda>c. c \<in> set (lower_alpha @ digits)) (map ascii_lower s)"

definition sensitive_key :: "string \<Rightarrow> bool" where
  "sensitive_key k \<longleftrightarrow> normalizedKey k \<in> set SENSITIVE_KEYS"

section \<open>Values\<close>

fun containsSensitiveData :: "jsval \<Rightarrow> bool" where
  "containsSensitiveData (JStr s) = (redactString s \<noteq> s)"
| "containsSensitiveData (JArr items) =
     list_ex (\<lambda>item. case item of None \<Rightarrow> False | Some v \<Rightarrow> containsSensitiveData v) items"
| "containsSensitiveData (JObj props) =
     list_ex (\<lambda>p. sensitive_key (fst p) \<or> containsSensitiveData (snd p)) props"
| "containsSensitiveData _ = False"

fun redact :: "(nat \<Rightarrow> string) \<Rightarrow> jsval \<Rightarrow> jsval" where
  "redact text_of (JStr s) = JStr (redactString s)"
| "redact text_of (JArr items) = JArr (map (map_option (redact text_of)) items)"
| "redact text_of (JObj props) = JObj (concat (map (\<lambda>p.
     if sensitive_key (fst p) then [(fst p, JStr REDACTED)]
     else if snd p = JUndef then []
     else [(fst p, redact text_of (snd p))]) props))"
| "redact text_of (JOther n) = JStr (text_of n)"
| "redact text_of JUndef = JUndef"
| "redact text_of JNull = JNull"
| "redact text_of (JBool b) = JBool b"
| "redact text_of (JNum n) = JNum n"

section \<open>Redacted texts\<close>

text \<open>No position of the text starts a token.\<close>

fun token_free :: "string \<Rightarrow> bool" where
  "token_free [] = True"
| "token_free (c # s) = (token_at (c # s) = None \<and> token_free s)"

text \<open>A text starts with a token when it starts with one of the prefixes and a further token character.\<close>

definition token_of :: "string \<Rightarrow> string \<Rightarrow> bool" where
  "token_of p s \<longleftrightarrow> length p < length s \<and> map ascii_lower (take (length p) s) = p \<and> token_char (s ! length p)"

lemma takeWhile_empty_iff: "takeWhile P xs = [] \<longleftrightarrow> xs = [] \<or> \<not> P (hd xs)"
  by (cases xs) auto

lemma token_body: "map ascii_lower (take (length p) s) = p \<Longrightarrow>
    takeWhile token_char (drop (length p) s) \<noteq> [] \<longleftrightarrow> token_of p s"
proof -
  assume p: "map ascii_lower (take (length p) s) = p"
  show "takeWhile token_char (drop (length p) s) \<noteq> [] \<longleftrightarrow> token_of p s"
    using p by (auto simp: takeWhile_empty_iff token_of_def hd_drop_conv_nth)
qed

lemma prefixes_apart:
  "p \<in> set token_prefixes \<Longrightarrow> q \<in> set token_prefixes \<Longrightarrow> p = take (length p) q \<Longrightarrow> p = q"
  by (auto simp: token_prefixes_def)

lemma prefixes_exclusive:
  assumes "p \<in> set token_prefixes" and "q \<in> set token_prefixes"
    and "map ascii_lower (take (length p) s) = p" and "map ascii_lower (take (length q) s) = q"
  shows "p = q"
proof -
  have le: "p = q" if "length p \<le> length q" "p \<in> set token_prefixes" "q \<in> set token_prefixes"
    "map ascii_lower (take (length p) s) = p" "map ascii_lower (take (length q) s) = q" for p q
  proof (rule prefixes_apart [OF that(2,3)])
    have "take (length p) (map ascii_lower (take (length q) s)) = map ascii_lower (take (length p) s)"
      using that(1) by (simp add: take_map min_def)
    then show "p = take (length p) q" using that(4,5) by simp
  qed
  show ?thesis
    using le [of p q] le [of q p] assms by (cases "length p \<le> length q") auto
qed

lemma token_at_iff: "token_at s \<noteq> None \<longleftrightarrow> (\<exists>p\<in>set token_prefixes. token_of p s)"
proof
  assume "token_at s \<noteq> None"
  then obtain p where p: "find (\<lambda>p. map ascii_lower (take (length p) s) = p) token_prefixes = Some p"
      "takeWhile token_char (drop (length p) s) \<noteq> []"
    by (auto simp: token_at_def Let_def split: option.splits if_splits)
  then have "p \<in> set token_prefixes" "map ascii_lower (take (length p) s) = p"
    using find_Some_in [OF p(1)] by auto
  then show "\<exists>p\<in>set token_prefixes. token_of p s" using p(2) token_body by blast
next
  assume "\<exists>p\<in>set token_prefixes. token_of p s"
  then obtain p where p: "p \<in> set token_prefixes" "token_of p s" by blast
  then have m: "map ascii_lower (take (length p) s) = p" by (simp add: token_of_def)
  obtain q where q: "find (\<lambda>p. map ascii_lower (take (length p) s) = p) token_prefixes = Some q"
    using p(1) m by (metis (mono_tags, lifting) find_None_iff2 not_None_eq)
  then have "q = p"
    using prefixes_exclusive [OF _ p(1) _ m, of q] find_Some_in [OF q] by auto
  then show "token_at s \<noteq> None"
    using q p(2) token_body [OF m] by (simp add: token_at_def Let_def)
qed

lemma token_of_append: "token_of p s \<Longrightarrow> token_of p (s @ t)"
  by (auto simp: token_of_def nth_append)

lemma prefix_chars: "p \<in> set token_prefixes \<Longrightarrow> CHR ''['' \<notin> set p"
  by (auto simp: token_prefixes_def)

lemma lower_bracket: "ascii_lower (CHR ''['') = CHR ''[''" "\<not> token_char (CHR ''['')"
  by code_simp+

text \<open>A token does not reach over an opening bracket, nor over the end of the text.\<close>

lemma token_of_stops:
  assumes "token_of p (s @ w)" and "p \<in> set token_prefixes" and "w = [] \<or> hd w = CHR ''[''"
  shows "token_of p s"
proof (cases "length p < length s")
  case True
  then show ?thesis using assms(1) by (simp add: token_of_def nth_append)
next
  case False
  have "w \<noteq> []"
  proof
    assume "w = []"
    with assms(1) False show False by (simp add: token_of_def)
  qed
  then have w: "w \<noteq> []" "hd w = CHR ''[''"
    using assms(3) by auto
  have nth: "(s @ w) ! length s = CHR ''[''"
    using w by (simp add: nth_append hd_conv_nth)
  show ?thesis
  proof (cases "length s = length p")
    case True
    then show ?thesis using assms(1) nth lower_bracket(2) by (simp add: token_of_def)
  next
    case short: False
    with False have l: "length s < length p" by simp
    have "map ascii_lower (take (length p) (s @ w)) ! length s = p ! length s"
      using assms(1) by (simp add: token_of_def)
    moreover have "length s < length (take (length p) (s @ w))"
      using l w(1) by simp
    ultimately have "p ! length s = CHR ''[''"
      by (metis l nth nth_map nth_take lower_bracket(1))
    then show ?thesis
      using l nth_mem [OF l] prefix_chars [OF assms(2)] by simp
  qed
qed

lemma token_at_stops:
  assumes "token_at (s @ v) = None" and "w = [] \<or> hd w = CHR ''[''"
  shows "token_at (s @ w) = None"
  using assms token_of_stops [of _ s w] token_of_append [of _ s v] token_at_iff [of "s @ v"] token_at_iff [of "s @ w"]
  by blast

text \<open>Up to the first token the text is kept; then comes an opening bracket.\<close>

lemma redactString_split:
  "\<exists>u v w. s = u @ v \<and> redactString s = u @ w \<and> (w = [] \<or> hd w = CHR ''['')"
proof (induction s)
  case (Cons c s)
  show ?case
  proof (cases "token_at (c # s)")
    case None
    from Cons obtain u v w where "s = u @ v" "redactString s = u @ w" "w = [] \<or> hd w = CHR ''[''" by blast
    then show ?thesis
      using None by (intro exI [of _ "c # u"] exI [of _ v] exI [of _ w]) simp
  next
    case (Some n)
    then show ?thesis
      by (intro exI [of _ "[]"] exI [of _ "c # s"] exI [of _ "redactString (c # s)"]) (simp add: REDACTED_def)
  qed
qed simp

lemma token_starts:
  "token_at (c # s) \<noteq> None \<Longrightarrow> ascii_lower c = CHR ''c'' \<or> ascii_lower c = CHR ''n''"
  "token_at (c # d # s) \<noteq> None \<Longrightarrow> ascii_lower c = CHR ''c'' \<Longrightarrow> ascii_lower d = CHR ''a''"
  unfolding token_at_iff by (auto simp: token_of_def token_prefixes_def)

lemma marker_free:
  assumes "token_free s"
  shows "token_free (REDACTED @ s)"
proof -
  have l: "ascii_lower CHR ''['' = CHR ''[''" "ascii_lower CHR ''R'' = CHR ''r''" "ascii_lower CHR ''E'' = CHR ''e''"
    "ascii_lower CHR ''D'' = CHR ''d''" "ascii_lower CHR ''A'' = CHR ''a''" "ascii_lower CHR ''C'' = CHR ''c''"
    "ascii_lower CHR ''T'' = CHR ''t''" "ascii_lower CHR '']'' = CHR '']''"
    by code_simp+
  have "token_at (c # t) = None" if "ascii_lower c \<noteq> CHR ''c''" "ascii_lower c \<noteq> CHR ''n''" for c t
    using token_starts(1) [of c t] that by blast
  moreover have "token_at (CHR ''C'' # CHR ''T'' # t) = None" for t
    using token_starts(2) [of "CHR ''C''" "CHR ''T''" t] l by (cases "token_at (CHR ''C'' # CHR ''T'' # t)") auto
  ultimately show ?thesis
    using assms by (simp add: REDACTED_def l)
qed

lemma redactString_free: "token_free (redactString s)"
proof (induction s rule: redactString.induct)
  case (2 c s)
  show ?case
  proof (cases "token_at (c # s)")
    case None
    obtain u v w where u: "s = u @ v" "redactString s = u @ w" "w = [] \<or> hd w = CHR ''[''"
      using redactString_split by blast
    have "token_at (c # u @ w) = None"
      using token_at_stops [of "c # u" v w] None u by simp
    then show ?thesis using 2 None u by simp
  next
    case (Some n)
    then show ?thesis using 2 by (simp add: marker_free)
  qed
qed simp

lemma redactString_id: "token_free s \<Longrightarrow> redactString s = s"
  by (induction s) simp_all

lemma redactString_fixed: "redactString s = s \<longleftrightarrow> token_free s"
  using redactString_free [of s] redactString_id by metis

section \<open>Redacted values\<close>

text \<open>No text of the value holds a token, and nothing but the marker stands under a sensitive key.\<close>

fun clean :: "jsval \<Rightarrow> bool" where
  "clean (JStr s) = token_free s"
| "clean (JArr items) = list_all (\<lambda>item. case item of None \<Rightarrow> True | Some v \<Rightarrow> clean v) items"
| "clean (JObj props) = list_all (\<lambda>p. if sensitive_key (fst p) then snd p = JStr REDACTED else clean (snd p)) props"
| "clean _ = True"

text \<open>Data as \<open>JSON.parse\<close> makes it, without properties that are undefined.\<close>

fun plain_data :: "jsval \<Rightarrow> bool" where
  "plain_data (JArr items) = list_all (\<lambda>item. case item of None \<Rightarrow> True | Some v \<Rightarrow> plain_data v) items"
| "plain_data (JObj props) = list_all (\<lambda>p. snd p \<noteq> JUndef \<and> plain_data (snd p)) props"
| "plain_data (JOther _) = False"
| "plain_data _ = True"

lemma redact_clean: "(\<And>n. token_free (text_of n)) \<Longrightarrow> clean (redact text_of v)"
proof (induction text_of v rule: redact.induct)
  case (2 text_of items)
  then show ?case
    by (auto simp: list_all_iff split: option.splits)
next
  case (3 text_of props)
  then show ?case
    by (auto simp: list_all_iff split: if_splits)
qed (simp_all add: redactString_free)

lemma redact_insensitive:
  "plain_data v \<Longrightarrow> \<not> containsSensitiveData v \<Longrightarrow> redact text_of v = v"
proof (induction text_of v rule: redact.induct)
  case (2 text_of items)
  have "map_option (redact text_of) item = item" if "item \<in> set items" for item
  proof (cases item)
    case (Some v)
    then have "plain_data v" "\<not> containsSensitiveData v"
      using that 2(2,3) by (auto simp: list_all_iff list_ex_iff split: option.splits)
    then show ?thesis using 2(1) [OF that] Some by simp
  qed simp
  then show ?case by (simp add: map_idI)
next
  case (3 text_of props)
  have "concat (map (\<lambda>p. if sensitive_key (fst p) then [(fst p, JStr REDACTED)]
      else if snd p = JUndef then [] else [(fst p, redact text_of (snd p))]) ps) = ps" if "set ps \<subseteq> set props" for ps
    using that
  proof (induction ps)
    case (Cons p ps)
    then have "p \<in> set props" by simp
    moreover from this have "\<not> sensitive_key (fst p)" "snd p \<noteq> JUndef" "redact text_of (snd p) = snd p"
      using 3 by (auto simp: list_all_iff list_ex_iff)
    ultimately show ?case using Cons by simp
  qed simp
  then show ?case by simp
qed simp_all

end
