(* ===== verification/Virtual_Scheduler.thy ===== *)
theory Virtual_Scheduler
  imports Js_Values
begin

text \<open>
  \<open>packages/scenario-runner/src/scheduler.ts\<close>: the virtual clock of a scenario. A task is told apart by its
  sequence number, so the handle of a task is that number. A callback is a parameter: a function on the
  scheduler that returns the error it throws, if any, and the scheduler it leaves. A call that throws
  leaves the scheduler as it is at that point, so every operation returns the error beside the state.
  The list of the tasks whose callback ran, in the order they ran, is an output the code does not
  have; nothing reads it.
\<close>

section \<open>The scheduler\<close>

record 'c scheduled_task =
  tk_deadline :: int
  tk_sequence :: nat
  tk_callback :: 'c
  tk_cancelled :: bool

record 'c scheduler =
  sd_now :: int
  sd_sequence :: nat
  sd_tasks :: "'c scheduled_task list"

type_synonym 'c callback_run = "'c \<Rightarrow> 'c scheduler \<Rightarrow> string option \<times> 'c scheduler"

definition assertTime :: "int \<Rightarrow> string \<Rightarrow> string + unit" where
  "assertTime value name =
     (if \<not> safe_int value \<or> value < 0 then Inl (name @ '' must be a nonnegative safe integer virtual time'')
      else Inr ())"

definition new_scheduler :: "int \<Rightarrow> string + 'c scheduler" where
  "new_scheduler start =
     rbind (assertTime start ''Start time'') (\<lambda>_. Inr \<lparr>sd_now = start, sd_sequence = 0, sd_tasks = []\<rparr>)"

definition schedule :: "int \<Rightarrow> 'c \<Rightarrow> 'c scheduler \<Rightarrow> string + nat \<times> 'c scheduler" where
  "schedule delay callback s =
     rbind (assertTime delay ''Delay'') (\<lambda>_.
     let deadline = sd_now s + delay in
     rbind (assertTime deadline ''Deadline'') (\<lambda>_.
     Inr (sd_sequence s,
       s\<lparr>sd_sequence := sd_sequence s + 1,
         sd_tasks := sd_tasks s @ [\<lparr>tk_deadline = deadline, tk_sequence = sd_sequence s, tk_callback = callback,
           tk_cancelled = False\<rparr>]\<rparr>)))"

definition cancel :: "nat \<Rightarrow> 'c scheduler \<Rightarrow> 'c scheduler" where
  "cancel handle s = s\<lparr>sd_tasks := map (\<lambda>t. if tk_sequence t = handle then t\<lparr>tk_cancelled := True\<rparr> else t) (sd_tasks s)\<rparr>"

definition earlier :: "'c scheduled_task \<Rightarrow> 'c scheduled_task \<Rightarrow> bool" where
  "earlier t u \<longleftrightarrow> tk_deadline t < tk_deadline u \<or> (tk_deadline t = tk_deadline u \<and> tk_sequence t < tk_sequence u)"

definition peekNext :: "'c scheduled_task list \<Rightarrow> 'c scheduled_task option" where
  "peekNext tasks = fold (\<lambda>task found.
     case found of None \<Rightarrow> Some task | Some next \<Rightarrow> Some (if earlier task next then task else next)) tasks None"

definition assertLimit :: "int \<Rightarrow> string + unit" where
  "assertLimit value =
     (if \<not> safe_int value \<or> value < 1 then Inl ''Execution limit must be a positive safe integer'' else Inr ())"

definition due :: "int option \<Rightarrow> 'c scheduled_task \<Rightarrow> bool" where
  "due target t \<longleftrightarrow> (case target of None \<Rightarrow> True | Some end_time \<Rightarrow> tk_deadline t \<le> end_time)"

text \<open>The task that comes first is kept along the list.\<close>

definition pick :: "'c scheduled_task \<Rightarrow> 'c scheduled_task \<Rightarrow> 'c scheduled_task" where
  "pick task next = (if earlier task next then task else next)"

lemma peekNext_simps: "peekNext [] = None" "peekNext (t # ts) = Some (fold pick ts t)"
proof -
  have "fold (\<lambda>task found. case found of None \<Rightarrow> Some task | Some next \<Rightarrow> Some (if earlier task next then task else next))
      ts (Some t) = Some (fold pick ts t)" for t :: "'b scheduled_task" and ts
    by (induction ts arbitrary: t) (simp_all add: pick_def)
  then show "peekNext (t # ts) = Some (fold pick ts t)" by (simp add: peekNext_def)
qed (simp add: peekNext_def)

lemma peekNext_None [simp]: "peekNext tasks = None \<longleftrightarrow> tasks = []"
  by (cases tasks) (simp_all add: peekNext_simps)

lemma fold_pick_in: "fold pick ts t \<in> insert t (set ts)"
  by (induction ts arbitrary: t) (auto simp: pick_def split: if_splits)

lemma fold_pick_first: "u \<in> insert t (set ts) \<Longrightarrow> \<not> earlier u (fold pick ts t)"
proof (induction ts arbitrary: t u)
  case (Cons v ts)
  have "\<not> earlier (pick v t) (fold pick ts (pick v t))" by (rule Cons.IH) simp
  then have "\<not> earlier t (fold pick ts (pick v t))" "\<not> earlier v (fold pick ts (pick v t))"
    by (auto simp: pick_def earlier_def split: if_splits)
  then show ?case
    using Cons.prems Cons.IH [of u "pick v t"] by auto
qed (simp add: earlier_def)

lemma peekNext_in: "peekNext tasks = Some t \<Longrightarrow> t \<in> set tasks"
  using fold_pick_in by (cases tasks) (auto simp: peekNext_simps)

lemma peekNext_first: "peekNext tasks = Some t \<Longrightarrow> u \<in> set tasks \<Longrightarrow> \<not> earlier u t"
  using fold_pick_first by (cases tasks) (auto simp: peekNext_simps)

text \<open>
  The loop of \<open>advanceTo\<close> (with the target time) and of \<open>runUntilIdle\<close> (without one). A cancelled task is
  dropped without counting. Every turn removes a task, and a turn that runs a callback, which may add
  tasks, uses up one of the executions that are left; so the loop ends.
\<close>

function run_due :: "'c callback_run \<Rightarrow> int option \<Rightarrow> nat \<Rightarrow> nat \<Rightarrow> 'c scheduler \<Rightarrow>
    'c scheduled_task list \<times> string option \<times> 'c scheduler" where
  "run_due run target limit executed s =
     (case peekNext (sd_tasks s) of
        None \<Rightarrow> ([], None, s)
      | Some next \<Rightarrow>
          if \<not> due target next then ([], None, s)
          else
            let rest = s\<lparr>sd_tasks := remove1 next (sd_tasks s)\<rparr> in
            if tk_cancelled next then run_due run target limit executed rest
            else if executed \<ge> limit then ([], Some ''Virtual scheduler execution limit exceeded'', rest)
            else
              (case run (tk_callback next) (rest\<lparr>sd_now := tk_deadline next\<rparr>) of
                 (Some e, s') \<Rightarrow> ([next], Some e, s')
               | (None, s') \<Rightarrow>
                   (case run_due run target limit (executed + 1) s' of
                      (ts, result) \<Rightarrow> (next # ts, result))))"
  by pat_completeness auto
termination
  by (relation "measures [\<lambda>(run, target, limit, executed, s). limit - executed,
      \<lambda>(run, target, limit, executed, s). length (sd_tasks s)]")
    (auto simp: length_remove1 dest: peekNext_in length_pos_if_in_set)

declare run_due.simps [simp del]

definition advanceTo :: "'c callback_run \<Rightarrow> int \<Rightarrow> int \<Rightarrow> 'c scheduler \<Rightarrow>
    'c scheduled_task list \<times> string option \<times> 'c scheduler" where
  "advanceTo run target executionLimit s =
     (case rbind (assertTime target ''Target time'') (\<lambda>_. assertLimit executionLimit) of
        Inl e \<Rightarrow> ([], Some e, s)
      | Inr _ \<Rightarrow>
          (case run_due run (Some target) (nat executionLimit) 0 s of
             (ts, Some e, s') \<Rightarrow> (ts, Some e, s')
           | (ts, None, s') \<Rightarrow> (ts, None, s'\<lparr>sd_now := target\<rparr>)))"

definition advanceBy :: "'c callback_run \<Rightarrow> int \<Rightarrow> int \<Rightarrow> 'c scheduler \<Rightarrow>
    'c scheduled_task list \<times> string option \<times> 'c scheduler" where
  "advanceBy run milliseconds executionLimit s =
     (case assertTime milliseconds ''Advance time'' of
        Inl e \<Rightarrow> ([], Some e, s)
      | Inr _ \<Rightarrow> advanceTo run (sd_now s + milliseconds) executionLimit s)"

definition runUntilIdle :: "'c callback_run \<Rightarrow> int \<Rightarrow> 'c scheduler \<Rightarrow>
    'c scheduled_task list \<times> string option \<times> 'c scheduler" where
  "runUntilIdle run executionLimit s =
     (case assertLimit executionLimit of
        Inl e \<Rightarrow> ([], Some e, s)
      | Inr _ \<Rightarrow> run_due run None (nat executionLimit) 0 s)"

text \<open>\<open>sleep\<close> schedules the resolution of its promise.\<close>

definition sleep :: "int \<Rightarrow> 'c \<Rightarrow> 'c scheduler \<Rightarrow> string + nat \<times> 'c scheduler" where
  "sleep milliseconds resolve s =
     rbind (assertTime milliseconds ''Sleep duration'') (\<lambda>_. schedule milliseconds resolve s)"

section \<open>What callbacks may do\<close>

text \<open>The calls a callback makes to the scheduler: it schedules and cancels tasks.\<close>

inductive sched_calls :: "'c scheduler \<Rightarrow> 'c scheduler \<Rightarrow> bool" where
  no_call: "sched_calls s s"
| schedule_call: "sched_calls s s' \<Longrightarrow> schedule delay c s' = Inr (k, s'') \<Longrightarrow> sched_calls s s''"
| cancel_call: "sched_calls s s' \<Longrightarrow> sched_calls s (cancel k s')"

text \<open>Time does not run backwards: no waiting task is in the past. Sequence numbers are not used twice.\<close>

definition sched_ok :: "'c scheduler \<Rightarrow> bool" where
  "sched_ok s \<longleftrightarrow> safe_nonneg (sd_now s) \<and> distinct (map tk_sequence (sd_tasks s)) \<and>
     (\<forall>t\<in>set (sd_tasks s). sd_now s \<le> tk_deadline t \<and> safe_nonneg (tk_deadline t) \<and> tk_sequence t < sd_sequence s)"

lemma assertTime_ok [simp]: "assertTime v n = Inr u \<longleftrightarrow> safe_nonneg v"
  by (auto simp: assertTime_def safe_nonneg_def)

lemma schedule_ok:
  "schedule delay c s = Inr (k, s') \<longleftrightarrow> safe_nonneg delay \<and> safe_nonneg (sd_now s + delay) \<and> k = sd_sequence s \<and>
     s' = s\<lparr>sd_sequence := sd_sequence s + 1,
         sd_tasks := sd_tasks s @ [\<lparr>tk_deadline = sd_now s + delay, tk_sequence = sd_sequence s, tk_callback = c,
           tk_cancelled = False\<rparr>]\<rparr>"
  by (auto simp: schedule_def Let_def result_simps)

lemma new_scheduler_ok: "new_scheduler start = Inr s \<Longrightarrow> sched_ok s"
  by (auto simp: new_scheduler_def result_simps sched_ok_def)

lemma schedule_keeps [inv_intros]: "sched_ok s \<Longrightarrow> schedule delay c s = Inr (k, s') \<Longrightarrow> sched_ok s'"
  by (auto simp: schedule_ok sched_ok_def safe_nonneg_iff)

lemma cancel_keeps [inv_intros]: "sched_ok s \<Longrightarrow> sched_ok (cancel k s)" for s :: "'c scheduler"
proof -
  have "tk_sequence \<circ> (\<lambda>t :: 'c scheduled_task. if tk_sequence t = k then t\<lparr>tk_cancelled := True\<rparr> else t) = tk_sequence"
    by auto
  then show "sched_ok s \<Longrightarrow> sched_ok (cancel k s)"
    by (auto simp: sched_ok_def cancel_def)
qed

lemma calls_keep:
  assumes "sched_calls s s'"
  shows "sched_ok s \<Longrightarrow> sched_ok s'" and "sd_now s' = sd_now s" and "sd_sequence s \<le> sd_sequence s'"
    and "t \<in> set (sd_tasks s') \<Longrightarrow> sd_sequence s \<le> tk_sequence t \<or>
      (\<exists>u\<in>set (sd_tasks s). tk_sequence u = tk_sequence t \<and> tk_deadline u = tk_deadline t)"
  using assms
proof (induction arbitrary: t)
  case (no_call s)
  { case 1 then show ?case . next case 2 show ?case .. next case 3 show ?case ..
    next case 4 then show ?case by blast }
next
  case (schedule_call s s' delay c k s'')
  { case 1 then show ?case using schedule_call by (blast intro: schedule_keeps)
    next case 2 show ?case using schedule_call by (simp add: schedule_ok)
    next case 3 show ?case using schedule_call by (simp add: schedule_ok)
    next case 4 then show ?case using schedule_call by (auto simp: schedule_ok) }
next
  case (cancel_call s s' k)
  { case 1 then show ?case using cancel_call by (blast intro: cancel_keeps)
    next case 2 show ?case using cancel_call by (simp add: cancel_def)
    next case 3 show ?case using cancel_call by (simp add: cancel_def)
    next case 4
      then obtain u where "u \<in> set (sd_tasks s')" "tk_sequence u = tk_sequence t" "tk_deadline u = tk_deadline t"
        by (auto simp: cancel_def split: if_splits)
      then show ?case using cancel_call.IH(4) [of u] by auto }
qed

section \<open>The order of execution\<close>

text \<open>The first waiting task comes before every other one, and before every task scheduled from then on.\<close>

lemma removed_ok:
  fixes s :: "'c scheduler"
  assumes "sched_ok s"
  shows "sched_ok (s\<lparr>sd_tasks := remove1 t (sd_tasks s)\<rparr>)"
proof -
  have "distinct (map tk_sequence ts) \<Longrightarrow> distinct (map tk_sequence (remove1 t ts))" for ts
    using set_remove1_subset by (induction ts) fastforce+
  with assms show ?thesis
    by (auto simp: sched_ok_def dest: notin_set_remove1)
qed

lemma next_first:
  assumes ok: "sched_ok s" and t: "peekNext (sd_tasks s) = Some t" and u: "u \<in> set (remove1 t (sd_tasks s))"
  shows "earlier t u"
proof -
  have d: "distinct (map tk_sequence (sd_tasks s))" using ok by (simp add: sched_ok_def)
  then have "u \<noteq> t" using u by (simp add: distinct_map)
  moreover have "u \<in> set (sd_tasks s)" "t \<in> set (sd_tasks s)"
    using u peekNext_in [OF t] set_remove1_subset [of t "sd_tasks s"] by auto
  ultimately have "tk_sequence t \<noteq> tk_sequence u"
    using d by (auto simp: distinct_map inj_on_def)
  then show ?thesis
    using peekNext_first [OF t \<open>u \<in> set (sd_tasks s)\<close>] by (auto simp: earlier_def)
qed

text \<open>\<open>passed_over x s\<close>: the task \<open>x\<close> is done with, whatever runs from \<open>s\<close> on comes after it.\<close>

definition passed_over :: "'c scheduled_task \<Rightarrow> 'c scheduler \<Rightarrow> bool" where
  "passed_over x s \<longleftrightarrow> tk_deadline x \<le> sd_now s \<and> tk_sequence x < sd_sequence s \<and> (\<forall>u\<in>set (sd_tasks s). earlier x u)"

lemma passed_over_calls:
  assumes "sched_calls s s'" and "sched_ok s" and "passed_over x s"
  shows "passed_over x s'"
proof -
  note k = calls_keep [OF assms(1)]
  have "earlier x u" if u: "u \<in> set (sd_tasks s')" for u
  proof (cases "sd_sequence s \<le> tk_sequence u")
    case True
    have "sd_now s' \<le> tk_deadline u" using k(1) [OF assms(2)] u by (auto simp: sched_ok_def)
    with True assms(3) show ?thesis by (auto simp: earlier_def passed_over_def k(2))
  next
    case False
    then obtain v where "v \<in> set (sd_tasks s)" "tk_sequence v = tk_sequence u" "tk_deadline v = tk_deadline u"
      using k(4) [OF u] by auto
    then show ?thesis using assms(3) by (auto simp: passed_over_def earlier_def)
  qed
  with assms(3) k(2,3) show ?thesis by (auto simp: passed_over_def)
qed

lemma passed_over_removed: "passed_over x s \<Longrightarrow> passed_over x (s\<lparr>sd_tasks := remove1 t (sd_tasks s)\<rparr>)"
  by (auto simp: passed_over_def dest: notin_set_remove1)

lemma started_next:
  assumes ok: "sched_ok s" and t: "peekNext (sd_tasks s) = Some t"
  shows "sched_ok (s\<lparr>sd_tasks := remove1 t (sd_tasks s), sd_now := tk_deadline t\<rparr>)"
    and "passed_over t (s\<lparr>sd_tasks := remove1 t (sd_tasks s), sd_now := tk_deadline t\<rparr>)"
    and "passed_over x s \<Longrightarrow> passed_over x (s\<lparr>sd_tasks := remove1 t (sd_tasks s), sd_now := tk_deadline t\<rparr>)"
proof -
  have t': "t \<in> set (sd_tasks s)" by (rule peekNext_in [OF t])
  show "passed_over t (s\<lparr>sd_tasks := remove1 t (sd_tasks s), sd_now := tk_deadline t\<rparr>)"
    using ok t' next_first [OF ok t] by (auto simp: passed_over_def sched_ok_def)
  show "passed_over x (s\<lparr>sd_tasks := remove1 t (sd_tasks s), sd_now := tk_deadline t\<rparr>)" if "passed_over x s"
    using that t' by (auto simp: passed_over_def earlier_def dest: notin_set_remove1)
  show "sched_ok (s\<lparr>sd_tasks := remove1 t (sd_tasks s), sd_now := tk_deadline t\<rparr>)"
  proof -
    have "tk_deadline t \<le> tk_deadline u" if "u \<in> set (remove1 t (sd_tasks s))" for u
      using next_first [OF ok t that] by (auto simp: earlier_def)
    then show ?thesis
      using ok t' removed_ok [OF ok, of t] by (auto simp: sched_ok_def)
  qed
qed

text \<open>
  What a run of the loop from \<open>s\<close> to \<open>s'\<close> does: the tasks it executed were due and not cancelled, each ran
  at its deadline, in the order of deadline and then of scheduling, after every task that was already
  passed over; there are at most \<open>budget\<close> of them; and when it returns nothing that is due is left.
\<close>

definition ran_ok :: "int option \<Rightarrow> nat \<Rightarrow> 'c scheduler \<Rightarrow> 'c scheduled_task list \<Rightarrow> string option \<Rightarrow> 'c scheduler \<Rightarrow> bool" where
  "ran_ok target budget s ts e s' \<longleftrightarrow> sched_ok s' \<and> sd_now s \<le> sd_now s' \<and> sorted_wrt earlier ts \<and>
     (\<forall>t\<in>set ts. due target t \<and> \<not> tk_cancelled t \<and> sd_now s \<le> tk_deadline t \<and> tk_deadline t \<le> sd_now s') \<and>
     (\<forall>x. passed_over x s \<longrightarrow> (\<forall>t\<in>set ts. earlier x t)) \<and>
     (\<forall>end_time. target = Some end_time \<and> sd_now s \<le> end_time \<longrightarrow> sd_now s' \<le> end_time) \<and>
     length ts \<le> budget \<and>
     (e = None \<longrightarrow> (\<forall>t\<in>set (sd_tasks s'). \<not> due target t))"

lemma ran_nothing: "sched_ok s \<Longrightarrow> (e = None \<Longrightarrow> \<forall>t\<in>set (sd_tasks s). \<not> due target t) \<Longrightarrow> ran_ok target budget s [] e s"
  by (simp add: ran_ok_def)

lemma ran_skipped:
  assumes "ran_ok target budget (s\<lparr>sd_tasks := remove1 t (sd_tasks s)\<rparr>) ts e s'"
  shows "ran_ok target budget s ts e s'"
  using assms passed_over_removed [of _ s t] unfolding ran_ok_def by auto

lemma ran_next:
  assumes ok: "sched_ok s" and t: "peekNext (sd_tasks s) = Some t" "due target t" "\<not> tk_cancelled t"
    and calls: "sched_calls (s\<lparr>sd_tasks := remove1 t (sd_tasks s), sd_now := tk_deadline t\<rparr>) s1"
    and rest: "ran_ok target budget s1 ts e s'"
  shows "ran_ok target (Suc budget) s (t # ts) e s'"
proof -
  let ?s0 = "s\<lparr>sd_tasks := remove1 t (sd_tasks s), sd_now := tk_deadline t\<rparr>"
  note st = started_next [OF ok t(1)]
  have now: "sd_now s1 = tk_deadline t" "sd_now s \<le> tk_deadline t"
    using calls_keep(2) [OF calls] ok peekNext_in [OF t(1)] by (auto simp: sched_ok_def)
  have over: "passed_over x s1" if "passed_over x ?s0" for x
    by (rule passed_over_calls [OF calls st(1) that])
  have "earlier x t" if "passed_over x s" for x
    using that peekNext_in [OF t(1)] by (simp add: passed_over_def)
  then show ?thesis
    using rest t(2,3) now over [OF st(2)] over [OF st(3)]
    unfolding ran_ok_def by (auto simp: due_def split: option.splits)
qed

lemma run_due_ran:
  assumes "\<forall>c s. sched_calls s (snd (run c s))" and "sched_ok s"
    and "run_due run target limit executed s = (ts, e, s')"
  shows "ran_ok target (limit - executed) s ts e s'"
  using assms
proof (induction run target limit executed s arbitrary: ts e s' rule: run_due.induct)
  case (1 run target limit executed s)
  note step = 1(5) [unfolded run_due.simps [of run target limit executed s]]
  show ?case
  proof (cases "peekNext (sd_tasks s)")
    case None
    with step 1(4) show ?thesis by (auto intro!: ran_nothing)
  next
    case (Some t)
    let ?rest = "s\<lparr>sd_tasks := remove1 t (sd_tasks s)\<rparr>"
    consider "\<not> due target t" | "due target t" "tk_cancelled t" | "due target t" "\<not> tk_cancelled t" "executed \<ge> limit"
      | "due target t" "\<not> tk_cancelled t" "executed < limit" by linarith
    then show ?thesis
    proof cases
      case 1
      have "\<not> due target u" if "u \<in> set (sd_tasks s)" for u
        using peekNext_first [OF Some that] 1 by (auto simp: due_def earlier_def split: option.splits)
      then show ?thesis
        using step 1 Some \<open>sched_ok s\<close> by (auto intro!: ran_nothing)
    next
      case 2
      then have "run_due run target limit executed ?rest = (ts, e, s')"
        using step Some by (simp add: Let_def)
      then show ?thesis
        using "1.IH"(1) [OF Some _ refl] 2 \<open>\<forall>c s. sched_calls s (snd (run c s))\<close> removed_ok [OF \<open>sched_ok s\<close>]
        by (blast intro: ran_skipped)
    next
      case 3
      then have "ts = []" "e = Some ''Virtual scheduler execution limit exceeded''" "s' = ?rest"
        using step Some by (simp_all add: Let_def)
      then show ?thesis
        using removed_ok [OF \<open>sched_ok s\<close>, of t] by (simp add: ran_ok_def)
    next
      case 4
      let ?s0 = "?rest\<lparr>sd_now := tk_deadline t\<rparr>"
      obtain err s1 where run: "run (tk_callback t) ?s0 = (err, s1)" by fastforce
      then have calls: "sched_calls ?s0 s1" using 1(3) by (metis snd_conv)
      have ok1: "sched_ok s1"
        using calls_keep(1) [OF calls] started_next(1) [OF \<open>sched_ok s\<close> Some] by simp
      have b: "limit - executed = Suc (limit - (executed + 1))" using 4 by simp
      show ?thesis
      proof (cases err)
        case None
        obtain ts' where ts': "ts = t # ts'" "run_due run target limit (executed + 1) s1 = (ts', e, s')"
          using step Some 4 run None by (auto simp: Let_def split: prod.splits)
        have "ran_ok target (limit - (executed + 1)) s1 ts' e s'"
          using "1.IH"(2) [OF Some _ refl _ _ run [symmetric] None] 4 1(3) ok1 ts'(2) by simp
        then show ?thesis
          unfolding b ts'(1) using ran_next [OF \<open>sched_ok s\<close> Some _ _ calls] 4 by simp
      next
        case (Some er)
        then have "ts = [t]" "e = Some er" "s' = s1"
          using step \<open>peekNext (sd_tasks s) = Some t\<close> 4 run by (simp_all add: Let_def)
        moreover have "ran_ok target (limit - (executed + 1)) s1 [] (Some er) s1"
          using ok1 by (simp add: ran_ok_def)
        ultimately show ?thesis
          unfolding b using ran_next [OF \<open>sched_ok s\<close> \<open>peekNext (sd_tasks s) = Some t\<close> _ _ calls] 4 by simp
      qed
    qed
  qed
qed

lemma assertLimit_ok [simp]: "assertLimit v = Inr u \<longleftrightarrow> safe_int v \<and> 1 \<le> v"
  by (auto simp: assertLimit_def)

lemma advanceBy_None:
  "advanceBy run ms limit s = (ts, None, s') \<longleftrightarrow>
     safe_nonneg ms \<and> safe_nonneg (sd_now s + ms) \<and> safe_int limit \<and> 1 \<le> limit \<and>
     (\<exists>s1. run_due run (Some (sd_now s + ms)) (nat limit) 0 s = (ts, None, s1) \<and> s' = s1\<lparr>sd_now := sd_now s + ms\<rparr>)"
proof -
  have t: "assertTime v n = (if safe_nonneg v then Inr () else Inl (n @ '' must be a nonnegative safe integer virtual time''))" for v n
    by (auto simp: assertTime_def safe_nonneg_def)
  have l: "assertLimit v = (if safe_int v \<and> 1 \<le> v then Inr () else Inl ''Execution limit must be a positive safe integer'')" for v
    by (auto simp: assertLimit_def)
  show ?thesis
    unfolding advanceBy_def advanceTo_def t l by (auto split: prod.splits option.splits)
qed

section \<open>Callbacks that act through the scheduler\<close>

locale scheduler_callbacks =
  fixes run :: "'c callback_run"
  assumes run_calls: "sched_calls s (snd (run c s))"
begin

lemma advance_ran:
  assumes "sched_ok s" and "advanceBy run ms limit s = (ts, None, s')"
  shows "sd_now s' = sd_now s + ms" and "sched_ok s'" and "sorted_wrt earlier ts" and "length ts \<le> nat limit"
    and "\<And>t. t \<in> set ts \<Longrightarrow> \<not> tk_cancelled t \<and> sd_now s \<le> tk_deadline t \<and> tk_deadline t \<le> sd_now s'"
    and "\<And>t. t \<in> set (sd_tasks s') \<Longrightarrow> sd_now s' < tk_deadline t"
proof -
  obtain s1 where s1: "run_due run (Some (sd_now s + ms)) (nat limit) 0 s = (ts, None, s1)"
      "s' = s1\<lparr>sd_now := sd_now s + ms\<rparr>" and safe: "safe_nonneg ms" "safe_nonneg (sd_now s + ms)"
    using assms(2) by (auto simp: advanceBy_None)
  have "ran_ok (Some (sd_now s + ms)) (nat limit) s ts None s1"
    using run_due_ran [of run s, OF _ assms(1) s1(1)] run_calls by simp
  with s1(2) safe show "sd_now s' = sd_now s + ms" "sched_ok s'" "sorted_wrt earlier ts" "length ts \<le> nat limit"
    "\<And>t. t \<in> set ts \<Longrightarrow> \<not> tk_cancelled t \<and> sd_now s \<le> tk_deadline t \<and> tk_deadline t \<le> sd_now s'"
    "\<And>t. t \<in> set (sd_tasks s') \<Longrightarrow> sd_now s' < tk_deadline t"
    by (auto simp: ran_ok_def due_def sched_ok_def)
qed

end

lemma run_due_complete:
  assumes "\<forall>c s. set (sd_tasks s) \<subseteq> set (sd_tasks (snd (run c s)))"
    and "run_due run target limit executed s = (ts, None, s')"
    and "t \<in> set (sd_tasks s)" and "due target t" and "\<not> tk_cancelled t"
  shows "t \<in> set ts"
  using assms
proof (induction run target limit executed s arbitrary: ts rule: run_due.induct)
  case (1 run target limit executed s)
  note step = 1(4) [unfolded run_due.simps [of run target limit executed s]]
  obtain n where n: "peekNext (sd_tasks s) = Some n"
    using 1(5) by (cases "peekNext (sd_tasks s)") auto
  have d: "due target n"
    using peekNext_first [OF n 1(5)] 1(6) by (auto simp: due_def earlier_def split: option.splits)
  let ?rest = "s\<lparr>sd_tasks := remove1 n (sd_tasks s)\<rparr>"
  have rest: "t \<in> set (sd_tasks ?rest) \<or> t = n"
    using 1(5) by auto
  show ?case
  proof (cases "tk_cancelled n")
    case True
    then have "t \<noteq> n" using 1(7) by auto
    then show ?thesis
      using "1.IH"(1) [OF n _ refl True 1(3) _ _ 1(6,7)] d rest step n True by (simp add: Let_def)
  next
    case False
    obtain err s1 where run: "run (tk_callback n) (?rest\<lparr>sd_now := tk_deadline n\<rparr>) = (err, s1)" by fastforce
    obtain ts' where r: "err = None" "\<not> limit \<le> executed" "ts = n # ts'"
        "run_due run target limit (executed + 1) s1 = (ts', None, s')"
      using step n d False run by (auto simp: Let_def split: if_splits option.splits prod.splits)
    have "set (sd_tasks ?rest) \<subseteq> set (sd_tasks s1)"
      using 1(3) run by (metis (no_types, lifting) scheduler.select_convs(3) scheduler.surjective scheduler.update_convs(1) snd_conv)
    then have "t \<in> set (sd_tasks s1) \<or> t = n" using rest by auto
    then show ?thesis
      using "1.IH"(2) [OF n _ refl False r(2) run [symmetric] r(1) 1(3) r(4) _ 1(6,7)] d r(3) by auto
  qed
qed

text \<open>Callbacks that cancel nothing: every waiting task that is due is executed.\<close>

locale keeping_callbacks = scheduler_callbacks +
  assumes run_keeps: "set (sd_tasks s) \<subseteq> set (sd_tasks (snd (run c s)))"
begin

lemma advance_complete:
  assumes "advanceBy run ms limit s = (ts, None, s')"
    and "t \<in> set (sd_tasks s)" and "tk_deadline t \<le> sd_now s + ms" and "\<not> tk_cancelled t"
  shows "t \<in> set ts"
proof -
  obtain s1 where "run_due run (Some (sd_now s + ms)) (nat limit) 0 s = (ts, None, s1)"
    using assms(1) by (auto simp: advanceBy_None)
  then show ?thesis
    using run_due_complete [of run _ _ _ s ts s1 t] run_keeps assms(2-4) by (simp add: due_def)
qed

end

text \<open>A callback as the list of the calls it makes, read at the time it runs.\<close>

datatype 'c sched_call = Call_schedule int 'c | Call_cancel nat

fun perform :: "'c sched_call list \<Rightarrow> 'c scheduler \<Rightarrow> string option \<times> 'c scheduler" where
  "perform [] s = (None, s)"
| "perform (Call_schedule delay c # calls) s =
     (case schedule delay c s of Inl e \<Rightarrow> (Some e, s) | Inr (_, s') \<Rightarrow> perform calls s')"
| "perform (Call_cancel k # calls) s = perform calls (cancel k s)"

definition call_back :: "('c \<Rightarrow> int \<Rightarrow> 'c sched_call list) \<Rightarrow> 'c callback_run" where
  "call_back body c s = perform (body c (sd_now s)) s"

lemma perform_calls: "sched_calls s0 s \<Longrightarrow> sched_calls s0 (snd (perform calls s))"
proof (induction calls arbitrary: s)
  case (Cons call calls)
  then show ?case
    by (cases call) (auto split: sum.split intro: schedule_call cancel_call)
qed simp

interpretation program: scheduler_callbacks "call_back body" for body
  by unfold_locales (simp add: call_back_def perform_calls no_call)

definition cancels_nothing :: "('c \<Rightarrow> int \<Rightarrow> 'c sched_call list) \<Rightarrow> bool" where
  "cancels_nothing body \<longleftrightarrow> (\<forall>c now k. Call_cancel k \<notin> set (body c now))"

lemma perform_keeps:
  "(\<forall>k. Call_cancel k \<notin> set calls) \<Longrightarrow> set (sd_tasks s) \<subseteq> set (sd_tasks (snd (perform calls s)))"
proof (induction calls arbitrary: s)
  case (Cons call calls)
  have "set (sd_tasks s) \<subseteq> set (sd_tasks (snd (perform calls s')))" if "schedule delay c s = Inr (k, s')" for delay c k s'
  proof -
    have "set (sd_tasks s) \<subseteq> set (sd_tasks s')" using that by (auto simp: schedule_ok)
    then show ?thesis using Cons.IH [of s'] Cons.prems by (meson list.set_intros(2) subset_trans)
  qed
  with Cons.prems show ?case
    by (cases call) (auto split: sum.split)
qed simp

text \<open>The callback of \<open>sleep\<close> resolves a promise: it makes no call.\<close>

definition resolve_promise :: "unit \<Rightarrow> int \<Rightarrow> unit sched_call list" where
  "resolve_promise c now = []"

interpretation sleeping: keeping_callbacks "call_back resolve_promise"
  by unfold_locales (simp add: call_back_def resolve_promise_def)


definition demo_body :: "nat \<Rightarrow> int \<Rightarrow> nat sched_call list" where
  "demo_body c now = (if c = 7 then [Call_schedule 0 8] else [])"

definition demo_task :: "int \<Rightarrow> nat \<Rightarrow> nat \<Rightarrow> nat scheduled_task" where
  "demo_task d k c = \<lparr>tk_deadline = d, tk_sequence = k, tk_callback = c, tk_cancelled = False\<rparr>"

definition demo_scheduler :: "nat scheduler" where
  "demo_scheduler = \<lparr>sd_now = 3, sd_sequence = 2, sd_tasks = [demo_task 5 0 9, demo_task 4 1 7]\<rparr>"


end
