(* ===== verification/Scenario_Runner.thy ===== *)
theory Scenario_Runner
  imports Scenario_Replay Run_History Virtual_Scheduler
begin

text \<open>
  \<open>ScenarioRunner\<close> of \<open>packages/scenario-runner/src/runner.ts\<close>: it runs the commands of a scenario against a
  driver, feeds what the driver observed to the oracle, checks safety after every command, and judges
  the run by the evaluated invariants. The driver is a parameter: a record of actions on its own state.
  A call of \<open>driver.send\<close> gives a promise (\<open>'p\<close>) at once and its outcome when it is awaited, so a send
  that was started runs on while later commands are executed. A thrown error is its name and message.
  Nothing in the runner schedules a task, so the callbacks of the virtual scheduler are of type \<open>unit\<close>.
\<close>

section \<open>Drivers\<close>

record driver_send_result =
  dsr_value :: jsval
  dsr_observations :: "observation list"

record crash_arm_input =
  ca_runId :: string
  ca_component :: string
  ca_boundary :: crash_boundary
  ca_occurrence :: int

record ('d, 'p) scenario_driver =
  dv_observationConfidence :: "evidence_confidence option"
  dv_sourceConfidence :: "(evidence_source \<times> evidence_confidence) list"
  dv_reset :: "string \<Rightarrow> ('d, scenario_error, unit) eff"
  dv_capabilities :: "('d, scenario_error, jsval) eff"
  dv_configureFault :: "string \<Rightarrow> scenario_fault_rule \<Rightarrow> ('d, scenario_error, unit) eff"
  dv_send :: "string \<Rightarrow> string \<Rightarrow> 'd \<Rightarrow> 'p \<times> 'd"
  dv_outcome :: "'p \<Rightarrow> ('d, scenario_error, driver_send_result) eff"
  dv_restart :: "string \<Rightarrow> ('d, scenario_error, unit) eff"
  dv_clearFaults :: "string option \<Rightarrow> ('d, scenario_error, unit) eff"
  dv_advanceTime :: "(int \<Rightarrow> ('d, scenario_error, unit) eff) option"
  dv_armCrash :: "(crash_arm_input \<Rightarrow> ('d, scenario_error, unit) eff) option"

section \<open>Commands and observations as data\<close>

fun boundary_text :: "crash_boundary \<Rightarrow> string" where
  "boundary_text Sender_before_proof_reservation = ''sender_before_proof_reservation''"
| "boundary_text Sender_after_reservation_before_payload_persistence =
     ''sender_after_reservation_before_payload_persistence''"
| "boundary_text Sender_after_payload_persistence_before_network_send =
     ''sender_after_payload_persistence_before_network_send''"
| "boundary_text Sender_after_send_before_response = ''sender_after_send_before_response''"
| "boundary_text Receiver_before_mint_request = ''receiver_before_mint_request''"
| "boundary_text Receiver_after_mint_request_before_response = ''receiver_after_mint_request_before_response''"
| "boundary_text Receiver_after_mint_response_before_output_persistence =
     ''receiver_after_mint_response_before_output_persistence''"
| "boundary_text Receiver_after_output_persistence_before_merchant_credit =
     ''receiver_after_output_persistence_before_merchant_credit''"
| "boundary_text Receiver_after_credit_before_receipt_persistence =
     ''receiver_after_credit_before_receipt_persistence''"
| "boundary_text Receiver_after_receipt_persistence_before_response_or_outbox =
     ''receiver_after_receipt_persistence_before_response_or_outbox''"

definition optional :: "string \<Rightarrow> int option \<Rightarrow> (string \<times> jsval) list" where
  "optional key v = (case v of None \<Rightarrow> [] | Some i \<Rightarrow> [(key, js_int i)])"

definition rule_value :: "scenario_fault_rule \<Rightarrow> jsval" where
  "rule_value rule = JObj ([(''kind'', JStr (fr_kind rule))] @ optional ''occurrence'' (fr_occurrence rule) @
     optional ''delayMs'' (fr_delayMs rule) @ optional ''duplicateCount'' (fr_duplicateCount rule) @
     optional ''statusCode'' (fr_statusCode rule))"

fun command_type :: "scenario_command \<Rightarrow> string" where
  "command_type (Cmd_configure_fault _ _) = ''configure_fault''"
| "command_type (Cmd_send _ _) = ''send''"
| "command_type (Cmd_arm_crash _ _ _) = ''arm_crash''"
| "command_type (Cmd_start_send _ _ _) = ''start_send''"
| "command_type (Cmd_await_send _) = ''await_send''"
| "command_type (Cmd_restart _) = ''restart''"
| "command_type (Cmd_advance_time _) = ''advance_time''"
| "command_type (Cmd_clear_faults _) = ''clear_faults''"
| "command_type Cmd_assert_quiescent = ''assert_quiescent''"

fun command_fields :: "scenario_command \<Rightarrow> (string \<times> jsval) list" where
  "command_fields (Cmd_configure_fault target rule) = [(''target'', JStr target), (''rule'', rule_value rule)]"
| "command_fields (Cmd_send sender requestId) = [(''sender'', JStr sender), (''requestId'', JStr requestId)]"
| "command_fields (Cmd_arm_crash component boundary occurrence) =
     [(''component'', JStr component), (''boundary'', JStr (boundary_text boundary))] @ optional ''occurrence'' occurrence"
| "command_fields (Cmd_start_send operationId sender requestId) =
     [(''operationId'', JStr operationId), (''sender'', JStr sender), (''requestId'', JStr requestId)]"
| "command_fields (Cmd_await_send operationId) = [(''operationId'', JStr operationId)]"
| "command_fields (Cmd_restart component) = [(''component'', JStr component)]"
| "command_fields (Cmd_advance_time milliseconds) = [(''milliseconds'', js_int milliseconds)]"
| "command_fields (Cmd_clear_faults target) = (case target of None \<Rightarrow> [] | Some t \<Rightarrow> [(''target'', JStr t)])"
| "command_fields Cmd_assert_quiescent = []"

definition command_value :: "scenario_command \<Rightarrow> jsval" where
  "command_value command = JObj ((''type'', JStr (command_type command)) # command_fields command)"

text \<open>The same command as the evaluator reads it.\<close>

fun invariant_command_of :: "scenario_command \<Rightarrow> invariant_command" where
  "invariant_command_of (Cmd_configure_fault target rule) =
     \<lparr>ic_type = ''configure_fault'', ic_target = Some target, ic_component = None, ic_boundary = None,
      ic_ruleKind = Some (fr_kind rule)\<rparr>"
| "invariant_command_of (Cmd_arm_crash component boundary _) =
     \<lparr>ic_type = ''arm_crash'', ic_target = None, ic_component = Some component,
      ic_boundary = Some (boundary_text boundary), ic_ruleKind = None\<rparr>"
| "invariant_command_of (Cmd_restart component) =
     \<lparr>ic_type = ''restart'', ic_target = None, ic_component = Some component, ic_boundary = None, ic_ruleKind = None\<rparr>"
| "invariant_command_of (Cmd_clear_faults target) =
     \<lparr>ic_type = ''clear_faults'', ic_target = target, ic_component = None, ic_boundary = None, ic_ruleKind = None\<rparr>"
| "invariant_command_of command =
     \<lparr>ic_type = command_type command, ic_target = None, ic_component = None, ic_boundary = None, ic_ruleKind = None\<rparr>"

fun transport_text :: "oracle_transport \<Rightarrow> string" where
  "transport_text Http_transport = ''http''"
| "transport_text Nostr_transport = ''nostr''"

fun proof_state_text :: "oracle_proof_state \<Rightarrow> string" where
  "proof_state_text State_UNSPENT = ''UNSPENT''"
| "proof_state_text State_PENDING = ''PENDING''"
| "proof_state_text State_SPENT = ''SPENT''"

fun receipt_status_text :: "delivery_status \<Rightarrow> string" where
  "receipt_status_text Processing = ''processing''"
| "receipt_status_text Settled = ''settled''"
| "receipt_status_text Rejected = ''rejected''"

fun observation_fields :: "observation \<Rightarrow> (string \<times> jsval) list" where
  "observation_fields (Request_observed r b) = [(''requestId'', JStr r), (''singleUse'', JBool b)]"
| "observation_fields (Delivery_attempted a) =
     [(''requestId'', JStr (at_requestId a)), (''deliveryId'', JStr (at_deliveryId a)),
      (''payloadHash'', JStr (at_payloadHash a)), (''proofSetHash'', JStr (at_proofSetHash a)),
      (''transport'', JStr (transport_text (at_transport a)))]"
| "observation_fields (Mint_proofs_state p st) = [(''proofSetHash'', JStr p), (''state'', JStr (proof_state_text st))]"
| "observation_fields (Redemption_started d p) = [(''deliveryId'', JStr d), (''proofSetHash'', JStr p)]"
| "observation_fields (Receiver_settled d h) = [(''deliveryId'', JStr d), (''replacementPlanHash'', JStr h)]"
| "observation_fields (Merchant_credited c) =
     [(''creditId'', JStr (oc_creditId c)), (''requestId'', JStr (oc_requestId c)),
      (''deliveryId'', JStr (oc_deliveryId c)), (''amount'', js_int (oc_amount c)), (''unit'', JStr (oc_unit c))]"
| "observation_fields (Receipt_observed r) =
     [(''requestId'', JStr (or_requestId r)), (''deliveryId'', JStr (or_deliveryId r)),
      (''payloadHash'', JStr (or_payloadHash r)), (''status'', JStr (receipt_status_text (or_status r))),
      (''detailCode'', JStr (or_detailCode r)), (''version'', js_int (or_version r)),
      (''amount'', js_int (or_amount r)), (''unit'', JStr (or_unit r))]"

definition observation_value :: "observation \<Rightarrow> jsval" where
  "observation_value ob = JObj ((''type'', JStr (observation_type ob)) # observation_fields ob)"

section \<open>The history of a run\<close>

datatype history_phase = Phase_invoked | Phase_observation | Phase_completed

fun phase_text :: "history_phase \<Rightarrow> string" where
  "phase_text Phase_invoked = ''invoked''"
| "phase_text Phase_observation = ''observation''"
| "phase_text Phase_completed = ''completed''"

datatype history_outcome = Outcome_passed | Outcome_failed

record history_event =
  he_sequence :: int
  he_at :: int
  he_phase :: history_phase
  he_actor :: string
  he_event :: string
  he_commandIndex :: nat
  he_outcome :: "history_outcome option"
  he_data :: jsval

text \<open>What a run changes besides its own variables: the driver, the clock, the history, the pending sends with
  the flag that they were awaited.\<close>

record ('d, 'p) run_world =
  rw_driver :: 'd
  rw_scheduler :: "unit scheduler"
  rw_history :: "history_event list"
  rw_operations :: "(string, 'p \<times> bool) jsmap"

definition record_event :: "(nat \<Rightarrow> string) \<Rightarrow> history_phase \<Rightarrow> string \<Rightarrow> string \<Rightarrow> nat \<Rightarrow> history_outcome option \<Rightarrow>
    jsval \<Rightarrow> ('d, 'p) run_world \<Rightarrow> ('d, 'p) run_world" where
  "record_event text_of phase actor event commandIndex outcome data w =
     w\<lparr>rw_history := rw_history w @
       [\<lparr>he_sequence = int (length (rw_history w)), he_at = sd_now (rw_scheduler w), he_phase = phase,
         he_actor = actor, he_event = event, he_commandIndex = commandIndex, he_outcome = outcome,
         he_data = redact text_of data\<rparr>]\<rparr>"

definition on_driver :: "('d, 'e, 'a) eff \<Rightarrow> (('d, 'p) run_world, 'e, 'a) eff" where
  "on_driver m w = (case m (rw_driver w) of (r, d) \<Rightarrow> (r, w\<lparr>rw_driver := d\<rparr>))"

fun command_actor :: "scenario_command \<Rightarrow> string" where
  "command_actor (Cmd_send sender _) = sender"
| "command_actor (Cmd_start_send _ sender _) = sender"
| "command_actor (Cmd_restart component) = component"
| "command_actor (Cmd_arm_crash component _ _) = component"
| "command_actor (Cmd_configure_fault target _) = target"
| "command_actor _ = ''runner''"

definition completeSend :: "(nat \<Rightarrow> string) \<Rightarrow> driver_send_result \<Rightarrow> nat \<Rightarrow> oracle_model \<Rightarrow>
    (('d, 'p) run_world, scenario_error, oracle_model \<times> jsval) eff" where
  "completeSend text_of result commandIndex oracle w =
     (let w' = fold (\<lambda>ob. record_event text_of Phase_observation ''oracle'' (observation_type ob) commandIndex None
          (observation_value ob)) (dsr_observations result) w
      in (Inr (foldl applyObservation oracle (dsr_observations result), dsr_value result), w'))"

definition assertOperationId :: "string \<Rightarrow> ('w, scenario_error, unit) eff" where
  "assertOperationId operationId =
     (if operationId = [] then throw (plain_error ''Scenario operation ID is required'') else ret ())"

definition start_operation :: "('d, 'p) scenario_driver \<Rightarrow> string \<Rightarrow> string \<Rightarrow> string \<Rightarrow>
    (('d, 'p) run_world, scenario_error, jsval) eff" where
  "start_operation driver operationId sender requestId w =
     (if map_of (rw_operations w) operationId \<noteq> None then
        (Inl (plain_error (''Scenario operation '' @ operationId @ '' has already started'')), w)
      else
        (case dv_send driver sender requestId (rw_driver w) of
           (promise, d) \<Rightarrow>
             (Inr (JObj [(''started'', JStr operationId)]),
              w\<lparr>rw_driver := d, rw_operations := mp_set (rw_operations w) operationId (promise, False)\<rparr>)))"

definition await_operation :: "('d, 'p) scenario_driver \<Rightarrow> string \<Rightarrow>
    (('d, 'p) run_world, scenario_error, driver_send_result) eff" where
  "await_operation driver operationId w =
     (case map_of (rw_operations w) operationId of
        None \<Rightarrow> (Inl (plain_error (''Scenario operation '' @ operationId @ '' was not started'')), w)
      | Some (promise, awaited) \<Rightarrow>
          if awaited then (Inl (plain_error (''Scenario operation '' @ operationId @ '' was already awaited'')), w)
          else on_driver (dv_outcome driver promise)
            (w\<lparr>rw_operations := mp_set (rw_operations w) operationId (promise, True)\<rparr>))"

definition advance_clock :: "int \<Rightarrow> (('d, 'p) run_world, scenario_error, unit) eff" where
  "advance_clock milliseconds w =
     (case advanceBy (call_back resolve_promise) milliseconds 10000 (rw_scheduler w) of
        (_, Some message, s) \<Rightarrow> (Inl (plain_error message), w\<lparr>rw_scheduler := s\<rparr>)
      | (_, None, s) \<Rightarrow> (Inr (), w\<lparr>rw_scheduler := s\<rparr>))"

definition clock_value :: "(('d, 'p) run_world, scenario_error, jsval) eff" where
  "clock_value w = (Inr (JObj [(''now'', js_int (sd_now (rw_scheduler w)))]), w)"

definition send_now :: "('d, 'p) scenario_driver \<Rightarrow> string \<Rightarrow> string \<Rightarrow> ('d, scenario_error, driver_send_result) eff" where
  "send_now driver sender requestId d = (case dv_send driver sender requestId d of (promise, d') \<Rightarrow> dv_outcome driver promise d')"

text \<open>\<open>#execute\<close>\<close>

fun execute_command :: "('d, 'p) scenario_driver \<Rightarrow> (nat \<Rightarrow> string) \<Rightarrow> string \<Rightarrow> scenario_command \<Rightarrow> nat \<Rightarrow> oracle_model \<Rightarrow>
    (('d, 'p) run_world, scenario_error, oracle_model \<times> jsval) eff" where
  "execute_command driver text_of seed (Cmd_configure_fault target rule) commandIndex oracle =
     andThen (on_driver (dv_configureFault driver target rule)) (\<lambda>_.
     ret (oracle, JObj [(''configured'', JBool True)]))"
| "execute_command driver text_of seed (Cmd_arm_crash component boundary occurrence) commandIndex oracle =
     (let n = (case occurrence of None \<Rightarrow> 1 | Some k \<Rightarrow> k) in
      case dv_armCrash driver of
        None \<Rightarrow> throw \<lparr>se_name = ''AdapterNotApplicableError'',
          se_message = ''Scenario driver does not provide crash controls''\<rparr>
      | Some armCrash \<Rightarrow>
          andThen (on_driver (armCrash \<lparr>ca_runId = seed, ca_component = component, ca_boundary = boundary, ca_occurrence = n\<rparr>)) (\<lambda>_.
          ret (oracle, JObj [(''armed'', JBool True), (''component'', JStr component),
            (''boundary'', JStr (boundary_text boundary)), (''occurrence'', js_int n)])))"
| "execute_command driver text_of seed (Cmd_send sender requestId) commandIndex oracle =
     andThen (on_driver (send_now driver sender requestId)) (\<lambda>result.
     completeSend text_of result commandIndex oracle)"
| "execute_command driver text_of seed (Cmd_start_send operationId sender requestId) commandIndex oracle =
     andThen (assertOperationId operationId) (\<lambda>_.
     andThen (start_operation driver operationId sender requestId) (\<lambda>v. ret (oracle, v)))"
| "execute_command driver text_of seed (Cmd_await_send operationId) commandIndex oracle =
     andThen (assertOperationId operationId) (\<lambda>_.
     andThen (await_operation driver operationId) (\<lambda>result. completeSend text_of result commandIndex oracle))"
| "execute_command driver text_of seed (Cmd_restart component) commandIndex oracle =
     andThen (on_driver (dv_restart driver component)) (\<lambda>_.
     ret (oracle, JObj [(''restarted'', JStr component)]))"
| "execute_command driver text_of seed (Cmd_advance_time milliseconds) commandIndex oracle =
     andThen (advance_clock milliseconds) (\<lambda>_.
     andThen (case dv_advanceTime driver of None \<Rightarrow> ret () | Some advance \<Rightarrow> on_driver (advance milliseconds)) (\<lambda>_.
     andThen clock_value (\<lambda>v. ret (oracle, v))))"
| "execute_command driver text_of seed (Cmd_clear_faults target) commandIndex oracle =
     andThen (on_driver (dv_clearFaults driver target)) (\<lambda>_.
     ret (oracle, JObj [(''cleared'', JStr (case target of None \<Rightarrow> ''all'' | Some t \<Rightarrow> t))]))"
| "execute_command driver text_of seed Cmd_assert_quiescent commandIndex oracle =
     (case assertQuiescentLiveness oracle of
        Inl v \<Rightarrow> throw (plain_error (violation_text v))
      | Inr _ \<Rightarrow> ret (oracle, JObj [(''quiescent'', JBool True)]))"

section \<open>A run\<close>

definition errorView :: "scenario_error \<Rightarrow> scenario_error" where
  "errorView e = e\<lparr>se_message := redactString (se_message e)\<rparr>"

definition error_value :: "scenario_error \<Rightarrow> jsval" where
  "error_value e = JObj [(''name'', JStr (se_name e)), (''message'', JStr (se_message e))]"

definition capabilitiesView :: "(nat \<Rightarrow> string) \<Rightarrow> jsval \<Rightarrow> jsval" where
  "capabilitiesView text_of v = (case redact text_of v of JObj ps \<Rightarrow> JObj ps | _ \<Rightarrow> JObj [])"

definition metadataRecord :: "jsval \<Rightarrow> (string, string) jsmap" where
  "metadataRecord v =
     (case v of
        JObj ps \<Rightarrow> fold (\<lambda>p m. case snd p of JStr item \<Rightarrow> if item \<noteq> [] then mp_set m (fst p) item else m | _ \<Rightarrow> m) ps []
      | _ \<Rightarrow> [])"

definition prefixed :: "string option \<Rightarrow> string \<Rightarrow> string" where
  "prefixed prefix' name = (case prefix' of None \<Rightarrow> name | Some p \<Rightarrow> p @ ''/'' @ name)"

definition versionedComponent :: "jsval \<Rightarrow> string option \<Rightarrow> (string \<times> string) list" where
  "versionedComponent v prefix' =
     (if \<not> isRecord v then []
      else case js_get v ''implementation'' of
          JStr implementation \<Rightarrow>
            (case js_get v ''version'' of
               JStr version \<Rightarrow>
                 if implementation = [] \<or> version = [] then [] else [(prefixed prefix' implementation, version)]
             | _ \<Rightarrow> [])
        | JObj ps \<Rightarrow>
            (case (js_get (JObj ps) ''id'', js_get (JObj ps) ''version'') of
               (JStr i, JStr version) \<Rightarrow> if i = [] \<or> version = [] then [] else [(prefixed prefix' i, version)]
             | _ \<Rightarrow> [])
        | _ \<Rightarrow> [])"

definition componentVersionsFromCapabilities :: "jsval \<Rightarrow> (string, string) jsmap" where
  "componentVersionsFromCapabilities capabilities =
     fold (\<lambda>(key, version) m. mp_set m key version)
       (versionedComponent capabilities None @ versionedComponent (js_get capabilities ''sender'') (Some ''sender'') @
        versionedComponent (js_get capabilities ''receiver'') (Some ''receiver''))
       (metadataRecord (js_get capabilities ''componentVersions''))"

definition imageDigestsFromCapabilities :: "jsval \<Rightarrow> (string, string) jsmap" where
  "imageDigestsFromCapabilities capabilities = metadataRecord (js_get capabilities ''imageDigests'')"

record failure_artifact =
  fa_schemaVersion :: int
  fa_seed :: string
  fa_scenario :: string
  fa_commands :: "scenario_command list"
  fa_history :: "history_event list"
  fa_capabilities :: jsval
  fa_invariants :: "invariant_result list"
  fa_componentVersions :: "(string, string) jsmap"
  fa_imageDigests :: "(string, string) jsmap"

record scenario_run_result =
  rr_artifact :: failure_artifact
  rr_error :: "scenario_error option"

text \<open>The loop over the commands. The oracle's model is taken over before it is checked.\<close>

fun run_commands :: "('d, 'p) scenario_driver \<Rightarrow> (nat \<Rightarrow> string) \<Rightarrow> string \<Rightarrow> nat \<Rightarrow> scenario_command list \<Rightarrow> oracle_model \<Rightarrow>
    ('d, 'p) run_world \<Rightarrow> (oracle_model \<times> scenario_error option) \<times> ('d, 'p) run_world" where
  "run_commands driver text_of seed commandIndex [] oracle w = ((oracle, None), w)"
| "run_commands driver text_of seed commandIndex (command # commands) oracle w =
     (let actor = command_actor command; event = command_type command;
          w1 = record_event text_of Phase_invoked actor event commandIndex None (command_value command) w;
          stop = (\<lambda>failure. record_event text_of Phase_completed actor event commandIndex (Some Outcome_failed)
            (error_value failure)) in
      case execute_command driver text_of seed command commandIndex oracle w1 of
        (Inl e, w2) \<Rightarrow> ((oracle, Some (errorView e)), stop (errorView e) w2)
      | (Inr (oracle', value), w2) \<Rightarrow>
          (case assertSafety oracle' of
             Inl v \<Rightarrow> let failure = errorView (plain_error (violation_text v)) in ((oracle', Some failure), stop failure w2)
           | Inr _ \<Rightarrow>
               run_commands driver text_of seed (commandIndex + 1) commands oracle'
                 (record_event text_of Phase_completed actor event commandIndex (Some Outcome_passed) value w2)))"

definition unawaited :: "(string, 'p \<times> bool) jsmap \<Rightarrow> string option" where
  "unawaited operations = map_option fst (find (\<lambda>entry. \<not> snd (snd entry)) operations)"

definition invariant_input :: "('d, 'p) scenario_driver \<Rightarrow> string \<Rightarrow> scenario_command list \<Rightarrow> string \<Rightarrow> jsval \<Rightarrow> oracle_model \<Rightarrow>
    history_event list \<Rightarrow> evaluate_input" where
  "invariant_input driver name commands seed capabilities oracle history =
     \<lparr>ei_model = oracle,
      ei_history = map (\<lambda>e. \<lparr>ih_sequence = he_sequence e, ih_phase = phase_text (he_phase e), ih_event = he_event e\<rparr>) history,
      ei_commands = map invariant_command_of commands,
      ei_capabilities = capabilities,
      ei_metadata = Some \<lparr>im_scenarioId = Some name, im_seed = Some seed,
        im_componentVersions = componentVersionsFromCapabilities capabilities\<rparr>,
      ei_profile = None,
      ei_observationConfidence = dv_observationConfidence driver,
      ei_sourceConfidence = dv_sourceConfidence driver\<rparr>"

definition incomplete :: "invariant_result list \<Rightarrow> invariant_id list" where
  "incomplete invariants = map ir_id (filter (\<lambda>r. ir_status r = Inv_failed \<or> ir_status r = Inv_not_observable) invariants)"

definition evaluation_error :: "invariant_id list \<Rightarrow> scenario_error" where
  "evaluation_error ids = \<lparr>se_name = ''InvariantEvaluationError'',
     se_message = ''Invariant evaluation failed or was not observable: '' @ join_text '', '' (map invariant_text ids)\<rparr>"

text \<open>The checks after the loop, up to the evaluation of the invariants.\<close>

definition first_failure :: "oracle_model \<times> scenario_error option \<Rightarrow> (string, 'p \<times> bool) jsmap \<Rightarrow> scenario_error option" where
  "first_failure ended operations =
     (case snd ended of
        Some e \<Rightarrow> Some e
      | None \<Rightarrow>
          (case unawaited operations of
             Some operationId \<Rightarrow> Some (plain_error (''Scenario operation '' @ operationId @ '' was not awaited''))
           | None \<Rightarrow>
               (case assertSafety (fst ended) of
                  Inl v \<Rightarrow> Some (errorView (plain_error (violation_text v)))
                | Inr _ \<Rightarrow> None)))"

definition conclude :: "('d, 'p) scenario_driver \<Rightarrow> string \<Rightarrow> scenario_command list \<Rightarrow> string \<Rightarrow> jsval \<Rightarrow>
    oracle_model \<Rightarrow> scenario_error option \<Rightarrow> history_event list \<Rightarrow> scenario_error + scenario_run_result" where
  "conclude driver name commands seed capabilities oracle failure history =
     (case evaluateInvariants (invariant_input driver name commands seed capabilities oracle history) of
        Inl message \<Rightarrow> Inl (plain_error message)
      | Inr invariants \<Rightarrow>
          Inr \<lparr>rr_artifact =
            \<lparr>fa_schemaVersion = 2, fa_seed = seed, fa_scenario = name, fa_commands = commands, fa_history = history,
             fa_capabilities = capabilities, fa_invariants = invariants,
             fa_componentVersions = componentVersionsFromCapabilities capabilities,
             fa_imageDigests = imageDigestsFromCapabilities capabilities\<rparr>,
            rr_error =
              (case failure of
                 Some e \<Rightarrow> Some e
               | None \<Rightarrow> if incomplete invariants \<noteq> [] then Some (errorView (evaluation_error (incomplete invariants))) else None)\<rparr>)"

definition run_scenario :: "('d, 'p) scenario_driver \<Rightarrow> (nat \<Rightarrow> string) \<Rightarrow> string \<Rightarrow> scenario_command list \<Rightarrow> string \<Rightarrow>
    ('d, scenario_error, scenario_run_result) eff" where
  "run_scenario driver text_of name commands seed d =
     (if name = [] then (Inl (plain_error ''Scenario needs a name''), d)
      else if seed = [] then (Inl (plain_error ''Scenario seed is required''), d)
      else if containsSensitiveData (JArr (map (Some \<circ> command_value) commands)) then
        (Inl (plain_error ''Scenario commands must not contain sensitive payment material''), d)
      else
        let w = (\<lambda>d. \<lparr>rw_driver = d, rw_scheduler = \<lparr>sd_now = 0, sd_sequence = 0, sd_tasks = []\<rparr>, rw_history = [],
          rw_operations = []\<rparr>) in
        case andThen (dv_reset driver seed) (\<lambda>_. dv_capabilities driver) d of
          (Inl e, d') \<Rightarrow>
            (conclude driver name commands seed (JObj []) emptyOracleModel (Some (errorView e)) [], d')
        | (Inr v, d') \<Rightarrow>
            (case run_commands driver text_of seed 0 commands emptyOracleModel (w d') of
               (ended, w') \<Rightarrow>
                 (conclude driver name commands seed (capabilitiesView text_of v) (fst ended)
                    (first_failure ended (rw_operations w')) (rw_history w'),
                  rw_driver w')))"

section \<open>Replay and shrinking\<close>

definition assertReplayableArtifact :: "failure_artifact \<Rightarrow> scenario_error + unit" where
  "assertReplayableArtifact artifact =
     (if fa_schemaVersion artifact \<noteq> 2 then Inl (plain_error ''Unsupported artifact schema version'')
      else if fa_seed artifact = [] \<or> fa_scenario artifact = [] \<or>
          map ir_id (fa_invariants artifact) \<noteq> map id_id INVARIANT_REGISTRY
        then Inl (plain_error ''Invalid replay artifact'')
      else Inr ())"

definition replay :: "('d, 'p) scenario_driver \<Rightarrow> (nat \<Rightarrow> string) \<Rightarrow> failure_artifact \<Rightarrow>
    ('d, scenario_error, scenario_run_result) eff" where
  "replay driver text_of artifact =
     andThen (lift (assertReplayableArtifact artifact)) (\<lambda>_.
     andThen (run_scenario driver text_of (fa_scenario artifact) (fa_commands artifact) (fa_seed artifact)) (\<lambda>result.
     if fa_invariants (rr_artifact result) \<noteq> fa_invariants artifact
     then throw (plain_error ''Recorded invariant evidence does not reproduce'') else ret result))"

definition sameFailure :: "scenario_error \<Rightarrow> scenario_run_result \<Rightarrow> bool" where
  "sameFailure e result \<longleftrightarrow> rr_error result = Some e"

definition fails_again :: "('d, 'p) scenario_driver \<Rightarrow> (nat \<Rightarrow> string) \<Rightarrow> failure_artifact \<Rightarrow> scenario_error \<Rightarrow> 'd failure_test" where
  "fails_again driver text_of artifact e candidate =
     andThen (run_scenario driver text_of (fa_scenario artifact) candidate (fa_seed artifact)) (\<lambda>result.
     ret (sameFailure e result))"

definition shrink :: "('d, 'p) scenario_driver \<Rightarrow> (nat \<Rightarrow> string) \<Rightarrow> failure_artifact \<Rightarrow> int \<Rightarrow>
    ('d, scenario_error, failure_artifact) eff" where
  "shrink driver text_of artifact runLimit =
     andThen (lift (assertReplayableArtifact artifact)) (\<lambda>_.
     andThen (replay driver text_of artifact) (\<lambda>baseline.
     case rr_error baseline of
       None \<Rightarrow> throw (plain_error ''Artifact does not reproduce a failure and cannot be minimized'')
     | Some e \<Rightarrow>
         andThen (minimizeFailingCommands (fa_commands artifact) (fails_again driver text_of artifact e) runLimit) (\<lambda>commands.
         andThen (run_scenario driver text_of (fa_scenario artifact) commands (fa_seed artifact)) (\<lambda>result.
         if \<not> sameFailure e result then throw (plain_error ''Minimized trace did not preserve the original failure'')
         else ret (rr_artifact result)))))"

end
