(* ===== verification/Evidence_Facts.thy ===== *)
theory Evidence_Facts
  imports Oracle_Evidence Oracle_Spec
begin

text \<open>
  Facts about the evaluator's tables and lists: what a map built by grouping holds, which observations
  the selections contain, which texts a regular expression finds.
\<close>

section \<open>Maps built in one pass\<close>

text \<open>A loop that updates the entry of each item's key leaves under a key what the loop over the items
  with that key leaves.\<close>

lemma map_of_keyed_fold:
  "map_of (fold (\<lambda>x m. mp_set m (key x) (f x (map_of m (key x)))) xs m) k =
     fold (\<lambda>x acc. Some (f x acc)) (filter (\<lambda>x. key x = k) xs) (map_of m k)"
  by (induction xs arbitrary: m) auto

lemma mp_ok_keyed_fold: "mp_ok m \<Longrightarrow> mp_ok (fold (\<lambda>x m. mp_set m (key x) (f x (map_of m (key x)))) xs m)"
  by (induction xs arbitrary: m) auto

lemma count_fold:
  "fold (\<lambda>x acc. Some ((case acc of None \<Rightarrow> 0 | Some n \<Rightarrow> n) + 1)) xs acc =
     (if xs = [] then acc else Some ((case acc of None \<Rightarrow> 0 | Some n \<Rightarrow> n) + length xs))" for acc :: "nat option"
  by (induction xs arbitrary: acc) auto

lemma group_fold:
  "fold (\<lambda>x acc. Some ((case acc of None \<Rightarrow> [] | Some ys \<Rightarrow> ys) @ [x])) xs acc =
     (if xs = [] then acc else Some ((case acc of None \<Rightarrow> [] | Some ys \<Rightarrow> ys) @ xs))"
  by (induction xs arbitrary: acc) auto

lemma map_of_countBy:
  "map_of (countBy items key) k =
     (if filter (\<lambda>x. key x = k) items = [] then None else Some (length (filter (\<lambda>x. key x = k) items)))"
  unfolding countBy_def
  by (simp only: map_of_keyed_fold [of key "\<lambda>_ acc. (case acc of None \<Rightarrow> 0 | Some n \<Rightarrow> n) + (1::nat)" items "[]" k] count_fold) simp

lemma map_of_groupedBy:
  "map_of (groupedBy items key) k =
     (if filter (\<lambda>x. key x = k) items = [] then None else Some (filter (\<lambda>x. key x = k) items))"
  unfolding groupedBy_def
  by (simp only: map_of_keyed_fold [of key "\<lambda>x acc. (case acc of None \<Rightarrow> [] | Some xs \<Rightarrow> xs) @ [x]" items "[]" k] group_fold) simp

lemma insert_fold:
  "fold (\<lambda>x acc. Some (List.insert (val x) (case acc of None \<Rightarrow> [] | Some ys \<Rightarrow> ys))) xs (Some vs) =
     Some (fold (List.insert \<circ> val) xs vs)"
  by (induction xs arbitrary: vs) auto

lemma set_fold_insert: "set (fold (List.insert \<circ> val) xs vs) = val ` set xs \<union> set vs"
  by (induction xs arbitrary: vs) auto

lemma distinct_fold_insert: "distinct vs \<Longrightarrow> distinct (fold (List.insert \<circ> val) xs vs)"
  by (induction xs arbitrary: vs) auto

lemma map_of_set_groups:
  "case map_of (set_groups items key val) k of
     None \<Rightarrow> filter (\<lambda>x. key x = k) items = []
   | Some vs \<Rightarrow> distinct vs \<and> set vs = val ` {x \<in> set items. key x = k}"
proof -
  let ?xs = "filter (\<lambda>x. key x = k) items"
  have m: "map_of (set_groups items key val) k =
      fold (\<lambda>x acc. Some (List.insert (val x) (case acc of None \<Rightarrow> [] | Some ys \<Rightarrow> ys))) ?xs None"
    unfolding set_groups_def
    using map_of_keyed_fold [of key "\<lambda>x acc. List.insert (val x) (case acc of None \<Rightarrow> [] | Some xs \<Rightarrow> xs)" items "[]" k]
    by simp
  show ?thesis
  proof (cases ?xs)
    case Nil
    then show ?thesis by (simp add: m)
  next
    case (Cons x xs)
    have s: "set ?xs = {x \<in> set items. key x = k}" by auto
    have "map_of (set_groups items key val) k = Some (fold (List.insert \<circ> val) xs [val x])"
      by (simp add: m Cons insert_fold)
    then show ?thesis
      unfolding s [symmetric] by (simp add: Cons set_fold_insert distinct_fold_insert)
  qed
qed

lemma mp_ok_tables: "mp_ok (countBy items key)" "mp_ok (groupedBy items key)" "mp_ok (set_groups items key val)"
  unfolding countBy_def groupedBy_def set_groups_def
  using mp_ok_keyed_fold [of "[]" key "\<lambda>_ acc. (case acc of None \<Rightarrow> 0 | Some n \<Rightarrow> n) + (1::nat)" items]
    mp_ok_keyed_fold [of "[]" key "\<lambda>x acc. (case acc of None \<Rightarrow> [] | Some xs \<Rightarrow> xs) @ [x]" items]
    mp_ok_keyed_fold [of "[]" key "\<lambda>x acc. List.insert (val x) (case acc of None \<Rightarrow> [] | Some xs \<Rightarrow> xs)" items]
  by simp_all

text \<open>A count above one, and a set with two members.\<close>

lemma entries_ex: "mp_ok m \<Longrightarrow> list_ex P m \<longleftrightarrow> (\<exists>k v. map_of m k = Some v \<and> P (k, v))"
  by (auto simp: list_ex_iff simp flip: in_entries)

lemma some_count_over_one:
  "list_ex (\<lambda>entry. P (fst entry) \<and> snd entry > 1) (countBy items key) \<longleftrightarrow>
     (\<exists>k. P k \<and> 1 < length (filter (\<lambda>x. key x = k) items))"
proof -
  have "(\<exists>n. map_of (countBy items key) k = Some n \<and> P k \<and> 1 < n) \<longleftrightarrow>
      P k \<and> 1 < length (filter (\<lambda>x. key x = k) items)" for k
    by (cases "filter (\<lambda>x. key x = k) items = []") (auto simp: map_of_countBy)
  then show ?thesis
    by (simp only: entries_ex [OF mp_ok_tables(1)] fst_conv snd_conv)
qed

lemma list_ex_values: "list_ex P (mp_values m) \<longleftrightarrow> list_ex (\<lambda>entry. P (snd entry)) m"
  by (simp add: mp_values_def list_ex_iff)

lemma some_value_over_one:
  "list_ex (\<lambda>count. count > 1) (mp_values (countBy items key)) \<longleftrightarrow>
     (\<exists>k. 1 < length (filter (\<lambda>x. key x = k) items))"
  using some_count_over_one [of "\<lambda>_. True" items key] by (simp add: list_ex_values)

lemma two_members: "distinct vs \<Longrightarrow> length vs > 1 \<longleftrightarrow> (\<exists>a\<in>set vs. \<exists>b\<in>set vs. a \<noteq> b)"
  by (cases vs rule: remdups_adj.cases) auto

lemma some_group_over_one:
  "list_ex (\<lambda>vs. length vs > 1) (mp_values (set_groups items key val)) \<longleftrightarrow>
     (\<exists>x\<in>set items. \<exists>y\<in>set items. key x = key y \<and> val x \<noteq> val y)"
proof -
  have "list_ex (\<lambda>vs. length vs > 1) (mp_values (set_groups items key val)) \<longleftrightarrow>
      (\<exists>k vs. map_of (set_groups items key val) k = Some vs \<and> length vs > 1)"
    by (simp only: list_ex_values entries_ex [OF mp_ok_tables(3)] snd_conv)
  also have "\<dots> \<longleftrightarrow> (\<exists>x\<in>set items. \<exists>y\<in>set items. key x = key y \<and> val x \<noteq> val y)"
  proof
    assume "\<exists>k vs. map_of (set_groups items key val) k = Some vs \<and> length vs > 1"
    then obtain k vs where k: "map_of (set_groups items key val) k = Some vs" "length vs > 1" by blast
    then have vs: "distinct vs" "set vs = val ` {x \<in> set items. key x = k}"
      using map_of_set_groups [of key k items val] by simp_all
    obtain a b where "a \<in> set vs" "b \<in> set vs" "a \<noteq> b"
      using k(2) two_members [OF vs(1)] by blast
    then show "\<exists>x\<in>set items. \<exists>y\<in>set items. key x = key y \<and> val x \<noteq> val y"
      unfolding vs(2) by (elim imageE) (metis (mono_tags, lifting) mem_Collect_eq)
  next
    assume "\<exists>x\<in>set items. \<exists>y\<in>set items. key x = key y \<and> val x \<noteq> val y"
    then obtain x y where xy: "x \<in> set items" "y \<in> set items" "key x = key y" "val x \<noteq> val y" by blast
    then obtain vs where vs: "map_of (set_groups items key val) (key y) = Some vs"
      using map_of_set_groups [of key "key y" items val] by (auto simp: filter_empty_conv split: option.splits)
    then have v: "distinct vs" "set vs = val ` {x \<in> set items. key x = key y}"
      using map_of_set_groups [of key "key y" items val] by simp_all
    then have "length vs > 1"
      using xy two_members [OF v(1)] by blast
    then show "\<exists>k vs. map_of (set_groups items key val) k = Some vs \<and> length vs > 1"
      using vs by blast
  qed
  finally show ?thesis .
qed

section \<open>The selections\<close>

lemma in_selections:
  "(r, b) \<in> set (requests_in m) \<longleftrightarrow> Request_observed r b \<in> set (om_observations m)"
  "a \<in> set (attempts_in m) \<longleftrightarrow> Delivery_attempted a \<in> set (om_observations m)"
  "(p, st) \<in> set (proofStates_in m) \<longleftrightarrow> Mint_proofs_state p st \<in> set (om_observations m)"
  "(d, h) \<in> set (settlements_in m) \<longleftrightarrow> Receiver_settled d h \<in> set (om_observations m)"
  "c \<in> set (credits_in m) \<longleftrightarrow> Merchant_credited c \<in> set (om_observations m)"
proof -
  have "(r, b) \<in> set (List.map_filter (\<lambda>ob. case ob of Request_observed r b \<Rightarrow> Some (r, b) | _ \<Rightarrow> None) obs) \<longleftrightarrow>
      Request_observed r b \<in> set obs" for obs
    by (induction obs) (auto simp: map_filter_simps split: observation.splits)
  then show "(r, b) \<in> set (requests_in m) \<longleftrightarrow> Request_observed r b \<in> set (om_observations m)"
    by (simp add: requests_in_def)
  have "a \<in> set (List.map_filter (\<lambda>ob. case ob of Delivery_attempted a \<Rightarrow> Some a | _ \<Rightarrow> None) obs) \<longleftrightarrow>
      Delivery_attempted a \<in> set obs" for obs
    by (induction obs) (auto simp: map_filter_simps split: observation.splits)
  then show "a \<in> set (attempts_in m) \<longleftrightarrow> Delivery_attempted a \<in> set (om_observations m)"
    by (simp add: attempts_in_def)
  have "(p, st) \<in> set (List.map_filter (\<lambda>ob. case ob of Mint_proofs_state p s \<Rightarrow> Some (p, s) | _ \<Rightarrow> None) obs) \<longleftrightarrow>
      Mint_proofs_state p st \<in> set obs" for obs
    by (induction obs) (auto simp: map_filter_simps split: observation.splits)
  then show "(p, st) \<in> set (proofStates_in m) \<longleftrightarrow> Mint_proofs_state p st \<in> set (om_observations m)"
    by (simp add: proofStates_in_def)
  have "(d, h) \<in> set (List.map_filter (\<lambda>ob. case ob of Receiver_settled d h \<Rightarrow> Some (d, h) | _ \<Rightarrow> None) obs) \<longleftrightarrow>
      Receiver_settled d h \<in> set obs" for obs
    by (induction obs) (auto simp: map_filter_simps split: observation.splits)
  then show "(d, h) \<in> set (settlements_in m) \<longleftrightarrow> Receiver_settled d h \<in> set (om_observations m)"
    by (simp add: settlements_in_def)
  have "c \<in> set (List.map_filter (\<lambda>ob. case ob of Merchant_credited c \<Rightarrow> Some c | _ \<Rightarrow> None) obs) \<longleftrightarrow>
      Merchant_credited c \<in> set obs" for obs
    by (induction obs) (auto simp: map_filter_simps split: observation.splits)
  then show "c \<in> set (credits_in m) \<longleftrightarrow> Merchant_credited c \<in> set (om_observations m)"
    by (simp add: credits_in_def)
qed

lemma set_credits_in: "set (credits_in m) = credited (om_observations m)"
  by (simp add: set_eq_iff in_selections credited_def)

lemma receipts_in_received: "receipts_in m = received (om_observations m)"
proof -
  have "List.map_filter (\<lambda>ob. case ob of Receipt_observed r \<Rightarrow> Some r | _ \<Rightarrow> None) obs = received obs" for obs
    unfolding received_def by (induction obs) (auto simp: map_filter_simps split: observation.splits)
  then show ?thesis by (simp add: receipts_in_def)
qed

lemma count_starts:
  "length (filter (\<lambda>x. fst x = d) (redemptions_in m)) = length (filter (is_start d) (om_observations m))"
proof -
  have "length (filter (\<lambda>x. fst x = d)
      (List.map_filter (\<lambda>ob. case ob of Redemption_started d p \<Rightarrow> Some (d, p) | _ \<Rightarrow> None) obs)) =
      length (filter (is_start d) obs)" for obs
    by (induction obs) (auto simp: map_filter_simps split: observation.splits)
  then show ?thesis by (simp add: redemptions_in_def)
qed

lemma singleUse_in_iff: "r \<in> set (singleUse_in m) \<longleftrightarrow> (r, True) \<in> requests_of (om_observations m)"
  by (force simp: singleUse_in_def requests_of_def simp flip: in_selections(1))

section \<open>Latest receipts\<close>

lemma sort_head_in: "xs \<noteq> [] \<Longrightarrow> hd (sort_key f xs) \<in> set xs"
  by (metis hd_in_set length_greater_0_conv length_sort set_sort)

lemma sort_head_least:
  assumes "x \<in> set xs"
  shows "f (hd (sort_key f xs)) \<le> f x"
proof (cases "sort_key f xs")
  case Nil
  with assms show ?thesis by (metis empty_iff list.set(1) set_sort)
next
  case (Cons y ys)
  then have "sorted (map f (y # ys))" "x \<in> set (y # ys)"
    using assms by (metis sorted_sort_key) (metis Cons assms set_sort)
  with Cons show ?thesis by auto
qed

lemma in_latest:
  "r \<in> set (latest_in m) \<longleftrightarrow> (\<exists>d. receipts_for d (om_observations m) \<noteq> [] \<and>
     r = hd (sort_key (\<lambda>r. - or_version r) (receipts_for d (om_observations m))))"
proof -
  have "r \<in> set (latest_in m) \<longleftrightarrow> (\<exists>rs\<in>set (mp_values (groupedBy (received (om_observations m)) or_deliveryId)).
      r = hd (sort_key (\<lambda>r. - or_version r) rs))"
    by (auto simp: latest_in_def latestReceipts_def receipts_in_received)
  also have "\<dots> \<longleftrightarrow> (\<exists>d. receipts_for d (om_observations m) \<noteq> [] \<and>
      r = hd (sort_key (\<lambda>r. - or_version r) (receipts_for d (om_observations m))))"
    by (auto simp: in_mp_values [OF mp_ok_tables(2)] map_of_groupedBy receipts_for_def Bex_def)
  finally show ?thesis .
qed

lemma latest_inD:
  assumes "r \<in> set (latest_in m)"
  shows "r \<in> set (received (om_observations m))"
    and "r' \<in> set (received (om_observations m)) \<Longrightarrow> or_deliveryId r' = or_deliveryId r \<Longrightarrow> or_version r' \<le> or_version r"
proof -
  obtain d where d: "receipts_for d (om_observations m) \<noteq> []"
      "r = hd (sort_key (\<lambda>r. - or_version r) (receipts_for d (om_observations m)))"
    using assms by (auto simp: in_latest)
  then have r: "r \<in> set (receipts_for d (om_observations m))"
    by (simp add: sort_head_in)
  then show "r \<in> set (received (om_observations m))"
    by (simp add: receipts_for_def)
  show "or_version r' \<le> or_version r"
    if "r' \<in> set (received (om_observations m))" "or_deliveryId r' = or_deliveryId r"
  proof -
    have "r' \<in> set (receipts_for d (om_observations m))"
      using that r by (simp add: receipts_for_def)
    from sort_head_least [OF this, of "\<lambda>r. - or_version r"] show ?thesis
      by (simp add: d(2))
  qed
qed

text \<open>Where the receipts of a delivery are safe, a terminal one is the latest.\<close>

lemma terminal_latest:
  assumes safe: "oracle_safe (om_observations m)" and r: "r \<in> set (received (om_observations m))"
    and t: "terminal_status (or_status r)"
  shows "r \<in> set (latest_in m)"
proof -
  let ?rs = "receipts_for (or_deliveryId r) (om_observations m)"
  let ?l = "hd (sort_key (\<lambda>r. - or_version r) ?rs)"
  have in_rs: "r \<in> set ?rs" using r by (simp add: receipts_for_def)
  then have "?rs \<noteq> []" by auto
  then have l: "?l \<in> set ?rs" by (rule sort_head_in)
  then have l': "?l \<in> set (received (om_observations m))" "or_deliveryId ?l = or_deliveryId r"
    by (simp_all add: receipts_for_def)
  have "or_version ?l \<le> or_version r"
    using safe r t l' unfolding oracle_safe_def receipts_ok_def by blast
  moreover have "or_version r \<le> or_version ?l"
    using sort_head_least [OF in_rs, of "\<lambda>r. - or_version r"] by simp
  ultimately have "or_version ?l = or_version r" by simp
  then have "?l = r"
    using safe_versions [OF safe, of "or_deliveryId r"] l in_rs
    by (auto simp: versions_distinct_def inj_on_def)
  then show ?thesis
    using in_rs by (auto simp: in_latest intro!: exI [of _ "or_deliveryId r"])
qed

lemma rejectedReceipts_safe:
  assumes "oracle_safe (om_observations m)"
  shows "rejectedReceipts m \<noteq> [] \<longleftrightarrow> (\<exists>r\<in>set (received (om_observations m)). or_status r = Rejected)"
proof -
  have "r \<in> set (latest_in m) \<longleftrightarrow> r \<in> set (received (om_observations m))" if "or_status r = Rejected" for r
    using terminal_latest [OF assms, of r] latest_inD(1) [of r m] that by (auto simp: terminal_status_def)
  then show ?thesis
    unfolding rejectedReceipts_def filter_empty_conv by blast
qed

section \<open>Texts\<close>

lemma starts_with_append: "starts_with p (p @ s)"
  by (induction p) auto

lemma text_contains_within: "text_contains p (pre @ p @ post)"
proof (induction pre)
  case Nil
  show ?case by (cases "p @ post") (use starts_with_append [of p post] in auto)
qed simp

lemma after_gap_within:
  "CHR 0x0A \<notin> set mid \<Longrightarrow> CHR 0x0D \<notin> set mid \<Longrightarrow> after_gap q (mid @ q @ post)"
proof (induction mid)
  case Nil
  show ?case by (cases "q @ post") (use starts_with_append [of q post] in auto)
qed auto

lemma gapped_within:
  assumes "CHR 0x0A \<notin> set mid" and "CHR 0x0D \<notin> set mid"
  shows "gapped p q (pre @ p @ mid @ q @ post)"
proof (induction pre)
  case Nil
  show ?case
    using starts_with_append [of p "mid @ q @ post"] after_gap_within [OF assms, of q post]
    by (cases "p @ mid @ q @ post") (auto simp: append_eq_Cons_conv)
qed simp

end
