(* ===== verification/Oracle_Verdict.thy ===== *)
theory Oracle_Verdict
  imports Evidence_Facts
begin

text \<open>
  What the evaluator's results mean. Every registered invariant gets one result, in the order of the
  registry. A passed result says that the invariant holds of the observations; for the four invariants
  that are decided by the text of the first violation it says that the first violation is of another
  kind. In a run that asserts quiescence, some result is failed exactly when the run is unsafe or not
  quiescent, or a rejection follows an ambiguous crash, or a role does not declare the profile.
\<close>

section \<open>One result per invariant\<close>

lemma result_fields [simp]:
  "ir_id (passed i c rs) = i" "ir_status (passed i c rs) = Inv_passed"
  "ir_confidence (passed i c rs) = c" "ir_evidence (passed i c rs) = rs" "ir_reason (passed i c rs) = None"
  "ir_id (failed i x rs) = i" "ir_status (failed i x rs) = Inv_failed"
  "ir_confidence (failed i x rs) = Conf_observed" "ir_reason (failed i x rs) = Some x"
  "ir_id (notApplicable i x) = i" "ir_status (notApplicable i x) = Inv_not_applicable"
  "ir_confidence (notApplicable i x) = Conf_derived" "ir_reason (notApplicable i x) = Some x"
  "ir_id (notObservable i x) = i" "ir_status (notObservable i x) = Inv_not_observable"
  "ir_confidence (notObservable i x) = Conf_derived" "ir_reason (notObservable i x) = Some x"
  by (simp_all add: passed_def failed_def notApplicable_def notObservable_def)

lemmas result_defs =
  redemption_result_def request_credit_result_def delivery_credit_result_def proof_set_result_def
  identity_result_def amount_result_def premature_result_def rejection_result_def receipts_result_def
  duplicate_result_def terminal_result_def crash_result_def retry_result_def transport_result_def
  mint_evidence_result_def ledger_evidence_result_def reproducibility_result_def unsupported_result_def

definition results_in :: "evaluate_input \<Rightarrow> invariant_result list" where
  "results_in input = evaluateSafetyAndLiveness input @ evaluateEvidence input"

definition marked :: "evaluate_input \<Rightarrow> invariant_result \<Rightarrow> invariant_result" where
  "marked input result = (if adapterClaimed input result then result\<lparr>ir_confidence := Conf_adapter_claimed\<rparr> else result)"

lemma marked_fields [simp]:
  "ir_id (marked input r) = ir_id r" "ir_status (marked input r) = ir_status r"
  "ir_evidence (marked input r) = ir_evidence r" "ir_reason (marked input r) = ir_reason r"
  by (simp_all add: marked_def)

text \<open>Each block pushes a result of its own invariant, with a reason unless it passed.\<close>

definition made :: "invariant_id \<Rightarrow> invariant_result \<Rightarrow> bool" where
  "made i r \<longleftrightarrow> ir_id r = i \<and> (ir_reason r = None \<longleftrightarrow> ir_status r = Inv_passed)"

lemma made_intros:
  "made i (passed i c rs)" "made i (failed i x rs)" "made i (notApplicable i x)" "made i (notObservable i x)"
  "\<And>b r r'. made i r \<Longrightarrow> made i r' \<Longrightarrow> made i (if b then r else r')"
  "\<And>v r f. made i r \<Longrightarrow> (\<And>y. made i (f y)) \<Longrightarrow> made i (case v of None \<Rightarrow> r | Some y \<Rightarrow> f y)"
  "\<And>v f g. (\<And>y. made i (f y)) \<Longrightarrow> (\<And>y. made i (g y)) \<Longrightarrow> made i (case v of Inl y \<Rightarrow> f y | Inr y \<Rightarrow> g y)"
  "\<And>v f. (\<And>x y. made i (f x y)) \<Longrightarrow> made i (case v of (x, y) \<Rightarrow> f x y)"
  by (auto simp: made_def split: option.split sum.split)

lemma results_made:
  "made At_most_once_redemption_start (redemption_result input)"
  "made At_most_one_merchant_credit_per_request (request_credit_result input)"
  "made At_most_one_merchant_credit_per_delivery (delivery_credit_result input)"
  "made Proof_set_exclusivity (proof_set_result input)"
  "made Delivery_identity_immutability (identity_result input)"
  "made Exact_net_amount (amount_result input)"
  "made No_premature_settlement (premature_result input)"
  "made No_false_rejection_after_possible_consumption (rejection_result input)"
  "made Monotonic_receipts (receipts_result input)"
  "made Stable_duplicate_response (duplicate_result input)"
  "made Eventual_terminal_or_recovery_state (terminal_result input)"
  "made Crash_recovery (crash_result input)"
  "made Retry_convergence (retry_result input)"
  "made Transport_convergence (transport_result input)"
  "made Independent_mint_evidence (mint_evidence_result input)"
  "made Independent_ledger_evidence (ledger_evidence_result input)"
  "made Reproducibility (reproducibility_result input)"
  "made No_unsupported_pass (unsupported_result input)"
  unfolding result_defs Let_def by (intro made_intros)+

lemmas results_id = results_made [unfolded made_def, THEN conjunct1]

lemma results_ids: "map ir_id (results_in input) = map id_id INVARIANT_REGISTRY"
  by (simp add: results_in_def evaluateSafetyAndLiveness_def evaluateEvidence_def results_id
      INVARIANT_REGISTRY_def invariant_entry_def)

lemma results_reason:
  "r \<in> set (results_in input) \<Longrightarrow> ir_reason r = None \<longleftrightarrow> ir_status r = Inv_passed"
  unfolding results_in_def evaluateSafetyAndLiveness_def evaluateEvidence_def
  by (auto simp: results_made [unfolded made_def, THEN conjunct2])

lemma registry_distinct: "distinct (map id_id INVARIANT_REGISTRY)"
  by (simp add: INVARIANT_REGISTRY_def invariant_entry_def)

lemma mp_set_fresh: "k \<notin> fst ` set m \<Longrightarrow> mp_set m k v = m @ [(k, v)]"
  by (induction m) auto

lemma fold_mp_set_distinct:
  "distinct (map fst m @ map f xs) \<Longrightarrow> fold (\<lambda>x m. mp_set m (f x) x) xs m = m @ map (\<lambda>x. (f x, x)) xs"
  by (induction xs arbitrary: m) (auto simp: mp_set_fresh)

lemma map_of_pairs: "distinct (map f xs) \<Longrightarrow> x \<in> set xs \<Longrightarrow> map_of (map (\<lambda>x. (f x, x)) xs) (f x) = Some x"
  by (rule map_of_is_SomeI) (auto simp: comp_def)

lemma traverse_lookup:
  assumes "map g ds = map f xs" and "\<And>x. x \<in> set xs \<Longrightarrow> h (f x) = Some x"
  shows "traverse (\<lambda>d. case h (g d) of None \<Rightarrow> e d | Some x \<Rightarrow> Inr (k x)) ds = Inr (map k xs)"
  using assms
proof (induction xs arbitrary: ds)
  case (Cons x xs)
  then obtain d ds' where "ds = d # ds'" "g d = f x" "map g ds' = map f xs" by auto
  with Cons show ?case by simp
qed simp

lemma evaluateInvariants_eq: "evaluateInvariants input = Inr (map (marked input) (results_in input))"
proof -
  have d: "distinct (map ir_id (results_in input))"
    by (simp add: results_ids registry_distinct)
  have "fold (\<lambda>result m. mp_set m (ir_id result) result) (results_in input) [] =
      map (\<lambda>r. (ir_id r, r)) (results_in input)"
    using fold_mp_set_distinct [of "[]" ir_id "results_in input"] d by simp
  then show ?thesis
    unfolding evaluateInvariants_def Let_def results_in_def [symmetric] marked_def [symmetric]
    by (simp only:) (rule traverse_lookup [OF results_ids [symmetric] map_of_pairs [OF d]])
qed

text \<open>Every input gets a full report: the results stand in the order of the registry, one for each
  invariant, and a result has a reason exactly when it did not pass.\<close>

theorem evaluator_reports_registry:
  "\<exists>results. evaluateInvariants input = Inr results \<and>
     map ir_id results = map id_id INVARIANT_REGISTRY \<and>
     (\<forall>r\<in>set results. ir_reason r = None \<longleftrightarrow> ir_status r = Inv_passed)"
  by (simp add: evaluateInvariants_eq results_ids comp_def results_reason)

section \<open>What a passed invariant says\<close>

abbreviation seen :: "evaluate_input \<Rightarrow> observation list" where
  "seen input \<equiv> om_observations (ei_model input)"

definition one_line :: "string \<Rightarrow> bool" where
  "one_line s \<longleftrightarrow> CHR 0x0A \<notin> set s \<and> CHR 0x0D \<notin> set s"

text \<open>Every delivery of the model ended: its latest receipt is terminal, or says that recovery is blocked
  while its proofs may be consumed.\<close>

definition quiescent :: "oracle_model \<Rightarrow> bool" where
  "quiescent m \<longleftrightarrow> (\<forall>delivery\<in>set (mp_values (om_deliveries m)).
     \<exists>r. latestReceipt (om_observations m) (od_deliveryId delivery) = Some r \<and>
       (terminal_status (or_status r) \<or>
        or_detailCode r = ''recovery_blocked'' \<and> od_proofSetHash delivery \<in> consumed_of (om_observations m)))"

fun invariant_holds :: "invariant_id \<Rightarrow> evaluate_input \<Rightarrow> bool" where
  "invariant_holds At_most_once_redemption_start input \<longleftrightarrow>
     (\<forall>d. length (filter (is_start d) (seen input)) \<le> 1)"
| "invariant_holds At_most_one_merchant_credit_per_request input \<longleftrightarrow>
     (\<forall>r. (r, True) \<in> requests_of (seen input) \<longrightarrow>
        length (filter (\<lambda>c. oc_requestId c = r) (credits_in (ei_model input))) \<le> 1)"
| "invariant_holds At_most_one_merchant_credit_per_delivery input \<longleftrightarrow>
     (\<forall>d. length (filter (\<lambda>c. oc_deliveryId c = d) (credits_in (ei_model input))) \<le> 1)"
| "invariant_holds Proof_set_exclusivity input \<longleftrightarrow> single_valued (owners_of (seen input))"
| "invariant_holds Delivery_identity_immutability input \<longleftrightarrow>
     (\<forall>d. one_line d \<longrightarrow> assertSafety (ei_model input) \<noteq> Inl (Delivery_identity_mutable d))"
| "invariant_holds Exact_net_amount input \<longleftrightarrow>
     (\<forall>r\<in>set (settledReceipts (ei_model input)). \<exists>c.
        filter (\<lambda>c. oc_deliveryId c = or_deliveryId r) (credits_in (ei_model input)) = [c] \<and>
        oc_amount c = or_amount r \<and> oc_unit c = or_unit r)"
| "invariant_holds No_premature_settlement input \<longleftrightarrow>
     (\<forall>r\<in>set (settledReceipts (ei_model input)).
        (\<exists>h. (or_deliveryId r, h) \<in> plans_of (seen input)) \<and>
        length (filter (\<lambda>c. oc_deliveryId c = or_deliveryId r) (credits_in (ei_model input))) = 1)"
| "invariant_holds No_false_rejection_after_possible_consumption input \<longleftrightarrow>
     (\<forall>d. assertSafety (ei_model input) \<noteq> Inl (Rejected_after_consumption d))"
| "invariant_holds Monotonic_receipts input \<longleftrightarrow>
     (\<forall>d v. one_line d \<longrightarrow> assertSafety (ei_model input) \<notin>
        {Inl (Receipt_version_invalid d), Inl (Receipt_version_conflict d v), Inl (Terminal_regressed d)})"
| "invariant_holds Stable_duplicate_response input \<longleftrightarrow>
     (\<forall>d v. one_line d \<longrightarrow> assertSafety (ei_model input) \<notin>
        {Inl (Delivery_identity_mutable d), Inl (Credit_identity_mutable d), Inl (Delivery_credited_twice d),
         Inl (Single_use_credited_twice d), Inl (Redemption_twice d), Inl (Receipt_version_conflict d v)})"
| "invariant_holds Eventual_terminal_or_recovery_state input \<longleftrightarrow> oracle_safe (seen input) \<and> quiescent (ei_model input)"
| "invariant_holds Crash_recovery input \<longleftrightarrow> oracle_safe (seen input)"
| "invariant_holds Retry_convergence input \<longleftrightarrow> oracle_safe (seen input)"
| "invariant_holds Transport_convergence input \<longleftrightarrow> oracle_safe (seen input)"
| "invariant_holds Independent_mint_evidence input \<longleftrightarrow> (\<exists>p st. Mint_proofs_state p st \<in> set (seen input))"
| "invariant_holds Independent_ledger_evidence input \<longleftrightarrow> credited (seen input) \<noteq> {}"
| "invariant_holds Reproducibility input \<longleftrightarrow>
     ei_history input \<noteq> [] \<and>
     (\<forall>i<length (ei_history input). ih_sequence (ei_history input ! i) = int i)"
| "invariant_holds No_unsupported_pass input \<longleftrightarrow>
     (\<exists>s r. roleProfiles (ei_capabilities input) ''sender'' = Some s \<and>
        roleProfiles (ei_capabilities input) ''receiver'' = Some r \<and>
        evaluated_profile input \<in> set s \<inter> set r)"

subsection \<open>Safety and liveness\<close>

lemma safetyFailure_None: "safetyFailure m = None \<longleftrightarrow> oracle_safe (om_observations m)"
  by (simp add: safetyFailure_def assertSafety_correct [symmetric] is_ok_def split: sum.split)

lemma strongest_from_consumed:
  "strongest_from s obs p \<in> {Some State_PENDING, Some State_SPENT} \<longleftrightarrow>
     s \<in> {Some State_PENDING, Some State_SPENT} \<or> p \<in> consumed_of obs"
proof (induction obs arbitrary: s)
  case Nil
  then show ?case by (simp add: consumed_of_def)
next
  case (Cons ob obs)
  have c: "p \<in> consumed_of (ob # obs) \<longleftrightarrow>
      (\<exists>st. ob = Mint_proofs_state p st \<and> st \<noteq> State_UNSPENT) \<or> p \<in> consumed_of obs"
    by (auto simp: consumed_of_def)
  show ?case
  proof (cases "\<exists>st. ob = Mint_proofs_state p st")
    case True
    then obtain st where "ob = Mint_proofs_state p st" by blast
    then show ?thesis
      using Cons.IH c by (cases st) (auto split: option.split)
  next
    case False
    then show ?thesis
      using Cons.IH c by (cases ob) auto
  qed
qed

lemma quiescence_decided:
  "is_ok (assertQuiescentLiveness m) \<longleftrightarrow> oracle_safe (om_observations m) \<and> quiescent m"
proof -
  have "is_ok (case latestReceipt (om_observations m) d of None \<Rightarrow> Inl e
      | Some r \<Rightarrow> if or_status r = Settled \<or> or_status r = Rejected then Inr ()
          else let state = strongestState (om_observations m) p in
            if or_detailCode r = ''recovery_blocked'' \<and> (state = Some State_PENDING \<or> state = Some State_SPENT)
            then Inr () else Inl e') \<longleftrightarrow>
      (\<exists>r. latestReceipt (om_observations m) d = Some r \<and>
        (terminal_status (or_status r) \<or> or_detailCode r = ''recovery_blocked'' \<and> p \<in> consumed_of (om_observations m)))"
    for d p and e e' :: oracle_violation
    using strongest_from_consumed [of None "om_observations m" p]
    by (auto simp: terminal_status_def strongestState_def Let_def split: option.split)
  then show ?thesis
    unfolding assertQuiescentLiveness_def quiescent_def
    by (simp only: is_ok_seq is_ok_each assertSafety_correct)
qed

subsection \<open>The texts the patterns find\<close>

lemma decimal_text_digits: "set (decimal_text n) \<subseteq> set digits"
proof (induction n rule: decimal_text.induct)
  case (1 n)
  have "digits ! k \<in> set digits" if "k < 10" for k
    using that by (intro nth_mem) (simp add: digits_def)
  then show ?case
    using 1 by (subst decimal_text.simps) auto
qed

lemma one_line_texts [simp]:
  "one_line (s @ t) \<longleftrightarrow> one_line s \<and> one_line t" "one_line []"
  "one_line (c # s) \<longleftrightarrow> c \<noteq> CHR 0x0A \<and> c \<noteq> CHR 0x0D \<and> one_line s"
  by (auto simp: one_line_def)

lemma one_line_int: "one_line (int_text i)"
proof -
  have "one_line (decimal_text n)" for n
    using decimal_text_digits [of n] by (auto simp: one_line_def digits_def)
  then show ?thesis by (simp add: int_text_def)
qed

lemma pattern_gapped:
  assumes "s = pre @ p @ mid @ q @ post" and "one_line mid"
  shows "pattern_found s (Gapped p q)"
  using gapped_within [of mid p q pre post] assms by (simp add: one_line_def)

lemma pattern_plain: "s = pre @ p @ post \<Longrightarrow> pattern_found s (Plain p)"
  using text_contains_within [of p pre post] by simp

lemma identity_found: "one_line d \<Longrightarrow> list_ex (pattern_found (violation_text (Delivery_identity_mutable d))) identity_patterns"
  unfolding identity_patterns_def violation_text_def
  by (simp only: list_ex_Nil_iff list_ex_Cons_iff simp_thms)
    (rule pattern_gapped [where pre = "''Oracle safety violation: ''" and mid = d and post = "[]"], simp_all)

lemma rejection_found: "list_ex (pattern_found (violation_text (Rejected_after_consumption d))) rejection_patterns"
  unfolding rejection_patterns_def violation_text_def
  by (simp only: list_ex_Nil_iff list_ex_Cons_iff simp_thms)
    (rule pattern_plain [where pre = "''Oracle safety violation: receipt '' @ d @ '' ''" and post = "'' have been consumed''"], simp)

lemma receipt_found:
  assumes "one_line d"
  shows "list_ex (pattern_found (violation_text (Receipt_version_invalid d))) receipt_patterns"
    and "list_ex (pattern_found (violation_text (Receipt_version_conflict d v))) receipt_patterns"
    and "list_ex (pattern_found (violation_text (Terminal_regressed d))) receipt_patterns"
proof -
  let ?pre = "''Oracle safety violation: ''"
  have "pattern_found (violation_text (Receipt_version_invalid d)) (Gapped ''receipt '' '' invalid version'')"
    by (rule pattern_gapped [where pre = ?pre and mid = "d @ '' has an''" and post = "[]"])
      (use assms in \<open>simp_all add: violation_text_def\<close>)
  moreover have "pattern_found (violation_text (Receipt_version_conflict d v)) (Gapped ''receipt '' '' conflicting'')"
    by (rule pattern_gapped [where pre = ?pre and mid = "d @ '' version '' @ int_text v @ '' is''" and post = "[]"])
      (use assms in \<open>simp_all add: violation_text_def one_line_int\<close>)
  moreover have "pattern_found (violation_text (Terminal_regressed d)) (Gapped ''terminal receipt '' '' regressed'')"
    by (rule pattern_gapped [where pre = ?pre and mid = d and post = "[]"])
      (use assms in \<open>simp_all add: violation_text_def\<close>)
  ultimately show "list_ex (pattern_found (violation_text (Receipt_version_invalid d))) receipt_patterns"
    "list_ex (pattern_found (violation_text (Receipt_version_conflict d v))) receipt_patterns"
    "list_ex (pattern_found (violation_text (Terminal_regressed d))) receipt_patterns"
    by (simp_all only: receipt_patterns_def list_ex_Nil_iff list_ex_Cons_iff simp_thms)
qed

lemma duplicate_found:
  assumes "one_line d"
  shows "list_ex (pattern_found (violation_text (Delivery_identity_mutable d))) duplicate_patterns"
    and "list_ex (pattern_found (violation_text (Credit_identity_mutable d))) duplicate_patterns"
    and "list_ex (pattern_found (violation_text (Delivery_credited_twice d))) duplicate_patterns"
    and "list_ex (pattern_found (violation_text (Single_use_credited_twice d))) duplicate_patterns"
    and "list_ex (pattern_found (violation_text (Redemption_twice d))) duplicate_patterns"
    and "list_ex (pattern_found (violation_text (Receipt_version_conflict d v))) duplicate_patterns"
proof -
  let ?pre = "''Oracle safety violation: ''"
  have i: "pattern_found (violation_text (Delivery_identity_mutable d)) (Plain ''identity is immutable'')"
    "pattern_found (violation_text (Credit_identity_mutable d)) (Plain ''identity is immutable'')"
    by (rule pattern_plain [where pre = "?pre @ ''delivery '' @ d @ '' ''" and post = "[]"], simp add: violation_text_def)
      (rule pattern_plain [where pre = "?pre @ ''credit '' @ d @ '' ''" and post = "[]"], simp add: violation_text_def)
  have c: "pattern_found (violation_text (Delivery_credited_twice d)) (Plain ''one credit'')"
    "pattern_found (violation_text (Single_use_credited_twice d)) (Plain ''one credit'')"
    by (rule pattern_plain [where pre = "?pre @ ''delivery '' @ d @ '' must have at most ''" and post = "[]"], simp add: violation_text_def)
      (rule pattern_plain [where pre = "?pre @ ''single-use request '' @ d @ '' must have at most ''" and post = "[]"], simp add: violation_text_def)
  have r: "pattern_found (violation_text (Redemption_twice d)) (Gapped ''redemption '' '' at most once'')"
    by (rule pattern_gapped [where pre = ?pre and mid = "''for '' @ d @ '' must start''" and post = "[]"])
      (use assms in \<open>simp_all add: violation_text_def\<close>)
  have v: "pattern_found (violation_text (Receipt_version_conflict d v)) (Gapped ''receipt '' '' conflicting'')"
    by (rule pattern_gapped [where pre = ?pre and mid = "d @ '' version '' @ int_text v @ '' is''" and post = "[]"])
      (use assms in \<open>simp_all add: violation_text_def one_line_int\<close>)
  show "list_ex (pattern_found (violation_text (Delivery_identity_mutable d))) duplicate_patterns"
    "list_ex (pattern_found (violation_text (Credit_identity_mutable d))) duplicate_patterns"
    "list_ex (pattern_found (violation_text (Delivery_credited_twice d))) duplicate_patterns"
    "list_ex (pattern_found (violation_text (Single_use_credited_twice d))) duplicate_patterns"
    "list_ex (pattern_found (violation_text (Redemption_twice d))) duplicate_patterns"
    "list_ex (pattern_found (violation_text (Receipt_version_conflict d v))) duplicate_patterns"
    by (simp_all only: duplicate_patterns_def list_ex_Nil_iff list_ex_Cons_iff simp_thms i c r v)
qed

text \<open>A pattern that finds nothing excludes the violations whose text it finds.\<close>

lemma unmatched:
  assumes "matchingSafetyFailure (safetyFailure m) ps = None" and "list_ex (pattern_found (violation_text v)) ps"
  shows "assertSafety m \<noteq> Inl v"
  using assms by (auto simp: matchingSafetyFailure_def safetyFailure_def)

subsection \<open>Passed results\<close>

lemma single_valued_image:
  "single_valued ((\<lambda>a. (f a, g a)) ` S) \<longleftrightarrow> (\<forall>x\<in>S. \<forall>y\<in>S. f x = f y \<longrightarrow> g x = g y)"
proof
  assume v: "single_valued ((\<lambda>a. (f a, g a)) ` S)"
  show "\<forall>x\<in>S. \<forall>y\<in>S. f x = f y \<longrightarrow> g x = g y"
    by (intro ballI impI single_valuedD [OF v]) (auto simp: image_iff)
next
  assume "\<forall>x\<in>S. \<forall>y\<in>S. f x = f y \<longrightarrow> g x = g y"
  then show "single_valued ((\<lambda>a. (f a, g a)) ` S)"
    by (intro single_valuedI) (metis (no_types, lifting) Pair_inject imageE)
qed

lemma owners_single_valued:
  "single_valued (owners_of (om_observations m)) \<longleftrightarrow>
     (\<forall>x\<in>set (attempts_in m). \<forall>y\<in>set (attempts_in m). at_proofSetHash x = at_proofSetHash y \<longrightarrow> at_deliveryId x = at_deliveryId y)"
proof -
  have "{a. Delivery_attempted a \<in> set (om_observations m)} = set (attempts_in m)"
    by (simp add: set_eq_iff in_selections)
  then show ?thesis
    by (simp only: owners_of_def single_valued_image)
qed

lemma passed_redemption:
  "ir_status (redemption_result input) = Inv_passed \<Longrightarrow> invariant_holds At_most_once_redemption_start input"
  unfolding redemption_result_def Let_def some_value_over_one count_starts
  by (simp add: not_less split: if_splits)

lemma passed_request_credit:
  "ir_status (request_credit_result input) = Inv_passed \<Longrightarrow> invariant_holds At_most_one_merchant_credit_per_request input"
  unfolding request_credit_result_def Let_def
    some_count_over_one [of "\<lambda>k. k \<in> set (singleUse_in (ei_model input))"]
  by (simp add: singleUse_in_iff not_less split: if_splits)

lemma passed_delivery_credit:
  "ir_status (delivery_credit_result input) = Inv_passed \<Longrightarrow> invariant_holds At_most_one_merchant_credit_per_delivery input"
  unfolding delivery_credit_result_def Let_def some_value_over_one
  by (simp add: not_less split: if_splits)

lemma passed_proof_set:
  "ir_status (proof_set_result input) = Inv_passed \<Longrightarrow> invariant_holds Proof_set_exclusivity input"
proof -
  assume "ir_status (proof_set_result input) = Inv_passed"
  then have "\<not> list_ex (\<lambda>vs. length vs > 1) (mp_values (set_groups (attempts_in (ei_model input)) at_proofSetHash at_deliveryId))"
    by (simp add: proof_set_result_def Let_def split: if_splits)
  then show ?thesis
    unfolding some_group_over_one invariant_holds.simps owners_single_valued by blast
qed

lemma amount_conflict_iff:
  "\<not> amount_conflict m r \<longleftrightarrow> (\<exists>c. filter (\<lambda>c. oc_deliveryId c = or_deliveryId r) (credits_in m) = [c] \<and>
     oc_amount c = or_amount r \<and> oc_unit c = or_unit r)"
  by (auto simp: amount_conflict_def map_of_groupedBy split: list.splits)

lemma premature_iff:
  "\<not> premature m r \<longleftrightarrow> (\<exists>h. (or_deliveryId r, h) \<in> plans_of (om_observations m)) \<and>
     length (filter (\<lambda>c. oc_deliveryId c = or_deliveryId r) (credits_in m)) = 1"
proof -
  have "or_deliveryId r \<in> set (map fst (settlements_in m)) \<longleftrightarrow> (\<exists>h. (or_deliveryId r, h) \<in> plans_of (om_observations m))"
    by (force simp: plans_of_def simp flip: in_selections)
  then show ?thesis
    by (auto simp: premature_def map_of_countBy)
qed

lemma passed_amount: "ir_status (amount_result input) = Inv_passed \<Longrightarrow> invariant_holds Exact_net_amount input"
  by (simp add: amount_result_def Let_def list_ex_iff amount_conflict_iff split: if_splits)

lemma passed_premature: "ir_status (premature_result input) = Inv_passed \<Longrightarrow> invariant_holds No_premature_settlement input"
  by (simp add: premature_result_def Let_def list_ex_iff premature_iff split: if_splits)

lemma passed_matches:
  "ir_status (identity_result input) = Inv_passed \<Longrightarrow> invariant_holds Delivery_identity_immutability input"
  "ir_status (rejection_result input) = Inv_passed \<Longrightarrow> invariant_holds No_false_rejection_after_possible_consumption input"
  "ir_status (receipts_result input) = Inv_passed \<Longrightarrow> invariant_holds Monotonic_receipts input"
  "ir_status (duplicate_result input) = Inv_passed \<Longrightarrow> invariant_holds Stable_duplicate_response input"
proof -
  assume "ir_status (identity_result input) = Inv_passed"
  then have "matchingSafetyFailure (safetyFailure (ei_model input)) identity_patterns = None"
    by (auto simp: identity_result_def Let_def split: if_splits option.splits)
  from unmatched [OF this] show "invariant_holds Delivery_identity_immutability input"
    by (simp add: identity_found)
next
  assume "ir_status (rejection_result input) = Inv_passed"
  then have "matchingSafetyFailure (safetyFailure (ei_model input)) rejection_patterns = None"
    by (auto simp: rejection_result_def Let_def split: if_splits option.splits)
  from unmatched [OF this] show "invariant_holds No_false_rejection_after_possible_consumption input"
    by (simp add: rejection_found)
next
  assume "ir_status (receipts_result input) = Inv_passed"
  then have "matchingSafetyFailure (safetyFailure (ei_model input)) receipt_patterns = None"
    by (auto simp: receipts_result_def Let_def split: if_splits option.splits)
  from unmatched [OF this] show "invariant_holds Monotonic_receipts input"
    by (simp add: receipt_found)
next
  assume "ir_status (duplicate_result input) = Inv_passed"
  then have "matchingSafetyFailure (safetyFailure (ei_model input)) duplicate_patterns = None"
    by (auto simp: duplicate_result_def Let_def split: if_splits option.splits)
  from unmatched [OF this] show "invariant_holds Stable_duplicate_response input"
    by (simp add: duplicate_found)
qed

lemma passed_liveness:
  "ir_status (terminal_result input) = Inv_passed \<Longrightarrow> invariant_holds Eventual_terminal_or_recovery_state input"
  "ir_status (crash_result input) = Inv_passed \<Longrightarrow> invariant_holds Crash_recovery input"
  "ir_status (retry_result input) = Inv_passed \<Longrightarrow> invariant_holds Retry_convergence input"
  "ir_status (transport_result input) = Inv_passed \<Longrightarrow> invariant_holds Transport_convergence input"
proof -
  assume "ir_status (terminal_result input) = Inv_passed"
  then have "is_ok (assertQuiescentLiveness (ei_model input))"
    by (simp add: terminal_result_def Let_def split: if_splits sum.splits)
  then show "invariant_holds Eventual_terminal_or_recovery_state input"
    by (simp add: quiescence_decided)
qed (simp_all add: crash_result_def retry_result_def transport_result_def Let_def safetyFailure_None [symmetric]
      split: if_splits option.splits)

lemma passed_evidence:
  "ir_status (mint_evidence_result input) = Inv_passed \<Longrightarrow> invariant_holds Independent_mint_evidence input"
  "ir_status (ledger_evidence_result input) = Inv_passed \<Longrightarrow> invariant_holds Independent_ledger_evidence input"
  "ir_status (reproducibility_result input) = Inv_passed \<Longrightarrow> invariant_holds Reproducibility input"
  "ir_status (unsupported_result input) = Inv_passed \<Longrightarrow> invariant_holds No_unsupported_pass input"
proof -
  assume "ir_status (mint_evidence_result input) = Inv_passed"
  then have "proofStates_in (ei_model input) \<noteq> []"
    by (auto simp: mint_evidence_result_def Let_def split: if_splits)
  then obtain p st where "(p, st) \<in> set (proofStates_in (ei_model input))"
    by (cases "proofStates_in (ei_model input)") auto
  then show "invariant_holds Independent_mint_evidence input"
    by (auto simp: in_selections)
next
  assume "ir_status (ledger_evidence_result input) = Inv_passed"
  then show "invariant_holds Independent_ledger_evidence input"
    by (auto simp: ledger_evidence_result_def Let_def set_empty [symmetric] set_credits_in simp del: set_empty
        split: if_splits)
next
  assume "ir_status (reproducibility_result input) = Inv_passed"
  then show "invariant_holds Reproducibility input"
    by (auto simp: reproducibility_result_def reproducible_def list_all_length nth_enumerate_eq split: if_splits)
next
  assume "ir_status (unsupported_result input) = Inv_passed"
  then show "invariant_holds No_unsupported_pass input"
    by (auto simp: unsupported_result_def Let_def split: option.splits if_splits)
qed

lemma passed_holds:
  assumes "r \<in> set (results_in input)" and "ir_status r = Inv_passed"
  shows "invariant_holds (ir_id r) input"
proof -
  have "list_all (\<lambda>r. ir_status r = Inv_passed \<longrightarrow> invariant_holds (ir_id r) input) (results_in input)"
    unfolding results_in_def evaluateSafetyAndLiveness_def evaluateEvidence_def append_Cons append_Nil list.pred_inject results_id
    by (intro conjI list.pred_inject(1) impI passed_redemption passed_request_credit passed_delivery_credit passed_proof_set passed_amount
        passed_premature passed_matches passed_liveness passed_evidence) assumption+
  then show ?thesis
    using assms by (simp add: list_all_iff)
qed

text \<open>
  C21: Every input gets a full report and no pass in it is empty: the evaluator returns one result for each
  invariant of the registry, in its order, and a result that passed states a fact of the observations.
  At most one redemption per delivery, one credit per delivery and per single-use request, one owner
  per proof set, the exact amount and the recovered outputs behind every settled receipt are then
  true of the run; the convergence invariants and the recovery after a crash say that the whole run is
  safe, the quiescence invariant that every delivery ended; and for the four invariants read from the
  text of the safety check, that its first violation is none of theirs.
\<close>
theorem evaluator_passes_hold:
  "\<exists>results. evaluateInvariants input = Inr results \<and>
     map ir_id results = map id_id INVARIANT_REGISTRY \<and>
     list_all (\<lambda>r. ir_status r = Inv_passed \<longrightarrow> ir_reason r = None \<and> invariant_holds (ir_id r) input) results"
  by (simp add: evaluateInvariants_eq results_ids comp_def list_all_iff passed_holds results_reason)

section \<open>The verdict on a run\<close>

text \<open>A declared role does not support the profile that was run.\<close>

definition profile_undeclared :: "evaluate_input \<Rightarrow> bool" where
  "profile_undeclared input \<longleftrightarrow>
     (case (roleProfiles (ei_capabilities input) ''sender'', roleProfiles (ei_capabilities input) ''receiver'') of
        (Some s, Some r) \<Rightarrow> evaluated_profile input \<notin> set s \<inter> set r
      | _ \<Rightarrow> False)"

lemma at_most_one:
  assumes "distinct (map f xs)" and "\<And>x y. x \<in> set xs \<Longrightarrow> y \<in> set xs \<Longrightarrow> P x \<Longrightarrow> P y \<Longrightarrow> f x = f y"
  shows "length (filter P xs) \<le> 1"
proof -
  have "distinct (map f (filter P xs))"
    using assms(1) by (simp add: distinct_map_filter)
  moreover have "set (map f (filter P xs)) \<subseteq> {f (hd (filter P xs))}"
  proof
    fix z
    assume "z \<in> set (map f (filter P xs))"
    then obtain x where x: "x \<in> set (filter P xs)" "z = f x" by auto
    then have "hd (filter P xs) \<in> set (filter P xs)" by (metis empty_iff empty_set hd_in_set)
    with x show "z \<in> {f (hd (filter P xs))}" using assms(2) by auto
  qed
  ultimately have "length (map f (filter P xs)) \<le> card {f (hd (filter P xs))}"
    by (metis card_mono distinct_card finite.emptyI finite.insertI)
  then show ?thesis by simp
qed

lemma credits_okD:
  assumes "credits_ok obs" and "c \<in> credited obs" and "c' \<in> credited obs"
  shows "oc_deliveryId c = oc_deliveryId c' \<Longrightarrow> oc_creditId c = oc_creditId c'"
    and "oc_requestId c = oc_requestId c' \<Longrightarrow> (oc_requestId c', True) \<in> requests_of obs \<Longrightarrow> oc_creditId c = oc_creditId c'"
  using assms unfolding credits_ok_def by blast+

text \<open>On a safe run where each credit is observed once the counts of the evaluator are at most one.\<close>

lemma safe_counts:
  assumes safe: "oracle_safe (om_observations m)" and once: "distinct (map oc_creditId (credits_in m))"
  shows "length (filter (\<lambda>c. oc_deliveryId c = d) (credits_in m)) \<le> 1"
    and "(r, True) \<in> requests_of (om_observations m) \<Longrightarrow>
      length (filter (\<lambda>c. oc_requestId c = r) (credits_in m)) \<le> 1"
    and "length (filter (is_start d) (om_observations m)) \<le> 1"
proof -
  have c: "credits_ok (om_observations m)" using safe by (simp add: oracle_safe_def)
  show "length (filter (\<lambda>c. oc_deliveryId c = d) (credits_in m)) \<le> 1"
    by (rule at_most_one [OF once], rule credits_okD(1) [OF c]) (simp_all add: set_credits_in)
  show "length (filter (\<lambda>c. oc_requestId c = r) (credits_in m)) \<le> 1"
    if "(r, True) \<in> requests_of (om_observations m)"
    by (rule at_most_one [OF once], rule credits_okD(2) [OF c]) (use that in \<open>simp_all add: set_credits_in\<close>)
  show "length (filter (is_start d) (om_observations m)) \<le> 1"
    using safe by (simp add: oracle_safe_def scan_ok_def redemptions_ok_def)
qed

lemma safe_settlement:
  assumes safe: "oracle_safe (om_observations m)" and once: "distinct (map oc_creditId (credits_in m))"
    and r: "r \<in> set (settledReceipts m)"
  shows "\<not> amount_conflict m r" and "\<not> premature m r"
proof -
  have r: "r \<in> set (received (om_observations m))" "or_status r = Settled"
    using r latest_inD(1) [of r m] by (auto simp: settledReceipts_def)
  then obtain c where c: "c \<in> credited (om_observations m)" "oc_deliveryId c = or_deliveryId r"
      "oc_amount c = or_amount r" "oc_unit c = or_unit r"
    using safe unfolding oracle_safe_def receipts_ok_def by blast
  let ?cs = "filter (\<lambda>c. oc_deliveryId c = or_deliveryId r) (credits_in m)"
  have "c \<in> set ?cs" "length ?cs \<le> 1"
    using c safe_counts(1) [OF safe once] by (simp_all add: set_credits_in)
  then have cs: "?cs = [c]" by (cases ?cs) auto
  have "\<exists>h. (or_deliveryId r, h) \<in> plans_of (om_observations m)"
    using safe c(1) unfolding oracle_safe_def credits_ok_def c(2) [symmetric] by blast
  with cs c show "\<not> amount_conflict m r" "\<not> premature m r"
    by (simp_all add: amount_conflict_iff premature_iff)
qed

lemma safe_not_failed:
  assumes safe: "oracle_safe (seen input)" and once: "distinct (map oc_creditId (credits_in (ei_model input)))"
  shows "ir_status (redemption_result input) \<noteq> Inv_failed"
    and "ir_status (request_credit_result input) \<noteq> Inv_failed"
    and "ir_status (delivery_credit_result input) \<noteq> Inv_failed"
    and "ir_status (proof_set_result input) \<noteq> Inv_failed"
    and "ir_status (amount_result input) \<noteq> Inv_failed"
    and "ir_status (premature_result input) \<noteq> Inv_failed"
proof -
  let ?m = "ei_model input"
  have "\<not> list_ex (\<lambda>count. count > 1) (mp_values (countBy (redemptions_in ?m) fst))"
    using safe_counts(3) [OF safe once] unfolding some_value_over_one count_starts by (simp add: not_less)
  then show "ir_status (redemption_result input) \<noteq> Inv_failed"
    by (simp add: redemption_result_def Let_def)
  have "\<not> list_ex (\<lambda>entry. fst entry \<in> set (singleUse_in ?m) \<and> snd entry > 1) (countBy (credits_in ?m) oc_requestId)"
    unfolding some_count_over_one [of "\<lambda>k. k \<in> set (singleUse_in ?m)"]
    using safe_counts(2) [OF safe once] by (meson not_less singleUse_in_iff)
  then show "ir_status (request_credit_result input) \<noteq> Inv_failed"
    by (simp add: request_credit_result_def Let_def)
  have "\<not> list_ex (\<lambda>count. count > 1) (mp_values (countBy (credits_in ?m) oc_deliveryId))"
    using safe_counts(1) [OF safe once] unfolding some_value_over_one by (simp add: not_less)
  then show "ir_status (delivery_credit_result input) \<noteq> Inv_failed"
    by (simp add: delivery_credit_result_def Let_def)
  have "single_valued (owners_of (seen input))"
    using safe by (simp add: oracle_safe_def scan_ok_def)
  then have "\<not> list_ex (\<lambda>vs. length vs > 1) (mp_values (set_groups (attempts_in ?m) at_proofSetHash at_deliveryId))"
    unfolding some_group_over_one owners_single_valued by blast
  then show "ir_status (proof_set_result input) \<noteq> Inv_failed"
    by (simp add: proof_set_result_def Let_def)
  show "ir_status (amount_result input) \<noteq> Inv_failed" "ir_status (premature_result input) \<noteq> Inv_failed"
    using safe_settlement [OF safe once]
    by (simp_all add: amount_result_def premature_result_def Let_def list_ex_iff)
qed

lemma safe_matches_nothing:
  assumes "oracle_safe (seen input)"
  shows "ir_status (identity_result input) \<noteq> Inv_failed" "ir_status (receipts_result input) \<noteq> Inv_failed"
    "ir_status (duplicate_result input) \<noteq> Inv_failed" "ir_status (crash_result input) \<noteq> Inv_failed"
    "ir_status (retry_result input) \<noteq> Inv_failed" "ir_status (transport_result input) \<noteq> Inv_failed"
    "ir_status (rejection_result input) = Inv_failed \<longleftrightarrow>
       ambiguousReceiverCrash (ei_commands input) \<and> rejectedReceipts (ei_model input) \<noteq> []"
  using assms
  by (auto simp: safetyFailure_None [symmetric] matchingSafetyFailure_def identity_result_def receipts_result_def
      duplicate_result_def crash_result_def retry_result_def transport_result_def rejection_result_def Let_def)

lemma evidence_not_failed:
  "ir_status (mint_evidence_result input) \<noteq> Inv_failed" "ir_status (ledger_evidence_result input) \<noteq> Inv_failed"
  "ir_status (reproducibility_result input) \<noteq> Inv_failed"
  "ir_status (unsupported_result input) = Inv_failed \<longleftrightarrow> profile_undeclared input"
  by (simp_all add: mint_evidence_result_def ledger_evidence_result_def reproducibility_result_def
      unsupported_result_def profile_undeclared_def Let_def split: option.split)

lemma terminal_failed:
  assumes "quiescence_asserted (ei_commands input)" and "attempts_in (ei_model input) \<noteq> []"
  shows "ir_status (terminal_result input) = Inv_failed \<longleftrightarrow> \<not> (oracle_safe (seen input) \<and> quiescent (ei_model input))"
  using assms unfolding quiescence_decided [symmetric]
  by (simp add: terminal_result_def Let_def is_ok_def split: sum.split)

lemma some_failed:
  "list_ex (\<lambda>r. ir_status r = Inv_failed) (results_in input) \<longleftrightarrow>
     list_ex (\<lambda>r. ir_status r = Inv_failed)
       [redemption_result input, request_credit_result input, delivery_credit_result input,
        proof_set_result input, amount_result input, premature_result input, identity_result input,
        receipts_result input, duplicate_result input, crash_result input, retry_result input,
        transport_result input, rejection_result input, terminal_result input] \<or> profile_undeclared input"
  by (auto simp: results_in_def evaluateSafetyAndLiveness_def evaluateEvidence_def evidence_not_failed)

text \<open>
  C20: The verdict on a run is exact. In a scenario that asserts quiescence and attempted a delivery, with
  each credit observed once, the report has a failed invariant exactly when the observations are not
  safe or some delivery of the model did not end, or a rejection was observed although the scenario
  crashed the receiver where the mint may have taken the proofs, or a role that declares its profiles
  does not declare the one that was run.
\<close>
theorem evaluator_verdict_exact:
  assumes "quiescence_asserted (ei_commands input)" and "attempts_in (ei_model input) \<noteq> []"
    and "distinct (map oc_creditId (credits_in (ei_model input)))"
  shows "\<exists>results. evaluateInvariants input = Inr results \<and>
    (list_ex (\<lambda>r. ir_status r = Inv_failed) results \<longleftrightarrow>
       \<not> (oracle_safe (seen input) \<and> quiescent (ei_model input)) \<or>
       (ambiguousReceiverCrash (ei_commands input) \<and> (\<exists>r\<in>set (received (seen input)). or_status r = Rejected)) \<or>
       profile_undeclared input)"
proof -
  have "list_ex (\<lambda>r. ir_status r = Inv_failed) (results_in input) \<longleftrightarrow>
      \<not> (oracle_safe (seen input) \<and> quiescent (ei_model input)) \<or>
      (ambiguousReceiverCrash (ei_commands input) \<and> (\<exists>r\<in>set (received (seen input)). or_status r = Rejected)) \<or>
      profile_undeclared input"
  proof (cases "oracle_safe (seen input)")
    case False
    then show ?thesis
      using terminal_failed [OF assms(1,2)] by (simp add: some_failed)
  next
    case True
    then show ?thesis
      unfolding some_failed
      by (auto simp: safe_not_failed [OF True assms(3)] safe_matches_nothing [OF True] terminal_failed [OF assms(1,2)]
          rejectedReceipts_safe [OF True])
  qed
  then show ?thesis
    by (simp add: evaluateInvariants_eq list_ex_iff)
qed

definition demo_attempt :: "string \<Rightarrow> attempted_delivery" where
  "demo_attempt d = \<lparr>at_requestId = ''q'', at_deliveryId = d, at_payloadHash = ''p'', at_proofSetHash = ''s'',
     at_transport = Http_transport\<rparr>"

definition demo_credit :: oracle_credit where
  "demo_credit = \<lparr>oc_creditId = ''c'', oc_requestId = ''q'', oc_deliveryId = ''d'', oc_amount = 8, oc_unit = ''sat''\<rparr>"

definition settled_observations :: "observation list" where
  "settled_observations =
     [Request_observed ''q'' True, Delivery_attempted (demo_attempt ''d''), Redemption_started ''d'' ''s'',
      Mint_proofs_state ''s'' State_SPENT, Receiver_settled ''d'' ''h'', Merchant_credited demo_credit,
      Receipt_observed (demo_observed Settled 2)]"

definition asserting_input :: "observation list \<Rightarrow> evaluate_input" where
  "asserting_input obs =
     \<lparr>ei_model = foldl applyObservation emptyOracleModel obs,
      ei_history = [\<lparr>ih_sequence = 0, ih_phase = ''invoked'', ih_event = ''send''\<rparr>],
      ei_commands = [\<lparr>ic_type = ''assert_quiescent'', ic_target = None, ic_component = None, ic_boundary = None,
        ic_ruleKind = None\<rparr>],
      ei_capabilities = JUndef, ei_metadata = None, ei_profile = None, ei_observationConfidence = None,
      ei_sourceConfidence = []\<rparr>"

lemma evaluator_verdict_exact_witness:
  "\<exists>results. evaluateInvariants (asserting_input settled_observations) = Inr results \<and>
     \<not> list_ex (\<lambda>r. ir_status r = Inv_failed) results"
proof -
  let ?i = "asserting_input settled_observations"
  have "quiescence_asserted (ei_commands ?i)" "attempts_in (ei_model ?i) \<noteq> []"
    "distinct (map oc_creditId (credits_in (ei_model ?i)))"
    by code_simp+
  moreover have "is_ok (assertQuiescentLiveness (ei_model ?i))" by code_simp
  then have "oracle_safe (seen ?i) \<and> quiescent (ei_model ?i)" by (simp only: quiescence_decided)
  moreover have "\<not> ambiguousReceiverCrash (ei_commands ?i)" "\<not> profile_undeclared ?i" by code_simp+
  ultimately show ?thesis
    using evaluator_verdict_exact [of ?i] by auto
qed

lemma evaluator_passes_hold_witness:
  "\<exists>results. evaluateInvariants (asserting_input settled_observations) = Inr results \<and>
     (\<exists>r\<in>set results. ir_id r = Exact_net_amount \<and> ir_status r = Inv_passed) \<and>
     invariant_holds Exact_net_amount (asserting_input settled_observations)"
proof -
  let ?i = "asserting_input settled_observations"
  obtain results where res: "evaluateInvariants ?i = Inr results"
      "list_all (\<lambda>r. ir_status r = Inv_passed \<longrightarrow> ir_reason r = None \<and> invariant_holds (ir_id r) ?i) results"
    using evaluator_passes_hold [of ?i] by blast
  have "marked ?i (amount_result ?i) \<in> set results"
    using res(1) by (auto simp: evaluateInvariants_eq results_in_def evaluateSafetyAndLiveness_def)
  moreover have "ir_status (amount_result ?i) = Inv_passed" by code_simp
  ultimately show ?thesis
    using res unfolding list_all_iff
    by (intro exI [of _ results] conjI bexI [of _ "marked ?i (amount_result ?i)"])
      (use res in \<open>force simp: list_all_iff results_id\<close>)+
qed

text \<open>
  The four invariants that are read from the text of the safety check see its first violation only. Here a
  proof set gets a second owner and then two receipts of one version disagree: the check stops at the
  first, and the report says that the receipts are monotonic.
\<close>

definition masked_observations :: "observation list" where
  "masked_observations =
     [Delivery_attempted (demo_attempt ''d''), Delivery_attempted (demo_attempt ''e''),
      Receipt_observed (demo_observed Settled 1), Receipt_observed (demo_observed Rejected 1)]"

theorem first_violation_masks_receipts:
  "\<not> single_valued (versions_of (seen (asserting_input masked_observations))) \<and>
   (\<exists>results. evaluateInvariants (asserting_input masked_observations) = Inr results \<and>
      (\<exists>r\<in>set results. ir_id r = Monotonic_receipts \<and> ir_status r = Inv_passed))"
proof
  have "received (seen (asserting_input masked_observations)) = [demo_observed Settled 1, demo_observed Rejected 1]"
    by code_simp
  then have "((''d'', 1), demo_observed Settled 1) \<in> versions_of (seen (asserting_input masked_observations))"
    "((''d'', 1), demo_observed Rejected 1) \<in> versions_of (seen (asserting_input masked_observations))"
    by (simp_all add: versions_of_def demo_observed_def)
  moreover have "demo_observed Settled 1 \<noteq> demo_observed Rejected 1"
    by (simp add: demo_observed_def)
  ultimately show "\<not> single_valued (versions_of (seen (asserting_input masked_observations)))"
    by (meson single_valuedD)
  have "receipts_result (asserting_input masked_observations) \<in> set (results_in (asserting_input masked_observations))"
    by (simp add: results_in_def evaluateSafetyAndLiveness_def)
  moreover have "ir_status (receipts_result (asserting_input masked_observations)) = Inv_passed"
    by code_simp
  ultimately show "\<exists>results. evaluateInvariants (asserting_input masked_observations) = Inr results \<and>
      (\<exists>r\<in>set results. ir_id r = Monotonic_receipts \<and> ir_status r = Inv_passed)"
    by (force simp: evaluateInvariants_eq results_id)
qed

section \<open>Confidence\<close>

text \<open>A result the evaluator calls observed or derived rests on no evidence that the adapter only claims; and
  when the adapter claims the observations themselves, no result is called observed.\<close>

lemma trusted_results:
  assumes "evaluateInvariants input = Inr results" and "r \<in> set results" and "ir_confidence r \<noteq> Conf_adapter_claimed"
  shows "\<forall>e\<in>set (ir_evidence r). map_of (ei_sourceConfidence input) (er_source e) \<noteq> Some Conf_adapter_claimed"
    and "ei_observationConfidence input = Some Conf_adapter_claimed \<Longrightarrow> ir_confidence r = Conf_derived"
  using assms
  by (auto simp: evaluateInvariants_eq marked_def adapterClaimed_def list_ex_iff split: if_splits)
    (metis evidence_confidence.exhaust)

end
