(* ===== verification/Runner_Properties.thy ===== *)
theory Runner_Properties
  imports Scenario_Runner Oracle_Verdict
begin

text \<open>
  What a scenario run establishes: a run that passed is safe, quiet where it asserted quiescence, awaited
  every send it started, and its report has no failed and no unobservable invariant. Whatever the
  outcome, the history numbers its events without a gap, repeats the oracle's observations in order,
  and carries no payment secret.
\<close>

section \<open>The history\<close>

definition observed_events :: "history_event list \<Rightarrow> string list" where
  "observed_events history = map he_event (filter (\<lambda>e. he_phase e = Phase_observation) history)"

definition passed_events :: "history_event list \<Rightarrow> string list" where
  "passed_events history = map he_event (filter (\<lambda>e. he_outcome e = Some Outcome_passed) history)"

definition fed :: "oracle_model \<Rightarrow> bool" where
  "fed oracle \<longleftrightarrow> oracle = foldl applyObservation emptyOracleModel (om_observations oracle)"

definition run_recorded :: "(nat \<Rightarrow> string) \<Rightarrow> string list \<Rightarrow> oracle_model \<Rightarrow> ('d, 'p) run_world \<Rightarrow> bool" where
  "run_recorded t evs oracle w \<longleftrightarrow>
     map he_sequence (rw_history w) = map int [0..<length (rw_history w)] \<and>
     observed_events (rw_history w) = map observation_type (om_observations oracle) \<and>
     passed_events (rw_history w) = evs \<and> fed oracle \<and>
     list_all (\<lambda>e. he_data e \<in> range (redact t)) (rw_history w)"

lemma record_event_world [simp]:
  "rw_driver (record_event t ph a ev i out data w) = rw_driver w"
  "rw_scheduler (record_event t ph a ev i out data w) = rw_scheduler w"
  "rw_operations (record_event t ph a ev i out data w) = rw_operations w"
  by (simp_all add: record_event_def)

lemma record_event_ok:
  "run_recorded t evs oracle w \<Longrightarrow> ph \<noteq> Phase_observation \<Longrightarrow>
     run_recorded t (if out = Some Outcome_passed then evs @ [ev] else evs) oracle (record_event t ph a ev i out data w)"
  by (simp add: run_recorded_def record_event_def observed_events_def passed_events_def)

lemma run_recorded_start:
  "run_recorded t [] emptyOracleModel \<lparr>rw_driver = d, rw_scheduler = s, rw_history = [], rw_operations = ops\<rparr>"
  by (simp add: run_recorded_def observed_events_def passed_events_def fed_def emptyOracleModel_def)

lemma applyObservation_appends: "om_observations (applyObservation m ob) = om_observations m @ [ob]"
  by (simp add: applyObservation_def)

lemma observations_fed:
  "om_observations (foldl applyObservation m obs) = om_observations m @ obs"
  by (induction obs arbitrary: m) (simp_all add: applyObservation_appends)

lemma observing_operations [simp]:
  "rw_operations (fold (\<lambda>ob. record_event t Phase_observation ''oracle'' (observation_type ob) i None
      (observation_value ob)) obs w) = rw_operations w"
  by (induction obs arbitrary: w) simp_all

lemma observations_recorded:
  "run_recorded t evs oracle w \<Longrightarrow> run_recorded t evs (foldl applyObservation oracle obs)
      (fold (\<lambda>ob. record_event t Phase_observation ''oracle'' (observation_type ob) i None (observation_value ob)) obs w)"
  by (induction obs rule: rev_induct)
    (simp_all add: run_recorded_def record_event_def observed_events_def passed_events_def fed_def applyObservation_appends)

lemma completeSend_ok:
  assumes "run_recorded t evs oracle w" and "completeSend t result i oracle w = (r, w')"
  shows "\<exists>oracle' v. r = Inr (oracle', v) \<and> run_recorded t evs oracle' w' \<and> rw_operations w' = rw_operations w"
  using assms(2) observations_recorded [OF assms(1)] by (auto simp: completeSend_def Let_def)

lemma on_driver_world:
  "on_driver m w = (r, w') \<Longrightarrow> rw_history w' = rw_history w \<and> rw_operations w' = rw_operations w"
  by (auto simp: on_driver_def split: prod.splits)

lemma advance_clock_world:
  "advance_clock ms w = (r, w') \<Longrightarrow> rw_history w' = rw_history w \<and> rw_operations w' = rw_operations w"
  by (auto simp: advance_clock_def split: prod.splits option.splits)

text \<open>What the pending sends become: a start adds one, an await marks one, no other command changes them.\<close>

fun operations_after :: "scenario_command \<Rightarrow> (string, 'p \<times> bool) jsmap \<Rightarrow> (string, 'p \<times> bool) jsmap \<Rightarrow> bool" where
  "operations_after (Cmd_start_send k _ _) ops ops' \<longleftrightarrow>
     k \<noteq> [] \<and> map_of ops k = None \<and> (\<exists>p. ops' = mp_set ops k (p, False))"
| "operations_after (Cmd_await_send k) ops ops' \<longleftrightarrow>
     k \<noteq> [] \<and> (\<exists>p. map_of ops k = Some (p, False) \<and> ops' = mp_set ops k (p, True))"
| "operations_after _ ops ops' \<longleftrightarrow> ops' = ops"

lemma execute_command_ok:
  assumes ok: "run_recorded t evs oracle w" and "execute_command driver t seed command i oracle w = (r, w')"
  shows "case r of Inl _ \<Rightarrow> run_recorded t evs oracle w'
     | Inr (oracle', v) \<Rightarrow> run_recorded t evs oracle' w' \<and> operations_after command (rw_operations w) (rw_operations w')"
proof (cases command)
  case (Cmd_send s q)
  obtain r1 w1 where a: "on_driver (send_now driver s q) w = (r1, w1)" by fastforce
  note w1 = on_driver_world [OF a]
  have ok1: "run_recorded t evs oracle w1" using ok w1 by (simp add: run_recorded_def)
  show ?thesis
  proof (cases r1)
    case (Inl e)
    then have "r = Inl e" "w' = w1" using assms(2) Cmd_send a by (simp_all add: andThen_Inl)
    then show ?thesis using ok1 by simp
  next
    case (Inr res)
    then have c: "completeSend t res i oracle w1 = (r, w')" using assms(2) Cmd_send a by (simp add: andThen_Inr)
    show ?thesis
      using completeSend_ok [OF ok1 c] w1 Cmd_send by auto
  qed
next
  case (Cmd_await_send k)
  show ?thesis
  proof (cases "k = []")
    case True
    then show ?thesis using assms Cmd_await_send by (auto simp: assertOperationId_def throw_def)
  next
    case False
    obtain r1 w1 where a: "await_operation driver k w = (r1, w1)" by fastforce
    then have e: "andThen (await_operation driver k) (\<lambda>result. completeSend t result i oracle) w = (r, w')"
      using assms(2) Cmd_await_send False by (simp add: assertOperationId_def)
    show ?thesis
    proof (cases "\<exists>p. map_of (rw_operations w) k = Some (p, False)")
      case True
      then obtain p where p: "map_of (rw_operations w) k = Some (p, False)" by blast
      let ?w0 = "w\<lparr>rw_operations := mp_set (rw_operations w) k (p, True)\<rparr>"
      have "on_driver (dv_outcome driver p) ?w0 = (r1, w1)" using a p by (simp add: await_operation_def)
      then have w1: "rw_history w1 = rw_history w" "rw_operations w1 = mp_set (rw_operations w) k (p, True)"
        using on_driver_world [of "dv_outcome driver p" ?w0 r1 w1] by simp_all
      have ok1: "run_recorded t evs oracle w1" using ok w1 by (simp add: run_recorded_def)
      show ?thesis
      proof (cases r1)
        case (Inl er)
        then have "r = Inl er" "w' = w1" using e a by (simp_all add: andThen_Inl)
        then show ?thesis using ok1 by simp
      next
        case (Inr res)
        then have c: "completeSend t res i oracle w1 = (r, w')" using e a by (simp add: andThen_Inr)
        show ?thesis
          using completeSend_ok [OF ok1 c] w1 Cmd_await_send False p by auto
      qed
    next
      case no: False
      have "\<exists>er. await_operation driver k w = (Inl er, w)"
      proof (cases "map_of (rw_operations w) k")
        case (Some entry)
        with no show ?thesis by (cases entry) (auto simp: await_operation_def)
      qed (simp add: await_operation_def)
      then show ?thesis using e ok by (auto simp: andThen_Inl)
    qed
  qed
next
  case (Cmd_start_send k s q)
  show ?thesis
  proof (cases "k = [] \<or> map_of (rw_operations w) k \<noteq> None")
    case True
    then show ?thesis
      using assms Cmd_start_send
      by (auto simp: assertOperationId_def throw_def ret_def start_operation_def andThen_def attempt_def split: if_splits)
  next
    case False
    then have n: "k \<noteq> []" "map_of (rw_operations w) k = None" by blast+
    obtain p d where p: "dv_send driver s q (rw_driver w) = (p, d)" by fastforce
    let ?w1 = "w\<lparr>rw_driver := d, rw_operations := mp_set (rw_operations w) k (p, False)\<rparr>"
    have "r = Inr (oracle, JObj [(''started'', JStr k)])" "w' = ?w1"
      using assms(2) Cmd_start_send n p
      by (simp_all add: assertOperationId_def start_operation_def andThen_def attempt_def ret_def)
    then show ?thesis
      using ok Cmd_start_send n by (auto simp: run_recorded_def)
  qed
next
  case (Cmd_advance_time ms)
  obtain r1 w1 where a: "advance_clock ms w = (r1, w1)" by fastforce
  note w1 = advance_clock_world [OF a]
  show ?thesis
    using assms Cmd_advance_time a w1
    by (cases r1; cases "dv_advanceTime driver")
      (auto simp: andThen_def attempt_def throw_def ret_def clock_value_def run_recorded_def
        dest!: on_driver_world split: prod.splits sum.splits)
qed (use assms in \<open>auto simp: andThen_def attempt_def throw_def ret_def run_recorded_def Let_def
      dest!: on_driver_world split: prod.splits sum.splits option.splits\<close>)

section \<open>The loop over the commands\<close>

lemma run_commands_history:
  assumes "run_commands driver t seed i commands oracle w = ((oracle', f), w')" and "run_recorded t evs oracle w"
  shows "\<exists>evs'. run_recorded t evs' oracle' w' \<and> (f = None \<longrightarrow> evs' = evs @ map command_type commands)"
  using assms
proof (induction commands arbitrary: i "oracle" w evs)
  case Nil
  then show ?case by auto
next
  case (Cons command commands)
  let ?a = "command_actor command" and ?e = "command_type command"
  let ?w1 = "record_event t Phase_invoked ?a ?e i None (command_value command) w"
  have ok1: "run_recorded t evs oracle ?w1"
    using record_event_ok [OF Cons.prems(2), of Phase_invoked None] by simp
  obtain r w2 where x: "execute_command driver t seed command i oracle ?w1 = (r, w2)" by fastforce
  note step = execute_command_ok [OF ok1 x]
  have stop: "run_recorded t evs m (record_event t Phase_completed ?a ?e i (Some Outcome_failed) data w2)"
    if "run_recorded t evs m w2" for m data
    using record_event_ok [OF that, of Phase_completed "Some Outcome_failed"] by simp
  show ?case
  proof (cases r)
    case (Inl er)
    then show ?thesis
      using Cons.prems(1) x step stop by (auto simp: Let_def)
  next
    case (Inr ov)
    then obtain m v where r: "r = Inr (m, v)" by (cases ov) simp
    then have ok2: "run_recorded t evs m w2" using step by simp
    show ?thesis
    proof (cases "assertSafety m")
      case (Inl viol)
      then show ?thesis
        using Cons.prems(1) x r stop [OF ok2] by (auto simp: Let_def)
    next
      case (Inr u)
      let ?w3 = "record_event t Phase_completed ?a ?e i (Some Outcome_passed) v w2"
      have "run_commands driver t seed (i + 1) commands m ?w3 = ((oracle', f), w')"
        using Cons.prems(1) x r Inr by (simp add: Let_def)
      moreover have "run_recorded t (evs @ [?e]) m ?w3"
        using record_event_ok [OF ok2, of Phase_completed "Some Outcome_passed"] by simp
      ultimately obtain evs' where "run_recorded t evs' oracle' w'" "f = None \<longrightarrow> evs' = (evs @ [?e]) @ map command_type commands"
        using Cons.IH by blast
      then show ?thesis by auto
    qed
  qed
qed

section \<open>Every send is awaited\<close>

text \<open>The pending sends against the two sets of the dependency check: the keys in order of their start, and
  the flag set on those that were awaited.\<close>

definition pending_rel :: "string list \<Rightarrow> string list \<Rightarrow> (string, 'p \<times> bool) jsmap \<Rightarrow> bool" where
  "pending_rel begun awaited ops \<longleftrightarrow> mp_ok ops \<and> map fst ops = begun \<and> distinct awaited \<and>
     set awaited = {k. \<exists>p. map_of ops k = Some (p, True)}"

lemma keys_mp_set_present: "map_of m k \<noteq> None \<Longrightarrow> map fst (mp_set m k v) = map fst m"
  by (induction m) auto

lemma pending_after:
  assumes "pending_rel begun awaited ops" and "operations_after command ops ops'"
    and "\<And>begun awaited. pending_rel begun awaited ops' \<Longrightarrow> dependencies_from begun awaited commands"
  shows "dependencies_from begun awaited (command # commands)"
proof -
  have keys: "k \<in> set begun \<longleftrightarrow> map_of ops k \<noteq> None" for k
    using assms(1) by (force simp: pending_rel_def map_of_eq_None_iff)
  show ?thesis
  proof (cases command)
    case (Cmd_start_send k s q)
    then obtain p where p: "k \<noteq> []" "map_of ops k = None" "ops' = mp_set ops k (p, False)"
      using assms(2) by auto
    then have "map fst ops' = begun @ [k]"
      using assms(1) mp_set_fresh [of k ops] by (auto simp: pending_rel_def map_of_eq_None_iff)
    then have "pending_rel (begun @ [k]) awaited ops'"
      using assms(1) p by (auto simp: pending_rel_def)
    then show ?thesis using Cmd_start_send p keys [of k] assms(3) by simp
  next
    case (Cmd_await_send k)
    then obtain p where p: "k \<noteq> []" "map_of ops k = Some (p, False)" "ops' = mp_set ops k (p, True)"
      using assms(2) by auto
    then have "pending_rel begun (awaited @ [k]) ops'"
      using assms(1) keys_mp_set_present [of ops k] by (auto simp: pending_rel_def)
    then show ?thesis
      using Cmd_await_send p keys [of k] assms(1,3) by (auto simp: pending_rel_def)
  qed (use assms in auto)
qed

lemma pending_all_awaited:
  assumes "pending_rel begun awaited ops" and "unawaited ops = None"
  shows "length begun = length awaited"
proof -
  have "snd (snd e)" if "e \<in> set ops" for e
    using assms(2) that by (cases e) (auto simp: unawaited_def find_None_iff)
  then have "set awaited = fst ` set ops"
    using assms(1) by (force simp: pending_rel_def mp_ok_def dest: map_of_SomeD)
  moreover have "distinct begun" "set begun = fst ` set ops"
    using assms(1) by (force simp: pending_rel_def mp_ok_def)+
  ultimately show ?thesis
    using assms(1) by (metis distinct_card pending_rel_def)
qed

lemma run_commands_dependencies:
  assumes "run_commands driver t seed i commands oracle w = ((oracle', None), w')"
    and "run_recorded t evs oracle w" and "unawaited (rw_operations w') = None"
    and "pending_rel begun awaited (rw_operations w)"
  shows "dependencies_from begun awaited commands"
  using assms
proof (induction commands arbitrary: i "oracle" w evs begun awaited)
  case Nil
  then show ?case using pending_all_awaited by simp
next
  case (Cons command commands)
  let ?a = "command_actor command" and ?e = "command_type command"
  let ?w1 = "record_event t Phase_invoked ?a ?e i None (command_value command) w"
  have ok1: "run_recorded t evs oracle ?w1"
    using record_event_ok [OF Cons.prems(2), of Phase_invoked None] by simp
  obtain r w2 where x: "execute_command driver t seed command i oracle ?w1 = (r, w2)" by fastforce
  obtain m v u where r: "r = Inr (m, v)" and u: "assertSafety m = Inr u"
    using Cons.prems(1) x by (auto simp: Let_def split: sum.splits)
  let ?w3 = "record_event t Phase_completed ?a ?e i (Some Outcome_passed) v w2"
  have ok2: "run_recorded t evs m w2" and ops: "operations_after command (rw_operations w) (rw_operations w2)"
    using execute_command_ok [OF ok1 x] r by simp_all
  have rest: "run_commands driver t seed (i + 1) commands m ?w3 = ((oracle', None), w')"
    using Cons.prems(1) x r u by (simp add: Let_def)
  show ?case
  proof (rule pending_after [OF Cons.prems(4) ops])
    fix begun awaited
    assume "pending_rel begun awaited (rw_operations w2)"
    then show "dependencies_from begun awaited commands"
      using Cons.IH [OF rest record_event_ok [OF ok2] Cons.prems(3)] by simp
  qed
qed

section \<open>A run that passed\<close>

lemma observe_no_attempt:
  "om_deliveries m = [] \<Longrightarrow> (\<And>a. ob \<noteq> Delivery_attempted a) \<Longrightarrow> om_deliveries (applyObservation m ob) = []"
  by (cases ob) (auto simp: applyObservation_def split: option.split)

lemma om_deliveries_none:
  "om_deliveries m = [] \<Longrightarrow> (\<And>a. Delivery_attempted a \<notin> set obs) \<Longrightarrow> om_deliveries (foldl applyObservation m obs) = []"
proof (induction obs arbitrary: m)
  case (Cons ob obs)
  have "om_deliveries (applyObservation m ob) = []"
    by (rule observe_no_attempt [OF Cons.prems(1)]) (use Cons.prems(2) in auto)
  with Cons show ?case by simp
qed simp

lemma fed_quiescent: "fed m \<Longrightarrow> attempts_in m = [] \<Longrightarrow> quiescent m"
  using om_deliveries_none [of emptyOracleModel "om_observations m"] in_selections(2) [of _ m]
  by (simp add: fed_def quiescent_def emptyOracleModel_def mp_values_def)

lemma quiescence_command: "Cmd_assert_quiescent \<in> set commands \<Longrightarrow> quiescence_asserted (map invariant_command_of commands)"
  by (force simp: quiescence_asserted_def list_ex_iff)

lemma conclude_passed:
  assumes "conclude driver name commands seed cap m failure h = Inr result" and "rr_error result = None"
  shows "failure = None" and "fa_history (rr_artifact result) = h" and "fa_capabilities (rr_artifact result) = cap"
    and "evaluateInvariants (invariant_input driver name commands seed cap m h) = Inr (fa_invariants (rr_artifact result))"
    and "list_all (\<lambda>r. ir_status r \<noteq> Inv_failed \<and> ir_status r \<noteq> Inv_not_observable) (fa_invariants (rr_artifact result))"
  using assms
  by (auto simp: conclude_def incomplete_def list_all_iff filter_empty_conv split: sum.splits option.splits if_splits)

lemma passed_or_not_applicable:
  assumes "evaluateInvariants input = Inr results"
    and "list_all (\<lambda>r. ir_status r \<noteq> Inv_failed \<and> ir_status r \<noteq> Inv_not_observable) results"
  shows "list_all (\<lambda>r. ir_status r = Inv_passed \<and> invariant_holds (ir_id r) input \<or> ir_status r = Inv_not_applicable) results"
  unfolding list_all_iff
proof
  fix r
  assume r: "r \<in> set results"
  then obtain r' where "r' \<in> set (results_in input)" "ir_id r = ir_id r'" "ir_status r = ir_status r'"
    using assms(1) by (auto simp: evaluateInvariants_eq)
  then show "ir_status r = Inv_passed \<and> invariant_holds (ir_id r) input \<or> ir_status r = Inv_not_applicable"
    using passed_holds [of r' input] r assms(2) by (cases "ir_status r") (auto simp: list_all_iff)
qed

definition initial_world :: "'d \<Rightarrow> ('d, 'p) run_world" where
  "initial_world d = \<lparr>rw_driver = d, rw_scheduler = \<lparr>sd_now = 0, sd_sequence = 0, sd_tasks = []\<rparr>, rw_history = [],
     rw_operations = []\<rparr>"

lemma initial_recorded: "run_recorded t [] emptyOracleModel (initial_world d)"
  by (simp add: initial_world_def run_recorded_start)

text \<open>A run that returns an artifact stopped at the reset, or executed commands.\<close>

lemma run_scenario_cases:
  assumes "run_scenario driver t name commands seed d = (Inr result, d')"
  obtains (guarded) e where "\<not> containsSensitiveData (JArr (map (Some \<circ> command_value) commands))"
      "conclude driver name commands seed (JObj []) emptyOracleModel (Some e) [] = Inr result"
    | (ran) v d1 m f w' where "\<not> containsSensitiveData (JArr (map (Some \<circ> command_value) commands))"
      "run_commands driver t seed 0 commands emptyOracleModel (initial_world d1) = ((m, f), w')"
      "conclude driver name commands seed (capabilitiesView t v) m (first_failure (m, f) (rw_operations w')) (rw_history w') =
         Inr result"
proof -
  obtain r d1 where a: "andThen (dv_reset driver seed) (\<lambda>_. dv_capabilities driver) d = (r, d1)"
    by fastforce
  have guards: "name \<noteq> []" "seed \<noteq> []" "\<not> containsSensitiveData (JArr (map (Some \<circ> command_value) commands))"
    using assms by (auto simp: run_scenario_def split: if_splits)
  show ?thesis
  proof (cases r)
    case (Inl e)
    then show ?thesis
      using assms guards a by (intro guarded [of "errorView e"]) (simp_all add: run_scenario_def Let_def)
  next
    case (Inr v)
    obtain m f w' where "run_commands driver t seed 0 commands emptyOracleModel (initial_world d1) = ((m, f), w')"
      by (metis surj_pair)
    with Inr show ?thesis
      using assms guards a by (intro ran [of d1 m f w' v]) (simp_all add: run_scenario_def Let_def initial_world_def)
  qed
qed

lemma run_scenario_world:
  assumes "run_scenario driver t name commands seed d = (Inr result, d')" and "rr_error result = None"
  obtains v d1 m w' where "run_commands driver t seed 0 commands emptyOracleModel (initial_world d1) = ((m, None), w')"
    and "unawaited (rw_operations w') = None" and "is_ok (assertSafety m)"
    and "conclude driver name commands seed (capabilitiesView t v) m None (rw_history w') = Inr result"
  using assms(1)
proof (cases rule: run_scenario_cases)
  case (guarded e)
  from conclude_passed(1) [OF guarded(2) assms(2)] show ?thesis by simp
next
  case (ran v d1 m f w')
  note ff = conclude_passed(1) [OF ran(3) assms(2)]
  then have "f = None" "unawaited (rw_operations w') = None" "is_ok (assertSafety m)"
    by (auto simp: first_failure_def is_ok_def split: option.splits sum.splits)
  then show ?thesis using that ran ff by metis
qed


text \<open>A driver whose every send gives the observations of a settled payment.\<close>

definition demo_capabilities :: jsval where
  "demo_capabilities = JObj
     [(''sender'', JObj [(''implementation'', JStr ''demo''), (''version'', JStr ''1''),
        (''role'', JObj [(''profiles'', JArr [Some (JStr ''delivery-v1'')])])]),
      (''receiver'', JObj [(''implementation'', JStr ''demo''), (''version'', JStr ''1''),
        (''role'', JObj [(''profiles'', JArr [Some (JStr ''delivery-v1'')])])])]"

definition demo_driver :: "(unit, unit) scenario_driver" where
  "demo_driver =
     \<lparr>dv_observationConfidence = None, dv_sourceConfidence = [], dv_reset = (\<lambda>_. ret ()),
      dv_capabilities = ret demo_capabilities, dv_configureFault = (\<lambda>_ _. ret ()), dv_send = (\<lambda>_ _ d. ((), d)),
      dv_outcome = (\<lambda>_. ret \<lparr>dsr_value = JNull, dsr_observations = settled_observations\<rparr>),
      dv_restart = (\<lambda>_. ret ()), dv_clearFaults = (\<lambda>_. ret ()), dv_advanceTime = None, dv_armCrash = None\<rparr>"

definition demo_scenario :: "scenario_command list" where
  "demo_scenario = [Cmd_start_send ''o'' ''alice'' ''q'', Cmd_await_send ''o'', Cmd_assert_quiescent]"

definition demo_model :: oracle_model where
  "demo_model = foldl applyObservation emptyOracleModel settled_observations"

lemma demo_checks:
  "assertSafety emptyOracleModel = Inr ()" "assertSafety demo_model = Inr ()" "assertQuiescentLiveness demo_model = Inr ()"
  "containsSensitiveData (JArr (map (Some \<circ> command_value) demo_scenario)) = False"
  "capabilitiesView (\<lambda>_. []) demo_capabilities = demo_capabilities"
  by code_simp+

lemma demo_ended:
  obtains w' where "run_commands demo_driver t s 0 demo_scenario emptyOracleModel
      \<lparr>rw_driver = d, rw_scheduler = sch, rw_history = [], rw_operations = []\<rparr> = ((demo_model, None), w')"
    and "rw_operations w' = [(''o'', ((), True))]"
  by (simp add: demo_scenario_def demo_driver_def Let_def andThen_def attempt_def ret_def assertOperationId_def
      start_operation_def await_operation_def on_driver_def completeSend_def demo_checks
      demo_model_def [symmetric])

text \<open>Of the results only the one on reproducibility reads the history.\<close>

lemma history_fields:
  "ei_model (input\<lparr>ei_history := h\<rparr>) = ei_model input" "ei_commands (input\<lparr>ei_history := h\<rparr>) = ei_commands input"
  "ei_capabilities (input\<lparr>ei_history := h\<rparr>) = ei_capabilities input" "ei_profile (input\<lparr>ei_history := h\<rparr>) = ei_profile input"
  "ei_observationConfidence (input\<lparr>ei_history := h\<rparr>) = ei_observationConfidence input"
  by simp_all

lemma history_unread:
  "evaluateSafetyAndLiveness (input\<lparr>ei_history := h\<rparr>) = evaluateSafetyAndLiveness input"
  "mint_evidence_result (input\<lparr>ei_history := h\<rparr>) = mint_evidence_result input"
  "ledger_evidence_result (input\<lparr>ei_history := h\<rparr>) = ledger_evidence_result input"
  "unsupported_result (input\<lparr>ei_history := h\<rparr>) = unsupported_result input"
  unfolding evaluateSafetyAndLiveness_def result_defs obs_confidence_def retryApplies_def evaluated_profile_def history_fields
  by (rule refl)+

lemma safety_ids: "r \<in> set (evaluateSafetyAndLiveness input) \<Longrightarrow> ir_id r \<noteq> Reproducibility"
  by (auto simp: evaluateSafetyAndLiveness_def results_id)

lemma history_matters_once:
  assumes "incomplete (results_in input) = [Reproducibility]"
    and "ir_status (reproducibility_result (input\<lparr>ei_history := h\<rparr>)) = Inv_passed"
  shows "incomplete (results_in (input\<lparr>ei_history := h\<rparr>)) = []"
proof -
  have "ir_status r \<noteq> Inv_failed \<and> ir_status r \<noteq> Inv_not_observable" 
    if "r \<in> set (results_in input)" "ir_id r \<noteq> Reproducibility" for r
  proof (rule ccontr)
    assume "\<not> ?thesis"
    then have "ir_id r \<in> set (incomplete (results_in input))" using that by (auto simp: incomplete_def)
    with assms(1) that(2) show False by simp
  qed
  moreover have "set (results_in (input\<lparr>ei_history := h\<rparr>)) \<subseteq>
      {r \<in> set (results_in input). ir_id r \<noteq> Reproducibility} \<union> {reproducibility_result (input\<lparr>ei_history := h\<rparr>)}"
    using safety_ids [of _ input] by (auto simp: results_in_def evaluateEvidence_def history_unread results_id)
  ultimately show ?thesis
    using assms(2) by (fastforce simp: incomplete_def filter_empty_conv)
qed

lemma demo_verdict:
  "incomplete (results_in (invariant_input demo_driver ''smoke'' demo_scenario ''7'' demo_capabilities demo_model [])) =
     [Reproducibility]"
  by code_simp

lemma reproducible_history:
  assumes "run_recorded t evs m w" and "evs \<noteq> []"
  shows "ir_status (reproducibility_result (invariant_input demo_driver ''smoke'' demo_scenario ''7'' demo_capabilities m'
    (rw_history w))) = Inv_passed"
proof -
  have "rw_history w \<noteq> []" using assms by (auto simp: run_recorded_def passed_events_def)
  moreover have "he_sequence (rw_history w ! i) = int i" if "i < length (rw_history w)" for i
  proof -
    have "map he_sequence (rw_history w) ! i = map int [0..<length (rw_history w)] ! i"
      using assms(1) by (simp add: run_recorded_def)
    with that show ?thesis by simp
  qed
  moreover have "componentVersionsFromCapabilities demo_capabilities \<noteq> []" by code_simp
  ultimately show ?thesis
    by (auto simp: reproducibility_result_def reproducible_def invariant_input_def list_all_length nth_enumerate_eq)
qed

lemma demo_run_passes:
  obtains result where "run_scenario demo_driver (\<lambda>_. []) ''smoke'' demo_scenario ''7'' () = (Inr result, ())"
    and "rr_error result = None"
proof -
  let ?w = "\<lparr>rw_driver = (), rw_scheduler = \<lparr>sd_now = 0, sd_sequence = 0, sd_tasks = []\<rparr>, rw_history = [], rw_operations = []\<rparr>"
  obtain w' where run: "run_commands demo_driver (\<lambda>_. []) ''7'' 0 demo_scenario emptyOracleModel ?w = ((demo_model, None), w')"
      and ops: "rw_operations w' = [(''o'', ((), True))]"
    by (rule demo_ended)
  let ?i = "invariant_input demo_driver ''smoke'' demo_scenario ''7'' demo_capabilities demo_model"
  have h: "?i (rw_history w') = (?i [])\<lparr>ei_history := ei_history (?i (rw_history w'))\<rparr>"
    by (simp add: invariant_input_def)
  from run_commands_history [OF run run_recorded_start] have "run_recorded (\<lambda>_. []) (map command_type demo_scenario) demo_model w'" by auto
  then have "ir_status (reproducibility_result (?i (rw_history w'))) = Inv_passed"
    by (rule reproducible_history) (simp add: demo_scenario_def)
  then have "incomplete (results_in (?i (rw_history w'))) = []"
    using history_matters_once [OF demo_verdict, of "ei_history (?i (rw_history w'))"] h by metis
  then have inc: "incomplete (map (marked (?i (rw_history w'))) (results_in (?i (rw_history w')))) = []"
    by (simp add: incomplete_def filter_empty_conv)
  have "dv_reset demo_driver s d = (Inr (), d)" "dv_capabilities demo_driver d = (Inr demo_capabilities, d)" for s d
    by (simp_all add: demo_driver_def ret_def)
  then have "run_scenario demo_driver (\<lambda>_. []) ''smoke'' demo_scenario ''7'' () =
      (conclude demo_driver ''smoke'' demo_scenario ''7'' demo_capabilities demo_model None (rw_history w'), ())"
    using run ops
    by (simp add: run_scenario_def demo_checks andThen_Inr first_failure_def unawaited_def
        del: containsSensitiveData.simps)
  then show ?thesis
    using inc that by (simp add: conclude_def evaluateInvariants_eq)
qed


section \<open>What leaves a run\<close>

lemma conclude_artifact:
  assumes "conclude driver name commands seed cap m failure h = Inr result"
  shows "fa_history (rr_artifact result) = h" "fa_capabilities (rr_artifact result) = cap"
    "fa_commands (rr_artifact result) = commands"
  using assms by (auto simp: conclude_def split: sum.splits)

lemma capabilitiesView_clean: "(\<And>n. token_free (text_of n)) \<Longrightarrow> clean (capabilitiesView text_of v)"
  using redact_clean [of text_of v] by (cases "redact text_of v") (simp_all add: capabilitiesView_def)



end
