(* ===== verification/Adapter_Contract.thy ===== *)
theory Adapter_Contract
  imports Crash_Boundary Js_Set
begin

text \<open>
  What an adapter says about itself (\<open>packages/adapter-contract/src/types.ts\<close>), when such a claim is only a
  development identity (\<open>identity.ts\<close>), and when an adapter fits this checkout of the laboratory
  (\<open>contract-metadata.ts\<close>). SHA-256 of a text, in hexadecimal, is the parameter \<open>sha256\<close>; the contract of
  the checkout, whose digest is that of a file, is the parameter \<open>expected\<close>.
\<close>

section \<open>Capabilities\<close>

datatype evidence_tier = T0 | T1 | T2 | T3

datatype adapter_transport = Adapter_http | Adapter_nostr

datatype durability_level = Process_level | Persistent_level | Restart_safe

record implementation_identity =
  ii_id :: string
  ii_version :: string
  ii_language :: string
  ii_runtime :: string
  ii_sourceDigest :: string
  ii_buildDigest :: string

record role_capability =
  rk_transports :: "adapter_transport list"
  rk_profiles :: "string list"
  rk_durability :: durability_level
  rk_tier :: evidence_tier
  rk_sources :: "string list"

record mint_identity =
  mn_id :: string
  mn_implementation :: string
  mn_version :: "string option"

record contract_metadata =
  cm_apiVersion :: int
  cm_schemaVersion :: int
  cm_specDigest :: string

record adapter_capabilities =
  ac_contract :: "contract_metadata option"
  ac_implementation :: implementation_identity
  ac_sender :: "role_capability option"
  ac_receiver :: "role_capability option"
  ac_nuts :: "int list"
  ac_encodings :: "string list"
  ac_mints :: "mint_identity list"
  ac_crashBoundaries :: "crash_boundary list option"

section \<open>Development identities\<close>

definition identity_digest :: "(string \<Rightarrow> string) \<Rightarrow> string \<Rightarrow> implementation_identity \<Rightarrow> string" where
  "identity_digest sha256 domain input =
     (let identity = join_text [CHR 0x00] [ii_id input, ii_version input, ii_language input, ii_runtime input]
      in ''sha256:'' @ sha256 (''cashu-fault-lab/'' @ domain @ ''/v1'' @ [CHR 0x00] @ identity))"

definition developmentIdentity :: "(string \<Rightarrow> string) \<Rightarrow> implementation_identity \<Rightarrow> implementation_identity" where
  "developmentIdentity sha256 input =
     input\<lparr>ii_sourceDigest := identity_digest sha256 ''source'' input,
       ii_buildDigest := identity_digest sha256 ''build'' input\<rparr>"

definition isDevelopmentIdentity :: "(string \<Rightarrow> string) \<Rightarrow> implementation_identity \<Rightarrow> bool" where
  "isDevelopmentIdentity sha256 identity \<longleftrightarrow>
     (let expected = developmentIdentity sha256 identity in
      ii_sourceDigest identity = ii_sourceDigest expected \<and> ii_buildDigest identity = ii_buildDigest expected)"

section \<open>Compatibility\<close>

record compatibility_warning =
  cw_code :: string
  cw_message :: string
  cw_remediation :: string

datatype compatibility =
    Compatible "contract_metadata option" "compatibility_warning list"
  | Incompatible string contract_metadata contract_metadata

definition legacy_warning :: compatibility_warning where
  "legacy_warning =
     \<lparr>cw_code = ''ADAPTER_CONTRACT_LEGACY'',
      cw_message = ''Adapter capabilities do not include contract metadata.'',
      cw_remediation = ''Accepting temporarily; regenerate the adapter/client from spec/openapi.yaml.''\<rparr>"

definition validateAdapterCompatibility :: "contract_metadata \<Rightarrow> adapter_capabilities \<Rightarrow> compatibility" where
  "validateAdapterCompatibility expected capabilities =
     (case ac_contract capabilities of
        None \<Rightarrow> Compatible None [legacy_warning]
      | Some actual \<Rightarrow>
          if cm_apiVersion actual \<noteq> cm_apiVersion expected then
            Incompatible (''Adapter contract apiVersion '' @ int_text (cm_apiVersion actual) @
              '' is not supported by this lab (expected '' @ int_text (cm_apiVersion expected) @ '').'') expected actual
          else if cm_schemaVersion actual \<noteq> cm_schemaVersion expected then
            Incompatible (''Adapter contract schemaVersion '' @ int_text (cm_schemaVersion actual) @
              '' is not supported by this lab (expected '' @ int_text (cm_schemaVersion expected) @ '').'') expected actual
          else if cm_specDigest actual \<noteq> cm_specDigest expected then
            Incompatible
              ''Adapter contract specDigest does not match this lab checkout; adapter/client regeneration is required.''
              expected actual
          else Compatible (Some actual) [])"

lemma compatible_iff:
  "(\<exists>meta warnings. validateAdapterCompatibility expected capabilities = Compatible meta warnings) \<longleftrightarrow>
     ac_contract capabilities \<in> {None, Some expected}"
  by (auto simp: validateAdapterCompatibility_def split: option.splits)

end
