(* ===== verification/Release_Matrix.thy ===== *)
theory Release_Matrix
  imports Adapter_Contract Oracle_Evidence Effects
begin

text \<open>
  \<open>packages/scenario-runner/src/matrix.ts\<close>: every sender is run against every receiver. The executor, which
  drives the two adapters through the scenarios of a release, is a parameter: an action on its own
  state that may throw.
\<close>

record matrix_participant =
  mp_participant :: string
  mp_capabilities :: adapter_capabilities

datatype scenario_status = Sc_passed | Sc_failed | Sc_not_applicable

record matrix_scenario =
  ms_id :: string
  ms_seed :: string
  ms_status :: scenario_status
  ms_requiredInvariants :: "invariant_id list"
  ms_invariants :: "invariant_result list"
  ms_capabilities :: "jsval option"
  ms_componentVersions :: "(string \<times> string) list option"
  ms_imageDigests :: "(string \<times> string) list option"
  ms_code :: "string option"
  ms_reason :: "string option"

record matrix_evidence =
  me_evidence :: "jsval option"
  me_invariants :: "invariant_result list option"
  me_mints :: "mint_identity list option"
  me_scenarios :: "matrix_scenario list option"
  me_releaseSuiteDigest :: "string option"

datatype matrix_execution =
    Executed matrix_evidence
  | Execution_not_applicable string
  | Execution_failed string string

record matrix_identity =
  mi_profile :: string
  mi_sender :: string
  mi_receiver :: string
  mi_compatibility :: "compatibility \<times> compatibility"

record passed_case =
  pc_identity :: matrix_identity
  pc_senderCapabilities :: adapter_capabilities
  pc_receiverCapabilities :: adapter_capabilities
  pc_invariants :: "invariant_result list"
  pc_mints :: "mint_identity list"
  pc_scenarios :: "matrix_scenario list"
  pc_releaseSuiteDigest :: "string option"
  pc_evidence :: "jsval option"

text \<open>A failed case repeats the evidence when its scenarios did not all pass; the flag is \<open>expected_failure\<close>.\<close>

datatype matrix_case =
    Case_passed passed_case
  | Case_failed matrix_identity bool string string "matrix_evidence option"
  | Case_not_applicable matrix_identity string

type_synonym 'd matrix_executor =
  "string \<Rightarrow> matrix_participant \<Rightarrow> matrix_participant \<Rightarrow> ('d, string, matrix_execution) eff"

fun scenario_status_text :: "scenario_status \<Rightarrow> string" where
  "scenario_status_text Sc_passed = ''passed''"
| "scenario_status_text Sc_failed = ''failed''"
| "scenario_status_text Sc_not_applicable = ''not_applicable''"

definition releaseSuiteFailure :: "matrix_scenario list \<Rightarrow> (string \<times> string) option" where
  "releaseSuiteFailure scenarios =
     (let blockers = filter (\<lambda>s. ms_status s \<noteq> Sc_passed) scenarios in
      if blockers = [] then None
      else Some (''RELEASE_SUITE_NOT_PASSED'', ''Required release scenarios did not pass: '' @
        join_text '', '' (map (\<lambda>s. ms_id s @ '' ('' @ scenario_status_text (ms_status s) @ '')'') blockers)))"

definition unsupportedReason :: "string \<Rightarrow> matrix_participant \<Rightarrow> string \<Rightarrow> role_capability option \<Rightarrow> string option" where
  "unsupportedReason profile participant role capability =
     (case capability of
        Some c \<Rightarrow> if profile \<in> set (rk_profiles c) then None
          else Some (mp_participant participant @ '': '' @ profile @ '' '' @ role @ '' capability is not declared'')
      | None \<Rightarrow> Some (mp_participant participant @ '': '' @ profile @ '' '' @ role @ '' capability is not declared''))"

definition orEmpty :: "'a list option \<Rightarrow> 'a list" where
  "orEmpty v = (case v of None \<Rightarrow> [] | Some xs \<Rightarrow> xs)"

text \<open>The case of a pair whose executor returned.\<close>

fun executed_case :: "string \<Rightarrow> matrix_participant \<Rightarrow> matrix_participant \<Rightarrow> matrix_identity \<Rightarrow> matrix_execution \<Rightarrow> matrix_case" where
  "executed_case profile sender receiver identity (Execution_not_applicable reason) = Case_not_applicable identity reason"
| "executed_case profile sender receiver identity (Executed execution) =
     (let scenarios = orEmpty (me_scenarios execution) in
      case releaseSuiteFailure scenarios of
        Some (code, reason) \<Rightarrow>
          Case_failed identity False code reason (Some
            (execution\<lparr>me_invariants := Some (orEmpty (me_invariants execution)),
               me_mints := Some (orEmpty (me_mints execution)), me_scenarios := Some scenarios\<rparr>))
      | None \<Rightarrow>
          Case_passed \<lparr>pc_identity = identity, pc_senderCapabilities = mp_capabilities sender,
            pc_receiverCapabilities = mp_capabilities receiver, pc_invariants = orEmpty (me_invariants execution),
            pc_mints = orEmpty (me_mints execution), pc_scenarios = scenarios,
            pc_releaseSuiteDigest = me_releaseSuiteDigest execution, pc_evidence = me_evidence execution\<rparr>)"
| "executed_case profile sender receiver identity (Execution_failed code reason) =
     Case_failed identity (profile = ''nut26-nostr'' \<and> code = ''NUT26_NIP_MAPPING_MISMATCH'') code reason None"

definition run_case :: "contract_metadata \<Rightarrow> 'd matrix_executor \<Rightarrow> string \<Rightarrow> matrix_participant \<Rightarrow> matrix_participant \<Rightarrow>
    'd \<Rightarrow> matrix_case \<times> 'd" where
  "run_case expected execute profile sender receiver d =
     (let compatibility = (validateAdapterCompatibility expected (mp_capabilities sender),
            validateAdapterCompatibility expected (mp_capabilities receiver));
          identity = \<lparr>mi_profile = profile, mi_sender = mp_participant sender, mi_receiver = mp_participant receiver,
            mi_compatibility = compatibility\<rparr> in
      case compatibility of
        (Incompatible reason _ _, _) \<Rightarrow> (Case_failed identity False ''ADAPTER_CONTRACT_INCOMPATIBLE'' reason None, d)
      | (Compatible _ _, Incompatible reason _ _) \<Rightarrow>
          (Case_failed identity False ''ADAPTER_CONTRACT_INCOMPATIBLE'' reason None, d)
      | (Compatible _ _, Compatible _ _) \<Rightarrow>
          (case unsupportedReason profile sender ''sender'' (ac_sender (mp_capabilities sender)) of
             Some reason \<Rightarrow> (Case_not_applicable identity reason, d)
           | None \<Rightarrow>
               (case unsupportedReason profile receiver ''receiver'' (ac_receiver (mp_capabilities receiver)) of
                  Some reason \<Rightarrow> (Case_not_applicable identity reason, d)
                | None \<Rightarrow>
                    (case execute profile sender receiver d of
                       (Inl _, d') \<Rightarrow> (Case_failed identity False ''MATRIX_EXECUTION_ERROR'' ''Matrix executor failed'' None, d')
                     | (Inr execution, d') \<Rightarrow> (executed_case profile sender receiver identity execution, d')))))"

fun run_pairs :: "contract_metadata \<Rightarrow> 'd matrix_executor \<Rightarrow> string \<Rightarrow> (matrix_participant \<times> matrix_participant) list \<Rightarrow>
    'd \<Rightarrow> matrix_case list \<times> 'd" where
  "run_pairs expected execute profile [] d = ([], d)"
| "run_pairs expected execute profile ((sender, receiver) # pairs) d =
     (case run_case expected execute profile sender receiver d of
        (c, d') \<Rightarrow> (case run_pairs expected execute profile pairs d' of (cs, d'') \<Rightarrow> (c # cs, d'')))"

definition run_matrix :: "contract_metadata \<Rightarrow> 'd matrix_executor \<Rightarrow> string \<Rightarrow> matrix_participant list \<Rightarrow> matrix_participant list \<Rightarrow>
    ('d, string, matrix_case list) eff" where
  "run_matrix expected execute profile senders receivers d =
     (if profile = [] then (Inl ''Matrix profile is required'', d)
      else if senders = [] \<or> receivers = [] then (Inl ''Matrix requires at least one sender and receiver'', d)
      else case run_pairs expected execute profile (List.product senders receivers) d of (cs, d') \<Rightarrow> (Inr cs, d'))"

definition runPair :: "contract_metadata \<Rightarrow> 'd matrix_executor \<Rightarrow> string \<Rightarrow> matrix_participant \<Rightarrow> matrix_participant \<Rightarrow>
    ('d, string, matrix_case) eff" where
  "runPair expected execute profile sender receiver =
     andThen (run_matrix expected execute profile [sender] [receiver]) (\<lambda>results.
     case results of [] \<Rightarrow> throw ''Matrix pair did not produce a result'' | result # _ \<Rightarrow> ret result)"

section \<open>What a passed case rests on\<close>

definition declares :: "string \<Rightarrow> role_capability option \<Rightarrow> bool" where
  "declares profile capability \<longleftrightarrow> (\<exists>c. capability = Some c \<and> profile \<in> set (rk_profiles c))"

lemma unsupported_None [simp]: "unsupportedReason profile p role c = None \<longleftrightarrow> declares profile c"
  by (auto simp: unsupportedReason_def declares_def split: option.splits)

lemma releaseSuiteFailure_None: "releaseSuiteFailure scenarios = None \<longleftrightarrow> (\<forall>s\<in>set scenarios. ms_status s = Sc_passed)"
  by (auto simp: releaseSuiteFailure_def Let_def filter_empty_conv)

text \<open>The contract, the profile and the execution that stand behind the case of a pair.\<close>

definition case_backed :: "contract_metadata \<Rightarrow> string \<Rightarrow> matrix_participant \<Rightarrow> matrix_participant \<Rightarrow> passed_case \<Rightarrow> bool" where
  "case_backed expected profile sender receiver c \<longleftrightarrow>
     mi_profile (pc_identity c) = profile \<and> mi_sender (pc_identity c) = mp_participant sender \<and>
     mi_receiver (pc_identity c) = mp_participant receiver \<and>
     pc_senderCapabilities c = mp_capabilities sender \<and> pc_receiverCapabilities c = mp_capabilities receiver \<and>
     ac_contract (mp_capabilities sender) \<in> {None, Some expected} \<and>
     ac_contract (mp_capabilities receiver) \<in> {None, Some expected} \<and>
     declares profile (ac_sender (mp_capabilities sender)) \<and>
     declares profile (ac_receiver (mp_capabilities receiver)) \<and>
     (\<forall>s\<in>set (pc_scenarios c). ms_status s = Sc_passed)"

lemma executed_case_passed:
  assumes "executed_case profile sender receiver identity execution = Case_passed c"
  shows "pc_identity c = identity \<and> pc_senderCapabilities c = mp_capabilities sender \<and>
    pc_receiverCapabilities c = mp_capabilities receiver \<and> (\<forall>s\<in>set (pc_scenarios c). ms_status s = Sc_passed)"
  using assms
  by (cases execution) (auto simp: Let_def releaseSuiteFailure_None split: option.splits)

lemma run_case_passed:
  assumes "run_case expected execute profile sender receiver d = (Case_passed c, d')"
  shows "case_backed expected profile sender receiver c"
proof -
  obtain meta warnings meta' warnings' where
      s: "validateAdapterCompatibility expected (mp_capabilities sender) = Compatible meta warnings"
    and r: "validateAdapterCompatibility expected (mp_capabilities receiver) = Compatible meta' warnings'"
    using assms by (auto simp: run_case_def Let_def split: compatibility.splits)
  then have "ac_contract (mp_capabilities sender) \<in> {None, Some expected}"
    "ac_contract (mp_capabilities receiver) \<in> {None, Some expected}"
    using compatible_iff by blast+
  moreover have "declares profile (ac_sender (mp_capabilities sender))" "declares profile (ac_receiver (mp_capabilities receiver))"
    using assms s r by (auto simp: run_case_def Let_def split: option.splits)
  moreover obtain execution where "executed_case profile sender receiver
      \<lparr>mi_profile = profile, mi_sender = mp_participant sender, mi_receiver = mp_participant receiver,
       mi_compatibility = (Compatible meta warnings, Compatible meta' warnings')\<rparr> execution = Case_passed c"
    using assms s r by (auto simp: run_case_def Let_def split: option.splits prod.splits sum.splits)
  ultimately show ?thesis
    using executed_case_passed by (fastforce simp: case_backed_def)
qed

lemma run_pairs_length: "run_pairs expected execute profile pairs d = (cs, d') \<Longrightarrow> length cs = length pairs"
  by (induction pairs arbitrary: d cs) (auto split: prod.splits)

lemma run_pairs_passed:
  assumes "run_pairs expected execute profile pairs d = (cs, d')" and "i < length pairs" and "cs ! i = Case_passed c"
  shows "case_backed expected profile (fst (pairs ! i)) (snd (pairs ! i)) c"
  using assms
proof (induction pairs arbitrary: d cs i)
  case (Cons p pairs)
  obtain sender receiver where p: "p = (sender, receiver)" by (cases p)
  obtain c0 d1 cs' where a: "run_case expected execute profile sender receiver d = (c0, d1)"
      "run_pairs expected execute profile pairs d1 = (cs', d')" "cs = c0 # cs'"
    using Cons.prems(1) p by (auto split: prod.splits)
  show ?case
  proof (cases i)
    case 0
    then show ?thesis using Cons.prems(3) a p run_case_passed by fastforce
  next
    case (Suc j)
    then show ?thesis using Cons.IH [OF a(2), of j] Cons.prems(2,3) a(3) by simp
  qed
qed simp

end
