(* ===== verification/Release_Policy.thy ===== *)
theory Release_Policy
  imports Release_Matrix
begin

text \<open>
  The release gate for deliveries: \<open>packages/scenario-runner/src/release-policy.ts\<close> up to
  \<open>evaluateReleasePolicy\<close>, and \<open>release-suite.ts\<close>. A policy and a suite are documents of any shape until they
  are validated. They are parsed from JSON, so their arrays have no holes; a hole reads as undefined here.
  \<open>localeCompare\<close> is the parameter \<open>lc\<close>. A thrown error is its message.
\<close>

section \<open>Shared checks\<close>

definition slots :: "jsval \<Rightarrow> jsval list" where
  "slots v = (case v of JArr items \<Rightarrow> map (\<lambda>item. case item of None \<Rightarrow> JUndef | Some x \<Rightarrow> x) items | _ \<Rightarrow> [])"

fun as_text :: "jsval \<Rightarrow> string option" where
  "as_text (JStr s) = Some s"
| "as_text _ = None"

text \<open>\<open>/^[a-z0-9]+(?:-[a-z0-9]+)*$/\<close>: the state says that the last character was no dash.\<close>

fun kebab_from :: "bool \<Rightarrow> string \<Rightarrow> bool" where
  "kebab_from closed [] = closed"
| "kebab_from closed (c # s) =
     (if c \<in> set (lower_alpha @ digits) then kebab_from True s else c = CHR ''-'' \<and> closed \<and> kebab_from False s)"

definition kebab_pattern :: "string \<Rightarrow> bool" where
  "kebab_pattern = kebab_from False"

definition sha256_pattern :: "string \<Rightarrow> bool" where
  "sha256_pattern s \<longleftrightarrow> take 7 s = ''sha256:'' \<and> hash_pattern (drop 7 s)"

definition record_of :: "jsval \<Rightarrow> string \<Rightarrow> string + jsval" where
  "record_of v message = (if isRecord v then Inr v else Inl message)"

definition exactKeys :: "jsval \<Rightarrow> string list \<Rightarrow> string \<Rightarrow> string + unit" where
  "exactKeys v keys message = ensure (list_all (\<lambda>k. k \<in> set keys) (js_keys v)) message"

definition nonnegativeInteger :: "jsval \<Rightarrow> string \<Rightarrow> string + int" where
  "nonnegativeInteger v name =
     (case v of
        JNum (JInt i) \<Rightarrow> if safe_nonneg i then Inr i else Inl (name @ '' must be a nonnegative safe integer'')
      | _ \<Rightarrow> Inl (name @ '' must be a nonnegative safe integer''))"

definition boolean_of :: "jsval \<Rightarrow> string \<Rightarrow> string + bool" where
  "boolean_of v name = (case v of JBool b \<Rightarrow> Inr b | _ \<Rightarrow> Inl (name @ '' must be a boolean''))"

fun tier_text :: "evidence_tier \<Rightarrow> string" where
  "tier_text T0 = ''T0''"
| "tier_text T1 = ''T1''"
| "tier_text T2 = ''T2''"
| "tier_text T3 = ''T3''"

definition tier_of :: "jsval \<Rightarrow> string \<Rightarrow> string + evidence_tier" where
  "tier_of v name =
     (case v of
        JStr s \<Rightarrow> (case find (\<lambda>t. tier_text t = s) [T0, T1, T2, T3] of
            Some t \<Rightarrow> Inr t | None \<Rightarrow> Inl (name @ '' must be an evidence tier''))
      | _ \<Rightarrow> Inl (name @ '' must be an evidence tier''))"

fun tier_rank :: "evidence_tier \<Rightarrow> nat" where
  "tier_rank T0 = 0"
| "tier_rank T1 = 1"
| "tier_rank T2 = 2"
| "tier_rank T3 = 3"

text \<open>An array that is not empty, of distinct texts that the reader accepts.\<close>

definition distinct_array :: "(string \<Rightarrow> 'a option) \<Rightarrow> jsval \<Rightarrow> string \<Rightarrow> string + 'a list" where
  "distinct_array read v message =
     (case those (map as_text (slots v)) of
        None \<Rightarrow> Inl message
      | Some texts \<Rightarrow>
          (case those (map read texts) of
             None \<Rightarrow> Inl message
           | Some items \<Rightarrow> if texts = [] \<or> \<not> distinct texts then Inl message else Inr items))"

definition identifier_of :: "string \<Rightarrow> string option" where
  "identifier_of s = (if kebab_pattern s then Some s else None)"

definition invariant_of :: "string \<Rightarrow> invariant_id option" where
  "invariant_of s = find (\<lambda>i. invariant_text i = s) (map id_id INVARIANT_REGISTRY)"

definition accepted_confidence :: "string \<Rightarrow> evidence_confidence option" where
  "accepted_confidence s =
     (if s = ''observed'' then Some Conf_observed else if s = ''derived'' then Some Conf_derived else None)"

section \<open>Policies\<close>

record release_policy =
  rp_releaseSuiteDigest :: string
  rp_profile :: string
  rp_minimumQualifyingPairs :: int
  rp_requireCrossImplementation :: bool
  rp_requireCrossLanguage :: bool
  rp_requireDistinctBuilds :: bool
  rp_minimumDistinctMints :: int
  rp_senderEvidence :: evidence_tier
  rp_receiverEvidence :: evidence_tier
  rp_requiredInvariants :: "invariant_id list"
  rp_requiredScenarios :: "string list"
  rp_acceptedConfidence :: "evidence_confidence list"

definition POLICY_KEYS :: "string list" where
  "POLICY_KEYS = [''schemaVersion'', ''releaseSuiteDigest'', ''profile'', ''minimumQualifyingPairs'',
     ''requireCrossImplementation'', ''requireCrossLanguage'', ''requireDistinctBuilds'', ''minimumDistinctMints'',
     ''minimumEvidence'', ''requiredInvariants'', ''requiredScenarios'', ''acceptedConfidence'']"

definition pattern_field :: "(string \<Rightarrow> bool) \<Rightarrow> jsval \<Rightarrow> string \<Rightarrow> string + string" where
  "pattern_field pat v message = (case v of JStr s \<Rightarrow> if pat s then Inr s else Inl message | _ \<Rightarrow> Inl message)"

definition validateReleasePolicy :: "jsval \<Rightarrow> string + release_policy" where
  "validateReleasePolicy value =
     rbind (record_of value ''Release policy must be an object'') (\<lambda>input.
     rbind (exactKeys input POLICY_KEYS ''Release policy contains an unknown field'') (\<lambda>_.
     rbind (ensure (js_get input ''schemaVersion'' = js_int 3) ''Release policy schemaVersion must be 3'') (\<lambda>_.
     rbind (pattern_field sha256_pattern (js_get input ''releaseSuiteDigest'') ''Release policy releaseSuiteDigest is invalid'') (\<lambda>digest.
     rbind (pattern_field kebab_pattern (js_get input ''profile'') ''Release policy profile is invalid'') (\<lambda>profile.
     rbind (record_of (js_get input ''minimumEvidence'') ''Release policy minimumEvidence must be an object'') (\<lambda>minimum.
     rbind (exactKeys minimum [''sender'', ''receiver''] ''Release policy minimumEvidence contains an unknown field'') (\<lambda>_.
     rbind (distinct_array invariant_of (js_get input ''requiredInvariants'') ''Release policy requiredInvariants are invalid'') (\<lambda>invariants.
     rbind (distinct_array identifier_of (js_get input ''requiredScenarios'') ''Release policy requiredScenarios are invalid'') (\<lambda>scenarios.
     rbind (distinct_array accepted_confidence (js_get input ''acceptedConfidence'') ''Release policy acceptedConfidence is invalid'') (\<lambda>confidence.
     rbind (nonnegativeInteger (js_get input ''minimumQualifyingPairs'') ''minimumQualifyingPairs'') (\<lambda>pairs.
     rbind (boolean_of (js_get input ''requireCrossImplementation'') ''requireCrossImplementation'') (\<lambda>crossImplementation.
     rbind (boolean_of (js_get input ''requireCrossLanguage'') ''requireCrossLanguage'') (\<lambda>crossLanguage.
     rbind (boolean_of (js_get input ''requireDistinctBuilds'') ''requireDistinctBuilds'') (\<lambda>distinctBuilds.
     rbind (nonnegativeInteger (js_get input ''minimumDistinctMints'') ''minimumDistinctMints'') (\<lambda>mints.
     rbind (tier_of (js_get minimum ''sender'') ''minimumEvidence.sender'') (\<lambda>sender.
     rbind (tier_of (js_get minimum ''receiver'') ''minimumEvidence.receiver'') (\<lambda>receiver.
     Inr \<lparr>rp_releaseSuiteDigest = digest, rp_profile = profile, rp_minimumQualifyingPairs = pairs,
       rp_requireCrossImplementation = crossImplementation, rp_requireCrossLanguage = crossLanguage,
       rp_requireDistinctBuilds = distinctBuilds, rp_minimumDistinctMints = mints, rp_senderEvidence = sender,
       rp_receiverEvidence = receiver, rp_requiredInvariants = invariants, rp_requiredScenarios = scenarios,
       rp_acceptedConfidence = confidence\<rparr>)))))))))))))))))"

section \<open>Reasons\<close>

datatype gate_code =
    CROSS_IMPLEMENTATION_REQUIRED
  | CROSS_LANGUAGE_REQUIRED
  | DISTINCT_BUILD_REQUIRED
  | SENDER_EVIDENCE_TOO_LOW
  | RECEIVER_EVIDENCE_TOO_LOW
  | MINT_IDENTITY_REQUIRED
  | REQUIRED_SCENARIO_MISSING
  | REQUIRED_SCENARIO_NOT_PASSED
  | REQUIRED_INVARIANT_MISSING
  | REQUIRED_INVARIANT_NOT_PASSED
  | INVARIANT_CONFIDENCE_REJECTED
  | DEVELOPMENT_IDENTITY_NOT_RELEASE_ELIGIBLE
  | DUPLICATE_PROVENANCE
  | MINIMUM_QUALIFYING_PAIRS
  | MINIMUM_DISTINCT_MINTS
  | RELEASE_SUITE_DIGEST_MISMATCH

fun gate_code_text :: "gate_code \<Rightarrow> string" where
  "gate_code_text CROSS_IMPLEMENTATION_REQUIRED = ''CROSS_IMPLEMENTATION_REQUIRED''"
| "gate_code_text CROSS_LANGUAGE_REQUIRED = ''CROSS_LANGUAGE_REQUIRED''"
| "gate_code_text DISTINCT_BUILD_REQUIRED = ''DISTINCT_BUILD_REQUIRED''"
| "gate_code_text SENDER_EVIDENCE_TOO_LOW = ''SENDER_EVIDENCE_TOO_LOW''"
| "gate_code_text RECEIVER_EVIDENCE_TOO_LOW = ''RECEIVER_EVIDENCE_TOO_LOW''"
| "gate_code_text MINT_IDENTITY_REQUIRED = ''MINT_IDENTITY_REQUIRED''"
| "gate_code_text REQUIRED_SCENARIO_MISSING = ''REQUIRED_SCENARIO_MISSING''"
| "gate_code_text REQUIRED_SCENARIO_NOT_PASSED = ''REQUIRED_SCENARIO_NOT_PASSED''"
| "gate_code_text REQUIRED_INVARIANT_MISSING = ''REQUIRED_INVARIANT_MISSING''"
| "gate_code_text REQUIRED_INVARIANT_NOT_PASSED = ''REQUIRED_INVARIANT_NOT_PASSED''"
| "gate_code_text INVARIANT_CONFIDENCE_REJECTED = ''INVARIANT_CONFIDENCE_REJECTED''"
| "gate_code_text DEVELOPMENT_IDENTITY_NOT_RELEASE_ELIGIBLE = ''DEVELOPMENT_IDENTITY_NOT_RELEASE_ELIGIBLE''"
| "gate_code_text DUPLICATE_PROVENANCE = ''DUPLICATE_PROVENANCE''"
| "gate_code_text MINIMUM_QUALIFYING_PAIRS = ''MINIMUM_QUALIFYING_PAIRS''"
| "gate_code_text MINIMUM_DISTINCT_MINTS = ''MINIMUM_DISTINCT_MINTS''"
| "gate_code_text RELEASE_SUITE_DIGEST_MISMATCH = ''RELEASE_SUITE_DIGEST_MISMATCH''"

record gate_reason =
  gr_code :: gate_code
  gr_message :: string
  gr_pair :: "string option"
  gr_scenario :: "string option"

record gate_result =
  gt_passed :: bool
  gt_qualifyingPairs :: "string list"
  gt_reasons :: "gate_reason list"

definition mintKey :: "mint_identity \<Rightarrow> string" where
  "mintKey mint = mn_id mint @ '':'' @ mn_implementation mint @ '':'' @
     (case mn_version mint of None \<Rightarrow> [] | Some v \<Rightarrow> v)"

definition provenanceKey :: "passed_case \<Rightarrow> string" where
  "provenanceKey selected =
     (let sender = ac_implementation (pc_senderCapabilities selected);
          receiver = ac_implementation (pc_receiverCapabilities selected);
          mints = join_text '','' (sort (map mintKey (pc_mints selected)))
      in join_text ''|'' [ii_sourceDigest sender, ii_buildDigest sender, ii_sourceDigest receiver,
           ii_buildDigest receiver, mints])"

definition pair_text :: "passed_case \<Rightarrow> string" where
  "pair_text selected = mi_sender (pc_identity selected) @ ''->'' @ mi_receiver (pc_identity selected)"

definition status_text :: "invariant_status \<Rightarrow> string" where
  "status_text s = (case s of Inv_passed \<Rightarrow> ''passed'' | Inv_failed \<Rightarrow> ''failed'' | Inv_not_applicable \<Rightarrow> ''not_applicable''
     | Inv_not_observable \<Rightarrow> ''not_observable'')"

definition confidence_text :: "evidence_confidence \<Rightarrow> string" where
  "confidence_text c = (case c of Conf_observed \<Rightarrow> ''observed'' | Conf_derived \<Rightarrow> ''derived''
     | Conf_adapter_claimed \<Rightarrow> ''adapter_claimed'')"

text \<open>\<open>new Map(results.map((r) => [r.id, r]))\<close>: of two results of one invariant the later one is kept.\<close>

definition results_by_id :: "invariant_result list \<Rightarrow> (invariant_id, invariant_result) jsmap" where
  "results_by_id results = fold (\<lambda>r m. mp_set m (ir_id r) r) results []"

text \<open>The three tests of a required invariant; the argument makes the reason.\<close>

definition invariant_reasons :: "release_policy \<Rightarrow> (gate_code \<Rightarrow> string \<Rightarrow> gate_reason) \<Rightarrow> string \<Rightarrow> string \<Rightarrow> string \<Rightarrow>
    (invariant_id, invariant_result) jsmap \<Rightarrow> invariant_id \<Rightarrow> gate_reason list" where
  "invariant_reasons policy add missing subject where_text invariants i =
     (case map_of invariants i of
        None \<Rightarrow> [add REQUIRED_INVARIANT_MISSING missing]
      | Some invariant \<Rightarrow>
          if ir_status invariant \<noteq> Inv_passed then
            [add REQUIRED_INVARIANT_NOT_PASSED (subject @ '' has status '' @ status_text (ir_status invariant) @ where_text)]
          else if ir_confidence invariant \<notin> set (rp_acceptedConfidence policy) then
            [add INVARIANT_CONFIDENCE_REJECTED
               (subject @ '' has rejected confidence '' @ confidence_text (ir_confidence invariant) @ where_text)]
          else [])"

definition pair_reason :: "string \<Rightarrow> gate_code \<Rightarrow> string \<Rightarrow> gate_reason" where
  "pair_reason pair code message = \<lparr>gr_code = code, gr_message = message, gr_pair = Some pair, gr_scenario = None\<rparr>"

definition scenario_reason :: "string \<Rightarrow> string \<Rightarrow> gate_code \<Rightarrow> string \<Rightarrow> gate_reason" where
  "scenario_reason pair scenario code message =
     \<lparr>gr_code = code, gr_message = message, gr_pair = Some pair, gr_scenario = Some scenario\<rparr>"

definition scenario_reasons :: "release_policy \<Rightarrow> string \<Rightarrow> matrix_scenario list \<Rightarrow> string \<Rightarrow> gate_reason list" where
  "scenario_reasons policy pair scenarios i =
     (case filter (\<lambda>s. ms_id s = i) scenarios of
        [] \<Rightarrow> [scenario_reason pair i REQUIRED_SCENARIO_MISSING
          (''Required scenario '' @ i @ '' is missing for '' @ pair @ ''.'')]
      | result # others \<Rightarrow>
          if others \<noteq> [] \<or> ms_status result \<noteq> Sc_passed then
            [scenario_reason pair i REQUIRED_SCENARIO_NOT_PASSED
               (if others = [] then ''Required scenario '' @ i @ '' has status '' @ scenario_status_text (ms_status result) @
                  '' for '' @ pair @ ''.''
                else ''Required scenario '' @ i @ '' does not have unique passing evidence for '' @ pair @ ''.'')]
          else concat (map (\<lambda>inv.
            let subject = ''Required scenario '' @ i @ '' invariant '' @ invariant_text inv in
            invariant_reasons policy (scenario_reason pair i)
              (''Required scenario '' @ i @ '' is missing invariant '' @ invariant_text inv @ '' for '' @ pair @ ''.'')
              subject ('' for '' @ pair @ ''.'') (results_by_id (ms_invariants result)) inv)
            (ms_requiredInvariants result)))"

definition tier_too_low :: "role_capability option \<Rightarrow> evidence_tier \<Rightarrow> bool" where
  "tier_too_low role minimum \<longleftrightarrow> (case role of None \<Rightarrow> True | Some r \<Rightarrow> tier_rank (rk_tier r) < tier_rank minimum)"

definition pairReasons :: "(string \<Rightarrow> string) \<Rightarrow> release_policy \<Rightarrow> passed_case \<Rightarrow> gate_reason list" where
  "pairReasons sha256 policy selected =
     (let pair = pair_text selected;
          add = pair_reason pair;
          sender = pc_senderCapabilities selected;
          receiver = pc_receiverCapabilities selected;
          senderId = ac_implementation sender;
          receiverId = ac_implementation receiver
      in (if isDevelopmentIdentity sha256 senderId \<or> isDevelopmentIdentity sha256 receiverId then
            [add DEVELOPMENT_IDENTITY_NOT_RELEASE_ELIGIBLE
               ''Release evidence requires source and build digests from produced artifacts.''] else []) @
         (if rp_requireCrossImplementation policy \<and> ii_id senderId = ii_id receiverId then
            [add CROSS_IMPLEMENTATION_REQUIRED ''Sender and receiver implementations must differ.''] else []) @
         (if rp_requireCrossLanguage policy \<and> ii_language senderId = ii_language receiverId then
            [add CROSS_LANGUAGE_REQUIRED ''Sender and receiver implementation languages must differ.''] else []) @
         (if rp_requireDistinctBuilds policy \<and> ii_sourceDigest senderId = ii_sourceDigest receiverId \<and>
             ii_buildDigest senderId = ii_buildDigest receiverId then
            [add DISTINCT_BUILD_REQUIRED ''Sender and receiver must use distinct source/build identities.''] else []) @
         (if tier_too_low (ac_sender sender) (rp_senderEvidence policy) then
            [add SENDER_EVIDENCE_TOO_LOW (''Sender evidence must meet '' @ tier_text (rp_senderEvidence policy) @ ''.'')] else []) @
         (if tier_too_low (ac_receiver receiver) (rp_receiverEvidence policy) then
            [add RECEIVER_EVIDENCE_TOO_LOW (''Receiver evidence must meet '' @ tier_text (rp_receiverEvidence policy) @ ''.'')] else []) @
         (if pc_mints selected = [] then [add MINT_IDENTITY_REQUIRED ''A configured mint identity is required.''] else []) @
         (if pc_releaseSuiteDigest selected \<noteq> Some (rp_releaseSuiteDigest policy) then
            [add RELEASE_SUITE_DIGEST_MISMATCH
               ''Matrix evidence was not produced by the release suite bound to this policy.''] else []) @
         concat (map (scenario_reasons policy pair (pc_scenarios selected)) (rp_requiredScenarios policy)) @
         concat (map (\<lambda>inv.
           invariant_reasons policy add (''Required invariant '' @ invariant_text inv @ '' is missing.'')
             (''Required invariant '' @ invariant_text inv) ''.'' (results_by_id (pc_invariants selected)) inv)
           (rp_requiredInvariants policy)))"

section \<open>The gate\<close>

definition or_text :: "string option \<Rightarrow> string" where
  "or_text v = (case v of None \<Rightarrow> [] | Some s \<Rightarrow> s)"

definition sortReasons :: "(string \<Rightarrow> string \<Rightarrow> int) \<Rightarrow> gate_reason list \<Rightarrow> gate_reason list" where
  "sortReasons lc = js_sort (\<lambda>l r.
     let pair = lc (or_text (gr_pair l)) (or_text (gr_pair r)) in
     if pair \<noteq> 0 then pair
     else let code = lc (gate_code_text (gr_code l)) (gate_code_text (gr_code r)) in
       if code = 0 then lc (or_text (gr_scenario l)) (or_text (gr_scenario r)) else code)"

fun passed_of :: "matrix_case \<Rightarrow> passed_case option" where
  "passed_of (Case_passed c) = Some c"
| "passed_of _ = None"

definition passedCases :: "(string \<Rightarrow> string \<Rightarrow> int) \<Rightarrow> release_policy \<Rightarrow> matrix_case list \<Rightarrow> passed_case list" where
  "passedCases lc policy cases = js_sort (\<lambda>l r. lc (pair_text l) (pair_text r))
     (filter (\<lambda>c. mi_profile (pc_identity c) = rp_profile policy) (List.map_filter passed_of cases))"

text \<open>The loop over the cases: the reasons so far, the pairs that qualify, the provenances already counted.\<close>

definition count_case :: "(string \<Rightarrow> string) \<Rightarrow> release_policy \<Rightarrow> passed_case \<Rightarrow>
    gate_reason list \<times> passed_case list \<times> string list \<Rightarrow> gate_reason list \<times> passed_case list \<times> string list" where
  "count_case sha256 policy selected = (\<lambda>(reasons, qualifying, seen).
     let rejected = pairReasons sha256 policy selected; provenance = provenanceKey selected in
     if rejected \<noteq> [] then (reasons @ rejected, qualifying, seen)
     else if provenance \<in> set seen then
       (reasons @ [pair_reason (pair_text selected) DUPLICATE_PROVENANCE
          ''This pair aliases an already-counted source/build/mint provenance.''], qualifying, seen)
     else (reasons, qualifying @ [selected], seen @ [provenance]))"

definition evaluateReleasePolicy :: "(string \<Rightarrow> string) \<Rightarrow> (string \<Rightarrow> string \<Rightarrow> int) \<Rightarrow> jsval \<Rightarrow> matrix_case list \<Rightarrow>
    string + gate_result" where
  "evaluateReleasePolicy sha256 lc policyInput cases =
     rbind (validateReleasePolicy policyInput) (\<lambda>policy.
     case fold (count_case sha256 policy) (passedCases lc policy cases) ([], [], []) of
       (reasons, qualifying, seen) \<Rightarrow>
         let distinctMints = js_set (concat (map (\<lambda>selected. map mintKey (pc_mints selected)) qualifying));
             plain = (\<lambda>code message. \<lparr>gr_code = code, gr_message = message, gr_pair = None, gr_scenario = None\<rparr>);
             pairs = (if int (length qualifying) < rp_minimumQualifyingPairs policy then
               [plain MINIMUM_QUALIFYING_PAIRS (''Release requires '' @ int_text (rp_minimumQualifyingPairs policy) @
                  '' qualifying pairs; observed '' @ decimal_text (length qualifying) @ ''.'')] else []);
             mints = (if int (length distinctMints) < rp_minimumDistinctMints policy then
               [plain MINIMUM_DISTINCT_MINTS (''Release requires '' @ int_text (rp_minimumDistinctMints policy) @
                  '' distinct mints; observed '' @ decimal_text (length distinctMints) @ ''.'')] else []);
             sorted_reasons = sortReasons lc (reasons @ pairs @ mints)
         in Inr \<lparr>gt_passed = (sorted_reasons = []), gt_qualifyingPairs = sort (map pair_text qualifying),
              gt_reasons = sorted_reasons\<rparr>)"

section \<open>Release suites\<close>

record suite_entry =
  sy_id :: string
  sy_scenario :: string
  sy_transports :: "adapter_transport list"
  sy_senderDurability :: durability_level
  sy_receiverDurability :: durability_level
  sy_requiredInvariants :: "invariant_id list"

record release_suite =
  rs_profile :: string
  rs_scenarios :: "suite_entry list"

definition ENTRY_KEYS :: "string list" where
  "ENTRY_KEYS = [''id'', ''scenario'', ''transports'', ''senderDurability'', ''receiverDurability'', ''requiredInvariants'']"

text \<open>\<open>/^scenarios\/[a-z0-9/_-]+\.json$/\<close>\<close>

definition scenario_path :: "string \<Rightarrow> bool" where
  "scenario_path s \<longleftrightarrow> 15 < length s \<and> take 10 s = ''scenarios/'' \<and> drop (length s - 5) s = ''.json'' \<and>
     all_in (lower_alpha @ digits @ ''/_-'') (take (length s - 15) (drop 10 s))"

definition suite_keys :: "jsval \<Rightarrow> string list \<Rightarrow> string \<Rightarrow> string + unit" where
  "suite_keys v keys subject =
     rbind (ensure (list_all (\<lambda>k. k \<in> set keys) (js_keys v)) (subject @ '' contains an unknown field'')) (\<lambda>_.
     ensure (length (js_keys v) = length keys \<and> list_all (js_has v) keys) (subject @ '' fields are invalid''))"

definition transport_of :: "string \<Rightarrow> adapter_transport option" where
  "transport_of s = (if s = ''http'' then Some Adapter_http else if s = ''nostr'' then Some Adapter_nostr else None)"

definition durability_of :: "jsval \<Rightarrow> string + durability_level" where
  "durability_of v =
     (if v = JStr ''process'' then Inr Process_level
      else if v = JStr ''persistent'' then Inr Persistent_level
      else if v = JStr ''restart_safe'' then Inr Restart_safe
      else Inl ''Release suite scenario durability is invalid'')"

definition releaseSuiteEntry :: "jsval \<Rightarrow> string + suite_entry" where
  "releaseSuiteEntry value =
     rbind (record_of value ''Release suite scenario must be an object'') (\<lambda>input.
     rbind (suite_keys input ENTRY_KEYS ''Release suite scenario'') (\<lambda>_.
     rbind (pattern_field kebab_pattern (js_get input ''id'') ''Release suite scenario id is invalid'') (\<lambda>i.
     rbind (pattern_field (\<lambda>s. scenario_path s \<and> \<not> text_contains ''//'' s) (js_get input ''scenario'')
       ''Release suite scenario path is invalid'') (\<lambda>scenario.
     rbind (distinct_array transport_of (js_get input ''transports'') ''Release suite scenario transports are invalid'') (\<lambda>transports.
     rbind (durability_of (js_get input ''senderDurability'')) (\<lambda>sender.
     rbind (durability_of (js_get input ''receiverDurability'')) (\<lambda>receiver.
     rbind (distinct_array invariant_of (js_get input ''requiredInvariants'')
       ''Release suite scenario requiredInvariants are invalid'') (\<lambda>invariants.
     Inr \<lparr>sy_id = i, sy_scenario = scenario, sy_transports = transports, sy_senderDurability = sender,
       sy_receiverDurability = receiver, sy_requiredInvariants = invariants\<rparr>))))))))"

definition validateReleaseSuite :: "jsval \<Rightarrow> string + release_suite" where
  "validateReleaseSuite value =
     rbind (record_of value ''Release suite must be an object'') (\<lambda>input.
     rbind (suite_keys input [''schemaVersion'', ''profile'', ''scenarios''] ''Release suite'') (\<lambda>_.
     rbind (ensure (js_get input ''schemaVersion'' = js_int 1) ''Release suite schemaVersion must be 1'') (\<lambda>_.
     rbind (pattern_field kebab_pattern (js_get input ''profile'') ''Release suite profile is invalid'') (\<lambda>profile.
     rbind (ensure (slots (js_get input ''scenarios'') \<noteq> []) ''Release suite scenarios must be a non-empty array'') (\<lambda>_.
     rbind (traverse releaseSuiteEntry (slots (js_get input ''scenarios''))) (\<lambda>scenarios.
     rbind (ensure (distinct (map sy_id scenarios)) ''Release suite contains a duplicate scenario id'') (\<lambda>_.
     Inr \<lparr>rs_profile = profile, rs_scenarios = scenarios\<rparr>)))))))"

lemma release_suite_scenarios:
  "validateReleaseSuite v = Inr suite \<Longrightarrow> rs_scenarios suite \<noteq> [] \<and> distinct (map sy_id (rs_scenarios suite))"
  by (auto simp: validateReleaseSuite_def rbind_eq_Inr ensure_eq_Inr dest: traverse_length)

end
