(* ===== verification/Release_Lifecycle.thy ===== *)
theory Release_Lifecycle
  imports Release_Policy
begin

text \<open>
  The release gate for wallets: the second half of \<open>packages/scenario-runner/src/release-policy.ts\<close>. The suite
  and every piece of evidence are documents of any shape until they are validated. \<open>JSON.stringify\<close> is the
  parameter \<open>stringify\<close>, SHA-256 in hexadecimal the parameter \<open>sha256\<close>, \<open>localeCompare\<close> the parameter \<open>lc\<close>.
\<close>

section \<open>The suite\<close>

record lifecycle_suite =
  ls_releaseSuiteDigest :: string
  ls_minimumWalletImplementations :: int
  ls_minimumMintImplementations :: int
  ls_requiredOperations :: "string list"
  ls_requiredScenarios :: "string list"
  ls_requiredInvariants :: "string list"

definition LIFECYCLE_SUITE_KEYS :: "string list" where
  "LIFECYCLE_SUITE_KEYS = [''schemaVersion'', ''profile'', ''releaseSuiteDigest'', ''minimumWalletImplementations'',
     ''minimumMintImplementations'', ''requireCrossLanguage'', ''requireDistinctBuilds'', ''requireReplayEvidence'',
     ''allowSkippedRequired'', ''requiredOperations'', ''requiredScenarios'', ''requiredInvariants'']"

definition LIFECYCLE_OPERATIONS :: "string list" where
  "LIFECYCLE_OPERATIONS = [''mint'', ''swap'', ''send'', ''receive'', ''melt'', ''restore'', ''reconcile'']"

definition LIFECYCLE_STATUSES :: "string list" where
  "LIFECYCLE_STATUSES = [''passed'', ''failed'', ''not_applicable'', ''skipped'']"

definition LIFECYCLE_CONFIDENCES :: "string list" where
  "LIFECYCLE_CONFIDENCES = [''observed'', ''derived'', ''adapter_claimed'']"

definition lifecycleIdentifierArray :: "jsval \<Rightarrow> string \<Rightarrow> string list option \<Rightarrow> string + string list" where
  "lifecycleIdentifierArray v name allowed =
     distinct_array (\<lambda>s. if kebab_pattern s \<and> (case allowed of None \<Rightarrow> True | Some xs \<Rightarrow> s \<in> set xs) then Some s else None)
       v (''Lifecycle release suite '' @ name @ '' is invalid'')"

definition text_array :: "string list \<Rightarrow> jsval" where
  "text_array xs = js_array (map JStr xs)"

definition digest_input :: "int \<Rightarrow> int \<Rightarrow> string list \<Rightarrow> string list \<Rightarrow> string list \<Rightarrow> jsval" where
  "digest_input wallets mints operations scenarios invariants = JObj
     [(''schemaVersion'', js_int 1), (''profile'', JStr ''wallet-lifecycle-v1''),
      (''minimumWalletImplementations'', js_int wallets), (''minimumMintImplementations'', js_int mints),
      (''requireCrossLanguage'', JBool True), (''requireDistinctBuilds'', JBool True),
      (''requireReplayEvidence'', JBool True), (''allowSkippedRequired'', JBool False),
      (''requiredOperations'', text_array operations), (''requiredScenarios'', text_array scenarios),
      (''requiredInvariants'', text_array invariants)]"

definition suite_digest :: "(jsval \<Rightarrow> string) \<Rightarrow> (string \<Rightarrow> string) \<Rightarrow> jsval \<Rightarrow> string" where
  "suite_digest stringify sha256 v =
     ''sha256:'' @ sha256 (''cashu-fault-lab/wallet-lifecycle-release-suite/v1'' @ [CHR 0x00] @ stringify v)"

definition validateLifecycleReleaseSuite :: "(jsval \<Rightarrow> string) \<Rightarrow> (string \<Rightarrow> string) \<Rightarrow> jsval \<Rightarrow> string + lifecycle_suite" where
  "validateLifecycleReleaseSuite stringify sha256 value =
     rbind (record_of value ''Lifecycle release suite must be an object'') (\<lambda>input.
     rbind (exactKeys input LIFECYCLE_SUITE_KEYS ''Lifecycle release suite contains an unknown field'') (\<lambda>_.
     rbind (ensure (js_get input ''schemaVersion'' = js_int 1) ''Lifecycle release suite schemaVersion must be 1'') (\<lambda>_.
     rbind (ensure (js_get input ''profile'' = JStr ''wallet-lifecycle-v1'') ''Lifecycle release suite profile is invalid'') (\<lambda>_.
     rbind (pattern_field sha256_pattern (js_get input ''releaseSuiteDigest'') ''Lifecycle release suite digest is invalid'') (\<lambda>digest.
     rbind (nonnegativeInteger (js_get input ''minimumWalletImplementations'') ''minimumWalletImplementations'') (\<lambda>wallets.
     rbind (nonnegativeInteger (js_get input ''minimumMintImplementations'') ''minimumMintImplementations'') (\<lambda>mints.
     rbind (ensure (\<not> (wallets < 2 \<or> mints < 2)) ''Lifecycle release suite requires two wallet and mint implementations'') (\<lambda>_.
     rbind (ensure (js_get input ''requireCrossLanguage'' = JBool True) ''Lifecycle release suite requireCrossLanguage must be true'') (\<lambda>_.
     rbind (ensure (js_get input ''requireDistinctBuilds'' = JBool True) ''Lifecycle release suite requireDistinctBuilds must be true'') (\<lambda>_.
     rbind (ensure (js_get input ''requireReplayEvidence'' = JBool True) ''Lifecycle release suite requireReplayEvidence must be true'') (\<lambda>_.
     rbind (ensure (js_get input ''allowSkippedRequired'' = JBool False) ''Lifecycle release suite allowSkippedRequired must be false'') (\<lambda>_.
     rbind (lifecycleIdentifierArray (js_get input ''requiredOperations'') ''requiredOperations'' (Some LIFECYCLE_OPERATIONS)) (\<lambda>operations.
     rbind (ensure (length operations = length LIFECYCLE_OPERATIONS) ''Lifecycle release suite must require every lifecycle operation'') (\<lambda>_.
     rbind (lifecycleIdentifierArray (js_get input ''requiredScenarios'') ''requiredScenarios'' None) (\<lambda>scenarios.
     rbind (lifecycleIdentifierArray (js_get input ''requiredInvariants'') ''requiredInvariants'' None) (\<lambda>invariants.
     rbind (ensure (digest = suite_digest stringify sha256 (digest_input wallets mints operations scenarios invariants))
       ''Lifecycle release suite digest does not bind its exact requirements'') (\<lambda>_.
     Inr \<lparr>ls_releaseSuiteDigest = digest, ls_minimumWalletImplementations = wallets, ls_minimumMintImplementations = mints,
       ls_requiredOperations = operations, ls_requiredScenarios = scenarios,
       ls_requiredInvariants = invariants\<rparr>)))))))))))))))))"

section \<open>Evidence\<close>

record lifecycle_invariant =
  li_id :: string
  li_status :: string
  li_confidence :: string

record lifecycle_scenario =
  lsc_id :: string
  lsc_status :: string
  lsc_replayDigest :: "string option"
  lsc_invariants :: "lifecycle_invariant list"

record lifecycle_evidence =
  le_wallet :: string
  le_language :: string
  le_sourceDigest :: string
  le_buildDigest :: string
  le_mint :: string
  le_implementation :: string
  le_version :: "string option"
  le_operations :: "string list"
  le_releaseSuiteDigest :: string
  le_secretScanPassed :: bool
  le_scenarios :: "lifecycle_scenario list"

definition lifecycleExactKeys :: "jsval \<Rightarrow> string list \<Rightarrow> bool" where
  "lifecycleExactKeys v keys \<longleftrightarrow> length (js_keys v) = length keys \<and> list_all (\<lambda>k. k \<in> set keys) (js_keys v)"

definition text_where :: "(string \<Rightarrow> bool) \<Rightarrow> jsval \<Rightarrow> bool" where
  "text_where P v \<longleftrightarrow> (case v of JStr s \<Rightarrow> P s | _ \<Rightarrow> False)"

definition valid_invariant :: "jsval \<Rightarrow> bool" where
  "valid_invariant v \<longleftrightarrow>
     isRecord v \<and> lifecycleExactKeys v [''id'', ''status'', ''confidence''] \<and>
     text_where kebab_pattern (js_get v ''id'') \<and>
     text_where (\<lambda>s. s \<in> set LIFECYCLE_STATUSES) (js_get v ''status'') \<and>
     text_where (\<lambda>s. s \<in> set LIFECYCLE_CONFIDENCES) (js_get v ''confidence'')"

definition valid_scenario :: "jsval \<Rightarrow> bool" where
  "valid_scenario v \<longleftrightarrow>
     isRecord v \<and>
     lifecycleExactKeys v (if js_has v ''replayDigest'' then [''id'', ''status'', ''replayDigest'', ''invariants'']
       else [''id'', ''status'', ''invariants'']) \<and>
     text_where kebab_pattern (js_get v ''id'') \<and>
     text_where (\<lambda>s. s \<in> set LIFECYCLE_STATUSES) (js_get v ''status'') \<and>
     (js_get v ''replayDigest'' = JUndef \<or> text_where sha256_pattern (js_get v ''replayDigest'')) \<and>
     (case js_get v ''invariants'' of JArr _ \<Rightarrow> True | _ \<Rightarrow> False) \<and>
     list_all valid_invariant (slots (js_get v ''invariants''))"

definition validLifecycleEvidence :: "jsval \<Rightarrow> bool" where
  "validLifecycleEvidence v \<longleftrightarrow>
     (let wallet = js_get v ''wallet''; mint = js_get v ''mint''; operations = js_get v ''operations'' in
      isRecord v \<and>
      lifecycleExactKeys v [''wallet'', ''mint'', ''operations'', ''releaseSuiteDigest'', ''secretScanPassed'', ''scenarios''] \<and>
      isRecord wallet \<and> isRecord mint \<and>
      lifecycleExactKeys wallet [''id'', ''language'', ''sourceDigest'', ''buildDigest''] \<and>
      lifecycleExactKeys mint
        (if js_has mint ''version'' then [''id'', ''implementation'', ''version''] else [''id'', ''implementation'']) \<and>
      text_where kebab_pattern (js_get wallet ''id'') \<and>
      text_where kebab_pattern (js_get wallet ''language'') \<and>
      text_where sha256_pattern (js_get wallet ''sourceDigest'') \<and>
      text_where sha256_pattern (js_get wallet ''buildDigest'') \<and>
      text_where kebab_pattern (js_get mint ''id'') \<and>
      text_where kebab_pattern (js_get mint ''implementation'') \<and>
      (js_get mint ''version'' = JUndef \<or>
       text_where (\<lambda>s. 1 \<le> length s \<and> length s \<le> 128) (js_get mint ''version'')) \<and>
      text_where sha256_pattern (js_get v ''releaseSuiteDigest'') \<and>
      (case js_get v ''secretScanPassed'' of JBool _ \<Rightarrow> True | _ \<Rightarrow> False) \<and>
      slots operations \<noteq> [] \<and>
      list_all (text_where (\<lambda>s. s \<in> set LIFECYCLE_OPERATIONS)) (slots operations) \<and>
      distinct (slots operations) \<and>
      (case js_get v ''scenarios'' of JArr _ \<Rightarrow> True | _ \<Rightarrow> False) \<and>
      list_all valid_scenario (slots (js_get v ''scenarios'')))"

text \<open>The typed view of a document that passed the check.\<close>

definition text_of_value :: "jsval \<Rightarrow> string" where
  "text_of_value v = (case v of JStr s \<Rightarrow> s | _ \<Rightarrow> [])"

definition invariant_view :: "jsval \<Rightarrow> lifecycle_invariant" where
  "invariant_view v =
     \<lparr>li_id = text_of_value (js_get v ''id''), li_status = text_of_value (js_get v ''status''),
      li_confidence = text_of_value (js_get v ''confidence'')\<rparr>"

definition scenario_view :: "jsval \<Rightarrow> lifecycle_scenario" where
  "scenario_view v =
     \<lparr>lsc_id = text_of_value (js_get v ''id''), lsc_status = text_of_value (js_get v ''status''),
      lsc_replayDigest = as_text (js_get v ''replayDigest''),
      lsc_invariants = map invariant_view (slots (js_get v ''invariants''))\<rparr>"

definition evidence_view :: "jsval \<Rightarrow> lifecycle_evidence" where
  "evidence_view v =
     (let wallet = js_get v ''wallet''; mint = js_get v ''mint'' in
      \<lparr>le_wallet = text_of_value (js_get wallet ''id''), le_language = text_of_value (js_get wallet ''language''),
       le_sourceDigest = text_of_value (js_get wallet ''sourceDigest''),
       le_buildDigest = text_of_value (js_get wallet ''buildDigest''),
       le_mint = text_of_value (js_get mint ''id''), le_implementation = text_of_value (js_get mint ''implementation''),
       le_version = as_text (js_get mint ''version''),
       le_operations = map text_of_value (slots (js_get v ''operations'')),
       le_releaseSuiteDigest = text_of_value (js_get v ''releaseSuiteDigest''),
       le_secretScanPassed = (js_get v ''secretScanPassed'' = JBool True),
       le_scenarios = map scenario_view (slots (js_get v ''scenarios''))\<rparr>)"

section \<open>The gate\<close>

datatype lifecycle_code =
    LIFECYCLE_EVIDENCE_INVALID
  | LIFECYCLE_POLICY_MISMATCH
  | LIFECYCLE_MINIMUM_WALLETS
  | LIFECYCLE_MINIMUM_MINTS
  | LIFECYCLE_CROSS_LANGUAGE
  | LIFECYCLE_DISTINCT_BUILD
  | LIFECYCLE_OPERATION_MISSING
  | LIFECYCLE_REQUIRED_SCENARIO
  | LIFECYCLE_REQUIRED_INVARIANT
  | LIFECYCLE_REPLAY_REQUIRED
  | LIFECYCLE_SECRET_SCAN

fun lifecycle_code_text :: "lifecycle_code \<Rightarrow> string" where
  "lifecycle_code_text LIFECYCLE_EVIDENCE_INVALID = ''LIFECYCLE_EVIDENCE_INVALID''"
| "lifecycle_code_text LIFECYCLE_POLICY_MISMATCH = ''LIFECYCLE_POLICY_MISMATCH''"
| "lifecycle_code_text LIFECYCLE_MINIMUM_WALLETS = ''LIFECYCLE_MINIMUM_WALLETS''"
| "lifecycle_code_text LIFECYCLE_MINIMUM_MINTS = ''LIFECYCLE_MINIMUM_MINTS''"
| "lifecycle_code_text LIFECYCLE_CROSS_LANGUAGE = ''LIFECYCLE_CROSS_LANGUAGE''"
| "lifecycle_code_text LIFECYCLE_DISTINCT_BUILD = ''LIFECYCLE_DISTINCT_BUILD''"
| "lifecycle_code_text LIFECYCLE_OPERATION_MISSING = ''LIFECYCLE_OPERATION_MISSING''"
| "lifecycle_code_text LIFECYCLE_REQUIRED_SCENARIO = ''LIFECYCLE_REQUIRED_SCENARIO''"
| "lifecycle_code_text LIFECYCLE_REQUIRED_INVARIANT = ''LIFECYCLE_REQUIRED_INVARIANT''"
| "lifecycle_code_text LIFECYCLE_REPLAY_REQUIRED = ''LIFECYCLE_REPLAY_REQUIRED''"
| "lifecycle_code_text LIFECYCLE_SECRET_SCAN = ''LIFECYCLE_SECRET_SCAN''"

record lifecycle_reason =
  lr_code :: lifecycle_code
  lr_message :: string
  lr_participant :: "string option"
  lr_scenario :: "string option"

definition lifecycleInvariantQualifies :: "lifecycle_invariant \<Rightarrow> bool" where
  "lifecycleInvariantQualifies i \<longleftrightarrow>
     li_status i = ''passed'' \<and> (li_confidence i = ''observed'' \<or> li_confidence i = ''derived'')"

definition participant_id :: "lifecycle_evidence \<Rightarrow> string" where
  "participant_id p = le_wallet p @ ''@'' @ le_mint p"

definition wallet_identity :: "lifecycle_evidence \<Rightarrow> string" where
  "wallet_identity p = le_language p @ '':'' @ le_sourceDigest p @ '':'' @ le_buildDigest p"

definition mint_identity_text :: "lifecycle_evidence \<Rightarrow> string" where
  "mint_identity_text p = le_implementation p @ '':'' @ (case le_version p of None \<Rightarrow> [] | Some v \<Rightarrow> v)"

definition build_text :: "lifecycle_evidence \<Rightarrow> string" where
  "build_text p = le_sourceDigest p @ '':'' @ le_buildDigest p"

text \<open>The first loop: what is accepted so far.\<close>

record lifecycle_intake =
  in_reasons :: "lifecycle_reason list"
  in_accepted :: "lifecycle_evidence list"
  in_participants :: "string list"
  in_wallets :: "(string, string) jsmap"
  in_mints :: "(string, string) jsmap"

definition contradicts :: "(string, string) jsmap \<Rightarrow> string \<Rightarrow> string \<Rightarrow> bool" where
  "contradicts m k v \<longleftrightarrow> (case map_of m k of None \<Rightarrow> False | Some w \<Rightarrow> w \<noteq> v)"

definition invalid_reason :: "string \<Rightarrow> string \<Rightarrow> lifecycle_reason" where
  "invalid_reason participant message =
     \<lparr>lr_code = LIFECYCLE_EVIDENCE_INVALID, lr_message = message, lr_participant = Some participant, lr_scenario = None\<rparr>"

definition take_evidence :: "nat \<times> jsval \<Rightarrow> lifecycle_intake \<Rightarrow> lifecycle_intake" where
  "take_evidence = (\<lambda>(index, document) s.
     if \<not> validLifecycleEvidence document then
       s\<lparr>in_reasons := in_reasons s @ [invalid_reason (''evidence-'' @ decimal_text (index + 1))
         ''Lifecycle evidence is malformed or contains unrecognized fields.'']\<rparr>
     else
       let p = evidence_view document in
       if participant_id p \<in> set (in_participants s) \<or> contradicts (in_wallets s) (le_wallet p) (wallet_identity p) \<or>
         contradicts (in_mints s) (le_mint p) (mint_identity_text p)
       then s\<lparr>in_reasons := in_reasons s @ [invalid_reason (participant_id p)
         ''Lifecycle participant identity aliases or contradicts existing provenance.'']\<rparr>
       else s\<lparr>in_accepted := in_accepted s @ [p], in_participants := in_participants s @ [participant_id p],
         in_wallets := mp_set (in_wallets s) (le_wallet p) (wallet_identity p),
         in_mints := mp_set (in_mints s) (le_mint p) (mint_identity_text p)\<rparr>)"

definition plain_reason :: "lifecycle_code \<Rightarrow> string \<Rightarrow> lifecycle_reason" where
  "plain_reason code message = \<lparr>lr_code = code, lr_message = message, lr_participant = None, lr_scenario = None\<rparr>"

definition population_reasons :: "lifecycle_suite \<Rightarrow> lifecycle_evidence list \<Rightarrow> lifecycle_reason list" where
  "population_reasons suite accepted =
     (let wallets = js_set (map le_wallet accepted); mints = js_set (map le_implementation accepted);
          languages = js_set (map le_language accepted); builds = js_set (map build_text accepted) in
      (if int (length wallets) < ls_minimumWalletImplementations suite then
         [plain_reason LIFECYCLE_MINIMUM_WALLETS ''Two independent wallet implementations are required.''] else []) @
      (if int (length mints) < ls_minimumMintImplementations suite then
         [plain_reason LIFECYCLE_MINIMUM_MINTS ''Two independent mint implementations are required.''] else []) @
      (if length languages < 2 then
         [plain_reason LIFECYCLE_CROSS_LANGUAGE ''Cross-language wallet evidence is required.''] else []) @
      (if length builds < length wallets then
         [plain_reason LIFECYCLE_DISTINCT_BUILD ''Each wallet must have distinct source and build provenance.''] else []))"

definition required_scenario_reasons :: "lifecycle_suite \<Rightarrow> lifecycle_evidence \<Rightarrow> string \<Rightarrow> lifecycle_reason list" where
  "required_scenario_reasons suite p scenarioId =
     (let matches = filter (\<lambda>s. lsc_id s = scenarioId) (le_scenarios p);
          scenario = (case matches of [] \<Rightarrow> None | s # _ \<Rightarrow> Some s);
          reason = (\<lambda>code message. \<lparr>lr_code = code, lr_message = message, lr_participant = Some (participant_id p),
            lr_scenario = Some scenarioId\<rparr>) in
      (if length matches \<noteq> 1 \<or> map_option lsc_status scenario \<noteq> Some ''passed'' then
         [reason LIFECYCLE_REQUIRED_SCENARIO (''Required scenario '' @ scenarioId @ '' did not uniquely pass.'')] else []) @
      (if (case scenario of None \<Rightarrow> True | Some s \<Rightarrow>
             (case lsc_replayDigest s of None \<Rightarrow> True | Some r \<Rightarrow> \<not> sha256_pattern r)) then
         [reason LIFECYCLE_REPLAY_REQUIRED (''Required scenario '' @ scenarioId @ '' has no exact replay digest.'')] else []) @
      concat (map (\<lambda>inv.
        let invariants = (case scenario of None \<Rightarrow> [] | Some s \<Rightarrow> filter (\<lambda>i. li_id i = inv) (lsc_invariants s)) in
        if length invariants \<noteq> 1 \<or> \<not> lifecycleInvariantQualifies (hd invariants) then
          [reason LIFECYCLE_REQUIRED_INVARIANT (''Required invariant '' @ inv @ '' did not uniquely pass.'')] else [])
        (ls_requiredInvariants suite)))"

definition participant_reasons :: "lifecycle_suite \<Rightarrow> lifecycle_evidence \<Rightarrow> lifecycle_reason list" where
  "participant_reasons suite p =
     (let reason = (\<lambda>code message. \<lparr>lr_code = code, lr_message = message, lr_participant = Some (participant_id p),
            lr_scenario = None\<rparr>) in
      (if le_releaseSuiteDigest p \<noteq> ls_releaseSuiteDigest suite then
         [reason LIFECYCLE_POLICY_MISMATCH ''Evidence was produced by another lifecycle suite.''] else []) @
      (if \<not> le_secretScanPassed p then
         [reason LIFECYCLE_SECRET_SCAN ''Lifecycle artifact secret scan did not pass.''] else []) @
      concat (map (\<lambda>operation.
        if operation \<notin> set (le_operations p) then
          [reason LIFECYCLE_OPERATION_MISSING (''Required operation '' @ operation @ '' is missing.'')] else [])
        (ls_requiredOperations suite)) @
      concat (map (required_scenario_reasons suite p) (ls_requiredScenarios suite)))"

definition reason_key :: "lifecycle_reason \<Rightarrow> string" where
  "reason_key r = or_text (lr_participant r) @ '':'' @ or_text (lr_scenario r) @ '':'' @ lifecycle_code_text (lr_code r)"

definition evaluateLifecycleReleaseSuite :: "(jsval \<Rightarrow> string) \<Rightarrow> (string \<Rightarrow> string) \<Rightarrow> (string \<Rightarrow> string \<Rightarrow> int) \<Rightarrow> jsval \<Rightarrow>
    jsval list \<Rightarrow> string + bool \<times> lifecycle_reason list" where
  "evaluateLifecycleReleaseSuite stringify sha256 lc suiteInput documents =
     rbind (validateLifecycleReleaseSuite stringify sha256 suiteInput) (\<lambda>suite.
     let s = fold take_evidence (enumerate 0 documents)
           \<lparr>in_reasons = [], in_accepted = [], in_participants = [], in_wallets = [], in_mints = []\<rparr>;
         reasons = js_sort (\<lambda>l r. lc (reason_key l) (reason_key r))
           (in_reasons s @ population_reasons suite (in_accepted s) @
            concat (map (participant_reasons suite) (in_accepted s)))
     in Inr (reasons = [], reasons))"

end
