(* ===== verification/Release_Properties.thy ===== *)
theory Release_Properties
  imports Release_Lifecycle
begin

text \<open>
  When the two release gates pass. Each gate is equivalent to a list of requirements on the evidence, so no
  requirement of a policy is skipped and none is added; and a pair that a matrix run lets through the
  delivery gate is backed by a compatible sender and receiver that declare the profile.
\<close>

section \<open>Required invariants\<close>

definition invariant_qualifies :: "release_policy \<Rightarrow> invariant_result list \<Rightarrow> invariant_id \<Rightarrow> bool" where
  "invariant_qualifies policy results i \<longleftrightarrow>
     (let own = filter (\<lambda>r. ir_id r = i) results in
      own \<noteq> [] \<and> ir_status (last own) = Inv_passed \<and> ir_confidence (last own) \<in> set (rp_acceptedConfidence policy))"

lemma results_by_id_snoc: "results_by_id (rs @ [r]) = mp_set (results_by_id rs) (ir_id r) r"
  by (simp add: results_by_id_def)

lemma map_of_results_by_id:
  "map_of (results_by_id rs) i =
     (let own = filter (\<lambda>r. ir_id r = i) rs in if own = [] then None else Some (last own))"
proof (induction rs rule: rev_induct)
  case Nil
  then show ?case by (simp add: results_by_id_def)
next
  case (snoc r rs)
  then show ?case by (auto simp: results_by_id_snoc Let_def)
qed

lemma invariant_reasons_Nil:
  "invariant_reasons policy add missing subject where_text (results_by_id rs) i = [] \<longleftrightarrow> invariant_qualifies policy rs i"
  by (simp add: invariant_reasons_def invariant_qualifies_def map_of_results_by_id Let_def)

section \<open>Qualifying pairs\<close>

definition scenario_qualifies :: "release_policy \<Rightarrow> matrix_scenario list \<Rightarrow> string \<Rightarrow> bool" where
  "scenario_qualifies policy scenarios i \<longleftrightarrow>
     (\<exists>s. filter (\<lambda>s. ms_id s = i) scenarios = [s] \<and> ms_status s = Sc_passed \<and>
        (\<forall>inv\<in>set (ms_requiredInvariants s). invariant_qualifies policy (ms_invariants s) inv))"

definition meets_tier :: "role_capability option \<Rightarrow> evidence_tier \<Rightarrow> bool" where
  "meets_tier role minimum \<longleftrightarrow> (\<exists>r. role = Some r \<and> tier_rank minimum \<le> tier_rank (rk_tier r))"

definition pair_qualifies :: "(string \<Rightarrow> string) \<Rightarrow> release_policy \<Rightarrow> passed_case \<Rightarrow> bool" where
  "pair_qualifies sha256 policy c \<longleftrightarrow>
     (let sender = ac_implementation (pc_senderCapabilities c); receiver = ac_implementation (pc_receiverCapabilities c) in
      \<not> isDevelopmentIdentity sha256 sender \<and> \<not> isDevelopmentIdentity sha256 receiver \<and>
      (rp_requireCrossImplementation policy \<longrightarrow> ii_id sender \<noteq> ii_id receiver) \<and>
      (rp_requireCrossLanguage policy \<longrightarrow> ii_language sender \<noteq> ii_language receiver) \<and>
      (rp_requireDistinctBuilds policy \<longrightarrow>
         (ii_sourceDigest sender, ii_buildDigest sender) \<noteq> (ii_sourceDigest receiver, ii_buildDigest receiver)) \<and>
      meets_tier (ac_sender (pc_senderCapabilities c)) (rp_senderEvidence policy) \<and>
      meets_tier (ac_receiver (pc_receiverCapabilities c)) (rp_receiverEvidence policy) \<and>
      pc_mints c \<noteq> [] \<and> pc_releaseSuiteDigest c = Some (rp_releaseSuiteDigest policy) \<and>
      (\<forall>i\<in>set (rp_requiredScenarios policy). scenario_qualifies policy (pc_scenarios c) i) \<and>
      (\<forall>inv\<in>set (rp_requiredInvariants policy). invariant_qualifies policy (pc_invariants c) inv))"

lemma scenario_reasons_Nil: "scenario_reasons policy pair scenarios i = [] \<longleftrightarrow> scenario_qualifies policy scenarios i"
proof (cases "filter (\<lambda>s. ms_id s = i) scenarios")
  case Nil
  then show ?thesis by (simp add: scenario_reasons_def scenario_qualifies_def)
next
  case (Cons s others)
  then show ?thesis
    by (auto simp: scenario_reasons_def scenario_qualifies_def Let_def invariant_reasons_Nil)
qed

lemma tier_too_low_iff: "tier_too_low role minimum \<longleftrightarrow> \<not> meets_tier role minimum"
  by (auto simp: tier_too_low_def meets_tier_def split: option.splits)

lemma if_Nil: "(if b then [x] else []) = [] \<longleftrightarrow> \<not> b"
  by simp

lemma pairReasons_Nil: "pairReasons sha256 policy c = [] \<longleftrightarrow> pair_qualifies sha256 policy c"
  unfolding pairReasons_def pair_qualifies_def Let_def append_is_Nil_conv if_Nil concat_eq_Nil_conv
  by (auto simp: scenario_reasons_Nil invariant_reasons_Nil tier_too_low_iff)

section \<open>The delivery gate\<close>

definition eligible :: "release_policy \<Rightarrow> matrix_case list \<Rightarrow> passed_case list" where
  "eligible policy cases = filter (\<lambda>c. mi_profile (pc_identity c) = rp_profile policy) (List.map_filter passed_of cases)"

definition gate_requirements :: "(string \<Rightarrow> string) \<Rightarrow> release_policy \<Rightarrow> passed_case list \<Rightarrow> bool" where
  "gate_requirements sha256 policy cs \<longleftrightarrow>
     (\<forall>c\<in>set cs. pair_qualifies sha256 policy c) \<and> distinct (map provenanceKey cs) \<and>
     rp_minimumQualifyingPairs policy \<le> int (length cs) \<and>
     rp_minimumDistinctMints policy \<le> int (card (\<Union>c\<in>set cs. mintKey ` set (pc_mints c)))"

lemma count_reasons: "fst (fold (count_case sha256 policy) cs (r, q, s)) = [] \<Longrightarrow> r = []"
proof (induction cs arbitrary: r q s)
  case (Cons c cs)
  obtain r' q' s' where c: "count_case sha256 policy c (r, q, s) = (r', q', s')" by (metis surj_pair)
  have "r' = []" using Cons.IH [of r' q' s'] Cons.prems c by simp
  with c show ?case by (auto simp: count_case_def Let_def split: if_splits)
qed simp

lemma count_cases:
  assumes "distinct s"
  shows "fst (fold (count_case sha256 policy) cs ([], q, s)) = [] \<longleftrightarrow>
      (\<forall>c\<in>set cs. pair_qualifies sha256 policy c) \<and> distinct (s @ map provenanceKey cs)"
    and "(\<forall>c\<in>set cs. pair_qualifies sha256 policy c) \<and> distinct (s @ map provenanceKey cs) \<Longrightarrow>
      fold (count_case sha256 policy) cs ([], q, s) = ([], q @ cs, s @ map provenanceKey cs)"
  using assms
proof (induction cs arbitrary: q s)
  case (Cons c cs)
  {
    case 1
    show ?case
    proof (cases "pair_qualifies sha256 policy c \<and> provenanceKey c \<notin> set s")
      case True
      then have "count_case sha256 policy c ([], q, s) = ([], q @ [c], s @ [provenanceKey c])"
        by (simp add: count_case_def Let_def pairReasons_Nil)
      then show ?thesis
        using Cons.IH(1) [of "s @ [provenanceKey c]" "q @ [c]"] True 1 by auto
    next
      case False
      then have "fst (count_case sha256 policy c ([], q, s)) \<noteq> []"
        using pairReasons_Nil by (auto simp: count_case_def Let_def)
      then have "fst (fold (count_case sha256 policy) (c # cs) ([], q, s)) \<noteq> []"
        using count_reasons by (metis fold_simps(2) prod.collapse)
      then show ?thesis using False by auto
    qed
  next
    case 2
    then have "count_case sha256 policy c ([], q, s) = ([], q @ [c], s @ [provenanceKey c])"
      by (simp add: count_case_def Let_def pairReasons_Nil)
    then show ?case
      using Cons.IH(2) [of "s @ [provenanceKey c]" "q @ [c]"] 2 by simp
  }
qed simp_all

lemma mset_passedCases: "mset (passedCases lc policy cases) = mset (eligible policy cases)"
  by (simp add: passedCases_def eligible_def)

lemma gate_requirements_mset: "mset cs = mset cs' \<Longrightarrow> gate_requirements sha256 policy cs = gate_requirements sha256 policy cs'"
proof -
  assume m: "mset cs = mset cs'"
  then have "set cs = set cs'" "length cs = length cs'" by (auto dest: mset_eq_setD mset_eq_length)
  moreover have "distinct (map provenanceKey cs) = distinct (map provenanceKey cs')"
    using m by (metis mset_eq_imp_distinct_iff mset_map)
  ultimately show ?thesis by (simp add: gate_requirements_def)
qed

lemma sortReasons_Nil [simp]: "sortReasons lc rs = [] \<longleftrightarrow> rs = []"
  by (simp add: sortReasons_def)

lemma length_js_set: "length (js_set xs) = card (set xs)"
  by (metis distinct_card distinct_js_set set_js_set)

lemma gate_result:
  assumes "validateReleasePolicy v = Inr policy"
  obtains result where "evaluateReleasePolicy sha256 lc v cases = Inr result"
    and "gt_passed result \<longleftrightarrow> gate_requirements sha256 policy (eligible policy cases)"
    and "gt_passed result \<Longrightarrow> mset (gt_qualifyingPairs result) = mset (map pair_text (eligible policy cases))"
proof -
  let ?cs = "passedCases lc policy cases"
  obtain r q s where f: "fold (count_case sha256 policy) ?cs ([], [], []) = (r, q, s)" by (metis surj_pair)
  obtain result where e: "evaluateReleasePolicy sha256 lc v cases = Inr result"
    using assms f by (simp add: evaluateReleasePolicy_def Let_def)
  have p: "gt_passed result \<longleftrightarrow> r = [] \<and> rp_minimumQualifyingPairs policy \<le> int (length q) \<and>
      rp_minimumDistinctMints policy \<le> int (card (\<Union>c\<in>set q. mintKey ` set (pc_mints c)))"
    and pairs: "gt_qualifyingPairs result = sort (map pair_text q)"
    using e assms f by (auto simp: evaluateReleasePolicy_def Let_def length_js_set image_UN not_less split: if_splits)
  have c: "r = [] \<longleftrightarrow> (\<forall>c\<in>set ?cs. pair_qualifies sha256 policy c) \<and> distinct (map provenanceKey ?cs)"
    using count_cases(1) [where s = "[]" and q = "[]"] f by (metis append_Nil distinct.simps(1) fst_conv)
  have q: "r = [] \<Longrightarrow> q = ?cs"
    using count_cases(2) [where s = "[]" and q = "[]"] f c by (metis append_Nil distinct.simps(1) fst_conv snd_conv)
  have "gt_passed result \<longleftrightarrow> gate_requirements sha256 policy ?cs"
    using c p q by (auto simp: gate_requirements_def)
  moreover have "gt_passed result \<Longrightarrow> mset (gt_qualifyingPairs result) = mset (map pair_text (eligible policy cases))"
    using p q pairs by (simp add: mset_passedCases)
  ultimately show ?thesis
    using that e gate_requirements_mset [OF mset_passedCases] by metis
qed

lemma those_Some_iff: "those xs = Some ys \<longleftrightarrow> xs = map Some ys"
proof (induction xs arbitrary: ys)
  case (Cons x xs)
  then show ?case by (cases x; cases ys) (auto split: option.splits)
qed auto

lemma distinct_array_read:
  assumes "distinct_array read v message = Inr items" and "x \<in> set items"
  shows "\<exists>s. read s = Some x"
proof -
  obtain texts where "map read texts = map Some items"
    using assms(1) by (auto simp: distinct_array_def those_Some_iff split: option.splits if_splits)
  then have "Some x \<in> set (map read texts)" using assms(2) by simp
  then show ?thesis by auto
qed

lemma accepted_not_claimed:
  assumes "validateReleasePolicy v = Inr policy"
  shows "Conf_adapter_claimed \<notin> set (rp_acceptedConfidence policy)"
proof
  assume "Conf_adapter_claimed \<in> set (rp_acceptedConfidence policy)"
  moreover obtain confidence message w where "distinct_array accepted_confidence w message = Inr confidence"
      "rp_acceptedConfidence policy = confidence"
    using assms by (auto simp: validateReleasePolicy_def rbind_eq_Inr)
  ultimately obtain s where "accepted_confidence s = Some Conf_adapter_claimed"
    using distinct_array_read by metis
  then show False by (simp add: accepted_confidence_def split: if_splits)
qed

text \<open>
  C24: The delivery gate is exact. For a policy that validates, the gate answers, and it passes exactly when
  every pair that passed the matrix under the policy's profile qualifies, no two of them share the
  provenance of their builds and mints, and there are enough pairs and enough distinct mints. A pair
  qualifies when neither side is a development build, the required differences of implementation,
  language and build hold, both roles reach the required evidence tier, its mints are named, it was
  produced by the suite the policy names, every required scenario passed exactly once with its own
  required invariants, and every required invariant passed with an accepted confidence, which is never
  the adapter's own claim. The pairs it then reports are exactly those pairs.
\<close>
theorem release_gate_exact:
  assumes "validateReleasePolicy v = Inr policy"
  shows "\<exists>result. evaluateReleasePolicy sha256 lc v cases = Inr result \<and>
    (gt_passed result \<longleftrightarrow> gate_requirements sha256 policy (eligible policy cases)) \<and>
    (gt_passed result \<longrightarrow> mset (gt_qualifyingPairs result) = mset (map pair_text (eligible policy cases))) \<and>
    Conf_adapter_claimed \<notin> set (rp_acceptedConfidence policy)"
  using gate_result [OF assms, of sha256 lc cases] accepted_not_claimed [OF assms] by metis


section \<open>The lifecycle gate\<close>

text \<open>The texts of an identity determine its parts: identifiers have no separator, digests one length.\<close>

lemma identifier_chars: "kebab_from b s \<Longrightarrow> c \<in> set s \<Longrightarrow> c \<in> set (lower_alpha @ digits @ ''-'')"
  by (induction b s rule: kebab_from.induct) (auto split: if_splits)

lemma identifier_no_separator:
  assumes "kebab_pattern s"
  shows "CHR '':'' \<notin> set s" and "CHR ''@'' \<notin> set s"
  using identifier_chars [of False s] assms
  by (auto simp: kebab_pattern_def lower_alpha_def digits_def)

lemma takeWhile_separator: "c \<notin> set s \<Longrightarrow> takeWhile (\<lambda>x. x \<noteq> c) (s @ c # t) = s"
  by (induction s) auto

lemma separated_inject:
  "c \<notin> set s \<Longrightarrow> c \<notin> set s' \<Longrightarrow> s @ c # t = s' @ c # t' \<longleftrightarrow> s = s' \<and> t = t'"
  using takeWhile_separator [of c s t] takeWhile_separator [of c s' t'] by auto

lemma sha256_pattern_length: "sha256_pattern s \<Longrightarrow> length s = 71"
  by (auto simp: sha256_pattern_def hash_pattern_def)

definition evidence_sane :: "lifecycle_evidence \<Rightarrow> bool" where
  "evidence_sane p \<longleftrightarrow> kebab_pattern (le_wallet p) \<and> kebab_pattern (le_language p) \<and>
     sha256_pattern (le_sourceDigest p) \<and> sha256_pattern (le_buildDigest p) \<and> kebab_pattern (le_mint p) \<and>
     kebab_pattern (le_implementation p) \<and> le_version p \<noteq> Some []"

lemma text_where_iff: "text_where P v \<longleftrightarrow> (\<exists>s. v = JStr s \<and> P s)"
  by (cases v) (auto simp: text_where_def)

lemma evidence_view_sane: "validLifecycleEvidence v \<Longrightarrow> evidence_sane (evidence_view v)"
  unfolding validLifecycleEvidence_def evidence_sane_def evidence_view_def Let_def
  by (auto simp: text_where_iff text_of_value_def)

lemma participant_id_inject:
  "evidence_sane p \<Longrightarrow> evidence_sane q \<Longrightarrow>
     participant_id p = participant_id q \<longleftrightarrow> le_wallet p = le_wallet q \<and> le_mint p = le_mint q"
  using separated_inject [of "CHR ''@''" "le_wallet p" "le_wallet q"]
  by (simp add: participant_id_def evidence_sane_def identifier_no_separator)

lemma build_text_inject:
  "evidence_sane p \<Longrightarrow> evidence_sane q \<Longrightarrow>
     build_text p = build_text q \<longleftrightarrow> le_sourceDigest p = le_sourceDigest q \<and> le_buildDigest p = le_buildDigest q"
  by (auto simp: build_text_def evidence_sane_def dest!: sha256_pattern_length)

lemma wallet_identity_inject:
  "evidence_sane p \<Longrightarrow> evidence_sane q \<Longrightarrow>
     wallet_identity p = wallet_identity q \<longleftrightarrow> le_language p = le_language q \<and> build_text p = build_text q"
  using separated_inject [of "CHR '':''" "le_language p" "le_language q"]
  by (simp add: wallet_identity_def build_text_def evidence_sane_def identifier_no_separator)

lemma mint_text_inject:
  "evidence_sane p \<Longrightarrow> evidence_sane q \<Longrightarrow>
     mint_identity_text p = mint_identity_text q \<longleftrightarrow> le_implementation p = le_implementation q \<and> le_version p = le_version q"
  using separated_inject [of "CHR '':''" "le_implementation p" "le_implementation q"]
  by (auto simp: mint_identity_text_def evidence_sane_def identifier_no_separator split: option.splits)

subsection \<open>Intake\<close>

definition start_intake :: lifecycle_intake where
  "start_intake = \<lparr>in_reasons = [], in_accepted = [], in_participants = [], in_wallets = [], in_mints = []\<rparr>"

definition intake :: "jsval list \<Rightarrow> lifecycle_intake" where
  "intake documents = fold take_evidence (enumerate 0 documents) start_intake"

definition consistent :: "('a \<Rightarrow> 'k) \<Rightarrow> ('a \<Rightarrow> 'v) \<Rightarrow> 'a list \<Rightarrow> bool" where
  "consistent f g ps \<longleftrightarrow> (\<forall>p\<in>set ps. \<forall>q\<in>set ps. f p = f q \<longrightarrow> g p = g q)"

definition accepted_all :: "jsval list \<Rightarrow> bool" where
  "accepted_all documents \<longleftrightarrow>
     (let ps = map evidence_view documents in
      list_all validLifecycleEvidence documents \<and> distinct (map participant_id ps) \<and>
      consistent le_wallet wallet_identity ps \<and> consistent le_mint mint_identity_text ps)"

definition tabulates :: "('k, 'v) jsmap \<Rightarrow> ('a \<Rightarrow> 'k) \<Rightarrow> ('a \<Rightarrow> 'v) \<Rightarrow> 'a list \<Rightarrow> bool" where
  "tabulates m f g ps \<longleftrightarrow> (\<forall>k v. map_of m k = Some v \<longleftrightarrow> (\<exists>p\<in>set ps. f p = k \<and> g p = v))"

definition tables_ok :: "lifecycle_evidence list \<Rightarrow> lifecycle_intake \<Rightarrow> bool" where
  "tables_ok ps s \<longleftrightarrow> in_accepted s = ps \<and> in_participants s = map participant_id ps \<and>
     tabulates (in_wallets s) le_wallet wallet_identity ps \<and> tabulates (in_mints s) le_mint mint_identity_text ps"

lemma intake_snoc: "intake (documents @ [d]) = take_evidence (length documents, d) (intake documents)"
  by (simp add: intake_def enumerate_append_eq)

lemma consistentD: "consistent f g ps \<Longrightarrow> p \<in> set ps \<Longrightarrow> q \<in> set ps \<Longrightarrow> f p = f q \<Longrightarrow> g p = g q"
  unfolding consistent_def by blast

lemma consistentI: "(\<And>p q. p \<in> set ps \<Longrightarrow> q \<in> set ps \<Longrightarrow> f p = f q \<Longrightarrow> g p = g q) \<Longrightarrow> consistent f g ps"
  unfolding consistent_def by blast

lemma consistent_snoc:
  "consistent f g (ps @ [p]) \<longleftrightarrow> consistent f g ps \<and> (\<forall>q\<in>set ps. f q = f p \<longrightarrow> g q = g p)"
  by (auto simp: consistent_def)

lemma contradicts_iff:
  assumes "tabulates m f g ps"
  shows "contradicts m k v \<longleftrightarrow> (\<exists>q\<in>set ps. f q = k \<and> g q \<noteq> v)"
proof (cases "map_of m k")
  case None
  then have "\<not> (\<exists>q\<in>set ps. f q = k)" using assms by (metis option.distinct(1) tabulates_def)
  with None show ?thesis by (auto simp: contradicts_def)
next
  case (Some w)
  then have "g q = w" if "q \<in> set ps" "f q = k" for q
    using assms that by (metis option.inject tabulates_def)
  moreover obtain q where "q \<in> set ps" "f q = k" "g q = w" using assms Some unfolding tabulates_def by blast
  ultimately show ?thesis using Some by (auto simp: contradicts_def)
qed

lemma tabulates_snoc:
  "tabulates m f g ps \<Longrightarrow> (\<forall>q\<in>set ps. f q = f p \<longrightarrow> g q = g p) \<Longrightarrow> tabulates (mp_set m (f p) (g p)) f g (ps @ [p])"
  by (auto simp: tabulates_def)

lemma intake_decides:
  "(in_reasons (intake documents) = [] \<longleftrightarrow> accepted_all documents) \<and>
   (accepted_all documents \<longrightarrow> tables_ok (map evidence_view documents) (intake documents))"
proof (induction documents rule: rev_induct)
  case Nil
  then show ?case
    by (simp add: intake_def start_intake_def accepted_all_def tables_ok_def tabulates_def consistent_def)
next
  case (snoc d documents)
  let ?ps = "map evidence_view documents" and ?p = "evidence_view d" and ?s = "intake documents"
  have mono: "in_reasons (take_evidence x s) = [] \<Longrightarrow> in_reasons s = []" for x s
    by (auto simp: take_evidence_def Let_def split: if_splits prod.splits)
  show ?case
  proof (cases "accepted_all documents")
    case False
    then have "in_reasons (intake (documents @ [d])) \<noteq> []" using snoc mono by (auto simp: intake_snoc)
    moreover have "\<not> accepted_all (documents @ [d])"
      using False by (auto simp: accepted_all_def Let_def consistent_snoc)
    ultimately show ?thesis by blast
  next
    case True
    then have t: "tables_ok ?ps ?s" and r: "in_reasons ?s = []" using snoc by blast+
    have new: "accepted_all (documents @ [d]) \<longleftrightarrow> validLifecycleEvidence d \<and> participant_id ?p \<notin> participant_id ` set ?ps \<and>
        (\<forall>q\<in>set ?ps. le_wallet q = le_wallet ?p \<longrightarrow> wallet_identity q = wallet_identity ?p) \<and>
        (\<forall>q\<in>set ?ps. le_mint q = le_mint ?p \<longrightarrow> mint_identity_text q = mint_identity_text ?p)"
      using True by (auto simp: accepted_all_def Let_def consistent_snoc)
    have c: "contradicts (in_wallets ?s) k v \<longleftrightarrow> (\<exists>q\<in>set ?ps. le_wallet q = k \<and> wallet_identity q \<noteq> v)"
      "contradicts (in_mints ?s) k v \<longleftrightarrow> (\<exists>q\<in>set ?ps. le_mint q = k \<and> mint_identity_text q \<noteq> v)" for k v
      using t by (intro contradicts_iff; simp add: tables_ok_def)+
    show ?thesis
    proof (cases "accepted_all (documents @ [d])")
      case True
      then have "take_evidence (length documents, d) ?s =
          ?s\<lparr>in_accepted := ?ps @ [?p], in_participants := map participant_id (?ps @ [?p]),
            in_wallets := mp_set (in_wallets ?s) (le_wallet ?p) (wallet_identity ?p),
            in_mints := mp_set (in_mints ?s) (le_mint ?p) (mint_identity_text ?p)\<rparr>"
        using t new c by (auto simp: take_evidence_def Let_def tables_ok_def)
      moreover have "tables_ok (?ps @ [?p]) \<dots>"
        using t True new tabulates_snoc [of "in_wallets ?s" le_wallet wallet_identity ?ps ?p]
          tabulates_snoc [of "in_mints ?s" le_mint mint_identity_text ?ps ?p]
        by (simp add: tables_ok_def)
      ultimately show ?thesis using True r by (simp add: intake_snoc)
    next
      case False
      then have "in_reasons (take_evidence (length documents, d) ?s) \<noteq> []"
        using t new c by (auto simp: take_evidence_def Let_def tables_ok_def)
      with False show ?thesis by (simp add: intake_snoc)
    qed
  qed
qed

subsection \<open>Participants\<close>

definition replayed_scenario :: "lifecycle_suite \<Rightarrow> lifecycle_evidence \<Rightarrow> string \<Rightarrow> bool" where
  "replayed_scenario suite p i \<longleftrightarrow>
     (\<exists>s. filter (\<lambda>s. lsc_id s = i) (le_scenarios p) = [s] \<and> lsc_status s = ''passed'' \<and>
        (\<exists>r. lsc_replayDigest s = Some r \<and> sha256_pattern r) \<and>
        (\<forall>inv\<in>set (ls_requiredInvariants suite).
           \<exists>x. filter (\<lambda>x. li_id x = inv) (lsc_invariants s) = [x] \<and> lifecycleInvariantQualifies x))"

definition participant_qualifies :: "lifecycle_suite \<Rightarrow> lifecycle_evidence \<Rightarrow> bool" where
  "participant_qualifies suite p \<longleftrightarrow>
     le_releaseSuiteDigest p = ls_releaseSuiteDigest suite \<and> le_secretScanPassed p \<and>
     set (ls_requiredOperations suite) \<subseteq> set (le_operations p) \<and>
     (\<forall>i\<in>set (ls_requiredScenarios suite). replayed_scenario suite p i)"

lemma one_element: "length xs = 1 \<and> P (hd xs) \<longleftrightarrow> (\<exists>x. xs = [x] \<and> P x)"
  by (cases xs) auto

lemma required_scenario_Nil: "required_scenario_reasons suite p i = [] \<longleftrightarrow> replayed_scenario suite p i"
proof (cases "filter (\<lambda>s. lsc_id s = i) (le_scenarios p)")
  case Nil
  then show ?thesis by (simp add: required_scenario_reasons_def replayed_scenario_def)
next
  case (Cons s others)
  then show ?thesis
    unfolding required_scenario_reasons_def replayed_scenario_def one_element [symmetric]
    by (auto simp: Let_def split: option.split)
qed

lemma participant_reasons_Nil: "participant_reasons suite p = [] \<longleftrightarrow> participant_qualifies suite p"
  unfolding participant_reasons_def participant_qualifies_def Let_def append_is_Nil_conv if_Nil concat_eq_Nil_conv
  by (auto simp: required_scenario_Nil)

subsection \<open>Populations\<close>

lemma consistent_function:
  assumes "consistent f g ps"
  obtains h where "\<forall>p\<in>set ps. g p = h (f p)"
proof
  show "\<forall>p\<in>set ps. g p = (\<lambda>k. g (hd (filter (\<lambda>q. f q = k) ps))) (f p)"
  proof
    fix p
    assume p: "p \<in> set ps"
    then have "filter (\<lambda>q. f q = f p) ps \<noteq> []" by (auto simp: filter_empty_conv)
    then have "hd (filter (\<lambda>q. f q = f p) ps) \<in> set (filter (\<lambda>q. f q = f p) ps)" by (rule hd_in_set)
    then have "hd (filter (\<lambda>q. f q = f p) ps) \<in> set ps" "f (hd (filter (\<lambda>q. f q = f p) ps)) = f p" by simp_all
    then show "g p = (\<lambda>k. g (hd (filter (\<lambda>q. f q = k) ps))) (f p)"
      using consistentD [OF assms p] by simp
  qed
qed

text \<open>Each wallet has one build, so there are as many builds as wallets exactly when no two wallets share one.\<close>

lemma enough_builds:
  assumes "consistent f g ps"
  shows "card (f ` set ps) \<le> card (g ` set ps) \<longleftrightarrow> consistent g f ps"
proof -
  obtain h where h: "\<forall>p\<in>set ps. g p = h (f p)" using consistent_function [OF assms] .
  have img: "g ` set ps = h ` f ` set ps" using h by (auto simp: image_iff)
  have "card (f ` set ps) \<le> card (h ` f ` set ps) \<longleftrightarrow> inj_on h (f ` set ps)"
    using card_image_le [of "f ` set ps" h] eq_card_imp_inj_on [of "f ` set ps" h] card_image [of h "f ` set ps"]
    by (metis List.finite_set finite_imageI le_antisym order_refl)
  also have "\<dots> \<longleftrightarrow> consistent g f ps"
  proof
    assume "inj_on h (f ` set ps)"
    then show "consistent g f ps" using h by (intro consistentI) (metis imageI inj_onD)
  next
    assume c: "consistent g f ps"
    show "inj_on h (f ` set ps)"
    proof (rule inj_onI)
      fix x y
      assume "x \<in> f ` set ps" "y \<in> f ` set ps" and e: "h x = h y"
      then obtain p q where pq: "p \<in> set ps" "q \<in> set ps" "x = f p" "y = f q" by blast
      have "g p = g q" using bspec [OF h pq(1)] bspec [OF h pq(2)] pq(3,4) e by simp
      then show "x = y" using consistentD [OF c pq(1,2)] pq(3,4) by blast
    qed
  qed
  finally show ?thesis by (simp add: img)
qed

lemma population_Nil:
  "population_reasons suite ps = [] \<longleftrightarrow>
     ls_minimumWalletImplementations suite \<le> int (card (le_wallet ` set ps)) \<and>
     ls_minimumMintImplementations suite \<le> int (card (le_implementation ` set ps)) \<and>
     2 \<le> card (le_language ` set ps) \<and> card (le_wallet ` set ps) \<le> card (build_text ` set ps)"
  unfolding population_reasons_def Let_def append_is_Nil_conv if_Nil
  by (auto simp: length_js_set)

definition lifecycle_requirements :: "lifecycle_suite \<Rightarrow> jsval list \<Rightarrow> bool" where
  "lifecycle_requirements suite documents \<longleftrightarrow>
     (let ps = map evidence_view documents in
      list_all validLifecycleEvidence documents \<and>
      distinct (map (\<lambda>p. (le_wallet p, le_mint p)) ps) \<and>
      consistent le_wallet (\<lambda>p. (le_language p, le_sourceDigest p, le_buildDigest p)) ps \<and>
      consistent (\<lambda>p. (le_sourceDigest p, le_buildDigest p)) le_wallet ps \<and>
      consistent le_mint (\<lambda>p. (le_implementation p, le_version p)) ps \<and>
      ls_minimumWalletImplementations suite \<le> int (card (le_wallet ` set ps)) \<and>
      ls_minimumMintImplementations suite \<le> int (card (le_implementation ` set ps)) \<and>
      2 \<le> card (le_language ` set ps) \<and>
      (\<forall>p\<in>set ps. participant_qualifies suite p))"

lemma consistent_cong:
  assumes "\<And>p q. p \<in> set ps \<Longrightarrow> q \<in> set ps \<Longrightarrow> f p = f q \<longleftrightarrow> f' p = f' q"
    and "\<And>p q. p \<in> set ps \<Longrightarrow> q \<in> set ps \<Longrightarrow> g p = g q \<longleftrightarrow> g' p = g' q"
  shows "consistent f g ps \<longleftrightarrow> consistent f' g' ps"
  using assms by (auto simp: consistent_def)

lemma distinct_map_cong:
  assumes "\<And>p q. p \<in> set ps \<Longrightarrow> q \<in> set ps \<Longrightarrow> f p = f q \<longleftrightarrow> g p = g q"
  shows "distinct (map f ps) \<longleftrightarrow> distinct (map g ps)"
  using assms by (auto simp: distinct_map inj_on_def)

lemma accepted_all_iff:
  "accepted_all documents \<longleftrightarrow>
     (let ps = map evidence_view documents in
      list_all validLifecycleEvidence documents \<and>
      distinct (map (\<lambda>p. (le_wallet p, le_mint p)) ps) \<and>
      consistent le_wallet (\<lambda>p. (le_language p, le_sourceDigest p, le_buildDigest p)) ps \<and>
      consistent le_mint (\<lambda>p. (le_implementation p, le_version p)) ps)"
proof (cases "list_all validLifecycleEvidence documents")
  case True
  then have sane: "evidence_sane p" if "p \<in> set (map evidence_view documents)" for p
    using that evidence_view_sane by (auto simp: list_all_iff)
  let ?ps = "map evidence_view documents"
  have "distinct (map participant_id ?ps) \<longleftrightarrow> distinct (map (\<lambda>p. (le_wallet p, le_mint p)) ?ps)"
    by (rule distinct_map_cong) (simp only: participant_id_inject [OF sane sane] prod.inject)
  moreover have "consistent le_wallet wallet_identity ?ps \<longleftrightarrow>
      consistent le_wallet (\<lambda>p. (le_language p, le_sourceDigest p, le_buildDigest p)) ?ps"
    by (rule consistent_cong) (simp_all only: wallet_identity_inject [OF sane sane] build_text_inject [OF sane sane] prod.inject)
  moreover have "consistent le_mint mint_identity_text ?ps \<longleftrightarrow> consistent le_mint (\<lambda>p. (le_implementation p, le_version p)) ?ps"
    by (rule consistent_cong) (simp_all only: mint_text_inject [OF sane sane] prod.inject)
  ultimately show ?thesis by (simp only: accepted_all_def Let_def)
qed (simp add: accepted_all_def)

lemma builds_iff:
  assumes "accepted_all documents"
  shows "card (le_wallet ` set (map evidence_view documents)) \<le> card (build_text ` set (map evidence_view documents)) \<longleftrightarrow>
    consistent (\<lambda>p. (le_sourceDigest p, le_buildDigest p)) le_wallet (map evidence_view documents)"
proof -
  let ?ps = "map evidence_view documents"
  have sane: "evidence_sane p" if "p \<in> set ?ps" for p
    using that assms evidence_view_sane by (auto simp: accepted_all_def list_all_iff Let_def)
  have "consistent le_wallet build_text ?ps"
  proof (rule consistentI)
    fix p q
    assume pq: "p \<in> set ?ps" "q \<in> set ?ps" "le_wallet p = le_wallet q"
    have "consistent le_wallet wallet_identity ?ps" using assms by (simp add: accepted_all_def Let_def)
    then have "wallet_identity p = wallet_identity q" using pq by (rule consistentD)
    then show "build_text p = build_text q" using wallet_identity_inject [OF sane sane] pq(1,2) by blast
  qed
  moreover have "consistent build_text le_wallet ?ps \<longleftrightarrow> consistent (\<lambda>p. (le_sourceDigest p, le_buildDigest p)) le_wallet ?ps"
    by (rule consistent_cong) (simp_all only: build_text_inject [OF sane sane] prod.inject)
  ultimately show ?thesis using enough_builds by blast
qed

lemma filtered_texts:
  "map (\<lambda>s. if P s then Some s else None) texts = map Some xs \<Longrightarrow> texts = xs \<and> (\<forall>x\<in>set xs. P x)"
proof (induction texts arbitrary: xs)
  case (Cons t texts)
  then obtain x xs' where "xs = x # xs'" by (cases xs) auto
  with Cons show ?case by (auto split: if_splits)
qed simp

lemma suite_operations:
  assumes "validateLifecycleReleaseSuite stringify sha256 v = Inr suite"
  shows "set (ls_requiredOperations suite) = set LIFECYCLE_OPERATIONS"
    and "2 \<le> ls_minimumWalletImplementations suite" and "2 \<le> ls_minimumMintImplementations suite"
proof -
  obtain w operations where ops: "lifecycleIdentifierArray w ''requiredOperations'' (Some LIFECYCLE_OPERATIONS) = Inr operations"
      "length operations = length LIFECYCLE_OPERATIONS" "ls_requiredOperations suite = operations"
    and "2 \<le> ls_minimumWalletImplementations suite \<and> 2 \<le> ls_minimumMintImplementations suite"
    using assms by (auto simp: validateLifecycleReleaseSuite_def rbind_eq_Inr ensure_eq_Inr)
  then show "2 \<le> ls_minimumWalletImplementations suite" "2 \<le> ls_minimumMintImplementations suite" by simp_all
  obtain texts where t: "map (\<lambda>s. if kebab_pattern s \<and> s \<in> set LIFECYCLE_OPERATIONS then Some s else None) texts = map Some operations"
      "distinct texts"
    using ops(1) by (auto simp: lifecycleIdentifierArray_def distinct_array_def those_Some_iff split: option.splits if_splits)
  have "texts = operations" and sub: "set operations \<subseteq> set LIFECYCLE_OPERATIONS"
    using filtered_texts [OF t(1)] by auto
  then have "card (set operations) = length LIFECYCLE_OPERATIONS"
    using t(2) ops(2) distinct_card by metis
  moreover have "card (set LIFECYCLE_OPERATIONS) = length LIFECYCLE_OPERATIONS"
    by (rule distinct_card) (simp add: LIFECYCLE_OPERATIONS_def)
  ultimately have "set operations = set LIFECYCLE_OPERATIONS"
    using sub by (metis card_subset_eq List.finite_set)
  then show "set (ls_requiredOperations suite) = set LIFECYCLE_OPERATIONS" by (simp add: ops(3))
qed

text \<open>
  C26: The lifecycle gate is exact. For a suite that validates, and so requires every operation of a wallet and
  at least two wallets and two mints, the gate answers, and it passes exactly when: every document is
  well-formed evidence; no wallet is counted twice with a mint; a wallet keeps one language and one
  build throughout, two wallets never share a build, and a mint keeps one implementation and version;
  there are enough wallets, enough mint implementations and two languages; and every participant was
  produced by this very suite, passed the secret scan, supports every required operation, and passed
  every required scenario exactly once, with a replay digest, and in it every required invariant
  exactly once, observed or derived and never merely claimed.
\<close>
theorem lifecycle_gate_exact:
  assumes "validateLifecycleReleaseSuite stringify sha256 v = Inr suite"
  shows "\<exists>reasons. evaluateLifecycleReleaseSuite stringify sha256 lc v documents =
      Inr (lifecycle_requirements suite documents, reasons) \<and>
    (reasons = [] \<longleftrightarrow> lifecycle_requirements suite documents) \<and>
    set (ls_requiredOperations suite) = set LIFECYCLE_OPERATIONS \<and>
    2 \<le> ls_minimumWalletImplementations suite \<and> 2 \<le> ls_minimumMintImplementations suite"
proof -
  let ?s = "intake documents" and ?ps = "map evidence_view documents"
  let ?all = "in_reasons ?s @ population_reasons suite (in_accepted ?s) @ concat (map (participant_reasons suite) (in_accepted ?s))"
  have "?all = [] \<longleftrightarrow> lifecycle_requirements suite documents"
  proof (cases "accepted_all documents")
    case True
    then have "in_reasons ?s = []" "in_accepted ?s = ?ps"
      using intake_decides [of documents] by (auto simp: tables_ok_def)
    then have "?all = [] \<longleftrightarrow> population_reasons suite ?ps = [] \<and> (\<forall>p\<in>set ?ps. participant_qualifies suite p)"
      by (auto simp: concat_eq_Nil_conv participant_reasons_Nil)
    then show ?thesis
      using True unfolding population_Nil builds_iff [OF True] accepted_all_iff lifecycle_requirements_def Let_def by blast
  next
    case False
    then have "in_reasons ?s \<noteq> []" using intake_decides by blast
    moreover have "\<not> lifecycle_requirements suite documents"
      using False unfolding accepted_all_iff lifecycle_requirements_def Let_def by blast
    ultimately show ?thesis by simp
  qed
  then show ?thesis
    using assms suite_operations [OF assms]
    by (simp add: evaluateLifecycleReleaseSuite_def Let_def intake_def start_intake_def)
qed

section \<open>Instances\<close>

definition demo_digest :: "char \<Rightarrow> string" where
  "demo_digest c = ''sha256:'' @ replicate 64 c"

definition demo_policy :: jsval where
  "demo_policy = JObj
     [(''schemaVersion'', js_int 3), (''releaseSuiteDigest'', JStr (demo_digest CHR ''0'')), (''profile'', JStr ''delivery-v1''),
      (''minimumQualifyingPairs'', js_int 1), (''requireCrossImplementation'', JBool True),
      (''requireCrossLanguage'', JBool True), (''requireDistinctBuilds'', JBool True), (''minimumDistinctMints'', js_int 1),
      (''minimumEvidence'', JObj [(''sender'', JStr ''T1''), (''receiver'', JStr ''T2'')]),
      (''requiredInvariants'', text_array [''reproducibility'']), (''requiredScenarios'', text_array [''lost-response'']),
      (''acceptedConfidence'', text_array [''derived''])]"

definition demo_role :: role_capability where
  "demo_role = \<lparr>rk_transports = [Adapter_http], rk_profiles = [''delivery-v1''], rk_durability = Persistent_level,
     rk_tier = T2, rk_sources = [''runner'']\<rparr>"

definition demo_participant :: "string \<Rightarrow> string \<Rightarrow> char \<Rightarrow> matrix_participant" where
  "demo_participant name language c = \<lparr>mp_participant = name, mp_capabilities =
     \<lparr>ac_contract = None, ac_implementation = \<lparr>ii_id = name, ii_version = ''1'', ii_language = language, ii_runtime = ''r'',
        ii_sourceDigest = demo_digest c, ii_buildDigest = demo_digest c\<rparr>,
      ac_sender = Some demo_role, ac_receiver = Some demo_role, ac_nuts = [], ac_encodings = [], ac_mints = [],
      ac_crashBoundaries = None\<rparr>\<rparr>"

definition demo_results :: "invariant_result list" where
  "demo_results = [passed Reproducibility Conf_derived []]"

definition demo_executor :: "unit matrix_executor" where
  "demo_executor profile sender receiver = ret (Executed
     \<lparr>me_evidence = None, me_invariants = Some demo_results,
      me_mints = Some [\<lparr>mn_id = ''m'', mn_implementation = ''nutshell'', mn_version = None\<rparr>],
      me_scenarios = Some [\<lparr>ms_id = ''lost-response'', ms_seed = ''7'', ms_status = Sc_passed,
        ms_requiredInvariants = [Reproducibility], ms_invariants = demo_results, ms_capabilities = None,
        ms_componentVersions = None, ms_imageDigests = None, ms_code = None, ms_reason = None\<rparr>],
      me_releaseSuiteDigest = Some (demo_digest CHR ''0'')\<rparr>)"

definition demo_contract :: contract_metadata where
  "demo_contract = \<lparr>cm_apiVersion = 1, cm_schemaVersion = 2, cm_specDigest = demo_digest CHR ''0''\<rparr>"

definition demo_matrix :: "(string + matrix_case list) \<times> unit" where
  "demo_matrix = run_matrix demo_contract demo_executor ''delivery-v1'' [demo_participant ''a'' ''ts'' CHR ''1'']
     [demo_participant ''b'' ''rust'' CHR ''2''] ()"

abbreviation demo_gate :: "matrix_case list \<Rightarrow> string + gate_result" where
  "demo_gate \<equiv> evaluateReleasePolicy (\<lambda>_. []) (\<lambda>_ _. 0) demo_policy"

lemma demo_release:
  "case demo_matrix of (Inr cases, _) \<Rightarrow> (case demo_gate cases of Inr result \<Rightarrow> gt_passed result | Inl _ \<Rightarrow> False) | _ \<Rightarrow> False"
  by code_simp

lemma demo_released:
  obtains policy cases result where "validateReleasePolicy demo_policy = Inr policy" "demo_matrix = (Inr cases, ())"
    "demo_gate cases = Inr result" "gt_passed result"
proof -
  obtain m where m: "demo_matrix = (m, ())" by (cases demo_matrix) auto
  obtain cases where c: "m = Inr cases" using demo_release [unfolded m] by (cases m) simp_all
  then obtain result where r: "demo_matrix = (Inr cases, ())" "demo_gate cases = Inr result" "gt_passed result"
    using demo_release [unfolded m c] m by (cases "demo_gate cases") simp_all
  moreover obtain policy where "validateReleasePolicy demo_policy = Inr policy"
    using r(2) by (auto simp: evaluateReleasePolicy_def rbind_eq_Inr)
  ultimately show ?thesis using that by blast
qed

lemma release_gate_exact_witness:
  "\<exists>policy cases. validateReleasePolicy demo_policy = Inr policy \<and> demo_matrix = (Inr cases, ()) \<and>
     gate_requirements (\<lambda>_. []) policy (eligible policy cases)"
proof -
  obtain policy cases result where r: "validateReleasePolicy demo_policy = Inr policy" "demo_matrix = (Inr cases, ())"
      "demo_gate cases = Inr result" "gt_passed result"
    by (rule demo_released)
  show ?thesis
    using release_gate_exact [OF r(1), of "\<lambda>_. []" "\<lambda>_ _. 0" cases] r by auto
qed


definition demo_suite :: jsval where
  "demo_suite = JObj
     [(''schemaVersion'', js_int 1), (''profile'', JStr ''wallet-lifecycle-v1''), (''releaseSuiteDigest'', JStr (demo_digest CHR ''0'')),
      (''minimumWalletImplementations'', js_int 2), (''minimumMintImplementations'', js_int 2),
      (''requireCrossLanguage'', JBool True), (''requireDistinctBuilds'', JBool True), (''requireReplayEvidence'', JBool True),
      (''allowSkippedRequired'', JBool False), (''requiredOperations'', text_array LIFECYCLE_OPERATIONS),
      (''requiredScenarios'', text_array [''lost-swap'']), (''requiredInvariants'', text_array [''value-conserved''])]"

definition demo_document :: "string \<Rightarrow> string \<Rightarrow> char \<Rightarrow> string \<Rightarrow> jsval" where
  "demo_document wallet language c implementation = JObj
     [(''wallet'', JObj [(''id'', JStr wallet), (''language'', JStr language), (''sourceDigest'', JStr (demo_digest c)),
        (''buildDigest'', JStr (demo_digest c))]),
      (''mint'', JObj [(''id'', JStr implementation), (''implementation'', JStr implementation)]),
      (''operations'', text_array LIFECYCLE_OPERATIONS), (''releaseSuiteDigest'', JStr (demo_digest CHR ''0'')),
      (''secretScanPassed'', JBool True),
      (''scenarios'', js_array [JObj [(''id'', JStr ''lost-swap''), (''status'', JStr ''passed''),
        (''replayDigest'', JStr (demo_digest c)),
        (''invariants'', js_array [JObj [(''id'', JStr ''value-conserved''), (''status'', JStr ''passed''),
           (''confidence'', JStr ''observed'')]])]])]"

definition demo_documents :: "jsval list" where
  "demo_documents = [demo_document ''a'' ''ts'' CHR ''1'' ''nutshell'', demo_document ''b'' ''rust'' CHR ''2'' ''cdk'']"

lemma demo_lifecycle:
  "case evaluateLifecycleReleaseSuite (\<lambda>_. []) (\<lambda>_. replicate 64 CHR ''0'') (\<lambda>_ _. 0) demo_suite demo_documents of
     Inr (ok, _) \<Rightarrow> ok | Inl _ \<Rightarrow> False"
  by code_simp

lemma lifecycle_gate_exact_witness:
  "\<exists>suite. validateLifecycleReleaseSuite (\<lambda>_. []) (\<lambda>_. replicate 64 CHR ''0'') demo_suite = Inr suite \<and>
     lifecycle_requirements suite demo_documents"
proof -
  let ?s = "\<lambda>_. []" and ?h = "\<lambda>_. replicate 64 CHR ''0''" and ?lc = "\<lambda>_ _. 0"
  obtain reasons where e: "evaluateLifecycleReleaseSuite ?s ?h ?lc demo_suite demo_documents = Inr (True, reasons)"
    using demo_lifecycle by (auto split: sum.splits prod.splits)
  then obtain suite where v: "validateLifecycleReleaseSuite ?s ?h demo_suite = Inr suite"
    by (auto simp: evaluateLifecycleReleaseSuite_def rbind_eq_Inr)
  from lifecycle_gate_exact [OF v, of ?lc demo_documents] e v show ?thesis by auto
qed

end
