(* ===== verification/Spec2Isabelle.thy ===== *)
theory Spec2Isabelle
  imports Negotiation Duplicate Receiver_Outcomes Sender_Properties Oracle_Spec Lifecycle_Properties Mint_Gateway Fault_Defaults Doctor_Properties Runner_Properties Release_Properties
begin

text \<open>
  A verification of the core of cashu-fault-lab: the delivery protocol for Cashu payments, its reference
  receiver and reference sender, the gateway that redeems proofs at a mint, and the oracles that judge
  what a laboratory run did, the fault injectors, the scenario runner and the wallet doctor. Paths below are relative to \<open>src/\<close>.

  \<^bold>\<open>The program.\<close> A sender pays a request by delivering a payload of proofs, over HTTP or Nostr, as often
  as it takes. The receiver (\<open>apps/reference-receiver\<close>) checks the payload, claims its proofs in a store,
  swaps them at the mint, stores the replacement proofs, credits the merchant and answers with a
  versioned receipt; a crash or a lost answer is repaired by recovery, which asks the mint to restore or
  replay the swap. The sender (\<open>apps/reference-sender\<close>) saves a payment before it sends it, merges the
  receipts it sees, and tells its wallet to keep, settle or release the reserved proofs. Both use
  \<open>packages/delivery-core\<close> for identifiers, hashes, the wire format and the receipt rules. The oracle
  (\<open>packages/oracle\<close>) folds the observations of a run and checks them; the lifecycle packages
  (\<open>packages/wallet-lifecycle-core\<close>, \<open>packages/wallet-lifecycle-oracle\<close>) do the same for the operations
  of a wallet.

  \<^bold>\<open>The library.\<close>
  \<^item> \<open>Prelude\<close>, \<open>Js_Values\<close>, \<open>Js_Map\<close>, \<open>Effects\<close>: calls that may throw as sums, the values of
    JavaScript the sources use, its insertion-ordered \<open>Map\<close>, asynchronous functions as state transformers
    with a rule set for invariants.
  \<^item> \<open>Version_Register\<close>: the locale of a register that keeps the newest versioned record it is shown.
    Interpreted for senders (\<open>Receipt\<close>) and for the oracle (\<open>Oracle_Spec\<close>).

  \<^bold>\<open>Delivery core\<close> (\<open>packages/delivery-core/src\<close>).
  \<^item> \<open>Protocol_Id\<close>: \<open>ids.ts\<close>, \<open>validators.ts\<close>. The accepted language, and that generation never fails and
    can be read back.
  \<^item> \<open>Mint_Url\<close>: \<open>mint-url.ts\<close>. When normalising twice is normalising once.
  \<^item> \<open>Amounts\<close>: \<open>amount.ts\<close>. The exact domain and value of the net amount.
  \<^item> \<open>Fingerprint\<close>: \<open>fingerprint.ts\<close>. What the two hashes bind and what they do not depend on.
  \<^item> \<open>Delivery_Errors\<close>, \<open>Payload\<close>, \<open>Negotiation\<close>: \<open>errors.ts\<close>, \<open>payload.ts\<close>, \<open>request.ts\<close>. Round trip of a
    payload, and exactly which tags negotiate a delivery.
  \<^item> \<open>Receipt\<close>: \<open>receipt.ts\<close>. Round trip, the order in a chain of receipts, convergence of observers.
  \<^item> \<open>Duplicate\<close>, \<open>Crash_Boundary\<close>: \<open>duplicate.ts\<close>, \<open>crash-boundary.ts\<close>. Exclusive bindings, one-shot
    crashes.

  \<^bold>\<open>Reference receiver\<close> (\<open>apps/reference-receiver/src\<close>).
  \<^item> \<open>Receiver_Store\<close>: \<open>domain/types.ts\<close>, \<open>domain/request-binding.ts\<close>, \<open>adapters/store-helpers.ts\<close> and every
    operation of \<open>adapters/memory-store.ts\<close> as a function on the record \<open>store_state\<close>.
  \<^item> \<open>Store_Safety\<close>, \<open>Store_Properties\<close>: the life of one delivery as the step relation \<open>record_step\<close>, the
    effect of an operation on the whole store as \<open>store_effect\<close>; every operation implements it. From it:
    no double credit, credits backed once and permanent, no rejection once inputs may be spent, receipts
    that form a lawful history, and senders that agree with the store.
  \<^item> \<open>Receiver\<close>: \<open>domain/accept-delivery.ts\<close>, \<open>domain/accept-payload.ts\<close>, \<open>domain/recover-delivery.ts\<close> over
    ports for clock, verifier, mint and crash checkpoint.
  \<^item> \<open>Receiver_Safety\<close>, \<open>Receiver_Outcomes\<close>: the locale \<open>receiver_invariant\<close> turns an invariant of the single
    steps into one of a receiver's whole life. Its two interpretations give that the handlers act on the
    store through its operations only, and that the mint is asked to swap at most once. Then what a
    delivery ends in for every answer of the mint, and that recovery settles from every phase.
  \<^item> \<open>Mint_Gateway\<close>: \<open>adapters/cashu-ts-mint.ts\<close>, \<open>adapters/swap-plan.ts\<close>, \<open>adapters/bounded-json.ts\<close>.
    Exact plans, results that match their plan, and when a swap is reported as not consumed.

  \<^bold>\<open>Reference sender\<close> (\<open>apps/reference-sender/src\<close>).
  \<^item> \<open>Retry\<close>, \<open>Sender\<close>: \<open>retry.ts\<close>, \<open>state.ts\<close>, \<open>send-payment.ts\<close>, the ports.
  \<^item> \<open>Sender_Safety\<close>, \<open>Sender_Properties\<close>: the locale \<open>sender_store\<close> (what a payment needs of its state
    store, interpreted on the memory store) and, from it, that only saved bytes are sent, proofs are
    released only against a rejection, reservations are never forgotten and attempts are bounded.

  \<^bold>\<open>Oracles.\<close>
  \<^item> \<open>Oracle\<close>, \<open>Oracle_Spec\<close>: \<open>packages/oracle/src\<close> \<open>commands.ts\<close>, \<open>model.ts\<close>, \<open>invariants.ts\<close>. The check
    decides \<open>oracle_safe\<close>, a specification over the observations alone.
  \<^item> \<open>Lifecycle\<close>, \<open>Lifecycle_Oracle\<close>, \<open>Lifecycle_Properties\<close>: \<open>packages/wallet-lifecycle-core/src\<close> and
    \<open>packages/wallet-lifecycle-oracle/src\<close>. Operations move forward only; accepted runs conserve value.

  \<^bold>\<open>Fault injection.\<close>
  \<^item> \<open>Fault_Budget\<close>: the locale \<open>fault_book\<close> of a book of fault rules; over any sequence of operations what the
    evidence reports as applied is what was applied, and no rule exceeds its count.
  \<^item> \<open>Http_Faults\<close>: \<open>apps/http-fault-gateway/src\<close> \<open>rules.ts\<close>, \<open>control.ts\<close>, with the interpretation of \<open>fault_book\<close>.
  \<^item> \<open>Http_Gateway\<close>, \<open>Http_Gateway_Properties\<close>: \<open>proxy.ts\<close>. The handlers are cut at their awaits into stages, so
    every interleaving of concurrent requests is a list of events. Evidence is exact and answers are genuine.
  \<^item> \<open>Nostr_Faults\<close>: \<open>apps/nostr-fault-relay/src/rules.ts\<close>, a second interpretation of \<open>fault_book\<close>.
  \<^item> \<open>Nostr_Relay\<close>: \<open>relay.ts\<close>. Sockets are numbers, a delayed history query is a pending one that finishes at a later
    event. What a query answers is what its filters ask of the stored events, less the partition.
  \<^item> \<open>Fault_Defaults\<close>: how the two fault injectors treat a duplicate rule with no count.

  \<^bold>\<open>Wallet doctor.\<close>
  \<^item> \<open>Js_Set\<close>: sets and sorting of JavaScript.
  \<^item> \<open>Doctor_Core\<close>: \<open>packages/wallet-doctor-core/src\<close> (observations, reconstruction, plan simulation), with the locale
    \<open>event_views\<close> of mergeable events, interpreted for tokens and wallet events.
  \<^item> \<open>Doctor_Diagnose\<close>, \<open>Doctor_Plan\<close>: \<open>packages/wallet-doctor-oracle/src\<close> (rules, building and checking of plans).
  \<^item> \<open>Doctor_Capture\<close>: \<open>packages/wallet-doctor-contract/src/validation.ts\<close>, the contract of a capture.
  \<^item> \<open>Doctor_Facts\<close>, \<open>Doctor_Views\<close>, \<open>Doctor_Merge\<close>, \<open>Doctor_Findings\<close>: what an accepted capture guarantees, and the
    results of the loops as sets and sums.
  \<^item> \<open>Doctor_Simulation\<close>, \<open>Doctor_Own_Plan\<close>, \<open>Doctor_Own_Run\<close>, \<open>Doctor_Own_Check\<close>, \<open>Doctor_Cover\<close>: the plan that the
    doctor builds from its own diagnosis, in closed form, what it leaves, and each test of the check on it.
  \<^item> \<open>Doctor_Agreement\<close>, \<open>Doctor_Properties\<close>: when the relays agree, where the money of a balance is, and when the
    doctor's own plan passes the doctor's own check.

  \<^bold>\<open>Scenario runs.\<close>
  \<^item> \<open>Oracle_Evidence\<close>: \<open>packages/oracle/src/evidence.ts\<close>, the eighteen registered invariants and their evaluation.
  \<^item> \<open>Evidence_Facts\<close>, \<open>Oracle_Verdict\<close>: what a passed result states of the observations, when a report has a failed
    result, and how the first violation hides others.
  \<^item> \<open>Virtual_Scheduler\<close>: \<open>packages/scenario-runner/src/scheduler.ts\<close>. Callbacks are a parameter; the locales
    \<open>scheduler_callbacks\<close> and \<open>keeping_callbacks\<close> say what they may do to the scheduler.
  \<^item> \<open>Run_History\<close>: \<open>history.ts\<close>, redaction. \<open>Scenario_Replay\<close>: \<open>replay.ts\<close>, minimisation of failing traces.
  \<^item> \<open>Scenario_Runner\<close>, \<open>Runner_Properties\<close>: \<open>runner.ts\<close>. What a run without an error establishes, and that no
    payment secret leaves a run.

  \<^bold>\<open>Release gates.\<close>
  \<^item> \<open>Adapter_Contract\<close>: \<open>packages/adapter-contract/src\<close> \<open>types.ts\<close>, \<open>identity.ts\<close>, \<open>contract-metadata.ts\<close>.
  \<^item> \<open>Release_Matrix\<close>: \<open>packages/scenario-runner/src/matrix.ts\<close>. \<open>Release_Policy\<close>, \<open>Release_Lifecycle\<close>: \<open>release-policy.ts\<close>
    and \<open>release-suite.ts\<close>, the two gates.
  \<^item> \<open>Release_Properties\<close>: each gate is equivalent to its requirements, and what a released pair rests on.
  \<^bold>\<open>Parameters.\<close> Code from outside the repository is an argument: the URL parser, the CBOR encoder,
  SHA-256, the curve check, the JSON and UTF-8 codecs (record \<open>platform\<close>), the functions of cashu-ts, the
  network, the clock and the sources of randomness. What a theorem needs of one is a hypothesis of that
  theorem, and its witness instantiates it by a concrete function.

  \<^bold>\<open>Bounds and fuel.\<close> No definition uses fuel: every loop of the modelled code recurses on its data, on the
  attempts that are left or on a measure proved to decrease. Integers are unbounded with the safe-integer
  tests of the code written out, as explained in \<open>Js_Values\<close>. Concurrency is modelled by sequences of
  operations: a store transaction is atomic in the code (one promise chain), so every interleaving of
  callers is a sequence of store operations, and the theorems quantify over all of them.

  \<^bold>\<open>Not modelled.\<close> HTTP and Nostr servers and clients, SQL text and the postgres stores, the adapters over
  third-party wallets, process and container management of the command line, report rendering and the
  website: input and output with little logic of their own, or code of other packages. The manifest
  lists every part with its reason.
\<close>

end
